(* ===== verification/Prelude.thy ===== *)
theory Prelude
  imports Main "HOL-Library.Word" "HOL-Library.List_Lexorder" "HOL-Library.Char_ord"
    "HOL-Library.Product_Lexorder" "HOL-Library.Multiset" "HOL-Library.Code_Target_Nat"
begin

text \<open>
  Shared vocabulary of the development: Rust's \<open>Result\<close>, machine integers as words, and the
  operations of Rust's standard library on \<open>str\<close> that the program uses.

  A Rust \<open>String\<close> is UTF-8, and is modelled by the list of its bytes (an Isabelle
  \<open>string\<close>, whose characters are bytes).  Byte order is then Rust's \<open>Ord\<close> on
  strings, an ASCII pattern is found where Rust finds it, and \<open>trim\<close> and
  \<open>char::is_control\<close> are written out on the encodings of the code points concerned.
\<close>

unbundle bit_operations_syntax

named_theorems model_simps \<open>unfolding rules of the model's small helpers\<close>
named_theorems frame_simps \<open>what an operation leaves unchanged\<close>
named_theorems inv_intros \<open>preservation of the component invariants\<close>

type_synonym u8 = "8 word"
type_synonym u16 = "16 word"
type_synonym u32 = "32 word"
type_synonym u64 = "64 word"

section \<open>Results\<close>

datatype ('a, 'e) result = Ok 'a | Err 'e

primrec is_ok :: "('a, 'e) result \<Rightarrow> bool" where
  "is_ok (Ok _) = True"
| "is_ok (Err _) = False"

primrec map_ok :: "('a \<Rightarrow> 'b) \<Rightarrow> ('a, 'e) result \<Rightarrow> ('b, 'e) result" where
  "map_ok f (Ok x) = Ok (f x)"
| "map_ok f (Err e) = Err e"

text \<open>The question-mark operator: continue with the value, or return the error.\<close>

primrec and_then :: "('a, 'e) result \<Rightarrow> ('a \<Rightarrow> ('b, 'e) result) \<Rightarrow> ('b, 'e) result" where
  "and_then (Ok x) f = f x"
| "and_then (Err e) f = Err e"

definition ok_or :: "'e \<Rightarrow> 'a option \<Rightarrow> ('a, 'e) result" where
  "ok_or e x = (case x of None \<Rightarrow> Err e | Some y \<Rightarrow> Ok y)"

lemma ok_or_simps [simp]: "ok_or e None = Err e" "ok_or e (Some x) = Ok x"
  by (simp_all add: ok_or_def)

lemma and_then_eq_Ok:
  "and_then r f = Ok y \<longleftrightarrow> (\<exists>x. r = Ok x \<and> f x = Ok y)"
  by (cases r) auto

lemma and_then_eq_Err:
  "and_then r f = Err e \<longleftrightarrow> r = Err e \<or> (\<exists>x. r = Ok x \<and> f x = Err e)"
  by (cases r) auto

lemma is_ok_iff: "is_ok r \<longleftrightarrow> (\<exists>x. r = Ok x)"
  by (cases r) auto

lemma map_ok_eq_Ok [simp]: "map_ok f r = Ok y \<longleftrightarrow> (\<exists>x. r = Ok x \<and> y = f x)"
  by (cases r) auto

lemma map_ok_eq_Err [simp]: "map_ok f r = Err e \<longleftrightarrow> r = Err e"
  by (cases r) auto

text \<open>Run a fallible step over a list, stopping at the first error (\<open>collect\<close> into a \<open>Result\<close>).\<close>

fun try_map :: "('a \<Rightarrow> ('b, 'e) result) \<Rightarrow> 'a list \<Rightarrow> ('b list, 'e) result" where
  "try_map f [] = Ok []"
| "try_map f (x # xs) = and_then (f x) (\<lambda>y. map_ok ((#) y) (try_map f xs))"

lemma try_map_Ok_length: "try_map f xs = Ok ys \<Longrightarrow> length ys = length xs"
  by (induction xs arbitrary: ys) (auto simp: and_then_eq_Ok)

lemma try_map_all_Ok: "(\<And>x. x \<in> set xs \<Longrightarrow> f x = Ok (g x)) \<Longrightarrow> try_map f xs = Ok (map g xs)"
  by (induction xs) auto

lemma fst_image_iff: "k \<in> fst ` A \<longleftrightarrow> (\<exists>v. (k, v) \<in> A)"
  by force

lemma map_filter_keys:
  "(\<And>s e. (s, e) \<in> set xs \<Longrightarrow> g e = s) \<Longrightarrow>
     map (\<lambda>(s, e). g e) (filter (\<lambda>(s, e). P s) xs) = filter P (map fst xs)"
  by (induction xs) auto

lemma map_sort_key: "map f (sort_key f xs) = sort (map f xs)"
  by (rule properties_for_sort [symmetric]) simp_all

lemma unat_of_nat_small: "n < 2 ^ LENGTH('w) \<Longrightarrow> unat (of_nat n :: 'w::len word) = n"
  by (simp add: unsigned_of_nat take_bit_nat_eq_self)

section \<open>Decimal numbers\<close>

text \<open>\<open>format!("{n}")\<close> of an unsigned integer.\<close>

fun dec_nat :: "nat \<Rightarrow> string" where
  "dec_nat n = (if n < 10 then [char_of (48 + n)] else dec_nat (n div 10) @ [char_of (48 + n mod 10)])"

declare dec_nat.simps [simp del]

definition dec :: "'w::len word \<Rightarrow> string" where
  "dec w = dec_nat (unat w)"

definition dec_digit :: "char \<Rightarrow> nat option" where
  "dec_digit c = (let n = of_char c :: nat in if 48 \<le> n \<and> n \<le> 57 then Some (n - 48) else None)"

text \<open>
  \<open>str::parse\<close> of an unsigned integer with largest value \<open>m\<close>: an optional leading
  plus sign, at least one digit, digits only, and an overflow check at every step.
\<close>

fun parse_digits :: "nat \<Rightarrow> nat \<Rightarrow> string \<Rightarrow> nat option" where
  "parse_digits m acc [] = Some acc"
| "parse_digits m acc (c # cs) =
     (case dec_digit c of
        None \<Rightarrow> None
      | Some d \<Rightarrow> (if acc * 10 + d \<le> m then parse_digits m (acc * 10 + d) cs else None))"

definition parse_unsigned :: "nat \<Rightarrow> string \<Rightarrow> nat option" where
  "parse_unsigned m s =
     (case s of
        [] \<Rightarrow> None
      | c # cs \<Rightarrow>
          if c = CHR ''+'' then (if cs = [] then None else parse_digits m 0 cs)
          else parse_digits m 0 s)"

lemma dec_digit_char_of [simp]: "d < 10 \<Longrightarrow> dec_digit (char_of (48 + d)) = Some d"
  by (simp add: dec_digit_def of_char_of Let_def)

lemma dec_digit_char_of_mod [simp]: "dec_digit (char_of (48 + n mod 10)) = Some (n mod 10)"
  by (rule dec_digit_char_of) simp

lemma parse_digits_append:
  "parse_digits m acc (xs @ ys) =
     (case parse_digits m acc xs of None \<Rightarrow> None | Some a \<Rightarrow> parse_digits m a ys)"
  by (induction m acc xs rule: parse_digits.induct) (auto split: option.splits)

lemma parse_digits_dec_nat: "n \<le> m \<Longrightarrow> parse_digits m 0 (dec_nat n) = Some n"
proof (induction n rule: dec_nat.induct)
  case (1 n)
  show ?case
  proof (cases "n < 10")
    case True
    then show ?thesis using 1 by (simp add: dec_nat.simps [of n])
  next
    case False
    then have "parse_digits m 0 (dec_nat (n div 10)) = Some (n div 10)"
      using 1 by simp
    moreover have "n div 10 * 10 + n mod 10 = n" by simp
    ultimately show ?thesis
      using False 1(2) by (simp add: dec_nat.simps [of n] parse_digits_append)
  qed
qed

lemma dec_nat_nonempty [simp]: "dec_nat n \<noteq> []"
  by (subst dec_nat.simps) simp

lemma dec_nat_digits: "c \<in> set (dec_nat n) \<Longrightarrow> 48 \<le> (of_char c :: nat) \<and> (of_char c :: nat) \<le> 57"
proof (induction n rule: dec_nat.induct)
  case (1 n)
  have digit: "48 \<le> (of_char (char_of (48 + d :: nat)) :: nat)
      \<and> (of_char (char_of (48 + d :: nat)) :: nat) \<le> 57" if "d < 10" for d :: nat
    using that by (simp add: of_char_of)
  show ?case
  proof (cases "n < 10")
    case True
    then show ?thesis using 1(2) digit [of n] by (simp add: dec_nat.simps [of n])
  next
    case False
    then have "c \<in> set (dec_nat (n div 10)) \<or> c = char_of (48 + n mod 10 :: nat)"
      using 1(2) by (auto simp: dec_nat.simps [of n])
    moreover have "n mod 10 < 10" by simp
    ultimately show ?thesis using 1(1) [OF False] digit [of "n mod 10"] by blast
  qed
qed

lemma dec_nat_not_plus: "CHR ''+'' \<notin> set (dec_nat n)"
  using dec_nat_digits [of "CHR ''+''" n] by auto

lemma dec_nat_not_colon: "CHR '':'' \<notin> set (dec_nat n)"
  using dec_nat_digits [of "CHR '':''" n] by auto

lemma parse_unsigned_dec_nat [simp]:
  assumes "n \<le> m"
  shows "parse_unsigned m (dec_nat n) = Some n"
proof -
  obtain c cs where eq: "dec_nat n = c # cs"
    by (cases "dec_nat n") auto
  then have "c \<noteq> CHR ''+''"
    using dec_nat_not_plus [of n] by auto
  then show ?thesis
    using parse_digits_dec_nat [OF assms] by (simp add: parse_unsigned_def eq)
qed

lemma parse_digits_bound: "parse_digits m acc s = Some v \<Longrightarrow> acc \<le> m \<Longrightarrow> v \<le> m"
  by (induction m acc s rule: parse_digits.induct) (auto split: option.splits if_splits)

lemma parse_unsigned_bound: "parse_unsigned m s = Some v \<Longrightarrow> v \<le> m"
  by (auto simp: parse_unsigned_def simp del: parse_digits.simps dest!: parse_digits_bound
      split: list.splits if_splits)

lemma dec_nat_inj:
  assumes "dec_nat a = dec_nat b"
  shows "a = b"
proof -
  have "Some a = parse_unsigned (max a b) (dec_nat a)" by (rule parse_unsigned_dec_nat [symmetric]) simp
  also have "\<dots> = parse_unsigned (max a b) (dec_nat b)" unfolding assms ..
  also have "\<dots> = Some b" by (rule parse_unsigned_dec_nat) simp
  finally show ?thesis by simp
qed

definition u64_max :: nat where
  "u64_max = 2 ^ 64 - 1"

definition parse_u64_str :: "string \<Rightarrow> u64 option" where
  "parse_u64_str s = map_option of_nat (parse_unsigned u64_max s)"

definition parse_u32_str :: "string \<Rightarrow> u32 option" where
  "parse_u32_str s = map_option of_nat (parse_unsigned (2 ^ 32 - 1) s)"

definition parse_u16_str :: "string \<Rightarrow> u16 option" where
  "parse_u16_str s = map_option of_nat (parse_unsigned (2 ^ 16 - 1) s)"

lemma unat_u64_le: "unat (w :: u64) \<le> u64_max"
proof -
  have "unat w < 2 ^ LENGTH(64)" by (rule unsigned_less)
  then show ?thesis by (simp add: u64_max_def)
qed

lemma parse_u64_dec [simp]: "parse_u64_str (dec (w :: u64)) = Some w"
  by (simp add: parse_u64_str_def dec_def unat_u64_le)

lemma parse_u32_dec [simp]: "parse_u32_str (dec (w :: u32)) = Some w"
proof -
  have "unat w \<le> 2 ^ 32 - 1" using unsigned_less [of w, where 'a = nat] by simp
  then show ?thesis by (simp add: parse_u32_str_def dec_def)
qed

lemma dec_inj: "dec (a :: 'w::len word) = dec b \<longleftrightarrow> a = b"
  using dec_nat_inj [of "unat a" "unat b"] by (auto simp: dec_def unsigned_word_eqI)

lemma dec_not_colon: "CHR '':'' \<notin> set (dec w)"
  by (simp add: dec_def dec_nat_not_colon)

section \<open>Strings as UTF-8 byte lists\<close>

definition byte :: "char \<Rightarrow> nat" where
  "byte c = of_char c"

text \<open>
  The code points with the Unicode property \<open>White_Space\<close> are U+0009 to U+000D and U+0020 (one
  byte), U+0085 and U+00A0 (two bytes), U+1680, U+2000 to U+200A, U+2028, U+2029, U+202F, U+205F
  and U+3000 (three bytes).
\<close>

definition ws1 :: "char \<Rightarrow> bool" where
  "ws1 a \<longleftrightarrow> (9 \<le> byte a \<and> byte a \<le> 13) \<or> byte a = 32"

definition ws2 :: "char \<Rightarrow> char \<Rightarrow> bool" where
  "ws2 a b \<longleftrightarrow> byte a = 0xC2 \<and> (byte b = 0x85 \<or> byte b = 0xA0)"

definition ws3 :: "char \<Rightarrow> char \<Rightarrow> char \<Rightarrow> bool" where
  "ws3 a b c \<longleftrightarrow>
     byte a = 0xE1 \<and> byte b = 0x9A \<and> byte c = 0x80
     \<or> byte a = 0xE2 \<and> byte b = 0x80
         \<and> (0x80 \<le> byte c \<and> byte c \<le> 0x8A \<or> byte c = 0xA8 \<or> byte c = 0xA9 \<or> byte c = 0xAF)
     \<or> byte a = 0xE2 \<and> byte b = 0x81 \<and> byte c = 0x9F
     \<or> byte a = 0xE3 \<and> byte b = 0x80 \<and> byte c = 0x80"

text \<open>The number of bytes of a white-space code point at the start of the list, 0 if there is none.\<close>

fun ws_len :: "string \<Rightarrow> nat" where
  "ws_len (a # b # c # s) = (if ws1 a then 1 else if ws2 a b then 2 else if ws3 a b c then 3 else 0)"
| "ws_len [a, b] = (if ws1 a then 1 else if ws2 a b then 2 else 0)"
| "ws_len [a] = (if ws1 a then 1 else 0)"
| "ws_len [] = 0"

text \<open>The same at the end of a string, on the reversed list.\<close>

fun ws_len_rev :: "string \<Rightarrow> nat" where
  "ws_len_rev (c # b # a # s) = (if ws1 c then 1 else if ws2 b c then 2 else if ws3 a b c then 3 else 0)"
| "ws_len_rev [c, b] = (if ws1 c then 1 else if ws2 b c then 2 else 0)"
| "ws_len_rev [c] = (if ws1 c then 1 else 0)"
| "ws_len_rev [] = 0"

function strip_ws :: "(string \<Rightarrow> nat) \<Rightarrow> string \<Rightarrow> string" where
  "strip_ws f s = (if f s = 0 \<or> s = [] then s else strip_ws f (drop (f s) s))"
  by pat_completeness auto
termination
  by (relation "measure (\<lambda>(f, s). length s)") (auto simp: length_greater_0_conv)

declare strip_ws.simps [simp del]

definition trim_start :: "string \<Rightarrow> string" where
  "trim_start s = strip_ws ws_len s"

definition trim_end :: "string \<Rightarrow> string" where
  "trim_end s = rev (strip_ws ws_len_rev (rev s))"

definition trim :: "string \<Rightarrow> string" where
  "trim s = trim_end (trim_start s)"

lemma strip_ws_Nil [simp]: "strip_ws f [] = []"
  by (simp add: strip_ws.simps)

lemma strip_ws_zero: "f s = 0 \<Longrightarrow> strip_ws f s = s"
  by (simp add: strip_ws.simps)

lemma strip_ws_done: "f [] = 0 \<Longrightarrow> f (strip_ws f s) = 0"
proof (induction f s rule: strip_ws.induct)
  case (1 f s)
  then show ?case by (cases "f s = 0 \<or> s = []") (auto simp: strip_ws.simps [of f s])
qed

lemma strip_ws_suffix: "\<exists>n. strip_ws f s = drop n s"
proof (induction f s rule: strip_ws.induct)
  case (1 f s)
  show ?case
  proof (cases "f s = 0 \<or> s = []")
    case True
    then have "strip_ws f s = drop 0 s" by (simp add: strip_ws.simps [of f s])
    then show ?thesis ..
  next
    case False
    with 1 obtain n where "strip_ws f (drop (f s) s) = drop n (drop (f s) s)" by blast
    with False have "strip_ws f s = drop (n + f s) s" by (simp add: strip_ws.simps [of f s])
    then show ?thesis ..
  qed
qed

lemma ws_len_take: "ws_len s = 0 \<Longrightarrow> ws_len (take n s) = 0"
  by (cases s rule: ws_len.cases) (auto simp: take_Cons' split: if_splits)

lemma trim_start_trim: "trim_start (trim s) = trim s"
proof -
  obtain n where "strip_ws ws_len_rev (rev (trim_start s)) = drop n (rev (trim_start s))"
    using strip_ws_suffix by blast
  then have "trim s = take (length (trim_start s) - n) (trim_start s)"
    by (simp add: trim_def trim_end_def drop_rev)
  moreover have "ws_len (trim_start s) = 0"
    by (simp add: trim_start_def strip_ws_done)
  ultimately have "ws_len (trim s) = 0" by (simp add: ws_len_take)
  then show ?thesis by (simp add: trim_start_def strip_ws_zero)
qed

lemma trim_end_trim: "trim_end (trim s) = trim s"
  by (simp add: trim_def trim_end_def strip_ws_zero strip_ws_done)

lemma trim_trim [simp]: "trim (trim s) = trim s"
proof -
  have "trim (trim s) = trim_end (trim_start (trim s))" by (rule trim_def)
  then show ?thesis by (simp only: trim_start_trim trim_end_trim)
qed

lemma trim_Nil [simp]: "trim [] = []"
  by (simp add: trim_def trim_start_def trim_end_def)

text \<open>A string that starts with a printing ASCII character is not blank.\<close>

lemma ws_len_rev_keeps:
  assumes "33 \<le> byte c" "byte c \<le> 127"
  shows "ws_len_rev (t @ [c]) \<le> length t"
proof -
  have c: "\<not> ws1 c" "\<And>b. \<not> ws2 c b" "\<And>a b. \<not> ws3 c a b"
    using assms by (auto simp: ws1_def ws2_def ws3_def)
  show ?thesis
  proof (cases "length t \<ge> 3")
    case True
    then obtain x y z u where "t = x # y # z # u"
      by (cases t; cases "tl t"; cases "tl (tl t)") auto
    then show ?thesis by simp
  next
    case False
    then consider "t = []" | x where "t = [x]" | x y where "t = [x, y]"
      by (cases t; cases "tl t"; cases "tl (tl t)") auto
    then show ?thesis by cases (simp_all add: c)
  qed
qed

lemma strip_ws_keeps:
  assumes "33 \<le> byte c" "byte c \<le> 127"
  shows "strip_ws ws_len_rev (t @ [c]) \<noteq> []"
proof (induction "length t" arbitrary: t rule: less_induct)
  case less
  show ?case
  proof (cases "ws_len_rev (t @ [c]) = 0")
    case False
    have le: "ws_len_rev (t @ [c]) \<le> length t" using assms by (rule ws_len_rev_keeps)
    then have "strip_ws ws_len_rev (t @ [c]) = strip_ws ws_len_rev (drop (ws_len_rev (t @ [c])) t @ [c])"
      using False by (subst strip_ws.simps) simp
    also have "\<dots> \<noteq> []" using False le by (intro less) simp
    finally show ?thesis .
  qed (simp add: strip_ws_zero)
qed

lemma trim_not_blank:
  assumes "33 \<le> byte c" "byte c \<le> 127"
  shows "trim (c # s) \<noteq> []"
proof -
  have "ws_len (c # s) = 0"
    using assms by (cases s; cases "tl s") (auto simp: ws1_def ws2_def ws3_def)
  then show ?thesis
    using strip_ws_keeps [OF assms, of "rev s"]
    by (simp add: trim_def trim_start_def trim_end_def strip_ws_zero)
qed

text \<open>\<open>char::is_control\<close> (U+0000 to U+001F, U+007F to U+009F) and \<open>char::is_whitespace\<close>,
  of some code point of the string.\<close>

fun any_control :: "string \<Rightarrow> bool" where
  "any_control [] = False"
| "any_control (a # s) \<longleftrightarrow> byte a < 32 \<or> byte a = 127
     \<or> byte a = 0xC2 \<and> s \<noteq> [] \<and> 0x80 \<le> byte (hd s) \<and> byte (hd s) \<le> 0x9F
     \<or> any_control s"

fun any_whitespace :: "string \<Rightarrow> bool" where
  "any_whitespace [] = False"
| "any_whitespace (a # s) \<longleftrightarrow> ws_len (a # s) \<noteq> 0 \<or> any_whitespace s"

definition starts_with :: "string \<Rightarrow> string \<Rightarrow> bool" where
  "starts_with p s \<longleftrightarrow> take (length p) s = p"

definition ends_with :: "string \<Rightarrow> string \<Rightarrow> bool" where
  "ends_with p s \<longleftrightarrow> starts_with (rev p) (rev s)"

definition strip_prefix :: "string \<Rightarrow> string \<Rightarrow> string option" where
  "strip_prefix p s = (if starts_with p s then Some (drop (length p) s) else None)"

definition strip_suffix :: "string \<Rightarrow> string \<Rightarrow> string option" where
  "strip_suffix p s = (if ends_with p s then Some (take (length s - length p) s) else None)"

text \<open>\<open>split_once\<close>: the text before and after the first occurrence of the pattern.\<close>

fun split_once :: "string \<Rightarrow> string \<Rightarrow> (string \<times> string) option" where
  "split_once p [] = (if p = [] then Some ([], []) else None)"
| "split_once p (c # s) =
     (if starts_with p (c # s) then Some ([], drop (length p) (c # s))
      else map_option (\<lambda>(a, b). (c # a, b)) (split_once p s))"

text \<open>\<open>rsplit_once\<close>: around the last occurrence.\<close>

definition rsplit_once :: "string \<Rightarrow> string \<Rightarrow> (string \<times> string) option" where
  "rsplit_once p s = map_option (\<lambda>(a, b). (rev b, rev a)) (split_once (rev p) (rev s))"

text \<open>\<open>contains\<close>, for a character and for a pattern.\<close>

fun contains_str :: "string \<Rightarrow> string \<Rightarrow> bool" where
  "contains_str p [] \<longleftrightarrow> p = []"
| "contains_str p (c # s) \<longleftrightarrow> starts_with p (c # s) \<or> contains_str p s"

text \<open>ASCII lower case, leaving other bytes alone (\<open>to_ascii_lowercase\<close>).\<close>

definition ascii_lower_char :: "char \<Rightarrow> char" where
  "ascii_lower_char c = (if 65 \<le> byte c \<and> byte c \<le> 90 then char_of (byte c + 32) else c)"

definition ascii_lower :: "string \<Rightarrow> string" where
  "ascii_lower s = map ascii_lower_char s"

text \<open>\<open>join\<close> of a list of strings with a separator.\<close>

fun join_with :: "string \<Rightarrow> string list \<Rightarrow> string" where
  "join_with sep [] = []"
| "join_with sep [x] = x"
| "join_with sep (x # y # xs) = x @ sep @ join_with sep (y # xs)"

lemma starts_with_append [simp]: "starts_with p (p @ s)"
  by (simp add: starts_with_def)

lemma starts_with_Nil [simp]: "starts_with [] s"
  by (simp add: starts_with_def)

lemma starts_with_iff: "starts_with p s \<longleftrightarrow> (\<exists>t. s = p @ t)"
  by (metis append_take_drop_id starts_with_append starts_with_def)

lemma strip_prefix_append [simp]: "strip_prefix p (p @ s) = Some s"
  by (simp add: strip_prefix_def)

lemma strip_prefix_eq_Some: "strip_prefix p s = Some t \<longleftrightarrow> s = p @ t"
  by (auto simp: strip_prefix_def starts_with_iff)

lemma split_once_char:
  "c \<notin> set a \<Longrightarrow> split_once [c] (a @ c # b) = Some (a, b)"
  by (induction a) (auto simp: starts_with_def)

lemma split_once_char_None: "c \<notin> set a \<Longrightarrow> split_once [c] a = None"
  by (induction a) (auto simp: starts_with_def)

lemma split_once_eq_Some: "split_once p s = Some (a, b) \<Longrightarrow> s = a @ p @ b"
  by (induction p s arbitrary: a b rule: split_once.induct)
     (auto simp: starts_with_iff split: if_splits)

end
