(* ===== verification/Config.thy ===== *)
theory Config
  imports Prelude
begin

text \<open>
  \<open>spotter-core/src/config.rs\<close>: the settings records with their defaults, the endpoint and
  settings validators, the polling duration and the list of missing required settings.
  \<open>Ipv6Addr::from_str\<close> and \<open>u16::from_str\<close> are the standard library's parsers, written out.
\<close>

section \<open>Settings\<close>

record snipeit_settings =
  url :: string
  api_token_encrypted :: "u8 list"
  checkout_status_id :: u64
  checkin_status_id :: u64

record polling_settings =
  interval_hours :: u64

record logging_settings =
  log_level :: string
  max_size_mb :: u64
  max_files :: u32

datatype checkin_policy = Manual | AutoNonPortable

record monitor_settings =
  checkin_policy :: checkin_policy
  checkin_threshold_hours :: u64

record settings =
  s_snipeit :: snipeit_settings
  s_polling :: polling_settings
  s_logging :: logging_settings
  s_monitors :: monitor_settings

definition default_snipeit :: snipeit_settings where
  "default_snipeit = \<lparr>url = '''', api_token_encrypted = [], checkout_status_id = 0, checkin_status_id = 0\<rparr>"

definition default_polling :: polling_settings where
  "default_polling = \<lparr>interval_hours = 4\<rparr>"

definition default_logging :: logging_settings where
  "default_logging = \<lparr>log_level = ''info'', max_size_mb = 10, max_files = 5\<rparr>"

definition default_monitors :: monitor_settings where
  "default_monitors = \<lparr>checkin_policy = Manual, checkin_threshold_hours = 24\<rparr>"

definition default_settings :: settings where
  "default_settings = \<lparr>s_snipeit = default_snipeit, s_polling = default_polling,
     s_logging = default_logging, s_monitors = default_monitors\<rparr>"

datatype settings_validation_error =
    SnipeItUrl | SnipeItPartialIdentity | SnipeItStatusId | PollingInterval
  | LoggingLevel | LoggingMaxSize | LoggingMaxFiles | CheckinThreshold

section \<open>The standard library's address parsers\<close>

definition to_digit :: "nat \<Rightarrow> char \<Rightarrow> nat option" where
  "to_digit radix c =
     (let n = byte c;
          v = (if 48 \<le> n \<and> n \<le> 57 then n - 48
               else if 97 \<le> n \<and> n \<le> 122 then n - 97 + 10
               else if 65 \<le> n \<and> n \<le> 90 then n - 65 + 10 else radix)
      in if v < radix then Some v else None)"

definition read_number :: "nat \<Rightarrow> nat \<Rightarrow> nat \<Rightarrow> bool \<Rightarrow> string \<Rightarrow> string option" where
  "read_number radix max_digits max_value allow_zero_prefix s =
     (let ds = takeWhile (\<lambda>c. to_digit radix c \<noteq> None) s;
          v = foldl (\<lambda>a c. a * radix + the (to_digit radix c)) 0 ds
      in if max_digits < length ds \<or> ds = []
            \<or> \<not> allow_zero_prefix \<and> hd ds = CHR ''0'' \<and> 1 < length ds \<or> max_value < v
         then None else Some (drop (length ds) s))"

definition read_separator :: "char \<Rightarrow> nat \<Rightarrow> (string \<Rightarrow> string option) \<Rightarrow> string \<Rightarrow> string option" where
  "read_separator sep index inner s =
     (if 0 < index then (case s of c # s' \<Rightarrow> (if c = sep then inner s' else None) | [] \<Rightarrow> None)
      else inner s)"

fun read_ipv4_groups :: "nat \<Rightarrow> nat \<Rightarrow> string \<Rightarrow> string option" where
  "read_ipv4_groups 0 i s = Some s"
| "read_ipv4_groups (Suc k) i s =
     (case read_separator (CHR ''.'') i (read_number 10 3 255 False) s of
        None \<Rightarrow> None | Some s' \<Rightarrow> read_ipv4_groups k (Suc i) s')"

definition read_ipv4_addr :: "string \<Rightarrow> string option" where
  "read_ipv4_addr s = read_ipv4_groups 4 0 s"

text \<open>
  \<open>read_groups\<close> with \<open>k\<close> slots left at index \<open>i\<close>: the number of groups read, whether the last
  two came from an embedded IPv4 address, and the rest of the input.
\<close>

fun read_groups :: "nat \<Rightarrow> nat \<Rightarrow> string \<Rightarrow> nat \<times> bool \<times> string" where
  "read_groups 0 i s = (i, False, s)"
| "read_groups (Suc k) i s =
     (case (if 0 < k then read_separator (CHR '':'') i read_ipv4_addr s else None) of
        Some s' \<Rightarrow> (i + 2, True, s')
      | None \<Rightarrow>
         (case read_separator (CHR '':'') i (read_number 16 4 65535 True) s of
            Some s' \<Rightarrow> read_groups k (Suc i) s'
          | None \<Rightarrow> (i, False, s)))"

definition parses_as_ipv6 :: "string \<Rightarrow> bool" where
  "parses_as_ipv6 s =
     (case read_groups 8 0 s of
        (head_size, head_ipv4, rest) \<Rightarrow>
          if head_size = 8 then rest = []
          else if head_ipv4 then False
          else (case strip_prefix ''::'' rest of
                  None \<Rightarrow> False
                | Some rest' \<Rightarrow>
                    (case read_groups (8 - (head_size + 1)) 0 rest' of (_, _, rest'') \<Rightarrow> rest'' = [])))"

section \<open>Endpoint validation\<close>

definition is_valid_port :: "string \<Rightarrow> bool" where
  "is_valid_port port = (case parse_u16_str port of Some parsed \<Rightarrow> parsed \<noteq> 0 | None \<Rightarrow> False)"

definition url_delim :: "char \<Rightarrow> bool" where
  "url_delim c \<longleftrightarrow> c = CHR ''/'' \<or> c = CHR ''?'' \<or> c = CHR ''#''"

text \<open>The part of \<open>validate_snipeit_url\<close> from \<open>host_and_port\<close> on.\<close>

definition validate_host_and_port :: "string \<Rightarrow> (unit, settings_validation_error) result" where
  "validate_host_and_port authority =
     (case strip_prefix ''['' authority of
        Some rest \<Rightarrow>
          (case split_once '']'' rest of
             None \<Rightarrow> Err SnipeItUrl
           | Some (host, suffix) \<Rightarrow>
               if \<not> parses_as_ipv6 host \<or> host = [] then Err SnipeItUrl
               else if suffix \<noteq> []
                    \<and> \<not> (case strip_prefix '':'' suffix of Some port \<Rightarrow> is_valid_port port | None \<Rightarrow> False)
               then Err SnipeItUrl
               else Ok ())
      | None \<Rightarrow>
          (case rsplit_once '':'' authority of
             Some (host, port) \<Rightarrow>
               if host = [] \<or> CHR '':'' \<in> set host \<or> \<not> is_valid_port port then Err SnipeItUrl
               else if starts_with '':'' authority \<or> ends_with '':'' authority then Err SnipeItUrl
               else Ok ()
           | None \<Rightarrow>
               if CHR '':'' \<in> set authority then Err SnipeItUrl
               else if starts_with '':'' authority \<or> ends_with '':'' authority then Err SnipeItUrl
               else Ok ()))"

definition validate_snipeit_url :: "string \<Rightarrow> (unit, settings_validation_error) result" where
  "validate_snipeit_url value =
     (let value = trim value in
      if value = [] then Ok ()
      else
        (case split_once ''://'' value of
           None \<Rightarrow> Err SnipeItUrl
         | Some (scheme, remainder) \<Rightarrow>
             if scheme \<noteq> ''https'' \<or> remainder = [] \<or> any_control remainder \<or> any_whitespace remainder
             then Err SnipeItUrl
             else
               (let authority = takeWhile (\<lambda>c. \<not> url_delim c) remainder;
                    rest = dropWhile (\<lambda>c. \<not> url_delim c) remainder
                in if authority = [] \<or> CHR ''?'' \<in> set rest \<or> CHR ''#'' \<in> set rest then Err SnipeItUrl
                   else if CHR ''@'' \<in> set authority then Err SnipeItUrl
                   else validate_host_and_port authority)))"

section \<open>Settings validation\<close>

definition config_status :: "settings \<Rightarrow> string list" where
  "config_status s =
     (if trim (url (s_snipeit s)) = [] then [''snipeit.url''] else [])
     @ (if api_token_encrypted (s_snipeit s) = [] then [''snipeit.api_token_encrypted''] else [])
     @ (if checkout_status_id (s_snipeit s) = 0 then [''snipeit.checkout_status_id''] else [])
     @ (if checkin_status_id (s_snipeit s) = 0 then [''snipeit.checkin_status_id''] else [])"

definition log_levels :: "string list" where
  "log_levels = [''trace'', ''debug'', ''info'', ''warn'', ''error'']"

definition validate_settings :: "settings \<Rightarrow> (unit, settings_validation_error) result" where
  "validate_settings s =
     (let u = trim (url (s_snipeit s));
          token_is_blank = (api_token_encrypted (s_snipeit s) = []);
          statuses_are_blank = (checkout_status_id (s_snipeit s) = 0 \<and> checkin_status_id (s_snipeit s) = 0);
          identity_is_blank = (u = [] \<and> token_is_blank \<and> statuses_are_blank);
          identity_is_complete = (u \<noteq> [] \<and> \<not> token_is_blank
             \<and> checkout_status_id (s_snipeit s) \<noteq> 0 \<and> checkin_status_id (s_snipeit s) \<noteq> 0)
      in and_then
           (if identity_is_complete then validate_snipeit_url u
            else if \<not> identity_is_blank \<and> config_status s = [] then Err SnipeItPartialIdentity
            else Ok ())
           (\<lambda>_. and_then (validate_snipeit_url u) (\<lambda>_.
              if \<not> (1 \<le> interval_hours (s_polling s) \<and> interval_hours (s_polling s) \<le> 168)
              then Err PollingInterval
              else if log_level (s_logging s) \<notin> set log_levels then Err LoggingLevel
              else if \<not> (1 \<le> max_size_mb (s_logging s) \<and> max_size_mb (s_logging s) \<le> 10240)
              then Err LoggingMaxSize
              else if \<not> (1 \<le> max_files (s_logging s) \<and> max_files (s_logging s) \<le> 1000)
              then Err LoggingMaxFiles
              else if \<not> (1 \<le> checkin_threshold_hours (s_monitors s)
                         \<and> checkin_threshold_hours (s_monitors s) \<le> 8760)
              then Err CheckinThreshold
              else Ok ())))"

text \<open>\<open>interval_hours.checked_mul(60 * 60).map(Duration::from_secs)\<close>, in seconds.\<close>

definition poll_duration :: "u64 \<Rightarrow> nat option" where
  "poll_duration hours = (if unat hours * (60 * 60) \<le> u64_max then Some (unat hours * (60 * 60)) else None)"

section \<open>Facts about the validators\<close>

lemma validate_snipeit_url_trim [simp]:
  "validate_snipeit_url (trim u) = validate_snipeit_url u"
  by (simp add: validate_snipeit_url_def)

lemma validate_snipeit_url_blank [simp]: "trim u = [] \<Longrightarrow> validate_snipeit_url u = Ok ()"
  by (simp add: validate_snipeit_url_def)

lemma validate_host_and_port_errors: "validate_host_and_port a = Err e \<Longrightarrow> e = SnipeItUrl"
  by (auto simp: validate_host_and_port_def split: option.splits if_splits)

lemma validate_snipeit_url_errors: "validate_snipeit_url u = Err e \<Longrightarrow> e = SnipeItUrl"
  by (auto simp: validate_snipeit_url_def Let_def validate_host_and_port_errors
      split: option.splits if_splits)

lemma config_status_Nil_iff:
  "config_status s = [] \<longleftrightarrow>
     trim (url (s_snipeit s)) \<noteq> [] \<and> api_token_encrypted (s_snipeit s) \<noteq> []
     \<and> checkout_status_id (s_snipeit s) \<noteq> 0 \<and> checkin_status_id (s_snipeit s) \<noteq> 0"
  by (simp add: config_status_def)

text \<open>The parts of an accepted endpoint, after trimming.\<close>

lemma validate_snipeit_url_parts:
  assumes ok: "validate_snipeit_url v = Ok ()" and nonblank: "trim v \<noteq> []"
  obtains authority path where
    "trim v = ''https://'' @ authority @ path"
    "authority \<noteq> []" "CHR ''@'' \<notin> set authority"
    "\<And>c. c \<in> set authority \<Longrightarrow> \<not> url_delim c"
    "CHR ''?'' \<notin> set path" "CHR ''#'' \<notin> set path"
    "path = [] \<or> hd path = CHR ''/''"
    "\<not> any_control (authority @ path)" "\<not> any_whitespace (authority @ path)"
    "validate_host_and_port authority = Ok ()"
proof -
  obtain scheme r where split: "split_once ''://'' (trim v) = Some (scheme, r)"
    using ok nonblank by (auto simp: validate_snipeit_url_def Let_def split: option.splits)
  define a where "a = takeWhile (\<lambda>c. \<not> url_delim c) r"
  define p where "p = dropWhile (\<lambda>c. \<not> url_delim c) r"
  have r: "r = a @ p" by (simp add: a_def p_def)
  have conds: "scheme = ''https''" "\<not> any_control r" "\<not> any_whitespace r" "a \<noteq> []"
    "CHR ''?'' \<notin> set p" "CHR ''#'' \<notin> set p" "CHR ''@'' \<notin> set a"
    "validate_host_and_port a = Ok ()"
    using ok nonblank split unfolding validate_snipeit_url_def Let_def a_def p_def
    by (auto split: if_splits)
  have "p = [] \<or> hd p = CHR ''/''"
  proof (cases p)
    case (Cons c cs)
    then have "url_delim c"
      unfolding p_def by (metis (no_types, lifting) dropWhile_eq_Cons_conv)
    then show ?thesis using Cons conds(5,6) by (auto simp: url_delim_def)
  qed simp
  moreover have "\<And>c. c \<in> set a \<Longrightarrow> \<not> url_delim c"
    unfolding a_def by (blast dest: set_takeWhileD)
  moreover have "trim v = ''https://'' @ a @ p"
    using split_once_eq_Some [OF split] conds(1) r by simp
  ultimately show thesis using that [of a p] conds r by blast
qed

text \<open>
  An endpoint the validator accepts is blank or an HTTPS URL: after trimming it starts with
  \<open>https://\<close>, has no query and no fragment, a nonempty authority without credentials, and no
  control or white-space character after the scheme.
\<close>

theorem validate_snipeit_url_safe:
  assumes "validate_snipeit_url v = Ok ()" and "trim v \<noteq> []"
  shows "\<exists>authority path. trim v = ''https://'' @ authority @ path
    \<and> authority \<noteq> [] \<and> CHR ''@'' \<notin> set authority \<and> (path = [] \<or> hd path = CHR ''/'')
    \<and> CHR ''?'' \<notin> set (trim v) \<and> CHR ''#'' \<notin> set (trim v)
    \<and> \<not> any_control (authority @ path) \<and> \<not> any_whitespace (authority @ path)"
proof -
  obtain a p where v: "trim v = ''https://'' @ a @ p"
    and props: "a \<noteq> []" "CHR ''@'' \<notin> set a" "\<And>c. c \<in> set a \<Longrightarrow> \<not> url_delim c"
      "CHR ''?'' \<notin> set p" "CHR ''#'' \<notin> set p" "p = [] \<or> hd p = CHR ''/''"
      "\<not> any_control (a @ p)" "\<not> any_whitespace (a @ p)" "validate_host_and_port a = Ok ()"
    using validate_snipeit_url_parts [OF assms] by blast
  have "CHR ''?'' \<notin> set a" "CHR ''#'' \<notin> set a"
    using props(3) by (auto simp: url_delim_def)
  then show ?thesis
    using v props by (intro exI [of _ a] exI [of _ p]) auto
qed

theorem validate_snipeit_url_safe_witness:
  "validate_snipeit_url ''https://snipe.test/api'' = Ok ()
   \<and> (\<exists>authority path. trim ''https://snipe.test/api'' = ''https://'' @ authority @ path
    \<and> authority \<noteq> [] \<and> CHR ''@'' \<notin> set authority \<and> (path = [] \<or> hd path = CHR ''/'')
    \<and> CHR ''?'' \<notin> set (trim ''https://snipe.test/api'')
    \<and> CHR ''#'' \<notin> set (trim ''https://snipe.test/api'')
    \<and> \<not> any_control (authority @ path) \<and> \<not> any_whitespace (authority @ path))"
proof -
  have ok: "validate_snipeit_url ''https://snipe.test/api'' = Ok ()" by code_simp
  have ne: "trim ''https://snipe.test/api'' \<noteq> []" by code_simp
  show ?thesis using ok validate_snipeit_url_safe [OF ok ne] by blast
qed

lemma validate_settings_char:
  "(validate_settings s = Ok () \<longleftrightarrow>
      validate_snipeit_url (url (s_snipeit s)) = Ok ()
      \<and> 1 \<le> unat (interval_hours (s_polling s)) \<and> unat (interval_hours (s_polling s)) \<le> 168
      \<and> log_level (s_logging s) \<in> {''trace'', ''debug'', ''info'', ''warn'', ''error''}
      \<and> 1 \<le> unat (max_size_mb (s_logging s)) \<and> unat (max_size_mb (s_logging s)) \<le> 10240
      \<and> 1 \<le> unat (max_files (s_logging s)) \<and> unat (max_files (s_logging s)) \<le> 1000
      \<and> 1 \<le> unat (checkin_threshold_hours (s_monitors s))
      \<and> unat (checkin_threshold_hours (s_monitors s)) \<le> 8760)
   \<and> validate_settings s \<noteq> Err SnipeItPartialIdentity"
proof (cases "validate_snipeit_url (url (s_snipeit s))")
  case (Ok u)
  then show ?thesis
    by (auto simp: validate_settings_def Let_def config_status_Nil_iff log_levels_def word_le_nat_alt)
next
  case (Err e)
  then have "e = SnipeItUrl" by (rule validate_snipeit_url_errors)
  with Err show ?thesis
    by (auto simp: validate_settings_def Let_def config_status_Nil_iff)
qed

lemmas validate_settings_Ok = validate_settings_char [THEN conjunct1]

text \<open>
  The settings validator accepts exactly the settings whose endpoint is blank or a valid HTTPS
  URL and whose polling interval, log level, log limits and check-in threshold are within their
  bounds; in particular the partial-identity branch is never what rejects a candidate.
\<close>

theorem validate_settings_iff:
  "(validate_settings s = Ok () \<longleftrightarrow>
      validate_snipeit_url (url (s_snipeit s)) = Ok ()
      \<and> 1 \<le> unat (interval_hours (s_polling s)) \<and> unat (interval_hours (s_polling s)) \<le> 168
      \<and> log_level (s_logging s) \<in> {''trace'', ''debug'', ''info'', ''warn'', ''error''}
      \<and> 1 \<le> unat (max_size_mb (s_logging s)) \<and> unat (max_size_mb (s_logging s)) \<le> 10240
      \<and> 1 \<le> unat (max_files (s_logging s)) \<and> unat (max_files (s_logging s)) \<le> 1000
      \<and> 1 \<le> unat (checkin_threshold_hours (s_monitors s))
      \<and> unat (checkin_threshold_hours (s_monitors s)) \<le> 8760)
   \<and> validate_settings s \<noteq> Err SnipeItPartialIdentity"
  by (rule validate_settings_char)

lemma validate_settings_bounds:
  assumes "validate_settings s = Ok ()"
  shows "1 \<le> unat (interval_hours (s_polling s))" "unat (interval_hours (s_polling s)) \<le> 168"
    "1 \<le> unat (checkin_threshold_hours (s_monitors s))"
    "unat (checkin_threshold_hours (s_monitors s)) \<le> 8760"
    "validate_snipeit_url (url (s_snipeit s)) = Ok ()"
  using assms
  by (auto simp: validate_settings_def Let_def and_then_eq_Ok word_le_nat_alt split: if_splits)

lemma poll_duration_valid:
  "validate_settings s = Ok () \<Longrightarrow>
     poll_duration (interval_hours (s_polling s)) = Some (unat (interval_hours (s_polling s)) * 3600)"
  using validate_settings_bounds(2) [of s] by (simp add: poll_duration_def u64_max_def)

text \<open>
  \<open>is_valid_port\<close> accepts the decimal form of every port from 1 to 65535, with and without a
  leading plus sign, and rejects port 0; the plus sign is not part of a valid URL authority.
\<close>

theorem is_valid_port_decimal:
  assumes "n \<le> 65535"
  shows "is_valid_port (dec_nat n) = (n \<noteq> 0) \<and> is_valid_port (CHR ''+'' # dec_nat n) = (n \<noteq> 0)"
proof -
  have "parse_digits 65535 0 (dec_nat n) = Some n"
    using assms by (rule parse_digits_dec_nat)
  then have "parse_unsigned 65535 (CHR ''+'' # dec_nat n) = Some n"
    by (simp add: parse_unsigned_def)
  moreover have "(of_nat n :: u16) = 0 \<longleftrightarrow> n = 0"
  proof
    assume "(of_nat n :: u16) = 0"
    then have "unat (of_nat n :: u16) = 0" by simp
    then show "n = 0" using assms by (simp add: unsigned_of_nat take_bit_nat_eq_self)
  qed simp
  ultimately show ?thesis
    using assms by (simp add: is_valid_port_def parse_u16_str_def)
qed

theorem is_valid_port_decimal_witness:
  "(443 :: nat) \<le> 65535 \<and> is_valid_port ''443'' \<and> is_valid_port ''+443''
   \<and> validate_snipeit_url ''https://host:+443'' = Ok ()"
proof -
  have "dec_nat 443 = ''443''" by code_simp
  moreover have "validate_snipeit_url ''https://host:+443'' = Ok ()" by code_simp
  ultimately show ?thesis using is_valid_port_decimal [of 443] by simp
qed

end
