(* ===== verification/OrdMap.thy ===== *)
theory OrdMap
  imports Prelude
begin

text \<open>
  \<open>BTreeMap\<close> and \<open>BTreeSet\<close> of the standard library, as the planner and the monitor diff use
  them: insertion, lookup, and iteration in key order.  The interface is a locale; its model
  is a strictly sorted association list.
\<close>

section \<open>The interface\<close>

locale ordered_map =
  fixes none :: "'m"
    and put :: "'k::linorder \<Rightarrow> 'v \<Rightarrow> 'm \<Rightarrow> 'm"
    and find :: "'m \<Rightarrow> 'k \<Rightarrow> 'v option"
    and iter :: "'m \<Rightarrow> ('k \<times> 'v) list"
    and wf :: "'m \<Rightarrow> bool"
  assumes wf_none: "wf none"
    and find_none: "find none k = None"
    and wf_put: "wf m \<Longrightarrow> wf (put k v m)"
    and find_put: "wf m \<Longrightarrow> find (put k v m) k' = (if k' = k then Some v else find m k')"
    and iter_sorted: "wf m \<Longrightarrow> sorted_wrt (<) (map fst (iter m))"
    and iter_find: "wf m \<Longrightarrow> (k, v) \<in> set (iter m) \<longleftrightarrow> find m k = Some v"
begin

text \<open>Collecting an iterator of pairs: the last value of a key wins.\<close>

lemma collect_wf_find:
  "wf m \<Longrightarrow> wf (foldl (\<lambda>m p. put (fst p) (snd p) m) m xs)
     \<and> find (foldl (\<lambda>m p. put (fst p) (snd p) m) m xs) k
       = (case map_of (rev xs) k of Some v \<Rightarrow> Some v | None \<Rightarrow> find m k)"
proof (induction xs arbitrary: m)
  case Nil
  then show ?case by simp
next
  case (Cons p xs)
  then have "wf (put (fst p) (snd p) m)" by (simp add: wf_put)
  from Cons.IH [OF this] Cons.prems show ?case
    by (cases p) (auto simp: find_put map_add_def split: option.splits)
qed

lemma collect_wf: "wf (foldl (\<lambda>m p. put (fst p) (snd p) m) none xs)"
  using collect_wf_find [OF wf_none] by blast

lemma collect_find:
  "find (foldl (\<lambda>m p. put (fst p) (snd p) m) none xs) k = map_of (rev xs) k"
  using collect_wf_find [OF wf_none, of xs k] by (simp add: find_none split: option.splits)

lemma iter_keys:
  assumes "wf m"
  shows "k \<in> fst ` set (iter m) \<longleftrightarrow> find m k \<noteq> None"
proof -
  have "k \<in> fst ` set (iter m) \<longleftrightarrow> (\<exists>v. (k, v) \<in> set (iter m))" by force
  then show ?thesis using assms by (simp add: iter_find)
qed

lemma iter_distinct: "wf m \<Longrightarrow> distinct (map fst (iter m))"
  using iter_sorted [of m] by (simp add: strict_sorted_iff)

lemma iter_map_of: "wf m \<Longrightarrow> map_of (iter m) k = find m k"
proof (cases "find m k")
  case (Some v)
  assume "wf m"
  with Some show ?thesis by (simp add: iter_find iter_distinct)
next
  case None
  assume "wf m"
  with None have "k \<notin> fst ` set (iter m)" by (simp add: iter_keys)
  with None show ?thesis by (simp add: map_of_eq_None_iff)
qed

end

text \<open>A map of counters, filled with \<open>*m.entry(k).or_insert(0) += 1\<close>.\<close>

locale counting_map = ordered_map none put find iter wf
  for none :: "'m" and put :: "'k::linorder \<Rightarrow> nat \<Rightarrow> 'm \<Rightarrow> 'm"
    and find :: "'m \<Rightarrow> 'k \<Rightarrow> nat option" and iter :: "'m \<Rightarrow> ('k \<times> nat) list" and wf :: "'m \<Rightarrow> bool"
begin

lemma tally_step:
  assumes "wf m"
  shows "let m' = foldl (\<lambda>m x. put (f x) (1 + (case find m (f x) of Some n \<Rightarrow> n | None \<Rightarrow> 0)) m) m xs
    in wf m' \<and> (case find m' k of Some n \<Rightarrow> n | None \<Rightarrow> 0)
         = (case find m k of Some n \<Rightarrow> n | None \<Rightarrow> (0::nat)) + length (filter (\<lambda>x. f x = k) xs)"
  using assms
proof (induction xs arbitrary: m)
  case (Cons x xs)
  from Cons.IH [OF wf_put, OF Cons.prems] show ?case
    by (simp add: Let_def find_put Cons.prems)
qed simp

lemma tally:
  "wf (foldl (\<lambda>m x. put (f x) (1 + (case find m (f x) of Some n \<Rightarrow> n | None \<Rightarrow> 0)) m) none xs)"
  "(case find (foldl (\<lambda>m x. put (f x) (1 + (case find m (f x) of Some n \<Rightarrow> n | None \<Rightarrow> 0)) m) none xs) k
    of Some n \<Rightarrow> n | None \<Rightarrow> 0) = length (filter (\<lambda>x. f x = k) xs)"
  using tally_step [OF wf_none, of f xs k] by (auto simp: Let_def find_none)

end

section \<open>The model\<close>

fun bt_insert :: "'k::linorder \<Rightarrow> 'v \<Rightarrow> ('k \<times> 'v) list \<Rightarrow> ('k \<times> 'v) list" where
  "bt_insert k v [] = [(k, v)]"
| "bt_insert k v (p # m) =
     (if fst p < k then p # bt_insert k v m
      else if fst p = k then (k, v) # m
      else (k, v) # p # m)"

definition bt_wf :: "('k::linorder \<times> 'v) list \<Rightarrow> bool" where
  "bt_wf m \<longleftrightarrow> sorted_wrt (<) (map fst m)"

definition bt_collect :: "('k::linorder \<times> 'v) list \<Rightarrow> ('k \<times> 'v) list" where
  "bt_collect xs = foldl (\<lambda>m p. bt_insert (fst p) (snd p) m) [] xs"

lemma bt_insert_keys: "fst ` set (bt_insert k v m) = insert k (fst ` set m)"
  by (induction m) auto

lemma bt_wf_insert: "bt_wf m \<Longrightarrow> bt_wf (bt_insert k v m)"
proof (induction m)
  case (Cons p m)
  then have "bt_wf (bt_insert k v m)" by (simp add: bt_wf_def)
  with Cons.prems bt_insert_keys [of k v m] show ?case
    by (fastforce simp: bt_wf_def)
qed (simp add: bt_wf_def)

lemma bt_find_insert:
  "bt_wf m \<Longrightarrow> map_of (bt_insert k v m) k' = (if k' = k then Some v else map_of m k')"
proof (induction m)
  case (Cons p m)
  then show ?case by (cases p) (auto simp: bt_wf_def)
qed simp

lemma bt_iter_find: "bt_wf m \<Longrightarrow> (k, v) \<in> set m \<longleftrightarrow> map_of m k = Some v"
  by (simp add: bt_wf_def strict_sorted_iff)

interpretation bt: ordered_map "[]" bt_insert map_of "\<lambda>m. m" bt_wf
  by unfold_locales
     (auto simp: bt_find_insert bt_wf_insert bt_iter_find, auto simp: bt_wf_def)

interpretation bt_count: counting_map "[]" bt_insert map_of "\<lambda>m. m" bt_wf
  by unfold_locales

lemma bt_collect_wf [simp]: "bt_wf (bt_collect xs)"
  unfolding bt_collect_def by (rule bt.collect_wf)

lemma bt_collect_find: "map_of (bt_collect xs) k = map_of (rev xs) k"
  unfolding bt_collect_def by (rule bt.collect_find)

lemma bt_collect_keys: "fst ` set (bt_collect xs) = fst ` set xs"
proof -
  have "fst ` set (bt_collect xs) = dom (map_of (bt_collect xs))"
    by (simp add: dom_map_of_conv_image_fst)
  also have "\<dots> = dom (map_of (rev xs))"
    by (simp add: bt_collect_find dom_def)
  finally show ?thesis by (simp add: dom_map_of_conv_image_fst)
qed

lemma bt_collect_sorted: "sorted_wrt (<) (map fst (bt_collect xs))"
  by (rule bt.iter_sorted) simp

lemma bt_collect_mem: "(k, v) \<in> set (bt_collect xs) \<longleftrightarrow> map_of (rev xs) k = Some v"
  by (simp add: bt_iter_find bt_collect_find)

end
