(* ===== verification/Monitors.thy ===== *)
theory Monitors
  imports OrdMap
begin

text \<open>
  \<open>spotter-core/src/monitors.rs\<close>: monitor records, the inventory diff and the forced check-in
  classification.  A \<open>DateTime<Utc>\<close> is its distance from the epoch in nanoseconds, an \<open>int\<close>.
\<close>

section \<open>Data\<close>

record monitor_info =
  manufacturer_code :: string
  product_code :: string
  mi_serial :: string
  manufacture_week :: u8
  manufacture_year :: u16

record monitor_entry =
  me_serial :: string
  snipeit_asset_id :: "u64 option"
  last_seen :: int
  absent_since :: "int option"
  checked_out :: bool

record monitor_state =
  entries :: "monitor_entry list"

datatype forced_checkin_ineligibility = Present | AlreadyCheckedIn | Unmapped

record monitor_diff =
  new_monitors :: "monitor_info list"
  removed_monitors :: "monitor_entry list"
  unchanged_monitors :: "monitor_info list"
  next_state :: monitor_state

section \<open>Operations\<close>

definition forced_checkin_ineligible :: "monitor_entry \<Rightarrow> forced_checkin_ineligibility option" where
  "forced_checkin_ineligible e =
     (if absent_since e = None then Some Present
      else if \<not> checked_out e then Some AlreadyCheckedIn
      else if (case snipeit_asset_id e of None \<Rightarrow> True | Some i \<Rightarrow> i = 0) then Some Unmapped
      else None)"

definition apply_forced_checkin_serials :: "monitor_state \<Rightarrow> string list \<Rightarrow> monitor_state" where
  "apply_forced_checkin_serials st serials =
     st\<lparr>entries := map (\<lambda>e. if me_serial e \<in> set serials then e\<lparr>checked_out := False\<rparr> else e) (entries st)\<rparr>"

definition monitor_key :: "monitor_info \<Rightarrow> string \<times> string \<times> string \<times> u16 \<times> u8" where
  "monitor_key m = (mi_serial m, manufacturer_code m, product_code m, manufacture_year m, manufacture_week m)"

definition current_by_serial :: "monitor_info list \<Rightarrow> (string \<times> monitor_info) list" where
  "current_by_serial current = bt_collect (map (\<lambda>m. (mi_serial m, m)) (rev (sort_key monitor_key current)))"

definition previous_by_serial :: "monitor_state \<Rightarrow> (string \<times> monitor_entry) list" where
  "previous_by_serial previous = bt_collect (map (\<lambda>e. (me_serial e, e)) (entries previous))"

text \<open>The entry pushed for a serial that is present.\<close>

definition present_entry :: "monitor_entry option \<Rightarrow> int \<Rightarrow> string \<Rightarrow> monitor_entry" where
  "present_entry prev now s =
     (case prev of
        Some p \<Rightarrow> \<lparr>me_serial = s, snipeit_asset_id = snipeit_asset_id p, last_seen = now,
                   absent_since = None, checked_out = checked_out p\<rparr>
      | None \<Rightarrow> \<lparr>me_serial = s, snipeit_asset_id = None, last_seen = now,
                absent_since = None, checked_out = False\<rparr>)"

text \<open>\<open>absent.absent_since.get_or_insert(now)\<close>\<close>

definition absent_entry :: "int \<Rightarrow> monitor_entry \<Rightarrow> monitor_entry" where
  "absent_entry now e = e\<lparr>absent_since := Some (case absent_since e of Some t \<Rightarrow> t | None \<Rightarrow> now)\<rparr>"

definition diff_monitors :: "monitor_info list \<Rightarrow> monitor_state \<Rightarrow> int \<Rightarrow> monitor_diff" where
  "diff_monitors current previous now =
     (let cur = current_by_serial current;
          prev = previous_by_serial previous;
          present = map (\<lambda>(s, m). present_entry (map_of prev s) now s) cur;
          removed = map (\<lambda>(s, e). absent_entry now e) (filter (\<lambda>(s, e). s \<notin> fst ` set cur) prev)
      in \<lparr>new_monitors = map snd (filter (\<lambda>(s, m). map_of prev s = None) cur),
          removed_monitors = removed,
          unchanged_monitors = map snd (filter (\<lambda>(s, m). map_of prev s \<noteq> None) cur),
          next_state = \<lparr>entries = sort_key me_serial (present @ removed)\<rparr>\<rparr>)"

section \<open>The abstract inventory: a map from serials to entries\<close>

definition entry_of :: "monitor_state \<Rightarrow> string \<Rightarrow> monitor_entry option" where
  "entry_of st = map_of (previous_by_serial st)"

definition serials_of :: "monitor_info list \<Rightarrow> string set" where
  "serials_of current = mi_serial ` set current"

text \<open>Every serial is held by one entry, and the entries are in serial order.\<close>

definition monitor_state_wf :: "monitor_state \<Rightarrow> bool" where
  "monitor_state_wf st \<longleftrightarrow> sorted_wrt (<) (map me_serial (entries st))"

lemma current_wf [simp]: "bt_wf (current_by_serial c)"
  by (simp add: current_by_serial_def)

lemma previous_wf [simp]: "bt_wf (previous_by_serial p)"
  by (simp add: previous_by_serial_def)

lemma current_keys [simp]: "fst ` set (current_by_serial c) = serials_of c"
  by (simp add: current_by_serial_def bt_collect_keys serials_of_def image_image)

lemma previous_keys [simp]: "fst ` set (previous_by_serial p) = me_serial ` set (entries p)"
  by (simp add: previous_by_serial_def bt_collect_keys image_image)

lemma current_serial: "(s, m) \<in> set (current_by_serial c) \<Longrightarrow> mi_serial m = s \<and> m \<in> set c"
  by (auto simp: current_by_serial_def bt_collect_mem rev_map dest!: map_of_SomeD)

lemma previous_serial: "(s, e) \<in> set (previous_by_serial p) \<Longrightarrow> me_serial e = s \<and> e \<in> set (entries p)"
  by (auto simp: previous_by_serial_def bt_collect_mem rev_map dest!: map_of_SomeD)

lemma previous_mem: "(s, e) \<in> set (previous_by_serial p) \<longleftrightarrow> entry_of p s = Some e"
  unfolding entry_of_def by (rule bt_iter_find) simp

lemma entry_of_serial: "entry_of p s = Some e \<Longrightarrow> me_serial e = s \<and> e \<in> set (entries p)"
  using previous_serial previous_mem by blast

lemma entry_of_None_iff: "entry_of p s = None \<longleftrightarrow> s \<notin> me_serial ` set (entries p)"
  unfolding entry_of_def by (simp add: map_of_eq_None_iff)

lemma entry_of_wf: "monitor_state_wf p \<Longrightarrow> entry_of p s = Some e \<longleftrightarrow> e \<in> set (entries p) \<and> me_serial e = s"
proof -
  assume wf: "monitor_state_wf p"
  let ?xs = "map (\<lambda>e. (me_serial e, e)) (entries p)"
  have "distinct (map fst (rev ?xs))"
    using wf by (simp add: monitor_state_wf_def strict_sorted_iff rev_map [symmetric] comp_def)
  then have "map_of (rev ?xs) s = Some e \<longleftrightarrow> (s, e) \<in> set (rev ?xs)" by simp
  then show ?thesis
    by (auto simp: entry_of_def previous_by_serial_def bt_collect_find)
qed

lemma present_entry_serial [simp]: "me_serial (present_entry p now s) = s"
  by (simp add: present_entry_def split: option.splits)

lemma absent_entry_simps [simp]:
  "me_serial (absent_entry now e) = me_serial e"
  "snipeit_asset_id (absent_entry now e) = snipeit_asset_id e"
  "checked_out (absent_entry now e) = checked_out e"
  "absent_since (absent_entry now e) \<noteq> None"
  by (simp_all add: absent_entry_def)

lemma absent_entry_twice [simp]: "absent_entry u (absent_entry t e) = absent_entry t e"
  by (simp add: absent_entry_def)

lemma removed_mem:
  "e' \<in> set (removed_monitors (diff_monitors c p now)) \<longleftrightarrow>
     (\<exists>s e. entry_of p s = Some e \<and> s \<notin> serials_of c \<and> e' = absent_entry now e)"
  unfolding diff_monitors_def Let_def by (force simp flip: previous_mem)

lemma next_entries_mem:
  "e' \<in> set (entries (next_state (diff_monitors c p now))) \<longleftrightarrow>
     (\<exists>s. s \<in> serials_of c \<and> e' = present_entry (entry_of p s) now s)
     \<or> (\<exists>s e. entry_of p s = Some e \<and> s \<notin> serials_of c \<and> e' = absent_entry now e)"
proof -
  have "(\<exists>m. (s, m) \<in> set (current_by_serial c)) \<longleftrightarrow> s \<in> serials_of c" for s
    using current_keys [of c] fst_image_iff [of s "set (current_by_serial c)"] by simp
  then have present: "e' \<in> (\<lambda>(s, m). present_entry (entry_of p s) now s) ` set (current_by_serial c)
      \<longleftrightarrow> (\<exists>s. s \<in> serials_of c \<and> e' = present_entry (entry_of p s) now s)"
    by (force simp: image_iff)
  show ?thesis
    unfolding present [symmetric] removed_mem [symmetric]
    by (simp add: diff_monitors_def Let_def entry_of_def)
qed

lemma next_state_wf:
  "monitor_state_wf (next_state (diff_monitors current previous now))
   \<and> me_serial ` set (entries (next_state (diff_monitors current previous now)))
     = mi_serial ` set current \<union> me_serial ` set (entries previous)"
proof -
  let ?cur = "current_by_serial current" and ?prev = "previous_by_serial previous"
  let ?present = "map (\<lambda>(s, m). present_entry (map_of ?prev s) now s) ?cur"
  let ?removed = "map (\<lambda>(s, e). absent_entry now e) (filter (\<lambda>(s, e). s \<notin> fst ` set ?cur) ?prev)"
  have present: "map me_serial ?present = map fst ?cur"
    by (simp add: comp_def case_prod_beta)
  have "map me_serial ?removed = map (\<lambda>(s, e). me_serial e) (filter (\<lambda>(s, e). s \<notin> fst ` set ?cur) ?prev)"
    by (simp add: comp_def case_prod_beta)
  also have "\<dots> = filter (\<lambda>s. s \<notin> fst ` set ?cur) (map fst ?prev)"
    by (rule map_filter_keys) (simp add: previous_serial)
  finally have removed: "map me_serial ?removed = filter (\<lambda>s. s \<notin> serials_of current) (map fst ?prev)"
    by simp
  have "distinct (map fst ?cur)" "distinct (map fst ?prev)"
    by (rule bt.iter_distinct, simp)+
  then have "distinct (map me_serial (?present @ ?removed))"
    unfolding map_append present removed
    unfolding distinct_append set_map set_filter current_keys
    by (blast intro: distinct_filter)
  moreover have next_eq: "entries (next_state (diff_monitors current previous now))
      = sort_key me_serial (?present @ ?removed)"
    by (simp add: diff_monitors_def Let_def)
  ultimately have "distinct (map me_serial (entries (next_state (diff_monitors current previous now))))"
    by (simp only: next_eq map_sort_key distinct_sort)
  then have "monitor_state_wf (next_state (diff_monitors current previous now))"
    by (simp add: monitor_state_wf_def strict_sorted_iff next_eq)
  moreover have "set (map me_serial (?present @ ?removed)) = serials_of current \<union> me_serial ` set (entries previous)"
    unfolding map_append present removed by auto
  moreover have "me_serial ` set (entries (next_state (diff_monitors current previous now)))
      = set (map me_serial (?present @ ?removed))"
    by (simp only: next_eq set_map set_sort)
  ultimately show ?thesis
    by (simp only: serials_of_def simp_thms)
qed

lemma next_state_entry_of:
  "entry_of (next_state (diff_monitors current previous now)) s =
     (if s \<in> mi_serial ` set current then Some (present_entry (entry_of previous s) now s)
      else map_option (absent_entry now) (entry_of previous s))"
proof -
  let ?next = "next_state (diff_monitors current previous now)"
  have "monitor_state_wf ?next" using next_state_wf by blast
  note mem = entry_of_wf [OF this, of s]
  have "entry_of ?next s = Some e \<longleftrightarrow>
      (if s \<in> serials_of current then Some (present_entry (entry_of previous s) now s)
       else map_option (absent_entry now) (entry_of previous s)) = Some e" for e
    unfolding mem next_entries_mem by (auto dest: entry_of_serial) (metis entry_of_serial)
  then show ?thesis
    unfolding serials_of_def by (metis not_Some_eq)
qed

text \<open>
  After a diff the state holds exactly one entry for each serial that is connected now or was
  known before, in strictly ascending serial order, whatever duplicates the inputs had.
\<close>

theorem diff_monitors_next_wf:
  "monitor_state_wf (next_state (diff_monitors current previous now))
   \<and> me_serial ` set (entries (next_state (diff_monitors current previous now)))
     = mi_serial ` set current \<union> me_serial ` set (entries previous)"
  by (rule next_state_wf)

lemma find_entry_of:
  assumes "monitor_state_wf st"
  shows "find (\<lambda>e. me_serial e = s) (entries st) = entry_of st s"
proof (cases "find (\<lambda>e. me_serial e = s) (entries st)")
  case None
  then have "s \<notin> me_serial ` set (entries st)" by (auto simp: find_None_iff)
  with None show ?thesis using entry_of_None_iff [of st s] by simp
next
  case (Some e)
  then have "e \<in> set (entries st)" "me_serial e = s" by (auto simp: find_Some_iff)
  with Some show ?thesis using entry_of_wf [OF assms, of s e] by simp
qed

text \<open>The map collected from a list holds the last entry of each serial.\<close>

lemma entry_of_last: "entry_of st s = find (\<lambda>e. me_serial e = s) (rev (entries st))"
proof -
  have "map_of (map (\<lambda>e. (me_serial e, e)) es) s = find (\<lambda>e. me_serial e = s) es" for es
    by (induction es) auto
  then show ?thesis
    by (simp add: entry_of_def previous_by_serial_def bt_collect_find rev_map)
qed

lemma diff_classes:
  "mi_serial ` set (new_monitors (diff_monitors current previous now)) = {s \<in> mi_serial ` set current. entry_of previous s = None}"
  "mi_serial ` set (unchanged_monitors (diff_monitors current previous now)) = {s \<in> mi_serial ` set current. entry_of previous s \<noteq> None}"
proof -
  have "mi_serial ` snd ` {p \<in> set (current_by_serial current). P (fst p)} = {s \<in> serials_of current. P s}" for P
  proof -
    have "mi_serial ` snd ` {p \<in> set (current_by_serial current). P (fst p)} = fst ` {p \<in> set (current_by_serial current). P (fst p)}"
      unfolding image_image by (rule image_cong) (auto dest: current_serial)
    also have "\<dots> = {s \<in> fst ` set (current_by_serial current). P s}" by (auto simp del: current_keys)
    finally show ?thesis by simp
  qed
  note * = this [of "\<lambda>s. entry_of previous s = None"] this [of "\<lambda>s. entry_of previous s \<noteq> None"]
  then show "mi_serial ` set (new_monitors (diff_monitors current previous now)) = {s \<in> mi_serial ` set current. entry_of previous s = None}"
    "mi_serial ` set (unchanged_monitors (diff_monitors current previous now)) = {s \<in> mi_serial ` set current. entry_of previous s \<noteq> None}"
    by (simp_all add: diff_monitors_def Let_def serials_of_def entry_of_def case_prod_unfold)
qed

text \<open>
  C23: the diff, field by field.  With the last entry of a serial as what is known of it: a serial seen
  for the first time gets an entry without asset, not checked out, seen now; a known serial that is
  connected keeps its asset and its checkout flag, is seen now and no longer absent; a known serial
  that is not connected keeps everything, with the time of this diff as its absence unless it
  already had one; no other serial has an entry.  The new and the unchanged monitors are the connected
  ones that were not and that were known, and the removed ones are the entries kept for those that
  are known and not connected.
\<close>

theorem diff_monitors_refines:
  "let d = diff_monitors current previous now; known = (\<lambda>s. find (\<lambda>e. me_serial e = s) (rev (entries previous))) in
    find (\<lambda>e. me_serial e = s) (entries (next_state d)) =
      (case known s of
         None \<Rightarrow>
           if s \<in> mi_serial ` set current
           then Some \<lparr>me_serial = s, snipeit_asset_id = None, last_seen = now, absent_since = None, checked_out = False\<rparr>
           else None
       | Some e \<Rightarrow>
           if s \<in> mi_serial ` set current then Some (e\<lparr>last_seen := now, absent_since := None\<rparr>)
           else Some (if absent_since e = None then e\<lparr>absent_since := Some now\<rparr> else e))
    \<and> sorted_wrt (<) (map me_serial (entries (next_state d)))
    \<and> (s \<in> mi_serial ` set (new_monitors d) \<longleftrightarrow> s \<in> mi_serial ` set current \<and> known s = None)
    \<and> (s \<in> mi_serial ` set (unchanged_monitors d) \<longleftrightarrow> s \<in> mi_serial ` set current \<and> known s \<noteq> None)
    \<and> (e' \<in> set (removed_monitors d) \<longleftrightarrow> e' \<in> set (entries (next_state d)) \<and> me_serial e' \<notin> mi_serial ` set current)"
proof -
  define d where "d = diff_monitors current previous now"
  define known where "known = (\<lambda>s. find (\<lambda>e. me_serial e = s) (rev (entries previous)))"
  have wf: "monitor_state_wf (next_state d)" unfolding d_def using next_state_wf by blast
  have known: "known s = entry_of previous s" for s by (simp add: known_def entry_of_last)
  have "entry_of (next_state d) s =
      (case known s of
         None \<Rightarrow>
           if s \<in> mi_serial ` set current
           then Some \<lparr>me_serial = s, snipeit_asset_id = None, last_seen = now, absent_since = None, checked_out = False\<rparr>
           else None
       | Some e \<Rightarrow>
           if s \<in> mi_serial ` set current then Some (e\<lparr>last_seen := now, absent_since := None\<rparr>)
           else Some (if absent_since e = None then e\<lparr>absent_since := Some now\<rparr> else e))"
    unfolding known d_def next_state_entry_of
    by (cases "entry_of previous s") (auto simp: present_entry_def absent_entry_def dest: entry_of_serial)
  moreover have "e' \<in> set (removed_monitors d) \<longleftrightarrow> e' \<in> set (entries (next_state d)) \<and> me_serial e' \<notin> mi_serial ` set current"
    unfolding d_def removed_mem next_entries_mem serials_of_def
    by (metis absent_entry_simps(1) entry_of_serial present_entry_serial)
  ultimately show ?thesis
    unfolding Let_def d_def [symmetric] known_def [symmetric] find_entry_of [OF wf]
    using wf diff_classes [of current previous now]
    unfolding known d_def [symmetric] monitor_state_wf_def by auto
qed

lemma monitor_key_inj: "monitor_key a = monitor_key b \<Longrightarrow> a = b"
  by (simp add: monitor_key_def)

text \<open>
  The diff depends on which monitors were discovered, not on the order of discovery: any
  reordering of the inventory gives the same new, removed and unchanged lists and the same state.
\<close>

theorem diff_monitors_order_independent:
  assumes "mset xs = mset ys"
  shows "diff_monitors xs previous now = diff_monitors ys previous now"
proof -
  have "sort (map monitor_key xs) = sort (map monitor_key ys)"
    by (rule properties_for_sort) (simp_all add: assms)
  then have "map monitor_key (sort_key monitor_key xs) = map monitor_key (sort_key monitor_key ys)"
    by (simp add: map_sort_key)
  then have "sort_key monitor_key xs = sort_key monitor_key ys"
    by (rule map_injective) (auto intro: injI monitor_key_inj)
  then show ?thesis by (simp add: diff_monitors_def current_by_serial_def)
qed

definition demo_monitor :: "string \<Rightarrow> monitor_info" where
  "demo_monitor s = \<lparr>manufacturer_code = ''DEL'', product_code = ''1'', mi_serial = s,
     manufacture_week = 1, manufacture_year = 2026\<rparr>"

theorem diff_monitors_order_independent_witness:
  "mset [demo_monitor ''A'', demo_monitor ''B''] = mset [demo_monitor ''B'', demo_monitor ''A'']
   \<and> diff_monitors [demo_monitor ''A'', demo_monitor ''B''] \<lparr>entries = []\<rparr> 5
     = diff_monitors [demo_monitor ''B'', demo_monitor ''A''] \<lparr>entries = []\<rparr> 5"
proof -
  have m: "mset [demo_monitor ''A'', demo_monitor ''B''] = mset [demo_monitor ''B'', demo_monitor ''A'']"
    by simp
  show ?thesis using m diff_monitors_order_independent [OF m] by blast
qed

section \<open>Successive diffs\<close>

fun diff_run :: "monitor_state \<Rightarrow> (monitor_info list \<times> int) list \<Rightarrow> monitor_state" where
  "diff_run st [] = st"
| "diff_run st ((current, now) # steps) = diff_run (next_state (diff_monitors current st now)) steps"

lemma diff_run_absent:
  assumes "\<And>c t. (c, t) \<in> set steps \<Longrightarrow> s \<notin> mi_serial ` set c"
    and "entry_of st s = Some e" and "absent_since e \<noteq> None"
  shows "entry_of (diff_run st steps) s = Some e"
  using assms
proof (induction steps arbitrary: st)
  case (Cons p steps)
  obtain c t where p: "p = (c, t)" by (cases p)
  have "absent_entry t e = e" using Cons.prems(3) by (auto simp: absent_entry_def)
  moreover have "s \<notin> mi_serial ` set c" using Cons.prems(1) [of c t] p by simp
  ultimately have "entry_of (next_state (diff_monitors c st t)) s = Some e"
    using Cons.prems(2) by (simp add: next_state_entry_of)
  then have "entry_of (diff_run (next_state (diff_monitors c st t)) steps) s = Some e"
    using Cons.prems(1,3) by (intro Cons.IH) auto
  then show ?case using p by simp
qed simp

text \<open>
  While a known monitor stays away, however many synchronizations pass, its entry keeps the
  timestamp of the first diff that missed it (or the older one it already had) and its mapping and
  checkout flag; the first diff that sees it again clears the timestamp.
\<close>

theorem absence_timestamp_stable:
  assumes "entry_of st s = Some e"
    and "s \<notin> mi_serial ` set c0" and "\<forall>(c, t) \<in> set steps. s \<notin> mi_serial ` set c"
    and "s \<in> mi_serial ` set c1"
  shows "entry_of (diff_run st ((c0, t0) # steps)) s
      = Some (e\<lparr>absent_since := Some (case absent_since e of Some t \<Rightarrow> t | None \<Rightarrow> t0)\<rparr>)
    \<and> entry_of (diff_run st ((c0, t0) # steps @ [(c1, t1)])) s
      = Some (e\<lparr>last_seen := t1, absent_since := None\<rparr>)"
proof -
  have first: "entry_of (next_state (diff_monitors c0 st t0)) s = Some (absent_entry t0 e)"
    using assms(1,2) by (simp add: next_state_entry_of)
  have run: "entry_of (diff_run st ((c0, t0) # steps)) s = Some (absent_entry t0 e)"
    using assms(3) first diff_run_absent [of steps s "next_state (diff_monitors c0 st t0)" "absent_entry t0 e"]
    by auto
  have append: "diff_run u (ps @ [(c1, t1)]) = next_state (diff_monitors c1 (diff_run u ps) t1)" for u ps
    by (induction u ps rule: diff_run.induct) auto
  have "me_serial e = s" using assms(1) by (auto dest: entry_of_serial)
  then have "present_entry (Some (absent_entry t0 e)) t1 s = e\<lparr>last_seen := t1, absent_since := None\<rparr>"
    by (simp add: present_entry_def)
  then show ?thesis
    using run append [of st "(c0, t0) # steps"] assms(4)
    by (simp add: next_state_entry_of absent_entry_def)
qed

definition demo_entry :: monitor_entry where
  "demo_entry = \<lparr>me_serial = ''MON'', snipeit_asset_id = Some 200, last_seen = 0,
     absent_since = None, checked_out = True\<rparr>"

theorem absence_timestamp_stable_witness:
  "entry_of (diff_run \<lparr>entries = [demo_entry]\<rparr> (([], 7) # [([], 8), ([], 9)])) ''MON''
     = Some (demo_entry\<lparr>absent_since := Some 7\<rparr>)
   \<and> entry_of (diff_run \<lparr>entries = [demo_entry]\<rparr>
        (([], 7) # [([], 8), ([], 9)] @ [([demo_monitor ''MON''], 10)])) ''MON''
     = Some (demo_entry\<lparr>last_seen := 10, absent_since := None\<rparr>)"
proof -
  have e: "entry_of \<lparr>entries = [demo_entry]\<rparr> ''MON'' = Some demo_entry" by code_simp
  have a: "''MON'' \<notin> mi_serial ` set []" by simp
  have b: "\<forall>(c, t) \<in> set [([], 8), ([], 9)]. ''MON'' \<notin> mi_serial ` set c" by simp
  have c: "''MON'' \<in> mi_serial ` set [demo_monitor ''MON'']" by (simp add: demo_monitor_def)
  show ?thesis
    using absence_timestamp_stable [OF e a b c, of 7 10] by (simp add: demo_entry_def)
qed

section \<open>Forced check-in\<close>

lemma forced_checkin_eligible_iff:
  "forced_checkin_ineligible e = None \<longleftrightarrow>
     absent_since e \<noteq> None \<and> checked_out e \<and> (\<exists>i. snipeit_asset_id e = Some i \<and> i \<noteq> 0)"
  by (auto simp: forced_checkin_ineligible_def split: option.splits)

lemma apply_forced_checkin_serials_wf:
  "monitor_state_wf st \<Longrightarrow> monitor_state_wf (apply_forced_checkin_serials st serials)"
proof -
  have "map me_serial (entries (apply_forced_checkin_serials st serials)) = map me_serial (entries st)"
    by (simp add: apply_forced_checkin_serials_def)
  then show "monitor_state_wf st \<Longrightarrow> ?thesis" by (simp add: monitor_state_wf_def)
qed

text \<open>An update of every entry that keeps the serials.\<close>

lemma entry_of_map:
  assumes "monitor_state_wf st" "\<And>e. me_serial (f e) = me_serial e"
  shows "monitor_state_wf (st\<lparr>entries := map f (entries st)\<rparr>)
    \<and> entry_of (st\<lparr>entries := map f (entries st)\<rparr>) s = map_option f (entry_of st s)"
proof -
  let ?st = "st\<lparr>entries := map f (entries st)\<rparr>"
  have keys: "map me_serial (entries ?st) = map me_serial (entries st)" using assms(2) by simp
  with assms(1) have wf: "monitor_state_wf ?st" unfolding monitor_state_wf_def by metis
  have "entry_of ?st s = Some e' \<longleftrightarrow> map_option f (entry_of st s) = Some e'" for e'
    unfolding entry_of_wf [OF wf] map_option_eq_Some entry_of_wf [OF assms(1)]
    using assms(2) by auto
  with wf show ?thesis by (metis not_Some_eq)
qed

end
