(* ===== verification/State.thy ===== *)
theory State
  imports Monitors
begin

text \<open>
  \<open>spotter-core/src/state.rs\<close>: the persisted service state and its authentication tag.  The JSON
  encoder and HMAC-SHA256 are parameters; the hexadecimal codec is the program's own.
\<close>

section \<open>Data\<close>

datatype sync_result = Success | PartialSuccess "string list" | Failed string

record asset_summary =
  sm_id :: u64
  sm_name :: string
  sm_serial :: "string option"
  sm_asset_tag :: "string option"

record service_state =
  last_sync_time :: "string option"
  last_sync_result :: "sync_result option"
  matched_asset :: "asset_summary option"
  known_monitors :: "monitor_entry list"
  hmac :: string

definition default_state :: service_state where
  "default_state = \<lparr>last_sync_time = None, last_sync_result = None, matched_asset = None,
     known_monitors = [], hmac = []\<rparr>"

datatype state_auth_error = Serialization | InvalidKey | InvalidHex

record signable_state =
  sg_last_sync_time :: "string option"
  sg_last_sync_result :: "sync_result option"
  sg_matched_asset :: "asset_summary option"
  sg_known_monitors :: "monitor_entry list"

section \<open>The hexadecimal codec\<close>

definition hex_char :: "u8 \<Rightarrow> char" where
  "hex_char nibble = ''0123456789abcdef'' ! unat nibble"

fun encode_hex :: "u8 list \<Rightarrow> string" where
  "encode_hex [] = []"
| "encode_hex (b # bs) = hex_char (drop_bit 4 b) # hex_char (b AND 0x0f) # encode_hex bs"

definition hex_digit :: "char \<Rightarrow> u8 option" where
  "hex_digit c =
     (if 48 \<le> byte c \<and> byte c \<le> 57 then Some (of_nat (byte c) - 48)
      else if 97 \<le> byte c \<and> byte c \<le> 102 then Some (of_nat (byte c) - 97 + 10)
      else if 65 \<le> byte c \<and> byte c \<le> 70 then Some (of_nat (byte c) - 65 + 10)
      else None)"

text \<open>The pairs of \<open>chunks_exact(2)\<close>, collected up to the first error.\<close>

fun decode_pairs :: "string \<Rightarrow> (u8 list, state_auth_error) result" where
  "decode_pairs (h # l # s) =
     and_then (ok_or InvalidHex (hex_digit h)) (\<lambda>high.
     and_then (ok_or InvalidHex (hex_digit l)) (\<lambda>low.
       map_ok (\<lambda>bs. (push_bit 4 high OR low) # bs) (decode_pairs s)))"
| "decode_pairs _ = Ok []"

definition decode_hex :: "string \<Rightarrow> (u8 list, state_auth_error) result" where
  "decode_hex value = (if length value mod 2 \<noteq> 0 then Err InvalidHex else decode_pairs value)"

section \<open>Signing\<close>

definition validate_key :: "u8 list \<Rightarrow> (unit, state_auth_error) result" where
  "validate_key key = (if key = [] then Err InvalidKey else Ok ())"

definition signable :: "service_state \<Rightarrow> signable_state" where
  "signable s = \<lparr>sg_last_sync_time = last_sync_time s, sg_last_sync_result = last_sync_result s,
     sg_matched_asset = matched_asset s, sg_known_monitors = known_monitors s\<rparr>"

text \<open>
  \<open>to_vec\<close> is \<open>serde_json::to_vec\<close> on the signable fields; \<open>hmac_sha256 key message\<close> is the tag, or
  \<open>None\<close> where \<open>new_from_slice\<close> refuses the key.
\<close>

definition canonical_bytes ::
  "(signable_state \<Rightarrow> u8 list option) \<Rightarrow> service_state \<Rightarrow> (u8 list, state_auth_error) result" where
  "canonical_bytes to_vec s = ok_or Serialization (to_vec (signable s))"

definition sign ::
  "(signable_state \<Rightarrow> u8 list option) \<Rightarrow> (u8 list \<Rightarrow> u8 list \<Rightarrow> u8 list option)
     \<Rightarrow> service_state \<Rightarrow> u8 list \<Rightarrow> (service_state, state_auth_error) result" where
  "sign to_vec hmac_sha256 s key =
     and_then (validate_key key) (\<lambda>_.
     and_then (canonical_bytes to_vec s) (\<lambda>canonical.
     and_then (ok_or InvalidKey (hmac_sha256 key canonical)) (\<lambda>tag.
       Ok (s\<lparr>hmac := encode_hex tag\<rparr>))))"

definition verify ::
  "(signable_state \<Rightarrow> u8 list option) \<Rightarrow> (u8 list \<Rightarrow> u8 list \<Rightarrow> u8 list option)
     \<Rightarrow> service_state \<Rightarrow> u8 list \<Rightarrow> (bool, state_auth_error) result" where
  "verify to_vec hmac_sha256 s key =
     and_then (validate_key key) (\<lambda>_.
     and_then (decode_hex (hmac s)) (\<lambda>expected.
     and_then (canonical_bytes to_vec s) (\<lambda>canonical.
     and_then (ok_or InvalidKey (hmac_sha256 key canonical)) (\<lambda>tag. Ok (tag = expected)))))"

section \<open>The codec is exact\<close>

lemma byte_lt: "byte c < 256"
proof -
  have "byte c = byte c mod 256" by (metis byte_def char_of_char of_char_of)
  then show ?thesis by (metis mod_less_divisor zero_less_numeral)
qed

lemma byte_inject [simp]: "byte c = byte d \<longleftrightarrow> c = d"
  by (simp add: byte_def)

lemma byte_hex_char:
  assumes "unat n < 16"
  shows "byte (hex_char n) = (if unat n < 10 then 48 + unat n else 87 + unat n)"
proof -
  have "\<forall>i<16::nat. byte (''0123456789abcdef'' ! i) = (if i < 10 then 48 + i else 87 + i)" by code_simp
  with assms show ?thesis by (simp add: hex_char_def)
qed

lemma byte_ascii_lower: "byte (ascii_lower_char c) = (if 65 \<le> byte c \<and> byte c \<le> 90 then byte c + 32 else byte c)"
  by (simp add: ascii_lower_char_def byte_def)

lemma hex_digit_nat:
  "hex_digit c = map_option of_nat
     (if 48 \<le> byte c \<and> byte c \<le> 57 then Some (byte c - 48)
      else if 97 \<le> byte c \<and> byte c \<le> 102 then Some (byte c - 87)
      else if 65 \<le> byte c \<and> byte c \<le> 70 then Some (byte c - 55) else None)"
  by (simp add: hex_digit_def of_nat_diff)

lemma hex_digit_eq_Some:
  "hex_digit c = Some n \<longleftrightarrow> unat n < 16 \<and> ascii_lower_char c = hex_char n"
proof -
  define v where "v = (if 48 \<le> byte c \<and> byte c \<le> 57 then Some (byte c - 48)
      else if 97 \<le> byte c \<and> byte c \<le> 102 then Some (byte c - 87)
      else if 65 \<le> byte c \<and> byte c \<le> 70 then Some (byte c - 55) else None)"
  have lt: "k < 16" if "v = Some k" for k using that by (auto simp: v_def split: if_splits)
  have "hex_digit c = map_option of_nat v" unfolding hex_digit_nat v_def ..
  then have "hex_digit c = Some n \<longleftrightarrow> v = Some (unat n)"
    using lt by (cases v) (auto simp: word_unat_eq_iff unat_of_nat_small)
  also have "\<dots> \<longleftrightarrow> unat n < 16 \<and> byte (ascii_lower_char c) = (if unat n < 10 then 48 + unat n else 87 + unat n)"
    unfolding byte_ascii_lower v_def by (auto split: if_splits)
  also have "\<dots> \<longleftrightarrow> unat n < 16 \<and> ascii_lower_char c = hex_char n"
    using byte_hex_char [of n] by (metis byte_inject)
  finally show ?thesis .
qed

lemma encode_hex_length: "length (encode_hex bs) = 2 * length bs"
  by (induction bs) simp_all

lemma low_nibble: "(b :: u8) AND 0x0f = take_bit 4 b"
  by (simp add: take_bit_eq_mask mask_eq_exp_minus_1)

lemma nibble_bounds: "unat (drop_bit 4 (b :: u8)) < 16" "unat (b AND 0x0f) < 16"
proof -
  have "unat b < 256" using unsigned_less [of b, where 'a = nat] by simp
  then show "unat (drop_bit 4 b) < 16" by (subst unat_drop_bit_eq, subst drop_bit_eq_div) (simp add: less_mult_imp_div_less)
  show "unat (b AND 0x0f) < 16" unfolding low_nibble unsigned_take_bit_eq by (subst take_bit_eq_mod) simp
qed

lemma nibbles_join: "push_bit 4 (drop_bit 4 b) OR (b AND 0x0f) = (b :: u8)"
  unfolding low_nibble by (rule bit_eqI) (auto simp: bit_simps)

lemma nibble_bit: "unat (h :: u8) < 16 \<Longrightarrow> bit h n \<Longrightarrow> n < 4"
proof -
  assume "unat h < 16" "bit h n"
  then have "take_bit 4 (unat h) = unat h" by (simp add: take_bit_nat_eq_self_iff)
  then have "take_bit 4 h = h" by (simp add: word_unat_eq_iff unsigned_take_bit_eq)
  with \<open>bit h n\<close> show "n < 4" by (metis bit_take_bit_iff)
qed

lemma nibbles_split:
  assumes "unat (h :: u8) < 16" "unat (l :: u8) < 16"
  shows "drop_bit 4 (push_bit 4 h OR l) = h" "(push_bit 4 h OR l) AND 0x0f = l"
proof -
  show "drop_bit 4 (push_bit 4 h OR l) = h"
    using nibble_bit [OF assms(1)] nibble_bit [OF assms(2)] by (intro bit_eqI) (fastforce simp: bit_simps)
  show "(push_bit 4 h OR l) AND 0x0f = l"
    unfolding low_nibble
    using nibble_bit [OF assms(2)] by (intro bit_eqI) (fastforce simp: bit_simps)
qed

lemma decode_pairs_iff:
  "even (length s) \<Longrightarrow> decode_pairs s = Ok bs \<longleftrightarrow> ascii_lower s = encode_hex bs"
proof (induction s arbitrary: bs rule: decode_pairs.induct)
  case (1 h l s)
  then have IH: "decode_pairs s = Ok cs \<longleftrightarrow> ascii_lower s = encode_hex cs" for cs by simp
  have "decode_pairs (h # l # s) = Ok bs \<longleftrightarrow> (\<exists>i j cs. hex_digit h = Some i \<and> hex_digit l = Some j
      \<and> decode_pairs s = Ok cs \<and> bs = (push_bit 4 i OR j) # cs)"
    by (cases "hex_digit h"; cases "hex_digit l") (auto simp: and_then_eq_Ok)
  also have "\<dots> \<longleftrightarrow> (\<exists>i j cs. unat i < 16 \<and> unat j < 16 \<and> ascii_lower_char h = hex_char i
      \<and> ascii_lower_char l = hex_char j \<and> ascii_lower s = encode_hex cs \<and> bs = (push_bit 4 i OR j) # cs)"
    by (simp only: hex_digit_eq_Some IH) blast
  also have "\<dots> \<longleftrightarrow> ascii_lower (h # l # s) = encode_hex bs"
  proof (cases bs)
    case (Cons b cs)
    then show ?thesis
      using nibble_bounds [of b] nibbles_join [of b] nibbles_split by (auto simp: ascii_lower_def) metis+
  qed (simp add: ascii_lower_def)
  finally show ?case .
next
  case "2_1"
  then show ?case by (cases bs) (auto simp: ascii_lower_def)
qed simp

lemma ascii_lower_length [simp]: "length (ascii_lower s) = length s"
  by (simp add: ascii_lower_def)

lemma decode_hex_iff: "decode_hex s = Ok bs \<longleftrightarrow> ascii_lower s = encode_hex bs"
proof (cases "even (length s)")
  case True
  then show ?thesis by (simp add: decode_hex_def decode_pairs_iff)
next
  case False
  then have "ascii_lower s \<noteq> encode_hex bs"
    by (metis ascii_lower_length dvd_triv_left encode_hex_length)
  with False show ?thesis by (simp add: decode_hex_def odd_iff_mod_2_eq_one)
qed

section \<open>What the codec and the signature guarantee\<close>

text \<open>
  The hexadecimal codec is exact.  A tag decodes to some bytes exactly when, in lower case, it
  is the encoding of those bytes; so decoding inverts encoding, every other text is refused, and
  two bytes never share an encoding.
\<close>

theorem decode_hex_exact:
  "decode_hex value = Ok bytes \<longleftrightarrow> ascii_lower value = encode_hex bytes"
  by (rule decode_hex_iff)

lemma verify_true_iff:
  "verify to_vec hmac_sha256 s key = Ok True \<longleftrightarrow>
     key \<noteq> [] \<and> (\<exists>canonical tag. to_vec (signable s) = Some canonical
        \<and> hmac_sha256 key canonical = Some tag \<and> ascii_lower (hmac s) = encode_hex tag)"
  by (auto simp: verify_def validate_key_def canonical_bytes_def and_then_eq_Ok decode_hex_iff [symmetric] ok_or_def
      split: option.splits)

lemma encode_hex_lower: "ascii_lower (encode_hex bs) = encode_hex bs"
proof -
  have "ascii_lower_char (hex_char n) = hex_char n" if "unat n < 16" for n
    using byte_hex_char [OF that] byte_ascii_lower [of "hex_char n"] that
    by (subst byte_inject [symmetric]) (simp split: if_splits)
  then show ?thesis
    by (induction bs) (simp_all add: ascii_lower_def nibble_bounds)
qed

text \<open>
  A state verifies under a key exactly when the key is not empty and the stored tag is, up to
  the case of its digits, the encoding of the HMAC of the state's own canonical bytes: nothing but
  the four signed fields and the key decides.
\<close>

theorem verify_iff_authentic:
  "verify to_vec hmac_sha256 s key = Ok True \<longleftrightarrow>
     key \<noteq> [] \<and> (\<exists>canonical tag. to_vec (signable s) = Some canonical
        \<and> hmac_sha256 key canonical = Some tag \<and> ascii_lower (hmac s) = encode_hex tag)"
  by (rule verify_true_iff)

text \<open>
  Signing then verifying succeeds, and signing changes nothing but the tag.  A state signed
  under one key and content verifies with another content or another key only if the HMAC values
  coincide.
\<close>

theorem sign_then_verify:
  assumes "sign to_vec hmac_sha256 s key = Ok s'"
  shows "verify to_vec hmac_sha256 s' key = Ok True \<and> signable s' = signable s
    \<and> (verify to_vec hmac_sha256 (t\<lparr>hmac := hmac s'\<rparr>) key2 = Ok True \<longleftrightarrow>
        key2 \<noteq> [] \<and> to_vec (signable t) \<noteq> None
        \<and> hmac_sha256 key2 (the (to_vec (signable t))) = hmac_sha256 key (the (to_vec (signable s))))"
proof -
  from assms obtain c tag where s: "key \<noteq> []" "to_vec (signable s) = Some c" "hmac_sha256 key c = Some tag"
      "s' = s\<lparr>hmac := encode_hex tag\<rparr>"
    by (auto simp: sign_def and_then_eq_Ok validate_key_def canonical_bytes_def ok_or_def split: option.splits if_splits)
  have sg: "signable (u\<lparr>hmac := h\<rparr>) = signable u" for u h
    by (simp add: signable_def)
  have inj: "encode_hex tag = encode_hex u \<longleftrightarrow> u = tag" for u
    by (metis decode_hex_iff encode_hex_lower result.inject(1))
  show ?thesis
    using s by (auto simp: verify_true_iff sg encode_hex_lower inj)
qed

definition demo_vec :: "signable_state \<Rightarrow> u8 list option" where
  "demo_vec g = Some [of_nat (length (sg_known_monitors g))]"

definition demo_mac :: "u8 list \<Rightarrow> u8 list \<Rightarrow> u8 list option" where
  "demo_mac key message = Some [foldl (+) 0 (key @ message), 7]"

theorem sign_then_verify_witness:
  "verify demo_vec demo_mac (default_state\<lparr>hmac := ''0507''\<rparr>) [5] = Ok True"
proof -
  have "sign demo_vec demo_mac default_state [5] = Ok (default_state\<lparr>hmac := ''0507''\<rparr>)" by code_simp
  from sign_then_verify [OF this] show ?thesis by blast
qed

end
