(* ===== verification/Ipc.thy ===== *)
theory Ipc
  imports Config State
begin

text \<open>
  \<open>spotter-core/src/ipc.rs\<close>: the commands and responses of the IPC protocol, the parsing of a
  configuration field update and its effect on the settings.
\<close>

section \<open>Data\<close>

definition IPC_MAX_LINE_BYTES :: nat where
  "IPC_MAX_LINE_BYTES = 64 * 1024"

datatype service_command =
    GetConfig
  | SetConfig string string
  | SetToken string
  | GetStatus
  | GetStatusFull
  | TriggerSync
  | CheckinAll
  | CheckinSerial string

record checkin_entry =
  ce_serial :: string
  ce_asset_id :: u64

record monitor_status =
  ms_serial :: string
  ms_asset_id :: "u64 option"
  ms_checked_out :: bool
  ms_absent_since :: "string option"

datatype ipc_response =
    ConfigResponse settings "string list"
  | StatusResponse string "string option" "string option" string
  | StatusFullResponse string "string option" "string option" string "asset_summary option" "monitor_status list"
  | OkResponse string
  | ErrorResponse string
  | CheckinResult "checkin_entry list"

datatype settings_update =
    SnipeItUrlUpdate string
  | CheckoutStatusId u64
  | CheckinStatusId u64
  | PollingIntervalHours u64
  | LoggingLevelUpdate string
  | LoggingMaxSizeMb u64
  | LoggingMaxFilesUpdate u32
  | MonitorCheckinPolicy checkin_policy
  | MonitorCheckinThresholdHours u64

section \<open>Parsing an update\<close>

definition validate_url :: "string \<Rightarrow> (unit, string) result" where
  "validate_url value =
     (case validate_snipeit_url value of
        Ok u \<Rightarrow> Ok u
      | Err SnipeItUrl \<Rightarrow>
          Err ''snipeit.url must be a valid HTTPS endpoint without credentials, query, or fragment''
      | Err _ \<Rightarrow> Err ''snipeit.url is invalid'')"

definition parse_u64 :: "string \<Rightarrow> u64 \<Rightarrow> u64 \<Rightarrow> (u64, string) result" where
  "parse_u64 value minimum maximum =
     and_then (ok_or ''value must be an unsigned integer'' (parse_u64_str value)) (\<lambda>parsed.
       if \<not> (minimum \<le> parsed \<and> parsed \<le> maximum)
       then Err (''value must be between '' @ dec minimum @ '' and '' @ dec maximum)
       else Ok parsed)"

definition parse_u32 :: "string \<Rightarrow> u32 \<Rightarrow> u32 \<Rightarrow> (u32, string) result" where
  "parse_u32 value minimum maximum =
     and_then (ok_or ''value must be an unsigned integer'' (parse_u32_str value)) (\<lambda>parsed.
       if \<not> (minimum \<le> parsed \<and> parsed \<le> maximum)
       then Err (''value must be between '' @ dec minimum @ '' and '' @ dec maximum)
       else Ok parsed)"

definition validate_config_field :: "string \<Rightarrow> string \<Rightarrow> (settings_update, string) result" where
  "validate_config_field field value =
     (if field = ''snipeit.url'' then map_ok (\<lambda>_. SnipeItUrlUpdate value) (validate_url value)
      else if field = ''snipeit.checkout_status_id'' then map_ok CheckoutStatusId (parse_u64 value 1 (-1))
      else if field = ''snipeit.checkin_status_id'' then map_ok CheckinStatusId (parse_u64 value 1 (-1))
      else if field = ''polling.interval_hours'' then map_ok PollingIntervalHours (parse_u64 value 1 168)
      else if field = ''logging.level'' then
        (if value \<in> set log_levels then Ok (LoggingLevelUpdate value)
         else Err ''logging.level must be trace, debug, info, warn, or error'')
      else if field = ''logging.max_size_mb'' then map_ok LoggingMaxSizeMb (parse_u64 value 1 10240)
      else if field = ''logging.max_files'' then map_ok LoggingMaxFilesUpdate (parse_u32 value 1 1000)
      else if field = ''monitors.checkin_policy'' then
        (if value = ''manual'' then Ok (MonitorCheckinPolicy Manual)
         else if value = ''auto_non_portable'' then Ok (MonitorCheckinPolicy AutoNonPortable)
         else Err ''monitors.checkin_policy must be manual or auto_non_portable'')
      else if field = ''monitors.checkin_threshold_hours''
        then map_ok MonitorCheckinThresholdHours (parse_u64 value 1 8760)
      else if field = ''snipeit.api_token_encrypted''
        then Err ''use the set-token command to update the API token''
      else Err (''unknown configuration field: '' @ field))"

section \<open>Applying an update\<close>

fun apply_settings_update :: "settings \<Rightarrow> settings_update \<Rightarrow> settings" where
  "apply_settings_update s (SnipeItUrlUpdate v) = s\<lparr>s_snipeit := (s_snipeit s)\<lparr>url := v\<rparr>\<rparr>"
| "apply_settings_update s (CheckoutStatusId v) = s\<lparr>s_snipeit := (s_snipeit s)\<lparr>checkout_status_id := v\<rparr>\<rparr>"
| "apply_settings_update s (CheckinStatusId v) = s\<lparr>s_snipeit := (s_snipeit s)\<lparr>checkin_status_id := v\<rparr>\<rparr>"
| "apply_settings_update s (PollingIntervalHours v) = s\<lparr>s_polling := (s_polling s)\<lparr>interval_hours := v\<rparr>\<rparr>"
| "apply_settings_update s (LoggingLevelUpdate v) = s\<lparr>s_logging := (s_logging s)\<lparr>log_level := v\<rparr>\<rparr>"
| "apply_settings_update s (LoggingMaxSizeMb v) = s\<lparr>s_logging := (s_logging s)\<lparr>max_size_mb := v\<rparr>\<rparr>"
| "apply_settings_update s (LoggingMaxFilesUpdate v) = s\<lparr>s_logging := (s_logging s)\<lparr>max_files := v\<rparr>\<rparr>"
| "apply_settings_update s (MonitorCheckinPolicy v) = s\<lparr>s_monitors := (s_monitors s)\<lparr>checkin_policy := v\<rparr>\<rparr>"
| "apply_settings_update s (MonitorCheckinThresholdHours v) =
     s\<lparr>s_monitors := (s_monitors s)\<lparr>checkin_threshold_hours := v\<rparr>\<rparr>"

definition redact_settings :: "settings \<Rightarrow> settings" where
  "redact_settings s = s\<lparr>s_snipeit := (s_snipeit s)\<lparr>api_token_encrypted := []\<rparr>\<rparr>"

section \<open>Facts\<close>

text \<open>The values an update may carry: the range of its field.\<close>

fun update_in_range :: "settings_update \<Rightarrow> bool" where
  "update_in_range (SnipeItUrlUpdate v) \<longleftrightarrow> validate_snipeit_url v = Ok ()"
| "update_in_range (CheckoutStatusId v) \<longleftrightarrow> v \<noteq> 0"
| "update_in_range (CheckinStatusId v) \<longleftrightarrow> v \<noteq> 0"
| "update_in_range (PollingIntervalHours v) \<longleftrightarrow> 1 \<le> v \<and> v \<le> 168"
| "update_in_range (LoggingLevelUpdate v) \<longleftrightarrow> v \<in> set log_levels"
| "update_in_range (LoggingMaxSizeMb v) \<longleftrightarrow> 1 \<le> v \<and> v \<le> 10240"
| "update_in_range (LoggingMaxFilesUpdate v) \<longleftrightarrow> 1 \<le> v \<and> v \<le> 1000"
| "update_in_range (MonitorCheckinPolicy v) \<longleftrightarrow> True"
| "update_in_range (MonitorCheckinThresholdHours v) \<longleftrightarrow> 1 \<le> v \<and> v \<le> 8760"

lemma parse_u64_Ok: "parse_u64 value lo hi = Ok n \<longleftrightarrow> parse_u64_str value = Some n \<and> lo \<le> n \<and> n \<le> hi"
  by (auto simp: parse_u64_def and_then_eq_Ok ok_or_def split: option.splits)

lemma parse_u32_Ok: "parse_u32 value lo hi = Ok n \<longleftrightarrow> parse_u32_str value = Some n \<and> lo \<le> n \<and> n \<le> hi"
  by (auto simp: parse_u32_def and_then_eq_Ok ok_or_def split: option.splits)

lemma validate_url_Ok: "validate_url value = Ok () \<longleftrightarrow> validate_snipeit_url value = Ok ()"
  by (auto simp: validate_url_def split: result.splits settings_validation_error.splits)

lemma one_le_u64: "1 \<le> (v :: u64) \<longleftrightarrow> v \<noteq> 0"
  by (simp add: word_le_nat_alt unat_gt_0 [symmetric] Suc_le_eq del: unat_gt_0)

lemma validate_config_field_range:
  assumes "validate_config_field field value = Ok u"
  shows "update_in_range u"
  using assms
  by (auto simp: validate_config_field_def parse_u64_Ok parse_u32_Ok validate_url_Ok one_le_u64 split: if_splits)

lemma apply_in_range_valid:
  assumes "validate_settings s = Ok ()" "update_in_range u"
  shows "validate_settings (apply_settings_update s u) = Ok ()"
  using assms
  by (cases u) (auto simp: validate_settings_Ok log_levels_def word_le_nat_alt)

text \<open>
  No accepted configuration update makes valid settings invalid: whatever field and value the
  client sends, an update that parses leaves settings that the loader accepts.
\<close>

theorem config_update_keeps_valid:
  assumes "validate_settings s = Ok ()" and "validate_config_field field value = Ok u"
  shows "validate_settings (apply_settings_update s u) = Ok ()"
  using assms validate_config_field_range apply_in_range_valid by blast

theorem config_update_keeps_valid_witness:
  "validate_settings (apply_settings_update default_settings (PollingIntervalHours 12)) = Ok ()"
proof -
  have "validate_settings default_settings = Ok ()" by code_simp
  moreover have "validate_config_field ''polling.interval_hours'' ''12'' = Ok (PollingIntervalHours 12)" by code_simp
  ultimately show ?thesis by (rule config_update_keeps_valid)
qed

text \<open>The text of a dotted field, as the client shows it.\<close>

definition policy_text :: "checkin_policy \<Rightarrow> string" where
  "policy_text p = (case p of Manual \<Rightarrow> ''manual'' | AutoNonPortable \<Rightarrow> ''auto_non_portable'')"

definition setting_text :: "settings \<Rightarrow> string \<Rightarrow> string" where
  "setting_text s field =
     (if field = ''snipeit.url'' then url (s_snipeit s)
      else if field = ''snipeit.checkout_status_id'' then dec (checkout_status_id (s_snipeit s))
      else if field = ''snipeit.checkin_status_id'' then dec (checkin_status_id (s_snipeit s))
      else if field = ''polling.interval_hours'' then dec (interval_hours (s_polling s))
      else if field = ''logging.level'' then log_level (s_logging s)
      else if field = ''logging.max_size_mb'' then dec (max_size_mb (s_logging s))
      else if field = ''logging.max_files'' then dec (max_files (s_logging s))
      else if field = ''monitors.checkin_policy'' then policy_text (checkin_policy (s_monitors s))
      else if field = ''monitors.checkin_threshold_hours'' then dec (checkin_threshold_hours (s_monitors s))
      else [])"

fun update_field :: "settings_update \<Rightarrow> string" where
  "update_field (SnipeItUrlUpdate _) = ''snipeit.url''"
| "update_field (CheckoutStatusId _) = ''snipeit.checkout_status_id''"
| "update_field (CheckinStatusId _) = ''snipeit.checkin_status_id''"
| "update_field (PollingIntervalHours _) = ''polling.interval_hours''"
| "update_field (LoggingLevelUpdate _) = ''logging.level''"
| "update_field (LoggingMaxSizeMb _) = ''logging.max_size_mb''"
| "update_field (LoggingMaxFilesUpdate _) = ''logging.max_files''"
| "update_field (MonitorCheckinPolicy _) = ''monitors.checkin_policy''"
| "update_field (MonitorCheckinThresholdHours _) = ''monitors.checkin_threshold_hours''"

lemma validate_config_field_name: "validate_config_field field value = Ok u \<Longrightarrow> field = update_field u"
  by (auto simp: validate_config_field_def split: if_splits)

lemma setting_text_frame: "other \<noteq> update_field u \<Longrightarrow> setting_text (apply_settings_update s u) other = setting_text s other"
  by (cases u) (simp_all add: setting_text_def)

lemma setting_text_applied:
  "update_in_range u \<Longrightarrow> validate_config_field (update_field u) (setting_text (apply_settings_update s u) (update_field u)) = Ok u"
  by (cases u) (simp_all add: validate_config_field_def setting_text_def parse_u64_Ok parse_u32_Ok validate_url_Ok
      one_le_u64 policy_text_def split: checkin_policy.split)

text \<open>
  An accepted update changes the named field and no other, never the token, and the field then
  reads back as a text that parses to the same update.
\<close>

theorem config_update_exact:
  assumes "validate_config_field field value = Ok u"
  shows "(if other = field then validate_config_field field (setting_text (apply_settings_update s u) field) = Ok u
          else setting_text (apply_settings_update s u) other = setting_text s other)
    \<and> api_token_encrypted (s_snipeit (apply_settings_update s u)) = api_token_encrypted (s_snipeit s)"
proof -
  have field: "field = update_field u" using assms by (rule validate_config_field_name)
  have "api_token_encrypted (s_snipeit (apply_settings_update s u)) = api_token_encrypted (s_snipeit s)"
    by (cases u) simp_all
  then show ?thesis
    using setting_text_applied [OF validate_config_field_range [OF assms]] setting_text_frame
    by (simp add: field)
qed

theorem config_update_exact_witness:
  "setting_text (apply_settings_update default_settings (LoggingMaxFilesUpdate 9)) ''logging.level'' = ''info''"
proof -
  have "validate_config_field ''logging.max_files'' ''9'' = Ok (LoggingMaxFilesUpdate 9)" by code_simp
  from config_update_exact [OF this, of "''logging.level''" default_settings] show ?thesis
    by (simp add: setting_text_def default_settings_def default_logging_def)
qed

text \<open>
  A redacted configuration is the same for all tokens, and redaction keeps everything else: two
  settings redact to the same value exactly when they agree on all fields but the token.
\<close>

theorem redact_settings_exact:
  "redact_settings s = redact_settings t \<longleftrightarrow>
     t = s\<lparr>s_snipeit := (s_snipeit s)\<lparr>api_token_encrypted := api_token_encrypted (s_snipeit t)\<rparr>\<rparr>"
  by (cases s; cases t; cases "s_snipeit s"; cases "s_snipeit t") (auto simp: redact_settings_def)

end
