(* ===== verification/Identity.thy ===== *)
theory Identity
  imports Prelude
begin

text \<open>
  \<open>spotter-core/src/identity.rs\<close>: the runtime identity of an installed service and its encoding as
  service launch arguments, on Windows.  A path is its UTF-8 text, which \<open>to_string_lossy\<close> leaves
  alone.
\<close>

section \<open>Data\<close>

record runtime_options =
  service_name :: string
  data_root :: string
  pipe_endpoint :: string
  mutex_name :: string

definition backslash :: char where
  "backslash = CHR 0x5C"

definition pipe_namespace :: string where
  "pipe_namespace = [backslash, backslash, CHR ''.'', backslash] @ ''pipe'' @ [backslash]"

definition PRODUCT_NAME :: string where
  "PRODUCT_NAME = ''SnipeSpotter''"

definition COMPANY_NAME :: string where
  "COMPANY_NAME = ''infogyre''"

definition data_dir :: string where
  "data_dir = ''C:'' @ [backslash] @ ''ProgramData'' @ [backslash] @ COMPANY_NAME @ [backslash] @ PRODUCT_NAME"

definition production :: runtime_options where
  "production = \<lparr>service_name = PRODUCT_NAME, data_root = data_dir,
     pipe_endpoint = pipe_namespace @ PRODUCT_NAME, mutex_name = ''Global'' @ [backslash] @ PRODUCT_NAME\<rparr>"

section \<open>Validation and the argument codec\<close>

definition validate_options :: "runtime_options \<Rightarrow> (unit, string) result" where
  "validate_options o1 =
     (if trim (service_name o1) = [] then Err ''service name must not be empty''
      else if data_root o1 = [] then Err ''service data root must not be empty''
      else if trim (pipe_endpoint o1) = [] then Err ''pipe endpoint must not be empty''
      else if \<not> starts_with pipe_namespace (pipe_endpoint o1)
        then Err ''pipe endpoint must use the Windows named-pipe namespace''
      else if trim (mutex_name o1) = [] then Err ''mutex name must not be empty''
      else if CHR 0x00 \<in> set (service_name o1) \<or> CHR 0x00 \<in> set (pipe_endpoint o1)
        \<or> CHR 0x00 \<in> set (mutex_name o1) \<or> CHR 0x00 \<in> set (data_root o1)
        then Err ''service runtime identity must not contain NUL bytes''
      else Ok ())"

definition new_options :: "string \<Rightarrow> string \<Rightarrow> string \<Rightarrow> string \<Rightarrow> (runtime_options, string) result" where
  "new_options name root endpoint mutex =
     (let o1 = \<lparr>service_name = name, data_root = root, pipe_endpoint = endpoint, mutex_name = mutex\<rparr>
      in and_then (validate_options o1) (\<lambda>_. Ok o1))"

definition launch_arguments :: "runtime_options \<Rightarrow> string list" where
  "launch_arguments o1 =
     [''--service-name'', service_name o1, ''--data-root'', data_root o1,
      ''--pipe-endpoint'', pipe_endpoint o1, ''--mutex-name'', mutex_name o1]"

text \<open>The array \<open>values\<close> of four slots, filled pair by pair.\<close>

definition argument_index :: "string \<Rightarrow> nat option" where
  "argument_index key =
     (if key = ''--service-name'' then Some 0 else if key = ''--data-root'' then Some 1
      else if key = ''--pipe-endpoint'' then Some 2 else if key = ''--mutex-name'' then Some 3 else None)"

fun fill_values :: "string list \<Rightarrow> string option list \<Rightarrow> (string option list, string) result" where
  "fill_values (key # value # rest) values =
     (case argument_index key of
        None \<Rightarrow> Err (''unknown service runtime argument: '' @ key)
      | Some index \<Rightarrow>
          if values ! index \<noteq> None then Err (''duplicate service runtime argument: '' @ key)
          else fill_values rest (values[index := Some value]))"
| "fill_values _ values = Ok values"

definition from_arguments :: "string list \<Rightarrow> (runtime_options, string) result" where
  "from_arguments arguments =
     (if arguments = [] then Ok production
      else if length arguments \<noteq> 8 then Err ''service runtime arguments must contain four option pairs''
      else and_then (fill_values arguments [None, None, None, None]) (\<lambda>values.
        case values of
          [Some name, Some root, Some endpoint, Some mutex] \<Rightarrow> new_options name root endpoint mutex
        | _ \<Rightarrow> Err ''service runtime arguments are incomplete''))"

section \<open>Facts\<close>

text \<open>The option pairs of an identity; a command line is any arrangement of such pairs.\<close>

definition option_pairs :: "runtime_options \<Rightarrow> (string \<times> string) list" where
  "option_pairs o1 =
     [(''--service-name'', service_name o1), (''--data-root'', data_root o1),
      (''--pipe-endpoint'', pipe_endpoint o1), (''--mutex-name'', mutex_name o1)]"

fun flatten_pairs :: "(string \<times> string) list \<Rightarrow> string list" where
  "flatten_pairs [] = []"
| "flatten_pairs ((k, v) # ps) = k # v # flatten_pairs ps"

lemma flatten_option_pairs: "flatten_pairs (option_pairs o1) = launch_arguments o1"
  by (simp add: option_pairs_def launch_arguments_def)

lemma flatten_pairs_length: "length (flatten_pairs ps) = 2 * length ps"
  by (induction ps rule: flatten_pairs.induct) simp_all

definition slot_name :: "nat \<Rightarrow> string" where
  "slot_name i = [''--service-name'', ''--data-root'', ''--pipe-endpoint'', ''--mutex-name''] ! i"

lemma slot_names:
  "slot_name 0 = ''--service-name''" "slot_name 1 = ''--data-root''"
  "slot_name 2 = ''--pipe-endpoint''" "slot_name 3 = ''--mutex-name''"
  by (simp_all add: slot_name_def)

lemma argument_index_slot: "i < 4 \<Longrightarrow> argument_index (slot_name i) = Some i"
proof -
  assume "i < 4"
  then consider "i = 0" | "i = 1" | "i = 2" | "i = 3" by linarith
  then show ?thesis by cases (simp_all only: slot_names argument_index_def, simp_all)
qed

lemma argument_index_iff: "argument_index key = Some i \<longleftrightarrow> i < 4 \<and> key = slot_name i"
proof
  assume "argument_index key = Some i"
  then consider "i = 0" "key = slot_name 0" | "i = 1" "key = slot_name 1"
    | "i = 2" "key = slot_name 2" | "i = 3" "key = slot_name 3"
    unfolding argument_index_def slot_names by (metis option.distinct(1) option.inject)
  then show "i < 4 \<and> key = slot_name i" by cases simp_all
qed (simp add: argument_index_slot)

text \<open>The filled slots are a map from the slots to slots, read off the pairs.\<close>

lemma fill_values_iff:
  assumes "length slots = 4"
  shows "fill_values (flatten_pairs ps) slots = Ok filled \<longleftrightarrow>
    length filled = 4 \<and> distinct (map fst ps)
    \<and> (\<forall>k v. (k, v) \<in> set ps \<longrightarrow> (\<exists>i<4. k = slot_name i \<and> slots ! i = None))
    \<and> (\<forall>i<4. filled ! i = (case map_of ps (slot_name i) of Some v \<Rightarrow> Some v | None \<Rightarrow> slots ! i))"
  using assms
proof (induction ps arbitrary: slots rule: flatten_pairs.induct)
  case 1
  then show ?case by (auto intro: nth_equalityI)
next
  case (2 k v ps)
  show ?case
  proof (cases "argument_index k")
    case None
    then have "\<not> (\<exists>i<4. k = slot_name i)" by (metis argument_index_slot option.distinct(1))
    then have "\<not> (\<forall>k' v'. (k', v') \<in> set ((k, v) # ps) \<longrightarrow> (\<exists>i<4. k' = slot_name i \<and> slots ! i = None))"
      by (metis list.set_intros(1))
    moreover have "fill_values (flatten_pairs ((k, v) # ps)) slots \<noteq> Ok filled" using None by simp
    ultimately show ?thesis by blast
  next
    case (Some i)
    then have i: "i < 4" "k = slot_name i" by (simp_all add: argument_index_iff)
    have inj: "slot_name j = slot_name i \<longleftrightarrow> j = i" if "j < 4" for j
      using that i(1) by (metis argument_index_slot option.inject)
    have "length (slots[i := Some v]) = 4" using "2.prems" by simp
    note IH = "2.IH" [OF this]
    show ?thesis
    proof (cases "slots ! i")
      case (Some w)
      then have "\<not> (\<forall>k' v'. (k', v') \<in> set ((k, v) # ps) \<longrightarrow> (\<exists>i<4. k' = slot_name i \<and> slots ! i = None))"
        using inj i by (metis list.set_intros(1) option.distinct(1))
      moreover have "fill_values (flatten_pairs ((k, v) # ps)) slots \<noteq> Ok filled"
        using \<open>argument_index k = Some i\<close> Some by simp
      ultimately show ?thesis by blast
    next
      case None
      have get: "slots[i := Some v] ! j = (if j = i then Some v else slots ! j)" if "j < 4" for j
        using that "2.prems" i(1) by (simp add: nth_list_update)
      have keys: "(\<forall>k' v'. (k', v') \<in> set ps \<longrightarrow> (\<exists>j<4. k' = slot_name j \<and> slots[i := Some v] ! j = None)) \<longleftrightarrow>
          k \<notin> fst ` set ps \<and> (\<forall>k' v'. (k', v') \<in> set ps \<longrightarrow> (\<exists>j<4. k' = slot_name j \<and> slots ! j = None))"
        (is "?L \<longleftrightarrow> ?N \<and> ?R")
      proof
        assume L: ?L
        have ?N
        proof
          assume "k \<in> fst ` set ps"
          then obtain v' where "(k, v') \<in> set ps" by force
          with L obtain j where "j < 4" "k = slot_name j" "slots[i := Some v] ! j = None" by blast
          with inj i get show False by simp
        qed
        moreover have ?R using L get by (metis option.distinct(1))
        ultimately show "?N \<and> ?R" by blast
      next
        assume "?N \<and> ?R"
        then show ?L using i(2) get by (metis fst_conv image_eqI)
      qed
      have vals: "(\<forall>j<4. filled ! j = (case map_of ps (slot_name j) of Some u \<Rightarrow> Some u | None \<Rightarrow> slots[i := Some v] ! j))
          \<longleftrightarrow> (\<forall>j<4. filled ! j = (case map_of ((k, v) # ps) (slot_name j) of Some u \<Rightarrow> Some u | None \<Rightarrow> slots ! j))"
        if "k \<notin> fst ` set ps"
      proof -
        have "map_of ps k = None" using that by (simp add: map_of_eq_None_iff)
        then have "(case map_of ps (slot_name j) of Some u \<Rightarrow> Some u | None \<Rightarrow> slots[i := Some v] ! j)
            = (case map_of ((k, v) # ps) (slot_name j) of Some u \<Rightarrow> Some u | None \<Rightarrow> slots ! j)" if "j < 4" for j
          using get [OF that] inj [OF that] i(2) by (cases "j = i") (simp_all split: option.split)
        then show ?thesis by simp
      qed
      have here: "\<exists>j<4. k = slot_name j \<and> slots ! j = None" using i None by blast
      have fill: "fill_values (flatten_pairs ((k, v) # ps)) slots = fill_values (flatten_pairs ps) (slots[i := Some v])"
        using \<open>argument_index k = Some i\<close> None by simp
      have d: "distinct (map fst ((k, v) # ps)) \<longleftrightarrow> k \<notin> fst ` set ps \<and> distinct (map fst ps)" by simp
      have a: "(\<forall>k' v'. (k', v') \<in> set ((k, v) # ps) \<longrightarrow> (\<exists>j<4. k' = slot_name j \<and> slots ! j = None)) \<longleftrightarrow>
          (\<forall>k' v'. (k', v') \<in> set ps \<longrightarrow> (\<exists>j<4. k' = slot_name j \<and> slots ! j = None))"
        using here by auto
      show ?thesis
      proof (cases "k \<in> fst ` set ps")
        case True
        then show ?thesis unfolding fill IH keys d by (simp only: simp_thms)
      next
        case False
        then show ?thesis unfolding fill IH keys d a vals [OF False] by (simp only: simp_thms)
      qed
    qed
  qed
qed

lemma length_option_pairs [simp]: "length (option_pairs o1) = 4"
  by (simp add: option_pairs_def)

lemma option_pairs_distinct: "distinct (map fst (option_pairs o1))"
  by (simp add: option_pairs_def)

lemma option_pairs_slots: "i < 4 \<Longrightarrow> map_of (option_pairs o1) (slot_name i) = Some (snd (option_pairs o1 ! i))"
  by (auto simp: option_pairs_def slot_name_def numeral_eq_Suc less_Suc_eq)

lemma mset_option_pairs_iff:
  "mset ps = mset (option_pairs o1) \<longleftrightarrow>
     length ps = 4 \<and> distinct (map fst ps) \<and> (\<forall>i<4. map_of ps (slot_name i) = map_of (option_pairs o1) (slot_name i))"
proof
  assume eq: "mset ps = mset (option_pairs o1)"
  then have "length ps = 4" by (metis mset_eq_length length_option_pairs)
  moreover have d: "distinct (map fst ps)"
    using eq option_pairs_distinct by (metis distinct_count_atmost_1 mset_map mset_eq_imp_distinct_iff)
  moreover have "map_of ps = map_of (option_pairs o1)"
    using d option_pairs_distinct eq by (intro map_of_inject_set [THEN iffD2]) (auto dest: mset_eq_setD)
  ultimately show "length ps = 4 \<and> distinct (map fst ps)
      \<and> (\<forall>i<4. map_of ps (slot_name i) = map_of (option_pairs o1) (slot_name i))" by simp
next
  assume r: "length ps = 4 \<and> distinct (map fst ps)
      \<and> (\<forall>i<4. map_of ps (slot_name i) = map_of (option_pairs o1) (slot_name i))"
  have "set (option_pairs o1) \<subseteq> set ps"
  proof
    fix p assume "p \<in> set (option_pairs o1)"
    then obtain i where i: "i < 4" "p = option_pairs o1 ! i"
      by (metis in_set_conv_nth length_option_pairs)
    then have "p = (slot_name i, snd (option_pairs o1 ! i))"
      by (auto simp: option_pairs_def slot_name_def numeral_eq_Suc less_Suc_eq)
    with r i option_pairs_slots show "p \<in> set ps" by (metis map_of_SomeD)
  qed
  moreover have "card (set (option_pairs o1)) = 4" by (simp add: option_pairs_def)
  moreover have dp: "distinct ps" "distinct (option_pairs o1)"
    using r option_pairs_distinct by (auto simp: distinct_map)
  ultimately have "set ps = set (option_pairs o1)"
    using r distinct_card [of ps] by (metis List.finite_set card_subset_eq)
  with dp show "mset ps = mset (option_pairs o1)" by (simp add: set_eq_iff_mset_eq_distinct)
qed

lemma all_less_4: "(\<forall>i<4. P i) \<longleftrightarrow> P 0 \<and> P 1 \<and> P 2 \<and> P (3::nat)"
  by (simp add: numeral_eq_Suc All_less_Suc) auto

lemma length_4: "length xs = 4 \<longleftrightarrow> (\<exists>a b c d. xs = [a, b, c, d])"
  by (auto simp: length_Suc_conv numeral_eq_Suc)

lemma fill_empty_iff:
  "fill_values (flatten_pairs ps) [None, None, None, None] = Ok filled \<longleftrightarrow>
     distinct (map fst ps) \<and> (\<forall>k v. (k, v) \<in> set ps \<longrightarrow> (\<exists>i<4. k = slot_name i))
     \<and> filled = map (\<lambda>i. map_of ps (slot_name i)) [0, 1, 2, 3]"
proof -
  have none: "[None, None, None, None] ! i = (None :: string option)" if "i < 4" for i
    using that by (auto simp: numeral_eq_Suc less_Suc_eq)
  have "(\<forall>i<4. filled ! i = (case map_of ps (slot_name i) of Some v \<Rightarrow> Some v | None \<Rightarrow> [None, None, None, None] ! i))
      \<and> length filled = 4 \<longleftrightarrow> filled = map (\<lambda>i. map_of ps (slot_name i)) [0, 1, 2, 3]"
  proof -
    have "(case map_of ps (slot_name i) of Some v \<Rightarrow> Some v | None \<Rightarrow> [None, None, None, None] ! i)
        = map_of ps (slot_name i)" if "i < 4" for i
      using none [OF that] by (simp split: option.split)
    then show ?thesis unfolding length_4 by (auto simp: all_less_4)
  qed
  moreover have "(\<forall>k v. (k, v) \<in> set ps \<longrightarrow> (\<exists>i<4. k = slot_name i \<and> [None, None, None, None] ! i = (None :: string option)))
      \<longleftrightarrow> (\<forall>k v. (k, v) \<in> set ps \<longrightarrow> (\<exists>i<4. k = slot_name i))"
    using none by metis
  ultimately show ?thesis by (subst fill_values_iff) auto
qed

lemma new_options_Ok:
  "new_options a b c d = Ok o1 \<longleftrightarrow> validate_options o1 = Ok ()
     \<and> [a, b, c, d] = [service_name o1, data_root o1, pipe_endpoint o1, mutex_name o1]"
  by (cases o1) (auto simp: new_options_def Let_def and_then_eq_Ok)

lemma slots_options:
  "(case [a, b, c, d] of [Some name, Some root, Some endpoint, Some mutex] \<Rightarrow> new_options name root endpoint mutex
      | _ \<Rightarrow> Err e) = Ok o1 \<longleftrightarrow> validate_options o1 = Ok ()
     \<and> [a, b, c, d] = [Some (service_name o1), Some (data_root o1), Some (pipe_endpoint o1), Some (mutex_name o1)]"
  by (cases a; cases b; cases c; cases d) (simp_all add: new_options_Ok)

lemma option_pairs_map_of:
  "map (\<lambda>i. map_of (option_pairs o1) (slot_name i)) [0, 1, 2, 3]
     = [Some (service_name o1), Some (data_root o1), Some (pipe_endpoint o1), Some (mutex_name o1)]"
  by (simp add: option_pairs_slots) (simp add: option_pairs_def)

text \<open>
  Launch arguments decode exactly.  A nonempty command line of option pairs decodes to an
  identity if and only if the identity is valid and the pairs are its four options in some order:
  no option may be missing, repeated or unknown.
\<close>

theorem from_arguments_exact:
  "from_arguments (flatten_pairs (p # ps)) = Ok o1 \<longleftrightarrow>
     mset (p # ps) = mset (option_pairs o1) \<and> validate_options o1 = Ok ()"
proof (cases "length (p # ps) = 4")
  case False
  then have "mset (p # ps) \<noteq> mset (option_pairs o1)" by (metis length_option_pairs mset_eq_length)
  moreover have "flatten_pairs (p # ps) \<noteq> []" by (cases p) simp
  ultimately show ?thesis
    using False by (simp add: from_arguments_def flatten_pairs_length)
next
  case True
  let ?qs = "p # ps" and ?none = "[None, None, None, None] :: string option list"
  let ?all = "map (\<lambda>i. map_of ?qs (slot_name i)) [0, 1, 2, 3]"
  have decode: "from_arguments (flatten_pairs ?qs) = Ok o1 \<longleftrightarrow>
      distinct (map fst ?qs) \<and> (\<forall>k v. (k, v) \<in> set ?qs \<longrightarrow> (\<exists>i<4. k = slot_name i)) \<and> validate_options o1 = Ok ()
      \<and> ?all = [Some (service_name o1), Some (data_root o1), Some (pipe_endpoint o1), Some (mutex_name o1)]"
  proof -
    have one: "(\<exists>x. (P \<and> Q \<and> x = c) \<and> F x) \<longleftrightarrow> P \<and> Q \<and> F c" for P Q F and c :: "string option list" by blast
    have "flatten_pairs ?qs \<noteq> []" by (cases p) simp
    then have "from_arguments (flatten_pairs ?qs) = and_then (fill_values (flatten_pairs ?qs) ?none) (\<lambda>filled.
        case filled of [Some name, Some root, Some endpoint, Some mutex] \<Rightarrow> new_options name root endpoint mutex
        | _ \<Rightarrow> Err ''service runtime arguments are incomplete'')"
      using True by (simp add: from_arguments_def flatten_pairs_length)
    then show ?thesis
      by (simp only: and_then_eq_Ok fill_empty_iff list.map one slots_options)
  qed
  show ?thesis
  proof
    assume "from_arguments (flatten_pairs ?qs) = Ok o1"
    then show "mset ?qs = mset (option_pairs o1) \<and> validate_options o1 = Ok ()"
      unfolding decode mset_option_pairs_iff option_pairs_map_of [symmetric] all_less_4 using True by simp
  next
    assume r: "mset ?qs = mset (option_pairs o1) \<and> validate_options o1 = Ok ()"
    then have "set ?qs = set (option_pairs o1)" by (metis mset_eq_setD)
    then have "\<exists>i<4. k = slot_name i" if "(k, v) \<in> set ?qs" for k v
      using that slot_names by (auto simp: option_pairs_def intro: exI [of _ 0] exI [of _ 1] exI [of _ 2] exI [of _ 3])
    with r show "from_arguments (flatten_pairs ?qs) = Ok o1"
      unfolding decode mset_option_pairs_iff option_pairs_map_of [symmetric] all_less_4 by simp
  qed
qed

end
