(* ===== verification/Json.thy ===== *)
theory Json
  imports Prelude
begin

text \<open>
  The \<open>serde_json::Value\<close> data type, as the program inspects it.  An object is the list of its
  members in key order (the map is a \<open>BTreeMap\<close>).  A floating-point number is kept as its printed
  text, since the program only prints it.  Parsing text into a value and decoding a value into a
  derived structure are third-party code: parameters of the functions that use them.
\<close>

datatype json_number = PosInt nat | NegInt int | FloatNum string

datatype json =
    JNull
  | JBool bool
  | JNum json_number
  | JStr string
  | JArr "json list"
  | JObj "(string \<times> json) list"

text \<open>\<open>value.get(key)\<close>: defined on objects only.\<close>

definition jget :: "string \<Rightarrow> json \<Rightarrow> json option" where
  "jget k v = (case v of JObj m \<Rightarrow> map_of m k | _ \<Rightarrow> None)"

definition as_array :: "json \<Rightarrow> json list option" where
  "as_array v = (case v of JArr xs \<Rightarrow> Some xs | _ \<Rightarrow> None)"

definition as_str :: "json \<Rightarrow> string option" where
  "as_str v = (case v of JStr s \<Rightarrow> Some s | _ \<Rightarrow> None)"

definition as_u64 :: "json \<Rightarrow> nat option" where
  "as_u64 v = (case v of JNum (PosInt n) \<Rightarrow> Some n | _ \<Rightarrow> None)"

definition is_null :: "json \<Rightarrow> bool" where
  "is_null v \<longleftrightarrow> v = JNull"

text \<open>\<open>to_string\<close> of a value that is neither a string, an array nor an object.\<close>

definition scalar_text :: "json \<Rightarrow> string" where
  "scalar_text v =
     (case v of
        JBool b \<Rightarrow> (if b then ''true'' else ''false'')
      | JNum (PosInt n) \<Rightarrow> dec_nat n
      | JNum (NegInt i) \<Rightarrow> CHR ''-'' # dec_nat (nat (- i))
      | JNum (FloatNum t) \<Rightarrow> t
      | _ \<Rightarrow> ''null'')"

lemma jget_JObj [simp]: "jget k (JObj m) = map_of m k"
  by (simp add: jget_def)

lemma jget_other [simp]:
  "jget k JNull = None" "jget k (JBool b) = None" "jget k (JNum n) = None"
  "jget k (JStr s) = None" "jget k (JArr xs) = None"
  by (simp_all add: jget_def)

lemma as_str_simps [simp]: "as_str (JStr s) = Some s" "as_str JNull = None"
  by (simp_all add: as_str_def)

lemma as_u64_PosInt [simp]: "as_u64 (JNum (PosInt n)) = Some n"
  by (simp add: as_u64_def)

lemma as_str_eq_Some: "as_str v = Some s \<longleftrightarrow> v = JStr s"
  by (cases v) (auto simp: as_str_def)

lemma as_u64_eq_Some: "as_u64 v = Some n \<longleftrightarrow> v = JNum (PosInt n)"
  by (auto simp: as_u64_def split: json.splits json_number.splits)

end
