(* ===== verification/SnipeIt.thy ===== *)
theory SnipeIt
  imports Json
begin

text \<open>
  \<open>spotter-core/src/snipeit/mod.rs\<close>: the remote inventory's wire models, the request builders
  and the classification of responses.  The functions that read a response body take the JSON
  parser (\<open>serde_json::from_str\<close>) and, where an asset is decoded, the derived decoder
  (\<open>serde_json::from_value::<Asset>\<close>) as arguments.
\<close>

section \<open>Wire models\<close>

record named_reference =
  nr_id :: u64
  nr_name :: string

record manufacturer =
  mf_id :: u64
  mf_name :: string

record category =
  ct_id :: u64
  ct_name :: string

record asset_model =
  am_id :: u64
  am_name :: string
  am_manufacturer :: "manufacturer option"
  am_category :: "category option"

record asset =
  as_id :: u64
  as_name :: string
  as_serial :: "string option"
  as_asset_tag :: "string option"
  as_status_label :: "named_reference option"
  as_assigned_to :: "named_reference option"
  as_model :: "asset_model option"

record asset_changes =
  ch_name :: "string option"
  ch_serial :: "string option"
  ch_asset_tag :: "string option"
  ch_model_id :: "u64 option"

definition default_changes :: asset_changes where
  "default_changes = \<lparr>ch_name = None, ch_serial = None, ch_asset_tag = None, ch_model_id = None\<rparr>"

record asset_patch_request =
  pr_name :: "string option"
  pr_serial :: "string option"
  pr_asset_tag :: "string option"
  pr_model_id :: "u64 option"

record checkout_request =
  checkout_to_type :: string
  assigned_asset :: u64
  co_status_id :: u64

record checkin_request =
  ci_status_id :: u64

record monitor_checkout =
  co_operation_id :: string
  co_source_asset_id :: u64
  co_request :: checkout_request

record monitor_checkin =
  ci_operation_id :: string
  ci_source_asset_id :: u64
  ci_request :: checkin_request

datatype network_error_kind = Timeout | Connect | Other

datatype snipeit_error =
    NotFound
  | AuthFailure
  | PermissionDenied
  | RateLimited "u64 option"
  | Validation string
  | ServerError u16 string
  | AmbiguousResponse
  | InvalidResponse string
  | NetworkError network_error_kind

section \<open>Request builders\<close>

definition build_asset_patch :: "asset_changes \<Rightarrow> asset_patch_request" where
  "build_asset_patch changes =
     \<lparr>pr_name = ch_name changes, pr_serial = ch_serial changes,
      pr_asset_tag = ch_asset_tag changes, pr_model_id = ch_model_id changes\<rparr>"

definition validate_operation :: "string \<Rightarrow> u64 \<Rightarrow> u64 \<Rightarrow> (unit, snipeit_error) result" where
  "validate_operation operation_id source_asset_id status_id =
     (if trim operation_id = [] then Err (Validation ''operation ID must not be blank'')
      else if source_asset_id = 0 then Err (Validation ''source asset ID must be nonzero'')
      else if status_id = 0 then Err (Validation ''status ID must be nonzero'')
      else Ok ())"

definition build_monitor_checkout ::
  "string \<Rightarrow> u64 \<Rightarrow> u64 \<Rightarrow> u64 \<Rightarrow> (monitor_checkout, snipeit_error) result" where
  "build_monitor_checkout operation_id source_asset_id target_asset_id checkout_status_id =
     and_then (validate_operation operation_id source_asset_id checkout_status_id) (\<lambda>_.
       if target_asset_id = 0 then Err (Validation ''target asset ID must be nonzero'')
       else Ok \<lparr>co_operation_id = operation_id, co_source_asset_id = source_asset_id,
                co_request = \<lparr>checkout_to_type = ''asset'', assigned_asset = target_asset_id,
                              co_status_id = checkout_status_id\<rparr>\<rparr>)"

definition build_monitor_checkin ::
  "string \<Rightarrow> u64 \<Rightarrow> u64 \<Rightarrow> (monitor_checkin, snipeit_error) result" where
  "build_monitor_checkin operation_id source_asset_id checkin_status_id =
     and_then (validate_operation operation_id source_asset_id checkin_status_id) (\<lambda>_.
       Ok \<lparr>ci_operation_id = operation_id, ci_source_asset_id = source_asset_id,
           ci_request = \<lparr>ci_status_id = checkin_status_id\<rparr>\<rparr>)"

section \<open>Response classification\<close>

definition parse_success ::
  "(string \<Rightarrow> json option) \<Rightarrow> u16 \<Rightarrow> string \<Rightarrow> u64 option \<Rightarrow> (json, snipeit_error) result" where
  "parse_success from_str status body retry_after =
     (case from_str body of
        None \<Rightarrow> Err (InvalidResponse ''response body is not valid JSON'')
      | Some value \<Rightarrow>
          let s = unat status in
          if 200 \<le> s \<and> s \<le> 299 then Ok value
          else if s = 401 then Err AuthFailure
          else if s = 403 then Err PermissionDenied
          else if s = 404 then Err NotFound
          else if s = 429 then Err (RateLimited retry_after)
          else if s = 400 \<or> s = 409 \<or> s = 422 then Err (Validation ''upstream rejected the request'')
          else if 500 \<le> s \<and> s \<le> 599 then
            Err (ServerError status ''upstream server rejected the request'')
          else Err (InvalidResponse (''unexpected HTTP status '' @ dec status)))"

fun flatten_message :: "json \<Rightarrow> string" where
  "flatten_message (JStr text) = text"
| "flatten_message (JArr vs) =
     join_with ''; '' (filter (\<lambda>t. t \<noteq> []) (map flatten_message vs))"
| "flatten_message (JObj m) =
     join_with ''; '' (filter (\<lambda>t. t \<noteq> []) (map (\<lambda>p. flatten_message (snd p)) m))"
| "flatten_message JNull = []"
| "flatten_message v = scalar_text v"

definition message_text :: "json \<Rightarrow> string" where
  "message_text value =
     (let message = (case jget ''message'' value of Some m \<Rightarrow> Some m | None \<Rightarrow> jget ''messages'' value)
      in case map_option flatten_message message of
           Some text \<Rightarrow> if text \<noteq> [] then text else ''unspecified error''
         | None \<Rightarrow> ''unspecified error'')"

definition has_not_found_message :: "json \<Rightarrow> bool" where
  "has_not_found_message value =
     (let message = ascii_lower (message_text value)
      in contains_str ''not found'' message \<or> contains_str ''no asset'' message)"

definition decode_asset :: "(json \<Rightarrow> asset option) \<Rightarrow> json \<Rightarrow> (asset, snipeit_error) result" where
  "decode_asset from_value value =
     (case from_value value of
        None \<Rightarrow> Err (InvalidResponse ''asset response schema is invalid'')
      | Some asset \<Rightarrow>
          if as_id asset = 0 then Err (InvalidResponse ''asset response has zero ID'') else Ok asset)"

definition parse_asset_by_serial ::
  "(string \<Rightarrow> json option) \<Rightarrow> (json \<Rightarrow> asset option) \<Rightarrow> u16 \<Rightarrow> string \<Rightarrow> u64 option
     \<Rightarrow> (asset, snipeit_error) result" where
  "parse_asset_by_serial from_str from_value status body retry_after =
     and_then (parse_success from_str status body retry_after) (\<lambda>value.
       if has_not_found_message value then Err NotFound
       else
         (case Option.bind (jget ''rows'' value) as_array of
            Some rows \<Rightarrow>
              (case rows of
                 [] \<Rightarrow> Err NotFound
               | [row] \<Rightarrow> decode_asset from_value row
               | _ # _ # _ \<Rightarrow> Err AmbiguousResponse)
          | None \<Rightarrow> decode_asset from_value value))"

definition parse_asset_patch ::
  "(string \<Rightarrow> json option) \<Rightarrow> (json \<Rightarrow> asset option) \<Rightarrow> u16 \<Rightarrow> string \<Rightarrow> u64 option
     \<Rightarrow> (asset, snipeit_error) result" where
  "parse_asset_patch from_str from_value status body retry_after =
     and_then (parse_success from_str status body retry_after) (\<lambda>value.
       let payload = (case jget ''payload'' value of Some p \<Rightarrow> p | None \<Rightarrow> value) in
       if is_null payload then Err (InvalidResponse ''PATCH response payload is null'')
       else decode_asset from_value payload)"

definition parse_mutation_response ::
  "(string \<Rightarrow> json option) \<Rightarrow> u16 \<Rightarrow> string \<Rightarrow> u64 option \<Rightarrow> (unit, snipeit_error) result" where
  "parse_mutation_response from_str status body retry_after =
     and_then (parse_success from_str status body retry_after) (\<lambda>value.
       if (case jget ''payload'' value of Some p \<Rightarrow> is_null p | None \<Rightarrow> False)
       then Err (InvalidResponse ''mutation response payload is null'')
       else if (case Option.bind (jget ''status'' value) as_str of
                  Some t \<Rightarrow> ascii_lower t = ''error'' | None \<Rightarrow> False)
       then Err (Validation ''upstream rejected the request'')
       else if jget ''rows'' value = None \<and> jget ''status'' value = None
       then Err (InvalidResponse ''mutation response has neither rows nor status'')
       else Ok ())"

definition parse_checkout_response ::
  "(string \<Rightarrow> json option) \<Rightarrow> u16 \<Rightarrow> string \<Rightarrow> u64 option \<Rightarrow> (unit, snipeit_error) result" where
  "parse_checkout_response = parse_mutation_response"

definition parse_checkin_response ::
  "(string \<Rightarrow> json option) \<Rightarrow> u16 \<Rightarrow> string \<Rightarrow> u64 option \<Rightarrow> (unit, snipeit_error) result" where
  "parse_checkin_response = parse_mutation_response"

section \<open>Facts\<close>

lemma validate_operation_Ok:
  "validate_operation operation_id source status = Ok () \<longleftrightarrow>
     trim operation_id \<noteq> [] \<and> source \<noteq> 0 \<and> status \<noteq> 0"
  by (simp add: validate_operation_def)

lemma build_monitor_checkout_Ok:
  "build_monitor_checkout oid source target status = Ok c \<longleftrightarrow>
     trim oid \<noteq> [] \<and> source \<noteq> 0 \<and> target \<noteq> 0 \<and> status \<noteq> 0
     \<and> c = \<lparr>co_operation_id = oid, co_source_asset_id = source,
            co_request = \<lparr>checkout_to_type = ''asset'', assigned_asset = target, co_status_id = status\<rparr>\<rparr>"
  by (auto simp: build_monitor_checkout_def and_then_eq_Ok validate_operation_Ok)

lemma build_monitor_checkin_Ok:
  "build_monitor_checkin oid source status = Ok c \<longleftrightarrow>
     trim oid \<noteq> [] \<and> source \<noteq> 0 \<and> status \<noteq> 0
     \<and> c = \<lparr>ci_operation_id = oid, ci_source_asset_id = source, ci_request = \<lparr>ci_status_id = status\<rparr>\<rparr>"
  by (auto simp: build_monitor_checkin_def and_then_eq_Ok validate_operation_Ok)

lemma parse_success_Ok:
  "parse_success from_str status body retry = Ok v \<longleftrightarrow>
     from_str body = Some v \<and> 200 \<le> unat status \<and> unat status \<le> 299"
  by (auto simp: parse_success_def Let_def split: option.splits)

lemma decode_asset_Ok:
  "decode_asset from_value v = Ok a \<longleftrightarrow> from_value v = Some a \<and> as_id a \<noteq> 0"
  by (auto simp: decode_asset_def split: option.splits)

section \<open>What a response can and cannot do\<close>

text \<open>
  A hardware lookup by serial succeeds exactly when the body is JSON, the status is 2xx, the
  response text does not say ``not found'', and the response is unambiguous: either a \<open>rows\<close>
  array of exactly one element or no \<open>rows\<close> array at all, whose decoded asset has a nonzero ID.
  In particular two matching rows never yield an asset.
\<close>

theorem parse_asset_by_serial_Ok_iff:
  "parse_asset_by_serial from_str from_value status body retry = Ok a \<longleftrightarrow>
     (\<exists>v w. from_str body = Some v \<and> unat status \<in> {200..299} \<and> \<not> has_not_found_message v
        \<and> (case Option.bind (jget ''rows'' v) as_array of Some rows \<Rightarrow> rows = [w] | None \<Rightarrow> w = v)
        \<and> from_value w = Some a \<and> as_id a \<noteq> 0)"
proof -
  have rows: "(case rs of [] \<Rightarrow> Err NotFound | [r] \<Rightarrow> decode_asset from_value r | _ # _ # _ \<Rightarrow> Err AmbiguousResponse)
      = Ok a \<longleftrightarrow> (\<exists>w. rs = [w] \<and> from_value w = Some a \<and> as_id a \<noteq> 0)" for rs
    by (cases rs; cases "tl rs") (auto simp: decode_asset_Ok)
  have body: "(if nf then Err NotFound else case r of Some rs \<Rightarrow> (case rs of [] \<Rightarrow> Err NotFound
      | [r] \<Rightarrow> decode_asset from_value r | _ # _ # _ \<Rightarrow> Err AmbiguousResponse) | None \<Rightarrow> decode_asset from_value v) = Ok a
    \<longleftrightarrow> (\<exists>w. \<not> nf \<and> (case r of Some rs \<Rightarrow> rs = [w] | None \<Rightarrow> w = v) \<and> from_value w = Some a \<and> as_id a \<noteq> 0)" for nf r v
    by (cases r) (simp_all only: option.case rows decode_asset_Ok split: if_split, blast+)
  show ?thesis
    unfolding parse_asset_by_serial_def and_then_eq_Ok parse_success_Ok body by auto
qed

definition fixed_errors :: "u16 \<Rightarrow> u64 option \<Rightarrow> snipeit_error set" where
  "fixed_errors status retry =
     {NotFound, AuthFailure, PermissionDenied, AmbiguousResponse, RateLimited retry,
      Validation ''upstream rejected the request'',
      ServerError status ''upstream server rejected the request'',
      InvalidResponse ''response body is not valid JSON'',
      InvalidResponse (''unexpected HTTP status '' @ dec status),
      InvalidResponse ''asset response schema is invalid'',
      InvalidResponse ''asset response has zero ID'',
      InvalidResponse ''PATCH response payload is null'',
      InvalidResponse ''mutation response payload is null'',
      InvalidResponse ''mutation response has neither rows nor status''}"

lemma parse_success_errors: "parse_success from_str status body retry = Err e \<Longrightarrow> e \<in> fixed_errors status retry"
  by (auto simp: parse_success_def Let_def fixed_errors_def split: option.splits if_splits)

lemma decode_asset_errors: "decode_asset from_value v = Err e \<Longrightarrow> e \<in> fixed_errors status retry"
  by (auto simp: decode_asset_def fixed_errors_def split: option.splits if_splits)

text \<open>
  No text of a response body ever reaches an error.  Whatever the server answers, the error
  of each of the three parsers is one of fourteen fixed values that mention the body nowhere
  (only the status code and the retry delay of the header appear in them).
\<close>

theorem upstream_text_never_escapes:
  assumes "parse_asset_by_serial from_str from_value status body retry = Err e
    \<or> parse_asset_patch from_str from_value status body retry = Err e
    \<or> parse_mutation_response from_str status body retry = Err e"
  shows "e \<in> fixed_errors status retry"
  using assms
proof (elim disjE)
  assume "parse_asset_by_serial from_str from_value status body retry = Err e"
  then show ?thesis
    by (auto simp: parse_asset_by_serial_def and_then_eq_Err
        split: if_splits option.splits list.splits dest: parse_success_errors decode_asset_errors)
       (auto simp: fixed_errors_def)
next
  assume "parse_asset_patch from_str from_value status body retry = Err e"
  then show ?thesis
    by (auto simp: parse_asset_patch_def and_then_eq_Err Let_def
        split: if_splits dest: parse_success_errors decode_asset_errors)
       (auto simp: fixed_errors_def)
next
  assume "parse_mutation_response from_str status body retry = Err e"
  then show ?thesis
    by (auto simp: parse_mutation_response_def and_then_eq_Err
        split: if_splits dest: parse_success_errors)
       (auto simp: fixed_errors_def)
qed

definition demo_rejection :: "string \<Rightarrow> json option" where
  "demo_rejection body = (if body = ''no'' then Some (JObj [(''message'', JStr ''secret'')]) else None)"

theorem upstream_text_never_escapes_witness:
  "Validation ''upstream rejected the request'' \<in> fixed_errors 422 (Some 7)"
  by (rule upstream_text_never_escapes [of demo_rejection "\<lambda>_. None" 422 "''no''" "Some 7"])
     (simp add: parse_asset_by_serial_def parse_success_def demo_rejection_def)

text \<open>
  A checkout or check-in response counts as success exactly when the body is JSON, the status
  is 2xx, the payload is not an explicit null, the \<open>status\<close> member is not the text ``error'' in
  any case, and one of \<open>rows\<close> and \<open>status\<close> is present: a 2xx answer of any other shape is an
  error, never taken as confirmation of a mutation.
\<close>

theorem mutation_response_Ok_iff:
  "parse_checkout_response from_str status body retry = Ok () \<longleftrightarrow>
     (\<exists>v. from_str body = Some v \<and> unat status \<in> {200..299}
        \<and> map_option is_null (jget ''payload'' v) \<noteq> Some True
        \<and> map_option ascii_lower (Option.bind (jget ''status'' v) as_str) \<noteq> Some ''error''
        \<and> {jget ''rows'' v, jget ''status'' v} \<noteq> {None})"
  by (auto simp: parse_checkout_response_def parse_mutation_response_def and_then_eq_Ok parse_success_Ok
      split: option.splits if_splits)

end
