(* ===== verification/Effects.thy ===== *)
theory Effects
  imports SnipeIt
begin

text \<open>
  Effects on an explicit world, shared by the synchronization engine, the HTTP client and the command
  owner: a fallible state transformer with Rust's question-mark operator as its sequencing.
\<close>

text \<open>
  The errors that travel through the engine to the owner (an \<open>anyhow::Error\<close>): a text, a typed
  error of the Snipe-IT client, an error wrapped with a context text, and the owner's
  \<open>SavedCandidateError\<close>.
\<close>

datatype failure = Message string | Remote snipeit_error | Context string failure | SavedCandidate failure

text \<open>An effect on a world returns a value or an error, and the new world.\<close>

type_synonym ('w, 'e, 'a) effect = "'w \<Rightarrow> ('a, 'e) result \<times> 'w"
type_synonym ('w, 'a) io = "('w, failure, 'a) effect"

definition ret :: "'a \<Rightarrow> ('w, 'e, 'a) effect" where
  "ret x = (\<lambda>w. (Ok x, w))"

definition fail :: "'e \<Rightarrow> ('w, 'e, 'a) effect" where
  "fail e = (\<lambda>w. (Err e, w))"

primrec as_failure :: "('a, string) result \<Rightarrow> ('a, failure) result" where
  "as_failure (Ok x) = Ok x"
| "as_failure (Err e) = Err (Message e)"

text \<open>Sequencing with the question-mark operator.\<close>

definition bind_io :: "('w, 'e, 'a) effect \<Rightarrow> ('a \<Rightarrow> ('w, 'e, 'b) effect) \<Rightarrow> ('w, 'e, 'b) effect" where
  "bind_io m f = (\<lambda>w. case m w of (Ok x, w') \<Rightarrow> f x w' | (Err e, w') \<Rightarrow> (Err e, w'))"

definition lift_io :: "('a, string) result \<Rightarrow> ('w, 'a) io" where
  "lift_io r = (\<lambda>w. (as_failure r, w))"

text \<open>An error mapped, and \<open>context\<close> on an error that is a text or a failure.\<close>

definition explained :: "('e \<Rightarrow> 'f) \<Rightarrow> ('w, 'e, 'a) effect \<Rightarrow> ('w, 'f, 'a) effect" where
  "explained f m = (\<lambda>w. case m w of (Ok x, w') \<Rightarrow> (Ok x, w') | (Err e, w') \<Rightarrow> (Err (f e), w'))"

definition in_context :: "string \<Rightarrow> ('w, string, 'a) effect \<Rightarrow> ('w, 'a) io" where
  "in_context why = explained (\<lambda>e. Context why (Message e))"

definition wrapped :: "string \<Rightarrow> ('w, 'a) io \<Rightarrow> ('w, 'a) io" where
  "wrapped why = explained (Context why)"

fun each_io :: "('a \<Rightarrow> ('w, 'e, unit) effect) \<Rightarrow> 'a list \<Rightarrow> ('w, 'e, unit) effect" where
  "each_io f [] = ret ()"
| "each_io f (x # xs) = bind_io (f x) (\<lambda>_. each_io f xs)"

lemma ret_apply [simp]: "ret x w = (Ok x, w)"
  by (simp add: ret_def)

lemma fail_apply [simp]: "fail e w = (Err e, w)"
  by (simp add: fail_def)

lemma lift_io_apply [simp]: "lift_io r w = (as_failure r, w)"
  by (simp add: lift_io_def)

lemma as_failure_eq_Ok [simp]: "as_failure r = Ok x \<longleftrightarrow> r = Ok x" "Ok x = as_failure r \<longleftrightarrow> r = Ok x"
  by (cases r; auto)+

lemma bind_io_eq_Ok:
  "bind_io m f w = (Ok y, w') \<longleftrightarrow> (\<exists>x w1. m w = (Ok x, w1) \<and> f x w1 = (Ok y, w'))"
  by (auto simp: bind_io_def split: prod.splits result.splits)

lemma bind_io_eq_Err:
  "bind_io m f w = (Err e, w') \<longleftrightarrow>
     m w = (Err e, w') \<or> (\<exists>x w1. m w = (Ok x, w1) \<and> f x w1 = (Err e, w'))"
  by (auto simp: bind_io_def split: prod.splits result.splits)

lemma bind_io_Ok [simp]: "m w = (Ok x, w1) \<Longrightarrow> bind_io m f w = f x w1"
  by (simp add: bind_io_def)

lemma bind_io_Err [simp]: "m w = (Err e, w1) \<Longrightarrow> bind_io m f w = (Err e, w1)"
  by (simp add: bind_io_def)

lemma bind_io_assoc: "bind_io (bind_io m f) g = bind_io m (\<lambda>x. bind_io (f x) g)"
  by (auto simp: bind_io_def fun_eq_iff split: prod.splits result.splits)

lemma bind_io_ret [simp]: "bind_io (ret x) f = f x" "bind_io m ret = m"
  by (auto simp: bind_io_def fun_eq_iff split: prod.splits result.splits)

lemma bind_io_lift: "bind_io (lift_io r) f = (case r of Ok x \<Rightarrow> f x | Err e \<Rightarrow> fail (Message e))"
  by (cases r) (auto simp: bind_io_def fun_eq_iff)

end
