(* ===== verification/Smbios.thy ===== *)
theory Smbios
  imports Prelude
begin

text \<open>
  \<open>spotter-core/src/smbios.rs\<close>: parsing firmware tables into the local system identity.  A byte
  slice is a list of 8-bit words and an offset is a \<open>nat\<close> (slices are shorter than \<open>usize::MAX\<close>, so
  \<open>offset.checked_add(length)\<close> never overflows).  \<open>String::from_utf8_lossy\<close> is written out.
\<close>

section \<open>Data\<close>

record system_info =
  si_manufacturer :: string
  si_model :: string
  si_serial :: string
  si_asset_tag :: string
  si_chassis_type :: u8

definition is_portable :: "u8 \<Rightarrow> bool" where
  "is_portable c \<longleftrightarrow> c \<in> set [8, 9, 10, 11, 12, 14, 30, 31, 32]"

datatype smbios_parse_error =
    Empty | Truncated nat | InvalidLength nat | UnterminatedStrings nat
  | MissingSystem | MissingChassis

record partial_system =
  ps_manufacturer :: string
  ps_model :: string
  ps_serial :: string
  ps_asset_tag :: string
  ps_chassis_type :: "u8 option"

definition default_partial_system :: partial_system where
  "default_partial_system = \<lparr>ps_manufacturer = [], ps_model = [], ps_serial = [], ps_asset_tag = [],
     ps_chassis_type = None\<rparr>"

section \<open>Lossy decoding of UTF-8\<close>

definition between :: "u8 \<Rightarrow> nat \<Rightarrow> nat \<Rightarrow> bool" where
  "between b lo hi \<longleftrightarrow> lo \<le> unat b \<and> unat b \<le> hi"

definition second_ok :: "u8 \<Rightarrow> u8 \<Rightarrow> bool" where
  "second_ok a b \<longleftrightarrow>
     (if unat a = 0xE0 then between b 0xA0 0xBF
      else if unat a = 0xED then between b 0x80 0x9F
      else if unat a = 0xF0 then between b 0x90 0xBF
      else if unat a = 0xF4 then between b 0x80 0x8F
      else between b 0x80 0xBF)"

text \<open>
  The length of the next chunk at the head of the input and whether it is a valid encoding: an
  invalid chunk is the longest prefix of some valid encoding, or one byte.
\<close>

definition utf8_chunk :: "u8 list \<Rightarrow> nat \<times> bool" where
  "utf8_chunk bs =
     (let a = hd bs;
          width = (if unat a < 0x80 then 1 else if between a 0xC2 0xDF then 2
                   else if between a 0xE0 0xEF then 3 else if between a 0xF0 0xF4 then 4 else 0 :: nat);
          cont = (\<lambda>i. i < length bs \<and> between (bs ! i) 0x80 0xBF);
          second = (1 < length bs \<and> second_ok a (bs ! 1))
      in if width = 0 then (1, False)
         else if width = 1 then (1, True)
         else if \<not> second then (1, False)
         else if width = 2 then (2, True)
         else if \<not> cont 2 then (2, False)
         else if width = 3 then (3, True)
         else if \<not> cont 3 then (3, False)
         else (4, True))"

definition byte_char :: "u8 \<Rightarrow> char" where
  "byte_char b = char_of (unat b)"

definition replacement_character :: string where
  "replacement_character = map char_of [0xEF, 0xBF, 0xBD :: nat]"

lemma utf8_chunk_pos: "(n, valid) = utf8_chunk bs \<Longrightarrow> 0 < n"
  by (auto simp: utf8_chunk_def Let_def split: if_splits)

function from_utf8_lossy :: "u8 list \<Rightarrow> string" where
  "from_utf8_lossy [] = []"
| "from_utf8_lossy (b # bs) =
     (case utf8_chunk (b # bs) of
        (n, valid) \<Rightarrow>
          (if valid then map byte_char (take n (b # bs)) else replacement_character)
          @ from_utf8_lossy (drop n (b # bs)))"
  by pat_completeness auto
termination
  by (relation "measure length") (auto dest: utf8_chunk_pos)

section \<open>String tables\<close>

text \<open>\<open>find_strings_end\<close>: one past the first pair of zero bytes at or after \<open>start\<close>.\<close>

function find_strings_end :: "u8 list \<Rightarrow> nat \<Rightarrow> nat option" where
  "find_strings_end tables cursor =
     (if cursor + 1 < length tables
      then (if tables ! cursor = 0 \<and> tables ! (cursor + 1) = 0 then Some (cursor + 2)
            else find_strings_end tables (cursor + 1))
      else None)"
  by pat_completeness auto
termination
  by (relation "measure (\<lambda>(tables, cursor). length tables - cursor)") auto

declare find_strings_end.simps [simp del]

text \<open>\<open>slice.split(|byte| *byte == 0)\<close>\<close>

fun split_zero :: "u8 list \<Rightarrow> u8 list list" where
  "split_zero [] = [[]]"
| "split_zero (b # bs) = (if b = 0 then [] # split_zero bs
     else (b # hd (split_zero bs)) # tl (split_zero bs))"

definition indexed_string :: "u8 list \<Rightarrow> u8 \<Rightarrow> string" where
  "indexed_string strings index =
     (if index = 0 then []
      else (let parts = split_zero strings; n = unat (index - 1)
            in if n < length parts then trim (from_utf8_lossy (parts ! n)) else []))"

definition fill_if_empty :: "string \<Rightarrow> string \<Rightarrow> string" where
  "fill_if_empty destination fallback = (if destination = [] then fallback else destination)"

section \<open>The table walk\<close>

text \<open>The \<open>match kind\<close> of the loop body, for every kind but the end-of-table marker.\<close>

definition record_structure ::
  "u8 \<Rightarrow> nat \<Rightarrow> u8 list \<Rightarrow> u8 list \<Rightarrow> partial_system \<Rightarrow> partial_system" where
  "record_structure kind len formatted strings system =
     (if kind = 1 \<and> 8 \<le> len then
        system\<lparr>ps_manufacturer := indexed_string strings (formatted ! 4),
               ps_model := indexed_string strings (formatted ! 5),
               ps_serial := indexed_string strings (formatted ! 7)\<rparr>
      else if kind = 2 \<and> 8 \<le> len then
        system\<lparr>ps_manufacturer := fill_if_empty (ps_manufacturer system) (indexed_string strings (formatted ! 4)),
               ps_model := fill_if_empty (ps_model system) (indexed_string strings (formatted ! 5)),
               ps_serial := fill_if_empty (ps_serial system) (indexed_string strings (formatted ! 7))\<rparr>
      else if kind = 3 \<and> 9 \<le> len then
        system\<lparr>ps_chassis_type := Some (formatted ! 5 AND 0x7f),
               ps_asset_tag := indexed_string strings (formatted ! 8)\<rparr>
      else system)"

definition slice :: "nat \<Rightarrow> nat \<Rightarrow> 'a list \<Rightarrow> 'a list" where
  "slice i j xs = take (j - i) (drop i xs)"

lemma find_strings_end_bounds:
  "find_strings_end tables cursor = Some e \<Longrightarrow> cursor + 2 \<le> e \<and> e \<le> length tables"
proof (induction tables cursor rule: find_strings_end.induct)
  case (1 tables cursor)
  then show ?case
    by (subst (asm) (2) find_strings_end.simps) (auto split: if_splits)
qed

function parse_structures ::
  "u8 list \<Rightarrow> partial_system \<Rightarrow> nat \<Rightarrow> (partial_system, smbios_parse_error) result" where
  "parse_structures tables system offset =
     (if \<not> offset < length tables then Ok system
      else if length tables - offset < 4 then Err (Truncated offset)
      else
        let kind = tables ! offset; len = unat (tables ! (offset + 1)); formatted_end = offset + len in
        if len < 4 then Err (InvalidLength offset)
        else if length tables < formatted_end then Err (Truncated offset)
        else
          (case find_strings_end tables formatted_end of
             None \<Rightarrow> Err (UnterminatedStrings offset)
           | Some strings_end \<Rightarrow>
               if kind = 127 then Ok system
               else parse_structures tables
                      (record_structure kind len (slice offset formatted_end tables)
                         (slice formatted_end (strings_end - 2) tables) system)
                      strings_end))"
  by pat_completeness auto
termination
  by (relation "measure (\<lambda>(tables, system, offset). length tables - offset)")
     (auto dest!: find_strings_end_bounds)

declare parse_structures.simps [simp del]

definition table_payload :: "u8 list \<Rightarrow> u8 list" where
  "table_payload raw =
     (if 8 \<le> length raw \<and> 2 \<le> unat (raw ! 1) then
        let declared = unat (raw ! 4) + 256 * unat (raw ! 5) + 65536 * unat (raw ! 6)
                       + 16777216 * unat (raw ! 7)
        in if 0 < declared \<and> declared \<le> length raw - 8 then slice 8 (8 + declared) raw else raw
      else raw)"

text \<open>The checks after the loop.\<close>

definition finish_system :: "partial_system \<Rightarrow> (system_info, smbios_parse_error) result" where
  "finish_system system =
     (if ps_manufacturer system = [] \<or> ps_model system = [] \<or> ps_serial system = [] then Err MissingSystem
      else (case ps_chassis_type system of
              None \<Rightarrow> Err MissingChassis
            | Some chassis_type \<Rightarrow>
                Ok \<lparr>si_manufacturer = ps_manufacturer system, si_model = ps_model system,
                    si_serial = ps_serial system, si_asset_tag = ps_asset_tag system,
                    si_chassis_type = chassis_type\<rparr>))"

definition parse_smbios_tables :: "u8 list \<Rightarrow> (system_info, smbios_parse_error) result" where
  "parse_smbios_tables raw =
     (if raw = [] then Err Empty
      else and_then (parse_structures (table_payload raw) default_partial_system 0) finish_system)"

section \<open>The structure layout, as a specification\<close>

text \<open>
  An SMBIOS structure: its kind, the formatted bytes after the kind and the length byte, and its
  strings.  The encoding is the formatted area followed by the zero-separated strings and two zero
  bytes.
\<close>

datatype smbios_structure =
  Structure (st_kind: u8) (st_body: "u8 list") (st_strings: "u8 list list")

fun strings_body :: "u8 list list \<Rightarrow> u8 list" where
  "strings_body [] = []"
| "strings_body [s] = s"
| "strings_body (s # t # ss) = s @ 0 # strings_body (t # ss)"

definition encode_structure :: "smbios_structure \<Rightarrow> u8 list" where
  "encode_structure st =
     [st_kind st, of_nat (length (st_body st) + 2)] @ st_body st @ strings_body (st_strings st) @ [0, 0]"

definition structure_ok :: "smbios_structure \<Rightarrow> bool" where
  "structure_ok st \<longleftrightarrow> 2 \<le> length (st_body st) \<and> length (st_body st) \<le> 253
     \<and> list_all (\<lambda>s. s \<noteq> [] \<and> 0 \<notin> set s) (st_strings st)"

definition string_ref :: "u8 list list \<Rightarrow> u8 \<Rightarrow> string" where
  "string_ref strs i =
     (if i = 0 \<or> length strs < unat i then [] else trim (from_utf8_lossy (strs ! (unat i - 1))))"

definition structure_effect :: "smbios_structure \<Rightarrow> partial_system \<Rightarrow> partial_system" where
  "structure_effect st system =
     (let body = st_body st; field = (\<lambda>i. string_ref (st_strings st) (body ! i)) in
      if st_kind st = 1 \<and> 6 \<le> length body then
        system\<lparr>ps_manufacturer := field 2, ps_model := field 3, ps_serial := field 5\<rparr>
      else if st_kind st = 2 \<and> 6 \<le> length body then
        system\<lparr>ps_manufacturer := fill_if_empty (ps_manufacturer system) (field 2),
               ps_model := fill_if_empty (ps_model system) (field 3),
               ps_serial := fill_if_empty (ps_serial system) (field 5)\<rparr>
      else if st_kind st = 3 \<and> 7 \<le> length body then
        system\<lparr>ps_chassis_type := Some (body ! 3 AND 0x7f), ps_asset_tag := field 6\<rparr>
      else system)"

fun walk_structures :: "smbios_structure list \<Rightarrow> partial_system \<Rightarrow> partial_system" where
  "walk_structures [] system = system"
| "walk_structures (st # sts) system =
     (if st_kind st = 127 then system else walk_structures sts (structure_effect st system))"

definition le32 :: "nat \<Rightarrow> u8 list" where
  "le32 n = map of_nat [n mod 256, n div 256 mod 256, n div 65536 mod 256, n div 16777216 mod 256]"

section \<open>The string scanners against the layout\<close>

fun zero_pair :: "u8 list \<Rightarrow> nat option" where
  "zero_pair (a # b # bs) = (if a = 0 \<and> b = 0 then Some 2 else map_option Suc (zero_pair (b # bs)))"
| "zero_pair _ = None"

lemma find_strings_end_zero_pair:
  "find_strings_end tables c = map_option ((+) c) (zero_pair (drop c tables))"
proof (induction tables c rule: find_strings_end.induct)
  case (1 tables c)
  show ?case
  proof (cases "c + 1 < length tables")
    case True
    then have "drop c tables = tables ! c # tables ! (c + 1) # drop (c + 2) tables"
      and "drop (c + 1) tables = tables ! (c + 1) # drop (c + 2) tables"
      by (simp_all add: Cons_nth_drop_Suc)
    then show ?thesis
      using True 1 by (simp add: find_strings_end.simps [of tables c] option.map_comp comp_def)
  next
    case False
    then have "length (drop c tables) \<le> 1" by simp
    then have "zero_pair (drop c tables) = None"
      by (cases "drop c tables" rule: zero_pair.cases) auto
    then show ?thesis using False by (simp add: find_strings_end.simps [of tables c])
  qed
qed

lemma zero_pair_skip:
  "0 \<notin> set s \<Longrightarrow> zero_pair (s @ ys) = map_option ((+) (length s)) (zero_pair ys)"
proof (induction s)
  case (Cons a s)
  then show ?case
    by (cases "s @ ys") (auto simp: option.map_comp comp_def)
next
  case Nil
  then show ?case by (cases "zero_pair ys") auto
qed

lemma zero_pair_strings:
  "list_all (\<lambda>s. s \<noteq> [] \<and> 0 \<notin> set s) strs \<Longrightarrow>
     zero_pair (strings_body strs @ 0 # 0 # post) = Some (length (strings_body strs) + 2)"
proof (induction strs rule: strings_body.induct)
  case (3 s t ss)
  have "strings_body (t # ss) @ 0 # 0 # post \<noteq> []
      \<and> hd (strings_body (t # ss) @ 0 # 0 # post) \<noteq> 0"
    using 3(2) by (cases t; cases ss) auto
  then obtain y ys where y: "strings_body (t # ss) @ 0 # 0 # post = y # ys" "y \<noteq> 0"
    by (metis list.collapse)
  then have "zero_pair (0 # y # ys) = Some (length (strings_body (t # ss)) + 3)"
    using 3 by simp
  then show ?case
    using 3(2) y(1) by (simp add: zero_pair_skip)
qed (simp_all add: zero_pair_skip)

lemma split_zero_nonempty: "split_zero bs \<noteq> []"
  by (cases bs) auto

lemma split_zero_plain: "0 \<notin> set s \<Longrightarrow> split_zero s = [s]"
  by (induction s) auto

lemma split_zero_append: "0 \<notin> set s \<Longrightarrow> split_zero (s @ 0 # r) = s # split_zero r"
  by (induction s) auto

lemma split_zero_strings:
  "list_all (\<lambda>s. s \<noteq> [] \<and> 0 \<notin> set s) strs \<Longrightarrow>
     split_zero (strings_body strs) = (if strs = [] then [[]] else strs)"
  by (induction strs rule: strings_body.induct) (auto simp: split_zero_plain split_zero_append)

lemma from_utf8_lossy_Nil_trim: "trim (from_utf8_lossy []) = []"
  by simp

lemma unat_pred: "(i :: u8) \<noteq> 0 \<Longrightarrow> unat (i - 1) = unat i - 1"
  by (simp add: unat_minus_one)

lemma indexed_string_ref:
  assumes "list_all (\<lambda>s. s \<noteq> [] \<and> 0 \<notin> set s) strs"
  shows "indexed_string (strings_body strs) i = string_ref strs i"
proof (cases "i = 0")
  case False
  then have "0 < unat i" by (simp add: unat_gt_0)
  then have lt: "unat i - Suc 0 < n \<longleftrightarrow> unat i \<le> n" for n by arith
  show ?thesis
    using False \<open>0 < unat i\<close> split_zero_strings [OF assms]
    by (auto simp: indexed_string_def string_ref_def unat_pred lt Let_def)
qed (simp add: indexed_string_def string_ref_def)

section \<open>One structure, and the whole walk\<close>

lemma encode_structure_length:
  "length (encode_structure st) = length (st_body st) + length (strings_body (st_strings st)) + 4"
  by (simp add: encode_structure_def)

lemma record_structure_effect:
  assumes "structure_ok st"
  shows "record_structure (st_kind st) (length (st_body st) + 2)
      ([st_kind st, of_nat (length (st_body st) + 2)] @ st_body st) (strings_body (st_strings st)) system
    = structure_effect st system"
  using assms
  by (simp add: record_structure_def structure_effect_def structure_ok_def indexed_string_ref Let_def
      numeral_eq_Suc)

lemma parse_structure_step:
  assumes ok: "structure_ok st" and tables: "tables = pre @ encode_structure st @ post"
  shows "parse_structures tables system (length pre) =
    (if st_kind st = 127 then Ok system
     else parse_structures tables (structure_effect st system) (length (pre @ encode_structure st)))"
proof -
  let ?S = "strings_body (st_strings st)"
  define n where "n = length (st_body st) + 2"
  define w where "w = (of_nat n :: u8)"
  define fe where "fe = length pre + n"
  have n: "unat w = n" "4 \<le> n"
    using ok unat_of_nat_small [of n, where 'w = 8] unfolding w_def [symmetric] structure_ok_def
    by (auto simp: n_def)
  have enc: "encode_structure st = st_kind st # w # st_body st @ ?S @ [0, 0]"
    by (simp add: encode_structure_def n_def w_def)
  have kind: "tables ! length pre = st_kind st" and len: "tables ! Suc (length pre) = w"
    by (simp_all add: tables enc nth_append)
  have drop_fe: "drop fe tables = ?S @ 0 # 0 # post"
    by (simp add: tables enc fe_def n_def)
  have strings_end: "find_strings_end tables fe = Some (fe + (length ?S + 2))"
    unfolding find_strings_end_zero_pair drop_fe
    using ok by (simp add: zero_pair_strings structure_ok_def)
  have formatted: "slice (length pre) fe tables = [st_kind st, w] @ st_body st"
    by (simp add: slice_def tables enc fe_def n_def)
  have strings: "slice fe (fe + (length ?S + 2) - 2) tables = ?S"
    unfolding slice_def drop_fe by simp
  have effect: "record_structure (st_kind st) n ([st_kind st, w] @ st_body st) ?S system
      = structure_effect st system"
    using record_structure_effect [OF ok] unfolding n_def w_def .
  have lengths: "length tables = fe + length ?S + 2 + length post"
    by (simp add: tables enc fe_def n_def)
  have next_offset: "length (pre @ encode_structure st) = fe + (length ?S + 2)"
    by (simp add: enc fe_def n_def)
  have in_range: "length pre < length tables" "\<not> length tables - length pre < 4"
      "\<not> n < 4" "\<not> length tables < fe"
    using lengths n(2) by (auto simp: fe_def)
  show ?thesis
    unfolding next_offset parse_structures.simps [of tables system "length pre"] Let_def
      Suc_eq_plus1 [symmetric] kind len n(1) fe_def [symmetric] strings_end formatted
    using in_range strings effect by simp
qed

lemma parse_structures_walk:
  assumes "list_all structure_ok sts"
  shows "parse_structures (pre @ concat (map encode_structure sts)) system (length pre)
    = Ok (walk_structures sts system)"
  using assms
proof (induction sts arbitrary: pre system)
  case Nil
  then show ?case by (simp add: parse_structures.simps [of pre])
next
  case (Cons st sts)
  let ?tables = "pre @ encode_structure st @ concat (map encode_structure sts)"
  have "parse_structures ?tables system (length pre) =
      (if st_kind st = 127 then Ok system
       else parse_structures ?tables (structure_effect st system) (length (pre @ encode_structure st)))"
    by (rule parse_structure_step) (use Cons.prems in simp_all)
  moreover have "parse_structures ?tables (structure_effect st system) (length (pre @ encode_structure st))
      = Ok (walk_structures sts (structure_effect st system))"
    using Cons.IH [of "pre @ encode_structure st" "structure_effect st system"] Cons.prems by simp
  ultimately show ?case by simp
qed

lemma le32_value:
  assumes "n < 2 ^ 32"
  shows "unat (le32 n ! 0) + 256 * unat (le32 n ! 1) + 65536 * unat (le32 n ! 2)
    + 16777216 * unat (le32 n ! 3) = n"
proof -
  have "unat (of_nat (m mod 256) :: u8) = m mod 256" for m
    by (rule unat_of_nat_small) simp
  moreover have "unat (of_nat (n div 16777216) :: u8) = n div 16777216"
    by (rule unat_of_nat_small) (use assms in simp)
  moreover have "n mod 256 + 256 * (n div 256 mod 256) + 65536 * (n div 65536 mod 256)
      + 16777216 * (n div 16777216) = n"
    using div_mult2_eq [of n 256 256, simplified] div_mult2_eq [of n 65536 256, simplified]
      mod_mult_div_eq [of n 256] mod_mult_div_eq [of "n div 256" 256] mod_mult_div_eq [of "n div 65536" 256]
    by linarith
  ultimately show ?thesis using assms unfolding le32_def by simp
qed

lemma table_payload_header:
  assumes "tables \<noteq> []" and "length tables < 2 ^ 32" and "2 \<le> unat major"
  shows "table_payload ([method, major, minor, revision] @ le32 (length tables) @ tables) = tables"
proof -
  let ?raw = "[method, major, minor, revision] @ le32 (length tables) @ tables"
  have len: "length (le32 (length tables)) = 4" by (simp add: le32_def)
  have "?raw ! 1 = major" "length ?raw = 8 + length tables" "drop 8 ?raw = tables"
    using len by simp_all
  moreover have "?raw ! 4 = le32 (length tables) ! 0" "?raw ! 5 = le32 (length tables) ! 1"
    "?raw ! 6 = le32 (length tables) ! 2" "?raw ! 7 = le32 (length tables) ! 3"
    using len by (simp_all add: nth_append nth_Cons')
  ultimately show ?thesis
    using le32_value [OF assms(2)] assms(1,3)
    unfolding table_payload_def Let_def slice_def by simp
qed

text \<open>
  C24: on any buffer with the Windows header and a sequence of well-formed structures, the byte
  parser computes the fold of the structures' effects: type 1 sets the identity, type 2 fills what
  is still empty, type 3 sets chassis and asset tag, type 127 ends the walk, every other kind is
  skipped, and every string index is resolved in the structure's own string table.
\<close>

theorem parse_smbios_tables_refines:
  assumes "list_all structure_ok sts" and "sts \<noteq> []"
    and "length (concat (map encode_structure sts)) < 2 ^ 32" and "2 \<le> unat major"
  shows "parse_smbios_tables
      ([method, major, minor, revision] @ le32 (length (concat (map encode_structure sts)))
        @ concat (map encode_structure sts))
    = finish_system (walk_structures sts default_partial_system)"
proof -
  let ?t = "concat (map encode_structure sts)"
  have "?t \<noteq> []" using assms(2) by (cases sts) (simp_all add: encode_structure_def)
  then have "table_payload ([method, major, minor, revision] @ le32 (length ?t) @ ?t) = ?t"
    using assms(3,4) by (rule table_payload_header)
  moreover have "parse_structures ?t default_partial_system 0 = Ok (walk_structures sts default_partial_system)"
    using parse_structures_walk [OF assms(1), of "[]"] by simp
  ultimately show ?thesis by (simp add: parse_smbios_tables_def)
qed

definition ascii_bytes :: "string \<Rightarrow> u8 list" where
  "ascii_bytes s = map (\<lambda>c. of_nat (byte c)) s"

definition demo_structures :: "smbios_structure list" where
  "demo_structures =
     [Structure 1 [0, 0, 1, 2, 0, 3] (map ascii_bytes [''HP'', ''EliteDesk'', ''SER'']),
      Structure 3 [0, 0, 0, 131, 0, 0, 1] [ascii_bytes ''TAG''],
      Structure 127 [0, 0] []]"

theorem parse_smbios_tables_refines_witness:
  "parse_smbios_tables
      ([0, 3, 2, 0] @ le32 (length (concat (map encode_structure demo_structures)))
        @ concat (map encode_structure demo_structures))
    = Ok \<lparr>si_manufacturer = ''HP'', si_model = ''EliteDesk'', si_serial = ''SER'',
          si_asset_tag = ''TAG'', si_chassis_type = 3\<rparr>"
proof -
  have a: "list_all structure_ok demo_structures" by code_simp
  have b: "demo_structures \<noteq> []" by (simp add: demo_structures_def)
  have c: "length (concat (map encode_structure demo_structures)) < 2 ^ 32" by code_simp
  have d: "2 \<le> unat (3 :: u8)" by simp
  have e: "finish_system (walk_structures demo_structures default_partial_system)
    = Ok \<lparr>si_manufacturer = ''HP'', si_model = ''EliteDesk'', si_serial = ''SER'',
          si_asset_tag = ''TAG'', si_chassis_type = 3\<rparr>" by code_simp
  show ?thesis using parse_smbios_tables_refines [OF a b c d, of 0 2 0] e by simp
qed

section \<open>Errors and results on arbitrary bytes\<close>

definition chassis_masked :: "partial_system \<Rightarrow> bool" where
  "chassis_masked system \<longleftrightarrow> (\<forall>c. ps_chassis_type system = Some c \<longrightarrow> unat c < 128)"

lemma record_structure_masked:
  "chassis_masked system \<Longrightarrow> chassis_masked (record_structure kind len formatted strings system)"
proof -
  have "unat (c AND 0x7f) < 128" for c :: u8
  proof -
    have "c AND 0x7f \<le> (0x7f :: u8)" by (rule word_and_le1)
    then show ?thesis by (simp add: word_le_nat_alt)
  qed
  then show "chassis_masked system \<Longrightarrow> ?thesis"
    by (auto simp: chassis_masked_def record_structure_def)
qed

lemma parse_structures_masked:
  "parse_structures tables system offset = Ok system' \<Longrightarrow> chassis_masked system \<Longrightarrow> chassis_masked system'"
proof (induction tables system offset rule: parse_structures.induct)
  case (1 tables system offset)
  note eq = parse_structures.simps [of tables system offset]
  show ?case
    using 1(2,3) 1(1) [OF _ _ refl refl refl] record_structure_masked
    unfolding eq Let_def
    by (auto split: if_splits option.splits)
qed

lemma parse_structures_error_offset:
  "parse_structures tables system offset = Err e \<Longrightarrow>
     \<exists>i. offset \<le> i \<and> i < length tables \<and> e \<in> {Truncated i, InvalidLength i, UnterminatedStrings i}"
proof (induction tables system offset rule: parse_structures.induct)
  case (1 tables system offset)
  note eq = parse_structures.simps [of tables system offset]
  show ?case
  proof (cases "offset < length tables")
    case False
    then show ?thesis using 1(2) by (simp add: eq)
  next
    case True
    let ?fe = "offset + unat (tables ! (offset + 1))"
    consider "e \<in> {Truncated offset, InvalidLength offset, UnterminatedStrings offset}"
      | strings_end where "find_strings_end tables ?fe = Some strings_end"
        "\<not> length tables - offset < 4" "\<not> unat (tables ! (offset + 1)) < 4"
        "\<not> length tables < ?fe" "tables ! offset \<noteq> 127"
        "parse_structures tables (record_structure (tables ! offset) (unat (tables ! (offset + 1)))
           (slice offset ?fe tables) (slice ?fe (strings_end - 2) tables) system) strings_end = Err e"
      using 1(2) True unfolding eq Let_def by (auto split: if_splits option.splits)
    then show ?thesis
    proof cases
      case 1
      with True show ?thesis by blast
    next
      case (2 strings_end)
      then obtain i where "strings_end \<le> i" "i < length tables"
        "e \<in> {Truncated i, InvalidLength i, UnterminatedStrings i}"
        using "1.IH" [OF _ _ refl refl refl] True by blast
      moreover have "offset \<le> strings_end"
        using find_strings_end_bounds [OF 2(1)] by simp
      ultimately show ?thesis by (meson le_trans)
    qed
  qed
qed

text \<open>
  On arbitrary bytes the parser returns, and what it returns is either a system with nonempty
  manufacturer, model and serial and a chassis code below 128 (the lock bit is masked off), or an
  error; an error about a structure names an offset inside the table bytes.
\<close>

theorem parse_smbios_tables_results:
  "case parse_smbios_tables raw of
     Ok info \<Rightarrow> si_manufacturer info \<noteq> [] \<and> si_model info \<noteq> [] \<and> si_serial info \<noteq> []
       \<and> unat (si_chassis_type info) < 128
   | Err e \<Rightarrow>
       raw = [] \<and> e = Empty
       \<or> raw \<noteq> [] \<and> (e = MissingSystem \<or> e = MissingChassis
           \<or> (\<exists>i. i < length (table_payload raw)
                \<and> e \<in> {Truncated i, InvalidLength i, UnterminatedStrings i}))"
proof (cases "raw = []")
  case True
  then show ?thesis by (simp add: parse_smbios_tables_def)
next
  case False
  show ?thesis
  proof (cases "parse_structures (table_payload raw) default_partial_system 0")
    case (Ok system)
    moreover have "chassis_masked default_partial_system"
      by (simp add: chassis_masked_def default_partial_system_def)
    ultimately have "chassis_masked system" by (rule parse_structures_masked)
    then show ?thesis
      using False Ok
      by (auto simp: parse_smbios_tables_def finish_system_def chassis_masked_def split: option.splits)
  next
    case (Err e)
    then show ?thesis
      using False parse_structures_error_offset [OF Err] by (auto simp: parse_smbios_tables_def)
  qed
qed

end
