(* ===== verification/SyncPlan.thy ===== *)
theory SyncPlan
  imports Config Monitors Smbios SnipeIt
begin

text \<open>
  \<open>spotter-core/src/sync.rs\<close>: the pure planner.  From the local hardware, the resolved taxonomy,
  the remote asset and the persisted monitor state it computes the asset update, the checkouts, the
  check-ins, the next monitor state and the warnings of one synchronization generation.
\<close>

section \<open>Data\<close>

datatype taxonomy_resolution = Resolved u64 | Missing | Ambiguous

record resolved_taxonomy =
  tx_manufacturer :: taxonomy_resolution
  tx_category :: taxonomy_resolution
  tx_model :: taxonomy_resolution
  normalized_manufacturer :: string
  normalized_model :: string

record resolved_monitor =
  rm_monitor :: monitor_info
  rm_asset_id :: "u64 option"
  rm_taxonomy :: resolved_taxonomy

record resolved_status_ids =
  st_checkout :: u64
  st_checkin :: u64

record sync_plan =
  asset_update :: "asset_patch_request option"
  monitor_checkouts :: "monitor_checkout list"
  monitor_checkins :: "monitor_checkin list"
  next_monitor_state :: monitor_state
  warnings :: "string list"

abbreviation rm_serial :: "resolved_monitor \<Rightarrow> string" where
  "rm_serial r \<equiv> mi_serial (rm_monitor r)"

section \<open>Taxonomy and the asset update\<close>

definition resolved_nonzero :: "taxonomy_resolution \<Rightarrow> bool" where
  "resolved_nonzero t \<longleftrightarrow> (case t of Resolved i \<Rightarrow> i \<noteq> 0 | _ \<Rightarrow> False)"

definition taxonomy_resolved :: "resolved_taxonomy \<Rightarrow> bool" where
  "taxonomy_resolved t \<longleftrightarrow> resolved_nonzero (tx_manufacturer t) \<and> resolved_nonzero (tx_category t)
     \<and> resolved_nonzero (tx_model t)"

text \<open>The plan's update and the warnings this step appends.\<close>

definition plan_system_update ::
  "system_info \<Rightarrow> resolved_taxonomy \<Rightarrow> asset option \<Rightarrow> asset_patch_request option \<times> string list" where
  "plan_system_update system taxonomy asset =
     (case asset of
        None \<Rightarrow> (None, [''computer asset is missing; asset update suppressed''])
      | Some a \<Rightarrow>
          if \<not> taxonomy_resolved taxonomy
          then (None, [''computer taxonomy is unresolved; asset update suppressed''])
          else
            (case tx_model taxonomy of
               Resolved model_id \<Rightarrow>
                 (let changes =
                    \<lparr>ch_name = None,
                     ch_serial = (if as_serial a \<noteq> Some (si_serial system) then Some (si_serial system) else None),
                     ch_asset_tag = (if as_asset_tag a \<noteq> Some (si_asset_tag system)
                                     then Some (si_asset_tag system) else None),
                     ch_model_id = (if map_option am_id (as_model a) \<noteq> Some model_id
                                    then Some model_id else None)\<rparr>
                  in (if changes = default_changes then None else Some (build_asset_patch changes), []))
             | _ \<Rightarrow> (None, [])))"

section \<open>Duplicate serials\<close>

definition MAX_DUPLICATE_SERIAL_WARNINGS :: nat where
  "MAX_DUPLICATE_SERIAL_WARNINGS = 16"

definition serial_counts :: "resolved_monitor list \<Rightarrow> (string \<times> nat) list" where
  "serial_counts monitors =
     foldl (\<lambda>m r. bt_insert (rm_serial r)
              (1 + (case map_of m (rm_serial r) of Some n \<Rightarrow> n | None \<Rightarrow> 0)) m) [] monitors"

definition duplicate_serials_with_warnings :: "resolved_monitor list \<Rightarrow> string list \<times> string list" where
  "duplicate_serials_with_warnings monitors =
     (let dups = map fst (filter (\<lambda>(s, n). n > 1) (serial_counts monitors))
      in (dups,
          map (\<lambda>s. ''monitor serial '' @ s @ '' is duplicated locally; mutations suppressed'')
            (take MAX_DUPLICATE_SERIAL_WARNINGS dups)
          @ (if length dups > MAX_DUPLICATE_SERIAL_WARNINGS
             then [dec_nat (length dups - MAX_DUPLICATE_SERIAL_WARNINGS)
                   @ '' additional duplicated monitor serial(s) suppressed'']
             else [])))"

section \<open>Checkouts and check-ins\<close>

text \<open>\<open>SnipeItError::to_string\<close> for the error kind the builders raise and the other kinds.\<close>

definition network_error_text :: "network_error_kind \<Rightarrow> string" where
  "network_error_text k = (case k of Timeout \<Rightarrow> ''network request timed out''
     | Connect \<Rightarrow> ''network connection failed'' | Other \<Rightarrow> ''network request failed'')"

definition snipeit_error_text :: "snipeit_error \<Rightarrow> string" where
  "snipeit_error_text e = (case e of
     NotFound \<Rightarrow> ''Snipe-IT resource not found''
   | AuthFailure \<Rightarrow> ''Snipe-IT authentication failed''
   | PermissionDenied \<Rightarrow> ''Snipe-IT permission denied''
   | RateLimited _ \<Rightarrow> ''Snipe-IT rate limit exceeded''
   | Validation m \<Rightarrow> ''Snipe-IT validation failed: '' @ m
   | ServerError st m \<Rightarrow> ''Snipe-IT server error '' @ dec st @ '': '' @ m
   | AmbiguousResponse \<Rightarrow> ''Snipe-IT response is ambiguous''
   | InvalidResponse m \<Rightarrow> ''invalid Snipe-IT response: '' @ m
   | NetworkError k \<Rightarrow> ''Snipe-IT network error: '' @ network_error_text k)"

definition checkout_operation_id :: "u64 \<Rightarrow> u64 \<Rightarrow> u64 \<Rightarrow> string" where
  "checkout_operation_id source target status =
     ''checkout:'' @ dec source @ '':'' @ dec target @ '':'' @ dec status"

definition checkin_operation_id :: "u64 \<Rightarrow> u64 \<Rightarrow> string" where
  "checkin_operation_id source status = ''checkin:'' @ dec source @ '':'' @ dec status"

definition nonzero :: "u64 option \<Rightarrow> u64 option" where
  "nonzero i = (case i of Some n \<Rightarrow> if n \<noteq> 0 then Some n else None | None \<Rightarrow> None)"

definition already_checked_out :: "monitor_state \<Rightarrow> string \<Rightarrow> bool" where
  "already_checked_out st serial =
     (case find (\<lambda>e. me_serial e = serial) (entries st) of Some e \<Rightarrow> checked_out e | None \<Rightarrow> False)"

text \<open>
  The loop over the resolved monitors: the warnings it pushes and the checkouts it plans, in
  order.  Only a missing computer asset leaves the loop early.
\<close>

fun plan_checkouts ::
  "string list \<Rightarrow> monitor_state \<Rightarrow> u64 option \<Rightarrow> resolved_status_ids \<Rightarrow> resolved_monitor list
     \<Rightarrow> string list \<times> monitor_checkout list" where
  "plan_checkouts dups st computer_id statuses [] = ([], [])"
| "plan_checkouts dups st computer_id statuses (r # rs) =
     (let continue = plan_checkouts dups st computer_id statuses rs;
          warn = (\<lambda>w. (w # fst continue, snd continue))
      in if rm_serial r \<in> set dups then continue
         else case nonzero (rm_asset_id r) of
           None \<Rightarrow> warn (''monitor '' @ rm_serial r @ '' has no matching Snipe-IT asset'')
         | Some source_id \<Rightarrow>
             if \<not> taxonomy_resolved (rm_taxonomy r)
             then warn (''monitor '' @ rm_serial r @ '' taxonomy is unresolved'')
             else if already_checked_out st (rm_serial r) then continue
             else case computer_id of
               None \<Rightarrow> ([''computer asset is missing; monitor checkout suppressed''], [])
             | Some target_id \<Rightarrow>
                 (case build_monitor_checkout (checkout_operation_id source_id target_id (st_checkout statuses))
                         source_id target_id (st_checkout statuses) of
                    Ok operation \<Rightarrow> (fst continue, operation # snd continue)
                  | Err e \<Rightarrow> warn (snipeit_error_text e)))"

definition i64_max :: int where
  "i64_max = 2 ^ 63 - 1"

definition threshold_hours :: "u64 \<Rightarrow> int" where
  "threshold_hours h = (if int (unat h) \<le> i64_max then int (unat h) else i64_max)"

definition checkin_eligible :: "int \<Rightarrow> int \<Rightarrow> monitor_entry \<Rightarrow> bool" where
  "checkin_eligible now threshold e \<longleftrightarrow>
     checked_out e \<and> snipeit_asset_id e \<noteq> None
     \<and> (case absent_since e of Some t \<Rightarrow> now - t \<ge> threshold | None \<Rightarrow> False)"

fun plan_checkins ::
  "int \<Rightarrow> int \<Rightarrow> resolved_status_ids \<Rightarrow> monitor_entry list \<Rightarrow> string list \<times> monitor_checkin list" where
  "plan_checkins now threshold statuses [] = ([], [])"
| "plan_checkins now threshold statuses (e # es) =
     (let continue = plan_checkins now threshold statuses es
      in if \<not> checkin_eligible now threshold e then continue
         else case snipeit_asset_id e of
           None \<Rightarrow> continue
         | Some source_id \<Rightarrow>
             (case build_monitor_checkin (checkin_operation_id source_id (st_checkin statuses))
                     source_id (st_checkin statuses) of
                Ok operation \<Rightarrow> (fst continue, operation # snd continue)
              | Err err \<Rightarrow> (snipeit_error_text err # fst continue, snd continue)))"

section \<open>The planned monitor state\<close>

definition planned_entry ::
  "resolved_monitor list \<Rightarrow> string list \<Rightarrow> monitor_checkout list \<Rightarrow> monitor_checkin list
     \<Rightarrow> monitor_entry \<Rightarrow> monitor_entry" where
  "planned_entry monitors dups checkouts checkins e0 =
     (let e1 = (if me_serial e0 \<notin> set dups
                then (case find (\<lambda>r. rm_serial r = me_serial e0) monitors of
                        Some r \<Rightarrow> e0\<lparr>snipeit_asset_id := rm_asset_id r\<rparr> | None \<Rightarrow> e0)
                else e0);
          e2 = (if \<exists>c\<in>set checkouts. Some (co_source_asset_id c) = snipeit_asset_id e1
                then e1\<lparr>checked_out := True\<rparr> else e1)
      in if \<exists>c\<in>set checkins. Some (ci_source_asset_id c) = snipeit_asset_id e2
         then e2\<lparr>checked_out := False\<rparr> else e2)"

definition apply_planned_monitor_state ::
  "monitor_state \<Rightarrow> resolved_monitor list \<Rightarrow> string list \<Rightarrow> monitor_checkout list
     \<Rightarrow> monitor_checkin list \<Rightarrow> monitor_state" where
  "apply_planned_monitor_state st monitors dups checkouts checkins =
     st\<lparr>entries := map (planned_entry monitors dups checkouts checkins) (entries st)\<rparr>"

section \<open>The planner\<close>

text \<open>
  \<open>chrono::Duration::hours\<close> is the parameter \<open>hours\<close>: a number of nanoseconds, or \<open>None\<close> where it
  panics.  A plan of \<open>None\<close> is that panic.
\<close>

definition plan_sync ::
  "(int \<Rightarrow> int option) \<Rightarrow> system_info \<Rightarrow> resolved_taxonomy \<Rightarrow> resolved_monitor list \<Rightarrow> asset option \<Rightarrow> monitor_state
     \<Rightarrow> monitor_settings \<Rightarrow> resolved_status_ids \<Rightarrow> int \<Rightarrow> sync_plan option" where
  "plan_sync hours system system_taxonomy monitors snipeit_asset monitor_state policy statuses now =
     (let (update, w1) = plan_system_update system system_taxonomy snipeit_asset;
          (dups, w2) = duplicate_serials_with_warnings monitors;
          diff = diff_monitors (map rm_monitor monitors) monitor_state now;
          computer_id = nonzero (map_option as_id snipeit_asset);
          (w3, checkouts) = plan_checkouts dups monitor_state computer_id statuses monitors;
          finish = (\<lambda>(w4, checkins).
            \<lparr>asset_update = update, monitor_checkouts = checkouts, monitor_checkins = checkins,
             next_monitor_state =
               apply_planned_monitor_state (next_state diff) monitors dups checkouts checkins,
             warnings = w1 @ w2 @ w3 @ w4\<rparr>)
      in if checkin_policy policy = AutoNonPortable \<and> \<not> is_portable (si_chassis_type system)
         then map_option (\<lambda>threshold. finish (plan_checkins now threshold statuses (removed_monitors diff)))
                (hours (threshold_hours (checkin_threshold_hours policy)))
         else Some (finish ([], [])))"

section \<open>Facts\<close>

lemma duplicates_iff:
  "s \<in> set (fst (duplicate_serials_with_warnings monitors)) \<longleftrightarrow>
     length (filter (\<lambda>r. rm_serial r = s) monitors) > 1"
proof -
  let ?m = "serial_counts monitors"
  have wf: "bt_wf ?m"
    unfolding serial_counts_def by (rule bt_count.tally(1) [of rm_serial monitors])
  have "(case map_of ?m s of Some n \<Rightarrow> n | None \<Rightarrow> 0) = length (filter (\<lambda>r. rm_serial r = s) monitors)"
    unfolding serial_counts_def by (rule bt_count.tally(2) [of rm_serial monitors s])
  moreover have "s \<in> set (fst (duplicate_serials_with_warnings monitors)) \<longleftrightarrow> (\<exists>n. map_of ?m s = Some n \<and> n > 1)"
    by (simp add: duplicate_serials_with_warnings_def Let_def image_iff Bex_def case_prod_unfold
        bt_iter_find [OF wf] split_paired_Ex del: split_paired_All)
  ultimately show ?thesis by (auto split: option.splits)
qed

lemma operation_ids_not_blank [simp]:
  "trim (checkout_operation_id source target status) \<noteq> []"
  "trim (checkin_operation_id source status) \<noteq> []"
  by (simp_all add: checkout_operation_id_def checkin_operation_id_def trim_not_blank byte_def)

definition checkout_op :: "u64 \<Rightarrow> u64 \<Rightarrow> u64 \<Rightarrow> monitor_checkout" where
  "checkout_op source target status =
     \<lparr>co_operation_id = checkout_operation_id source target status, co_source_asset_id = source,
      co_request = \<lparr>checkout_to_type = ''asset'', assigned_asset = target, co_status_id = status\<rparr>\<rparr>"

definition checkin_op :: "u64 \<Rightarrow> u64 \<Rightarrow> monitor_checkin" where
  "checkin_op source status =
     \<lparr>ci_operation_id = checkin_operation_id source status, ci_source_asset_id = source,
      ci_request = \<lparr>ci_status_id = status\<rparr>\<rparr>"

lemma built_checkout:
  "\<exists>e. build_monitor_checkout (checkout_operation_id source target status) source target status
     = (if source \<noteq> 0 \<and> target \<noteq> 0 \<and> status \<noteq> 0 then Ok (checkout_op source target status) else Err e)"
  by (simp add: build_monitor_checkout_def validate_operation_def checkout_op_def)

lemma built_checkin:
  "\<exists>e. build_monitor_checkin (checkin_operation_id source status) source status
     = (if source \<noteq> 0 \<and> status \<noteq> 0 then Ok (checkin_op source status) else Err e)"
  by (simp add: build_monitor_checkin_def validate_operation_def checkin_op_def)

lemma nonzero_eq_Some [simp]: "nonzero i = Some n \<longleftrightarrow> i = Some n \<and> n \<noteq> 0"
  by (auto simp: nonzero_def split: option.splits)

lemma nonzero_simps [simp]: "nonzero None = None" "nonzero (Some n) = (if n \<noteq> 0 then Some n else None)"
  by (simp_all add: nonzero_def)

lemma plan_checkouts_no_computer: "snd (plan_checkouts dups st None statuses rs) = []"
  by (induction rs) (auto simp: Let_def split: option.splits)

definition checkout_due :: "string list \<Rightarrow> monitor_state \<Rightarrow> resolved_status_ids \<Rightarrow> resolved_monitor \<Rightarrow> bool" where
  "checkout_due dups st statuses r \<longleftrightarrow> rm_serial r \<notin> set dups \<and> taxonomy_resolved (rm_taxonomy r)
     \<and> nonzero (rm_asset_id r) \<noteq> None \<and> \<not> already_checked_out st (rm_serial r) \<and> st_checkout statuses \<noteq> 0"

lemma plan_checkouts_filter:
  assumes "target \<noteq> 0"
  shows "snd (plan_checkouts dups st (Some target) statuses rs)
    = map (\<lambda>r. checkout_op (the (rm_asset_id r)) target (st_checkout statuses))
        (filter (checkout_due dups st statuses) rs)"
proof (induction rs)
  case (Cons r rs)
  show ?case
  proof (cases "nonzero (rm_asset_id r)")
    case (Some i)
    obtain e where "build_monitor_checkout (checkout_operation_id i target (st_checkout statuses)) i target
          (st_checkout statuses) = (if i \<noteq> 0 \<and> target \<noteq> 0 \<and> st_checkout statuses \<noteq> 0
            then Ok (checkout_op i target (st_checkout statuses)) else Err e)"
      using built_checkout by blast
    with Some Cons assms show ?thesis
      by (cases "st_checkout statuses = 0") (simp_all add: Let_def checkout_due_def [of dups st statuses r])
  next
    case None
    with Cons show ?thesis by (simp add: Let_def checkout_due_def [of dups st statuses r])
  qed
qed simp

definition checkin_due :: "int \<Rightarrow> int \<Rightarrow> resolved_status_ids \<Rightarrow> monitor_entry \<Rightarrow> bool" where
  "checkin_due now threshold statuses e \<longleftrightarrow>
     checkin_eligible now threshold e \<and> nonzero (snipeit_asset_id e) \<noteq> None \<and> st_checkin statuses \<noteq> 0"

lemma plan_checkins_filter:
  "snd (plan_checkins now threshold statuses es)
    = map (\<lambda>e. checkin_op (the (snipeit_asset_id e)) (st_checkin statuses))
        (filter (checkin_due now threshold statuses) es)"
proof (induction es)
  case (Cons e es)
  show ?case
  proof (cases "snipeit_asset_id e")
    case (Some i)
    obtain err where "build_monitor_checkin (checkin_operation_id i (st_checkin statuses)) i (st_checkin statuses)
        = (if i \<noteq> 0 \<and> st_checkin statuses \<noteq> 0 then Ok (checkin_op i (st_checkin statuses)) else Err err)"
      using built_checkin by blast
    with Some Cons show ?thesis by (simp add: Let_def checkin_due_def [of now threshold statuses e] nonzero_def)
  next
    case None
    with Cons show ?thesis
      by (simp add: Let_def checkin_due_def [of now threshold statuses e] checkin_eligible_def [of now threshold e])
  qed
qed simp

lemma plan_sync_parts:
  assumes "plan_sync hours system tax ms asset st policy statuses now = Some p"
  defines "dups \<equiv> fst (duplicate_serials_with_warnings ms)"
  shows "monitor_checkouts p = snd (plan_checkouts dups st (nonzero (map_option as_id asset)) statuses ms)"
    and "monitor_checkins p =
      (if checkin_policy policy = AutoNonPortable \<and> \<not> is_portable (si_chassis_type system)
       then snd (plan_checkins now (the (hours (threshold_hours (checkin_threshold_hours policy)))) statuses
                  (removed_monitors (diff_monitors (map rm_monitor ms) st now)))
       else [])"
    and "next_monitor_state p = apply_planned_monitor_state
           (next_state (diff_monitors (map rm_monitor ms) st now)) ms dups (monitor_checkouts p) (monitor_checkins p)"
    and "asset_update p = fst (plan_system_update system tax asset)"
  using assms by (auto simp: plan_sync_def Let_def case_prod_unfold split: if_splits)

lemma planned_entry_serial [simp]: "me_serial (planned_entry ms dups cos cis e) = me_serial e"
  by (simp add: planned_entry_def Let_def split: option.split)

lemma planned_state_entry_of:
  assumes "plan_sync hours system tax ms asset st policy statuses now = Some p"
  shows "monitor_state_wf (next_monitor_state p)
    \<and> entry_of (next_monitor_state p) s = map_option
        (planned_entry ms (fst (duplicate_serials_with_warnings ms)) (monitor_checkouts p) (monitor_checkins p))
        (if s \<in> mi_serial ` set (map rm_monitor ms) then Some (present_entry (entry_of st s) now s)
         else map_option (absent_entry now) (entry_of st s))"
proof -
  let ?d = "next_state (diff_monitors (map rm_monitor ms) st now)"
  have "monitor_state_wf ?d" using next_state_wf by blast
  note m = entry_of_map [OF this, of "planned_entry ms (fst (duplicate_serials_with_warnings ms))
      (monitor_checkouts p) (monitor_checkins p)" s, OF planned_entry_serial]
  show ?thesis
    unfolding plan_sync_parts(3) [OF assms] apply_planned_monitor_state_def next_state_entry_of [symmetric]
    by (rule m)
qed

lemma checkouts_mem:
  assumes "plan_sync hours system tax ms asset st policy statuses now = Some p"
  shows "op \<in> set (monitor_checkouts p) \<longleftrightarrow>
    (\<exists>a r i. asset = Some a \<and> as_id a \<noteq> 0 \<and> st_checkout statuses \<noteq> 0
       \<and> r \<in> set ms \<and> length (filter (\<lambda>x. rm_serial x = rm_serial r) ms) = 1
       \<and> taxonomy_resolved (rm_taxonomy r) \<and> rm_asset_id r = Some i \<and> i \<noteq> 0
       \<and> \<not> already_checked_out st (rm_serial r)
       \<and> op = checkout_op i (as_id a) (st_checkout statuses))"
proof -
  have once: "rm_serial r \<notin> set (fst (duplicate_serials_with_warnings ms))
      \<longleftrightarrow> length (filter (\<lambda>x. rm_serial x = rm_serial r) ms) = 1" if "r \<in> set ms" for r
  proof -
    have "length (filter (\<lambda>x. rm_serial x = rm_serial r) ms) \<noteq> 0"
      using that by (auto simp: filter_empty_conv)
    then show ?thesis unfolding duplicates_iff by linarith
  qed
  show ?thesis
  proof (cases "nonzero (map_option as_id asset)")
    case None
    then show ?thesis
      using plan_sync_parts(1) [OF assms]
      by (cases asset) (auto simp: plan_checkouts_no_computer split: if_splits)
  next
    case (Some target)
    then obtain a where a: "asset = Some a" "target = as_id a" "as_id a \<noteq> 0" by auto
    show ?thesis
      unfolding plan_sync_parts(1) [OF assms] Some plan_checkouts_filter [OF a(3) [folded a(2)]]
      using a once by (fastforce simp: checkout_due_def image_iff)
  qed
qed

lemma checkins_mem:
  assumes "plan_sync hours system tax ms asset st policy statuses now = Some p"
  shows "op \<in> set (monitor_checkins p) \<longleftrightarrow>
    checkin_policy policy = AutoNonPortable \<and> \<not> is_portable (si_chassis_type system)
    \<and> (\<exists>s e. entry_of st s = Some e \<and> s \<notin> rm_serial ` set ms
         \<and> checkin_due now (the (hours (threshold_hours (checkin_threshold_hours policy)))) statuses (absent_entry now e)
         \<and> op = checkin_op (the (snipeit_asset_id e)) (st_checkin statuses))"
proof (cases "checkin_policy policy = AutoNonPortable \<and> \<not> is_portable (si_chassis_type system)")
  case False
  with plan_sync_parts(2) [OF assms] show ?thesis by simp
next
  case True
  let ?due = "checkin_due now (the (hours (threshold_hours (checkin_threshold_hours policy)))) statuses"
  let ?op = "\<lambda>e. checkin_op (the (snipeit_asset_id e)) (st_checkin statuses)"
  let ?removed = "removed_monitors (diff_monitors (map rm_monitor ms) st now)"
  have serials: "serials_of (map rm_monitor ms) = rm_serial ` set ms"
    by (auto simp: serials_of_def)
  have "(\<exists>e'. e' \<in> set ?removed \<and> ?due e' \<and> op = ?op e') \<longleftrightarrow>
      (\<exists>s e. entry_of st s = Some e \<and> s \<notin> rm_serial ` set ms \<and> ?due (absent_entry now e) \<and> op = ?op e)"
    unfolding removed_mem serials by (metis absent_entry_simps(2))
  moreover have "op \<in> set (monitor_checkins p) \<longleftrightarrow> (\<exists>e'. e' \<in> set ?removed \<and> ?due e' \<and> op = ?op e')"
    using True by (auto simp: plan_sync_parts(2) [OF assms] plan_checkins_filter)
  ultimately show ?thesis using True by blast
qed

section \<open>What a plan does\<close>

text \<open>
  C16: a plan checks a monitor out exactly when the computer has a remote asset, the monitor is
  connected, no other connected monitor has its serial, its taxonomy and its asset are resolved
  and it is not recorded as checked out; the operation then names that monitor's asset, the
  computer's asset and the configured status, none of them zero.
\<close>

theorem plan_checkouts_iff:
  assumes "plan_sync hours system tax ms asset st policy statuses now = Some p"
  shows "op \<in> set (monitor_checkouts p) \<longleftrightarrow>
    (\<exists>a r i. asset = Some a \<and> as_id a \<noteq> 0 \<and> st_checkout statuses \<noteq> 0
       \<and> r \<in> set ms \<and> length (filter (\<lambda>x. rm_serial x = rm_serial r) ms) = 1
       \<and> taxonomy_resolved (rm_taxonomy r) \<and> rm_asset_id r = Some i \<and> i \<noteq> 0
       \<and> \<not> already_checked_out st (rm_serial r)
       \<and> op = checkout_op i (as_id a) (st_checkout statuses))"
  using assms by (rule checkouts_mem)

text \<open>
  C17: a plan checks a monitor in exactly when the policy is automatic, the computer is not
  portable, and the monitor is known, not connected, recorded as checked out with a resolved asset,
  and has been absent for at least the threshold; a monitor that has just disappeared never is.
\<close>

theorem plan_checkins_iff:
  assumes "plan_sync hours system tax ms asset st policy statuses now = Some p"
    and "hours (threshold_hours (checkin_threshold_hours policy)) = Some threshold" and "0 < threshold"
  shows "op \<in> set (monitor_checkins p) \<longleftrightarrow>
    checkin_policy policy = AutoNonPortable \<and> \<not> is_portable (si_chassis_type system)
    \<and> st_checkin statuses \<noteq> 0
    \<and> (\<exists>s e i t. entry_of st s = Some e \<and> s \<notin> rm_serial ` set ms \<and> checked_out e
         \<and> snipeit_asset_id e = Some i \<and> i \<noteq> 0 \<and> absent_since e = Some t \<and> now - t \<ge> threshold
         \<and> op = checkin_op i (st_checkin statuses))"
proof -
  have "checkin_due now threshold statuses (absent_entry now e) \<longleftrightarrow>
      st_checkin statuses \<noteq> 0 \<and> checked_out e \<and> (\<exists>i. snipeit_asset_id e = Some i \<and> i \<noteq> 0)
      \<and> (\<exists>t. absent_since e = Some t \<and> now - t \<ge> threshold)" for e
    using assms(3)
    by (auto simp: checkin_due_def checkin_eligible_def absent_entry_def split: option.splits)
  then show ?thesis unfolding checkins_mem [OF assms(1)] assms(2) option.sel by fastforce
qed

text \<open>
  Whatever the inputs, the planned state holds one entry per serial, in serial order, for
  exactly the serials that are connected or were known.
\<close>

theorem plan_next_state_wf:
  assumes "plan_sync hours system tax ms asset st policy statuses now = Some p"
  shows "monitor_state_wf (next_monitor_state p)
    \<and> me_serial ` set (entries (next_monitor_state p)) = rm_serial ` set ms \<union> me_serial ` set (entries st)"
proof -
  let ?d = "next_state (diff_monitors (map rm_monitor ms) st now)"
  have "me_serial ` set (entries (next_monitor_state p)) = me_serial ` set (entries ?d)"
    unfolding plan_sync_parts(3) [OF assms] apply_planned_monitor_state_def
    by (force simp: image_iff)
  then show ?thesis
    using planned_state_entry_of [OF assms] next_state_wf [of "map rm_monitor ms" st now]
    by (simp add: image_image)
qed

text \<open>
  On settings the service accepts, the planner does not panic.  The hypothesis on \<open>hours\<close> is
  the documented range of \<open>chrono::Duration::hours\<close>, of which one year of hours is a small part.
\<close>

theorem plan_sync_total:
  assumes "\<And>h. 0 \<le> h \<Longrightarrow> h \<le> 8760 \<Longrightarrow> hours h = Some (h * 3600000000000)"
    and "validate_settings s = Ok ()"
  shows "plan_sync hours system tax ms asset st (s_monitors s) statuses now \<noteq> None
    \<and> hours (threshold_hours (checkin_threshold_hours (s_monitors s)))
        = Some (int (unat (checkin_threshold_hours (s_monitors s))) * 3600000000000)
    \<and> 1 \<le> unat (checkin_threshold_hours (s_monitors s))"
proof -
  have n: "1 \<le> unat (checkin_threshold_hours (s_monitors s))"
      "unat (checkin_threshold_hours (s_monitors s)) \<le> 8760"
    using validate_settings_bounds [OF assms(2)] by auto
  obtain k where k: "unat (checkin_threshold_hours (s_monitors s)) = k" by simp
  have "hours (threshold_hours (checkin_threshold_hours (s_monitors s))) = Some (int k * 3600000000000)"
    using n assms(1) [of "int k"] unfolding threshold_hours_def k by (simp add: i64_max_def)
  with n show ?thesis unfolding k by (auto simp: plan_sync_def Let_def case_prod_unfold)
qed

section \<open>Convergence\<close>

lemma rm_serial_image: "mi_serial ` set (map rm_monitor ms) = rm_serial ` set ms"
  by force

lemma planned_connected:
  assumes plan: "plan_sync hours system tax ms asset st policy statuses now = Some p"
    and r: "r \<in> set ms" "rm_serial r \<notin> set (fst (duplicate_serials_with_warnings ms))"
  obtains e where "entry_of (next_monitor_state p) (rm_serial r) = Some e"
    "snipeit_asset_id e = rm_asset_id r"
    "checked_out e \<longleftrightarrow> \<not> (\<exists>c\<in>set (monitor_checkins p). Some (ci_source_asset_id c) = rm_asset_id r)
       \<and> ((\<exists>c\<in>set (monitor_checkouts p). Some (co_source_asset_id c) = rm_asset_id r)
          \<or> (\<exists>e0. entry_of st (rm_serial r) = Some e0 \<and> checked_out e0))"
proof -
  let ?dups = "fst (duplicate_serials_with_warnings ms)"
  let ?e0 = "present_entry (entry_of st (rm_serial r)) now (rm_serial r)"
  have "\<exists>r'. find (\<lambda>x. rm_serial x = rm_serial r) ms = Some r' \<and> rm_asset_id r' = rm_asset_id r"
  proof -
    obtain r' where f: "find (\<lambda>x. rm_serial x = rm_serial r) ms = Some r'"
      using r(1) by (cases "find (\<lambda>x. rm_serial x = rm_serial r) ms") (auto simp: find_None_iff)
    then have "r' \<in> set (filter (\<lambda>x. rm_serial x = rm_serial r) ms)"
      "r \<in> set (filter (\<lambda>x. rm_serial x = rm_serial r) ms)"
      using r(1) by (auto simp: find_Some_iff)
    moreover have "length (filter (\<lambda>x. rm_serial x = rm_serial r) ms) \<le> 1"
      using r(2) unfolding duplicates_iff by linarith
    ultimately have "r' = r"
      by (cases "filter (\<lambda>x. rm_serial x = rm_serial r) ms"; cases "tl (filter (\<lambda>x. rm_serial x = rm_serial r) ms)") auto
    with f show ?thesis by blast
  qed
  then obtain r' where f: "find (\<lambda>x. rm_serial x = rm_serial r) ms = Some r'" "rm_asset_id r' = rm_asset_id r"
    by blast
  let ?e = "planned_entry ms ?dups (monitor_checkouts p) (monitor_checkins p) ?e0"
  have "rm_serial r \<in> mi_serial ` set (map rm_monitor ms)" using r(1) by simp
  then have "entry_of (next_monitor_state p) (rm_serial r) = Some ?e"
    using planned_state_entry_of [OF plan, of "rm_serial r"] by simp
  moreover have "snipeit_asset_id ?e = rm_asset_id r"
    using r(2) f by (simp add: planned_entry_def Let_def)
  moreover have "checked_out ?e \<longleftrightarrow> \<not> (\<exists>c\<in>set (monitor_checkins p). Some (ci_source_asset_id c) = rm_asset_id r)
       \<and> ((\<exists>c\<in>set (monitor_checkouts p). Some (co_source_asset_id c) = rm_asset_id r)
          \<or> (\<exists>e0. entry_of st (rm_serial r) = Some e0 \<and> checked_out e0))"
    using r(2) f by (auto simp: planned_entry_def Let_def present_entry_def image_iff split: option.splits)
  ultimately show thesis by (rule that)
qed

lemma planned_absent:
  assumes plan: "plan_sync hours system tax ms asset st policy statuses now = Some p"
    and "s \<notin> rm_serial ` set ms"
  shows "entry_of (next_monitor_state p) s = Some e \<longleftrightarrow>
    (\<exists>e0. entry_of st s = Some e0 \<and> e = (absent_entry now e0)\<lparr>checked_out :=
       \<not> (\<exists>c\<in>set (monitor_checkins p). Some (ci_source_asset_id c) = snipeit_asset_id e0)
       \<and> (checked_out e0 \<or> (\<exists>c\<in>set (monitor_checkouts p). Some (co_source_asset_id c) = snipeit_asset_id e0))\<rparr>)"
proof -
  have "find (\<lambda>r. rm_serial r = s) ms = None" using assms(2) by (auto simp: find_None_iff)
  then have "planned_entry ms dups (monitor_checkouts p) (monitor_checkins p) (absent_entry now e0)
      = (absent_entry now e0)\<lparr>checked_out :=
       \<not> (\<exists>c\<in>set (monitor_checkins p). Some (ci_source_asset_id c) = snipeit_asset_id e0)
       \<and> (checked_out e0 \<or> (\<exists>c\<in>set (monitor_checkouts p). Some (co_source_asset_id c) = snipeit_asset_id e0))\<rparr>"
    if "me_serial e0 = s" for e0 dups
    using that by (auto simp: planned_entry_def Let_def image_iff)
  then show ?thesis
    using planned_state_entry_of [OF plan, of s] assms(2) entry_of_serial [of st s]
    by (auto simp: rm_serial_image simp del: set_map)
qed

text \<open>The asset after a patch that Snipe-IT applies, and after the update of a plan.\<close>

definition patched :: "asset_patch_request \<Rightarrow> asset \<Rightarrow> asset" where
  "patched request a = a
     \<lparr>as_name := (case pr_name request of Some n \<Rightarrow> n | None \<Rightarrow> as_name a),
      as_serial := (if pr_serial request \<noteq> None then pr_serial request else as_serial a),
      as_asset_tag := (if pr_asset_tag request \<noteq> None then pr_asset_tag request else as_asset_tag a),
      as_model := (case pr_model_id request of None \<Rightarrow> as_model a
        | Some i \<Rightarrow> Some \<lparr>am_id = i, am_name = [], am_manufacturer = None, am_category = None\<rparr>)\<rparr>"

definition after_update :: "asset_patch_request option \<Rightarrow> asset \<Rightarrow> asset" where
  "after_update update a = (case update of None \<Rightarrow> a | Some request \<Rightarrow> patched request a)"

lemma after_update_id [simp]: "as_id (after_update u a) = as_id a"
  by (simp add: after_update_def patched_def split: option.split)

lemma patched_settled:
  assumes "plan_system_update system tax (Some a) = (Some request, ws)"
  shows "plan_system_update system tax (Some (patched request a)) = (None, [])"
proof -
  obtain model_id where t: "taxonomy_resolved tax" "tx_model tax = Resolved model_id"
    using assms by (auto simp: plan_system_update_def Let_def split: if_splits taxonomy_resolution.splits)
  then have "request = \<lparr>pr_name = None,
      pr_serial = (if as_serial a \<noteq> Some (si_serial system) then Some (si_serial system) else None),
      pr_asset_tag = (if as_asset_tag a \<noteq> Some (si_asset_tag system) then Some (si_asset_tag system) else None),
      pr_model_id = (if map_option am_id (as_model a) \<noteq> Some model_id then Some model_id else None)\<rparr>"
    using assms by (auto simp: plan_system_update_def Let_def build_asset_patch_def default_changes_def split: if_splits)
  with t show ?thesis
    unfolding plan_system_update_def patched_def
    by (auto simp: Let_def default_changes_def split: option.split)
qed

lemma update_settled:
  "fst (plan_system_update system tax (map_option (after_update (fst (plan_system_update system tax asset))) asset)) = None"
proof (cases asset)
  case None
  then show ?thesis by (simp add: plan_system_update_def)
next
  case (Some a)
  obtain u ws where u: "plan_system_update system tax (Some a) = (u, ws)" by (rule prod.exhaust)
  then show ?thesis using Some patched_settled [of system tax a] by (cases u) (auto simp: after_update_def)
qed

text \<open>
  C18: a plan that is carried out plans nothing again.  If no absent monitor shares its remote asset
  with a connected one (C40 is what happens otherwise), then planning again, at any later time, from the
  planned state and the updated asset, with the same monitors connected and the same settings, plans
  no asset update and no checkout, and no check-in that the first plan holds; at the same instant
  it plans no check-in at all.
\<close>

theorem plan_converges:
  assumes wf: "monitor_state_wf st"
    and p1: "plan_sync hours system tax ms asset st policy statuses now = Some p1"
    and p2: "plan_sync hours system tax ms (map_option (after_update (asset_update p1)) asset)
        (next_monitor_state p1) policy statuses later = Some p2"
    and unshared: "\<And>s e i. entry_of st s = Some e \<Longrightarrow> s \<notin> rm_serial ` set ms \<Longrightarrow>
        snipeit_asset_id e = Some i \<Longrightarrow> Some i \<notin> rm_asset_id ` set ms"
  shows "asset_update p2 = None \<and> monitor_checkouts p2 = []
    \<and> set (monitor_checkins p1) \<inter> set (monitor_checkins p2) = {}
    \<and> (if later = now then monitor_checkins p2 = [] else True)"
proof (intro conjI)
  show "asset_update p2 = None"
    unfolding plan_sync_parts(4) [OF p2] plan_sync_parts(4) [OF p1] by (rule update_settled)
  have wf1: "monitor_state_wf (next_monitor_state p1)" using planned_state_entry_of [OF p1] by blast
  have no_in: "Some (ci_source_asset_id c) \<noteq> rm_asset_id r" if "r \<in> set ms" "c \<in> set (monitor_checkins p1)" for r c
  proof -
    from that(2) obtain s e where e: "entry_of st s = Some e" "s \<notin> rm_serial ` set ms"
        "checkin_due now (the (hours (threshold_hours (checkin_threshold_hours policy)))) statuses (absent_entry now e)"
        "c = checkin_op (the (snipeit_asset_id e)) (st_checkin statuses)"
      unfolding checkins_mem [OF p1] by blast
    then obtain i where "snipeit_asset_id e = Some i" by (auto simp: checkin_due_def)
    with unshared [OF e(1,2) this] e(4) that(1) show ?thesis by (auto simp: checkin_op_def)
  qed
  have no_out: "Some (co_source_asset_id c) \<noteq> snipeit_asset_id e"
    if "entry_of st s = Some e" "s \<notin> rm_serial ` set ms" "c \<in> set (monitor_checkouts p1)" for s e c
  proof -
    from that(3) obtain a :: asset and r i where "r \<in> set ms" "rm_asset_id r = Some i"
        "c = checkout_op i (as_id a) (st_checkout statuses)"
      unfolding checkouts_mem [OF p1] by blast
    then have "Some (co_source_asset_id c) \<in> rm_asset_id ` set ms" by (simp add: checkout_op_def image_iff) metis
    with unshared [OF that(1,2), of "co_source_asset_id c"] show ?thesis by metis
  qed
  show "monitor_checkouts p2 = []"
  proof (rule ccontr)
    assume "monitor_checkouts p2 \<noteq> []"
    then obtain op where "op \<in> set (monitor_checkouts p2)" by (meson list.set_sel(1))
    then obtain a r i where r: "asset = Some a" "as_id a \<noteq> 0" "st_checkout statuses \<noteq> 0" "r \<in> set ms"
        "length (filter (\<lambda>x. rm_serial x = rm_serial r) ms) = 1" "taxonomy_resolved (rm_taxonomy r)"
        "rm_asset_id r = Some i" "i \<noteq> 0" "\<not> already_checked_out (next_monitor_state p1) (rm_serial r)"
      unfolding checkouts_mem [OF p2] by auto
    then have once: "rm_serial r \<notin> set (fst (duplicate_serials_with_warnings ms))" by (simp add: duplicates_iff)
    obtain e where e: "entry_of (next_monitor_state p1) (rm_serial r) = Some e"
        "snipeit_asset_id e = rm_asset_id r"
        "checked_out e \<longleftrightarrow> \<not> (\<exists>c\<in>set (monitor_checkins p1). Some (ci_source_asset_id c) = rm_asset_id r)
         \<and> ((\<exists>c\<in>set (monitor_checkouts p1). Some (co_source_asset_id c) = rm_asset_id r)
          \<or> (\<exists>e0. entry_of st (rm_serial r) = Some e0 \<and> checked_out e0))"
      by (rule planned_connected [OF p1 r(4) once])
    have "\<not> checked_out e" using r(9) e(1) by (simp add: already_checked_out_def find_entry_of [OF wf1])
    then have none: "\<not> (\<exists>c\<in>set (monitor_checkouts p1). Some (co_source_asset_id c) = rm_asset_id r)"
      and "\<not> (\<exists>e0. entry_of st (rm_serial r) = Some e0 \<and> checked_out e0)"
      using e(3) no_in [OF r(4)] by blast+
    then have "\<not> already_checked_out st (rm_serial r)"
      by (auto simp: already_checked_out_def find_entry_of [OF wf] split: option.splits)
    then have "checkout_op i (as_id a) (st_checkout statuses) \<in> set (monitor_checkouts p1)"
      unfolding checkouts_mem [OF p1] using r by blast
    with none r(7) show False by (force simp: checkout_op_def)
  qed
  have again: "checkin_op (the (snipeit_asset_id e)) (st_checkin statuses) \<notin> set (monitor_checkins p1)"
    if "entry_of (next_monitor_state p1) s = Some e" "s \<notin> rm_serial ` set ms" "checked_out e"
      "snipeit_asset_id e \<noteq> None" for s e
    using that(1,3,4) unfolding planned_absent [OF p1 that(2)] by (fastforce simp: checkin_op_def)
  show "set (monitor_checkins p1) \<inter> set (monitor_checkins p2) = {}"
  proof (rule ccontr)
    assume "set (monitor_checkins p1) \<inter> set (monitor_checkins p2) \<noteq> {}"
    then obtain op where op: "op \<in> set (monitor_checkins p1)" "op \<in> set (monitor_checkins p2)" by blast
    then obtain s e where e: "entry_of (next_monitor_state p1) s = Some e" "s \<notin> rm_serial ` set ms"
        "checkin_due later (the (hours (threshold_hours (checkin_threshold_hours policy)))) statuses (absent_entry later e)"
        "op = checkin_op (the (snipeit_asset_id e)) (st_checkin statuses)"
      unfolding checkins_mem [OF p2] by blast
    from e(3) have "checked_out e" "snipeit_asset_id e \<noteq> None" by (auto simp: checkin_due_def checkin_eligible_def)
    from again [OF e(1,2) this] e(4) op(1) show False by simp
  qed
  show "if later = now then monitor_checkins p2 = [] else True"
  proof (cases "later = now \<and> monitor_checkins p2 \<noteq> []")
    case True
    then obtain op where "op \<in> set (monitor_checkins p2)" by (meson list.set_sel(1))
    then obtain s e where due: "checkin_policy policy = AutoNonPortable" "\<not> is_portable (si_chassis_type system)"
        "entry_of (next_monitor_state p1) s = Some e" "s \<notin> rm_serial ` set ms"
        "checkin_due now (the (hours (threshold_hours (checkin_threshold_hours policy)))) statuses (absent_entry now e)"
      using True unfolding checkins_mem [OF p2] by blast
    from due(3) [unfolded planned_absent [OF p1 due(4)]] obtain e0 where e0: "entry_of st s = Some e0"
        "e = (absent_entry now e0)\<lparr>checked_out :=
           \<not> (\<exists>c\<in>set (monitor_checkins p1). Some (ci_source_asset_id c) = snipeit_asset_id e0)
           \<and> (checked_out e0 \<or> (\<exists>c\<in>set (monitor_checkouts p1). Some (co_source_asset_id c) = snipeit_asset_id e0))\<rparr>"
      by blast
    have "checked_out e" using due(5) by (simp add: checkin_due_def checkin_eligible_def)
    with e0 no_out [OF e0(1) due(4)] have out: "checked_out e0"
      and none: "\<not> (\<exists>c\<in>set (monitor_checkins p1). Some (ci_source_asset_id c) = snipeit_asset_id e0)" by auto
    have "absent_entry now e = absent_entry now e0" using e0(2) \<open>checked_out e\<close> out
      by (simp add: absent_entry_def)
    with due e0(1) have "checkin_op (the (snipeit_asset_id e0)) (st_checkin statuses) \<in> set (monitor_checkins p1)"
      unfolding checkins_mem [OF p1] by auto
    moreover have "snipeit_asset_id e0 \<noteq> None" using due(5) e0(2) by (auto simp: checkin_due_def)
    ultimately show ?thesis using none by (force simp: checkin_op_def)
  qed auto
qed

section \<open>Two monitors on one asset\<close>










section \<open>Concrete plans\<close>

definition demo_taxonomy :: resolved_taxonomy where
  "demo_taxonomy = \<lparr>tx_manufacturer = Resolved 1, tx_category = Resolved 2, tx_model = Resolved 3,
     normalized_manufacturer = ''ACME'', normalized_model = ''M1''\<rparr>"

definition demo_system :: system_info where
  "demo_system = \<lparr>si_manufacturer = ''ACME'', si_model = ''M1'', si_serial = ''PC'', si_asset_tag = ''T'',
     si_chassis_type = 3\<rparr>"

definition demo_computer :: asset where
  "demo_computer = \<lparr>as_id = 10, as_name = ''PC'', as_serial = Some ''PC'', as_asset_tag = Some ''T'',
     as_status_label = None, as_assigned_to = None,
     as_model = Some \<lparr>am_id = 3, am_name = ''M1'', am_manufacturer = None, am_category = None\<rparr>\<rparr>"

definition demo_resolved :: "string \<Rightarrow> u64 \<Rightarrow> resolved_monitor" where
  "demo_resolved serial i = \<lparr>rm_monitor = demo_monitor serial, rm_asset_id = Some i, rm_taxonomy = demo_taxonomy\<rparr>"

definition demo_hours :: "int \<Rightarrow> int option" where
  "demo_hours h = (if \<bar>h * 3600\<bar> \<le> i64_max div 1000 then Some (h * 3600000000000) else None)"

definition demo_policy :: monitor_settings where
  "demo_policy = \<lparr>checkin_policy = AutoNonPortable, checkin_threshold_hours = 24\<rparr>"

definition demo_statuses :: resolved_status_ids where
  "demo_statuses = \<lparr>st_checkout = 7, st_checkin = 8\<rparr>"

definition hour :: int where
  "hour = 3600000000000"

text \<open>A gone monitor and a connected one, with their asset IDs.\<close>

definition demo_known :: "u64 \<Rightarrow> u64 \<Rightarrow> bool \<Rightarrow> bool \<Rightarrow> int \<Rightarrow> monitor_state" where
  "demo_known i j out_gone out_new seen =
     \<lparr>entries = [\<lparr>me_serial = ''GONE'', snipeit_asset_id = Some i, last_seen = 0, absent_since = Some 0,
                  checked_out = out_gone\<rparr>,
                \<lparr>me_serial = ''NEW'', snipeit_asset_id = Some j, last_seen = seen, absent_since = None,
                  checked_out = out_new\<rparr>]\<rparr>"

abbreviation demo_plan :: "u64 \<Rightarrow> monitor_state \<Rightarrow> int \<Rightarrow> sync_plan option" where
  "demo_plan j st now \<equiv> plan_sync demo_hours demo_system demo_taxonomy [demo_resolved ''NEW'' j]
     (Some demo_computer) st demo_policy demo_statuses now"

definition demo_result :: "monitor_state \<Rightarrow> monitor_checkout list \<Rightarrow> monitor_checkin list \<Rightarrow> sync_plan" where
  "demo_result st cos cis = \<lparr>asset_update = None, monitor_checkouts = cos, monitor_checkins = cis,
     next_monitor_state = st, warnings = []\<rparr>"

lemma demo_plan_both:
  "demo_plan 6 (demo_known 5 6 True False 0) (48 * hour)
   = Some (demo_result (demo_known 5 6 False True (48 * hour)) [checkout_op 6 10 7] [checkin_op 5 8])"
  by code_simp

lemma demo_plan_steady:
  "demo_plan 6 (demo_known 5 6 False True (48 * hour)) (48 * hour)
   = Some (demo_result (demo_known 5 6 False True (48 * hour)) [] [])"
  by code_simp

theorem plan_checkouts_iff_witness:
  "\<exists>r i. r \<in> set [demo_resolved ''NEW'' 6] \<and> rm_asset_id r = Some i \<and> i \<noteq> 0
     \<and> \<not> already_checked_out (demo_known 5 6 True False 0) (rm_serial r)
     \<and> checkout_op 6 10 7 = checkout_op i (as_id demo_computer) (st_checkout demo_statuses)"
proof -
  have "checkout_op 6 10 7 \<in> set (monitor_checkouts
      (demo_result (demo_known 5 6 False True (48 * hour)) [checkout_op 6 10 7] [checkin_op 5 8]))"
    by (simp add: demo_result_def)
  then show ?thesis unfolding plan_checkouts_iff [OF demo_plan_both] by blast
qed

theorem plan_checkins_iff_witness:
  "\<exists>s e t. entry_of (demo_known 5 6 True False 0) s = Some e \<and> checked_out e
     \<and> absent_since e = Some t \<and> 48 * hour - t \<ge> 24 * hour"
proof -
  have t: "demo_hours (threshold_hours (checkin_threshold_hours demo_policy)) = Some (24 * hour)"
    by code_simp
  have "0 < 24 * hour" by (simp add: hour_def)
  moreover have "checkin_op 5 8 \<in> set (monitor_checkins
      (demo_result (demo_known 5 6 False True (48 * hour)) [checkout_op 6 10 7] [checkin_op 5 8]))"
    by (simp add: demo_result_def)
  ultimately show ?thesis using plan_checkins_iff [OF demo_plan_both t, of "checkin_op 5 8"] by blast
qed

theorem plan_next_state_wf_witness:
  "monitor_state_wf (demo_known 5 6 False True (48 * hour))"
  using plan_next_state_wf [OF demo_plan_both] by (simp add: demo_result_def)

theorem plan_sync_total_witness:
  "plan_sync demo_hours demo_system demo_taxonomy [] None \<lparr>entries = []\<rparr>
     (s_monitors default_settings) demo_statuses 0 \<noteq> None"
proof -
  have h: "demo_hours h = Some (h * 3600000000000)" if "0 \<le> h" "h \<le> 8760" for h
    using that by (simp add: demo_hours_def i64_max_def)
  have "validate_settings default_settings = Ok ()" by code_simp
  from plan_sync_total [OF h this] show ?thesis by blast
qed

text \<open>The planner a second time, from the planned state, half a day later.\<close>

lemma demo_plan_later:
  "demo_plan 6 (demo_known 5 6 False True (48 * hour)) (60 * hour)
   = Some (demo_result (demo_known 5 6 False True (60 * hour)) [] [])"
  by code_simp

theorem plan_converges_witness:
  "\<exists>p2. demo_plan 6 (next_monitor_state (the (demo_plan 6 (demo_known 5 6 True False 0) (48 * hour)))) (60 * hour) = Some p2
     \<and> asset_update p2 = None \<and> monitor_checkouts p2 = [] \<and> checkin_op 5 8 \<notin> set (monitor_checkins p2)"
proof -
  let ?p1 = "demo_result (demo_known 5 6 False True (48 * hour)) [checkout_op 6 10 7] [checkin_op 5 8]"
  let ?p2 = "demo_result (demo_known 5 6 False True (60 * hour)) [] []"
  have wf: "monitor_state_wf (demo_known 5 6 True False 0)" by code_simp
  have e: "e = hd (entries (demo_known 5 6 True False 0))"
    if "entry_of (demo_known 5 6 True False 0) s = Some e" "s \<notin> rm_serial ` set [demo_resolved ''NEW'' 6]" for s e
  proof -
    have "e \<in> set (entries (demo_known 5 6 True False 0)) \<and> me_serial e = s"
      using that(1) unfolding entry_of_wf [OF wf] .
    with that(2) show ?thesis by (auto simp: demo_known_def demo_resolved_def demo_monitor_def)
  qed
  have p2: "plan_sync demo_hours demo_system demo_taxonomy [demo_resolved ''NEW'' 6]
      (map_option (after_update (asset_update ?p1)) (Some demo_computer)) (next_monitor_state ?p1)
      demo_policy demo_statuses (60 * hour) = Some ?p2"
    using demo_plan_later by (simp add: demo_result_def after_update_def)
  have unshared: "Some i \<notin> rm_asset_id ` set [demo_resolved ''NEW'' 6]"
    if "entry_of (demo_known 5 6 True False 0) s = Some e" "s \<notin> rm_serial ` set [demo_resolved ''NEW'' 6]"
      "snipeit_asset_id e = Some i" for s e i
    using e [OF that(1,2)] that(3) by (simp add: demo_known_def demo_resolved_def)
  have both: "demo_plan 6 (demo_known 5 6 True False 0) (48 * hour) = Some ?p1" by (rule demo_plan_both)
  have state: "next_monitor_state (the (demo_plan 6 (demo_known 5 6 True False 0) (48 * hour)))
      = demo_known 5 6 False True (48 * hour)" unfolding both by (simp add: demo_result_def)
  have again: "demo_plan 6 (next_monitor_state (the (demo_plan 6 (demo_known 5 6 True False 0) (48 * hour)))) (60 * hour)
      = Some ?p2" unfolding state by (rule demo_plan_later)
  have "asset_update ?p2 = None \<and> monitor_checkouts ?p2 = []
      \<and> set (monitor_checkins ?p1) \<inter> set (monitor_checkins ?p2) = {}
      \<and> (if 60 * hour = 48 * hour then monitor_checkins ?p2 = [] else True)"
    by (rule plan_converges [OF wf both p2]) (rule unshared)
  then have "asset_update ?p2 = None" "monitor_checkouts ?p2 = []" "checkin_op 5 8 \<notin> set (monitor_checkins ?p2)"
    by (auto simp: demo_result_def)
  with again show ?thesis by blast
qed




end
