(* ===== verification/Journal.thy ===== *)
theory Journal
  imports Json
begin

text \<open>
  \<open>spotter-svc/src/operation_journal.rs\<close>, the records: one durable record per phase of a remote
  operation, and the scan that reconstructs the operations that have not reached a durable state
  commit.  The scan keeps a list of pending operations and a map from operation IDs to positions
  in that list, which it shifts when an operation leaves the list.
\<close>

section \<open>Records\<close>

datatype journal_record =
    Prepared string json
  | RemoteOutcomeObserved string json "json option"
  | StateCommitted string
  | Confirmed string

record pending_operation =
  po_operation_id :: string
  po_operation :: json
  po_remote_outcome :: "json option"
  po_candidate_state :: "json option"

text \<open>The scan's variables: \<open>pending\<close>, \<open>indexes\<close> and \<open>terminal_ids\<close>.\<close>

record scan_state =
  sc_pending :: "pending_operation list"
  sc_indexes :: "string \<Rightarrow> nat option"
  sc_terminal :: "string set"

section \<open>The scan\<close>

definition commit_record :: "scan_state \<Rightarrow> string \<Rightarrow> (scan_state, string) result" where
  "commit_record s i =
     (case sc_indexes s i of
        None \<Rightarrow> Err (''state committed before prepared operation: '' @ i)
      | Some index \<Rightarrow>
          if po_remote_outcome (sc_pending s ! index) = None
          then Err (''state committed before remote outcome: '' @ i)
          else Ok \<lparr>sc_pending = take index (sc_pending s) @ drop (Suc index) (sc_pending s),
                   sc_indexes = (\<lambda>k. map_option (\<lambda>j. if j > index then j - 1 else j)
                                        (((sc_indexes s)(i := None)) k)),
                   sc_terminal = insert i (sc_terminal s)\<rparr>)"

fun scan_record :: "scan_state \<Rightarrow> journal_record \<Rightarrow> (scan_state, string) result" where
  "scan_record s (Prepared i operation) =
     (if i \<in> sc_terminal s then Err (''prepared operation follows terminal commit: '' @ i)
      else if sc_indexes s i \<noteq> None then Err (''duplicate prepared operation: '' @ i)
      else Ok (s\<lparr>sc_indexes := (sc_indexes s)(i \<mapsto> length (sc_pending s)),
                 sc_pending := sc_pending s @ [\<lparr>po_operation_id = i, po_operation = operation,
                   po_remote_outcome = None, po_candidate_state = None\<rparr>]\<rparr>))"
| "scan_record s (RemoteOutcomeObserved i outcome candidate) =
     (case sc_indexes s i of
        None \<Rightarrow> Err (''remote outcome observed before prepared operation: '' @ i)
      | Some index \<Rightarrow>
          if po_remote_outcome (sc_pending s ! index) \<noteq> None
          then Err (''duplicate remote outcome observed: '' @ i)
          else Ok (s\<lparr>sc_pending := (sc_pending s)[index := (sc_pending s ! index)
                 \<lparr>po_remote_outcome := Some outcome, po_candidate_state := candidate\<rparr>]\<rparr>))"
| "scan_record s (StateCommitted i) = commit_record s i"
| "scan_record s (Confirmed i) = commit_record s i"

definition scan_start :: scan_state where
  "scan_start = \<lparr>sc_pending = [], sc_indexes = (\<lambda>_. None), sc_terminal = {}\<rparr>"

fun scan_records :: "scan_state \<Rightarrow> journal_record list \<Rightarrow> (scan_state, string) result" where
  "scan_records s [] = Ok s"
| "scan_records s (r # rs) = and_then (scan_record s r) (\<lambda>s'. scan_records s' rs)"

definition pending_with_evidence :: "journal_record list \<Rightarrow> (pending_operation list, string) result" where
  "pending_with_evidence records = map_ok sc_pending (scan_records scan_start records)"

section \<open>Specification: one automaton per operation\<close>

datatype evidence = Absent | Waiting json | Observed json json "json option" | Committed

primrec record_id :: "journal_record \<Rightarrow> string" where
  "record_id (Prepared i _) = i"
| "record_id (RemoteOutcomeObserved i _ _) = i"
| "record_id (StateCommitted i) = i"
| "record_id (Confirmed i) = i"

fun evidence_step :: "evidence \<Rightarrow> journal_record \<Rightarrow> evidence option" where
  "evidence_step Absent (Prepared _ operation) = Some (Waiting operation)"
| "evidence_step (Waiting operation) (RemoteOutcomeObserved _ outcome candidate) =
     Some (Observed operation outcome candidate)"
| "evidence_step (Observed _ _ _) (StateCommitted _) = Some Committed"
| "evidence_step (Observed _ _ _) (Confirmed _) = Some Committed"
| "evidence_step _ _ = None"

text \<open>The state of one operation after its own records; \<open>None\<close> if they are out of order.\<close>

definition operation_state :: "string \<Rightarrow> journal_record list \<Rightarrow> evidence option" where
  "operation_state i records =
     foldl (\<lambda>e r. Option.bind e (\<lambda>s. evidence_step s r)) (Some Absent) (filter (\<lambda>r. record_id r = i) records)"

definition live :: "evidence option \<Rightarrow> bool" where
  "live e \<longleftrightarrow> (case e of Some (Waiting _) \<Rightarrow> True | Some (Observed _ _ _) \<Rightarrow> True | _ \<Rightarrow> False)"

fun prepared_ids :: "journal_record list \<Rightarrow> string list" where
  "prepared_ids [] = []"
| "prepared_ids (Prepared i _ # rs) = i # prepared_ids rs"
| "prepared_ids (_ # rs) = prepared_ids rs"

fun pending_of :: "string \<Rightarrow> evidence option \<Rightarrow> pending_operation" where
  "pending_of i (Some (Waiting operation)) = \<lparr>po_operation_id = i, po_operation = operation,
     po_remote_outcome = None, po_candidate_state = None\<rparr>"
| "pending_of i (Some (Observed operation outcome candidate)) = \<lparr>po_operation_id = i, po_operation = operation,
     po_remote_outcome = Some outcome, po_candidate_state = candidate\<rparr>"
| "pending_of i _ = \<lparr>po_operation_id = i, po_operation = JNull, po_remote_outcome = None, po_candidate_state = None\<rparr>"

section \<open>A store of evidence\<close>

text \<open>
  What the automata need of the scan's variables: the evidence of each operation, the order of
  the pending ones, and a step that accepts a record exactly when the automaton of its operation
  does and changes that operation only.
\<close>

locale evidence_store =
  fixes start :: 's
    and step :: "'s \<Rightarrow> journal_record \<Rightarrow> ('s, string) result"
    and look :: "'s \<Rightarrow> string \<Rightarrow> evidence"
    and order :: "'s \<Rightarrow> string list"
    and inv :: "'s \<Rightarrow> bool"
  assumes start_inv: "inv start"
    and start_look: "look start i = Absent"
    and start_order: "order start = []"
    and step_iff: "inv s \<Longrightarrow> (\<exists>s'. step s r = Ok s') \<longleftrightarrow> evidence_step (look s (record_id r)) r \<noteq> None"
    and step_inv: "inv s \<Longrightarrow> step s r = Ok s' \<Longrightarrow> inv s'"
    and step_look: "inv s \<Longrightarrow> step s r = Ok s' \<Longrightarrow>
      look s' i = (if i = record_id r then the (evidence_step (look s i) r) else look s i)"
    and step_order: "inv s \<Longrightarrow> step s r = Ok s' \<Longrightarrow>
      order s' = filter (\<lambda>i. live (Some (look s' i))) (order s @ prepared_ids [r])"
begin

fun run :: "'s \<Rightarrow> journal_record list \<Rightarrow> ('s, string) result" where
  "run s [] = Ok s"
| "run s (r # rs) = and_then (step s r) (\<lambda>s'. run s' rs)"

lemma run_append: "run s (rs @ rs') = and_then (run s rs) (\<lambda>s'. run s' rs')"
proof (induction rs arbitrary: s)
  case (Cons r rs)
  then show ?case by (cases "step s r") simp_all
qed simp

lemma operation_state_snoc:
  "operation_state i (rs @ [r]) =
     (if i = record_id r then Option.bind (operation_state i rs) (\<lambda>e. evidence_step e r) else operation_state i rs)"
  by (simp add: operation_state_def)

lemma run_inv: "run start rs = Ok s \<Longrightarrow> inv s"
proof (induction rs arbitrary: s rule: rev_induct)
  case (snoc r rs)
  then show ?case by (auto simp: run_append and_then_eq_Ok dest: step_inv)
qed (simp add: start_inv)

lemma run_look: "run start rs = Ok s \<Longrightarrow> operation_state i rs = Some (look s i)"
proof (induction rs arbitrary: s rule: rev_induct)
  case (snoc r rs)
  then obtain s0 where s0: "run start rs = Ok s0" "step s0 r = Ok s"
    by (auto simp: run_append and_then_eq_Ok)
  have "evidence_step (look s0 (record_id r)) r \<noteq> None"
    using step_iff [OF run_inv [OF s0(1)]] s0(2) by blast
  with snoc.IH [OF s0(1)] step_look [OF run_inv [OF s0(1)] s0(2), of i] show ?case
    by (auto simp: operation_state_snoc)
qed (simp add: operation_state_def start_look)

lemma run_ok_iff: "(\<exists>s. run start rs = Ok s) \<longleftrightarrow> (\<forall>i. operation_state i rs \<noteq> None)"
proof (induction rs rule: rev_induct)
  case (snoc r rs)
  show ?case
  proof
    assume "\<exists>s. run start (rs @ [r]) = Ok s"
    then show "\<forall>i. operation_state i (rs @ [r]) \<noteq> None" using run_look by fastforce
  next
    assume all: "\<forall>i. operation_state i (rs @ [r]) \<noteq> None"
    then have "\<forall>i. operation_state i rs \<noteq> None"
      by (metis bind_eq_None_conv operation_state_snoc)
    with snoc obtain s0 where s0: "run start rs = Ok s0" by blast
    have "evidence_step (look s0 (record_id r)) r \<noteq> None"
      using all [rule_format, of "record_id r"] run_look [OF s0] by (simp add: operation_state_snoc)
    with step_iff [OF run_inv [OF s0]] obtain s where "step s0 r = Ok s" by blast
    with s0 show "\<exists>s. run start (rs @ [r]) = Ok s" by (simp add: run_append)
  qed
qed (simp add: operation_state_def)

lemma prepared_ids_append: "prepared_ids (rs @ rs') = prepared_ids rs @ prepared_ids rs'"
  by (induction rs rule: prepared_ids.induct) simp_all

lemma run_order: "run start rs = Ok s \<Longrightarrow> order s = filter (\<lambda>i. live (Some (look s i))) (prepared_ids rs)"
proof (induction rs arbitrary: s rule: rev_induct)
  case (snoc r rs)
  then obtain s0 where s0: "run start rs = Ok s0" "step s0 r = Ok s"
    by (auto simp: run_append and_then_eq_Ok)
  note inv0 = run_inv [OF s0(1)]
  have "live (Some (look s i)) \<Longrightarrow> i \<in> set (prepared_ids rs) \<Longrightarrow> live (Some (look s0 i))" for i
  proof (cases "i = record_id r")
    case True
    assume l: "live (Some (look s i))" and m: "i \<in> set (prepared_ids rs)"
    have "evidence_step (look s0 i) r \<noteq> None" using step_iff [OF inv0] s0(2) True by blast
    moreover have "look s0 i \<noteq> Absent" if "i \<in> set (prepared_ids rs)"
    proof -
      have "operation_state i rs \<noteq> Some Absent" if "i \<in> set (prepared_ids rs)"
        using that
      proof (induction rs rule: rev_induct)
        case (snoc x xs)
        then show ?case
          by (cases x; cases "operation_state i xs"; cases "the (operation_state i xs)")
             (auto simp: operation_state_snoc prepared_ids_append split: if_splits)
      qed simp
      with that run_look [OF s0(1)] show ?thesis by simp
    qed
    ultimately show ?thesis
      using m l step_look [OF inv0 s0(2), of i] True
      by (cases "look s0 i"; cases r) (auto simp: live_def)
  next
    case False
    then show "live (Some (look s i)) \<Longrightarrow> ?thesis" using step_look [OF inv0 s0(2), of i] by simp
  qed
  then have "filter (\<lambda>i. live (Some (look s i))) (filter (\<lambda>i. live (Some (look s0 i))) (prepared_ids rs))
      = filter (\<lambda>i. live (Some (look s i))) (prepared_ids rs)"
    by (simp add: conj_commute cong: filter_cong) (metis (mono_tags, lifting) filter_cong)
  with step_order [OF inv0 s0(2)] snoc.IH [OF s0(1)] show ?case
    by (simp add: prepared_ids_append)
qed (simp add: start_order)

end

section \<open>The scan is such a store\<close>

definition evidence_of :: "pending_operation \<Rightarrow> evidence" where
  "evidence_of p = (case po_remote_outcome p of None \<Rightarrow> Waiting (po_operation p)
     | Some outcome \<Rightarrow> Observed (po_operation p) outcome (po_candidate_state p))"

definition scan_look :: "scan_state \<Rightarrow> string \<Rightarrow> evidence" where
  "scan_look s i = (case sc_indexes s i of Some index \<Rightarrow> evidence_of (sc_pending s ! index)
     | None \<Rightarrow> if i \<in> sc_terminal s then Committed else Absent)"

definition scan_order :: "scan_state \<Rightarrow> string list" where
  "scan_order s = map po_operation_id (sc_pending s)"

definition scan_inv :: "scan_state \<Rightarrow> bool" where
  "scan_inv s \<longleftrightarrow>
     (\<forall>i k. sc_indexes s i = Some k \<longleftrightarrow> k < length (sc_pending s) \<and> po_operation_id (sc_pending s ! k) = i)
     \<and> (\<forall>p\<in>set (sc_pending s). po_operation_id p \<notin> sc_terminal s
          \<and> (po_remote_outcome p = None \<longrightarrow> po_candidate_state p = None))"

lemma scan_index:
  "scan_inv s \<Longrightarrow> sc_indexes s i = Some k \<longleftrightarrow> k < length (sc_pending s) \<and> po_operation_id (sc_pending s ! k) = i"
  by (simp add: scan_inv_def)

lemma live_evidence [simp]: "live (Some (evidence_of p))" "evidence_of p \<noteq> Absent" "evidence_of p \<noteq> Committed"
  by (simp_all add: evidence_of_def live_def split: option.splits)

lemma live_simps [simp]: "\<not> live (Some Absent)" "\<not> live (Some Committed)"
  by (simp_all add: live_def)

lemma scan_live: "live (Some (scan_look s i)) \<longleftrightarrow> sc_indexes s i \<noteq> None"
  by (simp add: scan_look_def split: option.split)

lemma scan_order_live: "scan_inv s \<Longrightarrow> i \<in> set (scan_order s) \<longleftrightarrow> sc_indexes s i \<noteq> None"
  by (force simp: scan_order_def in_set_conv_nth scan_index)

lemma scan_terminal: "scan_inv s \<Longrightarrow> sc_indexes s i = Some k \<Longrightarrow> i \<notin> sc_terminal s"
  unfolding scan_inv_def by (metis nth_mem)

lemma scan_record_iff:
  assumes "scan_inv s"
  shows "(\<exists>s'. scan_record s r = Ok s') \<longleftrightarrow> evidence_step (scan_look s (record_id r)) r \<noteq> None"
proof (cases r)
  case (Prepared i operation)
  with scan_terminal [OF assms, of i] show ?thesis
    by (cases "sc_indexes s i") (auto simp: scan_look_def evidence_of_def split: option.splits)
qed (cases "sc_indexes s (record_id r)";
     auto simp: commit_record_def scan_look_def evidence_of_def split: option.splits)+

text \<open>Removing the pending operation at an index shifts the later ones down.\<close>

lemma nth_removed:
  "k < length xs \<Longrightarrow> j < length xs - 1 \<Longrightarrow> (take k xs @ drop (Suc k) xs) ! j = (if j < k then xs ! j else xs ! Suc j)"
  by (auto simp: nth_append min_def)

lemma filter_removed_one:
  assumes "distinct xs" "xs = take k xs @ i # drop (Suc k) xs"
  shows "filter (\<lambda>j. j \<noteq> i) xs = take k xs @ drop (Suc k) xs"
proof -
  have "i \<notin> set (take k xs)" "i \<notin> set (drop (Suc k) xs)"
    using assms by (metis disjoint_insert(1) distinct_append list.simps(15), metis distinct.simps(2) distinct_append)
  then have "filter (\<lambda>j. j \<noteq> i) (take k xs @ i # drop (Suc k) xs) = take k xs @ drop (Suc k) xs"
    by (simp add: filter_id_conv) (metis (mono_tags, lifting) filter_True)
  with assms(2) show ?thesis by simp
qed

lemma shift_index:
  "n \<noteq> k \<Longrightarrow> m = (if n > k then n - 1 else n) \<longleftrightarrow> n = (if m < k then m else Suc (m :: nat))"
  by auto

lemma commit_inv:
  assumes "scan_inv s" "commit_record s i = Ok s'"
  shows "scan_inv s'" "scan_look s' j = (if j = i then Committed else scan_look s j)"
    "scan_order s' = filter (\<lambda>j. j \<noteq> i) (scan_order s)"
proof -
  from assms(2) obtain k where k: "sc_indexes s i = Some k" "po_remote_outcome (sc_pending s ! k) \<noteq> None"
      and s': "s' = \<lparr>sc_pending = take k (sc_pending s) @ drop (Suc k) (sc_pending s),
        sc_indexes = (\<lambda>l. map_option (\<lambda>j. if j > k then j - 1 else j) (((sc_indexes s)(i := None)) l)),
        sc_terminal = insert i (sc_terminal s)\<rparr>"
    by (auto simp: commit_record_def split: option.splits if_splits)
  have kl: "k < length (sc_pending s)" "po_operation_id (sc_pending s ! k) = i"
    using k scan_index [OF assms(1)] by simp_all
  have idx: "sc_indexes s' l = Some m \<longleftrightarrow> m < length (sc_pending s') \<and> po_operation_id (sc_pending s' ! m) = l" for l m
  proof -
    have "sc_indexes s' l = Some m \<longleftrightarrow> l \<noteq> i \<and> sc_indexes s l = Some (if m < k then m else Suc m)"
    proof (cases "l = i")
      case False
      have ix: "sc_indexes s' l = map_option (\<lambda>n. if n > k then n - 1 else n) (sc_indexes s l)"
        unfolding s' using False by simp
      show ?thesis
      proof (cases "sc_indexes s l")
        case (Some n)
        then have "n \<noteq> k" using False kl(2) scan_index [OF assms(1), of l n] by auto
        from shift_index [OF this, of m] show ?thesis
          unfolding ix Some option.map option.inject using False by metis
      qed (simp add: ix)
    qed (simp add: s')
    also have "\<dots> \<longleftrightarrow> m < length (sc_pending s') \<and> po_operation_id (sc_pending s' ! m) = l"
    proof -
      have len: "length (sc_pending s') = length (sc_pending s) - 1" using kl(1) by (simp add: s')
      have only: "po_operation_id (sc_pending s ! n) = i \<longleftrightarrow> n = k" if "n < length (sc_pending s)" for n
        using that k(1) scan_index [OF assms(1), of i n] by auto
      show ?thesis
        unfolding scan_index [OF assms(1)] len
        using nth_removed [OF kl(1), of m] kl(1) only [of m] only [of "Suc m"] by (auto simp: s' less_diff_conv split: if_splits)
    qed
    finally show ?thesis .
  qed
  have sub: "set (sc_pending s') \<subseteq> set (sc_pending s)"
    by (auto simp: s' dest: in_set_takeD in_set_dropD)
  have "i \<notin> po_operation_id ` set (sc_pending s')"
  proof
    assume "i \<in> po_operation_id ` set (sc_pending s')"
    then obtain m where "m < length (sc_pending s')" "po_operation_id (sc_pending s' ! m) = i"
      by (auto simp: in_set_conv_nth)
    then have "sc_indexes s' i = Some m" using idx by simp
    then show False by (simp add: s')
  qed
  then show inv: "scan_inv s'"
    using idx sub assms(1) by (auto simp: scan_inv_def s' image_iff)
  show "scan_look s' j = (if j = i then Committed else scan_look s j)"
  proof (cases "sc_indexes s j")
    case None
    then show ?thesis by (simp add: scan_look_def s')
  next
    case (Some n)
    show ?thesis
    proof (cases "j = i")
      case False
      with Some kl have n: "n < length (sc_pending s)" "n \<noteq> k" using scan_index [OF assms(1)] by auto
      have "sc_pending s' ! (if n > k then n - 1 else n) = sc_pending s ! n"
        using n kl(1) nth_removed [OF kl(1), of "if n > k then n - 1 else n"] by (auto simp: s')
      moreover have "sc_indexes s' j = Some (if n > k then n - 1 else n)" using Some False by (simp add: s')
      ultimately show ?thesis using Some False by (simp add: scan_look_def)
    qed (simp add: scan_look_def s')
  qed
  have dist: "distinct (scan_order s)"
    unfolding scan_order_def distinct_conv_nth length_map
    using scan_index [OF assms(1)] by (metis nth_map option.inject)
  have at_k: "scan_order s = take k (scan_order s) @ i # drop (Suc k) (scan_order s)"
    using kl by (metis (no_types, lifting) id_take_nth_drop length_map nth_map scan_order_def)
  have "scan_order s' = take k (scan_order s) @ drop (Suc k) (scan_order s)"
    by (simp add: s' scan_order_def take_map drop_map)
  with filter_removed_one [OF dist at_k] show "scan_order s' = filter (\<lambda>j. j \<noteq> i) (scan_order s)" by simp
qed

lemma prepare_inv:
  assumes "scan_inv s" "scan_record s (Prepared i operation) = Ok s'"
  shows "scan_inv s'" "scan_look s' j = (if j = i then Waiting operation else scan_look s j)"
    "scan_order s' = scan_order s @ [i]"
proof -
  from assms(2) have i: "i \<notin> sc_terminal s" "sc_indexes s i = None"
    and s': "s' = s\<lparr>sc_indexes := (sc_indexes s)(i \<mapsto> length (sc_pending s)),
       sc_pending := sc_pending s @ [\<lparr>po_operation_id = i, po_operation = operation,
         po_remote_outcome = None, po_candidate_state = None\<rparr>]\<rparr>"
    by (auto split: if_splits)
  have new: "po_operation_id (sc_pending s ! k) \<noteq> i" if "k < length (sc_pending s)" for k
    using i(2) that scan_index [OF assms(1), of i k] by auto
  have old: "k < length (sc_pending s)" if "sc_indexes s l = Some k" for l k
    using that scan_index [OF assms(1)] by simp
  show "scan_inv s'"
    unfolding scan_inv_def
    using assms(1) i new old by (auto simp: scan_inv_def s' nth_append less_Suc_eq)
  show "scan_look s' j = (if j = i then Waiting operation else scan_look s j)"
    using old [of j] by (auto simp: scan_look_def s' nth_append evidence_of_def split: option.split)
  show "scan_order s' = scan_order s @ [i]" by (simp add: s' scan_order_def)
qed

lemma observe_inv:
  assumes "scan_inv s" "scan_record s (RemoteOutcomeObserved i outcome candidate) = Ok s'"
  shows "scan_inv s'" "scan_order s' = scan_order s"
    "scan_look s' j = (if j = i then the (evidence_step (scan_look s i) (RemoteOutcomeObserved i outcome candidate))
       else scan_look s j)"
proof -
  from assms(2) obtain k where k: "sc_indexes s i = Some k" "po_remote_outcome (sc_pending s ! k) = None"
    and s': "s' = s\<lparr>sc_pending := (sc_pending s)[k := (sc_pending s ! k)
                 \<lparr>po_remote_outcome := Some outcome, po_candidate_state := candidate\<rparr>]\<rparr>"
    by (auto split: option.splits if_splits)
  have kl: "k < length (sc_pending s)" "po_operation_id (sc_pending s ! k) = i"
    using k scan_index [OF assms(1)] by simp_all
  have ids: "map po_operation_id (sc_pending s') = map po_operation_id (sc_pending s)"
    using kl by (intro nth_equalityI) (auto simp: s' nth_list_update)
  then show "scan_order s' = scan_order s" by (simp add: scan_order_def)
  have "po_operation_id (sc_pending s' ! m) = po_operation_id (sc_pending s ! m)" if "m < length (sc_pending s)" for m
    using that ids by (metis length_map nth_map)
  then have idx: "sc_indexes s' l = Some m \<longleftrightarrow> m < length (sc_pending s') \<and> po_operation_id (sc_pending s' ! m) = l" for l m
    using scan_index [OF assms(1), of l m] by (auto simp: s')
  have "i \<notin> sc_terminal s" using scan_terminal [OF assms(1) k(1)] .
  then have "\<forall>p\<in>set (sc_pending s'). po_operation_id p \<notin> sc_terminal s'
      \<and> (po_remote_outcome p = None \<longrightarrow> po_candidate_state p = None)"
    using assms(1) kl(2) unfolding scan_inv_def s'
    by (auto dest!: set_update_subset_insert [THEN subsetD])
  with idx show "scan_inv s'" unfolding scan_inv_def by blast
  show "scan_look s' j = (if j = i then the (evidence_step (scan_look s i) (RemoteOutcomeObserved i outcome candidate))
       else scan_look s j)"
  proof (cases "j = i")
    case True
    then show ?thesis using k kl(1) by (simp add: scan_look_def s' evidence_of_def)
  next
    case False
    then have "sc_indexes s j \<noteq> Some k" using kl(2) scan_index [OF assms(1), of j k] by auto
    with False show ?thesis by (auto simp: scan_look_def s' split: option.split)
  qed
qed

interpretation scan: evidence_store scan_start scan_record scan_look scan_order scan_inv
proof unfold_locales
  show "scan_inv scan_start" by (simp add: scan_inv_def scan_start_def)
  show "scan_look scan_start i = Absent" for i by (simp add: scan_look_def scan_start_def)
  show "scan_order scan_start = []" by (simp add: scan_order_def scan_start_def)
  show "(\<exists>s'. scan_record s r = Ok s') \<longleftrightarrow> evidence_step (scan_look s (record_id r)) r \<noteq> None" if "scan_inv s" for s r
    using that by (rule scan_record_iff)
  fix s r s' assume a: "scan_inv s" "scan_record s r = Ok s'"
  have e: "evidence_step (scan_look s (record_id r)) r \<noteq> None" using scan_record_iff [OF a(1)] a(2) by blast
  show inv: "scan_inv s'"
    using a by (cases r) (auto simp del: scan_record.simps(1,2) dest: prepare_inv observe_inv commit_inv)
  show look: "scan_look s' i = (if i = record_id r then the (evidence_step (scan_look s i) r) else scan_look s i)" for i
  proof (cases r)
    case (Prepared j operation)
    with e prepare_inv(2) [OF a(1), of j operation s' i] a(2) show ?thesis by (cases "scan_look s j") auto
  next
    case (RemoteOutcomeObserved j outcome candidate)
    with observe_inv(3) [OF a(1), of j outcome candidate s' i] a(2) show ?thesis by simp
  next
    case (StateCommitted j)
    with e commit_inv(2) [OF a(1), of j s' i] a(2) show ?thesis by (cases "scan_look s j") auto
  next
    case (Confirmed j)
    with e commit_inv(2) [OF a(1), of j s' i] a(2) show ?thesis by (cases "scan_look s j") auto
  qed
  have all_live: "filter (\<lambda>i. live (Some (scan_look s' i))) (scan_order s') = scan_order s'"
    using scan_order_live [OF inv] scan_live by (auto simp: filter_id_conv)
  show "scan_order s' = filter (\<lambda>i. live (Some (scan_look s' i))) (scan_order s @ prepared_ids [r])"
  proof (cases r)
    case (Prepared j operation)
    then show ?thesis using prepare_inv(3) [OF a(1), of j operation s'] a(2) all_live by simp
  next
    case (RemoteOutcomeObserved j outcome candidate)
    then show ?thesis using observe_inv(2) [OF a(1), of j outcome candidate s'] a(2) all_live by simp
  next
    case (StateCommitted j)
    then have c: "commit_record s j = Ok s'" using a(2) by simp
    have "filter (\<lambda>i. live (Some (scan_look s' i))) (scan_order s) = filter (\<lambda>i. i \<noteq> j) (scan_order s)"
      using scan_order_live [OF a(1)] scan_live commit_inv(2) [OF a(1) c] by (auto intro!: filter_cong)
    with StateCommitted commit_inv(3) [OF a(1) c] show ?thesis by simp
  next
    case (Confirmed j)
    then have c: "commit_record s j = Ok s'" using a(2) by simp
    have "filter (\<lambda>i. live (Some (scan_look s' i))) (scan_order s) = filter (\<lambda>i. i \<noteq> j) (scan_order s)"
      using scan_order_live [OF a(1)] scan_live commit_inv(2) [OF a(1) c] by (auto intro!: filter_cong)
    with Confirmed commit_inv(3) [OF a(1) c] show ?thesis by simp
  qed
qed

section \<open>What the scan computes\<close>

lemma scan_records_run: "scan_records s rs = scan.run s rs"
proof (induction rs arbitrary: s)
  case (Cons r rs)
  then show ?case by (cases "scan_record s r") simp_all
qed simp

lemma scan_pending:
  assumes "scan_inv s" "p \<in> set (sc_pending s)"
  shows "p = pending_of (po_operation_id p) (Some (scan_look s (po_operation_id p)))"
proof -
  obtain k where k: "k < length (sc_pending s)" "p = sc_pending s ! k"
    using assms(2) by (auto simp: in_set_conv_nth)
  then have look: "scan_look s (po_operation_id p) = evidence_of p"
    using scan_index [OF assms(1), of "po_operation_id p" k] by (simp add: scan_look_def)
  have "po_remote_outcome p = None \<longrightarrow> po_candidate_state p = None"
    using assms by (simp add: scan_inv_def)
  then show ?thesis unfolding look by (cases p) (auto simp: evidence_of_def split: option.split)
qed

lemma pending_with_evidence_iff:
  "pending_with_evidence rs = Ok ps \<longleftrightarrow> (\<forall>i. operation_state i rs \<noteq> None)
     \<and> ps = map (\<lambda>i. pending_of i (operation_state i rs))
              (filter (\<lambda>i. live (operation_state i rs)) (prepared_ids rs))"
proof (cases "scan.run scan_start rs")
  case (Ok s)
  note look = scan.run_look [OF Ok] and inv = scan.run_inv [OF Ok]
  have "scan_order s = filter (\<lambda>i. live (operation_state i rs)) (prepared_ids rs)"
    using scan.run_order [OF Ok] look by simp
  moreover have "sc_pending s = map (\<lambda>i. pending_of i (operation_state i rs)) (scan_order s)"
    unfolding scan_order_def map_map o_def look
    using scan_pending [OF inv] by (intro map_idI [symmetric]) simp
  ultimately show ?thesis
    using Ok look by (auto simp: pending_with_evidence_def scan_records_run)
next
  case (Err e)
  then have "\<not> (\<exists>s. scan.run scan_start rs = Ok s)" by simp
  then show ?thesis
    using Err unfolding scan.run_ok_iff by (auto simp: pending_with_evidence_def scan_records_run)
qed

text \<open>
  C20: the journal scan refines one automaton per operation.  However the records of different
  operations interleave, the scan accepts them exactly when each operation's own records run
  through prepare, observe, commit in that order; it then returns exactly the operations that are
  prepared and not committed, in the order of preparation, each with its own evidence.
\<close>

theorem pending_with_evidence_refines:
  "pending_with_evidence records = Ok ps \<longleftrightarrow> (\<forall>i. operation_state i records \<noteq> None)
     \<and> ps = map (\<lambda>i. pending_of i (operation_state i records))
              (filter (\<lambda>i. live (operation_state i records)) (prepared_ids records))"
  by (rule pending_with_evidence_iff)

section \<open>Compaction\<close>

text \<open>The records that \<open>compact\<close> writes for a list of pending operations.\<close>

definition compact_operation :: "pending_operation \<Rightarrow> journal_record list" where
  "compact_operation p = Prepared (po_operation_id p) (po_operation p)
     # (case po_remote_outcome p of Some outcome \<Rightarrow>
          [RemoteOutcomeObserved (po_operation_id p) outcome (po_candidate_state p)] | None \<Rightarrow> [])"

definition compact_records :: "pending_operation list \<Rightarrow> journal_record list" where
  "compact_records ps = concat (map compact_operation ps)"

lemma compact_operation_id: "r \<in> set (compact_operation p) \<Longrightarrow> record_id r = po_operation_id p"
  by (auto simp: compact_operation_def split: option.splits)

lemma compact_records_filter:
  assumes "distinct (map po_operation_id ps)"
  shows "filter (\<lambda>r. record_id r = i) (compact_records ps)
     = (case find (\<lambda>p. po_operation_id p = i) ps of Some p \<Rightarrow> compact_operation p | None \<Rightarrow> [])"
  using assms
proof (induction ps)
  case (Cons p ps)
  have own: "filter (\<lambda>r. record_id r = i) (compact_operation p)
      = (if po_operation_id p = i then compact_operation p else [])"
    using compact_operation_id [of _ p] by (auto simp: filter_id_conv filter_empty_conv)
  have "find (\<lambda>q. po_operation_id q = i) ps = None" if "po_operation_id p = i"
    using that Cons.prems unfolding find_None_iff by (metis distinct.simps(2) image_eqI list.set_map list.simps(9))
  with own Cons show ?case by (simp add: compact_records_def)
qed (simp add: compact_records_def)

lemma prepared_ids_compact: "prepared_ids (compact_records ps) = map po_operation_id ps"
proof (induction ps)
  case (Cons p ps)
  then show ?case
    by (simp add: compact_records_def compact_operation_def scan.prepared_ids_append split: option.split)
qed (simp add: compact_records_def)

lemma pending_of_id [simp]: "po_operation_id (pending_of i e) = i"
  by (cases "(i, e)" rule: pending_of.cases) simp_all

lemma pending_distinct:
  assumes "pending_with_evidence rs = Ok ps"
  shows "distinct (map po_operation_id ps)" "\<forall>p\<in>set ps. po_remote_outcome p = None \<longrightarrow> po_candidate_state p = None"
proof -
  from assms obtain s where s: "scan.run scan_start rs = Ok s" "ps = sc_pending s"
    by (auto simp: pending_with_evidence_def scan_records_run)
  note inv = scan.run_inv [OF s(1)]
  show "distinct (map po_operation_id ps)"
    unfolding s(2) distinct_conv_nth length_map
    using scan_index [OF inv] by (metis nth_map option.inject)
  show "\<forall>p\<in>set ps. po_remote_outcome p = None \<longrightarrow> po_candidate_state p = None"
    using inv by (simp add: scan_inv_def s(2))
qed

lemma pending_of_evidence:
  assumes "po_remote_outcome p = None \<longrightarrow> po_candidate_state p = None"
  shows "pending_of (po_operation_id p) (Some (evidence_of p)) = p"
  using assms by (cases p) (auto simp: evidence_of_def split: option.split)

lemma compact_preserves:
  assumes "pending_with_evidence rs = Ok ps"
  shows "pending_with_evidence (compact_records ps) = Ok ps"
proof -
  note d = pending_distinct [OF assms]
  have state: "operation_state i (compact_records ps) =
      (case find (\<lambda>p. po_operation_id p = i) ps of Some p \<Rightarrow> Some (evidence_of p) | None \<Rightarrow> Some Absent)" for i
    by (auto simp: operation_state_def compact_records_filter [OF d(1)] compact_operation_def evidence_of_def
        split: option.split)
  have found: "find (\<lambda>q. po_operation_id q = po_operation_id p) ps = Some p" if "p \<in> set ps" for p
  proof -
    have "find (\<lambda>q. po_operation_id q = po_operation_id p) ps \<noteq> None" using that unfolding find_None_iff by blast
    then obtain q where q: "find (\<lambda>q. po_operation_id q = po_operation_id p) ps = Some q" by blast
    then have "q \<in> set ps" "po_operation_id q = po_operation_id p" by (auto simp: find_Some_iff)
    with d(1) that have "q = p" by (auto simp: distinct_map inj_on_def)
    with q show ?thesis by simp
  qed
  have "filter (\<lambda>i. live (operation_state i (compact_records ps))) (map po_operation_id ps) = map po_operation_id ps"
    by (simp add: filter_id_conv state found)
  moreover have "map (\<lambda>i. pending_of i (operation_state i (compact_records ps))) (map po_operation_id ps) = ps"
    unfolding map_map o_def
  proof (rule map_idI)
    fix p assume p: "p \<in> set ps"
    show "pending_of (po_operation_id p) (operation_state (po_operation_id p) (compact_records ps)) = p"
      unfolding state found [OF p] option.case using pending_of_evidence d(2) p by simp
  qed
  ultimately show ?thesis
    unfolding pending_with_evidence_iff prepared_ids_compact by (auto simp: state split: option.split)
qed

text \<open>
  Compaction loses no evidence.  The records that the compacted journal holds reconstruct
  exactly the pending operations of the original journal, with their outcomes and candidates, in
  the same order; in particular compacting twice is compacting once.
\<close>

theorem compaction_preserves_pending:
  assumes "pending_with_evidence records = Ok ps"
  shows "pending_with_evidence (compact_records ps) = Ok ps"
  using assms by (rule compact_preserves)

definition demo_records :: "journal_record list" where
  "demo_records = [Prepared ''a'' JNull, Prepared ''b'' (JStr ''x''), RemoteOutcomeObserved ''a'' JNull None,
     Prepared ''c'' JNull, RemoteOutcomeObserved ''b'' JNull (Some JNull), StateCommitted ''a'']"

definition demo_pending :: "pending_operation list" where
  "demo_pending =
     [\<lparr>po_operation_id = ''b'', po_operation = JStr ''x'', po_remote_outcome = Some JNull, po_candidate_state = Some JNull\<rparr>,
      \<lparr>po_operation_id = ''c'', po_operation = JNull, po_remote_outcome = None, po_candidate_state = None\<rparr>]"

lemma demo_scan: "pending_with_evidence demo_records = Ok demo_pending"
  by (simp add: pending_with_evidence_def demo_records_def scan_start_def commit_record_def demo_pending_def)

theorem compaction_preserves_pending_witness:
  "pending_with_evidence (compact_records demo_pending) = Ok demo_pending"
  by (rule compaction_preserves_pending [OF demo_scan])

section \<open>One more record\<close>

lemma scan_records_append: "scan_records s (rs @ rs') = and_then (scan_records s rs) (\<lambda>s'. scan_records s' rs')"
  by (simp add: scan_records_run scan.run_append)

lemma pending_scan:
  "pending_with_evidence rs = Ok ps \<longleftrightarrow> (\<exists>s. scan_records scan_start rs = Ok s \<and> sc_pending s = ps)"
  by (auto simp: pending_with_evidence_def)

lemma scan_reached:
  assumes "scan_records scan_start rs = Ok s"
  shows "scan_inv s" "operation_state i rs = Some (scan_look s i)"
  using assms scan.run_inv scan.run_look by (auto simp: scan_records_run)

lemma pending_snoc_prepare:
  assumes "pending_with_evidence rs = Ok ps" "operation_state i rs = Some Absent"
  shows "pending_with_evidence (rs @ [Prepared i operation]) =
    Ok (ps @ [\<lparr>po_operation_id = i, po_operation = operation, po_remote_outcome = None, po_candidate_state = None\<rparr>])"
proof -
  obtain s where s: "scan_records scan_start rs = Ok s" "sc_pending s = ps"
    using assms(1) by (auto simp: pending_scan)
  have "scan_look s i = Absent" using scan_reached(2) [OF s(1), of i] assms(2) by simp
  then have "sc_indexes s i = None" "i \<notin> sc_terminal s"
    by (auto simp: scan_look_def split: option.splits if_splits)
  then show ?thesis using s by (simp add: pending_with_evidence_def scan_records_append)
qed

lemma pending_index:
  assumes "scan_inv s" "sc_pending s = ps @ p # qs"
  shows "sc_indexes s (po_operation_id p) = Some (length ps)"
  using scan_index [OF assms(1), of "po_operation_id p" "length ps"] assms(2) by simp

lemma pending_snoc_observe:
  assumes "pending_with_evidence rs = Ok (ps @ p # qs)" "po_remote_outcome p = None"
  shows "pending_with_evidence (rs @ [RemoteOutcomeObserved (po_operation_id p) outcome candidate]) =
    Ok (ps @ p\<lparr>po_remote_outcome := Some outcome, po_candidate_state := candidate\<rparr> # qs)"
proof -
  obtain s where s: "scan_records scan_start rs = Ok s" "sc_pending s = ps @ p # qs"
    using assms(1) by (auto simp: pending_scan)
  with assms(2) pending_index [OF scan_reached(1) [OF s(1)] s(2)] show ?thesis
    by (simp add: pending_with_evidence_def scan_records_append)
qed

lemma pending_snoc_commit:
  assumes "pending_with_evidence rs = Ok (ps @ p # qs)" "po_remote_outcome p \<noteq> None"
  shows "pending_with_evidence (rs @ [StateCommitted (po_operation_id p)]) = Ok (ps @ qs)"
proof -
  obtain s where s: "scan_records scan_start rs = Ok s" "sc_pending s = ps @ p # qs"
    using assms(1) by (auto simp: pending_scan)
  with assms(2) pending_index [OF scan_reached(1) [OF s(1)] s(2)] show ?thesis
    by (simp add: pending_with_evidence_def scan_records_append commit_record_def)
qed

lemma operation_state_append_other:
  "i \<notin> record_id ` set rs' \<Longrightarrow> operation_state i (rs @ rs') = operation_state i rs"
proof (induction rs' rule: rev_induct)
  case (snoc r rs')
  have "operation_state i (rs @ rs' @ [r]) = operation_state i (rs @ rs')"
    using snoc.prems scan.operation_state_snoc [of i "rs @ rs'" r] by simp
  with snoc show ?case by simp
qed simp

text \<open>A commit of several pending operations, in any order of preparation.\<close>

lemma pending_commit_all:
  assumes "pending_with_evidence rs = Ok (ps @ qs)" "\<forall>q\<in>set qs. po_remote_outcome q \<noteq> None"
  shows "pending_with_evidence (rs @ map StateCommitted (map po_operation_id qs)) = Ok ps"
  using assms
proof (induction qs arbitrary: rs)
  case (Cons q qs)
  have "pending_with_evidence (rs @ [StateCommitted (po_operation_id q)]) = Ok (ps @ qs)"
    using Cons.prems by (intro pending_snoc_commit) simp_all
  from Cons.IH [OF this] Cons.prems(2) show ?case by simp
qed simp

section \<open>Phases never go back\<close>

datatype journal_phase = Unprepared | InFlight | Applied | Final

primrec phase_rank :: "journal_phase \<Rightarrow> nat" where
  "phase_rank Unprepared = 0"
| "phase_rank InFlight = 1"
| "phase_rank Applied = 2"
| "phase_rank Final = 3"

instantiation journal_phase :: linorder
begin

definition less_eq_journal_phase :: "journal_phase \<Rightarrow> journal_phase \<Rightarrow> bool" where
  "a \<le> b \<longleftrightarrow> phase_rank a \<le> phase_rank b"

definition less_journal_phase :: "journal_phase \<Rightarrow> journal_phase \<Rightarrow> bool" where
  "a < b \<longleftrightarrow> phase_rank a < phase_rank b"

lemma phase_rank_inj: "phase_rank a = phase_rank b \<longleftrightarrow> a = b"
  by (cases a; cases b) simp_all

instance
  by standard (auto simp: less_eq_journal_phase_def less_journal_phase_def phase_rank_inj [symmetric])

end

primrec phase_of :: "evidence \<Rightarrow> journal_phase" where
  "phase_of Absent = Unprepared"
| "phase_of (Waiting _) = InFlight"
| "phase_of (Observed _ _ _) = Applied"
| "phase_of Committed = Final"

lemma evidence_step_phase: "evidence_step e r = Some e' \<Longrightarrow> phase_of e < phase_of e'"
  by (cases "(e, r)" rule: evidence_step.cases) (auto simp: less_journal_phase_def)

text \<open>
  What a journal says of an operation is never taken back: appending records to an accepted
  journal leaves the phase of every operation where it was or moves it forward, and strictly
  forward for each operation that one of the new records names.
\<close>

theorem journal_phase_monotone:
  assumes "pending_with_evidence (records @ later) = Ok ps"
  shows "\<exists>e e'. operation_state i records = Some e \<and> operation_state i (records @ later) = Some e'
    \<and> (if i \<in> record_id ` set later then phase_of e < phase_of e' else e = e')"
  using assms[unfolded pending_with_evidence_iff, THEN conjunct1]
proof (induction later rule: rev_induct)
  case Nil
  then show ?case by auto
next
  case (snoc r later)
  have "\<forall>i. operation_state i (records @ later) \<noteq> None"
    using snoc.prems by (metis append_assoc bind_eq_None_conv scan.operation_state_snoc)
  from snoc.IH [OF this] obtain e e' where e: "operation_state i records = Some e"
      "operation_state i (records @ later) = Some e'"
      "if i \<in> record_id ` set later then phase_of e < phase_of e' else e = e'" by blast
  obtain e'' where e'': "operation_state i (records @ later @ [r]) = Some e''" using snoc.prems by blast
  then have step: "if i = record_id r then evidence_step e' r = Some e'' else e'' = e'"
    using e(2) scan.operation_state_snoc [of i "records @ later" r] by (auto split: if_splits)
  show ?case
    using e e'' step evidence_step_phase [of e' r e'']
    by (auto split: if_splits intro: less_trans)
qed

theorem journal_phase_monotone_witness:
  "\<exists>e e'. operation_state ''a'' (take 3 demo_records) = Some e \<and> operation_state ''a'' demo_records = Some e'
     \<and> phase_of e < phase_of e'"
proof -
  have "pending_with_evidence (take 3 demo_records @ drop 3 demo_records) = Ok demo_pending"
    by (simp only: append_take_drop_id demo_scan)
  from journal_phase_monotone [OF this, of "''a''"] show ?thesis
    by (simp add: demo_records_def)
qed

end
