(* ===== verification/Sha256.thy ===== *)
theory Sha256
  imports State
begin

text \<open>
  The SHA-256 of \<open>spotter-svc/src/operation_journal.rs\<close>, which names quarantined journals: padding,
  message schedule, 64 rounds on eight 32-bit words with wrap-around addition, and the hexadecimal
  rendering.
\<close>

section \<open>The function\<close>

text \<open>Row by row, as the source lists them.\<close>

definition round_constants :: "u32 list" where
  "round_constants = concat
    [[0x428a2f98, 0x71374491, 0xb5c0fbcf, 0xe9b5dba5, 0x3956c25b, 0x59f111f1, 0x923f82a4],
     [0xab1c5ed5, 0xd807aa98, 0x12835b01, 0x243185be, 0x550c7dc3, 0x72be5d74, 0x80deb1fe],
     [0x9bdc06a7, 0xc19bf174, 0xe49b69c1, 0xefbe4786, 0x0fc19dc6, 0x240ca1cc, 0x2de92c6f],
     [0x4a7484aa, 0x5cb0a9dc, 0x76f988da, 0x983e5152, 0xa831c66d, 0xb00327c8, 0xbf597fc7],
     [0xc6e00bf3, 0xd5a79147, 0x06ca6351, 0x14292967, 0x27b70a85, 0x2e1b2138, 0x4d2c6dfc],
     [0x53380d13, 0x650a7354, 0x766a0abb, 0x81c2c92e, 0x92722c85, 0xa2bfe8a1, 0xa81a664b],
     [0xc24b8b70, 0xc76c51a3, 0xd192e819, 0xd6990624, 0xf40e3585, 0x106aa070, 0x19a4c116],
     [0x1e376c08, 0x2748774c, 0x34b0bcb5, 0x391c0cb3, 0x4ed8aa4a, 0x5b9cca4f, 0x682e6ff3],
     [0x748f82ee, 0x78a5636f, 0x84c87814, 0x8cc70208, 0x90befffa, 0xa4506ceb, 0xbef9a3f7],
     [0xc67178f2]]"

definition initial_state :: "u32 list" where
  "initial_state = [0x6a09e667, 0xbb67ae85, 0x3c6ef372, 0xa54ff53a, 0x510e527f, 0x9b05688c, 0x1f83d9ab, 0x5be0cd19]"

definition from_be_bytes :: "u8 list \<Rightarrow> u32" where
  "from_be_bytes bs = foldl (\<lambda>w b. push_bit 8 w OR ucast b) 0 bs"

definition to_be_bytes :: "u32 \<Rightarrow> u8 list" where
  "to_be_bytes w = [ucast (drop_bit 24 w), ucast (drop_bit 16 w), ucast (drop_bit 8 w), ucast w]"

definition u64_to_be_bytes :: "u64 \<Rightarrow> u8 list" where
  "u64_to_be_bytes w = map (\<lambda>i. ucast (drop_bit (8 * (7 - i)) w)) [0..<8]"

function pad_zeros :: "u8 list \<Rightarrow> u8 list" where
  "pad_zeros padded = (if length padded mod 64 \<noteq> 56 then pad_zeros (padded @ [0]) else padded)"
  by pat_completeness auto
termination
proof (relation "measure (\<lambda>padded. (120 - length padded mod 64) mod 64)")
  fix padded :: "u8 list"
  define r where "r = length padded mod 64"
  assume "length padded mod 64 \<noteq> 56"
  then have r: "r \<noteq> 56" "r < 64" by (simp_all add: r_def)
  have "(120 - Suc (length padded) mod 64) mod 64 < (120 - length padded mod 64) mod 64"
  proof (cases "r < 56")
    case True
    then have "(120 - r) mod 64 = 56 - r" "(120 - Suc r) mod 64 = 55 - r" by (simp_all add: mod_if)
    with True show ?thesis by (simp add: mod_Suc r_def [symmetric])
  next
    case False
    then have "(120 - r) mod 64 = 120 - r" using r by simp
    with False r show ?thesis by (cases "r = 63") (simp_all add: mod_Suc r_def [symmetric])
  qed
  then show "(padded @ [0], padded) \<in> measure (\<lambda>padded. (120 - length padded mod 64) mod 64)" by simp
qed simp

declare pad_zeros.simps [simp del]

definition pad_message :: "u8 list \<Rightarrow> u8 list" where
  "pad_message bytes = pad_zeros (bytes @ [0x80]) @ u64_to_be_bytes (of_nat (length bytes) * 8)"

definition first_words :: "u8 list \<Rightarrow> u32 list" where
  "first_words chunk = map (\<lambda>i. from_be_bytes (take 4 (drop (4 * i) chunk))) [0..<16]"

definition next_word :: "u32 list \<Rightarrow> nat \<Rightarrow> u32" where
  "next_word ws i =
     (let s0 = word_rotr 7 (ws ! (i - 15)) XOR word_rotr 18 (ws ! (i - 15)) XOR drop_bit 3 (ws ! (i - 15));
          s1 = word_rotr 17 (ws ! (i - 2)) XOR word_rotr 19 (ws ! (i - 2)) XOR drop_bit 10 (ws ! (i - 2))
      in ws ! (i - 16) + s0 + ws ! (i - 7) + s1)"

definition schedule :: "u8 list \<Rightarrow> u32 list" where
  "schedule chunk = foldl (\<lambda>ws i. ws @ [next_word ws i]) (first_words chunk) [16..<64]"

fun compress_round :: "u32 list \<Rightarrow> u32 \<times> u32 \<Rightarrow> u32 list" where
  "compress_round [a, b, c, d, e, f, g, h] (k, w) =
     (let s1 = word_rotr 6 e XOR word_rotr 11 e XOR word_rotr 25 e;
          chosen = (e AND f) XOR (NOT e AND g);
          temp1 = h + s1 + chosen + k + w;
          s0 = word_rotr 2 a XOR word_rotr 13 a XOR word_rotr 22 a;
          majority = (a AND b) XOR (a AND c) XOR (b AND c);
          temp2 = s0 + majority
      in [temp1 + temp2, a, b, c, d + temp1, e, f, g])"
| "compress_round ws _ = ws"

definition compress :: "u32 list \<Rightarrow> u8 list \<Rightarrow> u32 list" where
  "compress state chunk =
     map2 (+) state (foldl compress_round state (zip round_constants (schedule chunk)))"

fun chunks64 :: "u8 list \<Rightarrow> u8 list list" where
  "chunks64 bs = (if length bs < 64 then [] else take 64 bs # chunks64 (drop 64 bs))"

declare chunks64.simps [simp del]

definition sha256 :: "u8 list \<Rightarrow> u8 list" where
  "sha256 bytes = concat (map to_be_bytes (foldl compress initial_state (chunks64 (pad_message bytes))))"

definition sha256_hex :: "u8 list \<Rightarrow> string" where
  "sha256_hex bytes = encode_hex (sha256 bytes)"

section \<open>Facts\<close>

lemma pad_zeros_shape: "\<exists>n. pad_zeros bs = bs @ replicate n 0 \<and> length (pad_zeros bs) mod 64 = 56"
proof (induction bs rule: pad_zeros.induct)
  case (1 bs)
  show ?case
  proof (cases "length bs mod 64 = 56")
    case True
    then have "pad_zeros bs = bs @ replicate 0 0" by (simp add: pad_zeros.simps [of bs])
    with True show ?thesis by (metis append_Nil2 replicate_0)
  next
    case False
    with 1 obtain n where n: "pad_zeros (bs @ [0]) = (bs @ [0]) @ replicate n 0"
        "length (pad_zeros (bs @ [0])) mod 64 = 56" by blast
    moreover have "pad_zeros bs = pad_zeros (bs @ [0])" using False by (subst pad_zeros.simps) simp
    ultimately have "pad_zeros bs = bs @ replicate (Suc n) 0" "length (pad_zeros bs) mod 64 = 56" by simp_all
    then show ?thesis by blast
  qed
qed

lemma pad_message_length: "length (pad_message bytes) mod 64 = 0"
proof -
  obtain n where "length (pad_zeros (bytes @ [0x80])) mod 64 = 56" using pad_zeros_shape by blast
  then show ?thesis by (simp add: pad_message_def u64_to_be_bytes_def) presburger
qed

lemma compress_round_length: "length (compress_round ws p) = length ws"
  by (cases "(ws, p)" rule: compress_round.cases) (simp_all add: Let_def)

lemma compress_length: "length state = 8 \<Longrightarrow> length (compress state chunk) = 8"
proof -
  have "length (foldl compress_round state ps) = length state" for ps
    by (induction ps arbitrary: state) (simp_all add: compress_round_length)
  then show "length state = 8 \<Longrightarrow> ?thesis" by (simp add: compress_def)
qed

lemma sha256_length: "length (sha256 bytes) = 32"
proof -
  have "length (foldl compress state cs) = 8" if "length state = 8" for state cs
    using that by (induction cs arbitrary: state) (simp_all add: compress_length)
  then have "length (foldl compress initial_state (chunks64 (pad_message bytes))) = 8"
    by (simp add: initial_state_def)
  then show ?thesis
    by (simp add: sha256_def length_concat to_be_bytes_def o_def sum_list_triv)
qed

lemma hex_char_hex: "unat n < 16 \<Longrightarrow> hex_char n \<in> set ''0123456789abcdef''"
  unfolding hex_char_def by (rule nth_mem) simp

lemma encode_hex_chars: "set (encode_hex bs) \<subseteq> set ''0123456789abcdef''"
proof -
  obtain D where D: "D = set ''0123456789abcdef''" by simp
  have "set (encode_hex bs) \<subseteq> D"
  proof (induction bs)
    case (Cons b bs)
    have "hex_char (drop_bit 4 b) \<in> D" "hex_char (b AND 0x0f) \<in> D"
      unfolding D by (rule hex_char_hex, rule nibble_bounds)+
    with Cons show ?case by simp
  qed simp
  then show ?thesis unfolding D .
qed

text \<open>
  The digest that names a quarantined journal is always 64 lower-case hexadecimal digits, so
  that taking its first sixteen characters is in range and the name holds no path separator; the
  padding loop ends for every message, at a multiple of 64 bytes.
\<close>

theorem sha256_hex_shape:
  "length (sha256_hex bytes) = 64 \<and> set (sha256_hex bytes) \<subseteq> set ''0123456789abcdef''
   \<and> length (pad_message bytes) mod 64 = 0 \<and> take (length bytes) (pad_message bytes) = bytes"
proof -
  obtain n where "pad_zeros (bytes @ [0x80]) = (bytes @ [0x80]) @ replicate n 0" using pad_zeros_shape by blast
  then have "take (length bytes) (pad_message bytes) = bytes" by (simp add: pad_message_def)
  then show ?thesis
    by (simp only: sha256_hex_def encode_hex_length sha256_length encode_hex_chars pad_message_length) simp
qed

end
