(* ===== verification/JournalStore.thy ===== *)
theory JournalStore
  imports Journal Sha256 Config
begin

text \<open>
  \<open>spotter-svc/src/operation_journal.rs\<close>, the file: classification of the journal's bytes, recovery
  before replay with its quarantine artifacts and its sticky marker, append, compaction and the
  guard on remote identity changes.  The disk is explicit state; a record of faults says which
  file operations fail.  The line codec of serde is a parameter: the decoder answers a record, or
  an error with the flag \<open>is_eof\<close>.
\<close>

section \<open>Outcomes\<close>

datatype recovery_reason =
    IncompleteUnterminatedSuffix | MalformedFinalRecord | MalformedMiddleRecord
  | InvalidPhaseSequence | BlockedMarkerPresent | UnreadableJournal

definition recovery_reason_text :: "recovery_reason \<Rightarrow> string" where
  "recovery_reason_text r = (case r of
     IncompleteUnterminatedSuffix \<Rightarrow> ''incomplete unterminated journal suffix''
   | MalformedFinalRecord \<Rightarrow> ''malformed final journal record''
   | MalformedMiddleRecord \<Rightarrow> ''malformed middle journal record''
   | InvalidPhaseSequence \<Rightarrow> ''invalid journal phase sequence''
   | BlockedMarkerPresent \<Rightarrow> ''journal recovery is already blocked''
   | UnreadableJournal \<Rightarrow> ''journal could not be read'')"

record operator_recovery =
  or_reason :: recovery_reason
  or_evidence_paths :: "string list"
  or_validated_record_count :: nat

datatype preservation_failure = QuarantineWrite | MarkerWrite | Replacement

datatype recovery_outcome =
    Clean "journal_record list"
  | NeedsOperatorRecovery operator_recovery
  | PreservationFailed preservation_failure
  | Corrupt recovery_reason

definition preservation_failure_text :: "preservation_failure \<Rightarrow> string" where
  "preservation_failure_text f = (case f of
     QuarantineWrite \<Rightarrow> ''quarantine write failed''
   | MarkerWrite \<Rightarrow> ''recovery marker write failed''
   | Replacement \<Rightarrow> ''journal replacement failed'')"

type_synonym line_decoder = "u8 list \<Rightarrow> (journal_record, bool) result"

section \<open>Classification\<close>

definition newline :: u8 where
  "newline = 10"

text \<open>\<open>bytes.split(|byte| *byte == b'\n')\<close>\<close>

fun split_lines :: "u8 list \<Rightarrow> u8 list list" where
  "split_lines [] = [[]]"
| "split_lines (b # bs) =
     (if b = newline then [] # split_lines bs
      else case split_lines bs of line # lines \<Rightarrow> (b # line) # lines | [] \<Rightarrow> [[b]])"

fun classify_lines ::
  "line_decoder \<Rightarrow> bool \<Rightarrow> journal_record list \<Rightarrow> u8 list list
     \<Rightarrow> (journal_record list, recovery_outcome) result" where
  "classify_lines decode terminal_newline records [] = Ok records"
| "classify_lines decode terminal_newline records (line # lines) =
     (case decode line of
        Ok r \<Rightarrow> classify_lines decode terminal_newline (records @ [r]) lines
      | Err is_eof \<Rightarrow>
          if \<not> terminal_newline \<and> lines = [] \<and> is_eof
          then Err (NeedsOperatorRecovery \<lparr>or_reason = IncompleteUnterminatedSuffix,
                      or_evidence_paths = [], or_validated_record_count = length records\<rparr>)
          else if lines = [] then Err (Corrupt MalformedFinalRecord)
          else Err (Corrupt MalformedMiddleRecord))"

text \<open>The outcome, and whether a terminal newline is to be added.\<close>

definition classify_bytes_internal :: "line_decoder \<Rightarrow> u8 list \<Rightarrow> recovery_outcome \<times> bool" where
  "classify_bytes_internal decode bytes =
     (if bytes = [] then (Clean [], False)
      else
        let terminal_newline = (last bytes = newline);
            lines = split_lines bytes;
            record_lines = (if terminal_newline then take (length lines - 1) lines else lines)
        in case classify_lines decode terminal_newline [] record_lines of
             Err outcome \<Rightarrow> (outcome, False)
           | Ok records \<Rightarrow>
               if \<not> is_ok (pending_with_evidence records) then (Corrupt InvalidPhaseSequence, False)
               else (Clean records, \<not> terminal_newline))"

definition classify_bytes :: "line_decoder \<Rightarrow> u8 list \<Rightarrow> recovery_outcome" where
  "classify_bytes decode bytes = fst (classify_bytes_internal decode bytes)"

section \<open>The disk\<close>

text \<open>
  The journal's file name and its content, the content of the blocked marker, and the other files
  of the directory.  A fault of a write says whether and how much of it reached the disk.
\<close>

record journal_disk =
  jd_name :: string
  jd_active :: "u8 list option"
  jd_marker :: "string option"
  jd_files :: "(string \<times> u8 list) list"

datatype write_fault = NoFault | NothingWritten | PartlyWritten nat

text \<open>
  What an atomic replacement leaves: the new file; the old one; the new one with a failure after
  the rename; or, when \<open>ReplaceFileW\<close> fails between its two renames, no file under the name.
\<close>

datatype replace_outcome = Replaced | NotReplaced | ReplacedUnflushed | DestinationLost

record journal_faults =
  clock_millis :: nat
  clock_text :: string
  marker_inspect_fails :: bool
  read_fails :: bool
  quarantine_fault :: write_fault
  marker_fault :: write_fault
  replace_fault :: replace_outcome
  append_fault :: write_fault

definition MARKER_SUFFIX :: string where
  "MARKER_SUFFIX = ''.recovery-blocked''"

definition QUARANTINE_PREFIX :: string where
  "QUARANTINE_PREFIX = ''.quarantine-''"

definition blocked_marker_path :: "string \<Rightarrow> string" where
  "blocked_marker_path name = name @ MARKER_SUFFIX"

text \<open>\<open>{nonce:016x}\<close>\<close>

definition hex16 :: "nat \<Rightarrow> string" where
  "hex16 n = map (\<lambda>i. hex_char (of_nat (n div 16 ^ (15 - i) mod 16))) [0..<16]"

definition quarantine_path :: "string \<Rightarrow> nat \<Rightarrow> string \<Rightarrow> nat \<Rightarrow> string" where
  "quarantine_path name timestamp digest nonce =
     name @ QUARANTINE_PREFIX @ dec_nat timestamp @ ''-'' @ digest
       @ (if nonce = 0 then [] else ''-'' @ hex16 nonce)"

definition recovery_marker_present :: "journal_faults \<Rightarrow> journal_disk \<Rightarrow> bool option" where
  "recovery_marker_present io d = (if marker_inspect_fails io then None else Some (jd_marker d \<noteq> None))"

text \<open>The first of 64 names that does not exist yet is created and written.\<close>

definition write_quarantine ::
  "journal_faults \<Rightarrow> journal_disk \<Rightarrow> u8 list \<Rightarrow> string option \<times> journal_disk" where
  "write_quarantine io d bytes =
     (if quarantine_fault io = NothingWritten then (None, d)
      else
        let digest = take 16 (sha256_hex bytes)
        in case find (\<lambda>path. path \<notin> fst ` set (jd_files d))
                  (map (quarantine_path (jd_name d) (clock_millis io) digest) [0..<64]) of
             None \<Rightarrow> (None, d)
           | Some path \<Rightarrow>
               (case quarantine_fault io of
                  PartlyWritten n \<Rightarrow> (None, d\<lparr>jd_files := (path, take n bytes) # jd_files d\<rparr>)
                | _ \<Rightarrow> (Some path, d\<lparr>jd_files := (path, bytes) # jd_files d\<rparr>)))"

definition marker_body :: "journal_faults \<Rightarrow> recovery_reason \<Rightarrow> string list \<Rightarrow> string" where
  "marker_body io reason evidence =
     ''reason='' @ recovery_reason_text reason @ [CHR 0x0A] @ ''timestamp='' @ clock_text io @ [CHR 0x0A]
     @ ''evidence_paths='' @ [CHR 0x0A] @ concat (map (\<lambda>path. path @ [CHR 0x0A]) evidence)"

definition write_blocked_marker ::
  "journal_faults \<Rightarrow> journal_disk \<Rightarrow> recovery_reason \<Rightarrow> string list \<Rightarrow> bool \<times> journal_disk" where
  "write_blocked_marker io d reason evidence =
     (case marker_fault io of
        NothingWritten \<Rightarrow> (False, d)
      | fault \<Rightarrow>
          if jd_marker d \<noteq> None then (True, d)
          else (case fault of
                  PartlyWritten n \<Rightarrow> (False, d\<lparr>jd_marker := Some (take n (marker_body io reason evidence))\<rparr>)
                | _ \<Rightarrow> (True, d\<lparr>jd_marker := Some (marker_body io reason evidence)\<rparr>)))"

text \<open>
  \<open>atomic_file::write\<close> as its caller sees it: the old or the new content, never a mixture.  A
  failure after the rename leaves the new content, and on Windows a failed \<open>ReplaceFileW\<close> may leave
  no file at all.  The theory Replacement shows that these are the outcomes of the detailed model.
\<close>

definition replace_journal :: "journal_faults \<Rightarrow> journal_disk \<Rightarrow> u8 list \<Rightarrow> bool \<times> journal_disk" where
  "replace_journal io d bytes =
     (case replace_fault io of
        Replaced \<Rightarrow> (True, d\<lparr>jd_active := Some bytes\<rparr>)
      | NotReplaced \<Rightarrow> (False, d)
      | ReplacedUnflushed \<Rightarrow> (False, d\<lparr>jd_active := Some bytes\<rparr>)
      | DestinationLost \<Rightarrow> (False, d\<lparr>jd_active := None\<rparr>))"

section \<open>Recovery\<close>

definition preserve_non_clean ::
  "journal_faults \<Rightarrow> journal_disk \<Rightarrow> u8 list \<Rightarrow> recovery_outcome \<Rightarrow> recovery_outcome \<times> journal_disk" where
  "preserve_non_clean io d bytes outcome =
     (let preserve = (\<lambda>reason count.
        case write_quarantine io d bytes of
          (None, d1) \<Rightarrow> (PreservationFailed QuarantineWrite, d1)
        | (Some quarantine, d1) \<Rightarrow>
            if reason = IncompleteUnterminatedSuffix then
              (case write_blocked_marker io d1 reason [quarantine] of
                 (False, d2) \<Rightarrow> (PreservationFailed MarkerWrite, d2)
               | (True, d2) \<Rightarrow>
                   (NeedsOperatorRecovery \<lparr>or_reason = reason,
                      or_evidence_paths = [quarantine, blocked_marker_path (jd_name d)],
                      or_validated_record_count = count\<rparr>, d2))
            else (Corrupt reason, d1))
      in case outcome of
           NeedsOperatorRecovery recovery \<Rightarrow> preserve (or_reason recovery) (or_validated_record_count recovery)
         | Corrupt reason \<Rightarrow> preserve reason 0
         | PreservationFailed failure \<Rightarrow> (PreservationFailed failure, d)
         | Clean records \<Rightarrow> (Clean records, d))"

definition recover_journal_with ::
  "line_decoder \<Rightarrow> journal_faults \<Rightarrow> journal_disk \<Rightarrow> u8 list \<Rightarrow> recovery_outcome \<times> journal_disk" where
  "recover_journal_with decode io d bytes =
     (case classify_bytes_internal decode bytes of
        (Clean records, normalize_terminal_newline) \<Rightarrow>
          if \<not> normalize_terminal_newline then (Clean records, d)
          else
            (case write_quarantine io d bytes of
               (None, d1) \<Rightarrow> (PreservationFailed QuarantineWrite, d1)
             | (Some quarantine, d1) \<Rightarrow>
                 let normalized = bytes @ [newline]
                 in case replace_journal io d1 normalized of
                      (False, d2) \<Rightarrow> (PreservationFailed Replacement, d2)
                    | (True, d2) \<Rightarrow>
                        (case classify_bytes decode normalized of
                           Clean records' \<Rightarrow> (Clean records', d2)
                         | _ \<Rightarrow> (PreservationFailed Replacement, d2)))
      | (outcome, _) \<Rightarrow> preserve_non_clean io d bytes outcome)"

text \<open>An error is \<open>None\<close>: the marker could not be inspected or the journal could not be read.\<close>

definition recover_journal ::
  "line_decoder \<Rightarrow> journal_faults \<Rightarrow> journal_disk \<Rightarrow> recovery_outcome option \<times> journal_disk" where
  "recover_journal decode io d =
     (case recovery_marker_present io d of
        None \<Rightarrow> (None, d)
      | Some True \<Rightarrow>
          (Some (NeedsOperatorRecovery \<lparr>or_reason = BlockedMarkerPresent,
             or_evidence_paths = [blocked_marker_path (jd_name d)], or_validated_record_count = 0\<rparr>), d)
      | Some False \<Rightarrow>
          (if read_fails io then (None, d)
           else case jd_active d of
             None \<Rightarrow> (Some (Clean []), d)
           | Some bytes \<Rightarrow> (case recover_journal_with decode io d bytes of (outcome, d') \<Rightarrow> (Some outcome, d'))))"

section \<open>Append and compaction\<close>

text \<open>
  The encoder answers the bytes of a record.  A failed append may leave any prefix of the line.
\<close>

definition append_record ::
  "(journal_record \<Rightarrow> u8 list) \<Rightarrow> journal_faults \<Rightarrow> journal_disk \<Rightarrow> journal_record \<Rightarrow> bool \<times> journal_disk" where
  "append_record encode io d r =
     (case recovery_marker_present io d of
        Some False \<Rightarrow>
          let old = (case jd_active d of Some bytes \<Rightarrow> bytes | None \<Rightarrow> []);
              line = encode r @ [newline]
          in (case append_fault io of
                NoFault \<Rightarrow> (True, d\<lparr>jd_active := Some (old @ line)\<rparr>)
              | NothingWritten \<Rightarrow> (False, d)
              | PartlyWritten n \<Rightarrow> (False, d\<lparr>jd_active := Some (old @ take n line)\<rparr>))
      | _ \<Rightarrow> (False, d))"

definition compact ::
  "(journal_record \<Rightarrow> u8 list) \<Rightarrow> journal_faults \<Rightarrow> journal_disk \<Rightarrow> journal_record list \<Rightarrow> bool \<times> journal_disk" where
  "compact encode io d records =
     (case recovery_marker_present io d of
        Some False \<Rightarrow>
          (case pending_with_evidence records of
             Err _ \<Rightarrow> (False, d)
           | Ok pending \<Rightarrow>
               replace_journal io d (concat (map (\<lambda>r. encode r @ [newline]) (compact_records pending))))
      | _ \<Rightarrow> (False, d))"

section \<open>The remote identity guard\<close>

definition remote_identity_changed :: "settings \<Rightarrow> settings \<Rightarrow> bool" where
  "remote_identity_changed current candidate \<longleftrightarrow>
     url (s_snipeit current) \<noteq> url (s_snipeit candidate)
     \<or> checkout_status_id (s_snipeit current) \<noteq> checkout_status_id (s_snipeit candidate)
     \<or> checkin_status_id (s_snipeit current) \<noteq> checkin_status_id (s_snipeit candidate)"

definition guard_remote_identity_change ::
  "line_decoder \<Rightarrow> journal_faults \<Rightarrow> journal_disk \<Rightarrow> settings \<Rightarrow> settings
     \<Rightarrow> (unit, string) result \<times> journal_disk" where
  "guard_remote_identity_change decode io d current candidate =
     (if \<not> remote_identity_changed current candidate then (Ok (), d)
      else
        case recover_journal decode io d of
          (None, d') \<Rightarrow> (Err ''cannot change remote identity while operation journal is invalid'', d')
        | (Some (Clean records), d') \<Rightarrow>
            (case pending_with_evidence records of
               Err _ \<Rightarrow> (Err ''cannot change remote identity while operation journal is invalid'', d')
             | Ok pending \<Rightarrow>
                 if pending \<noteq> [] then (Err ''cannot change remote identity while operations are pending'', d')
                 else (Ok (), d'))
        | (Some _, d') \<Rightarrow>
            (Err ''cannot change remote identity while operation journal recovery is blocked'', d'))"

section \<open>Facts about lines\<close>

lemma split_lines_nonempty [simp]: "split_lines bs \<noteq> []"
  by (cases bs) (simp_all split: list.splits)

lemma split_lines_plain: "newline \<notin> set l \<Longrightarrow> split_lines l = [l]"
  by (induction l) auto

lemma split_lines_line: "newline \<notin> set l \<Longrightarrow> split_lines (l @ newline # rest) = l # split_lines rest"
  by (induction l) (auto split: list.splits)

lemma split_lines_snoc: "split_lines (bs @ [newline]) = split_lines bs @ [[]]"
proof (induction bs)
  case (Cons b bs)
  then show ?case by (cases "split_lines bs") auto
qed simp

lemma split_lines_last: "bs \<noteq> [] \<Longrightarrow> last bs = newline \<Longrightarrow> \<exists>ls. split_lines bs = ls @ [[]] \<and> bs = butlast bs @ [newline]"
  by (metis append_butlast_last_id split_lines_snoc)

text \<open>The bytes of a journal of records.\<close>

definition journal_bytes :: "(journal_record \<Rightarrow> u8 list) \<Rightarrow> journal_record list \<Rightarrow> u8 list" where
  "journal_bytes encode rs = concat (map (\<lambda>r. encode r @ [newline]) rs)"

text \<open>The codec is faithful on these records: compact JSON holds no line break and parses back.\<close>

definition codec_faithful :: "(journal_record \<Rightarrow> u8 list) \<Rightarrow> line_decoder \<Rightarrow> journal_record list \<Rightarrow> bool" where
  "codec_faithful encode decode rs \<longleftrightarrow> (\<forall>r\<in>set rs. decode (encode r) = Ok r \<and> newline \<notin> set (encode r))"

lemma split_journal_bytes:
  "codec_faithful encode decode rs \<Longrightarrow> split_lines (journal_bytes encode rs @ rest) = map encode rs @ split_lines rest"
  by (induction rs) (auto simp: journal_bytes_def codec_faithful_def split_lines_line)

lemma classify_lines_append:
  "codec_faithful encode decode rs \<Longrightarrow>
     classify_lines decode nl acc (map encode rs @ ls) = classify_lines decode nl (acc @ rs) ls"
  by (induction rs arbitrary: acc) (auto simp: codec_faithful_def)

lemma journal_bytes_Nil: "journal_bytes encode rs = [] \<longleftrightarrow> rs = []"
  by (cases rs) (simp_all add: journal_bytes_def)

lemma journal_bytes_snoc: "journal_bytes encode (rs @ [r]) = journal_bytes encode rs @ encode r @ [newline]"
  by (simp add: journal_bytes_def)

lemma journal_bytes_last: "rs \<noteq> [] \<Longrightarrow> last (journal_bytes encode rs) = newline"
  by (cases rs rule: rev_cases) (simp_all add: journal_bytes_snoc)

lemma classify_journal_bytes:
  assumes "codec_faithful encode decode rs" "pending_with_evidence rs = Ok ps"
  shows "classify_bytes_internal decode (journal_bytes encode rs) = (Clean rs, False)"
proof (cases "rs = []")
  case False
  have "classify_lines decode True [] (map encode rs) = Ok rs"
    using classify_lines_append [OF assms(1), of True "[]" "[]"] by simp
  then show ?thesis
    using False split_journal_bytes [OF assms(1), of "[]"] assms(2)
    by (simp add: classify_bytes_internal_def journal_bytes_Nil journal_bytes_last)
qed (simp add: classify_bytes_internal_def journal_bytes_def)

text \<open>Adding the terminal newline to a clean unterminated journal keeps its classification.\<close>

lemma classify_lines_terminal:
  "classify_lines decode False acc ls = Ok rs \<Longrightarrow> classify_lines decode True acc ls = Ok rs"
  by (induction ls arbitrary: acc) (auto split: result.splits if_splits)

lemma classify_normalized:
  assumes "classify_bytes_internal decode bytes = (Clean rs, True)"
  shows "classify_bytes_internal decode (bytes @ [newline]) = (Clean rs, False)"
proof -
  from assms have b: "bytes \<noteq> []" "last bytes \<noteq> newline"
      "classify_lines decode False [] (split_lines bytes) = Ok rs" "is_ok (pending_with_evidence rs)"
    by (auto simp: classify_bytes_internal_def Let_def split: if_splits result.splits)
  then show ?thesis
    using classify_lines_terminal [OF b(3)] by (simp add: classify_bytes_internal_def split_lines_snoc)
qed

lemma classify_lines_not_clean: "classify_lines decode nl acc ls \<noteq> Err (Clean rs)"
  by (induction ls arbitrary: acc) (auto split: result.splits)

lemma classify_clean_pending:
  "classify_bytes_internal decode bytes = (Clean rs, nl) \<Longrightarrow> is_ok (pending_with_evidence rs)"
  by (auto simp: classify_bytes_internal_def Let_def classify_lines_not_clean
      split: if_splits result.splits)
     (simp add: pending_with_evidence_def)

section \<open>Facts about recovery\<close>

lemma write_quarantine_active [simp]:
  "jd_active (snd (write_quarantine io d bytes)) = jd_active d"
  "jd_marker (snd (write_quarantine io d bytes)) = jd_marker d"
  "jd_name (snd (write_quarantine io d bytes)) = jd_name d"
  by (auto simp: write_quarantine_def Let_def split: option.splits write_fault.splits)

lemma write_quarantine_Some:
  "write_quarantine io d bytes = (Some path, d1) \<Longrightarrow> (path, bytes) \<in> set (jd_files d1)"
  by (auto simp: write_quarantine_def Let_def split: option.splits write_fault.splits if_splits)

lemma write_quarantine_keeps: "set (jd_files d) \<subseteq> set (jd_files (snd (write_quarantine io d bytes)))"
  by (auto simp: write_quarantine_def Let_def split: option.splits write_fault.splits)

lemma write_blocked_marker_active [simp]:
  "jd_active (snd (write_blocked_marker io d reason evidence)) = jd_active d"
  "jd_files (snd (write_blocked_marker io d reason evidence)) = jd_files d"
  by (auto simp: write_blocked_marker_def split: option.splits write_fault.splits)

lemma write_blocked_marker_True:
  "write_blocked_marker io d reason evidence = (True, d1) \<Longrightarrow> jd_marker d1 \<noteq> None"
  by (auto simp: write_blocked_marker_def split: option.splits write_fault.splits if_splits)

lemma write_quarantine_pair:
  "write_quarantine io d bytes = (q, d1) \<Longrightarrow> jd_active d1 = jd_active d \<and> jd_marker d1 = jd_marker d \<and> jd_name d1 = jd_name d"
  by (metis snd_conv write_quarantine_active)

lemma write_blocked_marker_pair:
  "write_blocked_marker io d reason evidence = (b, d1) \<Longrightarrow> jd_active d1 = jd_active d \<and> jd_files d1 = jd_files d"
  by (metis snd_conv write_blocked_marker_active)

lemma preserve_not_clean:
  assumes "\<And>rs. outcome \<noteq> Clean rs" "preserve_non_clean io d bytes outcome = (outcome', d')"
  shows "outcome' \<noteq> Clean rs \<and> jd_active d' = jd_active d"
  using assms(2)
  by (cases outcome)
     (auto simp: preserve_non_clean_def Let_def assms(1) dest!: write_quarantine_pair write_blocked_marker_pair
        split: prod.splits option.splits if_splits bool.splits)

lemma replace_journal_pair:
  "replace_journal io d bytes = (b, d1) \<Longrightarrow> jd_marker d1 = jd_marker d \<and> jd_files d1 = jd_files d
     \<and> (jd_active d1 = Some bytes \<or> \<not> b \<and> (d1 = d \<or> jd_active d1 = None))"
  by (auto simp: replace_journal_def split: replace_outcome.splits)

text \<open>What recovery of given bytes can do: nothing to the journal, or normalization of clean bytes.\<close>

lemma recover_with_cases:
  assumes "recover_journal_with decode io d bytes = (outcome, d')"
  shows "(\<exists>rs. outcome = Clean rs \<and> classify_bytes_internal decode bytes = (Clean rs, False) \<and> d' = d)
    \<or> (\<exists>rs path. outcome = Clean rs \<and> classify_bytes_internal decode bytes = (Clean rs, True)
         \<and> jd_active d' = Some (bytes @ [newline]) \<and> jd_marker d' = jd_marker d \<and> (path, bytes) \<in> set (jd_files d'))
    \<or> (\<exists>rs path. outcome = PreservationFailed Replacement \<and> classify_bytes_internal decode bytes = (Clean rs, True)
         \<and> (jd_active d' = Some (bytes @ [newline]) \<or> jd_active d' = None)
         \<and> jd_marker d' = jd_marker d \<and> (path, bytes) \<in> set (jd_files d'))
    \<or> (\<forall>rs. outcome \<noteq> Clean rs) \<and> jd_active d' = jd_active d"
proof -
  obtain oc nl where oc: "classify_bytes_internal decode bytes = (oc, nl)" by (cases "classify_bytes_internal decode bytes")
  show ?thesis
  proof (cases "\<exists>rs. oc = Clean rs")
    case False
    then have "preserve_non_clean io d bytes oc = (outcome, d')"
      using assms oc by (cases oc) (auto simp: recover_journal_with_def)
    then show ?thesis using preserve_not_clean [of oc io d bytes outcome d'] False by blast
  next
    case True
    then obtain rs where rs: "oc = Clean rs" by blast
    show ?thesis
    proof (cases nl)
      case False
      then show ?thesis using assms oc rs by (auto simp: recover_journal_with_def)
    next
      case True
      with oc rs have c: "classify_bytes_internal decode bytes = (Clean rs, True)" by simp
      have n: "classify_bytes decode (bytes @ [newline]) = Clean rs"
        by (simp add: classify_bytes_def classify_normalized [OF c])
      obtain q d1 where q: "write_quarantine io d bytes = (q, d1)" by (cases "write_quarantine io d bytes")
      obtain b d2 where b: "replace_journal io d1 (bytes @ [newline]) = (b, d2)"
        by (cases "replace_journal io d1 (bytes @ [newline])")
      show ?thesis
      proof (cases q)
        case None
        then have "outcome = PreservationFailed QuarantineWrite" "d' = d1"
          using assms c q by (simp_all add: recover_journal_with_def)
        then show ?thesis using write_quarantine_pair [OF q] by simp
      next
        case (Some path)
        then have r: "outcome = (if b then Clean rs else PreservationFailed Replacement)" "d' = d2"
          using assms c q b n by (auto simp: recover_journal_with_def split: bool.splits)
        have w: "jd_active d1 = jd_active d" "jd_marker d1 = jd_marker d" "(path, bytes) \<in> set (jd_files d1)"
          using write_quarantine_pair [OF q] write_quarantine_Some q Some by auto
        from replace_journal_pair [OF b] consider "jd_active d2 = Some (bytes @ [newline])"
            "jd_marker d2 = jd_marker d1" "jd_files d2 = jd_files d1" | "\<not> b" "d2 = d1"
          | "\<not> b" "jd_active d2 = None" "jd_marker d2 = jd_marker d1" "jd_files d2 = jd_files d1" by metis
        then show ?thesis using r w c by cases auto
      qed
    qed
  qed
qed

lemma recover_clean_cases:
  assumes "recover_journal decode io d = (Some (Clean rs), d')"
  shows "jd_marker d = None \<and> jd_marker d' = None
    \<and> (jd_active d = None \<and> rs = [] \<and> d' = d
       \<or> (\<exists>bytes. jd_active d = Some bytes \<and> classify_bytes_internal decode bytes = (Clean rs, False) \<and> d' = d)
       \<or> (\<exists>bytes path. jd_active d = Some bytes \<and> classify_bytes_internal decode bytes = (Clean rs, True)
            \<and> jd_active d' = Some (bytes @ [newline]) \<and> (path, bytes) \<in> set (jd_files d')))"
proof -
  from assms have m: "jd_marker d = None"
    by (auto simp: recover_journal_def recovery_marker_present_def split: option.splits bool.splits if_splits)
  show ?thesis
  proof (cases "jd_active d")
    case None
    with assms m show ?thesis
      by (auto simp: recover_journal_def recovery_marker_present_def split: if_splits)
  next
    case (Some bytes)
    with assms m have "recover_journal_with decode io d bytes = (Clean rs, d')"
      by (auto simp: recover_journal_def recovery_marker_present_def split: if_splits prod.splits)
    from recover_with_cases [OF this] show ?thesis using m Some by auto
  qed
qed

section \<open>What recovery guarantees\<close>

text \<open>
  Recovery that answers a clean journal answers what is on the disk: there was no marker, the
  records are phase-valid, and afterwards the journal is absent or its bytes classify as exactly
  these records with nothing left to repair; recovering once more, with working reads, answers the
  same and changes nothing.
\<close>

theorem recover_journal_clean_sound:
  assumes "recover_journal decode io d = (Some (Clean rs), d')"
    and "\<not> marker_inspect_fails io2" "\<not> read_fails io2"
  shows "jd_marker d = None \<and> is_ok (pending_with_evidence rs)
    \<and> (case jd_active d' of None \<Rightarrow> rs = [] | Some bytes \<Rightarrow> classify_bytes_internal decode bytes = (Clean rs, False))
    \<and> recover_journal decode io2 d' = (Some (Clean rs), d')"
proof -
  note c = recover_clean_cases [OF assms(1)]
  have state: "case jd_active d' of None \<Rightarrow> rs = [] | Some bytes \<Rightarrow> classify_bytes_internal decode bytes = (Clean rs, False)"
    using c classify_normalized by auto
  moreover have "is_ok (pending_with_evidence rs)"
    using state classify_clean_pending
    by (cases "jd_active d'") (auto simp: pending_with_evidence_def)
  moreover have "recover_journal decode io2 d' = (Some (Clean rs), d')"
    using state c assms(2,3)
    by (cases "jd_active d'") (auto simp: recover_journal_def recovery_marker_present_def recover_journal_with_def)
  ultimately show ?thesis using c by blast
qed

lemma recover_with_files: "set (jd_files d) \<subseteq> set (jd_files (snd (recover_journal_with decode io d bytes)))"
proof -
  have q: "set (jd_files d) \<subseteq> set (jd_files d1)" if "write_quarantine io d bytes = (r, d1)" for r d1
    using write_quarantine_keeps [of d io bytes] that by simp
  have "set (jd_files d) \<subseteq> set (jd_files (snd (preserve_non_clean io d bytes outcome)))" for outcome
    using q write_blocked_marker_pair
    by (fastforce simp: preserve_non_clean_def Let_def split: recovery_outcome.splits prod.splits option.splits bool.splits)
  then show ?thesis
    using q replace_journal_pair
    by (fastforce simp: recover_journal_with_def Let_def split: recovery_outcome.splits prod.splits option.splits bool.splits)
qed

text \<open>
  C21: recovery never loses evidence, whatever fails on the way.  No quarantine file goes away, and
  the journal keeps its bytes, unless they were clean but for a missing last newline: then a
  quarantine file holds the bytes as they were before the journal is replaced, and the journal
  either gains its newline, with the same records, or, where a failed replacement on Windows loses
  the file, is gone, and recovery has failed with that.
\<close>

theorem recover_journal_preserves:
  assumes "recover_journal decode io d = (outcome, d')"
  shows "set (jd_files d) \<subseteq> set (jd_files d')
    \<and> (jd_active d' = jd_active d
       \<or> (\<exists>bytes path rs. jd_active d = Some bytes \<and> (path, bytes) \<in> set (jd_files d')
            \<and> classify_bytes_internal decode bytes = (Clean rs, True)
            \<and> (jd_active d' = Some (bytes @ [newline])
                 \<and> classify_bytes_internal decode (bytes @ [newline]) = (Clean rs, False)
               \<or> jd_active d' = None \<and> outcome = Some (PreservationFailed Replacement))))"
proof (cases "recovery_marker_present io d = Some False \<and> \<not> read_fails io \<and> jd_active d \<noteq> None")
  case False
  with assms have "d' = d"
    by (auto simp: recover_journal_def recovery_marker_present_def split: if_splits option.splits bool.splits prod.splits)
  then show ?thesis by simp
next
  case True
  then obtain bytes where b: "jd_active d = Some bytes" by blast
  with True assms obtain o1 where r: "recover_journal_with decode io d bytes = (o1, d')" "outcome = Some o1"
    by (auto simp: recover_journal_def split: prod.splits)
  have "set (jd_files d) \<subseteq> set (jd_files d')" using recover_with_files [of d decode io bytes] r by simp
  with recover_with_cases [OF r(1)] show ?thesis
    using b r(2) classify_normalized by (elim disjE exE) (simp; blast)+
qed

text \<open>
  C22: the blocked marker is sticky and dominates.  While it is there, and whatever else fails,
  recovery never answers a clean journal, nothing can be appended or compacted, no change of the
  remote identity is admitted, and the disk stays as it is.
\<close>

theorem blocked_marker_dominates:
  assumes "jd_marker d \<noteq> None"
  shows "recover_journal decode io d \<in> {(None, d), (Some (NeedsOperatorRecovery
      \<lparr>or_reason = BlockedMarkerPresent, or_evidence_paths = [blocked_marker_path (jd_name d)],
       or_validated_record_count = 0\<rparr>), d)}
    \<and> append_record encode io d r = (False, d) \<and> compact encode io d rs = (False, d)
    \<and> (if remote_identity_changed current candidate
       then \<exists>e. guard_remote_identity_change decode io d current candidate = (Err e, d) else True)"
proof -
  have r: "recovery_marker_present io d = None \<or> recovery_marker_present io d = Some True"
    using assms by (simp add: recovery_marker_present_def)
  then show ?thesis
    by (elim disjE)
       (simp_all add: recover_journal_def append_record_def compact_def guard_remote_identity_change_def)
qed

text \<open>
  The remote identity (the endpoint and the two status IDs) changes only over a journal that
  is clean and holds no pending operation; any other configuration change passes untouched.
\<close>

theorem guard_remote_identity_change_iff:
  "fst (guard_remote_identity_change decode io d current candidate) = Ok () \<longleftrightarrow>
     (if remote_identity_changed current candidate
      then \<exists>rs d'. recover_journal decode io d = (Some (Clean rs), d') \<and> pending_with_evidence rs = Ok []
      else True)"
  by (cases "recover_journal decode io d"; cases "fst (recover_journal decode io d)";
      cases "the (fst (recover_journal decode io d))")
     (auto simp: guard_remote_identity_change_def split: result.splits)

section \<open>A torn append\<close>

lemma recover_working:
  assumes "\<not> marker_inspect_fails io" "\<not> read_fails io" "jd_marker d = None" "jd_active d = Some bytes"
  shows "recover_journal decode io d = (Some (fst (recover_journal_with decode io d bytes)),
    snd (recover_journal_with decode io d bytes))"
  using assms by (simp add: recover_journal_def recovery_marker_present_def split: prod.splits)

lemma classify_torn:
  assumes codec: "codec_faithful encode decode rs"
    and t: "t \<noteq> []" "newline \<notin> set t" "decode t = Err True"
  shows "classify_bytes_internal decode (journal_bytes encode rs @ t) =
    (NeedsOperatorRecovery \<lparr>or_reason = IncompleteUnterminatedSuffix, or_evidence_paths = [],
       or_validated_record_count = length rs\<rparr>, False)"
proof -
  have "last (journal_bytes encode rs @ t) \<noteq> newline" using t(1,2) by (metis last_appendR last_in_set)
  then show ?thesis
    using t split_journal_bytes [OF codec, of t] classify_lines_append [OF codec, of False "[]" "[t]"]
    by (simp add: classify_bytes_internal_def split_lines_plain)
qed

lemma classify_unterminated:
  assumes codec: "codec_faithful encode decode (rs @ [r])" and ok: "pending_with_evidence (rs @ [r]) = Ok ps"
    and "encode r \<noteq> []"
  shows "classify_bytes_internal decode (journal_bytes encode rs @ encode r) = (Clean (rs @ [r]), True)"
proof -
  have r: "codec_faithful encode decode rs" "decode (encode r) = Ok r" "newline \<notin> set (encode r)"
    using codec by (auto simp: codec_faithful_def)
  have "last (journal_bytes encode rs @ encode r) \<noteq> newline" using r(3) assms(3) by (metis last_appendR last_in_set)
  then show ?thesis
    using r assms(3) ok split_journal_bytes [OF r(1), of "encode r"] classify_lines_append [OF r(1), of False "[]" "[encode r]"]
    by (simp add: classify_bytes_internal_def split_lines_plain)
qed

definition no_faults :: "journal_faults \<Rightarrow> bool" where
  "no_faults io \<longleftrightarrow> \<not> marker_inspect_fails io \<and> \<not> read_fails io
     \<and> quarantine_fault io = NoFault \<and> marker_fault io = NoFault \<and> replace_fault io = Replaced"

text \<open>One of the 64 names that the quarantine of given bytes may take is still free.\<close>

definition quarantine_free :: "journal_faults \<Rightarrow> journal_disk \<Rightarrow> u8 list \<Rightarrow> bool" where
  "quarantine_free io d bytes \<longleftrightarrow> (\<exists>nonce < 64.
     quarantine_path (jd_name d) (clock_millis io) (take 16 (sha256_hex bytes)) nonce \<notin> fst ` set (jd_files d))"

lemma write_quarantine_works:
  assumes "no_faults io" "quarantine_free io d bytes"
  obtains path where "path \<notin> fst ` set (jd_files d)"
    "write_quarantine io d bytes = (Some path, d\<lparr>jd_files := (path, bytes) # jd_files d\<rparr>)"
proof -
  let ?P = "\<lambda>path. path \<notin> fst ` set (jd_files d)"
  let ?names = "map (quarantine_path (jd_name d) (clock_millis io) (take 16 (sha256_hex bytes))) [0..<64]"
  have "find ?P ?names \<noteq> None" using assms(2) by (auto simp: quarantine_free_def find_None_iff)
  then obtain path where "find ?P ?names = Some path" by blast
  moreover from this have "?P path" by (auto simp: find_Some_iff)
  ultimately show thesis
    using assms(1) that by (simp add: write_quarantine_def no_faults_def Let_def)
qed

text \<open>
  C19: a torn append is never mistaken for anything else.  If the service dies after any number of
  bytes of an appended line, the next start, whose own file operations work, finds: nothing appended,
  when no byte was written; a blocked journal with all the earlier records validated, the torn bytes
  kept in a new quarantine file and the marker set, when the record is incomplete; the whole record,
  with its newline supplied, when only the newline is missing; and the whole record otherwise.  The
  earlier quarantine files stay.  The hypothesis \<open>torn\<close> is that a proper prefix of an encoded JSON
  object ends too early for the parser; \<open>room\<close>, that one of the 64 names is free for the quarantine.
\<close>

theorem torn_append_recovers:
  assumes codec: "codec_faithful encode decode (rs @ [r])"
    and valid: "pending_with_evidence (rs @ [r]) = Ok ps" "pending_with_evidence rs = Ok ps0"
    and torn: "\<And>m. 0 < m \<Longrightarrow> m < length (encode r) \<Longrightarrow> decode (take m (encode r)) = Err True"
    and disk: "jd_active d = Some (journal_bytes encode rs)" "jd_marker d = None"
    and room: "quarantine_free io2 d (journal_bytes encode rs @ take n (encode r))"
    and crash: "append_fault io = PartlyWritten n" "\<not> marker_inspect_fails io" "encode r \<noteq> []"
    and restart: "no_faults io2"
    and run: "append_record encode io d r = (b, d1)" "recover_journal decode io2 d1 = (outcome, d2)"
  shows "set (jd_files d) \<subseteq> set (jd_files d2)
    \<and> (if n = 0 then outcome = Some (Clean rs) \<and> d2 = d
    else if n < length (encode r) then
      (\<exists>path. outcome = Some (NeedsOperatorRecovery \<lparr>or_reason = IncompleteUnterminatedSuffix,
          or_evidence_paths = [path, blocked_marker_path (jd_name d)], or_validated_record_count = length rs\<rparr>)
        \<and> path \<notin> fst ` set (jd_files d)
        \<and> jd_files d2 = (path, journal_bytes encode rs @ take n (encode r)) # jd_files d)
      \<and> jd_marker d2 \<noteq> None \<and> jd_active d2 = jd_active d1
    else outcome = Some (Clean (rs @ [r])) \<and> jd_marker d2 = None
      \<and> jd_active d2 = Some (journal_bytes encode (rs @ [r])))"
proof -
  let ?bytes = "journal_bytes encode rs @ take n (encode r @ [newline])"
  let ?torn = "journal_bytes encode rs @ take n (encode r)"
  have d1: "d1 = d\<lparr>jd_active := Some ?bytes\<rparr>"
    using run(1) crash disk by (simp add: append_record_def recovery_marker_present_def Let_def)
  have io2: "\<not> marker_inspect_fails io2" "\<not> read_fails io2" using restart by (simp_all add: no_faults_def)
  have rec: "outcome = Some (fst (recover_journal_with decode io2 d1 ?bytes))"
      "d2 = snd (recover_journal_with decode io2 d1 ?bytes)"
    using run(2) recover_working [OF io2, of d1 ?bytes decode] by (simp_all add: d1 disk)
  have c0: "codec_faithful encode decode rs" "newline \<notin> set (encode r)"
    using codec by (auto simp: codec_faithful_def)
  have "quarantine_free io2 d1 ?torn" using room by (simp add: d1 quarantine_free_def)
  from write_quarantine_works [OF restart this] obtain path where p: "path \<notin> fst ` set (jd_files d)"
    and q: "write_quarantine io2 d1 ?torn = (Some path, d1\<lparr>jd_files := (path, ?torn) # jd_files d\<rparr>)"
    by (auto simp: d1)
  consider "n = 0" | "0 < n" "n < length (encode r)" | "n = length (encode r)" | "length (encode r) < n" by linarith
  then show ?thesis
  proof cases
    case 1
    then show ?thesis
      using rec classify_journal_bytes [OF c0(1) valid(2)] disk by (simp add: recover_journal_with_def d1)
  next
    case 2
    let ?t = "take n (encode r)"
    have t: "?t \<noteq> []" "newline \<notin> set ?t" "decode ?t = Err True"
      using 2 torn c0(2) by (auto dest: in_set_takeD)
    have b: "?bytes = ?torn" using 2 by simp
    show ?thesis
      using rec classify_torn [OF c0(1) t] q p 2 restart disk(2) unfolding b
      by (auto simp: recover_journal_with_def preserve_non_clean_def write_blocked_marker_def no_faults_def d1)
  next
    case 3
    then have b: "?bytes = journal_bytes encode rs @ encode r" "?torn = journal_bytes encode rs @ encode r" by simp_all
    have "classify_bytes decode (?bytes @ [newline]) = Clean (rs @ [r])"
      using classify_normalized [OF classify_unterminated [OF codec valid(1) crash(3)]] b
      by (simp add: classify_bytes_def)
    with 3 show ?thesis
      using rec classify_unterminated [OF codec valid(1) crash(3)] q restart crash(3) disk(2) unfolding b
      by (auto simp: recover_journal_with_def replace_journal_def no_faults_def journal_bytes_snoc d1)
  next
    case 4
    then have b: "?bytes = journal_bytes encode (rs @ [r])" by (simp add: journal_bytes_snoc)
    from 4 show ?thesis
      using rec classify_journal_bytes [OF codec valid(1)] disk(2) unfolding b
      by (simp add: recover_journal_with_def d1 journal_bytes_snoc)
  qed
qed

text \<open>
  C30: compaction on disk loses no evidence.  After a compaction that reports success, the next
  recovery answers a clean journal with exactly the pending operations of the compacted records.
\<close>

theorem compact_then_recover:
  assumes "compact encode io d rs = (True, d1)" and "codec_faithful encode decode (compact_records ps)"
    and "pending_with_evidence rs = Ok ps" and "\<not> marker_inspect_fails io2" "\<not> read_fails io2"
  shows "recover_journal decode io2 d1 = (Some (Clean (compact_records ps)), d1)
    \<and> pending_with_evidence (compact_records ps) = Ok ps"
proof -
  have ps: "pending_with_evidence (compact_records ps) = Ok ps" using assms(3) by (rule compact_preserves)
  from assms(1,3) have "jd_marker d1 = None \<and> jd_active d1 = Some (journal_bytes encode (compact_records ps))"
    by (auto simp: compact_def recovery_marker_present_def replace_journal_def journal_bytes_def
        split: if_splits replace_outcome.splits option.splits bool.splits)
  then show ?thesis
    using recover_working [OF assms(4,5), of d1] classify_journal_bytes [OF assms(2) ps] ps
    by (simp add: recover_journal_with_def)
qed

text \<open>
  A compaction whose replacement loses the file loses all evidence: it answers an error, but the next
  start, finding no journal and no marker, takes the journal for clean and empty.
\<close>

theorem lost_compaction_reads_clean:
  assumes "replace_fault io = DestinationLost" "jd_marker d = None" "\<not> marker_inspect_fails io"
    and "pending_with_evidence rs = Ok ps" "\<not> marker_inspect_fails io2" "\<not> read_fails io2"
  shows "compact encode io d rs = (False, d\<lparr>jd_active := None\<rparr>)
    \<and> recover_journal decode io2 (snd (compact encode io d rs)) = (Some (Clean []), d\<lparr>jd_active := None\<rparr>)"
  using assms by (simp add: compact_def recovery_marker_present_def replace_journal_def recover_journal_def)

section \<open>A concrete journal\<close>

text \<open>One-letter lines for two records, enough to run the store.\<close>

definition demo_encode :: "journal_record \<Rightarrow> u8 list" where
  "demo_encode r = (case r of Prepared _ _ \<Rightarrow> [80, 81] | _ \<Rightarrow> [82, 83])"

definition demo_decode :: line_decoder where
  "demo_decode line = (if line = [80, 81] then Ok (Prepared ''a'' JNull)
     else if line = [82, 83] then Ok (RemoteOutcomeObserved ''a'' JNull None)
     else Err (line \<in> {[], [80], [82]}))"

definition demo_rs :: "journal_record list" where
  "demo_rs = [Prepared ''a'' JNull]"

definition demo_observed :: journal_record where
  "demo_observed = RemoteOutcomeObserved ''a'' JNull None"

definition demo_disk :: journal_disk where
  "demo_disk = \<lparr>jd_name = ''operations.jsonl'', jd_active = Some [80, 81, 10], jd_marker = None, jd_files = []\<rparr>"

text \<open>The same with a quarantine file from before.\<close>

definition demo_used_disk :: journal_disk where
  "demo_used_disk = demo_disk\<lparr>jd_files := [(''old'', [1])]\<rparr>"

definition demo_io :: "write_fault \<Rightarrow> journal_faults" where
  "demo_io fault = \<lparr>clock_millis = 7, clock_text = ''T'', marker_inspect_fails = False, read_fails = False,
     quarantine_fault = NoFault, marker_fault = NoFault, replace_fault = Replaced, append_fault = fault\<rparr>"

lemma demo_valid:
  "pending_with_evidence (demo_rs @ [demo_observed]) = Ok [\<lparr>po_operation_id = ''a'', po_operation = JNull,
     po_remote_outcome = Some JNull, po_candidate_state = None\<rparr>]"
  "pending_with_evidence demo_rs = Ok [\<lparr>po_operation_id = ''a'', po_operation = JNull,
     po_remote_outcome = None, po_candidate_state = None\<rparr>]"
  by (simp_all add: pending_with_evidence_def demo_rs_def demo_observed_def scan_start_def)

lemma demo_codec: "codec_faithful demo_encode demo_decode (demo_rs @ [demo_observed])"
  by (simp add: codec_faithful_def demo_encode_def demo_decode_def demo_rs_def demo_observed_def newline_def)

lemma demo_recover: "recover_journal demo_decode (demo_io NoFault) demo_disk = (Some (Clean demo_rs), demo_disk)"
  by (simp add: recover_journal_def recovery_marker_present_def demo_io_def demo_disk_def recover_journal_with_def
      classify_bytes_internal_def newline_def demo_decode_def pending_with_evidence_def scan_start_def demo_rs_def)

theorem recover_journal_clean_sound_witness: "is_ok (pending_with_evidence demo_rs)"
  using recover_journal_clean_sound [OF demo_recover, of "demo_io NoFault"] by (simp add: demo_io_def)

text \<open>A clean journal without its last newline, when the replacement loses it.\<close>

definition demo_unterminated :: journal_disk where
  "demo_unterminated = demo_disk\<lparr>jd_active := Some [80, 81]\<rparr>"

lemma demo_lost_journal:
  "fst (recover_journal demo_decode (demo_io NoFault\<lparr>replace_fault := DestinationLost\<rparr>) demo_unterminated)
     = Some (PreservationFailed Replacement)"
  "jd_active (snd (recover_journal demo_decode (demo_io NoFault\<lparr>replace_fault := DestinationLost\<rparr>) demo_unterminated)) = None"
  by (simp_all add: recover_journal_def recovery_marker_present_def demo_io_def demo_disk_def recover_journal_with_def
      demo_unterminated_def classify_bytes_internal_def newline_def demo_decode_def pending_with_evidence_def
      scan_start_def write_quarantine_def Let_def upt_conv_Cons replace_journal_def del: upt_rec_numeral)

theorem recover_journal_preserves_witness:
  "fst (recover_journal demo_decode (demo_io NoFault\<lparr>replace_fault := DestinationLost\<rparr>) demo_unterminated)
     = Some (PreservationFailed Replacement)
   \<and> jd_active (snd (recover_journal demo_decode (demo_io NoFault\<lparr>replace_fault := DestinationLost\<rparr>) demo_unterminated)) = None
   \<and> [80, 81] \<in> snd ` set (jd_files (snd (recover_journal demo_decode
       (demo_io NoFault\<lparr>replace_fault := DestinationLost\<rparr>) demo_unterminated)))"
proof -
  obtain outcome d' where r:
    "recover_journal demo_decode (demo_io NoFault\<lparr>replace_fault := DestinationLost\<rparr>) demo_unterminated = (outcome, d')"
    by (rule prod.exhaust)
  have "jd_active demo_unterminated = Some [80, 81]" by (simp add: demo_unterminated_def)
  with recover_journal_preserves [OF r] demo_lost_journal r show ?thesis by force
qed

theorem blocked_marker_dominates_witness:
  "append_record demo_encode (demo_io NoFault) (demo_disk\<lparr>jd_marker := Some ''x''\<rparr>) demo_observed
     = (False, demo_disk\<lparr>jd_marker := Some ''x''\<rparr>)"
proof -
  have "jd_marker (demo_disk\<lparr>jd_marker := Some ''x''\<rparr>) \<noteq> None" by simp
  from blocked_marker_dominates [OF this, of demo_decode "demo_io NoFault" demo_encode demo_observed]
  show ?thesis by blast
qed

theorem torn_append_recovers_witness:
  "case recover_journal demo_decode (demo_io NoFault)
       (snd (append_record demo_encode (demo_io (PartlyWritten 1)) demo_used_disk demo_observed)) of
     (outcome, d2) \<Rightarrow> \<exists>path. outcome = Some (NeedsOperatorRecovery \<lparr>or_reason = IncompleteUnterminatedSuffix,
         or_evidence_paths = [path, ''operations.jsonl.recovery-blocked''], or_validated_record_count = 1\<rparr>)
       \<and> jd_marker d2 \<noteq> None \<and> jd_files d2 = [(path, [80, 81, 10, 82]), (''old'', [1])]"
proof -
  have torn: "demo_decode (take m (demo_encode demo_observed)) = Err True"
    if "0 < m" "m < length (demo_encode demo_observed)" for m
  proof -
    have "m = 1" using that by (simp add: demo_encode_def demo_observed_def)
    then show ?thesis by (simp add: demo_decode_def demo_encode_def demo_observed_def)
  qed
  have disk: "jd_active demo_used_disk = Some (journal_bytes demo_encode demo_rs)" "jd_marker demo_used_disk = None"
    by (simp_all add: demo_used_disk_def demo_disk_def journal_bytes_def demo_encode_def demo_rs_def newline_def)
  have room: "quarantine_free (demo_io NoFault) demo_used_disk
      (journal_bytes demo_encode demo_rs @ take 1 (demo_encode demo_observed))"
    by (auto simp: quarantine_free_def demo_used_disk_def demo_disk_def quarantine_path_def intro!: exI [of _ 0])
  have crash: "append_fault (demo_io (PartlyWritten 1)) = PartlyWritten 1"
      "\<not> marker_inspect_fails (demo_io (PartlyWritten 1))" "demo_encode demo_observed \<noteq> []"
    by (simp_all add: demo_io_def demo_encode_def demo_observed_def)
  have restart: "no_faults (demo_io NoFault)" by (simp add: no_faults_def demo_io_def)
  obtain b d1 where a: "append_record demo_encode (demo_io (PartlyWritten 1)) demo_used_disk demo_observed = (b, d1)"
    by (cases "append_record demo_encode (demo_io (PartlyWritten 1)) demo_used_disk demo_observed")
  obtain outcome d2 where r: "recover_journal demo_decode (demo_io NoFault) d1 = (outcome, d2)"
    by (cases "recover_journal demo_decode (demo_io NoFault) d1")
  have lens: "length (demo_encode demo_observed) = 2" "take (Suc 0) (demo_encode demo_observed) = [82]"
      "journal_bytes demo_encode demo_rs = [80, 81, 10]" "length demo_rs = 1" "jd_files demo_used_disk = [(''old'', [1])]"
      "blocked_marker_path (jd_name demo_used_disk) = ''operations.jsonl.recovery-blocked''"
    by (simp_all add: demo_encode_def demo_observed_def demo_rs_def journal_bytes_def newline_def demo_used_disk_def
        demo_disk_def blocked_marker_path_def MARKER_SUFFIX_def)
  from torn_append_recovers [OF demo_codec demo_valid torn disk room crash restart a r]
  show ?thesis using a r by (auto simp: lens)
qed

theorem compact_then_recover_witness:
  "recover_journal demo_decode (demo_io NoFault) demo_disk = (Some (Clean demo_rs), demo_disk)"
proof -
  have c: "compact_records [\<lparr>po_operation_id = ''a'', po_operation = JNull, po_remote_outcome = None,
      po_candidate_state = None\<rparr>] = demo_rs"
    by (simp add: compact_records_def compact_operation_def demo_rs_def)
  have bytes: "concat (map (\<lambda>r. demo_encode r @ [newline]) demo_rs) = [80, 81, 10]"
    by (simp add: demo_rs_def demo_encode_def newline_def)
  have "jd_marker demo_disk = None" by (simp add: demo_disk_def)
  then have "compact demo_encode (demo_io NoFault) demo_disk demo_rs = (True, demo_disk\<lparr>jd_active := Some [80, 81, 10]\<rparr>)"
    by (simp add: compact_def recovery_marker_present_def demo_io_def demo_valid(2) c bytes replace_journal_def)
  also have "demo_disk\<lparr>jd_active := Some [80, 81, 10]\<rparr> = demo_disk" by (simp add: demo_disk_def)
  finally have "compact demo_encode (demo_io NoFault) demo_disk demo_rs = (True, demo_disk)" .
  moreover have "codec_faithful demo_encode demo_decode demo_rs"
    using demo_codec by (simp add: codec_faithful_def)
  ultimately show ?thesis
    using compact_then_recover [OF _ _ demo_valid(2), of demo_encode "demo_io NoFault" demo_disk demo_disk demo_decode
        "demo_io NoFault"] by (simp add: c demo_io_def)
qed

section \<open>The notice of a blocked start\<close>

text \<open>\<open>Path::file_name\<close> is a parameter.\<close>

definition recovery_notice :: "(string \<Rightarrow> string option) \<Rightarrow> string \<Rightarrow> recovery_outcome \<Rightarrow> string" where
  "recovery_notice file_name journal_path outcome =
     (let journal = ''journal='' @ (case file_name journal_path of None \<Rightarrow> ''operations.jsonl'' | Some n \<Rightarrow> n);
          none = ''; evidence_paths=unavailable; validated_record_count=0'' in
      case outcome of
        NeedsOperatorRecovery recovery \<Rightarrow>
          journal @ ''; reason='' @ recovery_reason_text (or_reason recovery) @ ''; evidence_paths=''
            @ join_with '','' (map (\<lambda>p. case file_name p of None \<Rightarrow> ''unknown'' | Some n \<Rightarrow> n) (or_evidence_paths recovery))
            @ ''; validated_record_count='' @ dec_nat (or_validated_record_count recovery)
      | PreservationFailed failure \<Rightarrow> journal @ ''; preservation_failure='' @ preservation_failure_text failure @ none
      | Corrupt reason \<Rightarrow> journal @ ''; reason='' @ recovery_reason_text reason @ none
      | Clean _ \<Rightarrow> ''clean'')"

text \<open>The notice tells no directory: it is that of the bare names.\<close>

lemma notice_names_only:
  assumes "\<And>p n. file_name p = Some n \<Longrightarrow> file_name n = Some n" "file_name [] = None"
  shows "recovery_notice file_name path (NeedsOperatorRecovery recovery) =
    recovery_notice file_name (case file_name path of Some n \<Rightarrow> n | None \<Rightarrow> [])
      (NeedsOperatorRecovery (recovery\<lparr>or_evidence_paths :=
         map (\<lambda>p. case file_name p of Some n \<Rightarrow> n | None \<Rightarrow> []) (or_evidence_paths recovery)\<rparr>))"
  using assms by (auto simp: recovery_notice_def Let_def comp_def split: option.split intro!: arg_cong [where f = "join_with '',''"])

end
