(* ===== verification/Engine.thy ===== *)
theory Engine
  imports Effects SyncPlan State JournalStore
begin

text \<open>
  \<open>spotter-svc/src/sync_engine.rs\<close>: journal-backed execution of a synchronization plan, the commit
  of executed operations, and the replay of pending ones.  The journal file and the remote
  inventory are effects on an explicit world; each effect may fail.  The derived serde encoders and
  decoders of the request types and of the service state are a record of parameters; the objects
  that the engine itself builds with \<open>json!\<close> are written out.
\<close>

section \<open>What the engine calls\<close>

record 'w engine_env =
  env_append :: "journal_record \<Rightarrow> ('w, unit) io"
  env_recover :: "('w, recovery_outcome) io"
  env_compact :: "journal_record list \<Rightarrow> ('w, unit) io"
  env_patch :: "u64 \<Rightarrow> asset_patch_request \<Rightarrow> ('w, asset) io"
  env_checkout :: "monitor_checkout \<Rightarrow> ('w, unit) io"
  env_checkin :: "monitor_checkin \<Rightarrow> ('w, unit) io"
  env_before_terminal :: "('w, unit) io"
  env_after_terminal :: "('w, unit) io"

text \<open>
  The derived encoders and decoders.  Encoding these types cannot fail (no map with other than
  string keys, no floating point), so \<open>serialize_operation\<close> and \<open>to_value\<close> are total.
\<close>

record codec =
  cd_patch :: "asset_patch_request \<Rightarrow> json"
  cd_patch_of :: "json \<Rightarrow> asset_patch_request option"
  cd_patch_text :: "asset_patch_request \<Rightarrow> string"
  cd_checkout :: "monitor_checkout \<Rightarrow> json"
  cd_checkout_of :: "json \<Rightarrow> monitor_checkout option"
  cd_checkin :: "monitor_checkin \<Rightarrow> json"
  cd_checkin_of :: "json \<Rightarrow> monitor_checkin option"
  cd_time :: "string option \<Rightarrow> json"
  cd_result :: "sync_result option \<Rightarrow> json"
  cd_asset :: "asset_summary option \<Rightarrow> json"
  cd_monitors :: "monitor_entry list \<Rightarrow> json"
  cd_state_of :: "json \<Rightarrow> service_state option"

section \<open>Reconciliation before a mutation\<close>

definition patch_is_applied :: "asset \<Rightarrow> asset_patch_request \<Rightarrow> bool" where
  "patch_is_applied a request \<longleftrightarrow>
     (case pr_name request of None \<Rightarrow> True | Some v \<Rightarrow> as_name a = v)
     \<and> (case pr_serial request of None \<Rightarrow> True | Some v \<Rightarrow> as_serial a = Some v)
     \<and> (case pr_asset_tag request of None \<Rightarrow> True | Some v \<Rightarrow> as_asset_tag a = Some v)
     \<and> (case pr_model_id request of None \<Rightarrow> True
        | Some i \<Rightarrow> (case as_model a of Some m \<Rightarrow> am_id m = i | None \<Rightarrow> False))"

definition status_is :: "asset \<Rightarrow> u64 \<Rightarrow> bool" where
  "status_is a i \<longleftrightarrow> (case as_status_label a of Some s \<Rightarrow> nr_id s = i | None \<Rightarrow> False)"

definition checkout_is_applied :: "asset \<Rightarrow> monitor_checkout \<Rightarrow> bool" where
  "checkout_is_applied a operation \<longleftrightarrow>
     (case as_assigned_to a of Some x \<Rightarrow> nr_id x = assigned_asset (co_request operation) | None \<Rightarrow> False)
     \<and> status_is a (co_status_id (co_request operation))"

definition checkin_is_applied :: "asset \<Rightarrow> monitor_checkin \<Rightarrow> bool" where
  "checkin_is_applied a operation \<longleftrightarrow>
     as_assigned_to a = None \<and> status_is a (ci_status_id (ci_request operation))"

text \<open>The HTTP client's calls, and the reconciling mutations built on them.\<close>

record 'w client_api =
  cl_get_asset :: "u64 \<Rightarrow> ('w, asset) io"
  cl_patch_asset :: "u64 \<Rightarrow> asset_patch_request \<Rightarrow> ('w, asset) io"
  cl_checkout_asset :: "u64 \<Rightarrow> checkout_request \<Rightarrow> ('w, unit) io"
  cl_checkin_asset :: "u64 \<Rightarrow> checkin_request \<Rightarrow> ('w, unit) io"

definition reconcile_patch :: "'w client_api \<Rightarrow> u64 \<Rightarrow> asset_patch_request \<Rightarrow> ('w, asset) io" where
  "reconcile_patch api asset_id request =
     bind_io (cl_get_asset api asset_id) (\<lambda>current.
       if patch_is_applied current request then ret current
       else cl_patch_asset api asset_id request)"

definition reconcile_checkout :: "'w client_api \<Rightarrow> monitor_checkout \<Rightarrow> ('w, unit) io" where
  "reconcile_checkout api operation =
     bind_io (cl_get_asset api (co_source_asset_id operation)) (\<lambda>current.
       if checkout_is_applied current operation then ret ()
       else cl_checkout_asset api (co_source_asset_id operation) (co_request operation))"

definition reconcile_checkin :: "'w client_api \<Rightarrow> monitor_checkin \<Rightarrow> ('w, unit) io" where
  "reconcile_checkin api operation =
     bind_io (cl_get_asset api (ci_source_asset_id operation)) (\<lambda>current.
       if checkin_is_applied current operation then ret ()
       else cl_checkin_asset api (ci_source_asset_id operation) (ci_request operation))"

section \<open>Candidate states\<close>

record execution_outcome =
  ex_next_monitor_state :: monitor_state
  ex_matched_asset :: "asset_summary option"
  ex_warnings :: "string list"
  ex_confirmed :: "string list"

definition asset_summary_of :: "asset \<Rightarrow> asset_summary" where
  "asset_summary_of a = \<lparr>sm_id = as_id a, sm_name = as_name a, sm_serial = as_serial a, sm_asset_tag = as_asset_tag a\<rparr>"

definition patch_operation_id :: "codec \<Rightarrow> u64 \<Rightarrow> asset_patch_request \<Rightarrow> string" where
  "patch_operation_id cd asset_id request = ''patch:'' @ dec asset_id @ '':'' @ cd_patch_text cd request"

definition computer_asset_id_from_plan :: "sync_plan \<Rightarrow> string \<Rightarrow> u64 option" where
  "computer_asset_id_from_plan plan operation_id =
     (if \<not> starts_with ''patch:'' operation_id \<or> asset_update plan = None then None
      else Option.bind (Option.bind (strip_prefix ''patch:'' operation_id) (split_once '':''))
             (\<lambda>(i, _). parse_u64_str i))"

definition projected_asset_summary ::
  "service_state \<Rightarrow> service_state \<Rightarrow> u64 \<Rightarrow> asset_patch_request \<Rightarrow> asset_summary option" where
  "projected_asset_summary base_state final_state asset_id request =
     (case (case matched_asset base_state of Some s \<Rightarrow> Some s | None \<Rightarrow> matched_asset final_state) of
        None \<Rightarrow> None
      | Some s \<Rightarrow> Some
          \<lparr>sm_id = asset_id,
           sm_name = (case pr_name request of Some n \<Rightarrow> n | None \<Rightarrow> sm_name s),
           sm_serial = (if pr_serial request \<noteq> None then pr_serial request else sm_serial s),
           sm_asset_tag = (if pr_asset_tag request \<noteq> None then pr_asset_tag request else sm_asset_tag s)\<rparr>)"

definition apply_monitor_transition :: "service_state \<Rightarrow> service_state \<Rightarrow> u64 \<Rightarrow> bool \<Rightarrow> service_state" where
  "apply_monitor_transition st final_state asset_id out =
     (let prior_serial = map_option me_serial
            (find (\<lambda>e. snipeit_asset_id e = Some asset_id) (known_monitors st));
          by_serial = Option.bind prior_serial
            (\<lambda>serial. find (\<lambda>e. me_serial e = serial) (known_monitors final_state));
          final_entry = (case by_serial of Some e \<Rightarrow> Some e
            | None \<Rightarrow> find (\<lambda>e. snipeit_asset_id e = Some asset_id) (known_monitors final_state))
      in case final_entry of
           None \<Rightarrow> st\<lparr>known_monitors := filter (\<lambda>c. snipeit_asset_id c \<noteq> Some asset_id
                      \<and> (case prior_serial of None \<Rightarrow> True | Some s \<Rightarrow> me_serial c \<noteq> s)) (known_monitors st)\<rparr>
         | Some e \<Rightarrow> st\<lparr>known_monitors :=
                      filter (\<lambda>c. me_serial c \<noteq> me_serial e \<and> snipeit_asset_id c \<noteq> Some asset_id) (known_monitors st)
                      @ [e\<lparr>checked_out := out\<rparr>]\<rparr>)"

text \<open>One of the two loops of \<open>state_after_operation_with_asset\<close>; the flag says that it returned.\<close>

fun transitions_until ::
  "service_state \<Rightarrow> bool \<Rightarrow> string \<Rightarrow> (string \<times> u64) list \<Rightarrow> service_state \<Rightarrow> service_state \<times> bool" where
  "transitions_until final_state out operation_id [] st = (st, False)"
| "transitions_until final_state out operation_id ((i, asset_id) # ops) st =
     (let st' = apply_monitor_transition st final_state asset_id out
      in if i = operation_id then (st', True) else transitions_until final_state out operation_id ops st')"

definition checkout_keys :: "sync_plan \<Rightarrow> (string \<times> u64) list" where
  "checkout_keys plan = map (\<lambda>o'. (co_operation_id o', co_source_asset_id o')) (monitor_checkouts plan)"

definition checkin_keys :: "sync_plan \<Rightarrow> (string \<times> u64) list" where
  "checkin_keys plan = map (\<lambda>o'. (ci_operation_id o', ci_source_asset_id o')) (monitor_checkins plan)"

definition state_after_operation_with_asset ::
  "service_state \<Rightarrow> service_state \<Rightarrow> sync_plan \<Rightarrow> string \<Rightarrow> asset option \<Rightarrow> service_state" where
  "state_after_operation_with_asset base_state final_state plan operation_id patched_asset =
     (let st = base_state\<lparr>last_sync_time := last_sync_time final_state,
                 last_sync_result := last_sync_result final_state\<rparr>;
          st = (case patched_asset of Some a \<Rightarrow> st\<lparr>matched_asset := Some (asset_summary_of a)\<rparr> | None \<Rightarrow> st)
      in case (asset_update plan, computer_asset_id_from_plan plan operation_id) of
           (Some request, Some asset_id) \<Rightarrow>
             (if patched_asset = None
              then st\<lparr>matched_asset := projected_asset_summary base_state final_state asset_id request\<rparr>
              else st)
         | _ \<Rightarrow>
             (case transitions_until final_state True operation_id (checkout_keys plan) st of
                (st', True) \<Rightarrow> st'
              | (st', False) \<Rightarrow> fst (transitions_until final_state False operation_id (checkin_keys plan) st')))"

definition state_after_operation ::
  "service_state \<Rightarrow> service_state \<Rightarrow> sync_plan \<Rightarrow> string \<Rightarrow> asset option \<Rightarrow> service_state" where
  "state_after_operation base_state final_state plan operation_id patched_asset =
     state_after_operation_with_asset base_state final_state plan operation_id patched_asset"

text \<open>The objects built with \<open>json!\<close>, their members in key order.\<close>

definition state_snapshot :: "codec \<Rightarrow> service_state \<Rightarrow> json" where
  "state_snapshot cd st = JObj
     [(''known_monitors'', cd_monitors cd (known_monitors st)),
      (''last_sync_result'', cd_result cd (last_sync_result st)),
      (''last_sync_time'', cd_time cd (last_sync_time st)),
      (''matched_asset'', cd_asset cd (matched_asset st))]"

definition complete_candidate_state :: "codec \<Rightarrow> string \<Rightarrow> service_state \<Rightarrow> json" where
  "complete_candidate_state cd operation_id st = JObj
     [(''kind'', JStr ''service_state''), (''operation_id'', JStr operation_id),
      (''state'', state_snapshot cd st), (''version'', JNum (PosInt 1))]"

definition prepared_payload :: "json \<Rightarrow> json option \<Rightarrow> json" where
  "prepared_payload operation candidate_state =
     (case candidate_state of
        Some c \<Rightarrow> JObj [(''candidate_state'', c), (''operation'', operation), (''version'', JNum (PosInt 1))]
      | None \<Rightarrow> operation)"

definition applied_outcome :: json where
  "applied_outcome = JObj [(''status'', JStr ''applied'')]"

definition reconciled_outcome :: json where
  "reconciled_outcome = JObj [(''status'', JStr ''reconciled'')]"

definition prepare :: "'w engine_env \<Rightarrow> string \<Rightarrow> json \<Rightarrow> json option \<Rightarrow> ('w, unit) io" where
  "prepare env operation_id operation candidate_state =
     env_append env (Prepared operation_id (prepared_payload operation candidate_state))"

definition observe_remote_outcome :: "'w engine_env \<Rightarrow> string \<Rightarrow> json \<Rightarrow> json option \<Rightarrow> ('w, unit) io" where
  "observe_remote_outcome env operation_id outcome candidate_state =
     env_append env (RemoteOutcomeObserved operation_id outcome candidate_state)"

section \<open>Execution of a plan\<close>

text \<open>\<open>HashSet::insert\<close> of each ID in turn, failing on the first repetition.\<close>

fun insert_ids :: "string set \<Rightarrow> string list \<Rightarrow> (string set, string) result" where
  "insert_ids seen [] = Ok seen"
| "insert_ids seen (i # is) =
     (if i \<in> seen then Err (''duplicate operation ID in synchronization plan: '' @ i)
      else insert_ids (insert i seen) is)"

definition patch_ids :: "codec \<Rightarrow> sync_plan \<Rightarrow> u64 option \<Rightarrow> string list" where
  "patch_ids cd plan computer_asset_id =
     (case (asset_update plan, computer_asset_id) of
        (Some request, Some asset_id) \<Rightarrow> [patch_operation_id cd asset_id request]
      | _ \<Rightarrow> [])"

definition validate_unique_operation_ids :: "codec \<Rightarrow> sync_plan \<Rightarrow> u64 option \<Rightarrow> (unit, string) result" where
  "validate_unique_operation_ids cd plan computer_asset_id =
     and_then (insert_ids {} (patch_ids cd plan computer_asset_id)) (\<lambda>seen.
       map_ok (\<lambda>_. ()) (insert_ids seen
         (map co_operation_id (monitor_checkouts plan) @ map ci_operation_id (monitor_checkins plan))))"

text \<open>The loop variables are the current state and the confirmed IDs.\<close>

fun execute_checkouts ::
  "'w engine_env \<Rightarrow> codec \<Rightarrow> sync_plan \<Rightarrow> service_state \<Rightarrow> monitor_checkout list
     \<Rightarrow> service_state \<times> string list \<Rightarrow> ('w, service_state \<times> string list) io" where
  "execute_checkouts env cd plan final_state [] (current, confirmed) = ret (current, confirmed)"
| "execute_checkouts env cd plan final_state (o' # ops) (current, confirmed) =
     (let i = co_operation_id o';
          candidate = state_after_operation current final_state plan i None
      in bind_io (prepare env i (cd_checkout cd o') (Some (complete_candidate_state cd i candidate))) (\<lambda>_.
         bind_io (env_checkout env o') (\<lambda>_.
         bind_io (observe_remote_outcome env i applied_outcome (Some (complete_candidate_state cd i candidate))) (\<lambda>_.
           execute_checkouts env cd plan final_state ops (candidate, confirmed @ [i])))))"

fun execute_checkins ::
  "'w engine_env \<Rightarrow> codec \<Rightarrow> sync_plan \<Rightarrow> service_state \<Rightarrow> monitor_checkin list
     \<Rightarrow> service_state \<times> string list \<Rightarrow> ('w, service_state \<times> string list) io" where
  "execute_checkins env cd plan final_state [] (current, confirmed) = ret (current, confirmed)"
| "execute_checkins env cd plan final_state (o' # ops) (current, confirmed) =
     (let i = ci_operation_id o';
          candidate = state_after_operation current final_state plan i None
      in bind_io (prepare env i (cd_checkin cd o') (Some (complete_candidate_state cd i candidate))) (\<lambda>_.
         bind_io (env_checkin env o') (\<lambda>_.
         bind_io (observe_remote_outcome env i applied_outcome (Some (complete_candidate_state cd i candidate))) (\<lambda>_.
           execute_checkins env cd plan final_state ops (candidate, confirmed @ [i])))))"

text \<open>The asset update: the current state, the matched asset and the confirmed IDs.\<close>

definition execute_patch ::
  "'w engine_env \<Rightarrow> codec \<Rightarrow> sync_plan \<Rightarrow> service_state \<Rightarrow> u64 option \<Rightarrow> service_state
     \<Rightarrow> ('w, service_state \<times> asset_summary option \<times> string list) io" where
  "execute_patch env cd plan final_state computer_asset_id current =
     (case (asset_update plan, computer_asset_id) of
        (Some request, Some asset_id) \<Rightarrow>
          (let i = patch_operation_id cd asset_id request;
               prepared = state_after_operation current final_state plan i None
           in bind_io (prepare env i (cd_patch cd request) (Some (complete_candidate_state cd i prepared))) (\<lambda>_.
              bind_io (env_patch env asset_id request) (\<lambda>a.
                let matched = Some (asset_summary_of a);
                    current' = current\<lparr>matched_asset := matched\<rparr>
                in bind_io (observe_remote_outcome env i applied_outcome
                              (Some (complete_candidate_state cd i current'))) (\<lambda>_.
                     ret (current', matched, [i])))))
      | _ \<Rightarrow> ret (current, matched_asset final_state, []))"

definition execute_plan_inner ::
  "'w engine_env \<Rightarrow> codec \<Rightarrow> sync_plan \<Rightarrow> u64 option \<Rightarrow> service_state \<Rightarrow> service_state
     \<Rightarrow> ('w, execution_outcome) io" where
  "execute_plan_inner env cd plan computer_asset_id base_state final_state =
     bind_io (lift_io (validate_unique_operation_ids cd plan computer_asset_id)) (\<lambda>_.
     bind_io (execute_patch env cd plan final_state computer_asset_id
        (base_state\<lparr>last_sync_time := last_sync_time final_state, last_sync_result := last_sync_result final_state\<rparr>))
       (\<lambda>(current, matched, confirmed).
     bind_io (execute_checkouts env cd plan final_state (monitor_checkouts plan) (current, confirmed)) (\<lambda>s.
     bind_io (execute_checkins env cd plan final_state (monitor_checkins plan) s) (\<lambda>(_, confirmed).
       ret \<lparr>ex_next_monitor_state = next_monitor_state plan, ex_matched_asset = matched,
            ex_warnings = warnings plan, ex_confirmed = confirmed\<rparr>))))"

definition execute_plan ::
  "'w engine_env \<Rightarrow> codec \<Rightarrow> sync_plan \<Rightarrow> u64 option \<Rightarrow> ('w, execution_outcome) io" where
  "execute_plan env cd plan computer_asset_id =
     execute_plan_inner env cd plan computer_asset_id default_state
       (default_state\<lparr>known_monitors := entries (next_monitor_state plan)\<rparr>)"

definition execute_plan_with_candidate ::
  "'w engine_env \<Rightarrow> codec \<Rightarrow> sync_plan \<Rightarrow> u64 option \<Rightarrow> service_state \<Rightarrow> service_state
     \<Rightarrow> ('w, execution_outcome) io" where
  "execute_plan_with_candidate env cd plan computer_asset_id base_state candidate_state =
     execute_plan_inner env cd plan computer_asset_id base_state candidate_state"

section \<open>Commit\<close>

definition clean_records :: "recovery_outcome \<Rightarrow> (journal_record list, string) result" where
  "clean_records outcome =
     (case outcome of
        Clean records \<Rightarrow> Ok records
      | NeedsOperatorRecovery recovery \<Rightarrow> Err (''journal recovery is blocked: ''
          @ recovery_reason_text (or_reason recovery) @ '' ('' @ dec_nat (or_validated_record_count recovery)
          @ '' validated records)'')
      | PreservationFailed failure \<Rightarrow> Err (''journal preservation failed: '' @ preservation_failure_text failure)
      | Corrupt reason \<Rightarrow> Err (''journal is corrupt: '' @ recovery_reason_text reason))"

definition compact_after_state_commit :: "'w engine_env \<Rightarrow> ('w, unit) io" where
  "compact_after_state_commit env =
     bind_io (env_recover env) (\<lambda>outcome.
     bind_io (lift_io (clean_records outcome)) (env_compact env))"

definition commit_after_state_save_with :: "'w engine_env \<Rightarrow> string list \<Rightarrow> ('w, unit) io" where
  "commit_after_state_save_with env operation_ids =
     bind_io (env_before_terminal env) (\<lambda>_.
     bind_io (each_io (\<lambda>i. env_append env (StateCommitted i)) operation_ids) (\<lambda>_.
     bind_io (env_after_terminal env) (\<lambda>_.
       compact_after_state_commit env)))"

text \<open>\<open>ProductionJournalFinalization\<close>: both hooks succeed.\<close>

definition commit_after_state_save :: "'w engine_env \<Rightarrow> string list \<Rightarrow> ('w, unit) io" where
  "commit_after_state_save env operation_ids =
     commit_after_state_save_with (env\<lparr>env_before_terminal := ret (), env_after_terminal := ret ()\<rparr>) operation_ids"

end
