(* ===== verification/Replay.thy ===== *)
theory Replay
  imports Engine
begin

text \<open>
  \<open>spotter-svc/src/sync_engine.rs\<close>, recovery: replay of the operations that the journal holds
  without a commit, and reconstruction of the service state from their evidence.  An error with a
  context is its outermost text, which is what \<open>to_string\<close> prints.
\<close>

section \<open>Decoding of a prepared operation\<close>

definition patch_asset_id :: "string \<Rightarrow> (u64 option, string) result" where
  "patch_asset_id operation_id =
     (case strip_prefix ''patch:'' operation_id of
        None \<Rightarrow> Ok None
      | Some rest \<Rightarrow>
          and_then (ok_or ''malformed prepared patch operation ID'' (map_option fst (split_once '':'' rest))) (\<lambda>text.
          and_then (ok_or ''invalid asset ID in prepared patch operation'' (parse_u64_str text)) (\<lambda>asset_id.
            if asset_id = 0 then Err ''prepared patch asset ID must be nonzero'' else Ok (Some asset_id))))"

definition validate_operation_id_binding :: "codec \<Rightarrow> string \<Rightarrow> json \<Rightarrow> (unit, string) result" where
  "validate_operation_id_binding cd operation_id operation =
     and_then (patch_asset_id operation_id) (\<lambda>patch.
       case patch of
         Some asset_id \<Rightarrow>
           and_then (ok_or ''invalid prepared asset patch operation'' (cd_patch_of cd operation)) (\<lambda>request.
             if patch_operation_id cd asset_id request \<noteq> operation_id
             then Err ''prepared patch operation ID does not match payload'' else Ok ())
       | None \<Rightarrow>
           if starts_with ''checkout:'' operation_id then
             and_then (ok_or ''invalid prepared monitor checkout operation'' (cd_checkout_of cd operation)) (\<lambda>o'.
               if co_operation_id o' \<noteq> operation_id
               then Err ''prepared checkout operation ID does not match payload'' else Ok ())
           else if starts_with ''checkin:'' operation_id then
             and_then (ok_or ''invalid prepared monitor check-in operation'' (cd_checkin_of cd operation)) (\<lambda>o'.
               if ci_operation_id o' \<noteq> operation_id
               then Err ''prepared check-in operation ID does not match payload'' else Ok ())
           else Err (''unknown prepared operation kind: '' @ operation_id))"

definition validate_legacy_operation :: "codec \<Rightarrow> string \<Rightarrow> json \<Rightarrow> (unit, string) result" where
  "validate_legacy_operation cd operation_id operation =
     and_then (patch_asset_id operation_id) (\<lambda>patch.
       case patch of
         Some asset_id \<Rightarrow>
           and_then (ok_or ''invalid legacy prepared asset patch operation'' (cd_patch_of cd operation)) (\<lambda>_.
             if jget ''operation_id'' operation \<noteq> None
             then Err (''ambiguous legacy patch operation payload: '' @ operation_id)
             else if asset_id = 0 then Err ''legacy patch asset ID must be nonzero'' else Ok ())
       | None \<Rightarrow>
           if starts_with ''checkout:'' operation_id then
             and_then (ok_or ''invalid legacy prepared monitor checkout operation'' (cd_checkout_of cd operation)) (\<lambda>o'.
               if co_operation_id o' \<noteq> operation_id
               then Err ''legacy checkout operation ID does not match payload'' else Ok ())
           else if starts_with ''checkin:'' operation_id then
             and_then (ok_or ''invalid legacy prepared monitor check-in operation'' (cd_checkin_of cd operation)) (\<lambda>o'.
               if ci_operation_id o' \<noteq> operation_id
               then Err ''legacy check-in operation ID does not match payload'' else Ok ())
           else Err (''unknown legacy prepared operation kind: '' @ operation_id))"

definition signed_fields :: "string list" where
  "signed_fields = [''last_sync_time'', ''last_sync_result'', ''matched_asset'', ''known_monitors'']"

text \<open>\<open>as_object().is_some_and(|state| state.contains_key(field))\<close> is that \<open>get\<close> answers.\<close>

definition validate_candidate_state :: "codec \<Rightarrow> string \<Rightarrow> json \<Rightarrow> (unit, string) result" where
  "validate_candidate_state cd operation_id candidate =
     and_then (ok_or ''candidate state is missing operation ID''
        (Option.bind (jget ''operation_id'' candidate) as_str)) (\<lambda>i.
     if i = [] \<or> i \<noteq> operation_id
     then Err ''candidate state operation ID does not match journal operation''
     else if Option.bind (jget ''version'' candidate) as_u64 \<noteq> Some 1
       \<or> Option.bind (jget ''kind'' candidate) as_str \<noteq> Some ''service_state''
     then Err ''candidate state is not a supported complete snapshot''
     else
     and_then (ok_or ''candidate state snapshot is missing'' (jget ''state'' candidate)) (\<lambda>snapshot.
     case find (\<lambda>field. jget field snapshot = None) signed_fields of
       Some field \<Rightarrow> Err (''candidate state is missing signed field: '' @ field)
     | None \<Rightarrow>
     and_then (ok_or ''invalid complete candidate state'' (cd_state_of cd snapshot)) (\<lambda>st.
       if list_ex (\<lambda>e. me_serial e = []) (known_monitors st)
       then Err ''candidate state contains an empty monitor serial'' else Ok ())))"

text \<open>The operation and, unless the record is of the older form, the prepared candidate state.\<close>

definition decode_prepared_operation :: "codec \<Rightarrow> string \<Rightarrow> json \<Rightarrow> (json \<times> json option, string) result" where
  "decode_prepared_operation cd operation_id prepared =
     (case Option.bind (jget ''version'' prepared) as_u64 of
        None \<Rightarrow> map_ok (\<lambda>_. (prepared, None)) (validate_legacy_operation cd operation_id prepared)
      | Some version \<Rightarrow>
          if version \<noteq> 1 then Err (''unsupported prepared operation version: '' @ dec_nat version)
          else
            and_then (ok_or (''prepared operation payload is missing: '' @ operation_id)
              (jget ''operation'' prepared)) (\<lambda>operation.
            and_then (validate_operation_id_binding cd operation_id operation) (\<lambda>_.
            and_then (ok_or (''prepared candidate state is missing: '' @ operation_id)
              (jget ''candidate_state'' prepared)) (\<lambda>candidate.
            and_then (validate_candidate_state cd operation_id candidate) (\<lambda>_.
              Ok (operation, Some candidate))))))"

section \<open>Replay\<close>

definition replay_one :: "'w engine_env \<Rightarrow> codec \<Rightarrow> string \<Rightarrow> json \<Rightarrow> ('w, asset option) io" where
  "replay_one env cd operation_id operation =
     bind_io (lift_io (patch_asset_id operation_id)) (\<lambda>patch.
       case patch of
         Some asset_id \<Rightarrow>
           bind_io (lift_io (ok_or ''invalid prepared asset patch operation'' (cd_patch_of cd operation))) (\<lambda>request.
           bind_io (env_patch env asset_id request) (\<lambda>a. ret (Some a)))
       | None \<Rightarrow>
           if starts_with ''checkout:'' operation_id then
             bind_io (lift_io (ok_or ''invalid prepared monitor checkout operation'' (cd_checkout_of cd operation))) (\<lambda>o'.
               if co_operation_id o' \<noteq> operation_id
               then fail (Message ''prepared checkout operation ID does not match payload'')
               else bind_io (env_checkout env o') (\<lambda>_. ret None))
           else if starts_with ''checkin:'' operation_id then
             bind_io (lift_io (ok_or ''invalid prepared monitor check-in operation'' (cd_checkin_of cd operation))) (\<lambda>o'.
               if ci_operation_id o' \<noteq> operation_id
               then fail (Message ''prepared check-in operation ID does not match payload'')
               else bind_io (env_checkin env o') (\<lambda>_. ret None))
           else fail (Message (''unknown prepared operation kind: '' @ operation_id)))"

text \<open>The asset that the remote answered replaces the one of the candidate.\<close>

definition merge_recovered_asset :: "codec \<Rightarrow> json option \<Rightarrow> asset option \<Rightarrow> (json option, string) result" where
  "merge_recovered_asset cd candidate authoritative =
     (case authoritative of
        None \<Rightarrow> Ok candidate
      | Some a \<Rightarrow>
          (case candidate of
             None \<Rightarrow> Ok None
           | Some c \<Rightarrow>
               (case (c, jget ''state'' c) of
                  (JObj members, Some (JObj st)) \<Rightarrow>
                    Ok (Some (JObj (bt_insert ''state''
                      (JObj (bt_insert ''matched_asset'' (cd_asset cd (Some (asset_summary_of a))) st)) members)))
                | _ \<Rightarrow> Err ''recovered candidate state is missing state object'')))"

definition recover_one :: "'w engine_env \<Rightarrow> codec \<Rightarrow> pending_operation \<Rightarrow> ('w, string) io" where
  "recover_one env cd p =
     (let i = po_operation_id p in
      bind_io (lift_io (decode_prepared_operation cd i (po_operation p))) (\<lambda>(operation, prepared_candidate).
      let candidate = (case po_candidate_state p of Some c \<Rightarrow> Some c | None \<Rightarrow> prepared_candidate) in
      bind_io (lift_io (case candidate of Some c \<Rightarrow> validate_candidate_state cd i c | None \<Rightarrow> Ok ())) (\<lambda>_.
      bind_io (replay_one env cd i operation) (\<lambda>authoritative.
      bind_io (lift_io (merge_recovered_asset cd candidate authoritative)) (\<lambda>candidate.
      bind_io (if po_remote_outcome p = None
               then observe_remote_outcome env i reconciled_outcome candidate else ret ()) (\<lambda>_.
        ret i))))))"

fun recover_each :: "'w engine_env \<Rightarrow> codec \<Rightarrow> pending_operation list \<Rightarrow> string list \<Rightarrow> ('w, string list) io" where
  "recover_each env cd [] observed = ret observed"
| "recover_each env cd (p # ps) observed =
     bind_io (recover_one env cd p) (\<lambda>i. recover_each env cd ps (observed @ [i]))"

definition recover_pending :: "'w engine_env \<Rightarrow> codec \<Rightarrow> ('w, string list) io" where
  "recover_pending env cd =
     bind_io (env_recover env) (\<lambda>outcome.
     bind_io (lift_io (clean_records outcome)) (\<lambda>records.
     bind_io (lift_io (pending_with_evidence records)) (\<lambda>pending.
       recover_each env cd pending [])))"

section \<open>The recovered state\<close>

definition apply_candidate_state :: "codec \<Rightarrow> string \<Rightarrow> json \<Rightarrow> (service_state, string) result" where
  "apply_candidate_state cd operation_id candidate =
     and_then (validate_candidate_state cd operation_id candidate) (\<lambda>_.
     and_then (ok_or ''candidate state snapshot is missing'' (jget ''state'' candidate)) (\<lambda>snapshot.
       ok_or ''invalid complete candidate state'' (cd_state_of cd snapshot)))"

text \<open>\<open>iter_mut().find\<close>: the first entry mapped to the asset is changed.\<close>

fun set_checked_out :: "u64 \<Rightarrow> bool \<Rightarrow> monitor_entry list \<Rightarrow> monitor_entry list option" where
  "set_checked_out asset_id out [] = None"
| "set_checked_out asset_id out (e # es) =
     (if snipeit_asset_id e = Some asset_id then Some (e\<lparr>checked_out := out\<rparr> # es)
      else map_option ((#) e) (set_checked_out asset_id out es))"

definition apply_monitor_delta :: "service_state \<Rightarrow> u64 \<Rightarrow> bool \<Rightarrow> (service_state, string) result" where
  "apply_monitor_delta st asset_id out =
     (case set_checked_out asset_id out (known_monitors st) of
        None \<Rightarrow> Err (''legacy monitor recovery found no asset mapping: '' @ dec asset_id)
      | Some es \<Rightarrow> Ok (st\<lparr>known_monitors := es\<rparr>))"

definition apply_legacy_operation_delta :: "codec \<Rightarrow> service_state \<Rightarrow> string \<Rightarrow> json \<Rightarrow> (service_state, string) result" where
  "apply_legacy_operation_delta cd st operation_id operation =
     and_then (patch_asset_id operation_id) (\<lambda>patch.
       case patch of
         Some asset_id \<Rightarrow>
           and_then (ok_or ''invalid legacy prepared asset patch operation'' (cd_patch_of cd operation)) (\<lambda>request.
             case matched_asset st of
               None \<Rightarrow> Err (''legacy patch recovery requires a matched asset: '' @ operation_id)
             | Some s \<Rightarrow>
                 if sm_id s \<noteq> asset_id
                 then Err (''legacy patch asset ID does not match persisted state: '' @ operation_id)
                 else Ok (st\<lparr>matched_asset := Some (s
                   \<lparr>sm_name := (case pr_name request of Some n \<Rightarrow> n | None \<Rightarrow> sm_name s),
                    sm_serial := (if pr_serial request \<noteq> None then pr_serial request else sm_serial s),
                    sm_asset_tag := (if pr_asset_tag request \<noteq> None then pr_asset_tag request else sm_asset_tag s)\<rparr>)\<rparr>))
       | None \<Rightarrow>
           if starts_with ''checkout:'' operation_id then
             and_then (ok_or ''invalid legacy prepared monitor checkout operation'' (cd_checkout_of cd operation)) (\<lambda>o'.
               if co_operation_id o' \<noteq> operation_id
               then Err ''legacy checkout operation ID does not match payload''
               else apply_monitor_delta st (co_source_asset_id o') True)
           else if starts_with ''checkin:'' operation_id then
             and_then (ok_or ''invalid legacy prepared monitor check-in operation'' (cd_checkin_of cd operation)) (\<lambda>o'.
               if ci_operation_id o' \<noteq> operation_id
               then Err ''legacy check-in operation ID does not match payload''
               else apply_monitor_delta st (ci_source_asset_id o') False)
           else Err (''unknown legacy prepared operation kind: '' @ operation_id))"

text \<open>One round of the loop over the pending evidence: the candidate and the applied IDs.\<close>

definition apply_evidence ::
  "codec \<Rightarrow> string list \<Rightarrow> service_state \<times> string set \<Rightarrow> pending_operation
     \<Rightarrow> (service_state \<times> string set, string) result" where
  "apply_evidence cd operation_ids = (\<lambda>(candidate, applied) evidence.
     let i = po_operation_id evidence in
     if i \<notin> set operation_ids then Ok (candidate, applied)
     else
       and_then (ok_or (''recovered operation outcome is missing: '' @ i) (po_remote_outcome evidence)) (\<lambda>outcome.
       if Option.bind (jget ''status'' outcome) as_str = None
       then Err (''recovered operation outcome is invalid: '' @ i)
       else
       and_then
         (case po_candidate_state evidence of
            Some c \<Rightarrow> apply_candidate_state cd i c
          | None \<Rightarrow>
              and_then (decode_prepared_operation cd i (po_operation evidence)) (\<lambda>(operation, prepared_candidate).
                case prepared_candidate of
                  Some c \<Rightarrow> apply_candidate_state cd i c
                | None \<Rightarrow> apply_legacy_operation_delta cd candidate i operation)) (\<lambda>candidate'.
         Ok (candidate', insert i applied))))"

fun apply_all_evidence ::
  "codec \<Rightarrow> string list \<Rightarrow> pending_operation list \<Rightarrow> service_state \<times> string set
     \<Rightarrow> (service_state \<times> string set, string) result" where
  "apply_all_evidence cd operation_ids [] s = Ok s"
| "apply_all_evidence cd operation_ids (p # ps) s =
     and_then (apply_evidence cd operation_ids s p) (apply_all_evidence cd operation_ids ps)"

text \<open>The new state on success; on an error the caller's state is the old one.\<close>

definition apply_recovered_candidate_states ::
  "codec \<Rightarrow> service_state \<Rightarrow> journal_record list \<Rightarrow> string list \<Rightarrow> (service_state, string) result" where
  "apply_recovered_candidate_states cd st records operation_ids =
     and_then (pending_with_evidence records) (\<lambda>pending.
     and_then (apply_all_evidence cd operation_ids pending (st, {})) (\<lambda>(candidate, applied).
     case find (\<lambda>i. i \<notin> applied) operation_ids of
       Some i \<Rightarrow> Err (''recovered operation evidence is missing: '' @ i)
     | None \<Rightarrow> Ok candidate))"

end
