(* ===== verification/Execution.thy ===== *)
theory Execution
  imports Replay "HOL-Library.Sublist"
begin

text \<open>
  Correctness of plan execution: the write-ahead discipline, as a statement about the sequence of
  effects that an execution requests, and what it means for the journal.
\<close>

section \<open>The mutations of a plan, uniformly\<close>

datatype mutation = PatchOp u64 asset_patch_request | CheckoutOp monitor_checkout | CheckinOp monitor_checkin

definition mutations :: "sync_plan \<Rightarrow> u64 option \<Rightarrow> mutation list" where
  "mutations plan computer_asset_id =
     (case (asset_update plan, computer_asset_id) of
        (Some request, Some asset_id) \<Rightarrow> [PatchOp asset_id request] | _ \<Rightarrow> [])
     @ map CheckoutOp (monitor_checkouts plan) @ map CheckinOp (monitor_checkins plan)"

primrec mutation_id :: "codec \<Rightarrow> mutation \<Rightarrow> string" where
  "mutation_id cd (PatchOp asset_id request) = patch_operation_id cd asset_id request"
| "mutation_id cd (CheckoutOp o') = co_operation_id o'"
| "mutation_id cd (CheckinOp o') = ci_operation_id o'"

primrec mutation_json :: "codec \<Rightarrow> mutation \<Rightarrow> json" where
  "mutation_json cd (PatchOp asset_id request) = cd_patch cd request"
| "mutation_json cd (CheckoutOp o') = cd_checkout cd o'"
| "mutation_json cd (CheckinOp o') = cd_checkin cd o'"

text \<open>The state after a mutation, given the asset that a patch answers.\<close>

primrec state_after :: "codec \<Rightarrow> sync_plan \<Rightarrow> service_state \<Rightarrow> asset \<Rightarrow> service_state \<Rightarrow> mutation \<Rightarrow> service_state" where
  "state_after cd plan final_state a current (PatchOp asset_id request) =
     current\<lparr>matched_asset := Some (asset_summary_of a)\<rparr>"
| "state_after cd plan final_state a current (CheckoutOp o') =
     state_after_operation current final_state plan (co_operation_id o') None"
| "state_after cd plan final_state a current (CheckinOp o') =
     state_after_operation current final_state plan (ci_operation_id o') None"

section \<open>Traced effects\<close>

datatype engine_event = Appended journal_record | Sent mutation

definition traced :: "'w engine_env \<Rightarrow> ('w \<times> engine_event list) engine_env" where
  "traced env =
     \<lparr>env_append = (\<lambda>r (w, t). case env_append env r w of (x, w') \<Rightarrow> (x, (w', t @ [Appended r]))),
      env_recover = (\<lambda>(w, t). case env_recover env w of (x, w') \<Rightarrow> (x, (w', t))),
      env_compact = (\<lambda>rs (w, t). case env_compact env rs w of (x, w') \<Rightarrow> (x, (w', t))),
      env_patch = (\<lambda>i request (w, t). case env_patch env i request w of (x, w') \<Rightarrow>
        (x, (w', t @ [Sent (PatchOp i request)]))),
      env_checkout = (\<lambda>o' (w, t). case env_checkout env o' w of (x, w') \<Rightarrow> (x, (w', t @ [Sent (CheckoutOp o')]))),
      env_checkin = (\<lambda>o' (w, t). case env_checkin env o' w of (x, w') \<Rightarrow> (x, (w', t @ [Sent (CheckinOp o')]))),
      env_before_terminal = (\<lambda>(w, t). case env_before_terminal env w of (x, w') \<Rightarrow> (x, (w', t))),
      env_after_terminal = (\<lambda>(w, t). case env_after_terminal env w of (x, w') \<Rightarrow> (x, (w', t)))\<rparr>"

section \<open>The script of a plan\<close>

text \<open>
  What an execution is to request: for each mutation the durable preparation, then the mutation,
  then the durable observation; the candidate of an observation holds the state reached so far.
\<close>

definition operation_script ::
  "codec \<Rightarrow> sync_plan \<Rightarrow> service_state \<Rightarrow> asset \<Rightarrow> service_state \<Rightarrow> mutation \<Rightarrow> engine_event list" where
  "operation_script cd plan final_state a current m =
     (let i = mutation_id cd m in
      [Appended (Prepared i (prepared_payload (mutation_json cd m)
         (Some (complete_candidate_state cd i (state_after_operation current final_state plan i None))))),
       Sent m,
       Appended (RemoteOutcomeObserved i applied_outcome
         (Some (complete_candidate_state cd i (state_after cd plan final_state a current m))))])"

fun script ::
  "codec \<Rightarrow> sync_plan \<Rightarrow> service_state \<Rightarrow> asset \<Rightarrow> service_state \<Rightarrow> mutation list \<Rightarrow> engine_event list" where
  "script cd plan final_state a current [] = []"
| "script cd plan final_state a current (m # ms) =
     operation_script cd plan final_state a current m
     @ script cd plan final_state a (state_after cd plan final_state a current m) ms"

definition start_state :: "service_state \<Rightarrow> service_state \<Rightarrow> service_state" where
  "start_state base_state final_state =
     base_state\<lparr>last_sync_time := last_sync_time final_state, last_sync_result := last_sync_result final_state\<rparr>"

section \<open>The uniform loop\<close>

text \<open>Sending a mutation, and one round of the loop.\<close>

primrec send :: "'w engine_env \<Rightarrow> asset \<Rightarrow> mutation \<Rightarrow> ('w, asset) io" where
  "send env a (PatchOp i request) = env_patch env i request"
| "send env a (CheckoutOp o') = bind_io (env_checkout env o') (\<lambda>_. ret a)"
| "send env a (CheckinOp o') = bind_io (env_checkin env o') (\<lambda>_. ret a)"

definition run_one ::
  "'w engine_env \<Rightarrow> codec \<Rightarrow> sync_plan \<Rightarrow> service_state \<Rightarrow> asset \<Rightarrow> service_state \<Rightarrow> mutation
     \<Rightarrow> ('w, asset \<times> service_state) io" where
  "run_one env cd plan final_state a current m =
     (let i = mutation_id cd m in
      bind_io (prepare env i (mutation_json cd m)
        (Some (complete_candidate_state cd i (state_after_operation current final_state plan i None)))) (\<lambda>_.
      bind_io (send env a m) (\<lambda>a'.
      let current' = state_after cd plan final_state a' current m in
      bind_io (observe_remote_outcome env i applied_outcome (Some (complete_candidate_state cd i current'))) (\<lambda>_.
        ret (a', current')))))"

fun run_all ::
  "'w engine_env \<Rightarrow> codec \<Rightarrow> sync_plan \<Rightarrow> service_state \<Rightarrow> asset \<Rightarrow> service_state \<Rightarrow> mutation list
     \<Rightarrow> ('w, asset \<times> service_state) io" where
  "run_all env cd plan final_state a current [] = ret (a, current)"
| "run_all env cd plan final_state a current (m # ms) =
     bind_io (run_one env cd plan final_state a current m) (\<lambda>(a', current').
       run_all env cd plan final_state a' current' ms)"

lemma run_all_append:
  "run_all env cd plan final_state a current (ms @ ms') =
     bind_io (run_all env cd plan final_state a current ms) (\<lambda>(a', current').
       run_all env cd plan final_state a' current' ms')"
  by (induction ms arbitrary: a current) (simp_all add: bind_io_assoc case_prod_unfold)

lemma execute_checkouts_run:
  "execute_checkouts env cd plan final_state ops (current, confirmed) =
     bind_io (run_all env cd plan final_state a current (map CheckoutOp ops)) (\<lambda>(_, current').
       ret (current', confirmed @ map co_operation_id ops))"
  by (induction ops arbitrary: current confirmed)
     (simp_all add: run_one_def bind_io_assoc Let_def case_prod_unfold del: ret_apply)

lemma execute_checkins_run:
  "execute_checkins env cd plan final_state ops (current, confirmed) =
     bind_io (run_all env cd plan final_state a current (map CheckinOp ops)) (\<lambda>(_, current').
       ret (current', confirmed @ map ci_operation_id ops))"
  by (induction ops arbitrary: current confirmed)
     (simp_all add: run_one_def bind_io_assoc Let_def case_prod_unfold del: ret_apply)

text \<open>The matched asset of the outcome.\<close>

definition matched_after :: "sync_plan \<Rightarrow> u64 option \<Rightarrow> service_state \<Rightarrow> asset \<Rightarrow> asset_summary option" where
  "matched_after plan computer_asset_id final_state a =
     (if asset_update plan \<noteq> None \<and> computer_asset_id \<noteq> None then Some (asset_summary_of a)
      else matched_asset final_state)"

lemma send_monitor:
  assumes "\<forall>m\<in>set ms. \<forall>i request. m \<noteq> PatchOp i request"
  shows "run_all env cd plan final_state a current ms =
    bind_io (run_all env cd plan final_state a current ms) (\<lambda>(_, current'). ret (a, current'))"
  using assms
proof (induction ms arbitrary: current)
  case (Cons m ms)
  have one: "run_one env cd plan final_state a current m =
      bind_io (run_one env cd plan final_state a current m) (\<lambda>(_, current'). ret (a, current'))" for current
    using Cons.prems by (cases m) (auto simp: run_one_def bind_io_assoc Let_def simp del: ret_apply)
  show ?case
    unfolding run_all.simps
    apply (subst one)
    apply (subst (2) one)
    using Cons by (simp add: bind_io_assoc case_prod_unfold del: ret_apply)
qed (simp del: ret_apply)

lemma run_monitors:
  "bind_io (execute_checkouts env cd plan final_state cos (current, confirmed)) (\<lambda>s.
     bind_io (execute_checkins env cd plan final_state cis s) (\<lambda>(_, confirmed'). ret (k confirmed'))) =
   bind_io (run_all env cd plan final_state a current (map CheckoutOp cos @ map CheckinOp cis))
     (\<lambda>_. ret (k (confirmed @ map co_operation_id cos @ map ci_operation_id cis)))"
  unfolding execute_checkouts_run [where a = a] bind_io_assoc case_prod_unfold bind_io_ret
    execute_checkins_run [where a = a] run_all_append
  by (subst send_monitor) (auto simp: bind_io_assoc case_prod_unfold simp del: ret_apply)

lemma run_monitors_keep:
  "bind_io (run_all env cd plan final_state a current (map CheckoutOp cos @ map CheckinOp cis)) (\<lambda>_. ret (k a)) =
   bind_io (run_all env cd plan final_state a current (map CheckoutOp cos @ map CheckinOp cis)) (\<lambda>(a', _). ret (k a'))"
  by (subst (1 2) send_monitor) (auto simp: bind_io_assoc case_prod_unfold simp del: ret_apply)

text \<open>An execution is the validation of the IDs followed by the uniform loop over the mutations.\<close>

lemma execute_plan_inner_run:
  "execute_plan_inner env cd plan computer_asset_id base_state final_state =
     bind_io (lift_io (validate_unique_operation_ids cd plan computer_asset_id)) (\<lambda>_.
     bind_io (run_all env cd plan final_state a (start_state base_state final_state) (mutations plan computer_asset_id))
       (\<lambda>(a', _). ret \<lparr>ex_next_monitor_state = next_monitor_state plan,
          ex_matched_asset = matched_after plan computer_asset_id final_state a',
          ex_warnings = warnings plan,
          ex_confirmed = map (mutation_id cd) (mutations plan computer_asset_id)\<rparr>))"
  (is "_ = bind_io ?validate (\<lambda>_. ?loop)")
proof -
  define start where "start = start_state base_state final_state"
  define k where "k = (\<lambda>matched confirmed. \<lparr>ex_next_monitor_state = next_monitor_state plan, ex_matched_asset = matched,
    ex_warnings = warnings plan, ex_confirmed = confirmed\<rparr>)"
  have tail: "bind_io (execute_checkouts env cd plan final_state (monitor_checkouts plan) (current, confirmed)) (\<lambda>s.
      bind_io (execute_checkins env cd plan final_state (monitor_checkins plan) s) (\<lambda>(_, confirmed'). ret (k matched confirmed'))) =
    bind_io (run_all env cd plan final_state a' current (map CheckoutOp (monitor_checkouts plan) @ map CheckinOp (monitor_checkins plan)))
      (\<lambda>_. ret (k matched (confirmed @ map co_operation_id (monitor_checkouts plan) @ map ci_operation_id (monitor_checkins plan))))"
    for current confirmed matched a'
    by (rule run_monitors)
  have "bind_io (execute_patch env cd plan final_state computer_asset_id start) (\<lambda>(current, matched, confirmed).
      bind_io (execute_checkouts env cd plan final_state (monitor_checkouts plan) (current, confirmed)) (\<lambda>s.
      bind_io (execute_checkins env cd plan final_state (monitor_checkins plan) s) (\<lambda>(_, confirmed'). ret (k matched confirmed')))) = ?loop"
  proof (cases "\<exists>request asset_id. asset_update plan = Some request \<and> computer_asset_id = Some asset_id")
    case False
    then have "execute_patch env cd plan final_state computer_asset_id start = ret (start, matched_asset final_state, [])"
      "mutations plan computer_asset_id = map CheckoutOp (monitor_checkouts plan) @ map CheckinOp (monitor_checkins plan)"
      "\<And>a. matched_after plan computer_asset_id final_state a = matched_asset final_state"
      by (auto simp: execute_patch_def mutations_def matched_after_def split: option.split)
    then show ?thesis
      using tail [of start "[]" "matched_asset final_state" a]
      by (simp add: k_def start_def case_prod_unfold o_def del: ret_apply)
  next
    case True
    then obtain request asset_id where some: "asset_update plan = Some request" "computer_asset_id = Some asset_id"
      by blast
    define i where "i = patch_operation_id cd asset_id request"
    have patch: "execute_patch env cd plan final_state computer_asset_id start =
        bind_io (run_one env cd plan final_state a start (PatchOp asset_id request)) (\<lambda>(a', current).
          ret (current, Some (asset_summary_of a'), [i]))"
      by (simp add: execute_patch_def some run_one_def Let_def bind_io_assoc i_def del: ret_apply)
    have loop: "?loop = bind_io (run_one env cd plan final_state a start (PatchOp asset_id request)) (\<lambda>(a', current).
        bind_io (run_all env cd plan final_state a' current (map CheckoutOp (monitor_checkouts plan) @ map CheckinOp (monitor_checkins plan)))
          (\<lambda>(a'', _). ret (k (Some (asset_summary_of a''))
             (i # map co_operation_id (monitor_checkouts plan) @ map ci_operation_id (monitor_checkins plan)))))"
      unfolding mutations_def some matched_after_def k_def i_def start_def
      by (simp add: bind_io_assoc case_prod_unfold o_def del: ret_apply)
    show ?thesis
      unfolding patch loop
      unfolding bind_io_assoc case_prod_unfold bind_io_ret fst_conv snd_conv
      by (rule arg_cong2 [where f = bind_io, OF refl], rule ext)
         (rule trans [OF tail [unfolded case_prod_unfold, where confirmed = "[i]", unfolded append.simps]
            run_monitors_keep [unfolded case_prod_unfold,
              where k = "\<lambda>a. k (Some (asset_summary_of a)) c" for c]])
  qed
  then show ?thesis
    unfolding execute_plan_inner_def start_def start_state_def k_def by (simp del: ret_apply)
qed

section \<open>The trace of an execution\<close>

text \<open>
  Carrying out a script: its effects in order, each only after all before it have succeeded; the
  answer is the first failure, and the events are those requested, the failed one included.
\<close>

primrec perform_event :: "'w engine_env \<Rightarrow> engine_event \<Rightarrow> ('w, unit) io" where
  "perform_event env (Appended r) = env_append env r"
| "perform_event env (Sent m) = (case m of
     PatchOp i q \<Rightarrow> bind_io (env_patch env i q) (\<lambda>_. ret ())
   | CheckoutOp o' \<Rightarrow> env_checkout env o'
   | CheckinOp o' \<Rightarrow> env_checkin env o')"

fun carry_out :: "'w engine_env \<Rightarrow> engine_event list \<Rightarrow> 'w \<Rightarrow> (unit, failure) result \<times> 'w \<times> engine_event list" where
  "carry_out env [] w = (Ok (), w, [])"
| "carry_out env (e # es) w =
     (case perform_event env e w of
        (Ok _, w1) \<Rightarrow> (case carry_out env es w1 of (r, w2, t) \<Rightarrow> (r, w2, e # t))
      | (Err x, w1) \<Rightarrow> (Err x, w1, [e]))"

lemma carry_out_append:
  "carry_out env (es @ es') w =
     (case carry_out env es w of
        (Ok _, w1, t) \<Rightarrow> (case carry_out env es' w1 of (r, w2, t') \<Rightarrow> (r, w2, t @ t'))
      | (Err x, w1, t) \<Rightarrow> (Err x, w1, t))"
  by (induction es arbitrary: w) (auto split: prod.splits result.splits)

lemma carry_out_prefix: "carry_out env es w = (r, w', t) \<Longrightarrow> prefix t es \<and> (is_ok r \<longrightarrow> t = es)"
  by (induction es arbitrary: w r w' t) (auto split: prod.splits result.splits)

lemma perform_event_send: "perform_event env (Sent m) w = (map_ok (\<lambda>_. ()) (fst (send env a m w)), snd (send env a m w))"
  by (cases m) (auto simp: bind_io_def split: prod.splits result.splits)

lemma carry_out_operation:
  "carry_out env [Appended p, Sent m, Appended q] w =
     (case env_append env p w of
        (Err x, w1) \<Rightarrow> (Err x, w1, [Appended p])
      | (Ok _, w1) \<Rightarrow>
          (case send env a m w1 of
             (Err x, w2) \<Rightarrow> (Err x, w2, [Appended p, Sent m])
           | (Ok _, w2) \<Rightarrow> (case env_append env q w2 of (r, w3) \<Rightarrow> (r, w3, [Appended p, Sent m, Appended q]))))"
proof -
  obtain r1 w1 where 1: "env_append env p w = (r1, w1)" by (rule prod.exhaust)
  obtain r2 w2 where 2: "send env a m w1 = (r2, w2)" by (rule prod.exhaust)
  obtain r3 w3 where 3: "env_append env q w2 = (r3, w3)" by (rule prod.exhaust)
  have sent: "perform_event env (Sent m) w1 = (map_ok (\<lambda>_. ()) r2, w2)" using perform_event_send [of env m w1 a] 2 by simp
  show ?thesis
    using 1 2 3 sent by (cases r1; cases r2; cases r3) (simp_all del: perform_event.simps(2))
qed

text \<open>
  A run from a trace: it carries out the expected events, with their answer, their effects and
  their trace.
\<close>

definition follows ::
  "'w engine_env \<Rightarrow> 'w \<Rightarrow> 'w \<Rightarrow> ('a, failure) result \<Rightarrow> engine_event list \<Rightarrow> engine_event list
     \<Rightarrow> engine_event list \<Rightarrow> bool" where
  "follows env w w' r t t' expected \<longleftrightarrow>
     (\<exists>u. t' = t @ u \<and> carry_out env expected w = (map_ok (\<lambda>_. ()) r, w', u))"

lemma follows_stop: "follows env w w' (Err e) t t' es \<Longrightarrow> follows env w w' (Err e) t t' (es @ es')"
  by (auto simp: follows_def carry_out_append)

lemma follows_append:
  assumes "follows env w w1 (Ok x) t t1 es" "follows env w1 w' r t1 t' es'"
  shows "follows env w w' r t t' (es @ es')"
  using assms by (auto simp: follows_def carry_out_append)

lemma traced_append: "env_append (traced env) r (w, t) =
    (fst (env_append env r w), (snd (env_append env r w), t @ [Appended r]))"
  by (simp add: traced_def case_prod_unfold)

lemma traced_send: "send (traced env) a m (w, t) =
    (fst (send env a m w), (snd (send env a m w), t @ [Sent m]))"
  by (cases m) (auto simp: traced_def case_prod_unfold bind_io_def split: result.splits prod.splits)

lemma send_keeps: "send env a m w = (Ok a', w') \<Longrightarrow> (\<And>i request. m \<noteq> PatchOp i request) \<Longrightarrow> a' = a"
  by (cases m) (auto simp: bind_io_eq_Ok)

lemma run_one_traced:
  assumes "run_one (traced env) cd plan final_state a current m (w, t) = (r, (w', t'))"
  shows "run_one env cd plan final_state a current m w = (r, w')"
    and "\<exists>a'. ((\<forall>i request. m \<noteq> PatchOp i request) \<longrightarrow> a' = a)
      \<and> follows env w w' r t t' (operation_script cd plan final_state a' current m)
      \<and> (is_ok r \<longrightarrow> r = Ok (a', state_after cd plan final_state a' current m))"
proof -
  define i where "i = mutation_id cd m"
  define prep where "prep = Prepared i (prepared_payload (mutation_json cd m)
    (Some (complete_candidate_state cd i (state_after_operation current final_state plan i None))))"
  define obs where "obs a' = RemoteOutcomeObserved i applied_outcome
    (Some (complete_candidate_state cd i (state_after cd plan final_state a' current m)))" for a'
  have run: "run_one e cd plan final_state a current m = bind_io (env_append e prep) (\<lambda>_.
      bind_io (send e a m) (\<lambda>a'. bind_io (env_append e (obs a')) (\<lambda>_. ret (a', state_after cd plan final_state a' current m))))"
    for e :: "'b engine_env"
    by (simp add: run_one_def prepare_def observe_remote_outcome_def prep_def obs_def i_def Let_def del: ret_apply)
  have run': "run_one e cd plan final_state a current m = bind_io (env_append e prep) (\<lambda>_.
      bind_io (send e a m) (\<lambda>a'. bind_io (env_append e (obs a')) (\<lambda>_. ret (a', state_after cd plan final_state a' current m))))"
    for e :: "('b \<times> engine_event list) engine_env"
    by (simp add: run_one_def prepare_def observe_remote_outcome_def prep_def obs_def i_def Let_def del: ret_apply)
  have ops: "operation_script cd plan final_state a' current m = [Appended prep, Sent m, Appended (obs a')]" for a'
    by (simp add: operation_script_def prep_def obs_def i_def Let_def)
  obtain r1 w1 where 1: "env_append env prep w = (r1, w1)" by (cases "env_append env prep w")
  obtain r2 w2 where 2: "send env a m w1 = (r2, w2)" by (cases "send env a m w1")
  have "run_one env cd plan final_state a current m w = (r, w') \<and> (\<exists>a'. ((\<forall>i request. m \<noteq> PatchOp i request) \<longrightarrow> a' = a)
      \<and> follows env w w' r t t' (operation_script cd plan final_state a' current m)
      \<and> (is_ok r \<longrightarrow> r = Ok (a', state_after cd plan final_state a' current m)))"
  proof (cases r1)
    case (Err e)
    then have "r = Err e" "w' = w1" "t' = t @ [Appended prep]"
      using assms 1 unfolding run' by (auto simp: bind_io_def traced_append)
    with 1 Err show ?thesis by (intro conjI exI [of _ a]) (simp_all add: run follows_def ops carry_out_operation [of _ _ m _ _ a] del: carry_out.simps)
  next
    case (Ok u)
    show ?thesis
    proof (cases r2)
      case (Err e)
      then have "r = Err e" "w' = w2" "t' = t @ [Appended prep, Sent m]"
        using assms 1 2 Ok unfolding run' by (auto simp: bind_io_def traced_append traced_send)
      with 1 2 Ok Err show ?thesis by (intro conjI exI [of _ a]) (simp_all add: run follows_def ops carry_out_operation [of _ _ m _ _ a] del: carry_out.simps)
    next
      case (Ok a')
      obtain r3 w3 where 3: "env_append env (obs a') w2 = (r3, w3)" by (cases "env_append env (obs a') w2")
      have keep: "(\<forall>i request. m \<noteq> PatchOp i request) \<longrightarrow> a' = a" using send_keeps [of env a m w1 a' w2] 2 Ok by simp
      have 4: "run_one (traced env) cd plan final_state a current m (w, t) =
          (map_ok (\<lambda>_. (a', state_after cd plan final_state a' current m)) r3,
           (w3, t @ [Appended prep, Sent m, Appended (obs a')]))"
        using 1 2 3 \<open>r1 = Ok u\<close> Ok unfolding run' by (cases r3) (simp_all add: bind_io_def traced_append traced_send)
      have 5: "run_one env cd plan final_state a current m w =
          (map_ok (\<lambda>_. (a', state_after cd plan final_state a' current m)) r3, w3)"
        using 1 2 3 \<open>r1 = Ok u\<close> Ok unfolding run by (cases r3) (simp_all add: bind_io_def)
      have "r = map_ok (\<lambda>_. (a', state_after cd plan final_state a' current m)) r3" "w' = w3"
          "t' = t @ [Appended prep, Sent m, Appended (obs a')]"
        using 4 assms by simp_all
      moreover from this have "follows env w w' r t t' (operation_script cd plan final_state a' current m)"
        using 1 2 3 \<open>r1 = Ok u\<close> Ok
        by (cases r3) (simp_all add: follows_def ops carry_out_operation [of _ _ m _ _ a] del: carry_out.simps)
      ultimately show ?thesis
        using 5 keep by (intro conjI exI [of _ a']) (auto simp: is_ok_iff)
    qed
  qed
  then show "run_one env cd plan final_state a current m w = (r, w')"
    "\<exists>a'. ((\<forall>i request. m \<noteq> PatchOp i request) \<longrightarrow> a' = a)
      \<and> follows env w w' r t t' (operation_script cd plan final_state a' current m)
      \<and> (is_ok r \<longrightarrow> r = Ok (a', state_after cd plan final_state a' current m))" by blast+
qed

text \<open>The state reached after the first mutations of a list.\<close>

definition states_after ::
  "codec \<Rightarrow> sync_plan \<Rightarrow> service_state \<Rightarrow> asset \<Rightarrow> service_state \<Rightarrow> mutation list \<Rightarrow> service_state" where
  "states_after cd plan final_state a current ms = foldl (state_after cd plan final_state a) current ms"

lemma run_all_traced:
  assumes "\<forall>m\<in>set ms. \<forall>i request. m \<noteq> PatchOp i request"
    and "run_all (traced env) cd plan final_state a current ms (w, t) = (r, (w', t'))"
  shows "run_all env cd plan final_state a current ms w = (r, w')
    \<and> follows env w w' r t t' (script cd plan final_state a current ms)
    \<and> (is_ok r \<longrightarrow> r = Ok (a, states_after cd plan final_state a current ms))"
  using assms
proof (induction ms arbitrary: current w t)
  case Nil
  then show ?case by (auto simp: follows_def states_after_def)
next
  case (Cons m ms)
  obtain r1 w1 t1 where one: "run_one (traced env) cd plan final_state a current m (w, t) = (r1, (w1, t1))"
    by (metis prod.exhaust)
  have m: "\<forall>i request. m \<noteq> PatchOp i request" using Cons.prems(1) by simp
  note plain = run_one_traced(1) [OF one]
  have step: "follows env w w1 r1 t t1 (operation_script cd plan final_state a current m)"
    "is_ok r1 \<longrightarrow> r1 = Ok (a, state_after cd plan final_state a current m)"
    using run_one_traced(2) [OF one] m by auto
  show ?case
  proof (cases r1)
    case (Err e)
    then show ?thesis
      using Cons.prems(2) one plain follows_stop step(1) by (auto simp: bind_io_def)
  next
    case (Ok x)
    then have x: "x = (a, state_after cd plan final_state a current m)" using step(2) by simp
    then have "run_all (traced env) cd plan final_state a (state_after cd plan final_state a current m) ms (w1, t1) = (r, (w', t'))"
      using Cons.prems(2) one Ok by (simp add: bind_io_def)
    from Cons.IH [OF _ this] Cons.prems(1) show ?thesis
      using plain Ok x step(1) by (auto simp: bind_io_def states_after_def intro: follows_append)
  qed
qed

lemma mutations_traced:
  assumes "run_all (traced env) cd plan final_state a current (mutations plan computer_asset_id) (w, t) = (r, (w', t'))"
  shows "run_all env cd plan final_state a current (mutations plan computer_asset_id) w = (r, w')
    \<and> (\<exists>a'. follows env w w' r t t' (script cd plan final_state a' current (mutations plan computer_asset_id))
        \<and> (is_ok r \<longrightarrow> r = Ok (a', states_after cd plan final_state a' current (mutations plan computer_asset_id))))"
proof (cases "\<exists>request asset_id. asset_update plan = Some request \<and> computer_asset_id = Some asset_id")
  case False
  then have "\<forall>m\<in>set (mutations plan computer_asset_id). \<forall>i request. m \<noteq> PatchOp i request"
    by (auto simp: mutations_def split: option.splits)
  from run_all_traced [OF this assms] show ?thesis by blast
next
  case True
  then obtain request asset_id where some: "asset_update plan = Some request" "computer_asset_id = Some asset_id"
    by blast
  define m where "m = PatchOp asset_id request"
  define ms where "ms = map CheckoutOp (monitor_checkouts plan) @ map CheckinOp (monitor_checkins plan)"
  have ms: "mutations plan computer_asset_id = m # ms" "\<forall>m\<in>set ms. \<forall>i request. m \<noteq> PatchOp i request"
    using some by (auto simp: mutations_def m_def ms_def)
  obtain r1 w1 t1 where one: "run_one (traced env) cd plan final_state a current m (w, t) = (r1, (w1, t1))"
    by (metis prod.exhaust)
  note plain = run_one_traced(1) [OF one]
  obtain a' where step: "follows env w w1 r1 t t1 (operation_script cd plan final_state a' current m)"
    "is_ok r1 \<longrightarrow> r1 = Ok (a', state_after cd plan final_state a' current m)"
    using run_one_traced(2) [OF one] by blast
  show ?thesis
  proof (cases r1)
    case (Err e)
    then have "r = Err e" "w' = w1" "t' = t1"
      using assms one by (auto simp: ms(1) bind_io_def)
    then show ?thesis
      using plain step(1) Err by (auto simp: ms(1) bind_io_def intro!: exI [of _ a'] follows_stop)
  next
    case (Ok x)
    then have x: "x = (a', state_after cd plan final_state a' current m)" using step(2) by simp
    then have "run_all (traced env) cd plan final_state a' (state_after cd plan final_state a' current m) ms (w1, t1) = (r, (w', t'))"
      using assms one Ok by (simp add: ms(1) bind_io_def)
    from run_all_traced [OF ms(2) this] show ?thesis
      using plain Ok x step(1)
      by (auto simp: ms(1) bind_io_def states_after_def intro!: exI [of _ a'] follows_append)
  qed
qed

lemma insert_ids_Ok_iff: "insert_ids seen is = Ok seen' \<longleftrightarrow> distinct is \<and> set is \<inter> seen = {} \<and> seen' = seen \<union> set is"
  by (induction "is" arbitrary: seen) auto

lemma mutation_ids: "map (mutation_id cd) (mutations plan computer_asset_id) =
    patch_ids cd plan computer_asset_id @ map co_operation_id (monitor_checkouts plan) @ map ci_operation_id (monitor_checkins plan)"
  by (simp add: mutations_def patch_ids_def o_def split: option.split)

lemma validate_unique_iff:
  "validate_unique_operation_ids cd plan computer_asset_id = Ok () \<longleftrightarrow>
     distinct (map (mutation_id cd) (mutations plan computer_asset_id))"
  by (auto simp: validate_unique_operation_ids_def and_then_eq_Ok insert_ids_Ok_iff mutation_ids)

lemma write_ahead:
  assumes "execute_plan_with_candidate (traced env) cd plan computer_asset_id base_state final_state (w, []) = (r, (w', t))"
  shows "execute_plan_with_candidate env cd plan computer_asset_id base_state final_state w = (r, w')"
    and "if distinct (map (mutation_id cd) (mutations plan computer_asset_id))
      then \<exists>a. carry_out env (script cd plan final_state a (start_state base_state final_state) (mutations plan computer_asset_id)) w
          = (map_ok (\<lambda>_. ()) r, w', t)
        \<and> (case r of
           Ok outcome \<Rightarrow>
             outcome = \<lparr>ex_next_monitor_state = next_monitor_state plan,
                 ex_matched_asset = matched_after plan computer_asset_id final_state a,
                 ex_warnings = warnings plan,
                 ex_confirmed = map (mutation_id cd) (mutations plan computer_asset_id)\<rparr>
         | Err _ \<Rightarrow> True)
      else \<not> is_ok r \<and> w' = w \<and> t = []"
proof -
  define a0 :: asset where "a0 = \<lparr>as_id = 0, as_name = [], as_serial = None, as_asset_tag = None,
    as_status_label = None, as_assigned_to = None, as_model = None\<rparr>"
  note run = execute_plan_with_candidate_def execute_plan_inner_run [where a = a0] bind_io_def
  obtain r1 w1 t1 where loop: "run_all (traced env) cd plan final_state a0 (start_state base_state final_state)
      (mutations plan computer_asset_id) (w, []) = (r1, (w1, t1))" by (metis prod.exhaust)
  from mutations_traced [OF this] obtain a where plain: "run_all env cd plan final_state a0 (start_state base_state final_state)
      (mutations plan computer_asset_id) w = (r1, w1)"
    and trace: "follows env w w1 r1 [] t1 (script cd plan final_state a (start_state base_state final_state) (mutations plan computer_asset_id))"
      "is_ok r1 \<longrightarrow> r1 = Ok (a, states_after cd plan final_state a (start_state base_state final_state) (mutations plan computer_asset_id))"
    by blast
  show "execute_plan_with_candidate env cd plan computer_asset_id base_state final_state w = (r, w')"
    using assms loop plain by (auto simp: run split: result.splits)
  show "if distinct (map (mutation_id cd) (mutations plan computer_asset_id))
      then \<exists>a. carry_out env (script cd plan final_state a (start_state base_state final_state) (mutations plan computer_asset_id)) w
          = (map_ok (\<lambda>_. ()) r, w', t)
        \<and> (case r of
           Ok outcome \<Rightarrow>
             outcome = \<lparr>ex_next_monitor_state = next_monitor_state plan,
                 ex_matched_asset = matched_after plan computer_asset_id final_state a,
                 ex_warnings = warnings plan,
                 ex_confirmed = map (mutation_id cd) (mutations plan computer_asset_id)\<rparr>
         | Err _ \<Rightarrow> True)
      else \<not> is_ok r \<and> w' = w \<and> t = []"
  proof (cases "validate_unique_operation_ids cd plan computer_asset_id")
    case (Err e)
    then have "t = []" "\<not> is_ok r" "w' = w" using assms by (auto simp: run)
    moreover have "\<not> distinct (map (mutation_id cd) (mutations plan computer_asset_id))"
      using Err validate_unique_iff [of cd plan computer_asset_id] by simp
    ultimately show ?thesis by simp
  next
    case (Ok u)
    then have distinct: "distinct (map (mutation_id cd) (mutations plan computer_asset_id))"
      using validate_unique_iff [of cd plan computer_asset_id] by simp
    have "t = t1" "w' = w1" "r = map_ok (\<lambda>(a, _). \<lparr>ex_next_monitor_state = next_monitor_state plan,
        ex_matched_asset = matched_after plan computer_asset_id final_state a, ex_warnings = warnings plan,
        ex_confirmed = map (mutation_id cd) (mutations plan computer_asset_id)\<rparr>) r1"
      using assms loop Ok by (cases r1; auto simp: run)+
    with trace distinct show ?thesis
      by (simp only: if_True, intro exI [of _ a]) (cases r1; auto simp: follows_def)
  qed
qed

end
