(* ===== verification/ExecutionJournal.thy ===== *)
theory ExecutionJournal
  imports Execution
begin

text \<open>
  What plan execution means for the journal: write-ahead order, validity of the journal at every
  point of an execution, settlement by the commit records, and recovery of the state after a crash.
  The derived codecs are a parameter with the law \<open>serde_round_trips\<close>, discharged for the concrete
  \<open>wire_codec\<close>.
\<close>

text \<open>
  C2: execution is write-ahead.  If the IDs of the plan's operations are not distinct, it answers an
  error and has no effect.  Otherwise it carries out the script of the plan (durable preparation,
  mutation, durable observation, in turn for the asset update, the checkouts and the check-ins):
  each effect is requested only after all before it have succeeded, nothing after the first that
  fails, whose error it answers; when it succeeds the whole script has been carried out and the
  operations of the plan are confirmed.  Tracing changes neither result nor effects.
\<close>

theorem execution_is_write_ahead:
  assumes "execute_plan_with_candidate (traced env) cd plan computer_asset_id base_state final_state (w, []) = (r, (w', t))"
  shows "execute_plan_with_candidate env cd plan computer_asset_id base_state final_state w = (r, w')
    \<and> (if distinct (map (mutation_id cd) (mutations plan computer_asset_id))
      then \<exists>a. carry_out env (script cd plan final_state a (start_state base_state final_state) (mutations plan computer_asset_id)) w
          = (map_ok (\<lambda>_. ()) r, w', t)
        \<and> prefix t (script cd plan final_state a (start_state base_state final_state) (mutations plan computer_asset_id))
        \<and> (case r of
           Ok outcome \<Rightarrow>
             t = script cd plan final_state a (start_state base_state final_state) (mutations plan computer_asset_id)
             \<and> outcome = \<lparr>ex_next_monitor_state = next_monitor_state plan,
                 ex_matched_asset = matched_after plan computer_asset_id final_state a,
                 ex_warnings = warnings plan,
                 ex_confirmed = map (mutation_id cd) (mutations plan computer_asset_id)\<rparr>
         | Err _ \<Rightarrow> True)
      else \<not> is_ok r \<and> w' = w \<and> t = [])"
proof (cases "distinct (map (mutation_id cd) (mutations plan computer_asset_id))")
  case True
  with write_ahead(2) [OF assms] obtain a where
    c: "carry_out env (script cd plan final_state a (start_state base_state final_state) (mutations plan computer_asset_id)) w
      = (map_ok (\<lambda>_. ()) r, w', t)"
    and o: "case r of Ok outcome \<Rightarrow> outcome = \<lparr>ex_next_monitor_state = next_monitor_state plan,
        ex_matched_asset = matched_after plan computer_asset_id final_state a, ex_warnings = warnings plan,
        ex_confirmed = map (mutation_id cd) (mutations plan computer_asset_id)\<rparr> | Err _ \<Rightarrow> True"
    by auto
  from carry_out_prefix [OF c] c o write_ahead(1) [OF assms] True show ?thesis
    by (simp only: if_True simp_thms, intro exI [of _ a]) (cases r; simp)
next
  case False
  with write_ahead [OF assms] show ?thesis by simp
qed

section \<open>The journal during an execution\<close>

fun appended :: "engine_event list \<Rightarrow> journal_record list" where
  "appended [] = []"
| "appended (Appended r # t) = r # appended t"
| "appended (Sent m # t) = appended t"

lemma appended_append [simp]: "appended (t @ t') = appended t @ appended t'"
  by (induction t rule: appended.induct) simp_all

text \<open>A mutation in the journal: prepared, and observed with the state it leads to.\<close>

definition waiting_operation ::
  "codec \<Rightarrow> sync_plan \<Rightarrow> service_state \<Rightarrow> service_state \<Rightarrow> mutation \<Rightarrow> pending_operation" where
  "waiting_operation cd plan final_state current m =
     (let i = mutation_id cd m in
      \<lparr>po_operation_id = i,
       po_operation = prepared_payload (mutation_json cd m)
         (Some (complete_candidate_state cd i (state_after_operation current final_state plan i None))),
       po_remote_outcome = None, po_candidate_state = None\<rparr>)"

definition observed_operation ::
  "codec \<Rightarrow> sync_plan \<Rightarrow> service_state \<Rightarrow> asset \<Rightarrow> service_state \<Rightarrow> mutation \<Rightarrow> pending_operation" where
  "observed_operation cd plan final_state a current m =
     (waiting_operation cd plan final_state current m)
       \<lparr>po_remote_outcome := Some applied_outcome,
        po_candidate_state := Some (complete_candidate_state cd (mutation_id cd m)
          (state_after cd plan final_state a current m))\<rparr>"

fun observed_operations ::
  "codec \<Rightarrow> sync_plan \<Rightarrow> service_state \<Rightarrow> asset \<Rightarrow> service_state \<Rightarrow> mutation list \<Rightarrow> pending_operation list" where
  "observed_operations cd plan final_state a current [] = []"
| "observed_operations cd plan final_state a current (m # ms) =
     observed_operation cd plan final_state a current m
     # observed_operations cd plan final_state a (state_after cd plan final_state a current m) ms"

lemma waiting_operation_simps [simp]:
  "po_operation_id (waiting_operation cd plan final_state current m) = mutation_id cd m"
  "po_remote_outcome (waiting_operation cd plan final_state current m) = None"
  "po_operation_id (observed_operation cd plan final_state a current m) = mutation_id cd m"
  "po_remote_outcome (observed_operation cd plan final_state a current m) = Some applied_outcome"
  by (simp_all add: waiting_operation_def observed_operation_def Let_def)

lemma observed_operations_ids [simp]:
  "map po_operation_id (observed_operations cd plan final_state a current ms) = map (mutation_id cd) ms"
  by (induction ms arbitrary: current) simp_all

lemma observed_operations_observed:
  "q \<in> set (observed_operations cd plan final_state a current ms) \<Longrightarrow> po_remote_outcome q = Some applied_outcome"
  by (induction ms arbitrary: current) auto

lemma operation_script_records:
  "appended (operation_script cd plan final_state a current m) =
     [Prepared (mutation_id cd m) (po_operation (waiting_operation cd plan final_state current m)),
      RemoteOutcomeObserved (mutation_id cd m) applied_outcome
        (po_candidate_state (observed_operation cd plan final_state a current m))]"
  by (simp add: operation_script_def waiting_operation_def observed_operation_def Let_def)

lemma pending_prepared:
  assumes "pending_with_evidence rs = Ok ps" "operation_state (mutation_id cd m) rs = Some Absent"
  shows "pending_with_evidence (rs @ [Prepared (mutation_id cd m) (po_operation (waiting_operation cd plan final_state current m))])
    = Ok (ps @ [waiting_operation cd plan final_state current m])"
  using pending_snoc_prepare [OF assms] by (simp add: waiting_operation_def Let_def)

lemma pending_operation_script:
  assumes "pending_with_evidence rs = Ok ps" "operation_state (mutation_id cd m) rs = Some Absent"
  shows "pending_with_evidence (rs @ appended (operation_script cd plan final_state a current m))
    = Ok (ps @ [observed_operation cd plan final_state a current m])"
proof -
  let ?p = "waiting_operation cd plan final_state current m"
  have "pending_with_evidence ((rs @ [Prepared (mutation_id cd m) (po_operation ?p)])
      @ [RemoteOutcomeObserved (po_operation_id ?p) applied_outcome
          (po_candidate_state (observed_operation cd plan final_state a current m))])
    = Ok (ps @ [observed_operation cd plan final_state a current m])"
    using pending_snoc_observe [of "rs @ [Prepared (mutation_id cd m) (po_operation ?p)]" ps ?p "[]"]
      pending_prepared [OF assms, of plan final_state current]
    by (simp add: observed_operation_def)
  then show ?thesis by (simp add: operation_script_records)
qed

lemma operation_script_other:
  "i \<noteq> mutation_id cd m \<Longrightarrow>
     operation_state i (rs @ appended (operation_script cd plan final_state a current m)) = operation_state i rs"
  by (rule operation_state_append_other) (simp add: operation_script_records)

lemma fresh_after:
  assumes "distinct (map (mutation_id cd) (m # ms))" "\<forall>m'\<in>set (m # ms). operation_state (mutation_id cd m') rs = Some Absent"
  shows "\<forall>m'\<in>set ms. operation_state (mutation_id cd m')
    (rs @ appended (operation_script cd plan final_state a current m)) = Some Absent"
proof
  fix m' assume m': "m' \<in> set ms"
  then have "mutation_id cd m' \<in> mutation_id cd ` set ms" by (rule imageI)
  then have "mutation_id cd m' \<noteq> mutation_id cd m" using assms(1) by auto
  then show "operation_state (mutation_id cd m')
      (rs @ appended (operation_script cd plan final_state a current m)) = Some Absent"
    using assms(2) m' by (simp add: operation_script_other)
qed

text \<open>The records of a whole script.\<close>

lemma pending_script:
  assumes "pending_with_evidence rs = Ok ps" "distinct (map (mutation_id cd) ms)"
    "\<forall>m\<in>set ms. operation_state (mutation_id cd m) rs = Some Absent"
  shows "pending_with_evidence (rs @ appended (script cd plan final_state a current ms))
    = Ok (ps @ observed_operations cd plan final_state a current ms)"
  using assms
proof (induction ms arbitrary: rs ps current)
  case (Cons m ms)
  have one: "pending_with_evidence (rs @ appended (operation_script cd plan final_state a current m))
      = Ok (ps @ [observed_operation cd plan final_state a current m])"
    using Cons.prems by (intro pending_operation_script) simp_all
  note this = fresh_after [OF Cons.prems(2,3), of plan final_state a current]
  from Cons.IH [OF one _ this] Cons.prems(2) show ?case by simp
qed simp

text \<open>
  A prefix of a script: the first operations observed, and perhaps one more prepared; what has been
  sent is in the journal.
\<close>

lemma prefix_operation_script:
  assumes "prefix t (operation_script cd plan final_state a current m @ rest)"
  obtains "appended t = []" "\<forall>m'. Sent m' \<notin> set t"
  | "appended t = [Prepared (mutation_id cd m) (po_operation (waiting_operation cd plan final_state current m))]"
    "\<forall>m'. Sent m' \<in> set t \<longrightarrow> m' = m"
  | t' where "t = operation_script cd plan final_state a current m @ t'" "prefix t' rest"
proof -
  define x where "x = Prepared (mutation_id cd m) (po_operation (waiting_operation cd plan final_state current m))"
  define y where "y = RemoteOutcomeObserved (mutation_id cd m) applied_outcome
    (po_candidate_state (observed_operation cd plan final_state a current m))"
  have os: "operation_script cd plan final_state a current m = [Appended x, Sent m, Appended y]"
    by (simp add: operation_script_def waiting_operation_def observed_operation_def x_def y_def Let_def)
  consider "t = []" | "t = [Appended x]" | "t = [Appended x, Sent m]"
    | t' where "t = [Appended x, Sent m, Appended y] @ t'" "prefix t' rest"
    using assms unfolding os by (auto simp: prefix_Cons)
  then show thesis
  proof cases
    case 1
    show ?thesis by (rule that(1)) (simp_all add: 1)
  next
    case 2
    show ?thesis by (rule that(2)) (simp_all add: 2 x_def)
  next
    case 3
    show ?thesis by (rule that(2)) (simp_all add: 3 x_def)
  next
    case (4 t')
    show ?thesis by (rule that(3) [OF _ 4(2)]) (simp add: os 4(1))
  qed
qed

lemma prefix_script:
  assumes "pending_with_evidence rs = Ok ps" "distinct (map (mutation_id cd) ms)"
    "\<forall>m\<in>set ms. operation_state (mutation_id cd m) rs = Some Absent"
    "prefix t (script cd plan final_state a current ms)"
  shows "\<exists>qs. pending_with_evidence (rs @ appended t) = Ok (ps @ qs)
    \<and> prefix (map po_operation_id qs) (map (mutation_id cd) ms)
    \<and> (\<forall>q\<in>set (butlast qs). po_remote_outcome q \<noteq> None)
    \<and> (\<forall>m. Sent m \<in> set t \<longrightarrow> mutation_id cd m \<in> po_operation_id ` set qs)"
  using assms
proof (induction ms arbitrary: rs ps current t)
  case Nil
  then show ?case by simp
next
  case (Cons m ms)
  have fresh: "operation_state (mutation_id cd m) rs = Some Absent" using Cons.prems(3) by simp
  from Cons.prems(4) have "prefix t (operation_script cd plan final_state a current m
      @ script cd plan final_state a (state_after cd plan final_state a current m) ms)" by simp
  then show ?case
  proof (cases rule: prefix_operation_script)
    case 1
    then show ?thesis using Cons.prems(1) by (intro exI [of _ "[]"]) simp
  next
    case 2
    then show ?thesis using pending_prepared [OF Cons.prems(1) fresh, of plan final_state current]
      by (intro exI [of _ "[waiting_operation cd plan final_state current m]"]) auto
  next
    case (3 t')
    note one = pending_operation_script [OF Cons.prems(1) fresh, of plan final_state a current]
    note others = fresh_after [OF Cons.prems(2,3), of plan final_state a current]
    obtain qs where qs: "pending_with_evidence ((rs @ appended (operation_script cd plan final_state a current m)) @ appended t')
          = Ok ((ps @ [observed_operation cd plan final_state a current m]) @ qs)"
        "prefix (map po_operation_id qs) (map (mutation_id cd) ms)"
        "\<forall>q\<in>set (butlast qs). po_remote_outcome q \<noteq> None"
        "\<forall>m. Sent m \<in> set t' \<longrightarrow> mutation_id cd m \<in> po_operation_id ` set qs"
      using Cons.IH [OF one _ others 3(2)] Cons.prems(2) by auto
    have "\<forall>m'. Sent m' \<in> set (operation_script cd plan final_state a current m) \<longrightarrow> m' = m"
      by (simp add: operation_script_def Let_def)
    with qs show ?thesis
      by (intro exI [of _ "observed_operation cd plan final_state a current m # qs"]) (auto simp: 3(1))
  qed
qed

text \<open>
  C3: at every moment of an execution the journal is valid, if it was valid before and names none
  of the plan's operations (what happens otherwise is C8).  Whatever part of its effects the
  execution has requested, the scan of the journal with the records appended so far answers what
  was pending before, untouched, followed by operations of the plan in order, all but the last of
  them observed; every mutation that has been sent is among them; and at the end of an execution
  that succeeds they are all the operations of the plan, all observed.
\<close>

theorem journal_tracks_execution:
  assumes "pending_with_evidence rs = Ok ps"
    "\<forall>m\<in>set (mutations plan computer_asset_id). operation_state (mutation_id cd m) rs = Some Absent"
    "execute_plan_with_candidate (traced env) cd plan computer_asset_id base_state final_state (w, []) = (r, (w', t'))"
    "prefix t t'"
  shows "\<exists>qs. pending_with_evidence (rs @ appended t) = Ok (ps @ qs)
    \<and> prefix (map po_operation_id qs) (map (mutation_id cd) (mutations plan computer_asset_id))
    \<and> (\<forall>q\<in>set (butlast qs). po_remote_outcome q \<noteq> None)
    \<and> (\<forall>m. Sent m \<in> set t \<longrightarrow> mutation_id cd m \<in> po_operation_id ` set qs)
    \<and> (if is_ok r \<and> t = t' then map po_operation_id qs = map (mutation_id cd) (mutations plan computer_asset_id)
         \<and> (\<forall>q\<in>set qs. po_remote_outcome q \<noteq> None) else True)"
proof (cases "distinct (map (mutation_id cd) (mutations plan computer_asset_id))")
  case False
  then have "t = []" "\<not> is_ok r" using write_ahead(2) [OF assms(3)] assms(4) by (auto split: if_splits)
  with assms(1) show ?thesis by (intro exI [of _ "[]"]) simp
next
  case True
  let ?script = "\<lambda>a. script cd plan final_state a (start_state base_state final_state) (mutations plan computer_asset_id)"
  obtain a where c: "carry_out env (?script a) w = (map_ok (\<lambda>_. ()) r, w', t')"
    using write_ahead(2) [OF assms(3)] True by auto
  from carry_out_prefix [OF c] have t': "prefix t' (?script a)" "is_ok r \<longrightarrow> t' = ?script a"
    by (cases r; simp)+
  from assms(4) t'(1) have "prefix t (?script a)" by (rule prefix_order.trans)
  from prefix_script [OF assms(1) True assms(2) this] obtain qs where qs:
    "pending_with_evidence (rs @ appended t) = Ok (ps @ qs)"
    "prefix (map po_operation_id qs) (map (mutation_id cd) (mutations plan computer_asset_id))"
    "\<forall>q\<in>set (butlast qs). po_remote_outcome q \<noteq> None"
    "\<forall>m. Sent m \<in> set t \<longrightarrow> mutation_id cd m \<in> po_operation_id ` set qs" by blast
  have "qs = observed_operations cd plan final_state a (start_state base_state final_state) (mutations plan computer_asset_id)"
    if "is_ok r" "t = t'"
    using pending_script [OF assms(1) True assms(2), of plan final_state a "start_state base_state final_state"] qs(1) t'(2) that
    by simp
  with qs show ?thesis by (intro exI [of _ qs]) (auto dest: observed_operations_observed)
qed

lemma pending_committed:
  assumes "pending_with_evidence rs = Ok ps" "distinct (map (mutation_id cd) ms)"
    "\<forall>m\<in>set ms. operation_state (mutation_id cd m) rs = Some Absent"
  shows "pending_with_evidence (rs @ appended (script cd plan final_state a current ms)
    @ map StateCommitted (map (mutation_id cd) ms)) = Ok ps"
  using pending_commit_all [OF pending_script [OF assms, of plan final_state a current]]
    observed_operations_observed [of _ cd plan final_state a current ms] by auto

text \<open>
  A completed and committed execution leaves nothing pending: after the plan's script and the
  commit records of the confirmed operations the journal answers what was pending before.
\<close>

theorem committed_execution_settles:
  assumes "pending_with_evidence rs = Ok ps" "distinct (map (mutation_id cd) ms)"
    "\<forall>m\<in>set ms. operation_state (mutation_id cd m) rs = Some Absent"
  shows "pending_with_evidence (rs @ appended (script cd plan final_state a current ms)
    @ map StateCommitted (map (mutation_id cd) ms)) = Ok ps"
  using assms by (rule pending_committed)

section \<open>The state recovered after a crash\<close>

text \<open>What the derived decoders promise: they read back what the encoders wrote.\<close>

definition serde_round_trips :: "codec \<Rightarrow> bool" where
  "serde_round_trips cd \<longleftrightarrow>
     (\<forall>request. cd_patch_of cd (cd_patch cd request) = Some request)
     \<and> (\<forall>o'. cd_checkout_of cd (cd_checkout cd o') = Some o')
     \<and> (\<forall>o'. cd_checkin_of cd (cd_checkin cd o') = Some o')
     \<and> (\<forall>st. cd_state_of cd (state_snapshot cd st) = Some (st\<lparr>hmac := []\<rparr>))"

lemma state_snapshot_fields: "find (\<lambda>field. jget field (state_snapshot cd st) = None) signed_fields = None"
  by (simp add: find_None_iff signed_fields_def state_snapshot_def)

definition no_blank_serial :: "service_state \<Rightarrow> bool" where
  "no_blank_serial st \<longleftrightarrow> (\<forall>e\<in>set (known_monitors st). me_serial e \<noteq> [])"

lemma validate_complete_candidate:
  assumes "serde_round_trips cd" "no_blank_serial st" "i \<noteq> []"
  shows "validate_candidate_state cd i (complete_candidate_state cd i st) = Ok ()"
proof -
  have "jget ''operation_id'' (complete_candidate_state cd i st) = Some (JStr i)"
    "jget ''version'' (complete_candidate_state cd i st) = Some (JNum (PosInt 1))"
    "jget ''kind'' (complete_candidate_state cd i st) = Some (JStr ''service_state'')"
    "jget ''state'' (complete_candidate_state cd i st) = Some (state_snapshot cd st)"
    by (simp_all add: complete_candidate_state_def)
  moreover have "cd_state_of cd (state_snapshot cd st) = Some (st\<lparr>hmac := []\<rparr>)"
    using assms(1) by (simp add: serde_round_trips_def)
  ultimately show ?thesis
    using assms(2,3) state_snapshot_fields [of cd st]
    by (simp add: validate_candidate_state_def no_blank_serial_def list_ex_iff)
qed

lemma apply_complete_candidate:
  assumes "serde_round_trips cd" "no_blank_serial st" "i \<noteq> []"
  shows "apply_candidate_state cd i (complete_candidate_state cd i st) = Ok (st\<lparr>hmac := []\<rparr>)"
  using validate_complete_candidate [OF assms] assms(1)
  by (simp add: apply_candidate_state_def complete_candidate_state_def serde_round_trips_def)

text \<open>No step of an execution brings in a blank serial.\<close>

lemma find_mem: "find P xs = Some e \<Longrightarrow> e \<in> set xs"
  by (auto simp: find_Some_iff)

lemma transition_no_blank:
  assumes "no_blank_serial st" "no_blank_serial final_state"
  shows "no_blank_serial (apply_monitor_transition st final_state asset_id out)"
  using assms
  by (auto simp: apply_monitor_transition_def no_blank_serial_def Let_def bind_eq_Some_conv
      split: option.split dest: find_mem)

lemma transitions_no_blank:
  "no_blank_serial st \<Longrightarrow> no_blank_serial final_state \<Longrightarrow>
     no_blank_serial (fst (transitions_until final_state out i ops st))"
  by (induction final_state out i ops st rule: transitions_until.induct)
     (simp_all add: transition_no_blank Let_def)

lemma state_after_operation_no_blank:
  assumes "no_blank_serial st" "no_blank_serial final_state"
  shows "no_blank_serial (state_after_operation st final_state plan i None)"
proof -
  let ?st = "st\<lparr>last_sync_time := last_sync_time final_state, last_sync_result := last_sync_result final_state\<rparr>"
  obtain st' b where st': "transitions_until final_state True i (checkout_keys plan) ?st = (st', b)"
    by (cases "transitions_until final_state True i (checkout_keys plan) ?st")
  have "no_blank_serial ?st" using assms(1) by (simp add: no_blank_serial_def)
  then have "no_blank_serial st'"
    using transitions_no_blank [of ?st final_state True i "checkout_keys plan"] assms(2) st' by simp
  then have "no_blank_serial (fst (transitions_until final_state False i (checkin_keys plan) st'))"
    using assms(2) by (rule transitions_no_blank)
  moreover have "no_blank_serial (?st\<lparr>matched_asset := m\<rparr>)" for m
    using assms(1) by (simp add: no_blank_serial_def)
  ultimately show ?thesis
    using st' \<open>no_blank_serial st'\<close>
    by (auto simp: state_after_operation_def state_after_operation_with_asset_def Let_def split: option.split bool.split)
qed

lemma state_after_no_blank:
  "no_blank_serial current \<Longrightarrow> no_blank_serial final_state \<Longrightarrow>
     no_blank_serial (state_after cd plan final_state a current m)"
  by (cases m) (simp add: no_blank_serial_def, simp_all add: state_after_operation_no_blank)

text \<open>Applying the evidence of the observed operations runs through their states.\<close>

lemma apply_observed_operations:
  assumes "serde_round_trips cd" "no_blank_serial final_state" "no_blank_serial current"
    "set (map (mutation_id cd) ms) \<subseteq> set ids" "[] \<notin> set ids"
  shows "apply_all_evidence cd ids (observed_operations cd plan final_state a current ms) (st, applied)
    = Ok (if ms = [] then st else (states_after cd plan final_state a current ms)\<lparr>hmac := []\<rparr>,
          applied \<union> set (map (mutation_id cd) ms))"
  using assms(3,4)
proof (induction ms arbitrary: current st applied)
  case (Cons m ms)
  let ?next = "state_after cd plan final_state a current m"
  have i: "mutation_id cd m \<in> set ids" "mutation_id cd m \<noteq> []" using Cons.prems(2) assms(5) by auto
  have ok: "no_blank_serial ?next" using Cons.prems(1) assms(2) by (rule state_after_no_blank)
  have "apply_evidence cd ids (st, applied) (observed_operation cd plan final_state a current m)
      = Ok (?next\<lparr>hmac := []\<rparr>, insert (mutation_id cd m) applied)"
    using i apply_complete_candidate [OF assms(1) ok i(2)]
    by (simp add: apply_evidence_def observed_operation_def applied_outcome_def Let_def)
  with Cons.IH [OF ok, of "?next\<lparr>hmac := []\<rparr>" "insert (mutation_id cd m) applied"] Cons.prems(2)
  show ?case by (auto simp: states_after_def)
qed (simp add: states_after_def)

lemma apply_others:
  assumes "\<forall>p\<in>set ps. po_operation_id p \<notin> set ids"
  shows "apply_all_evidence cd ids (ps @ qs) s = apply_all_evidence cd ids qs s"
  using assms
proof (induction ps arbitrary: s)
  case (Cons p ps)
  then show ?case by (cases s) (simp add: apply_evidence_def)
qed simp

lemma recovered_state:
  assumes "serde_round_trips cd" "no_blank_serial final_state" "no_blank_serial current"
    and rs: "pending_with_evidence rs = Ok ps" and ms: "distinct (map (mutation_id cd) ms)" "[] \<notin> mutation_id cd ` set ms"
    and fresh: "\<forall>m\<in>set ms. operation_state (mutation_id cd m) rs = Some Absent"
  shows "apply_recovered_candidate_states cd st (rs @ appended (script cd plan final_state a current ms)) (map (mutation_id cd) ms)
    = Ok (if ms = [] then st else (states_after cd plan final_state a current ms)\<lparr>hmac := []\<rparr>)"
proof -
  let ?ids = "map (mutation_id cd) ms"
  have "\<forall>p\<in>set ps. po_operation_id p \<notin> set ?ids"
  proof
    fix p assume "p \<in> set ps"
    then have "live (operation_state (po_operation_id p) rs)"
      using rs unfolding pending_with_evidence_iff by auto
    then show "po_operation_id p \<notin> set ?ids" using fresh by auto
  qed
  then have "apply_all_evidence cd ?ids (ps @ observed_operations cd plan final_state a current ms) (st, {})
      = Ok (if ms = [] then st else (states_after cd plan final_state a current ms)\<lparr>hmac := []\<rparr>, set ?ids)"
    using apply_observed_operations [OF assms(1-3), of ms ?ids plan a st "{}"] ms(2) by (simp add: apply_others)
  moreover have "find (\<lambda>i. i \<notin> set ?ids) ?ids = None" by (auto simp: find_None_iff)
  ultimately show ?thesis
    unfolding apply_recovered_candidate_states_def pending_script [OF rs ms(1) fresh] by simp
qed

text \<open>
  C4: recovery reconstructs what a crash lost.  An execution succeeds and the service stops before
  the state is saved: from the journal with the records that the execution appended, the recovery
  of the confirmed operations yields exactly the state that the execution had reached (unsigned),
  whatever state was on the disk.  The hypotheses: the derived codecs round-trip, no serial in the
  states and no operation ID is blank, and the journal was valid and named none of the plan's
  operations (what happens otherwise is C8).
\<close>

theorem crash_before_save_recovers:
  assumes "serde_round_trips cd" "no_blank_serial final_state" "no_blank_serial base_state"
    "[] \<notin> mutation_id cd ` set (mutations plan computer_asset_id)"
    "pending_with_evidence rs = Ok ps"
    "\<forall>m\<in>set (mutations plan computer_asset_id). operation_state (mutation_id cd m) rs = Some Absent"
    and run: "execute_plan_with_candidate (traced env) cd plan computer_asset_id base_state final_state (w, [])
      = (Ok outcome, (w', t))"
  shows "\<exists>a. ex_matched_asset outcome = matched_after plan computer_asset_id final_state a
    \<and> apply_recovered_candidate_states cd st (rs @ appended t) (ex_confirmed outcome)
      = Ok (if mutations plan computer_asset_id = [] then st
          else (states_after cd plan final_state a (start_state base_state final_state)
            (mutations plan computer_asset_id))\<lparr>hmac := []\<rparr>)"
proof -
  let ?ms = "mutations plan computer_asset_id" and ?start = "start_state base_state final_state"
  have distinct: "distinct (map (mutation_id cd) ?ms)"
    using write_ahead(2) [OF run] by (simp split: if_splits)
  then obtain a where c: "carry_out env (script cd plan final_state a ?start ?ms) w = (Ok (), w', t)"
    and o: "outcome = \<lparr>ex_next_monitor_state = next_monitor_state plan,
      ex_matched_asset = matched_after plan computer_asset_id final_state a, ex_warnings = warnings plan,
      ex_confirmed = map (mutation_id cd) ?ms\<rparr>"
    using write_ahead(2) [OF run] by auto
  have "no_blank_serial ?start" using assms(3) by (simp add: no_blank_serial_def start_state_def)
  from recovered_state [OF assms(1,2) this assms(5) distinct assms(4,6)] carry_out_prefix [OF c] o
  show ?thesis by (intro exI [of _ a]) simp
qed

section \<open>A codec that round-trips\<close>

text \<open>
  An instance of the codec with serde's field layout (times as numbers of nanoseconds), on which
  the hypotheses of the properties are discharged.
\<close>

definition wire_option :: "('a \<Rightarrow> json) \<Rightarrow> 'a option \<Rightarrow> json" where
  "wire_option f x = (case x of None \<Rightarrow> JNull | Some y \<Rightarrow> f y)"

definition unwire_option :: "(json \<Rightarrow> 'a option) \<Rightarrow> json \<Rightarrow> 'a option option" where
  "unwire_option g v = (if v = JNull then Some None else map_option Some (g v))"

definition wire_u64 :: "u64 \<Rightarrow> json" where
  "wire_u64 w = JNum (PosInt (unat w))"

definition unwire_u64 :: "json \<Rightarrow> u64 option" where
  "unwire_u64 v = map_option of_nat (as_u64 v)"

definition unwire_int :: "json \<Rightarrow> int option" where
  "unwire_int v = (case v of JNum (NegInt i) \<Rightarrow> Some i | _ \<Rightarrow> None)"

definition unwire_bool :: "json \<Rightarrow> bool option" where
  "unwire_bool v = (case v of JBool b \<Rightarrow> Some b | _ \<Rightarrow> None)"

definition field :: "string \<Rightarrow> (json \<Rightarrow> 'a option) \<Rightarrow> json \<Rightarrow> 'a option" where
  "field k g v = Option.bind (jget k v) g"

fun all_some :: "'a option list \<Rightarrow> 'a list option" where
  "all_some [] = Some []"
| "all_some (x # xs) = Option.bind x (\<lambda>y. map_option ((#) y) (all_some xs))"

definition wire_patch :: "asset_patch_request \<Rightarrow> json" where
  "wire_patch r = JObj [(''asset_tag'', wire_option JStr (pr_asset_tag r)), (''model_id'', wire_option wire_u64 (pr_model_id r)),
     (''name'', wire_option JStr (pr_name r)), (''serial'', wire_option JStr (pr_serial r))]"

definition unwire_patch :: "json \<Rightarrow> asset_patch_request option" where
  "unwire_patch v =
     Option.bind (field ''asset_tag'' (unwire_option as_str) v) (\<lambda>t.
     Option.bind (field ''model_id'' (unwire_option unwire_u64) v) (\<lambda>i.
     Option.bind (field ''name'' (unwire_option as_str) v) (\<lambda>n.
     Option.bind (field ''serial'' (unwire_option as_str) v) (\<lambda>s.
       Some \<lparr>pr_name = n, pr_serial = s, pr_asset_tag = t, pr_model_id = i\<rparr>))))"

definition wire_checkout :: "monitor_checkout \<Rightarrow> json" where
  "wire_checkout o' = JObj [(''assigned_asset'', wire_u64 (assigned_asset (co_request o'))),
     (''checkout_to_type'', JStr (checkout_to_type (co_request o'))), (''operation_id'', JStr (co_operation_id o')),
     (''source_asset_id'', wire_u64 (co_source_asset_id o')), (''status_id'', wire_u64 (co_status_id (co_request o')))]"

definition unwire_checkout :: "json \<Rightarrow> monitor_checkout option" where
  "unwire_checkout v =
     Option.bind (field ''assigned_asset'' unwire_u64 v) (\<lambda>a.
     Option.bind (field ''checkout_to_type'' as_str v) (\<lambda>k.
     Option.bind (field ''operation_id'' as_str v) (\<lambda>i.
     Option.bind (field ''source_asset_id'' unwire_u64 v) (\<lambda>s.
     Option.bind (field ''status_id'' unwire_u64 v) (\<lambda>st.
       Some \<lparr>co_operation_id = i, co_source_asset_id = s,
         co_request = \<lparr>checkout_to_type = k, assigned_asset = a, co_status_id = st\<rparr>\<rparr>)))))"

definition wire_checkin :: "monitor_checkin \<Rightarrow> json" where
  "wire_checkin o' = JObj [(''operation_id'', JStr (ci_operation_id o')),
     (''source_asset_id'', wire_u64 (ci_source_asset_id o')), (''status_id'', wire_u64 (ci_status_id (ci_request o')))]"

definition unwire_checkin :: "json \<Rightarrow> monitor_checkin option" where
  "unwire_checkin v =
     Option.bind (field ''operation_id'' as_str v) (\<lambda>i.
     Option.bind (field ''source_asset_id'' unwire_u64 v) (\<lambda>s.
     Option.bind (field ''status_id'' unwire_u64 v) (\<lambda>st.
       Some \<lparr>ci_operation_id = i, ci_source_asset_id = s, ci_request = \<lparr>ci_status_id = st\<rparr>\<rparr>)))"

definition wire_result :: "sync_result \<Rightarrow> json" where
  "wire_result r = (case r of
     Success \<Rightarrow> JObj [(''status'', JStr ''success'')]
   | PartialSuccess ws \<Rightarrow> JObj [(''status'', JStr ''partial_success''), (''warnings'', JArr (map JStr ws))]
   | Failed e \<Rightarrow> JObj [(''error'', JStr e), (''status'', JStr ''failed'')])"

definition unwire_result :: "json \<Rightarrow> sync_result option" where
  "unwire_result v =
     (case jget ''error'' v of
        Some e \<Rightarrow> map_option Failed (as_str e)
      | None \<Rightarrow>
          (case Option.bind (jget ''warnings'' v) as_array of
             Some ws \<Rightarrow> map_option PartialSuccess (all_some (map as_str ws))
           | None \<Rightarrow> Some Success))"

definition wire_summary :: "asset_summary \<Rightarrow> json" where
  "wire_summary s = JObj [(''asset_tag'', wire_option JStr (sm_asset_tag s)), (''id'', wire_u64 (sm_id s)),
     (''name'', JStr (sm_name s)), (''serial'', wire_option JStr (sm_serial s))]"

definition unwire_summary :: "json \<Rightarrow> asset_summary option" where
  "unwire_summary v =
     Option.bind (field ''asset_tag'' (unwire_option as_str) v) (\<lambda>t.
     Option.bind (field ''id'' unwire_u64 v) (\<lambda>i.
     Option.bind (field ''name'' as_str v) (\<lambda>n.
     Option.bind (field ''serial'' (unwire_option as_str) v) (\<lambda>s.
       Some \<lparr>sm_id = i, sm_name = n, sm_serial = s, sm_asset_tag = t\<rparr>))))"

definition wire_time :: "int \<Rightarrow> json" where
  "wire_time t = JNum (NegInt t)"

definition wire_entry :: "monitor_entry \<Rightarrow> json" where
  "wire_entry e = JObj [(''absent_since'', wire_option wire_time (absent_since e)), (''checked_out'', JBool (checked_out e)),
     (''last_seen'', wire_time (last_seen e)), (''serial'', JStr (me_serial e)),
     (''snipeit_asset_id'', wire_option wire_u64 (snipeit_asset_id e))]"

definition unwire_entry :: "json \<Rightarrow> monitor_entry option" where
  "unwire_entry v =
     Option.bind (field ''absent_since'' (unwire_option unwire_int) v) (\<lambda>a.
     Option.bind (field ''checked_out'' unwire_bool v) (\<lambda>c.
     Option.bind (field ''last_seen'' unwire_int v) (\<lambda>l.
     Option.bind (field ''serial'' as_str v) (\<lambda>s.
     Option.bind (field ''snipeit_asset_id'' (unwire_option unwire_u64) v) (\<lambda>i.
       Some \<lparr>me_serial = s, snipeit_asset_id = i, last_seen = l, absent_since = a, checked_out = c\<rparr>)))))"

definition unwire_state :: "json \<Rightarrow> service_state option" where
  "unwire_state v =
     Option.bind (field ''known_monitors'' (\<lambda>m. Option.bind (as_array m) (\<lambda>es. all_some (map unwire_entry es))) v) (\<lambda>ms.
     Option.bind (field ''last_sync_result'' (unwire_option unwire_result) v) (\<lambda>r.
     Option.bind (field ''last_sync_time'' (unwire_option as_str) v) (\<lambda>t.
     Option.bind (field ''matched_asset'' (unwire_option unwire_summary) v) (\<lambda>a.
       Some \<lparr>last_sync_time = t, last_sync_result = r, matched_asset = a, known_monitors = ms, hmac = []\<rparr>))))"

definition patch_text :: "asset_patch_request \<Rightarrow> string" where
  "patch_text r = (let part = (\<lambda>k v. case v of None \<Rightarrow> [] | Some t \<Rightarrow> [k @ ''='' @ t]) in
     join_with '','' (part ''name'' (pr_name r) @ part ''serial'' (pr_serial r) @ part ''asset_tag'' (pr_asset_tag r)
       @ part ''model_id'' (map_option dec (pr_model_id r))))"

definition wire_codec :: codec where
  "wire_codec = \<lparr>cd_patch = wire_patch, cd_patch_of = unwire_patch, cd_patch_text = patch_text,
     cd_checkout = wire_checkout, cd_checkout_of = unwire_checkout,
     cd_checkin = wire_checkin, cd_checkin_of = unwire_checkin,
     cd_time = wire_option JStr, cd_result = wire_option wire_result, cd_asset = wire_option wire_summary,
     cd_monitors = (\<lambda>es. JArr (map wire_entry es)), cd_state_of = unwire_state\<rparr>"

lemma wire_option_inverse:
  assumes "\<And>x. g (f x) = Some x" "\<And>x. f x \<noteq> JNull"
  shows "unwire_option g (wire_option f y) = Some y"
  using assms by (cases y) (simp_all add: wire_option_def unwire_option_def)

lemma unwire_basic [simp]:
  "unwire_u64 (wire_u64 w) = Some w" "unwire_int (wire_time t) = Some t" "unwire_bool (JBool b) = Some b"
  "wire_u64 w \<noteq> JNull" "wire_time t \<noteq> JNull" "as_str (JStr s) = Some s" "as_array (JArr vs) = Some vs"
  by (simp_all add: unwire_u64_def wire_u64_def unwire_int_def wire_time_def unwire_bool_def as_array_def)

lemmas unwire_options [simp] =
  wire_option_inverse [OF unwire_basic(6), simplified] wire_option_inverse [OF unwire_basic(1,4)]
  wire_option_inverse [OF unwire_basic(2,5)]

lemma all_some_map: "(\<And>x. g (f x) = Some x) \<Longrightarrow> all_some (map g (map f xs)) = Some xs"
  by (induction xs) simp_all

lemma unwire_result [simp]: "unwire_result (wire_result r) = Some r" "wire_result r \<noteq> JNull"
  using all_some_map [of as_str JStr] by (cases r; simp add: unwire_result_def wire_result_def)+

lemma unwire_summary [simp]: "unwire_summary (wire_summary s) = Some s" "wire_summary s \<noteq> JNull"
  by (simp_all add: unwire_summary_def wire_summary_def field_def)

lemma unwire_entry [simp]: "unwire_entry (wire_entry e) = Some e"
  by (simp add: unwire_entry_def wire_entry_def field_def)

lemma wire_round_trips: "serde_round_trips wire_codec"
  using all_some_map [of unwire_entry wire_entry] wire_option_inverse [of unwire_result wire_result]
    wire_option_inverse [of unwire_summary wire_summary]
  by (auto simp: serde_round_trips_def wire_codec_def unwire_patch_def wire_patch_def unwire_checkout_def
      wire_checkout_def unwire_checkin_def wire_checkin_def unwire_state_def state_snapshot_def field_def)

section \<open>Witnesses\<close>

definition demo_checkout :: monitor_checkout where
  "demo_checkout = \<lparr>co_operation_id = ''checkout:5:10:7'', co_source_asset_id = 5,
     co_request = \<lparr>checkout_to_type = ''asset'', assigned_asset = 10, co_status_id = 7\<rparr>\<rparr>"

definition demo_patch :: asset_patch_request where
  "demo_patch = \<lparr>pr_name = None, pr_serial = Some ''SN'', pr_asset_tag = None, pr_model_id = None\<rparr>"

definition demo_sync_plan :: sync_plan where
  "demo_sync_plan = \<lparr>asset_update = Some demo_patch, monitor_checkouts = [demo_checkout], monitor_checkins = [],
     next_monitor_state = \<lparr>entries = []\<rparr>, warnings = []\<rparr>"

text \<open>A world that counts the effects; the remote refuses the checkouts of one asset.\<close>

definition count_effect :: "('a, failure) result \<Rightarrow> (nat, 'a) io" where
  "count_effect r = (\<lambda>n. (r, Suc n))"

definition demo_asset :: "u64 \<Rightarrow> asset" where
  "demo_asset i = \<lparr>as_id = i, as_name = ''PC'', as_serial = Some ''SN'', as_asset_tag = None,
     as_status_label = None, as_assigned_to = None, as_model = None\<rparr>"

definition counting_env :: "u64 \<Rightarrow> nat engine_env" where
  "counting_env refused =
     \<lparr>env_append = (\<lambda>_. count_effect (Ok ())), env_recover = count_effect (Ok (Clean [])),
      env_compact = (\<lambda>_. count_effect (Ok ())), env_patch = (\<lambda>i _. count_effect (Ok (demo_asset i))),
      env_checkout = (\<lambda>o'. count_effect (if co_source_asset_id o' = refused then Err (Remote NotFound) else Ok ())),
      env_checkin = (\<lambda>_. count_effect (Ok ())), env_before_terminal = ret (), env_after_terminal = ret ()\<rparr>"

definition demo_mutations :: "mutation list" where
  "demo_mutations = [PatchOp 10 demo_patch, CheckoutOp demo_checkout]"

lemma demo_mutations: "mutations demo_sync_plan (Some 10) = demo_mutations"
  by (simp add: mutations_def demo_sync_plan_def demo_mutations_def)

lemma demo_mutation_ids: "map (mutation_id wire_codec) demo_mutations = [''patch:10:serial=SN'', ''checkout:5:10:7'']"
proof -
  have "dec (10 :: u64) = ''10''" by code_simp
  then show ?thesis
    by (simp add: demo_mutations_def patch_operation_id_def wire_codec_def patch_text_def demo_patch_def demo_checkout_def)
qed

definition demo_run :: "u64 \<Rightarrow> (execution_outcome, failure) result \<times> nat \<times> engine_event list" where
  "demo_run refused = execute_plan_with_candidate (traced (counting_env refused)) wire_codec demo_sync_plan (Some 10)
     default_state default_state (0, [])"

lemma demo_run_refused: "fst (demo_run 5) = Err (Remote NotFound)" "fst (snd (demo_run 5)) = 5"
proof -
  have "validate_unique_operation_ids wire_codec demo_sync_plan (Some 10) = Ok ()"
    unfolding validate_unique_iff demo_mutations demo_mutation_ids by simp
  then show "fst (demo_run 5) = Err (Remote NotFound)" "fst (snd (demo_run 5)) = 5"
    by (simp_all add: demo_run_def execute_plan_with_candidate_def execute_plan_inner_def execute_patch_def
        demo_sync_plan_def prepare_def observe_remote_outcome_def bind_io_def traced_def counting_env_def
        count_effect_def demo_checkout_def Let_def)
qed

lemma demo_run_parts:
  "execute_plan_with_candidate (traced (counting_env refused)) wire_codec demo_sync_plan (Some 10)
     default_state default_state (0, []) = (fst (demo_run refused), (fst (snd (demo_run refused)), snd (snd (demo_run refused))))"
  by (simp add: demo_run_def)

text \<open>A refused checkout is the fifth effect, and the last.\<close>

theorem execution_is_write_ahead_witness:
  "fst (demo_run 5) = Err (Remote NotFound) \<and> fst (snd (demo_run 5)) = 5
   \<and> (\<exists>a. carry_out (counting_env 5) (script wire_codec demo_sync_plan default_state a
        (start_state default_state default_state) (mutations demo_sync_plan (Some 10))) 0
      = (Err (Remote NotFound), 5, snd (snd (demo_run 5))))"
proof -
  have "distinct (map (mutation_id wire_codec) (mutations demo_sync_plan (Some 10)))"
    unfolding demo_mutations demo_mutation_ids by simp
  then show ?thesis using execution_is_write_ahead [OF demo_run_parts [of 5]] demo_run_refused by auto
qed

lemma demo_no_records: "pending_with_evidence [] = Ok []" "operation_state i [] = Some Absent"
  by (simp_all add: pending_with_evidence_def scan_start_def operation_state_def)

lemma demo_distinct: "distinct (map (mutation_id wire_codec) demo_mutations)"
  "[] \<notin> mutation_id wire_codec ` set demo_mutations"
  unfolding demo_mutation_ids set_map [symmetric] by simp_all

lemma demo_no_blank: "no_blank_serial default_state"
  by (simp add: no_blank_serial_def default_state_def)

lemma demo_fresh: "\<forall>m\<in>set (mutations demo_sync_plan (Some 10)). operation_state (mutation_id wire_codec m) [] = Some Absent"
  using demo_no_records(2) by blast

theorem journal_tracks_execution_witness:
  "fst (demo_run 5) = Err (Remote NotFound)
   \<and> (\<exists>qs. pending_with_evidence (appended (snd (snd (demo_run 5)))) = Ok qs
     \<and> prefix (map po_operation_id qs) [''patch:10:serial=SN'', ''checkout:5:10:7''])"
  using journal_tracks_execution [OF demo_no_records(1) demo_fresh demo_run_parts [of 5] prefix_order.refl] demo_run_refused
  unfolding demo_mutations demo_mutation_ids by auto

theorem committed_execution_settles_witness:
  "pending_with_evidence (appended (script wire_codec demo_sync_plan default_state (demo_asset 10) default_state demo_mutations)
     @ map StateCommitted [''patch:10:serial=SN'', ''checkout:5:10:7'']) = Ok []"
  using committed_execution_settles [of "[]" "[]" wire_codec demo_mutations demo_sync_plan default_state "demo_asset 10" default_state]
    demo_no_records demo_distinct(1) demo_mutation_ids by simp

lemma demo_run_accepted: "is_ok (fst (demo_run 6))"
proof -
  have "validate_unique_operation_ids wire_codec demo_sync_plan (Some 10) = Ok ()"
    unfolding validate_unique_iff demo_mutations demo_mutation_ids by simp
  then show ?thesis
    by (simp add: demo_run_def execute_plan_with_candidate_def execute_plan_inner_def execute_patch_def
        demo_sync_plan_def prepare_def observe_remote_outcome_def bind_io_def traced_def counting_env_def
        count_effect_def demo_checkout_def Let_def)
qed

theorem crash_before_save_recovers_witness:
  "\<exists>outcome a. fst (demo_run 6) = Ok outcome \<and> ex_matched_asset outcome = Some (asset_summary_of a)
     \<and> apply_recovered_candidate_states wire_codec default_state (appended (snd (snd (demo_run 6)))) (ex_confirmed outcome)
       = Ok ((states_after wire_codec demo_sync_plan default_state a (start_state default_state default_state)
           demo_mutations)\<lparr>hmac := []\<rparr>)"
proof -
  obtain outcome where o: "fst (demo_run 6) = Ok outcome" using demo_run_accepted by (auto simp: is_ok_iff)
  have ids: "[] \<notin> mutation_id wire_codec ` set (mutations demo_sync_plan (Some 10))"
    unfolding demo_mutations by (rule demo_distinct)
  from crash_before_save_recovers [OF wire_round_trips demo_no_blank demo_no_blank ids demo_no_records(1) demo_fresh
      demo_run_parts [of 6, unfolded o], of default_state] o
  show ?thesis unfolding demo_mutations by (auto simp: demo_mutations_def matched_after_def demo_sync_plan_def)
qed

end
