(* ===== verification/ReplayJournal.thy ===== *)
theory ReplayJournal
  imports ExecutionJournal
begin

text \<open>
  Correctness of the engine's recovery: the replay of pending operations, the reconciliation of a
  mutation with what the remote already shows, and two limits of the recovered journal: an
  operation that is planned again after its commit, and what a candidate state does not hold.
\<close>

section \<open>What a replay does\<close>

text \<open>A mutation that replays a pending operation: what the prepared record decodes to.\<close>

definition replays :: "codec \<Rightarrow> pending_operation \<Rightarrow> mutation \<Rightarrow> bool" where
  "replays cd p m \<longleftrightarrow>
     (case decode_prepared_operation cd (po_operation_id p) (po_operation p) of
        Err _ \<Rightarrow> False
      | Ok (operation, _) \<Rightarrow>
          (case m of
             PatchOp asset_id request \<Rightarrow>
               patch_asset_id (po_operation_id p) = Ok (Some asset_id) \<and> cd_patch_of cd operation = Some request
           | CheckoutOp o' \<Rightarrow> cd_checkout_of cd operation = Some o' \<and> co_operation_id o' = po_operation_id p
           | CheckinOp o' \<Rightarrow> cd_checkin_of cd operation = Some o' \<and> ci_operation_id o' = po_operation_id p))"

text \<open>The events of one pending operation and of a list of them.\<close>

definition replay_events :: "pending_operation \<Rightarrow> mutation \<times> json option \<Rightarrow> engine_event list" where
  "replay_events p = (\<lambda>(m, candidate). Sent m #
     (if po_remote_outcome p = None
      then [Appended (RemoteOutcomeObserved (po_operation_id p) reconciled_outcome candidate)] else []))"

lemma replay_one_traced:
  assumes "replay_one (traced env) cd i operation (w, t) = (r, (w', t'))"
  shows "replay_one env cd i operation w = (r, w') \<and>
    (t' = t \<and> \<not> is_ok r \<or> (\<exists>m. t' = t @ [Sent m] \<and>
      (case m of
         PatchOp asset_id request \<Rightarrow> patch_asset_id i = Ok (Some asset_id) \<and> cd_patch_of cd operation = Some request
       | CheckoutOp o' \<Rightarrow> cd_checkout_of cd operation = Some o' \<and> co_operation_id o' = i
       | CheckinOp o' \<Rightarrow> cd_checkin_of cd operation = Some o' \<and> ci_operation_id o' = i)))"
proof (cases "patch_asset_id i")
  case (Err e)
  then show ?thesis using assms by (auto simp: replay_one_def bind_io_lift)
next
  case (Ok patch)
  show ?thesis
  proof (cases patch)
    case (Some asset_id)
    show ?thesis
    proof (cases "cd_patch_of cd operation")
      case (Some request)
      obtain r1 w1 where "env_patch env asset_id request w = (r1, w1)" by (cases "env_patch env asset_id request w")
      then show ?thesis
        using assms Ok \<open>patch = Some asset_id\<close> Some
        by (cases r1) (auto simp: replay_one_def bind_io_lift bind_io_def traced_def)
    qed (use assms Ok Some in \<open>auto simp: replay_one_def bind_io_lift\<close>)
  next
    case None
    note Ok = Ok [unfolded None]
    consider "starts_with ''checkout:'' i" | "\<not> starts_with ''checkout:'' i" "starts_with ''checkin:'' i"
      | "\<not> starts_with ''checkout:'' i" "\<not> starts_with ''checkin:'' i" by blast
    then show ?thesis
    proof cases
      case 1
      show ?thesis
      proof (cases "cd_checkout_of cd operation")
        case (Some o')
        obtain r1 w1 where "env_checkout env o' w = (r1, w1)" by (cases "env_checkout env o' w")
        then show ?thesis
          using assms Ok 1 Some
          by (cases r1; cases "co_operation_id o' = i") (auto simp: replay_one_def bind_io_lift bind_io_def traced_def)
      qed (use assms Ok 1 in \<open>auto simp: replay_one_def bind_io_lift\<close>)
    next
      case 2
      show ?thesis
      proof (cases "cd_checkin_of cd operation")
        case (Some o')
        obtain r1 w1 where "env_checkin env o' w = (r1, w1)" by (cases "env_checkin env o' w")
        then show ?thesis
          using assms Ok 2 Some
          by (cases r1; cases "ci_operation_id o' = i") (auto simp: replay_one_def bind_io_lift bind_io_def traced_def)
      qed (use assms Ok 2 in \<open>auto simp: replay_one_def bind_io_lift\<close>)
    next
      case 3
      then show ?thesis using assms Ok by (auto simp: replay_one_def bind_io_lift)
    qed
  qed
qed

lemma recover_one_traced:
  assumes "recover_one (traced env) cd p (w, t) = (r, (w', t'))"
  shows "recover_one env cd p w = (r, w') \<and>
    (t' = t \<and> \<not> is_ok r \<or> (\<exists>m. replays cd p m \<and>
       (t' = t @ [Sent m] \<and> \<not> is_ok r \<or> (\<exists>c. t' = t @ replay_events p (m, c) \<and> (is_ok r \<longrightarrow> r = Ok (po_operation_id p))))))"
proof -
  define i where "i = po_operation_id p"
  show ?thesis
  proof (cases "decode_prepared_operation cd i (po_operation p)")
    case (Err e)
    then show ?thesis using assms by (auto simp: recover_one_def bind_io_lift i_def Let_def)
  next
    case (Ok x)
    obtain operation prepared where x: "x = (operation, prepared)" by (cases x)
    define candidate where "candidate = (case po_candidate_state p of Some c \<Rightarrow> Some c | None \<Rightarrow> prepared)"
    define valid where "valid = (case candidate of Some c \<Rightarrow> validate_candidate_state cd i c | None \<Rightarrow> Ok ())"
    have run: "recover_one e cd p = (case valid of Err e' \<Rightarrow> fail (Message e') | Ok _ \<Rightarrow>
        bind_io (replay_one e cd i operation) (\<lambda>authoritative.
          case merge_recovered_asset cd candidate authoritative of Err e' \<Rightarrow> fail (Message e') | Ok c \<Rightarrow>
            bind_io (if po_remote_outcome p = None then observe_remote_outcome e i reconciled_outcome c else ret ())
              (\<lambda>_. ret i)))" for e :: "'b engine_env"
      unfolding recover_one_def Let_def bind_io_lift i_def [symmetric] Ok x result.case prod.case
        candidate_def [symmetric] valid_def [symmetric] by (rule refl)
    have run': "recover_one e cd p = (case valid of Err e' \<Rightarrow> fail (Message e') | Ok _ \<Rightarrow>
        bind_io (replay_one e cd i operation) (\<lambda>authoritative.
          case merge_recovered_asset cd candidate authoritative of Err e' \<Rightarrow> fail (Message e') | Ok c \<Rightarrow>
            bind_io (if po_remote_outcome p = None then observe_remote_outcome e i reconciled_outcome c else ret ())
              (\<lambda>_. ret i)))" for e :: "('b \<times> engine_event list) engine_env"
      unfolding recover_one_def Let_def bind_io_lift i_def [symmetric] Ok x result.case prod.case
        candidate_def [symmetric] valid_def [symmetric] by (rule refl)
    show ?thesis
    proof (cases valid)
      case (Err e)
      then show ?thesis using assms unfolding run run' by auto
    next
      case (Ok u)
      obtain r1 w1 t1 where one: "replay_one (traced env) cd i operation (w, t) = (r1, (w1, t1))" by (metis prod.exhaust)
      note plain = replay_one_traced [OF one, THEN conjunct1]
      have rep: "t1 = t \<and> \<not> is_ok r1 \<or> (\<exists>m. t1 = t @ [Sent m] \<and> replays cd p m)"
        using replay_one_traced [OF one, THEN conjunct2] \<open>decode_prepared_operation cd i (po_operation p) = Ok x\<close> x
        unfolding replays_def i_def by auto
      show ?thesis
      proof (cases r1)
        case (Err e)
        then have "r = Err e" "w' = w1" "t' = t1" "recover_one env cd p w = (Err e, w1)"
          using assms one plain Ok unfolding run run' by (auto simp: bind_io_def)
        with rep show ?thesis by auto
      next
        case (Ok authoritative)
        then obtain m where m: "t1 = t @ [Sent m]" "replays cd p m" using rep by auto
        show ?thesis
        proof (cases "merge_recovered_asset cd candidate authoritative")
          case (Err e)
          then have "r = Err (Message e)" "w' = w1" "t' = t1" "recover_one env cd p w = (Err (Message e), w1)"
            using assms one plain \<open>valid = Ok u\<close> \<open>r1 = Ok authoritative\<close> unfolding run run' by (auto simp: bind_io_def)
          with m show ?thesis by auto
        next
          case (Ok c)
          note known = one plain \<open>valid = Ok u\<close> \<open>r1 = Ok authoritative\<close> Ok
          show ?thesis
          proof (cases "po_remote_outcome p = None")
            case True
            obtain r2 w2 where 2: "env_append env (RemoteOutcomeObserved i reconciled_outcome c) w1 = (r2, w2)"
              by (cases "env_append env (RemoteOutcomeObserved i reconciled_outcome c) w1")
            have "recover_one (traced env) cd p (w, t) = (map_ok (\<lambda>_. i) r2,
                (w2, t1 @ [Appended (RemoteOutcomeObserved i reconciled_outcome c)]))"
              "recover_one env cd p w = (map_ok (\<lambda>_. i) r2, w2)"
              using known 2 True unfolding run run'
              by (cases r2; simp add: bind_io_def observe_remote_outcome_def traced_append)+
            with assms m True show ?thesis
              by (intro conjI disjI2 exI [of _ m] exI [of _ c]) (auto simp: replay_events_def i_def is_ok_iff)
          next
            case False
            have "recover_one (traced env) cd p (w, t) = (Ok i, (w1, t1))" "recover_one env cd p w = (Ok i, w1)"
              using known False unfolding run run' by (auto simp: bind_io_def)
            with assms m False show ?thesis
              by (intro conjI disjI2 exI [of _ m] exI [of _ c]) (auto simp: replay_events_def i_def)
          qed
        qed
      qed
    qed
  qed
qed

text \<open>The observed form of a pending operation.\<close>

definition settle :: "json option \<Rightarrow> pending_operation \<Rightarrow> pending_operation" where
  "settle c p = (if po_remote_outcome p = None
     then p\<lparr>po_remote_outcome := Some reconciled_outcome, po_candidate_state := c\<rparr> else p)"

lemma settle_simps [simp]: "po_operation_id (settle c p) = po_operation_id p" "po_remote_outcome (settle c p) \<noteq> None"
  by (simp_all add: settle_def)

lemma replay_events_pending:
  assumes "pending_with_evidence rs = Ok (ps @ p # qs)"
  shows "pending_with_evidence (rs @ appended (replay_events p (m, c))) = Ok (ps @ settle c p # qs)"
  using assms pending_snoc_observe [of rs ps p qs reconciled_outcome c] by (simp add: replay_events_def settle_def)

definition replay_script :: "pending_operation list \<Rightarrow> (mutation \<times> json option) list \<Rightarrow> engine_event list" where
  "replay_script ps xs = concat (map2 replay_events ps xs)"

lemma recover_each_traced:
  assumes "recover_each (traced env) cd ps observed (w, t) = (r, (w', t'))"
    and "pending_with_evidence (rs @ appended t) = Ok (done @ ps)"
  shows "recover_each env cd ps observed w = (r, w')
    \<and> (\<exists>ps'. pending_with_evidence (rs @ appended t') = Ok (done @ ps') \<and> map po_operation_id ps' = map po_operation_id ps
         \<and> (\<forall>ids. r = Ok ids \<longrightarrow> ids = observed @ map po_operation_id ps \<and> (\<forall>p\<in>set ps'. po_remote_outcome p \<noteq> None)
              \<and> (\<exists>xs. list_all2 (\<lambda>p (m, _). replays cd p m) ps xs \<and> t' = t @ replay_script ps xs)))"
  using assms
proof (induction ps arbitrary: observed w t "done")
  case Nil
  then show ?case by (auto simp: replay_script_def)
next
  case (Cons p ps)
  obtain r1 w1 t1 where one: "recover_one (traced env) cd p (w, t) = (r1, (w1, t1))" by (metis prod.exhaust)
  note plain = recover_one_traced [OF one, THEN conjunct1]
  show ?case
  proof (cases r1)
    case (Err e)
    then have eq: "r = Err e" "w' = w1" "t' = t1" "recover_each env cd (p # ps) observed w = (Err e, w1)"
      using Cons.prems(1) one plain by (auto simp: bind_io_def)
    consider "appended t1 = appended t" | m c where "t1 = t @ replay_events p (m, c)"
      using recover_one_traced [OF one, THEN conjunct2] Err by auto
    then show ?thesis
    proof cases
      case 1
      then show ?thesis using eq Cons.prems(2) by (auto intro!: exI [of _ "p # ps"])
    next
      case (2 m c)
      then show ?thesis using eq replay_events_pending [OF Cons.prems(2), of m c]
        by (auto intro!: exI [of _ "settle c p # ps"])
    qed
  next
    case (Ok i)
    then obtain m c where m: "replays cd p m" "t1 = t @ replay_events p (m, c)" "i = po_operation_id p"
      using recover_one_traced [OF one, THEN conjunct2] by auto
    have rest: "recover_each (traced env) cd ps (observed @ [i]) (w1, t1) = (r, (w', t'))"
      using Cons.prems(1) one Ok by (simp add: bind_io_def)
    have "pending_with_evidence (rs @ appended t1) = Ok ((done @ [settle c p]) @ ps)"
      using replay_events_pending [OF Cons.prems(2), of m c] m(2) by simp
    from Cons.IH [OF rest this] obtain ps' where ps':
      "recover_each env cd ps (observed @ [i]) w1 = (r, w')"
      "pending_with_evidence (rs @ appended t') = Ok (done @ settle c p # ps')"
      "map po_operation_id ps' = map po_operation_id ps"
      "\<forall>ids. r = Ok ids \<longrightarrow> ids = (observed @ [i]) @ map po_operation_id ps \<and> (\<forall>p\<in>set ps'. po_remote_outcome p \<noteq> None)
         \<and> (\<exists>xs. list_all2 (\<lambda>p (m, _). replays cd p m) ps xs \<and> t' = t1 @ replay_script ps xs)" by auto
    show ?thesis
    proof (intro conjI exI [of _ "settle c p # ps'"] allI impI)
      show "recover_each env cd (p # ps) observed w = (r, w')" using plain Ok ps'(1) by (simp add: bind_io_def)
      fix ids assume "r = Ok ids"
      then obtain xs where xs: "ids = (observed @ [i]) @ map po_operation_id ps" "\<forall>p\<in>set ps'. po_remote_outcome p \<noteq> None"
          "list_all2 (\<lambda>p (m, _). replays cd p m) ps xs" "t' = t1 @ replay_script ps xs"
        using ps'(4) by blast
      then show "ids = observed @ map po_operation_id (p # ps)" "\<forall>q\<in>set (settle c p # ps'). po_remote_outcome q \<noteq> None"
        using m(3) settle_simps(2) [of c p] by (simp, metis set_ConsD)
      show "\<exists>xs. list_all2 (\<lambda>p (m, _). replays cd p m) (p # ps) xs \<and> t' = t @ replay_script (p # ps) xs"
        using xs m by (intro exI [of _ "(m, c) # xs"]) (simp add: replay_script_def)
    qed (use ps' in simp_all)
  qed
qed

text \<open>
  C5: replay is complete, ordered and loses nothing.  Over a clean journal, whatever the outcome
  of the replay, the journal with the records it appends has the same operations pending in the
  same order; when the replay succeeds it answers all of them in order of preparation, each has
  been sent again as its prepared record decodes, each is now observed, and nothing else was sent.
\<close>

theorem recover_pending_replays:
  assumes "env_recover env w = (Ok (Clean rs), w1)" "pending_with_evidence rs = Ok ps"
    "recover_pending (traced env) cd (w, []) = (r, (w', t))"
  shows "recover_pending env cd w = (r, w')
    \<and> (\<exists>ps'. pending_with_evidence (rs @ appended t) = Ok ps' \<and> map po_operation_id ps' = map po_operation_id ps
         \<and> (\<forall>ids. r = Ok ids \<longrightarrow> ids = map po_operation_id ps \<and> (\<forall>p\<in>set ps'. po_remote_outcome p \<noteq> None)
              \<and> (\<exists>xs. list_all2 (\<lambda>p (m, _). replays cd p m) ps xs \<and> t = replay_script ps xs)))"
proof -
  have "recover_each (traced env) cd ps [] (w1, []) = (r, (w', t))"
    using assms by (simp add: recover_pending_def bind_io_def traced_def clean_records_def)
  from recover_each_traced [OF this, of rs "[]"] assms show ?thesis
    by (simp add: recover_pending_def bind_io_def clean_records_def)
qed

section \<open>A committed operation that is planned again\<close>

lemma committed_then_prepared:
  assumes "operation_state i rs = Some Committed"
  shows "\<not> is_ok (pending_with_evidence (rs @ Prepared i operation # rest))"
proof
  assume "is_ok (pending_with_evidence (rs @ Prepared i operation # rest))"
  then obtain s where "scan_records scan_start (rs @ Prepared i operation # rest) = Ok s"
    by (auto simp: is_ok_iff pending_with_evidence_def)
  then obtain s0 s1 where s: "scan_records scan_start rs = Ok s0" "scan_record s0 (Prepared i operation) = Ok s1"
    by (auto simp: scan_records_append and_then_eq_Ok)
  then have "scan_look s0 i = Committed" using scan_reached(2) [OF s(1), of i] assms by simp
  then have "i \<in> sc_terminal s0"
    by (auto simp: scan_look_def evidence_of_def split: option.splits if_splits)
  then show False using s(2) by simp
qed

text \<open>
  C8: a commit whose compaction failed leaves the journal one repetition away from corruption.
  Recovery over a journal whose operations are all committed answers success and touches nothing,
  and when the next plan starts with an operation of the same ID (the IDs name the assets and the
  values, not the attempt), whatever part of its script is carried out, the journal no longer scans.
\<close>

theorem replanned_committed_operation_corrupts:
  assumes "env_recover env w = (Ok (Clean rs), w)" "pending_with_evidence rs = Ok []"
    and "operation_state (mutation_id cd m) rs = Some Committed"
    and "prefix t (script cd plan final_state a current (m # ms))" "t \<noteq> []"
  shows "recover_pending env cd w = (Ok [], w) \<and> \<not> is_ok (pending_with_evidence (rs @ appended t))"
proof
  show "recover_pending env cd w = (Ok [], w)"
    using assms(1,2) by (simp add: recover_pending_def bind_io_def clean_records_def)
  obtain x rest where "operation_script cd plan final_state a current m = Appended (Prepared (mutation_id cd m) x) # rest"
    by (simp add: operation_script_def Let_def)
  then obtain t' where "t = Appended (Prepared (mutation_id cd m) x) # t'"
    using assms(4,5) by (cases t) auto
  then show "\<not> is_ok (pending_with_evidence (rs @ appended t))"
    using committed_then_prepared [OF assms(3)] by simp
qed

theorem replanned_committed_operation_corrupts_witness:
  "\<not> is_ok (pending_with_evidence
     ([Prepared ''checkout:5:10:7'' JNull, RemoteOutcomeObserved ''checkout:5:10:7'' JNull None, StateCommitted ''checkout:5:10:7'']
      @ appended (take 1 (script wire_codec demo_sync_plan default_state (demo_asset 10) default_state [CheckoutOp demo_checkout]))))"
  (is "\<not> is_ok (pending_with_evidence (?rs @ _))")
proof -
  have "pending_with_evidence ?rs = Ok []" "operation_state (mutation_id wire_codec (CheckoutOp demo_checkout)) ?rs = Some Committed"
    by (simp_all add: pending_with_evidence_def scan_start_def commit_record_def operation_state_def demo_checkout_def)
  moreover have "take 1 (script wire_codec demo_sync_plan default_state (demo_asset 10) default_state [CheckoutOp demo_checkout]) \<noteq> []"
    by (simp add: operation_script_def Let_def)
  ultimately show ?thesis
    using replanned_committed_operation_corrupts
      [of "(counting_env 0)\<lparr>env_recover := ret (Clean ?rs)\<rparr>" 0 ?rs wire_codec "CheckoutOp demo_checkout"
        "take 1 (script wire_codec demo_sync_plan default_state (demo_asset 10) default_state [CheckoutOp demo_checkout])"
        demo_sync_plan default_state "demo_asset 10" default_state "[]"]
    by (simp add: take_is_prefix)
qed

section \<open>Reconciliation\<close>

text \<open>
  C7: planning and reconciliation agree: a planned asset update is never already applied to the
  asset it was planned for, it is applied to the patched asset, and the patched asset needs no
  further update.
\<close>

theorem planned_patch_reconciles:
  assumes "plan_system_update sys taxonomy (Some a) = (Some request, ws)"
  shows "\<not> patch_is_applied a request \<and> patch_is_applied (patched request a) request
    \<and> plan_system_update sys taxonomy (Some (patched request a)) = (None, [])"
proof -
  obtain model_id where t: "taxonomy_resolved taxonomy" "tx_model taxonomy = Resolved model_id"
    using assms by (auto simp: plan_system_update_def Let_def split: if_splits taxonomy_resolution.splits)
  have request: "request = \<lparr>pr_name = None,
      pr_serial = (if as_serial a \<noteq> Some (si_serial sys) then Some (si_serial sys) else None),
      pr_asset_tag = (if as_asset_tag a \<noteq> Some (si_asset_tag sys) then Some (si_asset_tag sys) else None),
      pr_model_id = (if map_option am_id (as_model a) \<noteq> Some model_id then Some model_id else None)\<rparr>"
    and changed: "as_serial a \<noteq> Some (si_serial sys) \<or> as_asset_tag a \<noteq> Some (si_asset_tag sys)
      \<or> map_option am_id (as_model a) \<noteq> Some model_id"
    using assms t by (auto simp: plan_system_update_def Let_def build_asset_patch_def default_changes_def split: if_splits)
  have "\<not> patch_is_applied a request"
    using changed unfolding request patch_is_applied_def
    by (cases "as_model a") (auto split: if_splits)
  moreover have "patch_is_applied (patched request a) request"
    unfolding request patch_is_applied_def patched_def by (simp split: option.split)
  moreover have "plan_system_update sys taxonomy (Some (patched request a)) = (None, [])"
    using t unfolding request plan_system_update_def patched_def
    by (auto simp: Let_def default_changes_def split: option.split)
  ultimately show ?thesis by blast
qed

definition demo_prepared :: "journal_record list" where
  "demo_prepared = appended (take 1 (script wire_codec demo_sync_plan default_state (demo_asset 10) default_state [CheckoutOp demo_checkout]))"

definition replay_env :: "nat engine_env" where
  "replay_env = (counting_env 0)\<lparr>env_recover := ret (Clean demo_prepared)\<rparr>"

lemma demo_prepared_pending: "\<exists>p. pending_with_evidence demo_prepared = Ok [p] \<and> po_operation_id p = ''checkout:5:10:7''"
  by (simp add: demo_prepared_def operation_script_def Let_def pending_with_evidence_def scan_start_def demo_checkout_def)

lemma demo_decode:
  "decode_prepared_operation wire_codec ''checkout:5:10:7''
     (prepared_payload (wire_checkout demo_checkout) (Some (complete_candidate_state wire_codec ''checkout:5:10:7'' st)))
   = (if no_blank_serial st
      then Ok (wire_checkout demo_checkout, Some (complete_candidate_state wire_codec ''checkout:5:10:7'' st))
      else decode_prepared_operation wire_codec ''checkout:5:10:7''
     (prepared_payload (wire_checkout demo_checkout) (Some (complete_candidate_state wire_codec ''checkout:5:10:7'' st))))"
proof -
  have "cd_checkout_of wire_codec (wire_checkout demo_checkout) = Some demo_checkout"
    using wire_round_trips by (simp add: serde_round_trips_def wire_codec_def)
  moreover have "patch_asset_id ''checkout:5:10:7'' = Ok None"
    by (simp add: patch_asset_id_def strip_prefix_def starts_with_def)
  moreover have "starts_with ''checkout:'' ''checkout:5:10:7''" by (simp add: starts_with_def)
  ultimately have "validate_operation_id_binding wire_codec ''checkout:5:10:7'' (wire_checkout demo_checkout) = Ok ()"
    by (simp add: validate_operation_id_binding_def demo_checkout_def)
  with validate_complete_candidate [OF wire_round_trips, of st "''checkout:5:10:7''"] show ?thesis
    by (simp add: decode_prepared_operation_def prepared_payload_def)
qed

lemma demo_replay: "recover_pending (traced replay_env) wire_codec (0, []) =
    (Ok [''checkout:5:10:7''], snd (recover_pending (traced replay_env) wire_codec (0, [])))"
proof -
  define st where "st = state_after_operation default_state default_state demo_sync_plan ''checkout:5:10:7'' None"
  define c where "c = complete_candidate_state wire_codec ''checkout:5:10:7'' st"
  have ok: "no_blank_serial st" unfolding st_def using demo_no_blank demo_no_blank by (rule state_after_operation_no_blank)
  define p where "p = \<lparr>po_operation_id = ''checkout:5:10:7'', po_operation = prepared_payload (wire_checkout demo_checkout) (Some c),
    po_remote_outcome = None, po_candidate_state = None\<rparr>"
  have pending: "pending_with_evidence demo_prepared = Ok [p]"
    by (simp add: demo_prepared_def operation_script_def Let_def pending_with_evidence_def scan_start_def demo_checkout_def
        p_def c_def st_def wire_codec_def)
  have decoded: "decode_prepared_operation wire_codec ''checkout:5:10:7'' (po_operation p) = Ok (wire_checkout demo_checkout, Some c)"
    using demo_decode [of st] ok by (simp add: p_def c_def)
  have valid: "validate_candidate_state wire_codec ''checkout:5:10:7'' c = Ok ()"
    unfolding c_def using wire_round_trips ok by (rule validate_complete_candidate) simp
  have "cd_checkout_of wire_codec (wire_checkout demo_checkout) = Some demo_checkout"
    using wire_round_trips by (simp add: serde_round_trips_def wire_codec_def)
  moreover have "patch_asset_id ''checkout:5:10:7'' = Ok None"
    by (simp add: patch_asset_id_def strip_prefix_def starts_with_def)
  moreover have "starts_with ''checkout:'' ''checkout:5:10:7''" by (simp add: starts_with_def)
  ultimately have one: "replay_one (traced replay_env) wire_codec ''checkout:5:10:7'' (wire_checkout demo_checkout) =
      bind_io (env_checkout (traced replay_env) demo_checkout) (\<lambda>_. ret None)"
    by (simp add: replay_one_def bind_io_lift demo_checkout_def)
  have "fst (recover_pending (traced replay_env) wire_codec (0, [])) = Ok [''checkout:5:10:7'']"
    using decoded valid one pending
    by (simp add: recover_pending_def bind_io_def replay_env_def traced_def counting_env_def count_effect_def clean_records_def
        recover_one_def merge_recovered_asset_def observe_remote_outcome_def Let_def p_def demo_checkout_def)
  then show ?thesis by (metis prod.collapse)
qed

theorem recover_pending_replays_witness:
  "\<exists>t ps' m. pending_with_evidence (demo_prepared @ appended t) = Ok ps' \<and> map po_operation_id ps' = [''checkout:5:10:7'']
     \<and> (\<forall>p\<in>set ps'. po_remote_outcome p \<noteq> None) \<and> Sent m \<in> set t"
proof -
  obtain w t where run: "recover_pending (traced replay_env) wire_codec (0, []) = (Ok [''checkout:5:10:7''], (w, t))"
    using demo_replay by (metis prod.exhaust)
  obtain p where p: "pending_with_evidence demo_prepared = Ok [p]" "po_operation_id p = ''checkout:5:10:7''"
    using demo_prepared_pending by blast
  have "env_recover replay_env 0 = (Ok (Clean demo_prepared), 0)" by (simp add: replay_env_def)
  from recover_pending_replays [OF this p(1) run] obtain ps' xs where ps':
    "pending_with_evidence (demo_prepared @ appended t) = Ok ps'" "map po_operation_id ps' = [po_operation_id p]"
    "\<forall>p\<in>set ps'. po_remote_outcome p \<noteq> None" "list_all2 (\<lambda>p (m, _). replays wire_codec p m) [p] xs" "t = replay_script [p] xs"
    by auto
  obtain m where "Sent m \<in> set t"
    using ps'(4,5) by (auto simp: list_all2_Cons1 replay_script_def replay_events_def)
  with ps'(1-3) show ?thesis unfolding p(2) by (intro exI conjI)
qed

text \<open>The computer's serial has changed since Snipe-IT was updated.\<close>

theorem planned_patch_reconciles_witness:
  "\<not> patch_is_applied (demo_computer\<lparr>as_serial := None\<rparr>)
     \<lparr>pr_name = None, pr_serial = Some ''PC'', pr_asset_tag = None, pr_model_id = None\<rparr>"
proof -
  have "plan_system_update demo_system demo_taxonomy (Some (demo_computer\<lparr>as_serial := None\<rparr>)) =
      (Some \<lparr>pr_name = None, pr_serial = Some ''PC'', pr_asset_tag = None, pr_model_id = None\<rparr>, [])"
    by code_simp
  from planned_patch_reconciles [OF this] show ?thesis by blast
qed

section \<open>What the recovered state does not hold\<close>

definition demo_new_monitor :: monitor_entry where
  "demo_new_monitor = \<lparr>me_serial = ''NEW'', snipeit_asset_id = None, last_seen = 0, absent_since = None, checked_out = False\<rparr>"

definition demo_mapped_monitor :: "bool \<Rightarrow> monitor_entry" where
  "demo_mapped_monitor out = \<lparr>me_serial = ''MON'', snipeit_asset_id = Some 5, last_seen = 0, absent_since = None, checked_out = out\<rparr>"

text \<open>
  The candidate in the journal is not the complete state to be saved.  In a plan that checks
  out one monitor while another one is seen for the first time, the state recovered from the
  evidence of the finished execution holds the checkout and not the new monitor, although the state
  that the service was about to save holds both.
\<close>

theorem recovered_candidate_incomplete:
  "\<exists>plan final_state recovered.
     monitor_checkouts plan = [demo_checkout] \<and> known_monitors final_state = entries (next_monitor_state plan)
     \<and> apply_recovered_candidate_states wire_codec default_state
         (appended (script wire_codec plan final_state (demo_asset 10) (start_state default_state final_state) (mutations plan None)))
         (map (mutation_id wire_codec) (mutations plan None)) = Ok recovered
     \<and> known_monitors final_state = [demo_mapped_monitor True, demo_new_monitor]
     \<and> known_monitors recovered = [demo_mapped_monitor True]"
proof -
  define plan where "plan = \<lparr>asset_update = None, monitor_checkouts = [demo_checkout], monitor_checkins = [],
    next_monitor_state = \<lparr>entries = [demo_mapped_monitor True, demo_new_monitor]\<rparr>, warnings = []\<rparr>"
  define final_state where "final_state = default_state\<lparr>known_monitors := [demo_mapped_monitor True, demo_new_monitor]\<rparr>"
  define start where "start = start_state default_state final_state"
  have ms: "mutations plan None = [CheckoutOp demo_checkout]" by (simp add: mutations_def plan_def)
  have fresh: "\<forall>m\<in>set (mutations plan None). operation_state (mutation_id wire_codec m) [] = Some Absent"
    using demo_no_records(2) by blast
  have blank: "no_blank_serial final_state" "no_blank_serial start"
    by (simp_all add: no_blank_serial_def final_state_def start_def start_state_def default_state_def
        demo_mapped_monitor_def demo_new_monitor_def)
  have recovered: "apply_recovered_candidate_states wire_codec default_state
      ([] @ appended (script wire_codec plan final_state (demo_asset 10) start (mutations plan None)))
      (map (mutation_id wire_codec) (mutations plan None))
    = Ok (if mutations plan None = [] then default_state
          else (states_after wire_codec plan final_state (demo_asset 10) start (mutations plan None))\<lparr>hmac := []\<rparr>)"
    by (rule recovered_state [OF wire_round_trips blank demo_no_records(1) _ _ fresh])
       (simp_all add: ms demo_checkout_def)
  have monitors: "known_monitors (states_after wire_codec plan final_state (demo_asset 10) start (mutations plan None))
      = [demo_mapped_monitor True]"
    unfolding ms
    by (simp add: states_after_def state_after_operation_def state_after_operation_with_asset_def start_def start_state_def
        plan_def final_state_def checkout_keys_def checkin_keys_def apply_monitor_transition_def default_state_def
        demo_checkout_def demo_mapped_monitor_def demo_new_monitor_def Let_def)
  show ?thesis
  proof (intro exI conjI)
    show "monitor_checkouts plan = [demo_checkout]" by (simp add: plan_def)
    show "known_monitors final_state = entries (next_monitor_state plan)" by (simp add: final_state_def plan_def)
    show "apply_recovered_candidate_states wire_codec default_state
        (appended (script wire_codec plan final_state (demo_asset 10) (start_state default_state final_state) (mutations plan None)))
        (map (mutation_id wire_codec) (mutations plan None))
      = Ok ((states_after wire_codec plan final_state (demo_asset 10) start (mutations plan None))\<lparr>hmac := []\<rparr>)"
      using recovered by (simp add: ms start_def)
    show "known_monitors final_state = [demo_mapped_monitor True, demo_new_monitor]" by (simp add: final_state_def)
    show "known_monitors ((states_after wire_codec plan final_state (demo_asset 10) start (mutations plan None))\<lparr>hmac := []\<rparr>)
        = [demo_mapped_monitor True]" using monitors by simp
  qed
qed

end
