(* ===== verification/Client.thy ===== *)
theory Client
  imports Effects Config
begin

text \<open>
  \<open>spotter-svc/src/snipeit_client.rs\<close>: what the HTTP client asks for, how it reads a response within
  its limits, how it classifies a status, and the pagination of the taxonomy lists.  The transport
  (\<open>reqwest\<close>), the URL type, the clock and the JSON decoders are parameters.
\<close>

section \<open>Requests and responses\<close>

datatype http_method = GET | PATCH | POST

record http_request =
  rq_method :: http_method
  rq_path :: "string list"
  rq_query :: "(string \<times> string) list"
  rq_body :: "json option"

text \<open>
  A response: the status, the text of the \<open>retry-after\<close> header if there is one that is text, the
  announced length and the chunks of the body as they arrive.
\<close>

record http_response =
  hr_status :: u16
  hr_retry_after :: "string option"
  hr_content_length :: "u64 option"
  hr_chunks :: "(u8 list, network_error_kind) result list"

definition MAX_SUCCESS_BODY_BYTES :: nat where
  "MAX_SUCCESS_BODY_BYTES = 1024 * 1024"

definition MAX_ERROR_BODY_BYTES :: nat where
  "MAX_ERROR_BODY_BYTES = 16 * 1024"

definition PAGE_SIZE :: nat where
  "PAGE_SIZE = 100"

definition MAX_PAGE_REQUESTS :: nat where
  "MAX_PAGE_REQUESTS = 100"

definition MAX_TOTAL_ROWS :: nat where
  "MAX_TOTAL_ROWS = 10000"

lemmas client_limits = MAX_SUCCESS_BODY_BYTES_def MAX_ERROR_BODY_BYTES_def PAGE_SIZE_def
  MAX_PAGE_REQUESTS_def MAX_TOTAL_ROWS_def

definition safe_invalid :: "string \<Rightarrow> snipeit_error" where
  "safe_invalid message = InvalidResponse message"

section \<open>Construction\<close>

text \<open>The parts of a URL as the URL parser answers them.\<close>

record url_parts =
  up_scheme :: string
  up_username :: string
  up_password :: "string option"
  up_query :: "string option"
  up_fragment :: "string option"
  up_host :: "string option"

definition with_timeout :: "(string \<Rightarrow> url_parts option) \<Rightarrow> string \<Rightarrow> (url_parts, string) result" where
  "with_timeout parse base_url =
     (if validate_snipeit_url base_url \<noteq> Ok () then Err ''Snipe-IT URL must use HTTPS''
      else
      and_then (ok_or ''invalid Snipe-IT URL'' (parse (trim base_url))) (\<lambda>u.
        if up_scheme u \<noteq> ''https'' \<or> up_username u \<noteq> [] \<or> up_password u \<noteq> None \<or> up_query u \<noteq> None
          \<or> up_fragment u \<noteq> None \<or> up_host u = None
        then Err ''Snipe-IT URL must be a valid HTTPS endpoint'' else Ok u))"

section \<open>Classification\<close>

definition classify_status :: "u16 \<Rightarrow> u64 option \<Rightarrow> snipeit_error" where
  "classify_status status retry =
     (let s = unat status in
      if s = 401 then AuthFailure
      else if s = 403 then PermissionDenied
      else if s = 404 then NotFound
      else if s = 429 then RateLimited retry
      else if 500 \<le> s \<and> s \<le> 599 then ServerError status ''upstream server rejected the request''
      else if s = 400 \<or> s = 409 \<or> s = 422 then Validation ''upstream rejected the request''
      else safe_invalid ''unexpected HTTP status'')"

definition is_success :: "u16 \<Rightarrow> bool" where
  "is_success status \<longleftrightarrow> 200 \<le> unat status \<and> unat status \<le> 299"

definition body_limit_error :: "u16 \<Rightarrow> u64 option \<Rightarrow> snipeit_error" where
  "body_limit_error status retry =
     (if is_success status then safe_invalid ''response body exceeds limit'' else classify_status status retry)"

definition validate_serial :: "string \<Rightarrow> (unit, snipeit_error) result" where
  "validate_serial serial =
     (if serial = ''.'' \<or> serial = ''..'' \<or> any_control serial
      then Err (Validation ''serial is not a safe URL segment'') else Ok ())"

definition retry_after :: "http_response \<Rightarrow> u64 option" where
  "retry_after response = Option.bind (hr_retry_after response) parse_u64_str"

section \<open>Reading a response\<close>

text \<open>The loop over the chunks: the body read so far grows up to the limit.\<close>

fun read_chunks ::
  "u16 \<Rightarrow> u64 option \<Rightarrow> nat \<Rightarrow> u8 list \<Rightarrow> (u8 list, network_error_kind) result list \<Rightarrow> (u8 list, snipeit_error) result" where
  "read_chunks status retry limit body [] = Ok body"
| "read_chunks status retry limit body (Err k # chunks) = Err (NetworkError k)"
| "read_chunks status retry limit body (Ok chunk # chunks) =
     (if length body + length chunk > limit then Err (body_limit_error status retry)
      else read_chunks status retry limit (body @ chunk) chunks)"

definition body_limit :: "u16 \<Rightarrow> nat" where
  "body_limit status = (if is_success status then MAX_SUCCESS_BODY_BYTES else MAX_ERROR_BODY_BYTES)"

definition read_response :: "http_response \<Rightarrow> (u16 \<times> u64 option \<times> u8 list, snipeit_error) result" where
  "read_response response =
     (let status = hr_status response; retry = retry_after response; limit = body_limit status in
      if (case hr_content_length response of Some n \<Rightarrow> unat n > limit | None \<Rightarrow> False)
      then Err (body_limit_error status retry)
      else and_then (read_chunks status retry limit [] (hr_chunks response)) (\<lambda>body.
        if \<not> is_success status then Err (classify_status status retry)
        else Ok (status, retry, body)))"

definition decode_response ::
  "(u8 list \<Rightarrow> string option) \<Rightarrow> (u16 \<Rightarrow> string \<Rightarrow> u64 option \<Rightarrow> ('a, snipeit_error) result)
     \<Rightarrow> http_response \<Rightarrow> ('a, snipeit_error) result" where
  "decode_response from_utf8 parser response =
     and_then (read_response response) (\<lambda>(status, retry, body).
     and_then (ok_or (safe_invalid ''response body is not valid UTF-8'') (from_utf8 body)) (\<lambda>text.
       parser status text retry))"

section \<open>The calls\<close>

text \<open>
  \<open>push\<close> of a path segment as the URL type documents it: the segments \<open>.\<close> and \<open>..\<close> are ignored.
  The base URL is the list of its path segments; it has a host, so its path can be extended.
\<close>

definition push_segment :: "string list \<Rightarrow> string \<Rightarrow> string list" where
  "push_segment path segment = (if segment = ''.'' \<or> segment = ''..'' then path else path @ [segment])"

definition pop_if_empty :: "string list \<Rightarrow> string list" where
  "pop_if_empty path = (if path \<noteq> [] \<and> last path = [] then butlast path else path)"

definition endpoint_path :: "string list \<Rightarrow> string list \<Rightarrow> string list" where
  "endpoint_path base segments = foldl push_segment (pop_if_empty base) segments"

text \<open>
  The client's environment: the base path, the transport and its parsers.  \<open>tr_send_by\<close> sends under
  the pagination deadline, \<open>tr_deadline\<close> says whether it has passed.
\<close>

record 'w transport =
  tr_base :: "string list"
  tr_send :: "http_request \<Rightarrow> ('w, snipeit_error, http_response) effect"
  tr_send_by :: "http_request \<Rightarrow> ('w, snipeit_error, http_response) effect"
  tr_deadline :: "('w, snipeit_error, bool) effect"
  tr_from_utf8 :: "u8 list \<Rightarrow> string option"
  tr_from_str :: "string \<Rightarrow> json option"
  tr_asset :: "json \<Rightarrow> asset option"
  tr_patch :: "asset_patch_request \<Rightarrow> json"
  tr_checkout :: "checkout_request \<Rightarrow> json"
  tr_checkin :: "checkin_request \<Rightarrow> json"

definition lift_snipeit :: "('a, snipeit_error) result \<Rightarrow> ('w, snipeit_error, 'a) effect" where
  "lift_snipeit r = (\<lambda>w. (r, w))"

definition call ::
  "'w transport \<Rightarrow> http_method \<Rightarrow> string list \<Rightarrow> json option
     \<Rightarrow> (u16 \<Rightarrow> string \<Rightarrow> u64 option \<Rightarrow> ('a, snipeit_error) result) \<Rightarrow> ('w, snipeit_error, 'a) effect" where
  "call tr m segments body parser =
     bind_io (tr_send tr \<lparr>rq_method = m, rq_path = endpoint_path (tr_base tr) segments, rq_query = [], rq_body = body\<rparr>)
       (\<lambda>response. lift_snipeit (decode_response (tr_from_utf8 tr) parser response))"

definition find_asset_by_serial :: "'w transport \<Rightarrow> string \<Rightarrow> ('w, snipeit_error, asset) effect" where
  "find_asset_by_serial tr serial =
     bind_io (lift_snipeit (validate_serial serial)) (\<lambda>_.
       call tr GET [''api'', ''v1'', ''hardware'', ''byserial'', serial] None
         (parse_asset_by_serial (tr_from_str tr) (tr_asset tr)))"

definition get_asset :: "'w transport \<Rightarrow> u64 \<Rightarrow> ('w, snipeit_error, asset) effect" where
  "get_asset tr asset_id =
     call tr GET [''api'', ''v1'', ''hardware'', dec asset_id] None
       (parse_asset_by_serial (tr_from_str tr) (tr_asset tr))"

definition patch_asset :: "'w transport \<Rightarrow> u64 \<Rightarrow> asset_patch_request \<Rightarrow> ('w, snipeit_error, asset) effect" where
  "patch_asset tr asset_id request =
     call tr PATCH [''api'', ''v1'', ''hardware'', dec asset_id] (Some (tr_patch tr request))
       (parse_asset_patch (tr_from_str tr) (tr_asset tr))"

definition checkout_asset :: "'w transport \<Rightarrow> u64 \<Rightarrow> checkout_request \<Rightarrow> ('w, snipeit_error, unit) effect" where
  "checkout_asset tr source_id request =
     call tr POST [''api'', ''v1'', ''hardware'', dec source_id, ''checkout''] (Some (tr_checkout tr request))
       (parse_checkout_response (tr_from_str tr))"

definition checkin_asset :: "'w transport \<Rightarrow> u64 \<Rightarrow> checkin_request \<Rightarrow> ('w, snipeit_error, unit) effect" where
  "checkin_asset tr source_id request =
     call tr POST [''api'', ''v1'', ''hardware'', dec source_id, ''checkin''] (Some (tr_checkin tr request))
       (parse_checkin_response (tr_from_str tr))"

section \<open>Pagination\<close>

definition page_request :: "'w transport \<Rightarrow> string list \<Rightarrow> string \<Rightarrow> nat \<Rightarrow> http_request" where
  "page_request tr endpoint search request_index =
     \<lparr>rq_method = GET, rq_path = endpoint_path (tr_base tr) endpoint,
      rq_query = [(''search'', search), (''limit'', dec_nat PAGE_SIZE), (''offset'', dec_nat (request_index * PAGE_SIZE))],
      rq_body = None\<rparr>"

text \<open>The rows of one response; \<open>rows\<close> decodes the \<open>rows\<close> member of its body.\<close>

definition read_page :: "(u8 list \<Rightarrow> 'a list option) \<Rightarrow> http_response \<Rightarrow> ('a list, snipeit_error) result" where
  "read_page rows response =
     and_then (read_response response) (\<lambda>(status, retry, body).
     if \<not> is_success status then Err (classify_status status retry)
     else
     and_then (ok_or (safe_invalid ''response body is not valid JSON'') (rows body)) (\<lambda>page.
     if length page > PAGE_SIZE then Err (safe_invalid ''pagination page exceeds requested limit'')
     else Ok page))"

text \<open>The loop over the request indexes, the rest of \<open>0..MAX_PAGE_REQUESTS\<close>.\<close>

fun page_loop ::
  "'w transport \<Rightarrow> (u8 list \<Rightarrow> 'a list option) \<Rightarrow> string list \<Rightarrow> string \<Rightarrow> 'a list \<Rightarrow> nat list
     \<Rightarrow> ('w, snipeit_error, 'a list) effect" where
  "page_loop tr rows endpoint search got [] = fail (safe_invalid ''pagination request limit exceeded'')"
| "page_loop tr rows endpoint search got (request_index # rest) =
     bind_io (tr_deadline tr) (\<lambda>expired.
     if expired then fail (safe_invalid ''pagination deadline exceeded'')
     else
     bind_io (tr_send_by tr (page_request tr endpoint search request_index)) (\<lambda>response.
     bind_io (lift_snipeit (read_page rows response)) (\<lambda>page.
     if length got + length page > MAX_TOTAL_ROWS then fail (safe_invalid ''pagination row limit exceeded'')
     else if length page < PAGE_SIZE then ret (got @ page)
     else if request_index + 1 = MAX_PAGE_REQUESTS then fail (safe_invalid ''pagination request limit exceeded'')
     else page_loop tr rows endpoint search (got @ page) rest)))"

definition paginated ::
  "'w transport \<Rightarrow> (u8 list \<Rightarrow> 'a list option) \<Rightarrow> string list \<Rightarrow> string \<Rightarrow> ('w, snipeit_error, 'a list) effect" where
  "paginated tr rows endpoint search = page_loop tr rows endpoint search [] [0..<MAX_PAGE_REQUESTS]"

definition find_manufacturers ::
  "'w transport \<Rightarrow> (u8 list \<Rightarrow> manufacturer list option) \<Rightarrow> string \<Rightarrow> ('w, snipeit_error, manufacturer list) effect" where
  "find_manufacturers tr rows name = paginated tr rows [''api'', ''v1'', ''manufacturers''] name"

definition find_categories ::
  "'w transport \<Rightarrow> (u8 list \<Rightarrow> category list option) \<Rightarrow> string \<Rightarrow> ('w, snipeit_error, category list) effect" where
  "find_categories tr rows name = paginated tr rows [''api'', ''v1'', ''categories''] name"

definition find_models ::
  "'w transport \<Rightarrow> (u8 list \<Rightarrow> asset_model list option) \<Rightarrow> string \<Rightarrow> ('w, snipeit_error, asset_model list) effect" where
  "find_models tr rows name = paginated tr rows [''api'', ''v1'', ''models''] name"

section \<open>What reading guarantees\<close>

lemma read_chunks_Ok:
  "read_chunks status retry limit body chunks = Ok result \<Longrightarrow> length body \<le> limit \<Longrightarrow>
     length result \<le> limit \<and> chunks = map Ok (map (\<lambda>c. case c of Ok x \<Rightarrow> x | Err _ \<Rightarrow> []) chunks)
     \<and> result = body @ concat (map (\<lambda>c. case c of Ok x \<Rightarrow> x | Err _ \<Rightarrow> []) chunks)"
  by (induction status retry limit body chunks rule: read_chunks.induct) (auto split: if_splits)

lemma read_response_Ok:
  assumes "read_response response = Ok (status, retry, body)"
  shows "status = hr_status response \<and> is_success status \<and> retry = retry_after response
    \<and> length body \<le> MAX_SUCCESS_BODY_BYTES
    \<and> (\<exists>chunks. hr_chunks response = map Ok chunks \<and> body = concat chunks)"
proof -
  from assms have s: "is_success (hr_status response)" "status = hr_status response" "retry = retry_after response"
    and body: "read_chunks (hr_status response) (retry_after response) (body_limit (hr_status response)) [] (hr_chunks response) = Ok body"
    by (auto simp: read_response_def Let_def and_then_eq_Ok split: if_splits)
  have limit: "body_limit (hr_status response) = MAX_SUCCESS_BODY_BYTES" using s(1) by (simp add: body_limit_def)
  define chunks where "chunks = map (\<lambda>c. case c of Ok x \<Rightarrow> x | Err _ \<Rightarrow> []) (hr_chunks response)"
  have "length body \<le> MAX_SUCCESS_BODY_BYTES" "hr_chunks response = map Ok chunks" "body = concat chunks"
    using read_chunks_Ok [OF body, unfolded limit, folded chunks_def] by auto
  with s show ?thesis by blast
qed

lemma read_chunks_not_success:
  "\<not> is_success status \<Longrightarrow> read_chunks status retry limit body chunks = Err e \<Longrightarrow>
     e = classify_status status retry \<or> (\<exists>k. Err k \<in> set chunks \<and> e = NetworkError k)"
  by (induction status retry limit body chunks rule: read_chunks.induct)
     (auto simp: body_limit_error_def split: if_splits)

text \<open>
  The body of a response that is not a success decides nothing.  Whatever the parser, decoding
  a response of another status than 2xx yields the classification of its status, or a network error
  when a chunk before the limit failed.
\<close>

theorem error_status_ignores_body:
  assumes "\<not> is_success (hr_status response)"
  shows "decode_response from_utf8 parser response = Err (classify_status (hr_status response) (retry_after response))
    \<or> (\<exists>k. Err k \<in> set (hr_chunks response) \<and> decode_response from_utf8 parser response = Err (NetworkError k))"
  using assms
  by (cases "read_chunks (hr_status response) (retry_after response) (body_limit (hr_status response)) [] (hr_chunks response)")
     (auto simp: decode_response_def read_response_def Let_def body_limit_error_def
        dest: read_chunks_not_success)

definition demo_limited :: http_response where
  "demo_limited = \<lparr>hr_status = 429, hr_retry_after = Some ''7'', hr_content_length = None, hr_chunks = [Ok [0x7B], Ok [0x7D]]\<rparr>"

theorem error_status_ignores_body_witness:
  "decode_response (\<lambda>_. Some []) (\<lambda>_ _ _. Ok ()) demo_limited = Err (RateLimited (Some 7))"
proof -
  have "parse_u64_str ''7'' = Some 7" by code_simp
  then have "classify_status (hr_status demo_limited) (retry_after demo_limited) = RateLimited (Some 7)"
    by (simp add: classify_status_def retry_after_def demo_limited_def)
  moreover have "\<not> is_success (hr_status demo_limited)" by (simp add: is_success_def demo_limited_def)
  moreover have "Err k \<notin> set (hr_chunks demo_limited)" for k by (simp add: demo_limited_def)
  ultimately show ?thesis
    using error_status_ignores_body [of demo_limited "\<lambda>_. Some []" "\<lambda>_ _ _. Ok ()"] by auto
qed

section \<open>What pagination guarantees\<close>

text \<open>The transport with the list of the requests that the pagination has sent, and their answers.\<close>

type_synonym exchange = "http_request \<times> (http_response, snipeit_error) result"

definition logged :: "'w transport \<Rightarrow> ('w \<times> exchange list) transport" where
  "logged tr =
     \<lparr>tr_base = tr_base tr,
      tr_send = (\<lambda>q (w, qs). case tr_send tr q w of (r, w') \<Rightarrow> (r, (w', qs))),
      tr_send_by = (\<lambda>q (w, qs). case tr_send_by tr q w of (r, w') \<Rightarrow> (r, (w', qs @ [(q, r)]))),
      tr_deadline = (\<lambda>(w, qs). case tr_deadline tr w of (r, w') \<Rightarrow> (r, (w', qs))),
      tr_from_utf8 = tr_from_utf8 tr, tr_from_str = tr_from_str tr, tr_asset = tr_asset tr,
      tr_patch = tr_patch tr, tr_checkout = tr_checkout tr, tr_checkin = tr_checkin tr\<rparr>"

lemma logged_calls [simp]:
  "tr_deadline (logged tr) (w, qs) = (fst (tr_deadline tr w), (snd (tr_deadline tr w), qs))"
  "tr_send_by (logged tr) q (w, qs) = (fst (tr_send_by tr q w), (snd (tr_send_by tr q w), qs @ [(q, fst (tr_send_by tr q w))]))"
  "page_request (logged tr) = page_request tr"
  by (simp_all add: logged_def case_prod_unfold page_request_def fun_eq_iff)

lemma bind_lift_snipeit: "bind_io (lift_snipeit r) f = (case r of Ok x \<Rightarrow> f x | Err e \<Rightarrow> fail e)"
  by (cases r) (auto simp: bind_io_def lift_snipeit_def fun_eq_iff)

text \<open>What a page loop that answers has received: full pages, then a short one.\<close>

definition good_pages :: "'a list list \<Rightarrow> bool" where
  "good_pages pages \<longleftrightarrow> pages \<noteq> [] \<and> (\<forall>p\<in>set (butlast pages). length p = PAGE_SIZE) \<and> length (last pages) < PAGE_SIZE"

text \<open>A response and the page in it: a success whose body decodes to these rows.\<close>

definition holds_page :: "(u8 list \<Rightarrow> 'a list option) \<Rightarrow> http_response \<Rightarrow> 'a list \<Rightarrow> bool" where
  "holds_page rows response page \<longleftrightarrow> (\<exists>retry body. read_response response = Ok (hr_status response, retry, body)
     \<and> is_success (hr_status response) \<and> rows body = Some page)"

lemma read_response_status: "read_response response = Ok (status, retry, body) \<Longrightarrow> status = hr_status response"
  by (auto simp: read_response_def Let_def and_then_eq_Ok map_ok_eq_Ok split: if_splits result.splits option.splits)

lemma read_page_holds: "read_page rows response = Ok page \<Longrightarrow> holds_page rows response page \<and> length page \<le> PAGE_SIZE"
  by (auto simp: read_page_def holds_page_def and_then_eq_Ok ok_or_def dest: read_response_status split: if_splits option.splits)

text \<open>The exchanges for consecutive pages, the first with the given index.\<close>

definition page_exchanges ::
  "'w transport \<Rightarrow> string list \<Rightarrow> string \<Rightarrow> nat \<Rightarrow> http_response list \<Rightarrow> exchange list" where
  "page_exchanges tr endpoint search k responses =
     zip (map (page_request tr endpoint search) [k..<k + length responses]) (map Ok responses)"

lemma page_exchanges_Cons [simp]:
  "page_exchanges tr endpoint search k (r # rs) = (page_request tr endpoint search k, Ok r) # page_exchanges tr endpoint search (Suc k) rs"
  "page_exchanges tr endpoint search k [] = []"
proof -
  have "[k..<k + length (r # rs)] = k # [Suc k..<Suc k + length rs]" by (subst upt_conv_Cons) simp_all
  then show "page_exchanges tr endpoint search k (r # rs)
      = (page_request tr endpoint search k, Ok r) # page_exchanges tr endpoint search (Suc k) rs"
    by (simp add: page_exchanges_def del: upt_Suc)
qed (simp add: page_exchanges_def)

lemma page_loop_Ok:
  assumes "page_loop (logged tr) rows endpoint search got [k..<MAX_PAGE_REQUESTS] (w, qs) = (Ok result, (w', qs'))"
  shows "page_loop tr rows endpoint search got [k..<MAX_PAGE_REQUESTS] w = (Ok result, w')
    \<and> (\<exists>responses pages. good_pages pages \<and> k + length pages \<le> MAX_PAGE_REQUESTS \<and> result = got @ concat pages
        \<and> list_all2 (holds_page rows) responses pages
        \<and> qs' = qs @ page_exchanges tr endpoint search k responses)"
  using assms
proof (induction "MAX_PAGE_REQUESTS - k" arbitrary: k got w qs)
  case 0
  then show ?case by simp
next
  case (Suc n)
  then have k: "[k..<MAX_PAGE_REQUESTS] = k # [Suc k..<MAX_PAGE_REQUESTS]" "k < MAX_PAGE_REQUESTS"
    by (simp_all add: upt_conv_Cons)
  obtain w1 response w2 page where 1: "tr_deadline tr w = (Ok False, w1)"
    and 2: "tr_send_by tr (page_request tr endpoint search k) w1 = (Ok response, w2)"
    and 3: "read_page rows response = Ok page" "length got + length page \<le> MAX_TOTAL_ROWS"
    and rest: "(if length page < PAGE_SIZE then ret (got @ page)
      else if k + 1 = MAX_PAGE_REQUESTS then fail (safe_invalid ''pagination request limit exceeded'')
      else page_loop (logged tr) rows endpoint search (got @ page) [Suc k..<MAX_PAGE_REQUESTS])
      (w2, qs @ [(page_request tr endpoint search k, Ok response)]) = (Ok result, (w', qs'))"
  proof -
    obtain r1 w1 where 1: "tr_deadline tr w = (r1, w1)" by fastforce
    obtain r2 w2 where 2: "tr_send_by tr (page_request tr endpoint search k) w1 = (r2, w2)" by fastforce
    show thesis
      using Suc.prems that [of w1 _ w2] 1 2 unfolding k(1) page_loop.simps
      by (cases r1; cases r2)
         (auto simp: bind_io_def lift_snipeit_def simp del: page_loop.simps split: if_splits result.splits)
  qed
  have page: "length page \<le> PAGE_SIZE" "holds_page rows response page" using read_page_holds [OF 3(1)] by simp_all
  have step: "page_loop tr rows endpoint search got [k..<MAX_PAGE_REQUESTS] w =
      (if length page < PAGE_SIZE then ret (got @ page)
       else if k + 1 = MAX_PAGE_REQUESTS then fail (safe_invalid ''pagination request limit exceeded'')
       else page_loop tr rows endpoint search (got @ page) [Suc k..<MAX_PAGE_REQUESTS]) w2"
    unfolding k(1) page_loop.simps using 3 by (simp add: bind_io_Ok [where m = "tr_deadline tr", OF 1]
      bind_io_Ok [where m = "tr_send_by tr (page_request tr endpoint search k)", OF 2] bind_lift_snipeit)
  show ?case
  proof (cases "length page < PAGE_SIZE")
    case True
    then show ?thesis
      using rest step k(2) page(2)
      by (intro conjI exI [of _ "[response]"] exI [of _ "[page]"]) (simp_all add: good_pages_def)
  next
    case False
    then have more: "k + 1 \<noteq> MAX_PAGE_REQUESTS" "length page = PAGE_SIZE" using rest page(1) by (auto split: if_splits)
    have "n = MAX_PAGE_REQUESTS - Suc k" using Suc.hyps(2) by simp
    from Suc.hyps(1) [OF this, of "got @ page" w2 "qs @ [(page_request tr endpoint search k, Ok response)]"] rest False more(1)
    obtain responses pages where pages:
        "page_loop tr rows endpoint search (got @ page) [Suc k..<MAX_PAGE_REQUESTS] w2 = (Ok result, w')"
        "good_pages pages" "Suc k + length pages \<le> MAX_PAGE_REQUESTS" "result = (got @ page) @ concat pages"
        "list_all2 (holds_page rows) responses pages"
        "qs' = (qs @ [(page_request tr endpoint search k, Ok response)]) @ page_exchanges tr endpoint search (Suc k) responses"
      by auto
    with more False step page(2) show ?thesis
      by (intro conjI exI [of _ "response # responses"] exI [of _ "page # pages"]) (auto simp: good_pages_def)
  qed
qed

lemma concat_pages:
  assumes "\<forall>k<n. pages ! k = take PAGE_SIZE (drop (k * PAGE_SIZE) table)" "n \<le> length pages"
  shows "concat (take n pages) = take (n * PAGE_SIZE) table"
  using assms
proof (induction n)
  case (Suc n)
  then have "concat (take (Suc n) pages) = take (n * PAGE_SIZE) table @ take PAGE_SIZE (drop (n * PAGE_SIZE) table)"
    by (simp add: take_Suc_conv_app_nth)
  also have "\<dots> = take (n * PAGE_SIZE + PAGE_SIZE) table" by (simp only: take_add)
  finally show ?case by (simp add: add.commute)
qed simp

text \<open>A table that is served page by page is answered whole.\<close>

lemma good_pages_table:
  assumes "good_pages pages" "\<forall>k<length pages. pages ! k = take PAGE_SIZE (drop (k * PAGE_SIZE) table)"
  shows "concat pages = table"
proof -
  let ?n = "length pages - 1"
  have n: "pages \<noteq> []" "length pages = Suc ?n" using assms(1) by (auto simp: good_pages_def)
  then have "length (take PAGE_SIZE (drop (?n * PAGE_SIZE) table)) < PAGE_SIZE"
    using assms by (simp add: good_pages_def last_conv_nth)
  then have "length table \<le> Suc ?n * PAGE_SIZE" by simp
  then have "length table \<le> length pages * PAGE_SIZE" unfolding n(2) [symmetric] .
  then show ?thesis using concat_pages [of "length pages" pages table] assms(2) by simp
qed

text \<open>
  C26: a taxonomy list that is answered is complete.  The answer holds the rows of at most 100 pages,
  in the order of the pages: each page is what the body of the response to its own request decodes
  to, the requests ask for consecutive offsets from 0 and are the only ones sent, each response
  is a success, every page but the last is full and the last one short.  So fewer than 10000 rows
  are ever answered, and if the server has served a table page by page, the answer is the table.
\<close>

theorem paginated_is_complete:
  assumes "paginated (logged tr) rows endpoint search (w, []) = (Ok result, (w', exchanges))"
  shows "paginated tr rows endpoint search w = (Ok result, w')
    \<and> length result < MAX_TOTAL_ROWS
    \<and> (\<exists>responses pages.
        exchanges = zip (map (page_request tr endpoint search) [0..<length responses]) (map Ok responses)
        \<and> list_all2 (holds_page rows) responses pages
        \<and> good_pages pages \<and> length pages \<le> MAX_PAGE_REQUESTS \<and> result = concat pages
        \<and> (\<forall>table. (\<forall>k<length pages. pages ! k = take PAGE_SIZE (drop (k * PAGE_SIZE) table)) \<longrightarrow> result = table))"
proof -
  obtain responses pages where pages: "paginated tr rows endpoint search w = (Ok result, w')" "good_pages pages"
      "length pages \<le> MAX_PAGE_REQUESTS" "result = concat pages" "list_all2 (holds_page rows) responses pages"
      "exchanges = page_exchanges tr endpoint search 0 responses"
    using page_loop_Ok [of tr rows endpoint search "[]" 0 w "[]" result w' exchanges] assms by (auto simp: paginated_def)
  have "length (concat ps) = length ps * PAGE_SIZE" if "\<forall>p\<in>set ps. length p = PAGE_SIZE" for ps :: "'a list list"
    using that by (induction ps) simp_all
  from this [of "butlast pages"] have "length (concat pages) = (length pages - 1) * PAGE_SIZE + length (last pages)"
    using pages(2) by (cases pages rule: rev_cases) (auto simp: good_pages_def)
  with pages(2,3) have "length (concat pages) < MAX_TOTAL_ROWS"
    by (auto simp: good_pages_def client_limits)
  with pages good_pages_table [OF pages(2)] show ?thesis
    by (intro conjI exI [of _ responses] exI [of _ pages]) (simp_all add: page_exchanges_def)
qed

text \<open>A server with two taxonomy entries.\<close>

definition demo_transport :: "nat transport" where
  "demo_transport = \<lparr>tr_base = [], tr_send = (\<lambda>_ n. (Err NotFound, n)),
     tr_send_by = (\<lambda>_ n. (Ok \<lparr>hr_status = 200, hr_retry_after = None, hr_content_length = None, hr_chunks = []\<rparr>, Suc n)),
     tr_deadline = ret False, tr_from_utf8 = (\<lambda>_. None), tr_from_str = (\<lambda>_. None), tr_asset = (\<lambda>_. None),
     tr_patch = (\<lambda>_. JNull), tr_checkout = (\<lambda>_. JNull), tr_checkin = (\<lambda>_. JNull)\<rparr>"

text \<open>A server with 102 entries, whose second page holds two.\<close>

definition demo_pages :: "nat transport" where
  "demo_pages = demo_transport\<lparr>tr_send_by := (\<lambda>_ n. (Ok \<lparr>hr_status = 200, hr_retry_after = None,
     hr_content_length = None, hr_chunks = [Ok [of_nat n]]\<rparr>, Suc n))\<rparr>"

definition demo_rows :: "u8 list \<Rightarrow> nat list option" where
  "demo_rows body = Some (if body = [0] then [0..<100] else [100, 101])"

theorem paginated_is_complete_witness:
  "\<exists>exchanges. paginated (logged demo_pages) demo_rows [''x''] ''y'' (0, []) = (Ok [0..<102], (2, exchanges))
     \<and> paginated demo_pages demo_rows [''x''] ''y'' 0 = (Ok [0..<102], 2)
     \<and> map (\<lambda>q. map_of (rq_query (fst q)) ''offset'') exchanges = [Some ''0'', Some ''100'']"
proof -
  let ?qs = "map (\<lambda>k. (page_request (logged demo_pages) [''x''] ''y'' k,
    Ok \<lparr>hr_status = 200, hr_retry_after = None, hr_content_length = None, hr_chunks = [Ok [of_nat k]]\<rparr>)) [0, 1]"
  have run: "paginated (logged demo_pages) demo_rows [''x''] ''y'' (0, []) = (Ok [0..<102], (2, ?qs))"
    by code_simp
  have "map (\<lambda>q. map_of (rq_query (fst q)) ''offset'') ?qs = [Some ''0'', Some ''100'']" by code_simp
  with run paginated_is_complete [OF run, THEN conjunct1] show ?thesis by (intro exI [of _ ?qs] conjI)
qed

text \<open>
  A lookup asks for exactly the serial it was given: when the serial is accepted, the path of
  the only request ends in that serial as a segment of its own, whatever the serial is.
\<close>

theorem lookup_path_exact:
  "find_asset_by_serial tr serial w =
     (if serial = ''.'' \<or> serial = ''..'' \<or> any_control serial
      then (Err (Validation ''serial is not a safe URL segment''), w)
      else bind_io (tr_send tr \<lparr>rq_method = GET,
             rq_path = pop_if_empty (tr_base tr) @ [''api'', ''v1'', ''hardware'', ''byserial'', serial],
             rq_query = [], rq_body = None\<rparr>)
           (\<lambda>response. lift_snipeit (decode_response (tr_from_utf8 tr)
              (parse_asset_by_serial (tr_from_str tr) (tr_asset tr)) response)) w)"
  by (auto simp: find_asset_by_serial_def validate_serial_def call_def endpoint_path_def push_segment_def bind_lift_snipeit)

section \<open>The row limit\<close>

text \<open>The loop without the check of \<open>MAX_TOTAL_ROWS\<close>.\<close>

fun page_loop_unlimited ::
  "'w transport \<Rightarrow> (u8 list \<Rightarrow> 'a list option) \<Rightarrow> string list \<Rightarrow> string \<Rightarrow> 'a list \<Rightarrow> nat list
     \<Rightarrow> ('w, snipeit_error, 'a list) effect" where
  "page_loop_unlimited tr rows endpoint search got [] = fail (safe_invalid ''pagination request limit exceeded'')"
| "page_loop_unlimited tr rows endpoint search got (request_index # rest) =
     bind_io (tr_deadline tr) (\<lambda>expired.
     if expired then fail (safe_invalid ''pagination deadline exceeded'')
     else
     bind_io (tr_send_by tr (page_request tr endpoint search request_index)) (\<lambda>response.
     bind_io (lift_snipeit (read_page rows response)) (\<lambda>page.
     if length page < PAGE_SIZE then ret (got @ page)
     else if request_index + 1 = MAX_PAGE_REQUESTS then fail (safe_invalid ''pagination request limit exceeded'')
     else page_loop_unlimited tr rows endpoint search (got @ page) rest)))"

lemma bind_io_cong:
  "(\<And>x w1. m w = (Ok x, w1) \<Longrightarrow> f x w1 = g x w1) \<Longrightarrow> bind_io m f w = bind_io m g w"
  by (auto simp: bind_io_def split: prod.split result.split)

lemma page_loop_unlimited_eq:
  "length got \<le> k * PAGE_SIZE \<Longrightarrow>
     page_loop tr rows endpoint search got [k..<MAX_PAGE_REQUESTS] w
     = page_loop_unlimited tr rows endpoint search got [k..<MAX_PAGE_REQUESTS] w"
proof (induction "MAX_PAGE_REQUESTS - k" arbitrary: k got w)
  case (Suc n)
  then have k: "[k..<MAX_PAGE_REQUESTS] = k # [Suc k..<MAX_PAGE_REQUESTS]" "k < MAX_PAGE_REQUESTS"
    by (simp_all add: upt_conv_Cons)
  have n: "n = MAX_PAGE_REQUESTS - Suc k" using Suc.hyps(2) by simp
  have page: "\<not> length got + length page > MAX_TOTAL_ROWS" "length (got @ page) \<le> Suc k * PAGE_SIZE"
    if "read_page rows response = Ok page" for page :: "'a list" and response
  proof -
    have "length page \<le> PAGE_SIZE" using that by (auto simp: read_page_def and_then_eq_Ok split: if_splits)
    then show "length (got @ page) \<le> Suc k * PAGE_SIZE" using Suc.prems by simp
    moreover have "Suc k * PAGE_SIZE \<le> MAX_TOTAL_ROWS" using k(2) by (simp add: client_limits)
    ultimately show "\<not> length got + length page > MAX_TOTAL_ROWS" by simp
  qed
  show ?case
    unfolding k(1) page_loop.simps page_loop_unlimited.simps
    using page Suc.hyps(1) [OF n]
    by (intro bind_io_cong if_cong refl) (auto simp: lift_snipeit_def intro!: bind_io_cong)
qed simp

text \<open>
  The check of the total number of rows never fires: with at most 100 requests of at most 100
  rows each, the pagination behaves in every world exactly as the loop without it.
\<close>

theorem row_limit_unreachable:
  "paginated tr rows endpoint search = page_loop_unlimited tr rows endpoint search [] [0..<MAX_PAGE_REQUESTS]"
  unfolding paginated_def by (rule ext) (rule page_loop_unlimited_eq, simp)

end
