(* ===== verification/Gather.thy ===== *)
theory Gather
  imports Client SyncPlan
begin

text \<open>
  \<open>spotter-svc/src/gather.rs\<close>: discovery of the hardware and its strict resolution against Snipe-IT.
  The lower-casing of Unicode text is a parameter.
\<close>

section \<open>Taxonomy resolution\<close>

text \<open>\<open>split_whitespace\<close>: the maximal runs without white space.\<close>

fun split_words :: "string \<Rightarrow> string \<Rightarrow> string list" where
  "split_words word s =
     (if s = [] then (if word = [] then [] else [word])
      else if ws_len s = 0 then split_words (word @ [hd s]) (tl s)
      else (if word = [] then [] else [word]) @ split_words [] (drop (ws_len s) s))"

declare split_words.simps [simp del]

definition normalize :: "(string \<Rightarrow> string) \<Rightarrow> string \<Rightarrow> string" where
  "normalize to_lowercase s = to_lowercase (join_with '' '' (split_words [] s))"

definition resolution_from_ids :: "u64 list \<Rightarrow> taxonomy_resolution" where
  "resolution_from_ids ids =
     (case remdups_adj (sort (filter (\<lambda>i. i \<noteq> 0) ids)) of
        [] \<Rightarrow> Missing
      | [i] \<Rightarrow> Resolved i
      | _ \<Rightarrow> Ambiguous)"

definition resolved_id :: "taxonomy_resolution \<Rightarrow> u64 option" where
  "resolved_id r = (case r of Resolved i \<Rightarrow> Some i | _ \<Rightarrow> None)"

definition resolve_named :: "(string \<Rightarrow> string) \<Rightarrow> (u64 \<times> string) list \<Rightarrow> string \<Rightarrow> taxonomy_resolution" where
  "resolve_named to_lowercase named normalized =
     resolution_from_ids (map fst (filter (\<lambda>(_, name). normalize to_lowercase name = normalized) named))"

definition matching_models ::
  "(string \<Rightarrow> string) \<Rightarrow> asset_model list \<Rightarrow> string \<Rightarrow> u64 option \<Rightarrow> asset_model list" where
  "matching_models to_lowercase models normalized manufacturer_id =
     filter (\<lambda>m. case manufacturer_id of None \<Rightarrow> True
         | Some i \<Rightarrow> (case am_manufacturer m of Some mf \<Rightarrow> mf_id mf = i | None \<Rightarrow> False))
       (filter (\<lambda>m. normalize to_lowercase (am_name m) = normalized) models)"

text \<open>The parsers of the two taxonomy lists, and \<open>resolve_taxonomy\<close> of the client.\<close>

definition map_error :: "('e \<Rightarrow> 'f) \<Rightarrow> ('w, 'e, 'a) effect \<Rightarrow> ('w, 'f, 'a) effect" where
  "map_error f m = (\<lambda>w. case m w of (Ok x, w') \<Rightarrow> (Ok x, w') | (Err e, w') \<Rightarrow> (Err (f e), w'))"

definition resolve_taxonomy ::
  "'w transport \<Rightarrow> (u8 list \<Rightarrow> manufacturer list option) \<Rightarrow> (u8 list \<Rightarrow> asset_model list option)
     \<Rightarrow> (string \<Rightarrow> string) \<Rightarrow> string \<Rightarrow> string \<Rightarrow> ('w, resolved_taxonomy) io" where
  "resolve_taxonomy tr manufacturer_rows model_rows to_lowercase manufacturer_name model_name =
     (let normalized_manufacturer = normalize to_lowercase manufacturer_name;
          normalized_model = normalize to_lowercase model_name in
      bind_io (map_error Remote (find_manufacturers tr manufacturer_rows manufacturer_name)) (\<lambda>manufacturers.
      let manufacturer = resolve_named to_lowercase (map (\<lambda>v. (mf_id v, mf_name v)) manufacturers) normalized_manufacturer in
      bind_io (map_error Remote (find_models tr model_rows model_name)) (\<lambda>models.
      let matching = matching_models to_lowercase models normalized_model (resolved_id manufacturer) in
      ret \<lparr>tx_manufacturer = manufacturer,
           tx_category = resolution_from_ids (concat (map (\<lambda>m. case am_category m of Some c \<Rightarrow> [ct_id c] | None \<Rightarrow> []) matching)),
           tx_model = resolution_from_ids (map am_id matching),
           normalized_manufacturer = normalized_manufacturer, normalized_model = normalized_model\<rparr>)))"

text \<open>\<open>find_asset_by_serial\<close> of the port: not found is an answer.\<close>

definition find_asset :: "'w transport \<Rightarrow> string \<Rightarrow> ('w, asset option) io" where
  "find_asset tr serial = (\<lambda>w.
     case find_asset_by_serial tr serial w of
       (Ok a, w') \<Rightarrow> (Ok (Some a), w')
     | (Err e, w') \<Rightarrow> (if e = NotFound then Ok None else Err (Remote e), w'))"

section \<open>Gathering\<close>

record 'w remote_reads =
  rr_find_asset :: "string \<Rightarrow> ('w, asset option) io"
  rr_resolve_taxonomy :: "string \<Rightarrow> string \<Rightarrow> ('w, resolved_taxonomy) io"

definition client_reads ::
  "'w transport \<Rightarrow> (u8 list \<Rightarrow> manufacturer list option) \<Rightarrow> (u8 list \<Rightarrow> asset_model list option)
     \<Rightarrow> (string \<Rightarrow> string) \<Rightarrow> 'w remote_reads" where
  "client_reads tr manufacturer_rows model_rows to_lowercase =
     \<lparr>rr_find_asset = find_asset tr,
      rr_resolve_taxonomy = resolve_taxonomy tr manufacturer_rows model_rows to_lowercase\<rparr>"

record gathered_sync =
  ga_system :: system_info
  ga_system_asset :: "asset option"
  ga_system_taxonomy :: resolved_taxonomy
  ga_monitors :: "resolved_monitor list"
  ga_warnings :: "string list"

text \<open>\<open>downcast_ref::<SnipeItError>\<close> finds the typed error below any contexts.\<close>

fun downcast_snipeit :: "failure \<Rightarrow> snipeit_error option" where
  "downcast_snipeit (Message _) = None"
| "downcast_snipeit (Remote e) = Some e"
| "downcast_snipeit (Context _ f) = downcast_snipeit f"
| "downcast_snipeit (SavedCandidate _) = None"

fun optional_asset :: "(asset option, failure) result \<Rightarrow> (asset option, failure) result" where
  "optional_asset (Ok (Some a)) = Ok (if as_id a \<noteq> 0 then Some a else None)"
| "optional_asset (Ok None) = Ok None"
| "optional_asset (Err e) =
     (if downcast_snipeit e = Some NotFound then Ok None
      else Err (Context ''failed to resolve Snipe-IT asset'' e))"

definition find_optional :: "'w remote_reads \<Rightarrow> string \<Rightarrow> ('w, asset option) io" where
  "find_optional remote serial = (\<lambda>w. case rr_find_asset remote serial w of (r, w') \<Rightarrow> (optional_asset r, w'))"

fun gather_monitors ::
  "'w remote_reads \<Rightarrow> monitor_info list \<Rightarrow> resolved_monitor list \<times> string list
     \<Rightarrow> ('w, resolved_monitor list \<times> string list) io" where
  "gather_monitors remote [] s = ret s"
| "gather_monitors remote (m # ms) (monitors, warns) =
     bind_io (find_optional remote (mi_serial m)) (\<lambda>asset.
     let warns = (if asset = None
           then warns @ [''monitor '' @ mi_serial m @ '' has no matching Snipe-IT asset''] else warns) in
     bind_io (rr_resolve_taxonomy remote (manufacturer_code m) (product_code m)) (\<lambda>taxonomy.
       gather_monitors remote ms
         (monitors @ [\<lparr>rm_monitor = m, rm_asset_id = nonzero (map_option as_id asset), rm_taxonomy = taxonomy\<rparr>], warns)))"

definition gather_sync ::
  "('w, system_info \<times> monitor_info list) io \<Rightarrow> 'w remote_reads \<Rightarrow> ('w, gathered_sync) io" where
  "gather_sync discover remote =
     bind_io discover (\<lambda>(sys, infos).
     bind_io (find_optional remote (si_serial sys)) (\<lambda>system_asset.
     bind_io (rr_resolve_taxonomy remote (si_manufacturer sys) (si_model sys)) (\<lambda>system_taxonomy.
     bind_io (gather_monitors remote infos ([], [])) (\<lambda>(monitors, warns).
       ret \<lparr>ga_system = sys, ga_system_asset = system_asset, ga_system_taxonomy = system_taxonomy,
            ga_monitors = monitors,
            ga_warnings = warns @ (if system_asset = None
              then [''computer '' @ si_serial sys @ '' has no matching Snipe-IT asset''] else [])\<rparr>))))"

section \<open>Strict resolution\<close>

lemma distinct_remdups_adj: "sorted xs \<Longrightarrow> distinct (remdups_adj (xs :: 'a::linorder list))"
  by (induction xs rule: remdups_adj.induct) (auto dest: antisym)

text \<open>
  A taxonomy name resolves exactly when one ID other than zero carries it: it is missing when
  none does and ambiguous when two different ones do, however often and in whatever order the
  server lists them.
\<close>

theorem resolution_from_ids_exact:
  "resolution_from_ids ids =
     (if set ids \<subseteq> {0} then Missing
      else if \<exists>i. set ids - {0} = {i} then Resolved (hd (filter (\<lambda>i. i \<noteq> 0) ids))
      else Ambiguous)"
proof -
  let ?ids = "filter (\<lambda>i. i \<noteq> 0) ids"
  have set_eq: "set (remdups_adj (sort ?ids)) = set ids - {0}" by auto
  have dist: "distinct (remdups_adj (sort ?ids))" by (simp add: distinct_remdups_adj)
  consider (none) "remdups_adj (sort ?ids) = []" | (one) i where "remdups_adj (sort ?ids) = [i]"
    | (many) i j more where "remdups_adj (sort ?ids) = i # j # more"
    by (metis list.exhaust)
  then show ?thesis
  proof cases
    case none
    then have "set ids - {0} = {}" using set_eq by simp
    then have "set ids \<subseteq> {0}" by blast
    then show ?thesis
      unfolding resolution_from_ids_def none by (simp only: list.case if_True)
  next
    case (one i)
    then have ids: "set ids - {0} = {i}" using set_eq by simp
    then have nonempty: "\<not> set ids \<subseteq> {0}" "\<exists>k. set ids - {0} = {k}" by blast+
    have members: "set ?ids = {i}" unfolding ids [symmetric] by (simp add: set_diff_eq)
    then have "?ids \<noteq> []" by (metis empty_set insert_not_empty)
    then have "hd ?ids = i" using hd_in_set [of ?ids] unfolding members by simp
    then show ?thesis
      unfolding resolution_from_ids_def one by (simp only: nonempty list.case if_False if_True not_False_eq_True)
  next
    case (many i j more)
    have differ: "i \<noteq> j" using dist unfolding many by simp
    have mem: "i \<in> set ids - {0}" "j \<in> set ids - {0}" unfolding set_eq [symmetric] many by simp_all
    have "\<not> set ids \<subseteq> {0}" using mem(1) by blast
    moreover have "\<not> (\<exists>k. set ids - {0} = {k})" using mem differ by (metis singletonD)
    ultimately have "\<not> set ids \<subseteq> {0}" "\<not> (\<exists>k. set ids - {0} = {k})" .
    then show ?thesis
      unfolding resolution_from_ids_def many by (simp only: list.case if_False)
  qed
qed

section \<open>What is gathered\<close>

definition missing_warning :: "resolved_monitor \<Rightarrow> string" where
  "missing_warning r = ''monitor '' @ rm_serial r @ '' has no matching Snipe-IT asset''"

lemma optional_asset_Ok: "optional_asset r = Ok (Some a) \<longleftrightarrow> r = Ok (Some a) \<and> as_id a \<noteq> 0"
  by (cases r rule: optional_asset.cases) auto

lemma gather_monitors_Ok:
  assumes "gather_monitors remote infos (monitors, warns) w = (Ok (monitors', warns'), w')"
  shows "\<exists>new. monitors' = monitors @ new \<and> map rm_monitor new = infos
    \<and> (\<forall>r\<in>set new. rm_asset_id r \<noteq> Some 0)
    \<and> warns' = warns @ map missing_warning (filter (\<lambda>r. rm_asset_id r = None) new)"
  using assms
proof (induction infos arbitrary: monitors warns w)
  case (Cons m ms)
  from Cons.prems obtain asset w1 taxonomy w2 where
      asset: "find_optional remote (mi_serial m) w = (Ok asset, w1)"
    and rest: "gather_monitors remote ms
        (monitors @ [\<lparr>rm_monitor = m, rm_asset_id = nonzero (map_option as_id asset), rm_taxonomy = taxonomy\<rparr>],
         if asset = None then warns @ [''monitor '' @ mi_serial m @ '' has no matching Snipe-IT asset''] else warns) w2
      = (Ok (monitors', warns'), w')"
    by (auto simp: bind_io_eq_Ok Let_def)
  define r where "r = \<lparr>rm_monitor = m, rm_asset_id = nonzero (map_option as_id asset), rm_taxonomy = taxonomy\<rparr>"
  have id: "as_id a \<noteq> 0" if "asset = Some a" for a
    using asset that by (auto simp: find_optional_def optional_asset_Ok split: prod.splits)
  then have none: "rm_asset_id r = None \<longleftrightarrow> asset = None" by (cases asset) (auto simp: r_def)
  from Cons.IH [OF rest [folded r_def]] obtain new where new: "monitors' = (monitors @ [r]) @ new" "map rm_monitor new = ms"
      "\<forall>r\<in>set new. rm_asset_id r \<noteq> Some 0"
      "warns' = (if asset = None then warns @ [''monitor '' @ mi_serial m @ '' has no matching Snipe-IT asset''] else warns)
         @ map missing_warning (filter (\<lambda>r. rm_asset_id r = None) new)" by blast
  have "rm_asset_id r \<noteq> Some 0" by (auto simp: r_def nonzero_eq_Some)
  with new none show ?case
    by (intro exI [of _ "r # new"]) (auto simp: missing_warning_def r_def)
qed simp

text \<open>
  C27: gathering neither drops, reorders nor invents a monitor, and it is honest about what it did
  not find.  When it succeeds, the resolved monitors are the discovered ones in order, no asset ID
  is zero, and the warnings are exactly one for each monitor without an asset, in order, and one
  for the computer if its asset was not found.
\<close>

theorem gather_sync_exact:
  assumes "discover w = (Ok (sys, infos), w1)" "gather_sync discover remote w = (Ok g, w')"
  shows "ga_system g = sys \<and> map rm_monitor (ga_monitors g) = infos
    \<and> (\<forall>r\<in>set (ga_monitors g). rm_asset_id r \<noteq> Some 0)
    \<and> (case ga_system_asset g of Some a \<Rightarrow> as_id a \<noteq> 0 | None \<Rightarrow> True)
    \<and> ga_warnings g = map missing_warning (filter (\<lambda>r. rm_asset_id r = None) (ga_monitors g))
        @ (if ga_system_asset g = None then [''computer '' @ si_serial sys @ '' has no matching Snipe-IT asset''] else [])"
proof -
  from assms obtain system_asset w2 taxonomy w3 monitors warns where
      asset: "find_optional remote (si_serial sys) w1 = (Ok system_asset, w2)"
    and monitors: "gather_monitors remote infos ([], []) w3 = (Ok (monitors, warns), w')"
    and g: "g = \<lparr>ga_system = sys, ga_system_asset = system_asset, ga_system_taxonomy = taxonomy, ga_monitors = monitors,
      ga_warnings = warns @ (if system_asset = None
        then [''computer '' @ si_serial sys @ '' has no matching Snipe-IT asset''] else [])\<rparr>"
    by (auto simp: gather_sync_def bind_io_eq_Ok)
  have "as_id a \<noteq> 0" if "system_asset = Some a" for a
    using asset that by (auto simp: find_optional_def optional_asset_Ok split: prod.splits)
  with gather_monitors_Ok [OF monitors] show ?thesis by (auto simp: g split: option.split)
qed

text \<open>
  Only the answer ``not found'' is taken as absence.  Whatever the lookup of the computer's
  asset fails with, gathering fails with the same typed error, unless that error is not found.
\<close>

theorem gather_fails_closed:
  assumes "discover w = (Ok (sys, infos), w1)" "rr_find_asset remote (si_serial sys) w1 = (Err e, w2)"
    "downcast_snipeit e \<noteq> Some NotFound"
  shows "gather_sync discover remote w = (Err (Context ''failed to resolve Snipe-IT asset'' e), w2)"
  using assms by (simp add: gather_sync_def bind_io_def find_optional_def)

definition demo_reads :: "nat remote_reads" where
  "demo_reads = \<lparr>rr_find_asset = (\<lambda>s. ret (if s = ''PC'' then Some demo_computer else None)),
     rr_resolve_taxonomy = (\<lambda>_ _. ret demo_taxonomy)\<rparr>"

theorem gather_sync_exact_witness:
  "\<exists>g. gather_sync (ret (demo_system, [demo_monitor ''NEW''])) demo_reads 0 = (Ok g, 0)
     \<and> ga_warnings g = [''monitor NEW has no matching Snipe-IT asset'']"
proof -
  let ?run = "gather_sync (ret (demo_system, [demo_monitor ''NEW''])) demo_reads 0"
  have "map_ok (\<lambda>g. (map rm_asset_id (ga_monitors g), ga_system_asset g \<noteq> None)) (fst ?run) = Ok ([None], True)"
    "snd ?run = 0" by code_simp+
  then obtain g where g: "?run = (Ok g, 0)" "ga_system_asset g \<noteq> None" "map rm_asset_id (ga_monitors g) = [None]"
    by (cases ?run) auto
  have "ret (demo_system, [demo_monitor ''NEW'']) (0 :: nat) = (Ok (demo_system, [demo_monitor ''NEW'']), 0)" by simp
  from gather_sync_exact [where discover = "ret (demo_system, [demo_monitor ''NEW''])", OF this g(1)] g(2,3) show ?thesis
    by (intro exI [of _ g] conjI g(1)) (auto simp: missing_warning_def demo_monitor_def map_eq_Cons_conv)
qed

theorem gather_fails_closed_witness:
  "gather_sync (ret (demo_system, [])) (demo_reads\<lparr>rr_find_asset := \<lambda>_. fail (Remote AuthFailure)\<rparr>) (0 :: nat)
     = (Err (Context ''failed to resolve Snipe-IT asset'' (Remote AuthFailure)), 0)"
  by (rule gather_fails_closed [of _ _ demo_system "[]" 0]) simp_all

end
