(* ===== verification/Lifecycle.thy ===== *)
theory Lifecycle
  imports Ipc Effects "HOL-Library.Sublist"
begin

text \<open>
  \<open>spotter-svc/src/lib.rs\<close>, \<open>status.rs\<close> and \<open>status_publisher.rs\<close>: the service's lifecycle states,
  the plain controller, the public status and its publication with a configuration generation.
  Formatting of a time (\<open>to_rfc3339\<close>) is a parameter.
\<close>

section \<open>Lifecycle\<close>

datatype fsm_state =
    Bootstrap | LoadConfig | Unconfigured | Decrypt | ValidateConfig | Idle | Syncing | ErrorState

datatype sync_failure = Transient | Authentication | Permission

definition transition :: "fsm_state \<Rightarrow> bool \<Rightarrow> (unit, sync_failure) result option \<Rightarrow> fsm_state" where
  "transition st configured r =
     (case st of
        Bootstrap \<Rightarrow> LoadConfig
      | LoadConfig \<Rightarrow> if configured then Decrypt else Unconfigured
      | Decrypt \<Rightarrow> ValidateConfig
      | ValidateConfig \<Rightarrow> if configured then Idle else Unconfigured
      | Unconfigured \<Rightarrow> Unconfigured
      | Idle \<Rightarrow> Syncing
      | Syncing \<Rightarrow>
          (case r of
             Some (Ok _) \<Rightarrow> Idle
           | Some (Err Authentication) \<Rightarrow> Unconfigured
           | Some (Err Permission) \<Rightarrow> Unconfigured
           | Some (Err Transient) \<Rightarrow> ErrorState
           | None \<Rightarrow> ErrorState)
      | ErrorState \<Rightarrow> Idle)"

text \<open>\<open>format!("{:?}")\<close> of a state.\<close>

definition state_debug :: "fsm_state \<Rightarrow> string" where
  "state_debug st = (case st of
     Bootstrap \<Rightarrow> ''Bootstrap'' | LoadConfig \<Rightarrow> ''LoadConfig'' | Unconfigured \<Rightarrow> ''Unconfigured''
   | Decrypt \<Rightarrow> ''Decrypt'' | ValidateConfig \<Rightarrow> ''ValidateConfig'' | Idle \<Rightarrow> ''Idle''
   | Syncing \<Rightarrow> ''Syncing'' | ErrorState \<Rightarrow> ''Error'')"

section \<open>The plain controller\<close>

record service_controller =
  sv_state :: fsm_state
  sv_settings :: settings
  sv_sync_pending :: bool

definition new_controller :: "settings \<Rightarrow> service_controller" where
  "new_controller s = \<lparr>sv_state = Bootstrap, sv_settings = s, sv_sync_pending = False\<rparr>"

fun controller_handle :: "service_controller \<Rightarrow> service_command \<Rightarrow> ipc_response \<times> service_controller" where
  "controller_handle c GetConfig = (ConfigResponse (redact_settings (sv_settings c)) (config_status (sv_settings c)), c)"
| "controller_handle c GetStatus = (StatusResponse (state_debug (sv_state c)) None None (url (s_snipeit (sv_settings c))), c)"
| "controller_handle c GetStatusFull = (StatusResponse (state_debug (sv_state c)) None None (url (s_snipeit (sv_settings c))), c)"
| "controller_handle c TriggerSync =
     (if sv_state c = Syncing \<or> sv_sync_pending c then (OkResponse ''sync already queued'', c)
      else (OkResponse ''sync queued'', c\<lparr>sv_sync_pending := True\<rparr>))"
| "controller_handle c (SetConfig field value) = (OkResponse ''configuration update accepted'', c)"
| "controller_handle c (SetToken value) = (OkResponse ''configuration update accepted'', c)"
| "controller_handle c CheckinAll = (CheckinResult [], c)"
| "controller_handle c (CheckinSerial serial) = (CheckinResult [], c)"

definition take_sync_request :: "service_controller \<Rightarrow> bool \<times> service_controller" where
  "take_sync_request c = (sv_sync_pending c, c\<lparr>sv_sync_pending := False\<rparr>)"

text \<open>The library's own deterministic view of prepared and confirmed operations.\<close>

datatype plain_record = PlainPrepared string | PlainConfirmed string

definition pending_step :: "string set \<Rightarrow> plain_record \<Rightarrow> string set" where
  "pending_step pending r = (case r of PlainPrepared i \<Rightarrow> insert i pending | PlainConfirmed i \<Rightarrow> pending - {i})"

definition pending_operations :: "plain_record list \<Rightarrow> string list" where
  "pending_operations records = sorted_list_of_set (foldl pending_step {} records)"

section \<open>Public status\<close>

record public_status =
  ps_state :: string
  ps_last_sync :: "string option"
  ps_snipeit_url :: string
  ps_matched_asset :: "asset_summary option"
  ps_monitors :: "monitor_status list"
  ps_configured :: bool
  ps_config_generation :: u64

record schedule_snapshot =
  sn_config_generation :: u64
  sn_next_sync :: "string option"

definition monitor_statuses :: "(int \<Rightarrow> string) \<Rightarrow> service_state \<Rightarrow> monitor_status list" where
  "monitor_statuses to_rfc3339 persisted =
     map (\<lambda>m. \<lparr>ms_serial = me_serial m, ms_asset_id = snipeit_asset_id m, ms_checked_out = checked_out m,
               ms_absent_since = map_option to_rfc3339 (absent_since m)\<rparr>) (known_monitors persisted)"

definition from_parts ::
  "(int \<Rightarrow> string) \<Rightarrow> string \<Rightarrow> string \<Rightarrow> bool \<Rightarrow> u64 \<Rightarrow> service_state \<Rightarrow> public_status" where
  "from_parts to_rfc3339 st snipeit_url configured generation persisted =
     \<lparr>ps_state = st, ps_last_sync = last_sync_time persisted, ps_snipeit_url = snipeit_url,
      ps_matched_asset = matched_asset persisted, ps_monitors = monitor_statuses to_rfc3339 persisted,
      ps_configured = configured, ps_config_generation = generation\<rparr>"

definition project_status :: "public_status \<Rightarrow> schedule_snapshot \<Rightarrow> bool \<Rightarrow> ipc_response" where
  "project_status status schedule full =
     (let next_sync = (if ps_configured status \<and> ps_config_generation status = sn_config_generation schedule
                       then sn_next_sync schedule else None)
      in if full
         then StatusFullResponse (ps_state status) (ps_last_sync status) next_sync (ps_snipeit_url status)
                (ps_matched_asset status) (ps_monitors status)
         else StatusResponse (ps_state status) (ps_last_sync status) next_sync (ps_snipeit_url status))"

definition service_status_projection ::
  "(int \<Rightarrow> string) \<Rightarrow> fsm_state \<Rightarrow> settings \<Rightarrow> service_state \<Rightarrow> bool \<Rightarrow> ipc_response" where
  "service_status_projection to_rfc3339 st s persisted full =
     (if \<not> full then StatusResponse (state_debug st) (last_sync_time persisted) None (url (s_snipeit s))
      else StatusFullResponse (state_debug st) (last_sync_time persisted) None (url (s_snipeit s))
             (matched_asset persisted) (monitor_statuses to_rfc3339 persisted))"

section \<open>Publication\<close>

text \<open>The input that the scheduler watches; an interval in seconds.\<close>

record schedule_input =
  si_configured :: bool
  si_interval :: nat
  si_generation :: u64

text \<open>The publisher's two watch channels hold their latest values; the generation counts activations.\<close>

record status_publisher =
  pb_status :: public_status
  pb_schedule :: schedule_input
  pb_generation :: u64

definition new_publisher :: status_publisher where
  "new_publisher =
     \<lparr>pb_status = \<lparr>ps_state = ''Unconfigured'', ps_last_sync = None, ps_snipeit_url = [], ps_matched_asset = None,
        ps_monitors = [], ps_configured = False, ps_config_generation = 0\<rparr>,
      pb_schedule = \<lparr>si_configured = False, si_interval = 0, si_generation = 0\<rparr>,
      pb_generation = 0\<rparr>"

definition publish ::
  "(int \<Rightarrow> string) \<Rightarrow> status_publisher \<Rightarrow> string \<Rightarrow> string \<Rightarrow> bool \<Rightarrow> service_state \<Rightarrow> status_publisher" where
  "publish to_rfc3339 p st snipeit_url configured persisted =
     p\<lparr>pb_status := from_parts to_rfc3339 st snipeit_url configured (pb_generation p) persisted\<rparr>"

definition activate_configuration :: "status_publisher \<Rightarrow> bool \<Rightarrow> nat \<Rightarrow> status_publisher" where
  "activate_configuration p configured interval =
     (let generation = pb_generation p + 1 in
      p\<lparr>pb_generation := generation,
        pb_schedule := \<lparr>si_configured = configured, si_interval = interval, si_generation = generation\<rparr>\<rparr>)"

definition publish_startup_activation ::
  "(int \<Rightarrow> string) \<Rightarrow> status_publisher \<Rightarrow> bool \<Rightarrow> string \<Rightarrow> nat \<Rightarrow> service_state \<Rightarrow> status_publisher" where
  "publish_startup_activation to_rfc3339 p configured snipeit_url interval persisted =
     publish to_rfc3339 (activate_configuration p configured interval)
       (if configured then ''Idle'' else ''Unconfigured'') snipeit_url configured persisted"

section \<open>What the lifecycle allows\<close>

inductive lifecycle :: "fsm_state list \<Rightarrow> fsm_state \<Rightarrow> bool" where
  start: "lifecycle [] Bootstrap"
| step: "lifecycle history st \<Longrightarrow> lifecycle (history @ [st]) (transition st configured r)"

inductive_simps lifecycle_Nil: "lifecycle [] st"

definition past_of :: "fsm_state \<Rightarrow> fsm_state list \<Rightarrow> bool" where
  "past_of st history \<longleftrightarrow> (case st of
     Bootstrap \<Rightarrow> history = []
   | LoadConfig \<Rightarrow> history = [Bootstrap]
   | Decrypt \<Rightarrow> history = [Bootstrap, LoadConfig]
   | ValidateConfig \<Rightarrow> history = [Bootstrap, LoadConfig, Decrypt]
   | Unconfigured \<Rightarrow> prefix [Bootstrap, LoadConfig] history
   | _ \<Rightarrow> prefix [Bootstrap, LoadConfig, Decrypt, ValidateConfig] history)"

lemma prefix_shorter: "prefix [a, b, c, d] xs \<Longrightarrow> prefix [a, b] xs"
  by (auto simp: prefix_def)

lemma lifecycle_past: "lifecycle history st \<Longrightarrow> past_of st history"
proof (induction rule: lifecycle.induct)
  case (step history st configured r)
  then show ?case
    by (cases st) (auto simp: transition_def past_of_def prefix_shorter
        split: option.split result.split sync_failure.split)
qed (simp add: past_of_def)

text \<open>
  The lifecycle is gated by its configuration: every run of transitions that is idle, syncing or
  failed has first loaded, decrypted and validated the configuration, and a run that becomes
  unconfigured never leaves that state.
\<close>

theorem lifecycle_gated:
  assumes "lifecycle history st"
  shows "(if st \<in> {Idle, Syncing, ErrorState} then prefix [Bootstrap, LoadConfig, Decrypt, ValidateConfig] history else True)
    \<and> transition Unconfigured configured r = Unconfigured"
  using lifecycle_past [OF assms] by (auto simp: past_of_def transition_def)

theorem lifecycle_gated_witness: "transition Unconfigured True (Some (Ok ())) = Unconfigured"
  using lifecycle_gated [OF lifecycle.start, of True "Some (Ok ())"] by blast

lemma finite_pending: "finite (foldl pending_step {} records)"
  by (induction records rule: rev_induct) (auto simp: pending_step_def split: plain_record.split)

definition concerns :: "string \<Rightarrow> plain_record \<Rightarrow> bool" where
  "concerns i r \<longleftrightarrow> r = PlainPrepared i \<or> r = PlainConfirmed i"

lemma pending_last: "i \<in> foldl pending_step {} records \<longleftrightarrow> (\<exists>rs. filter (concerns i) records = rs @ [PlainPrepared i])"
proof (induction records rule: rev_induct)
  case (snoc r records)
  then show ?case by (cases r) (auto simp: pending_step_def concerns_def)
qed simp

text \<open>
  The library's view of a plain journal answers, sorted and without repetition, exactly the
  operations whose last record is a preparation.
\<close>

theorem pending_operations_exact:
  "(i \<in> set (pending_operations records) \<longleftrightarrow> (\<exists>rs. filter (concerns i) records = rs @ [PlainPrepared i]))
   \<and> sorted (pending_operations records) \<and> distinct (pending_operations records)"
  using pending_last [of i records] by (simp add: pending_operations_def finite_pending)

section \<open>Status and projection\<close>

definition shown_next_sync :: "ipc_response \<Rightarrow> string option" where
  "shown_next_sync r = (case r of StatusResponse _ _ n _ \<Rightarrow> n | StatusFullResponse _ _ n _ _ _ \<Rightarrow> n | _ \<Rightarrow> None)"

text \<open>
  A stale or foreign schedule is never shown.  A status answers a next synchronization only if
  it is configured and the schedule was made for the same configuration generation, and then it is
  that schedule's; after any further activation the old schedule is not shown (short of the
  generation counter wrapping around).
\<close>

theorem next_sync_is_current:
  "shown_next_sync (project_status status schedule full) =
     (if ps_configured status \<and> ps_config_generation status = sn_config_generation schedule
      then sn_next_sync schedule else None)
   \<and> (if sn_config_generation schedule = pb_generation p
      then shown_next_sync (project_status
             (pb_status (publish to_rfc3339 (activate_configuration p configured interval) st u c persisted)) schedule full) = None
      else True)"
  by (simp add: project_status_def shown_next_sync_def publish_def activate_configuration_def from_parts_def Let_def)

end
