(* ===== verification/Contracts.thy ===== *)
theory Contracts
  imports Effects
begin

text \<open>
  Reasoning about effects: a contract states what holds of the value or of the error and of the world
  an effect leaves, and an invariant is kept whatever the effect answers.  The rules follow the
  combinators, so that a proof about an operation follows its definition.
\<close>

section \<open>Contracts\<close>

definition contract ::
  "('s \<Rightarrow> bool) \<Rightarrow> ('s, 'e, 'a) effect \<Rightarrow> ('a \<Rightarrow> 's \<Rightarrow> bool) \<Rightarrow> ('e \<Rightarrow> 's \<Rightarrow> bool) \<Rightarrow> bool" where
  "contract P m Q E \<longleftrightarrow>
     (\<forall>s x s'. P s \<longrightarrow> m s = (Ok x, s') \<longrightarrow> Q x s') \<and> (\<forall>s e s'. P s \<longrightarrow> m s = (Err e, s') \<longrightarrow> E e s')"

lemma contract_Ok: "contract P m Q E \<Longrightarrow> P s \<Longrightarrow> m s = (Ok x, s') \<Longrightarrow> Q x s'"
  unfolding contract_def by blast

lemma contract_Err: "contract P m Q E \<Longrightarrow> P s \<Longrightarrow> m s = (Err e, s') \<Longrightarrow> E e s'"
  unfolding contract_def by blast

lemma contract_ret: "(\<And>s. P s \<Longrightarrow> Q x s) \<Longrightarrow> contract P (ret x) Q E"
  by (simp add: contract_def)

lemma contract_fail: "(\<And>s. P s \<Longrightarrow> E e s) \<Longrightarrow> contract P (fail e) Q E"
  by (simp add: contract_def)

lemma contract_bind:
  "contract P m Q E \<Longrightarrow> (\<And>x. contract (Q x) (f x) R E) \<Longrightarrow> contract P (bind_io m f) R E"
  unfolding contract_def by (simp only: bind_io_eq_Ok bind_io_eq_Err) blast

lemma contract_weaken:
  "contract P' m Q' E' \<Longrightarrow> (\<And>s. P s \<Longrightarrow> P' s) \<Longrightarrow> (\<And>x s. Q' x s \<Longrightarrow> Q x s) \<Longrightarrow> (\<And>e s. E' e s \<Longrightarrow> E e s)
   \<Longrightarrow> contract P m Q E"
  unfolding contract_def by blast

lemma contract_pair: "(\<And>a b. p = (a, b) \<Longrightarrow> contract P (f a b) Q E) \<Longrightarrow> contract P (case p of (a, b) \<Rightarrow> f a b) Q E"
  by (cases p) auto

lemma contract_result:
  "(\<And>y. x = Ok y \<Longrightarrow> contract P (f y) Q E) \<Longrightarrow> (\<And>e. x = Err e \<Longrightarrow> contract P (g e) Q E) \<Longrightarrow>
   contract P (case x of Ok y \<Rightarrow> f y | Err e \<Rightarrow> g e) Q E"
  by (cases x) auto

lemma contract_if: "(c \<Longrightarrow> contract P m Q E) \<Longrightarrow> (\<not> c \<Longrightarrow> contract P n Q E) \<Longrightarrow> contract P (if c then m else n) Q E"
  by simp

section \<open>Invariants\<close>

definition keeps :: "('s \<Rightarrow> bool) \<Rightarrow> ('s, 'e, 'a) effect \<Rightarrow> bool" where
  "keeps I m \<longleftrightarrow> (\<forall>s. I s \<longrightarrow> I (snd (m s)))"

named_theorems keeping

lemma keeps_contract: "keeps I m \<longleftrightarrow> contract I m (\<lambda>_. I) (\<lambda>_. I)"
  unfolding keeps_def contract_def by (metis prod.collapse result.exhaust snd_conv)

lemma keepsD: "keeps I m \<Longrightarrow> I s \<Longrightarrow> m s = (r, s') \<Longrightarrow> I s'"
  unfolding keeps_def by (metis snd_conv)

lemma keeps_ret [keeping]: "keeps I (ret x)" "keeps I (fail e)" "keeps I (lift_io r)"
  by (auto simp: keeps_def)

lemma keeps_bind [keeping]:
  assumes "keeps I m" "\<And>x. keeps I (f x)"
  shows "keeps I (bind_io m f)"
  using assms by (auto simp: keeps_def bind_io_def split: prod.splits result.splits)

lemma keeps_if [keeping]: "(c \<Longrightarrow> keeps I m) \<Longrightarrow> (\<not> c \<Longrightarrow> keeps I n) \<Longrightarrow> keeps I (if c then m else n)"
  by simp

lemma keeps_option [keeping]:
  "(x = None \<Longrightarrow> keeps I m) \<Longrightarrow> (\<And>y. x = Some y \<Longrightarrow> keeps I (f y)) \<Longrightarrow> keeps I (case x of None \<Rightarrow> m | Some y \<Rightarrow> f y)"
  by (cases x) auto

lemma keeps_result [keeping]:
  "(\<And>y. x = Ok y \<Longrightarrow> keeps I (f y)) \<Longrightarrow> (\<And>e. x = Err e \<Longrightarrow> keeps I (g e)) \<Longrightarrow>
   keeps I (case x of Ok y \<Rightarrow> f y | Err e \<Rightarrow> g e)"
  by (cases x) auto

lemma keeps_pair [keeping]: "(\<And>a b. p = (a, b) \<Longrightarrow> keeps I (f a b)) \<Longrightarrow> keeps I (case p of (a, b) \<Rightarrow> f a b)"
  by (cases p) auto

lemma keeps_let [keeping]: "(\<And>x. x = t \<Longrightarrow> keeps I (f x)) \<Longrightarrow> keeps I (let x = t in f x)"
  by simp

end
