(* ===== verification/AtomicFile.thy ===== *)
theory AtomicFile
  imports Contracts
begin

text \<open>
  \<open>spotter-svc/src/atomic_file.rs\<close>: durable writes of one directory's files.  A disk maps file names
  to contents and to whether they are flushed; every file operation takes its outcome from a list, so
  that a statement about all lists is about every pattern of failures and every crash.
\<close>

unbundle bit_operations_syntax

section \<open>The disk\<close>

text \<open>
  The outcome of one file operation: success, failure (a failed write leaves the given number of
  bytes), or the end of the process before (0) or after the operation took effect.
\<close>

datatype op_outcome = Done | Refused nat | Ended nat

record disk =
  dk_files :: "string \<Rightarrow> (u8 list \<times> bool) option"
  dk_outcomes :: "op_outcome list"
  dk_random :: "u64 list"
  dk_counter :: u64

text \<open>A step ends with an error that the code sees, or the process ends.\<close>

datatype stop = Stopped string | Crashed

type_synonym 'a disk_io = "(disk, stop, 'a) effect"

definition next_outcome :: "disk \<Rightarrow> op_outcome \<times> disk" where
  "next_outcome d = (case dk_outcomes d of
     [] \<Rightarrow> (Done, d)
   | o' # os \<Rightarrow> (o', d\<lparr>dk_outcomes := os\<rparr>))"

definition file_op :: "string \<Rightarrow> (disk \<Rightarrow> disk) \<Rightarrow> (nat \<Rightarrow> disk \<Rightarrow> disk) \<Rightarrow> unit disk_io" where
  "file_op message effect partial d =
     (case next_outcome d of
        (Done, d') \<Rightarrow> (Ok (), effect d')
      | (Refused n, d') \<Rightarrow> (Err (Stopped message), partial n d')
      | (Ended n, d') \<Rightarrow> (Err Crashed, if n = 0 then d' else effect d'))"

text \<open>Operations that only may fail.\<close>

definition check_op :: "string \<Rightarrow> unit disk_io" where
  "check_op message = file_op message id (\<lambda>_. id)"

text \<open>An error that the code catches; the end of the process it cannot catch.\<close>

definition catch_stop :: "'a disk_io \<Rightarrow> ('a, string) result disk_io" where
  "catch_stop m d = (case m d of
     (Ok x, d') \<Rightarrow> (Ok (Ok x), d')
   | (Err (Stopped e), d') \<Rightarrow> (Ok (Err e), d')
   | (Err Crashed, d') \<Rightarrow> (Err Crashed, d'))"

definition ignore_error :: "'a disk_io \<Rightarrow> unit disk_io" where
  "ignore_error m = bind_io (catch_stop m) (\<lambda>_. ret ())"

definition set_file :: "string \<Rightarrow> (u8 list \<times> bool) option \<Rightarrow> disk \<Rightarrow> disk" where
  "set_file name content d = d\<lparr>dk_files := (dk_files d)(name := content)\<rparr>"

definition remove_file :: "string \<Rightarrow> unit disk_io" where
  "remove_file name d =
     (if dk_files d name = None then (Err (Stopped ''not found''), d)
      else file_op ''failed to remove'' (set_file name None) (\<lambda>_. id) d)"

text \<open>\<open>create_new\<close>: false if the file already exists.\<close>

definition create_new :: "string \<Rightarrow> bool disk_io" where
  "create_new name d =
     (if dk_files d name \<noteq> None then (Ok False, d)
      else bind_io (file_op ''failed to create'' (set_file name (Some ([], False))) (\<lambda>_. id)) (\<lambda>_. ret True) d)"

definition open_file :: "string \<Rightarrow> unit disk_io" where
  "open_file name d =
     (if dk_files d name = None then (Err (Stopped ''failed to open''), d) else check_op ''failed to open'' d)"

text \<open>A write of an open file from its start; part of it may be written when it fails.\<close>

definition write_all :: "string \<Rightarrow> u8 list \<Rightarrow> unit disk_io" where
  "write_all name bytes =
     file_op ''failed to write'' (set_file name (Some (bytes, False)))
       (\<lambda>n. set_file name (Some (take n bytes, False)))"

definition sync_file :: "string \<Rightarrow> unit disk_io" where
  "sync_file name =
     file_op ''failed to flush''
       (\<lambda>d. set_file name (map_option (\<lambda>(b, _). (b, True)) (dk_files d name)) d) (\<lambda>_. id)"

text \<open>
  The replacement.  A rename replaces the destination or fails and changes nothing.  \<open>ReplaceFileW\<close>
  without a backup name has one more documented failure (\<open>ERROR_UNABLE_TO_MOVE_REPLACEMENT\<close>): the
  replaced file no longer exists and the replacement keeps its own name.
\<close>

definition replace :: "bool \<Rightarrow> string \<Rightarrow> string \<Rightarrow> unit disk_io" where
  "replace windows temporary destination d =
     (let install = (\<lambda>d. set_file temporary None (set_file destination (dk_files d temporary) d)) in
      if \<not> windows then file_op ''failed to replace'' install (\<lambda>_. id) d
      else if dk_files d destination \<noteq> None
      then file_op ''failed to replace existing destination with ReplaceFileW'' install
             (\<lambda>n. if n = 0 then id else set_file destination None) d
      else file_op ''failed to install destination with MoveFileExW'' install (\<lambda>_. id) d)"

section \<open>Temporary files\<close>

definition temporary_path_with_identity :: "string \<Rightarrow> u32 \<Rightarrow> u64 \<Rightarrow> string" where
  "temporary_path_with_identity path owner_pid nonce = path @ ''.tmp.'' @ dec owner_pid @ ''.'' @ dec nonce"

definition owner_metadata_path :: "string \<Rightarrow> string" where
  "owner_metadata_path temporary = temporary @ ''.owner''"

fun split_char :: "char \<Rightarrow> string \<Rightarrow> string list" where
  "split_char c [] = [[]]"
| "split_char c (x # xs) =
     (if x = c then [] # split_char c xs
      else (case split_char c xs of [] \<Rightarrow> [[x]] | p # ps \<Rightarrow> (x # p) # ps))"

definition temporary_identity :: "string \<Rightarrow> (u32 \<times> u64) option" where
  "temporary_identity name =
     (case rsplit_once ''.tmp.'' name of
        None \<Rightarrow> None
      | Some (_, suffix) \<Rightarrow>
          (case split_char (CHR ''.'') suffix of
             [pid, nonce] \<Rightarrow>
               (case (parse_u32_str pid, parse_u64_str nonce) of (Some p, Some n) \<Rightarrow> Some (p, n) | _ \<Rightarrow> None)
           | _ \<Rightarrow> None))"

definition orphan_temporary_path :: "string \<Rightarrow> string option" where
  "orphan_temporary_path owner_metadata =
     (case strip_suffix ''.owner'' owner_metadata of
        None \<Rightarrow> None
      | Some temporary \<Rightarrow> if temporary_identity temporary = None then None else Some temporary)"

definition owner_text :: "u32 \<Rightarrow> u64 \<Rightarrow> u8 list" where
  "owner_text pid nonce = map (\<lambda>c. of_nat (byte c)) (dec pid @ '':'' @ dec nonce)"

definition next_temporary_nonce :: "u64 disk_io" where
  "next_temporary_nonce d =
     (let d1 = d\<lparr>dk_counter := dk_counter d + 1\<rparr> in
      bind_io (check_op ''failed to generate a temporary-file nonce'') (\<lambda>_ d2.
        (Ok ((case dk_random d2 of [] \<Rightarrow> 0 | r # _ \<Rightarrow> r) XOR dk_counter d), d2\<lparr>dk_random := tl (dk_random d2)\<rparr>)) d1)"

text \<open>False if the metadata file already exists.\<close>

definition create_owner_metadata :: "string \<Rightarrow> u32 \<Rightarrow> u64 \<Rightarrow> bool disk_io" where
  "create_owner_metadata path owner_pid nonce =
     bind_io (create_new path) (\<lambda>created.
       if \<not> created then ret False
       else bind_io (write_all path (owner_text owner_pid nonce)) (\<lambda>_.
            bind_io (sync_file path) (\<lambda>_. ret True)))"

definition apply_acl_contract :: "string \<Rightarrow> unit disk_io" where
  "apply_acl_contract message = check_op message"

text \<open>One round of the allocation; \<open>None\<close> is a name that is taken.\<close>

definition temporary_attempt :: "bool \<Rightarrow> u32 \<Rightarrow> string \<Rightarrow> (string \<times> string) option disk_io" where
  "temporary_attempt windows owner_pid path =
     bind_io next_temporary_nonce (\<lambda>nonce.
       let temporary = temporary_path_with_identity path owner_pid nonce;
           owner_metadata = owner_metadata_path temporary in
       bind_io (create_new temporary) (\<lambda>created.
         if \<not> created then ret None
         else
           bind_io (catch_stop (if windows then apply_acl_contract ''failed to secure atomic temporary file'' else ret ())) (\<lambda>acl.
           case acl of
             Ok _ \<Rightarrow>
               bind_io (catch_stop (create_owner_metadata owner_metadata owner_pid nonce)) (\<lambda>metadata.
               case metadata of
                 Ok tagged \<Rightarrow>
                   if tagged then ret (Some (temporary, owner_metadata))
                   else bind_io (ignore_error (remove_file temporary)) (\<lambda>_. ret None)
               | Err _ \<Rightarrow>
                   bind_io (ignore_error (remove_file temporary)) (\<lambda>_.
                   bind_io (ignore_error (remove_file owner_metadata)) (\<lambda>_.
                     fail (Stopped (''failed to create '' @ owner_metadata)))))
           | Err e \<Rightarrow> bind_io (ignore_error (remove_file temporary)) (\<lambda>_. fail (Stopped e)))))"

fun temporary_attempts :: "bool \<Rightarrow> u32 \<Rightarrow> string \<Rightarrow> nat \<Rightarrow> (string \<times> string) disk_io" where
  "temporary_attempts windows owner_pid path 0 = fail (Stopped (''failed to allocate a unique temporary file for '' @ path))"
| "temporary_attempts windows owner_pid path (Suc n) =
     bind_io (temporary_attempt windows owner_pid path) (\<lambda>allocated.
     case allocated of
       Some names \<Rightarrow> ret names
     | None \<Rightarrow> temporary_attempts windows owner_pid path n)"

definition create_temporary_identity :: "bool \<Rightarrow> u32 \<Rightarrow> string \<Rightarrow> (string \<times> string) disk_io" where
  "create_temporary_identity windows owner_pid path = temporary_attempts windows owner_pid path 16"

section \<open>The atomic write\<close>

text \<open>The points at which a controller may fail; opening the directory is best effort.\<close>

record fault_controller =
  before_temporary_creation :: "unit disk_io"
  after_temporary_write :: "unit disk_io"
  before_temporary_flush :: "unit disk_io"
  before_replace :: "unit disk_io"
  after_replace :: "unit disk_io"
  before_directory_flush :: "unit disk_io"
  open_directory :: "unit disk_io"
  sync_directory :: "unit disk_io"

definition noop_fault_controller :: fault_controller where
  "noop_fault_controller =
     \<lparr>before_temporary_creation = ret (), after_temporary_write = ret (), before_temporary_flush = ret (),
      before_replace = ret (), after_replace = ret (), before_directory_flush = ret (),
      open_directory = check_op ''failed to open directory'', sync_directory = check_op ''failed to sync directory''\<rparr>"

definition flush_parent_directory :: "fault_controller \<Rightarrow> unit disk_io" where
  "flush_parent_directory controller =
     bind_io (catch_stop (open_directory controller)) (\<lambda>directory.
     case directory of
       Err _ \<Rightarrow> ret ()
     | Ok _ \<Rightarrow>
         bind_io (catch_stop (sync_directory controller)) (\<lambda>flushed.
         case flushed of
           Ok _ \<Rightarrow> ret ()
         | Err _ \<Rightarrow> fail (Stopped ''failed to flush parent directory after atomic replacement; destination bytes were already replaced'')))"

definition write_body :: "bool \<Rightarrow> fault_controller \<Rightarrow> string \<Rightarrow> string \<Rightarrow> u8 list \<Rightarrow> unit disk_io" where
  "write_body windows controller path temporary bytes =
     bind_io (if windows then apply_acl_contract ''failed to secure atomic temporary file'' else ret ()) (\<lambda>_.
     bind_io (open_file temporary) (\<lambda>_.
     bind_io (write_all temporary bytes) (\<lambda>_.
     bind_io (after_temporary_write controller) (\<lambda>_.
     bind_io (before_temporary_flush controller) (\<lambda>_.
     bind_io (sync_file temporary) (\<lambda>_.
     bind_io (before_replace controller) (\<lambda>_.
     bind_io (replace windows temporary path) (\<lambda>_.
     bind_io (if windows then apply_acl_contract ''failed to preserve destination ACL after atomic replacement''
              else ret ()) (\<lambda>_.
     bind_io (after_replace controller) (\<lambda>_.
     bind_io (before_directory_flush controller) (\<lambda>_.
       flush_parent_directory controller)))))))))))"

definition write_with_controller :: "bool \<Rightarrow> u32 \<Rightarrow> fault_controller \<Rightarrow> string \<Rightarrow> u8 list \<Rightarrow> unit disk_io" where
  "write_with_controller windows owner_pid controller path bytes =
     bind_io (check_op ''failed to create'') (\<lambda>_.
     bind_io (before_temporary_creation controller) (\<lambda>_.
     bind_io (create_temporary_identity windows owner_pid path) (\<lambda>(temporary, owner_metadata).
     bind_io (catch_stop (write_body windows controller path temporary bytes)) (\<lambda>result.
     case result of
       Err e \<Rightarrow>
         bind_io (ignore_error (remove_file temporary)) (\<lambda>_.
         bind_io (ignore_error (remove_file owner_metadata)) (\<lambda>_. fail (Stopped e)))
     | Ok _ \<Rightarrow>
         bind_io (catch_stop (remove_file owner_metadata)) (\<lambda>removed.
         case removed of
           Ok _ \<Rightarrow> ret ()
         | Err _ \<Rightarrow> fail (Stopped (''failed to remove owner metadata for '' @ temporary)))))))"

definition atomic_write :: "bool \<Rightarrow> u32 \<Rightarrow> string \<Rightarrow> u8 list \<Rightarrow> unit disk_io" where
  "atomic_write windows owner_pid path bytes = write_with_controller windows owner_pid noop_fault_controller path bytes"

section \<open>Contracts about the files\<close>

type_synonym files = "string \<Rightarrow> (u8 list \<times> bool) option"

text \<open>A contract about the files alone, with one condition for every error and every crash.\<close>

definition files_contract :: "(files \<Rightarrow> bool) \<Rightarrow> 'a disk_io \<Rightarrow> ('a \<Rightarrow> files \<Rightarrow> bool) \<Rightarrow> (files \<Rightarrow> bool) \<Rightarrow> bool" where
  "files_contract P m Q E \<longleftrightarrow>
     contract (\<lambda>d. P (dk_files d)) m (\<lambda>x d. Q x (dk_files d)) (\<lambda>_ d. E (dk_files d))"

lemma files_ret: "(\<And>f. P f \<Longrightarrow> Q x f) \<Longrightarrow> files_contract P (ret x) Q E"
  unfolding files_contract_def by (rule contract_ret)

lemma files_fail: "(\<And>f. P f \<Longrightarrow> E f) \<Longrightarrow> files_contract P (fail e) Q E"
  unfolding files_contract_def by (rule contract_fail)

lemma files_bind:
  "files_contract P m Q E \<Longrightarrow> (\<And>x. files_contract (Q x) (f x) R E) \<Longrightarrow> files_contract P (bind_io m f) R E"
  unfolding files_contract_def by (rule contract_bind)

lemma files_weaken:
  "files_contract P' m Q' E' \<Longrightarrow> (\<And>f. P f \<Longrightarrow> P' f) \<Longrightarrow> (\<And>x f. Q' x f \<Longrightarrow> Q x f) \<Longrightarrow> (\<And>f. E' f \<Longrightarrow> E f)
   \<Longrightarrow> files_contract P m Q E"
  unfolding files_contract_def by (erule contract_weaken)

text \<open>An error caught and inspected.\<close>

lemma files_caught:
  assumes "files_contract P m Q E'" "\<And>x. files_contract (Q x) (f x) R E" "\<And>e. files_contract E' (g e) R E"
    and "\<And>f. E' f \<Longrightarrow> E f"
  shows "files_contract P (bind_io (catch_stop m) (\<lambda>r. case r of Ok x \<Rightarrow> f x | Err e \<Rightarrow> g e)) R E"
  using assms unfolding files_contract_def contract_def
  by (fastforce simp: bind_io_def catch_stop_def split: prod.splits result.splits stop.splits)

lemma files_if: "(c \<Longrightarrow> files_contract P m Q E) \<Longrightarrow> (\<not> c \<Longrightarrow> files_contract P n Q E) \<Longrightarrow> files_contract P (if c then m else n) Q E"
  by simp

lemma files_known: "(A \<Longrightarrow> files_contract P m Q E) \<Longrightarrow> files_contract (\<lambda>f. A \<and> P f) m Q E"
  unfolding files_contract_def contract_def by blast

lemma files_catch:
  assumes "files_contract P m Q E"
  shows "files_contract P (catch_stop m) (\<lambda>r f. case r of Ok x \<Rightarrow> Q x f | Err _ \<Rightarrow> E f) E"
  using assms unfolding files_contract_def contract_def
  by (fastforce simp: catch_stop_def split: prod.splits result.splits stop.splits)

lemma files_ignore:
  assumes "files_contract P m (\<lambda>_. R) R"
  shows "files_contract P (ignore_error m) (\<lambda>_. R) R"
  unfolding ignore_error_def
  by (rule files_bind [OF files_catch [OF assms]], rule files_ret) (simp split: result.splits)

lemma files_of_outcome [simp]: "next_outcome d = (o', d') \<Longrightarrow> dk_files d' = dk_files d"
  by (auto simp: next_outcome_def split: list.splits)

lemma files_op:
  assumes "\<And>d. P (dk_files d) \<Longrightarrow> Q () (dk_files (effect d))" "\<And>d. P (dk_files d) \<Longrightarrow> E (dk_files (effect d))"
    and "\<And>n d. P (dk_files d) \<Longrightarrow> E (dk_files (partial n d))" "\<And>f. P f \<Longrightarrow> E f"
  shows "files_contract P (file_op message effect partial) Q E"
  unfolding files_contract_def contract_def
  using assms by (auto simp: file_op_def split: prod.splits op_outcome.splits if_splits)

lemma files_check: "files_contract P (check_op message) (\<lambda>_. P) P"
  unfolding check_op_def by (rule files_op) simp_all

text \<open>An operation that first looks at the files.\<close>

lemma files_guard:
  assumes "\<And>d. m d = (if c (dk_files d) then (r, d) else n d)"
    and "\<And>f. P f \<Longrightarrow> c f \<Longrightarrow> (case r of Ok x \<Rightarrow> Q x f | Err _ \<Rightarrow> E f)"
    and "files_contract (\<lambda>f. P f \<and> \<not> c f) n Q E"
  shows "files_contract P m Q E"
  unfolding files_contract_def contract_def
proof (intro conjI allI impI)
  fix s x s' assume "P (dk_files s)" "m s = (Ok x, s')"
  then show "Q x (dk_files s')" using assms(1) [of s] assms(2) [of "dk_files s"] assms(3) [unfolded files_contract_def contract_def]
    by (cases "c (dk_files s)") auto
next
  fix s e s' assume "P (dk_files s)" "m s = (Err e, s')"
  then show "E (dk_files s')" using assms(1) [of s] assms(2) [of "dk_files s"] assms(3) [unfolded files_contract_def contract_def]
    by (cases "c (dk_files s)") auto
qed

lemma files_remove:
  assumes "\<And>f. P f \<Longrightarrow> P (f(name := None))"
  shows "files_contract P (remove_file name) (\<lambda>_. P) P"
proof (rule files_guard [where c = "\<lambda>f. f name = None"])
  show "files_contract (\<lambda>f. P f \<and> f name \<noteq> None) (file_op ''failed to remove'' (set_file name None) (\<lambda>_. id)) (\<lambda>_. P) P"
    by (rule files_op) (simp_all add: assms set_file_def)
qed (auto simp: remove_file_def split: result.split)

lemma files_create:
  assumes "\<And>f. P f \<Longrightarrow> f name = None \<Longrightarrow> R (f(name := Some ([], False)))" "\<And>f. R f \<Longrightarrow> E f" "\<And>f. P f \<Longrightarrow> f name = None \<Longrightarrow> E f"
  shows "files_contract P (create_new name) (\<lambda>created f. if created then R f else P f) E"
proof (rule files_guard [where c = "\<lambda>f. f name \<noteq> None"])
  show "files_contract (\<lambda>f. P f \<and> \<not> f name \<noteq> None)
      (bind_io (file_op ''failed to create'' (set_file name (Some ([], False))) (\<lambda>_. id)) (\<lambda>_. ret True))
      (\<lambda>created f. if created then R f else P f) E"
    by (rule files_bind [where Q = "\<lambda>_. R"], rule files_op) (auto simp: assms set_file_def simp del: not_None_eq intro: files_ret)
qed (auto simp: create_new_def split: result.split)

lemma files_open: "files_contract P (open_file name) (\<lambda>_. P) P"
proof (rule files_guard [where c = "\<lambda>f. f name = None"])
  show "files_contract (\<lambda>f. P f \<and> f name \<noteq> None) (check_op ''failed to open'') (\<lambda>_. P) P"
    by (rule files_weaken [OF files_check]) auto
qed (auto simp: open_file_def split: result.split)

lemma files_nonce: "files_contract P next_temporary_nonce (\<lambda>_. P) P"
  unfolding files_contract_def contract_def
  by (auto simp: next_temporary_nonce_def Let_def bind_io_def check_op_def file_op_def
      split: prod.splits op_outcome.splits if_splits dest!: files_of_outcome)

section \<open>Allocation of the temporary files\<close>

lemma length_temporary: "length path < length (temporary_path_with_identity path pid nonce)"
  by (simp add: temporary_path_with_identity_def)

lemma length_owner_metadata: "length name < length (owner_metadata_path name)"
  by (simp add: owner_metadata_path_def)

text \<open>The files as they were, and a name that did not exist and is not the destination.\<close>

definition intact :: "files \<Rightarrow> string \<Rightarrow> files \<Rightarrow> bool" where
  "intact old path f \<longleftrightarrow> (\<forall>q. old q \<noteq> None \<or> q = path \<longrightarrow> f q = old q)"

definition fresh :: "files \<Rightarrow> string \<Rightarrow> string \<Rightarrow> bool" where
  "fresh old path name \<longleftrightarrow> old name = None \<and> name \<noteq> path"

lemma intact_fresh: "intact old path f \<Longrightarrow> fresh old path name \<Longrightarrow> intact old path (f(name := x))"
  by (auto simp: intact_def fresh_def)

lemma intact_new: "intact old path f \<Longrightarrow> f name = None \<Longrightarrow> name \<noteq> path \<Longrightarrow> fresh old path name"
  by (metis intact_def fresh_def)

lemma files_owner_metadata:
  assumes "name \<noteq> path"
  shows "files_contract (intact old path) (create_owner_metadata name pid nonce)
    (\<lambda>created f. intact old path f \<and> (created \<longrightarrow> fresh old path name))
    (\<lambda>f. intact old path f \<and> fresh old path name)"
  unfolding create_owner_metadata_def
proof (rule files_bind)
  let ?R = "\<lambda>f. intact old path f \<and> fresh old path name"
  fix created
  show "files_contract (\<lambda>f. if created then ?R f else intact old path f)
     (if \<not> created then ret False
      else bind_io (write_all name (owner_text pid nonce)) (\<lambda>_. bind_io (sync_file name) (\<lambda>_. ret True)))
     (\<lambda>created f. intact old path f \<and> (created \<longrightarrow> fresh old path name)) ?R"
  proof (cases created)
    case True
    have w: "files_contract ?R (write_all name (owner_text pid nonce)) (\<lambda>_. ?R) ?R"
      unfolding write_all_def by (rule files_op) (auto simp: set_file_def intact_fresh)
    have s: "files_contract ?R (sync_file name) (\<lambda>_. ?R) ?R"
      unfolding sync_file_def by (rule files_op) (auto simp: set_file_def intact_fresh)
    show ?thesis using True by (simp add: files_bind [OF w files_bind [OF s files_ret]])
  qed (simp add: files_ret)
next
  show "files_contract (intact old path) (create_new name)
      (\<lambda>created f. if created then intact old path f \<and> fresh old path name else intact old path f)
      (\<lambda>f. intact old path f \<and> fresh old path name)"
    by (rule files_create) (auto simp: intact_fresh intact_new [OF _ _ assms])
qed

text \<open>The two names that a successful allocation returns.\<close>

definition allocated :: "files \<Rightarrow> string \<Rightarrow> string \<times> string \<Rightarrow> bool" where
  "allocated old path = (\<lambda>(temporary, owner_metadata).
     fresh old path temporary \<and> fresh old path owner_metadata \<and> temporary \<noteq> owner_metadata)"

lemma files_drop:
  assumes "\<And>f. P f \<Longrightarrow> P (f(name := None))"
  shows "files_contract P (ignore_error (remove_file name)) (\<lambda>_. P) P"
  by (rule files_ignore, rule files_remove) (rule assms)

lemma files_temporary_attempt:
  "files_contract (intact old path) (temporary_attempt windows pid path)
     (\<lambda>r f. intact old path f \<and> (\<forall>names. r = Some names \<longrightarrow> allocated old path names)) (intact old path)"
    (is "files_contract ?I _ ?Q _")
  unfolding temporary_attempt_def
proof (rule files_bind [OF files_nonce])
  fix nonce
  define t where "t = temporary_path_with_identity path pid nonce"
  define m where "m = owner_metadata_path t"
  have ne: "t \<noteq> path" "m \<noteq> path" "t \<noteq> m"
    using length_temporary [of path pid nonce] length_owner_metadata [of t] by (auto simp: t_def m_def)
  let ?T = "\<lambda>f. ?I f \<and> fresh old path t"
  let ?TM = "\<lambda>f. ?T f \<and> fresh old path m"
  have drop: "files_contract ?T (ignore_error (remove_file t)) (\<lambda>_. ?T) ?I"
    by (rule files_weaken [OF files_drop [where P = ?T]]) (auto simp: intact_fresh)
  have drop2: "files_contract ?TM (ignore_error (remove_file q)) (\<lambda>_. ?TM) ?I" if "q = t \<or> q = m" for q
    by (rule files_weaken [OF files_drop [where P = ?TM]]) (use that in \<open>auto simp: intact_fresh\<close>)
  have create: "files_contract ?I (create_new t) (\<lambda>created f. if created then ?T f else ?I f) ?I"
    by (rule files_create) (auto simp: intact_fresh intact_new ne)
  have acl: "files_contract ?T (if windows then apply_acl_contract msg else ret ()) (\<lambda>_. ?T) ?T" for msg
    unfolding apply_acl_contract_def by (intro files_if files_check files_ret)
  have metadata: "files_contract ?T (create_owner_metadata m pid nonce)
      (\<lambda>tagged f. ?T f \<and> (tagged \<longrightarrow> fresh old path m)) ?TM"
  proof -
    have "files_contract ?I (create_owner_metadata m pid nonce)
        (\<lambda>tagged f. ?I f \<and> (tagged \<longrightarrow> fresh old path m)) (\<lambda>f. ?I f \<and> fresh old path m)"
      by (rule files_owner_metadata [OF ne(2)])
    then show ?thesis unfolding files_contract_def contract_def by blast
  qed
  have tagged: "files_contract (\<lambda>f. ?T f \<and> (b \<longrightarrow> fresh old path m))
      (if b then ret (Some (t, m)) else bind_io (ignore_error (remove_file t)) (\<lambda>_. ret None)) ?Q ?I" for b
  proof (rule files_if)
    show "files_contract (\<lambda>f. ?T f \<and> (b \<longrightarrow> fresh old path m)) (ret (Some (t, m))) ?Q ?I" if b
      by (rule files_ret) (use that ne in \<open>auto simp: allocated_def\<close>)
    show "files_contract (\<lambda>f. ?T f \<and> (b \<longrightarrow> fresh old path m))
        (bind_io (ignore_error (remove_file t)) (\<lambda>_. ret None)) ?Q ?I" if "\<not> b"
      by (rule files_bind [OF files_weaken [OF drop] files_ret]) auto
  qed
  have refused: "files_contract ?T (bind_io (ignore_error (remove_file t)) (\<lambda>_. fail e)) ?Q ?I" for e
    by (rule files_bind [OF drop files_fail]) simp
  have refused2: "files_contract ?TM (bind_io (ignore_error (remove_file t)) (\<lambda>_.
      bind_io (ignore_error (remove_file m)) (\<lambda>_. fail e))) ?Q ?I" for e
    by (rule files_bind [OF drop2 files_bind [OF drop2 files_fail]]) auto
  show "files_contract ?I (let temporary = temporary_path_with_identity path pid nonce;
           owner_metadata = owner_metadata_path temporary in
       bind_io (create_new temporary) (\<lambda>created.
         if \<not> created then ret None
         else
           bind_io (catch_stop (if windows then apply_acl_contract ''failed to secure atomic temporary file'' else ret ())) (\<lambda>acl.
           case acl of
             Ok _ \<Rightarrow>
               bind_io (catch_stop (create_owner_metadata owner_metadata pid nonce)) (\<lambda>metadata.
               case metadata of
                 Ok tagged \<Rightarrow>
                   if tagged then ret (Some (temporary, owner_metadata))
                   else bind_io (ignore_error (remove_file temporary)) (\<lambda>_. ret None)
               | Err _ \<Rightarrow>
                   bind_io (ignore_error (remove_file temporary)) (\<lambda>_.
                   bind_io (ignore_error (remove_file owner_metadata)) (\<lambda>_.
                     fail (Stopped (''failed to create '' @ owner_metadata)))))
           | Err e \<Rightarrow> bind_io (ignore_error (remove_file temporary)) (\<lambda>_. fail (Stopped e))))) ?Q ?I"
    unfolding Let_def t_def [symmetric] m_def [symmetric]
  proof (rule files_bind [OF create], rule files_if, goal_cases)
    case 1 then show ?case by (intro files_ret) auto
  next
    case (2 created)
    then have c: "(\<lambda>f. if created then ?T f else ?I f) = ?T" by simp
    show ?case unfolding c
      by (rule files_caught [OF acl files_caught [OF metadata tagged refused2] refused]) auto
  qed
qed

lemma files_temporary_attempts:
  "files_contract (intact old path) (temporary_attempts windows pid path n)
     (\<lambda>names f. intact old path f \<and> allocated old path names) (intact old path)"
proof (induction n)
  case (Suc n)
  show ?case
    unfolding temporary_attempts.simps
  proof (rule files_bind [OF files_temporary_attempt])
    fix r
    show "files_contract (\<lambda>f. intact old path f \<and> (\<forall>names. r = Some names \<longrightarrow> allocated old path names))
        (case r of Some names \<Rightarrow> ret names | None \<Rightarrow> temporary_attempts windows pid path n)
        (\<lambda>names f. intact old path f \<and> allocated old path names) (intact old path)"
      by (cases r) (auto intro: files_ret files_weaken [OF Suc.IH])
  qed
next
  case 0
  show ?case unfolding temporary_attempts.simps by (rule files_fail)
qed

section \<open>The write\<close>

text \<open>
  The destination installed, and what any end of the write leaves: the destination old or new, or,
  after the documented failure of \<open>ReplaceFileW\<close>, lost; every other file that existed as it was.
\<close>

definition others_same :: "files \<Rightarrow> string \<Rightarrow> files \<Rightarrow> bool" where
  "others_same old path f \<longleftrightarrow> (\<forall>q. old q \<noteq> None \<and> q \<noteq> path \<longrightarrow> f q = old q)"

definition installed :: "files \<Rightarrow> string \<Rightarrow> u8 list \<Rightarrow> files \<Rightarrow> bool" where
  "installed old path bytes f \<longleftrightarrow> others_same old path f \<and> f path = Some (bytes, True)"

definition old_or_new :: "bool \<Rightarrow> files \<Rightarrow> string \<Rightarrow> u8 list \<Rightarrow> files \<Rightarrow> bool" where
  "old_or_new windows old path bytes f \<longleftrightarrow> others_same old path f
     \<and> (f path = old path \<or> f path = Some (bytes, True) \<or> (windows \<and> old path \<noteq> None \<and> f path = None))"

lemma old_or_newI:
  "intact old path f \<Longrightarrow> old_or_new windows old path bytes f"
  "installed old path bytes f \<Longrightarrow> old_or_new windows old path bytes f"
  by (auto simp: intact_def installed_def old_or_new_def others_same_def)

lemma others_same_fresh: "others_same old path f \<Longrightarrow> fresh old path name \<Longrightarrow> others_same old path (f(name := x))"
  by (auto simp: others_same_def fresh_def)

lemma installed_fresh: "installed old path bytes f \<Longrightarrow> fresh old path name \<Longrightarrow> installed old path bytes (f(name := x))"
  by (auto simp: installed_def fresh_def others_same_fresh)

lemma old_or_new_fresh:
  "old_or_new windows old path bytes f \<Longrightarrow> fresh old path name \<Longrightarrow> old_or_new windows old path bytes (f(name := x))"
  by (auto simp: old_or_new_def fresh_def others_same_fresh)

lemma files_replace:
  assumes "fresh old path t"
  shows "files_contract (\<lambda>f. intact old path f \<and> f t = Some (bytes, True)) (replace windows t path)
    (\<lambda>_. installed old path bytes) (old_or_new windows old path bytes)"
proof -
  let ?P = "\<lambda>f. intact old path f \<and> f t = Some (bytes, True)"
  let ?install = "\<lambda>d. set_file t None (set_file path (dk_files d t) d)"
  have new: "installed old path bytes (dk_files (?install d))" if "?P (dk_files d)" for d
    using that assms by (auto simp: set_file_def installed_def others_same_def intact_def fresh_def)
  have simple: "files_contract ?P (file_op msg ?install (\<lambda>_. id)) (\<lambda>_. installed old path bytes)
      (old_or_new windows old path bytes)" for msg
  proof (rule files_op)
    show "old_or_new windows old path bytes (dk_files ((\<lambda>_. id) n d))" if "?P (dk_files d)" for n :: nat and d
      using that by (simp add: old_or_newI)
  qed (use new old_or_newI in blast)+
  have replacing: "files_contract (\<lambda>f. ?P f \<and> old path \<noteq> None)
      (file_op msg ?install (\<lambda>n. if n = 0 then id else set_file path None)) (\<lambda>_. installed old path bytes)
      (old_or_new True old path bytes)" for msg
  proof (rule files_op)
    fix n and d :: disk assume "?P (dk_files d) \<and> old path \<noteq> None"
    then show "old_or_new True old path bytes (dk_files ((if n = 0 then id else set_file path None) d))"
      by (auto simp: set_file_def old_or_new_def others_same_def intact_def)
  qed (use new old_or_newI in blast)+
  show ?thesis
    using simple replacing unfolding replace_def Let_def files_contract_def contract_def
    by (auto simp: intact_def)
qed

lemma files_flush: "files_contract P (flush_parent_directory noop_fault_controller) (\<lambda>_. P) P"
  unfolding flush_parent_directory_def noop_fault_controller_def fault_controller.simps
  by (rule files_caught [OF files_check files_caught [OF files_check files_ret files_fail] files_ret]) simp_all

lemma files_write_body:
  assumes t: "fresh old path t"
  shows "files_contract (intact old path) (write_body windows noop_fault_controller path t bytes)
    (\<lambda>_. installed old path bytes) (old_or_new windows old path bytes)"
proof -
  let ?I = "intact old path" and ?N = "installed old path bytes" and ?O = "old_or_new windows old path bytes"
  have acl: "files_contract P (if windows then apply_acl_contract msg else ret ()) (\<lambda>_. P) P" for P :: "files \<Rightarrow> bool" and msg
    unfolding apply_acl_contract_def by (intro files_if files_check files_ret)
  have w: "files_contract ?I (write_all t bytes) (\<lambda>_ f. ?I f \<and> f t = Some (bytes, False)) ?O"
    unfolding write_all_def by (rule files_op) (auto simp: set_file_def intact_fresh t intro: old_or_newI)
  have s: "files_contract (\<lambda>f. ?I f \<and> f t = Some (bytes, False)) (sync_file t) (\<lambda>_ f. ?I f \<and> f t = Some (bytes, True)) ?O"
    unfolding sync_file_def by (rule files_op) (auto simp: set_file_def intact_fresh t intro: old_or_newI)
  have rest: "files_contract ?N (bind_io (if windows then apply_acl_contract msg else ret ()) (\<lambda>_.
      flush_parent_directory noop_fault_controller)) (\<lambda>_. ?N) ?O" for msg
    by (rule files_bind [OF files_weaken [OF acl [of ?N]] files_weaken [OF files_flush [of ?N]]]) (auto intro: old_or_newI)
  have first: "files_contract ?I (if windows then apply_acl_contract msg else ret ()) (\<lambda>_. ?I) ?O" for msg
    by (rule files_weaken [OF acl [of ?I]]) (auto intro: old_or_newI)
  have opened: "files_contract ?I (open_file t) (\<lambda>_. ?I) ?O"
    by (rule files_weaken [OF files_open [of ?I]]) (auto intro: old_or_newI)
  have noop: "after_temporary_write noop_fault_controller = ret ()" "before_temporary_flush noop_fault_controller = ret ()"
    "before_replace noop_fault_controller = ret ()" "after_replace noop_fault_controller = ret ()"
    "before_directory_flush noop_fault_controller = ret ()"
    by (simp_all add: noop_fault_controller_def)
  show ?thesis unfolding write_body_def noop bind_io_ret
    by (rule files_bind [OF first files_bind [OF opened files_bind [OF w files_bind [OF s
          files_bind [OF files_replace [OF t] rest]]]]])
qed

lemma files_atomic_write:
  "files_contract (intact old path) (atomic_write windows pid path bytes)
     (\<lambda>_. installed old path bytes) (old_or_new windows old path bytes)"
proof -
  let ?I = "intact old path" and ?N = "installed old path bytes" and ?O = "old_or_new windows old path bytes"
  have directory: "files_contract ?I (check_op msg) (\<lambda>_. ?I) ?O" for msg
    by (rule files_weaken [OF files_check [of ?I]]) (auto intro: old_or_newI)
  have allocation: "files_contract ?I (create_temporary_identity windows pid path)
      (\<lambda>names f. ?I f \<and> allocated old path names) ?O"
    unfolding create_temporary_identity_def
    by (rule files_weaken [OF files_temporary_attempts]) (auto intro: old_or_newI)
  have final: "files_contract (\<lambda>f. ?I f \<and> allocated old path (t, m))
      (bind_io (catch_stop (write_body windows noop_fault_controller path t bytes)) (\<lambda>result.
       case result of
         Err e \<Rightarrow>
           bind_io (ignore_error (remove_file t)) (\<lambda>_.
           bind_io (ignore_error (remove_file m)) (\<lambda>_. fail (Stopped e)))
       | Ok _ \<Rightarrow>
           bind_io (catch_stop (remove_file m)) (\<lambda>removed.
           case removed of
             Ok _ \<Rightarrow> ret ()
           | Err _ \<Rightarrow> fail (Stopped (''failed to remove owner metadata for '' @ t))))) (\<lambda>_. ?N) ?O" for t m
  proof (cases "allocated old path (t, m)")
    case False
    then show ?thesis by (simp add: files_contract_def contract_def)
  next
    case True
    then have tm: "fresh old path t" "fresh old path m" by (auto simp: allocated_def)
    have drop: "files_contract ?O (ignore_error (remove_file q)) (\<lambda>_. ?O) ?O" if "q = t \<or> q = m" for q
      by (rule files_drop) (use that tm in \<open>auto intro: old_or_new_fresh\<close>)
    have removed: "files_contract ?N (remove_file m) (\<lambda>_. ?N) ?N"
      by (rule files_remove) (rule installed_fresh [OF _ tm(2)])
    show ?thesis
      by (rule files_caught [OF files_weaken [OF files_write_body [OF tm(1)]]
            files_caught [OF removed files_ret files_fail]
            files_bind [OF drop files_bind [OF drop files_fail]]]) (auto intro: old_or_newI)
  qed
  have noop: "before_temporary_creation noop_fault_controller = ret ()" by (simp add: noop_fault_controller_def)
  show ?thesis unfolding atomic_write_def write_with_controller_def noop bind_io_ret
  proof (rule files_bind [OF directory], rule files_bind [OF allocation])
    fix names :: "string \<times> string"
    obtain t m where "names = (t, m)" by (cases names)
    then show "files_contract (\<lambda>f. ?I f \<and> allocated old path names)
        (case names of (t, m) \<Rightarrow> bind_io (catch_stop (write_body windows noop_fault_controller path t bytes)) (\<lambda>result.
         case result of
           Err e \<Rightarrow>
             bind_io (ignore_error (remove_file t)) (\<lambda>_.
             bind_io (ignore_error (remove_file m)) (\<lambda>_. fail (Stopped e)))
         | Ok _ \<Rightarrow>
             bind_io (catch_stop (remove_file m)) (\<lambda>removed.
             case removed of
               Ok _ \<Rightarrow> ret ()
             | Err _ \<Rightarrow> fail (Stopped (''failed to remove owner metadata for '' @ t))))) (\<lambda>_. ?N) ?O"
      using final by (simp only: prod.case)
  qed
qed

text \<open>
  C13: an atomic write is old or new, whatever fails and wherever the process ends.  For every pattern
  of failures, partial writes and crashes, every other file that existed is as it was, and the
  destination holds its old content or the complete, flushed new bytes; it holds the new bytes if the
  write succeeds; only on Windows, and only if it existed, may a failed write lose it (the documented
  failure of \<open>ReplaceFileW\<close> without a backup name).
\<close>

theorem atomic_write_old_or_new:
  assumes "atomic_write windows pid path bytes d = (r, d')"
  shows "(\<forall>q. if dk_files d q \<noteq> None \<and> q \<noteq> path then dk_files d' q = dk_files d q else True)
    \<and> (dk_files d' path = dk_files d path \<or> dk_files d' path = Some (bytes, True)
       \<or> (windows \<and> dk_files d path \<noteq> None \<and> r \<noteq> Ok () \<and> dk_files d' path = None))
    \<and> (if r = Ok () then dk_files d' path = Some (bytes, True) else True)"
proof -
  have start: "intact (dk_files d) path (dk_files d)" by (simp add: intact_def)
  note c = files_atomic_write [of "dk_files d" path windows pid bytes, unfolded files_contract_def]
  show ?thesis
  proof (cases r)
    case (Ok u)
    then have "installed (dk_files d) path bytes (dk_files d')"
      using contract_Ok [OF c start] assms by simp
    with Ok show ?thesis by (simp add: installed_def others_same_def)
  next
    case (Err e)
    then have "old_or_new windows (dk_files d) path bytes (dk_files d')"
      using contract_Err [OF c start] assms by simp
    with Err show ?thesis by (auto simp: old_or_new_def others_same_def)
  qed
qed

text \<open>A disk of one file on which the next operations have the given outcomes.\<close>

definition demo_disk :: "op_outcome list \<Rightarrow> disk" where
  "demo_disk outcomes = \<lparr>dk_files = [''s'' \<mapsto> ([1], True)], dk_outcomes = outcomes, dk_random = [5], dk_counter = 0\<rparr>"

theorem atomic_write_old_or_new_witness:
  "dk_files (snd (atomic_write False 7 ''s'' [2] (demo_disk []))) ''s'' = Some ([2], True)"
proof -
  obtain r d' where w: "atomic_write False 7 ''s'' [2] (demo_disk []) = (r, d')" by (rule prod.exhaust)
  moreover have "fst (atomic_write False 7 ''s'' [2] (demo_disk [])) = Ok ()" by code_simp
  ultimately show ?thesis using atomic_write_old_or_new [OF w] by simp
qed

lemma demo_lost:
  "case atomic_write True 7 ''s'' [2] (demo_disk (replicate 11 Done @ [Refused 1])) of (r, d) \<Rightarrow>
     r = Err (Stopped ''failed to replace existing destination with ReplaceFileW'')
     \<and> dk_files d ''s'' = None \<and> dk_files d ''s.tmp.7.5'' = None"
  by code_simp

text \<open>
  On Windows a failed save can lose the file it was to replace.  A state file exists; the write
  over it fails at \<open>ReplaceFileW\<close> with its documented error for a call without a backup name; the
  error path then removes the temporary file, and neither the old nor the new content is left.
\<close>

theorem replace_without_backup_can_lose:
  "\<exists>d r d'. dk_files d ''s'' = Some ([1], True) \<and> atomic_write True 7 ''s'' [2] d = (r, d')
     \<and> r = Err (Stopped ''failed to replace existing destination with ReplaceFileW'')
     \<and> dk_files d' ''s'' = None \<and> dk_files d' ''s.tmp.7.5'' = None"
proof -
  obtain r d' where w: "atomic_write True 7 ''s'' [2] (demo_disk (replicate 11 Done @ [Refused 1])) = (r, d')"
    by (rule prod.exhaust)
  moreover have "dk_files (demo_disk (replicate 11 Done @ [Refused 1])) ''s'' = Some ([1], True)"
    by (simp add: demo_disk_def)
  ultimately show ?thesis using demo_lost by (intro exI) auto
qed

section \<open>Names of temporary files\<close>

lemma dec_no_dot: "CHR ''.'' \<notin> set (dec w)"
  using dec_nat_digits [of "CHR ''.''"] by (auto simp: dec_def)

lemma split_char_none: "c \<notin> set s \<Longrightarrow> split_char c s = [s]"
  by (induction s) auto

lemma split_char_two: "c \<notin> set a \<Longrightarrow> c \<notin> set b \<Longrightarrow> split_char c (a @ c # b) = [a, b]"
  by (induction a) (auto simp: split_char_none)

lemma split_once_skip:
  assumes "c \<notin> set a"
  shows "split_once (c # p) (a @ s) = map_option (\<lambda>(x, y). (a @ x, y)) (split_once (c # p) s)"
  using assms
proof (induction a)
  case (Cons x a)
  then have "\<not> starts_with (c # p) (x # a @ s)" by (auto simp: starts_with_def)
  with Cons show ?case by (simp add: option.map_comp comp_def case_prod_unfold)
qed (simp add: option.map_ident case_prod_unfold)

lemma strip_suffix_append [simp]: "strip_suffix p (s @ p) = Some s"
  by (simp add: strip_suffix_def ends_with_def)

lemma rsplit_temporary:
  "rsplit_once ''.tmp.'' (temporary_path_with_identity path pid nonce) = Some (path, dec pid @ ''.'' @ dec nonce)"
proof -
  obtain c s where pid: "rev (dec pid) = c # s" by (cases "rev (dec pid)") (auto simp: dec_def)
  then have "c \<in> set (dec pid)" by (metis list.set_intros(1) set_rev)
  then have c: "c \<noteq> CHR ''p''" using dec_nat_digits [of c "unat pid"] by (auto simp: dec_def)
  have dots: "CHR ''.'' \<notin> set (rev (dec nonce))" "CHR ''.'' \<notin> set (c # s)"
    by (simp add: dec_no_dot) (metis dec_no_dot pid set_rev)
  have "split_once ''.pmt.'' ((c # s) @ ''.pmt.'' @ rev path) = Some (c # s, rev path)"
    unfolding split_once_skip [OF dots(2)] by (simp add: starts_with_def)
  then have "split_once ''.pmt.'' (''.'' @ (c # s) @ ''.pmt.'' @ rev path) = Some (''.'' @ c # s, rev path)"
    using c by (simp add: starts_with_def)
  then have "split_once ''.pmt.'' (rev (dec nonce) @ ''.'' @ (c # s) @ ''.pmt.'' @ rev path)
      = Some (rev (dec nonce) @ ''.'' @ c # s, rev path)"
    unfolding split_once_skip [OF dots(1)] by simp
  then show ?thesis by (simp add: rsplit_once_def temporary_path_with_identity_def pid [symmetric])
qed

lemma identity_round_trip: "temporary_identity (temporary_path_with_identity path pid nonce) = Some (pid, nonce)"
  using split_char_two [OF dec_no_dot [of pid] dec_no_dot [of nonce]]
  by (simp add: temporary_identity_def rsplit_temporary)

text \<open>
  The name of a temporary file carries its owner.  The name allocated for a process and a nonce
  reads back as exactly that process and nonce, and its metadata file's name as that temporary file.
\<close>

theorem temporary_name_round_trip:
  "temporary_identity (temporary_path_with_identity path pid nonce) = Some (pid, nonce)
   \<and> orphan_temporary_path (owner_metadata_path (temporary_path_with_identity path pid nonce))
       = Some (temporary_path_with_identity path pid nonce)"
  by (simp add: identity_round_trip orphan_temporary_path_def owner_metadata_path_def)

section \<open>Recovery of stale temporary files\<close>

text \<open>
  A directory entry: its name, whether it is a regular file, and its age in seconds (zero if it was
  modified in the future).  Which processes have ended is a parameter.  Reading a file that is not
  UTF-8 fails in the code; here its bytes differ from every owner text.
\<close>

record dir_entry =
  de_name :: string
  de_is_file :: bool
  de_age :: nat

definition owner_matches :: "u32 \<Rightarrow> u64 \<Rightarrow> string \<Rightarrow> disk \<Rightarrow> bool" where
  "owner_matches pid nonce metadata d =
     (case dk_files d metadata of
        None \<Rightarrow> False
      | Some (bytes, _) \<Rightarrow> trim (map (\<lambda>b. char_of (unat b)) bytes) = dec pid @ '':'' @ dec nonce)"

definition owned_by_dead :: "(u32 \<Rightarrow> bool) \<Rightarrow> u32 \<Rightarrow> nat \<Rightarrow> dir_entry \<Rightarrow> u32 \<Rightarrow> bool" where
  "owned_by_dead owner_is_dead current_pid minimum_age e pid \<longleftrightarrow>
     pid \<noteq> current_pid \<and> owner_is_dead pid \<and> de_age e \<ge> minimum_age"

text \<open>The first pass, over metadata files whose temporary file is gone.\<close>

definition recover_orphan :: "(u32 \<Rightarrow> bool) \<Rightarrow> u32 \<Rightarrow> nat \<Rightarrow> dir_entry \<Rightarrow> nat disk_io" where
  "recover_orphan owner_is_dead current_pid minimum_age e d =
     (if \<not> de_is_file e then (Ok 0, d)
      else
        case orphan_temporary_path (de_name e) of
          None \<Rightarrow> (Ok 0, d)
        | Some temporary \<Rightarrow>
            if dk_files d temporary \<noteq> None then (Ok 0, d)
            else
              case temporary_identity temporary of
                None \<Rightarrow> (Ok 0, d)
              | Some (pid, nonce) \<Rightarrow>
                  if owned_by_dead owner_is_dead current_pid minimum_age e pid \<and> owner_matches pid nonce (de_name e) d
                  then bind_io (remove_file (de_name e)) (\<lambda>_. ret 1) d
                  else (Ok 0, d))"

text \<open>The second pass, over temporary files.\<close>

definition recover_temporary :: "(u32 \<Rightarrow> bool) \<Rightarrow> u32 \<Rightarrow> nat \<Rightarrow> dir_entry \<Rightarrow> nat disk_io" where
  "recover_temporary owner_is_dead current_pid minimum_age e d =
     (case temporary_identity (de_name e) of
        None \<Rightarrow> (Ok 0, d)
      | Some (pid, nonce) \<Rightarrow>
          if de_is_file e \<and> owned_by_dead owner_is_dead current_pid minimum_age e pid
             \<and> owner_matches pid nonce (owner_metadata_path (de_name e)) d
          then
            bind_io (remove_file (de_name e)) (\<lambda>_ d1.
              if dk_files d1 (owner_metadata_path (de_name e)) = None then (Ok 1, d1)
              else bind_io (remove_file (owner_metadata_path (de_name e))) (\<lambda>_. ret 1) d1) d
          else (Ok 0, d))"

fun sum_io :: "('a \<Rightarrow> nat disk_io) \<Rightarrow> 'a list \<Rightarrow> nat disk_io" where
  "sum_io f [] = ret 0"
| "sum_io f (x # xs) = bind_io (f x) (\<lambda>n. bind_io (sum_io f xs) (\<lambda>m. ret (n + m)))"

definition recover_stale_temporary_files ::
  "(u32 \<Rightarrow> bool) \<Rightarrow> dir_entry list \<Rightarrow> u32 \<Rightarrow> nat \<Rightarrow> nat disk_io" where
  "recover_stale_temporary_files owner_is_dead listing current_pid minimum_age =
     bind_io (check_op ''failed to enumerate'') (\<lambda>_.
     bind_io (sum_io (recover_orphan owner_is_dead current_pid minimum_age) listing) (\<lambda>n.
     bind_io (sum_io (recover_temporary owner_is_dead current_pid minimum_age) listing) (\<lambda>m. ret (n + m))))"

text \<open>A name that recovery may remove: of an ended, foreign owner, with matching metadata.\<close>

definition stale_name :: "(u32 \<Rightarrow> bool) \<Rightarrow> u32 \<Rightarrow> files \<Rightarrow> string \<Rightarrow> bool" where
  "stale_name owner_is_dead current_pid old q \<longleftrightarrow>
     (\<exists>name pid nonce bytes flushed. temporary_identity name = Some (pid, nonce)
        \<and> (q = name \<or> q = owner_metadata_path name) \<and> pid \<noteq> current_pid \<and> owner_is_dead pid
        \<and> old (owner_metadata_path name) = Some (bytes, flushed)
        \<and> trim (map (\<lambda>b. char_of (unat b)) bytes) = dec pid @ '':'' @ dec nonce)"

definition only_stale_removed :: "(u32 \<Rightarrow> bool) \<Rightarrow> u32 \<Rightarrow> files \<Rightarrow> files \<Rightarrow> bool" where
  "only_stale_removed owner_is_dead current_pid old f \<longleftrightarrow>
     (\<forall>q. f q = old q \<or> (f q = None \<and> stale_name owner_is_dead current_pid old q))"

lemma only_stale_removedI:
  "only_stale_removed dead cur old f \<Longrightarrow> stale_name dead cur old q \<Longrightarrow> only_stale_removed dead cur old (f(q := None))"
  by (auto simp: only_stale_removed_def)

lemma orphan_name:
  assumes "orphan_temporary_path name = Some t"
  shows "name = owner_metadata_path t"
  using assms by (auto simp: orphan_temporary_path_def strip_suffix_def ends_with_def owner_metadata_path_def
      starts_with_iff split: option.splits if_splits)

lemma matches_old:
  assumes "only_stale_removed dead cur old (dk_files d)" "owner_matches pid nonce m d"
  obtains bytes fl where "old m = Some (bytes, fl)" "trim (map (\<lambda>b. char_of (unat b)) bytes) = dec pid @ '':'' @ dec nonce"
proof -
  obtain c where c: "dk_files d m = Some c" using assms(2) by (cases "dk_files d m") (simp_all add: owner_matches_def)
  obtain bytes fl where "c = (bytes, fl)" by (cases c)
  then have b: "dk_files d m = Some (bytes, fl)" "trim (map (\<lambda>b. char_of (unat b)) bytes) = dec pid @ '':'' @ dec nonce"
    using assms(2) c by (simp_all add: owner_matches_def)
  have "old m = Some (bytes, fl)" using assms(1) [unfolded only_stale_removed_def, THEN spec, of m] b(1) by auto
  then show thesis by (rule that [OF _ b(2)])
qed

lemma files_removed: "dk_files (snd (remove_file name d)) = dk_files d \<or> dk_files (snd (remove_file name d)) = (dk_files d)(name := None)"
  by (auto simp: remove_file_def file_op_def set_file_def split: prod.splits op_outcome.splits)

lemma keeps_remove_stale:
  "only_stale_removed dead cur old (dk_files d) \<Longrightarrow> stale_name dead cur old name \<Longrightarrow>
     only_stale_removed dead cur old (dk_files (snd (remove_file name d)))"
  using files_removed [of name d] by (auto simp: only_stale_removedI)

lemma stale_pair:
  assumes "only_stale_removed dead cur old (dk_files d)" "temporary_identity name = Some (pid, nonce)"
    and "owned_by_dead dead cur age e pid" "owner_matches pid nonce (owner_metadata_path name) d"
  shows "stale_name dead cur old name" "stale_name dead cur old (owner_metadata_path name)"
proof -
  obtain b fl where "old (owner_metadata_path name) = Some (b, fl)"
      "trim (map (\<lambda>b. char_of (unat b)) b) = dec pid @ '':'' @ dec nonce"
    by (rule matches_old [OF assms(1,4)])
  with assms(2,3) show "stale_name dead cur old name" "stale_name dead cur old (owner_metadata_path name)"
    unfolding stale_name_def owned_by_dead_def by blast+
qed

lemma snd_bind: "snd (bind_io m f s) = (case m s of (Ok x, s') \<Rightarrow> snd (f x s') | (Err e, s') \<Rightarrow> s')"
  by (simp add: bind_io_def split: prod.splits result.splits)

lemma keeps_recover_orphan:
  "keeps (\<lambda>d. only_stale_removed dead cur old (dk_files d)) (recover_orphan dead cur age e)"
  unfolding keeps_def
proof (intro allI impI)
  fix d :: disk assume I: "only_stale_removed dead cur old (dk_files d)"
  show "only_stale_removed dead cur old (dk_files (snd (recover_orphan dead cur age e d)))"
  proof (cases "de_is_file e")
    case True
    show ?thesis
    proof (cases "orphan_temporary_path (de_name e)")
      case (Some t)
      note n = orphan_name [OF Some]
      show ?thesis
      proof (cases "temporary_identity t")
        case (Some i)
        obtain pid nonce where i: "i = (pid, nonce)" by (cases i)
        show ?thesis
        proof (cases "owned_by_dead dead cur age e pid \<and> owner_matches pid nonce (de_name e) d")
          case True
          then have "stale_name dead cur old (de_name e)"
            using stale_pair(2) [OF I Some [unfolded i], where age = age and e = e] n by simp
          from keeps_remove_stale [OF I this] I \<open>de_is_file e\<close> \<open>orphan_temporary_path (de_name e) = Some t\<close> Some i True
          show ?thesis by (auto simp: recover_orphan_def snd_bind split: prod.splits result.splits)
        qed (use I \<open>de_is_file e\<close> \<open>orphan_temporary_path (de_name e) = Some t\<close> Some i in \<open>auto simp: recover_orphan_def\<close>)
      qed (use I True Some in \<open>simp add: recover_orphan_def\<close>)
    qed (use I True in \<open>simp add: recover_orphan_def\<close>)
  qed (use I in \<open>simp add: recover_orphan_def\<close>)
qed

lemma keeps_recover_temporary:
  "keeps (\<lambda>d. only_stale_removed dead cur old (dk_files d)) (recover_temporary dead cur age e)"
  unfolding keeps_def
proof (intro allI impI)
  fix d :: disk assume I: "only_stale_removed dead cur old (dk_files d)"
  show "only_stale_removed dead cur old (dk_files (snd (recover_temporary dead cur age e d)))"
  proof (cases "temporary_identity (de_name e)")
    case (Some i)
    obtain pid nonce where i: "i = (pid, nonce)" by (cases i)
    let ?m = "owner_metadata_path (de_name e)"
    show ?thesis
    proof (cases "de_is_file e \<and> owned_by_dead dead cur age e pid \<and> owner_matches pid nonce ?m d")
      case True
      then have s: "stale_name dead cur old (de_name e)" "stale_name dead cur old ?m"
        using stale_pair [OF I Some [unfolded i], where age = age and e = e] by blast+
      obtain r d1 where r: "remove_file (de_name e) d = (r, d1)" by (rule prod.exhaust)
      then have d1: "only_stale_removed dead cur old (dk_files d1)" using keeps_remove_stale [OF I s(1)] by simp
      from keeps_remove_stale [OF d1 s(2)] d1 r True Some i show ?thesis
        by (auto simp: recover_temporary_def snd_bind split: prod.splits result.splits)
    qed (use I Some i in \<open>auto simp: recover_temporary_def\<close>)
  qed (use I in \<open>simp add: recover_temporary_def\<close>)
qed

lemma keeps_sum_io: "(\<And>x. keeps I (f x)) \<Longrightarrow> keeps I (sum_io f xs)"
  by (induction xs) (auto intro!: keeping simp del: ret_apply)

lemma keeps_recover_stale:
  "keeps (\<lambda>d. only_stale_removed dead cur old (dk_files d)) (recover_stale_temporary_files dead listing cur age)"
proof -
  have "keeps (\<lambda>d. only_stale_removed dead cur old (dk_files d)) (check_op msg)" for msg
    using files_check [of "only_stale_removed dead cur old" msg] by (simp add: keeps_contract files_contract_def)
  then show ?thesis unfolding recover_stale_temporary_files_def
    by (intro keeping keeps_sum_io keeps_recover_orphan keeps_recover_temporary)
qed

text \<open>
  Recovery removes only what a dead process left.  Whatever fails and wherever the process ends,
  every file that the recovery of stale temporary files changes is removed, is a temporary file or its
  metadata, and its metadata names an owner that has ended and is another process; in particular no
  destination and no temporary file of a live writer is touched.
\<close>

theorem recovery_removes_only_stale:
  assumes "recover_stale_temporary_files owner_is_dead listing current_pid minimum_age d = (r, d')"
    and "dk_files d' q \<noteq> dk_files d q"
  shows "dk_files d' q = None \<and> stale_name owner_is_dead current_pid (dk_files d) q"
proof -
  have "only_stale_removed owner_is_dead current_pid (dk_files d) (dk_files d)" by (simp add: only_stale_removed_def)
  from keepsD [OF keeps_recover_stale this assms(1)] assms(2) show ?thesis
    by (auto simp: only_stale_removed_def)
qed

text \<open>A destination, a dead writer's leftovers, and a live writer's.\<close>

definition demo_leftovers :: disk where
  "demo_leftovers =
     \<lparr>dk_files = [''s'' \<mapsto> ([1], True), ''s.tmp.9.5'' \<mapsto> ([7], False), ''s.tmp.9.5.owner'' \<mapsto> (owner_text 9 5, True),
        ''s.tmp.8.6'' \<mapsto> ([7], False), ''s.tmp.8.6.owner'' \<mapsto> (owner_text 8 6, True)],
      dk_outcomes = [], dk_random = [], dk_counter = 0\<rparr>"

definition demo_listing :: "dir_entry list" where
  "demo_listing = map (\<lambda>n. \<lparr>de_name = n, de_is_file = True, de_age = 500\<rparr>)
     [''s'', ''s.tmp.9.5'', ''s.tmp.9.5.owner'', ''s.tmp.8.6'', ''s.tmp.8.6.owner'']"

lemma demo_recovery:
  "case recover_stale_temporary_files (\<lambda>pid. pid = 9) demo_listing 7 300 demo_leftovers of (r, d) \<Rightarrow>
     r = Ok 1 \<and> dk_files d ''s.tmp.9.5'' = None \<and> dk_files d ''s.tmp.9.5.owner'' = None
     \<and> dk_files d ''s.tmp.8.6'' \<noteq> None \<and> dk_files d ''s'' \<noteq> None"
  by code_simp

theorem recovery_removes_only_stale_witness:
  "stale_name (\<lambda>pid. pid = 9) 7 (dk_files demo_leftovers) ''s.tmp.9.5''"
proof -
  obtain r d where w: "recover_stale_temporary_files (\<lambda>pid. pid = 9) demo_listing 7 300 demo_leftovers = (r, d)"
    by (rule prod.exhaust)
  then have "dk_files d ''s.tmp.9.5'' \<noteq> dk_files demo_leftovers ''s.tmp.9.5''"
    using demo_recovery by (simp add: demo_leftovers_def)
  from recovery_removes_only_stale [OF w this] show ?thesis by blast
qed

end
