(* ===== verification/FileStore.thy ===== *)
theory FileStore
  imports AtomicFile State Config
begin

text \<open>
  \<open>spotter-svc/src/state_io.rs\<close> and \<open>config_io.rs\<close>: the signed service state, its key and the settings,
  each in one atomically written file.  TOML, the signature's message and its tag are parameters;
  reading bytes that are not UTF-8 counts as a parse error.  A poisoned mutation lock (a panic under
  the lock) is not modelled.
\<close>

section \<open>Contract of an atomic store\<close>

text \<open>
  A store of one value: a write that succeeds stores its bytes; one that fails leaves the old bytes or
  the new ones, or, if the store is lossy, may lose what it held.
\<close>

locale atomic_store =
  fixes put :: "u8 list \<Rightarrow> ('w, 'e, unit) effect"
    and get :: "'w \<Rightarrow> u8 list option"
    and lossy :: bool
  assumes put_Ok: "put b w = (Ok (), w') \<Longrightarrow> get w' = Some b"
    and put_Err: "put b w = (Err e, w') \<Longrightarrow>
      get w' = get w \<or> get w' = Some b \<or> (lossy \<and> get w \<noteq> None \<and> get w' = None)"
begin

lemma put_old_or_new:
  "put b w = (r, w') \<Longrightarrow> get w' = get w \<or> get w' = Some b \<or> (lossy \<and> get w \<noteq> None \<and> get w' = None)"
  by (cases r) (auto dest: put_Ok put_Err)

text \<open>After any run of writes, however each of them ends, the store holds a whole value.\<close>

lemma puts_whole:
  "\<not> lossy \<Longrightarrow> get (fold (\<lambda>b w. snd (put b w)) bs w) \<in> insert (get w) (Some ` set bs)"
proof (induction bs arbitrary: w)
  case (Cons b bs)
  obtain r w' where p: "put b w = (r, w')" by (rule prod.exhaust)
  then have "get w' = get w \<or> get w' = Some b" using put_old_or_new [OF p] Cons.prems by blast
  with Cons.IH [OF Cons.prems, of w'] p show ?case by auto
qed simp

text \<open>A value read back through a decoder is the value written or the value that was there.\<close>

lemma put_decoded:
  assumes "put b w = (r, w')" "decode b = Some x" "get w' = Some c" "decode c = Some y"
  shows "y = x \<or> (get w = Some c \<and> r \<noteq> Ok ())"
  using put_old_or_new [OF assms(1)] put_Ok [of b w w'] assms by (cases r) auto

end

definition content_of :: "string \<Rightarrow> disk \<Rightarrow> u8 list option" where
  "content_of path d = map_option fst (dk_files d path)"

lemma atomic_write_cases:
  assumes "atomic_write windows pid path bytes d = (r, d')"
  shows "if r = Ok () then dk_files d' path = Some (bytes, True)
    else dk_files d' path = dk_files d path \<or> dk_files d' path = Some (bytes, True)
      \<or> (windows \<and> dk_files d path \<noteq> None \<and> dk_files d' path = None)"
proof -
  have start: "intact (dk_files d) path (dk_files d)" by (simp add: intact_def)
  note c = files_atomic_write [of "dk_files d" path windows pid bytes, unfolded files_contract_def]
  show ?thesis using contract_Ok [OF c start] contract_Err [OF c start] assms
    by (cases r) (auto simp: installed_def old_or_new_def)
qed

interpretation disk_file: atomic_store "atomic_write windows pid path" "content_of path" windows for windows pid path
  by unfold_locales (auto simp: content_of_def dest!: atomic_write_cases)

section \<open>The service state\<close>

record state_format =
  sf_to_vec :: "signable_state \<Rightarrow> u8 list option"
  sf_hmac :: "u8 list \<Rightarrow> u8 list \<Rightarrow> u8 list option"
  sf_print :: "service_state \<Rightarrow> u8 list option"
  sf_parse :: "u8 list \<Rightarrow> service_state option"

definition read_file :: "string \<Rightarrow> u8 list disk_io" where
  "read_file path d =
     (case dk_files d path of
        None \<Rightarrow> (Err (Stopped ''failed to read''), d)
      | Some (bytes, _) \<Rightarrow> bind_io (check_op ''failed to read'') (\<lambda>_. ret bytes) d)"

definition load_or_create_key :: "bool \<Rightarrow> u32 \<Rightarrow> string \<Rightarrow> u8 list \<Rightarrow> u8 list disk_io" where
  "load_or_create_key windows pid path random d =
     (if dk_files d path \<noteq> None
      then bind_io (read_file path) (\<lambda>key.
             if length key \<noteq> 32 then fail (Stopped ''state HMAC key has invalid length'') else ret key) d
      else bind_io (check_op ''failed to create the key directory'') (\<lambda>_.
           bind_io (check_op ''failed to generate state HMAC key'') (\<lambda>_.
           bind_io (atomic_write windows pid path random) (\<lambda>_. ret random))) d)"

definition load_state :: "state_format \<Rightarrow> string \<Rightarrow> u8 list \<Rightarrow> service_state disk_io" where
  "load_state sf path key d =
     (if dk_files d path = None then (Ok default_state, d)
      else
        bind_io (read_file path) (\<lambda>bytes.
        case sf_parse sf bytes of
          None \<Rightarrow> fail (Stopped ''invalid state'')
        | Some s \<Rightarrow>
            (case verify (sf_to_vec sf) (sf_hmac sf) s key of
               Err _ \<Rightarrow> fail (Stopped ''invalid state authentication'')
             | Ok authentic \<Rightarrow>
                 if authentic then ret s else fail (Stopped ''service state authentication failed''))) d)"

definition save_state :: "bool \<Rightarrow> u32 \<Rightarrow> state_format \<Rightarrow> string \<Rightarrow> service_state \<Rightarrow> u8 list \<Rightarrow> service_state disk_io" where
  "save_state windows pid sf path s key =
     (case sign (sf_to_vec sf) (sf_hmac sf) s key of
        Err _ \<Rightarrow> fail (Stopped ''failed to sign the state'')
      | Ok tagged \<Rightarrow>
          (case sf_print sf tagged of
             None \<Rightarrow> fail (Stopped ''failed to serialize the state'')
           | Some bytes \<Rightarrow> bind_io (atomic_write windows pid path bytes) (\<lambda>_. ret tagged)))"

section \<open>The settings\<close>

record settings_format =
  tf_print :: "settings \<Rightarrow> u8 list option"
  tf_parse :: "u8 list \<Rightarrow> (settings, nat option) result"

definition blank_settings_toml :: "u8 list" where
  "blank_settings_toml = map (\<lambda>c. of_nat (byte c)) (concat (map (\<lambda>line. line @ [char_of (10 :: nat)])
     [''[snipeit]'', ''url = \"\"'', ''api_token_encrypted = \"\"'', ''checkout_status_id = 0'',
      ''checkin_status_id = 0'', [], ''[polling]'', ''interval_hours = 4'', [], ''[logging]'', ''level = \"info\"'',
      ''max_size_mb = 10'', ''max_files = 5'', [], ''[monitors]'', ''checkin_policy = \"manual\"'',
      ''checkin_threshold_hours = 24'']))"

definition load_settings :: "bool \<Rightarrow> u32 \<Rightarrow> settings_format \<Rightarrow> string \<Rightarrow> settings disk_io" where
  "load_settings windows pid tf path =
     bind_io (\<lambda>d. if dk_files d path = None then atomic_write windows pid path blank_settings_toml d else (Ok (), d)) (\<lambda>_.
     bind_io (read_file path) (\<lambda>bytes.
     case tf_parse tf bytes of
       Err span \<Rightarrow> fail (Stopped (''invalid settings schema at '' @
         (case span of None \<Rightarrow> ''unknown location'' | Some n \<Rightarrow> ''byte '' @ dec_nat n)))
     | Ok s \<Rightarrow> if validate_settings s \<noteq> Ok () then fail (Stopped ''invalid settings values'') else ret s))"

definition save_settings :: "bool \<Rightarrow> u32 \<Rightarrow> settings_format \<Rightarrow> string \<Rightarrow> settings \<Rightarrow> unit disk_io" where
  "save_settings windows pid tf path s =
     (if validate_settings s \<noteq> Ok () then fail (Stopped ''invalid settings values'')
      else
        case tf_print tf s of
          None \<Rightarrow> fail (Stopped ''failed to serialize settings'')
        | Some bytes \<Rightarrow> atomic_write windows pid path bytes)"

definition censored_display :: "settings \<Rightarrow> (string \<times> string) list" where
  "censored_display s =
     [(''snipeit.url'', url (s_snipeit s)),
      (''snipeit.api_token_encrypted'', if api_token_encrypted (s_snipeit s) = [] then ''<not set>'' else ''<configured>''),
      (''polling.interval_hours'', dec (interval_hours (s_polling s)))]"

section \<open>What the stores promise\<close>

lemma read_file_eq:
  "read_file path d = (case dk_files d path of None \<Rightarrow> (Err (Stopped ''failed to read''), d)
     | Some (bytes, _) \<Rightarrow> (case next_outcome d of
         (Done, d') \<Rightarrow> (Ok bytes, d')
       | (Refused _, d') \<Rightarrow> (Err (Stopped ''failed to read''), d')
       | (Ended _, d') \<Rightarrow> (Err Crashed, d')))"
  by (auto simp: read_file_def check_op_def file_op_def bind_io_def split: option.splits prod.splits op_outcome.splits)

lemma quiet [simp]: "dk_outcomes d = [] \<Longrightarrow> next_outcome d = (Done, d)"
  by (simp add: next_outcome_def)

lemma read_file_quiet [simp]:
  "dk_outcomes d = [] \<Longrightarrow> dk_files d path = Some (bytes, fl) \<Longrightarrow> read_file path d = (Ok bytes, d)"
  by (simp add: read_file_eq)

lemma read_file_Ok: "read_file path d = (Ok bytes, d') \<Longrightarrow> \<exists>fl. dk_files d path = Some (bytes, fl)"
  by (auto simp: read_file_eq split: option.splits prod.splits op_outcome.splits)

lemma signed_verifies: "sign to_vec mac s key = Ok s' \<Longrightarrow> verify to_vec mac s' key = Ok True \<and> signable s' = signable s"
  by (auto simp: sign_def and_then_eq_Ok validate_key_def canonical_bytes_def ok_or_def verify_true_iff signable_def
      encode_hex_lower split: option.splits if_splits)

lemma load_same:
  assumes "dk_files d path = dk_files d' path" "dk_outcomes d = []" "dk_outcomes d' = []"
  shows "fst (load_state sf path key d) = fst (load_state sf path key d')"
  using assms
  by (auto simp: load_state_def bind_io_def read_file_eq split: option.splits result.splits prod.splits)

lemma load_signed:
  assumes "sign (sf_to_vec sf) (sf_hmac sf) s key = Ok s'" "sf_print sf s' = Some bytes" "sf_parse sf bytes = Some s'"
    and "dk_files d path = Some (bytes, fl)" "dk_outcomes d = []"
  shows "load_state sf path key d = (Ok s', d)"
  using assms signed_verifies [OF assms(1)] by (simp add: load_state_def bind_io_def)

text \<open>
  C29: what a save leaves is what the next load answers.  If a save answers success, the next load under
  the same key (with no failing read) answers exactly the signed state, whose fields are those saved.
  If a save answers an error or the process ends in it, the next load answers what it would have
  answered before, or the new signed state; on Windows there is a third outcome, a replacement that
  lost the file, and then the next load answers the default state, as on a first start.  The
  hypotheses are that TOML reads back what it prints.
\<close>

theorem saved_state_reloads:
  assumes "\<And>t bytes. sf_print sf t = Some bytes \<Longrightarrow> sf_parse sf bytes = Some t"
    and "save_state windows pid sf path s key d = (r, d')" and "dk_outcomes d' = []"
  shows "(if r = Ok s' then load_state sf path key d' = (Ok s', d') \<and> signable s' = signable s else True)
    \<and> (fst (load_state sf path key d') = fst (load_state sf path key (d\<lparr>dk_outcomes := []\<rparr>))
       \<or> (\<exists>s'. sign (sf_to_vec sf) (sf_hmac sf) s key = Ok s' \<and> load_state sf path key d' = (Ok s', d'))
       \<or> windows \<and> \<not> is_ok r \<and> dk_files d path \<noteq> None \<and> dk_files d' path = None
           \<and> load_state sf path key d' = (Ok default_state, d'))"
proof (cases "sign (sf_to_vec sf) (sf_hmac sf) s key")
  case (Err e)
  with assms(2) have "d' = d" "r \<noteq> Ok s'" by (auto simp: save_state_def)
  then show ?thesis using assms(3) by (simp add: load_same [of d path "d\<lparr>dk_outcomes := []\<rparr>"])
next
  case sg: (Ok tagged)
  show ?thesis
  proof (cases "sf_print sf tagged")
    case None
    with sg assms(2) have "d' = d" "r \<noteq> Ok s'" by (auto simp: save_state_def)
    then show ?thesis using assms(3) by (simp add: load_same [of d path "d\<lparr>dk_outcomes := []\<rparr>"])
  next
    case (Some bytes)
    obtain q where w: "atomic_write windows pid path bytes d = (q, d')" and r: "r = map_ok (\<lambda>_. tagged) q"
      using assms(2) sg Some by (auto simp: save_state_def bind_io_def split: prod.splits result.splits)
    note c = atomic_write_cases [OF w]
    have new: "load_state sf path key d' = (Ok tagged, d')" if "dk_files d' path = Some (bytes, True)"
      using load_signed [OF sg Some assms(1) [OF Some] that assms(3)] .
    have same: "fst (load_state sf path key d') = fst (load_state sf path key (d\<lparr>dk_outcomes := []\<rparr>))"
      if "dk_files d' path = dk_files d path"
      using load_same [of d' path "d\<lparr>dk_outcomes := []\<rparr>"] that assms(3) by simp
    have "load_state sf path key d' = (Ok s', d') \<and> signable s' = signable s" if "r = Ok s'"
    proof -
      from that r obtain u where "q = Ok u" "s' = tagged" by (auto simp: map_ok_eq_Ok)
      with new c signed_verifies [OF sg] show ?thesis by simp
    qed
    moreover have "load_state sf path key d' = (Ok default_state, d')" if "dk_files d' path = None"
      using that by (simp add: load_state_def)
    moreover have "\<not> is_ok r" if "q \<noteq> Ok ()" using that r by (cases q) auto
    ultimately show ?thesis using new same c sg by (auto split: if_splits)
  qed
qed

text \<open>
  No unauthenticated state is ever loaded: a load that answers a state found no file, and answers
  the default state, or found a file whose bytes decode to that state and whose signature verifies
  under the key.
\<close>

theorem loaded_state_is_authentic:
  assumes "load_state sf path key d = (Ok s, d')"
  shows "(dk_files d path = None \<and> s = default_state)
    \<or> (\<exists>bytes fl. dk_files d path = Some (bytes, fl) \<and> sf_parse sf bytes = Some s
          \<and> verify (sf_to_vec sf) (sf_hmac sf) s key = Ok True)"
proof (cases "dk_files d path = None")
  case True
  with assms show ?thesis by (simp add: load_state_def)
next
  case False
  then obtain bytes d1 where read: "read_file path d = (Ok bytes, d1)"
    and rest: "(case sf_parse sf bytes of
          None \<Rightarrow> fail (Stopped ''invalid state'')
        | Some s \<Rightarrow>
            (case verify (sf_to_vec sf) (sf_hmac sf) s key of
               Err _ \<Rightarrow> fail (Stopped ''invalid state authentication'')
             | Ok authentic \<Rightarrow>
                 if authentic then ret s else fail (Stopped ''service state authentication failed''))) d1 = (Ok s, d')"
    using assms by (auto simp: load_state_def bind_io_eq_Ok simp del: split_paired_Ex)
  from rest have "sf_parse sf bytes = Some s" "verify (sf_to_vec sf) (sf_hmac sf) s key = Ok True"
    by (auto split: option.splits result.splits if_splits)
  with read_file_Ok [OF read] show ?thesis by blast
qed

text \<open>
  Settings in use are valid.  A load answers only settings that validate, whatever the file holds;
  on an absent file it installs the blank template first.  A save refuses invalid settings before it
  touches the disk, and a save that succeeds is what the next load answers.  The hypotheses are that
  TOML reads back what it prints.
\<close>

theorem settings_store_valid:
  assumes "\<And>t bytes. tf_print tf t = Some bytes \<Longrightarrow> tf_parse tf bytes = Ok t"
    and "save_settings windows pid tf path s d = (r, d')" and "dk_outcomes d' = []"
    and "load_settings windows pid tf path e = (Ok s2, e')"
  shows "validate_settings s2 = Ok ()
    \<and> (if validate_settings s \<noteq> Ok () then d' = d \<and> r \<noteq> Ok () else True)
    \<and> (if r = Ok () then load_settings windows pid tf path d' = (Ok s, d') else True)"
proof (intro conjI)
  obtain bytes w1 where "(case tf_parse tf bytes of
       Err span \<Rightarrow> fail (Stopped (''invalid settings schema at '' @
         (case span of None \<Rightarrow> ''unknown location'' | Some n \<Rightarrow> ''byte '' @ dec_nat n)))
     | Ok s \<Rightarrow> if validate_settings s \<noteq> Ok () then fail (Stopped ''invalid settings values'') else ret s) w1 = (Ok s2, e')"
    using assms(4) by (auto simp: load_settings_def bind_io_eq_Ok)
  then show "validate_settings s2 = Ok ()"
    by (cases "tf_parse tf bytes") (auto split: if_splits)
  show "if validate_settings s \<noteq> Ok () then d' = d \<and> r \<noteq> Ok () else True"
    using assms(2) by (auto simp: save_settings_def)
  show "if r = Ok () then load_settings windows pid tf path d' = (Ok s, d') else True"
  proof (cases "r = Ok ()")
    case True
    with assms(2) obtain bytes where v: "validate_settings s = Ok ()" "tf_print tf s = Some bytes"
        "atomic_write windows pid path bytes d = (Ok (), d')"
      by (auto simp: save_settings_def split: if_splits option.splits)
    with atomic_write_cases [OF v(3)] True assms(1) [OF v(2)] assms(3) show ?thesis
      by (simp add: load_settings_def bind_io_def)
  qed simp
qed

section \<open>Witnesses\<close>

text \<open>A format that prints the default state and settings as one byte each.\<close>

definition demo_state_format :: state_format where
  "demo_state_format =
     \<lparr>sf_to_vec = demo_vec, sf_hmac = demo_mac,
      sf_print = (\<lambda>s. if s = default_state\<lparr>hmac := ''0507''\<rparr> then Some [3] else None),
      sf_parse = (\<lambda>b. if b = [3] then Some (default_state\<lparr>hmac := ''0507''\<rparr>) else None)\<rparr>"

definition demo_settings_format :: settings_format where
  "demo_settings_format =
     \<lparr>tf_print = (\<lambda>s. if s = default_settings then Some [3] else None),
      tf_parse = (\<lambda>b. if b = [3] then Ok default_settings else Err None)\<rparr>"

lemma demo_sign: "sign demo_vec demo_mac default_state [5] = Ok (default_state\<lparr>hmac := ''0507''\<rparr>)"
  by code_simp

lemma demo_write:
  "case atomic_write False 7 ''s'' [3] (demo_disk []) of (r, d) \<Rightarrow> r = Ok () \<and> dk_outcomes d = []"
  by code_simp

text \<open>A save that succeeds, and one on Windows that loses the file.\<close>

lemma demo_lost_write:
  "case atomic_write True 7 ''s'' [3] (demo_disk (replicate 11 Done @ [Refused 1, Done, Done])) of (r, d) \<Rightarrow>
     r \<noteq> Ok () \<and> dk_outcomes d = [] \<and> dk_files d ''s'' = None"
  by code_simp

theorem saved_state_reloads_witness:
  "(case save_state False 7 demo_state_format ''s'' default_state [5] (demo_disk []) of (r, d) \<Rightarrow>
      load_state demo_state_format ''s'' [5] d = (Ok (default_state\<lparr>hmac := ''0507''\<rparr>), d))
   \<and> (case save_state True 7 demo_state_format ''s'' default_state [5] (demo_disk (replicate 11 Done @ [Refused 1, Done, Done])) of
        (r, d) \<Rightarrow> \<not> is_ok r \<and> load_state demo_state_format ''s'' [5] d = (Ok default_state, d))"
proof -
  let ?lost = "demo_disk (replicate 11 Done @ [Refused 1, Done, Done])"
  have p: "sf_parse demo_state_format bytes = Some t" if "sf_print demo_state_format t = Some bytes" for t bytes
    using that by (auto simp: demo_state_format_def split: if_splits)
  have f: "sf_to_vec demo_state_format = demo_vec" "sf_hmac demo_state_format = demo_mac"
      "sf_print demo_state_format (default_state\<lparr>hmac := ''0507''\<rparr>) = Some [3]" by (simp_all add: demo_state_format_def)
  have save: "save_state windows 7 demo_state_format ''s'' default_state [5] d
      = bind_io (atomic_write windows 7 ''s'' [3]) (\<lambda>_. ret (default_state\<lparr>hmac := ''0507''\<rparr>)) d" for windows d
    using demo_sign by (simp add: save_state_def f)
  obtain r d where w: "atomic_write False 7 ''s'' [3] (demo_disk []) = (r, d)" by (rule prod.exhaust)
  with demo_write have d: "r = Ok ()" "dk_outcomes d = []" by auto
  have s: "save_state False 7 demo_state_format ''s'' default_state [5] (demo_disk [])
      = (Ok (default_state\<lparr>hmac := ''0507''\<rparr>), d)"
    using w d by (simp add: save bind_io_def)
  obtain q e where v: "atomic_write True 7 ''s'' [3] ?lost = (q, e)" by (rule prod.exhaust)
  with demo_lost_write have e: "q \<noteq> Ok ()" "dk_outcomes e = []" "dk_files e ''s'' = None" by auto
  then obtain x where x: "q = Err x" by (cases q) auto
  have l: "save_state True 7 demo_state_format ''s'' default_state [5] ?lost = (Err x, e)"
    using v x by (simp add: save bind_io_def)
  have gone: "load_state demo_state_format ''s'' [5] e = (Ok default_state, e)" using e(3) by (simp add: load_state_def)
  show ?thesis
    using saved_state_reloads [OF p s d(2), THEN conjunct1, of "default_state\<lparr>hmac := ''0507''\<rparr>"]
      saved_state_reloads [OF p l e(2), THEN conjunct2] gone s l by auto
qed

theorem settings_store_valid_witness:
  "\<exists>d'. load_settings False 7 demo_settings_format ''s'' d' = (Ok default_settings, d')"
proof -
  obtain r d where w: "atomic_write False 7 ''s'' [3] (demo_disk []) = (r, d)" by (rule prod.exhaust)
  with demo_write have d: "r = Ok ()" "dk_outcomes d = []" by auto
  have v: "validate_settings default_settings = Ok ()" by code_simp
  have s: "save_settings False 7 demo_settings_format ''s'' default_settings (demo_disk []) = (Ok (), d)"
    using w d v by (simp add: save_settings_def demo_settings_format_def)
  have p: "tf_parse demo_settings_format bytes = Ok t" if "tf_print demo_settings_format t = Some bytes" for t bytes
    using that by (auto simp: demo_settings_format_def split: if_splits)
  have "dk_files d ''s'' = Some ([3], True)" using atomic_write_cases [OF w] d by simp
  then have l: "load_settings False 7 demo_settings_format ''s'' d = (Ok default_settings, d)"
    using d v by (simp add: load_settings_def bind_io_def demo_settings_format_def)
  show ?thesis using settings_store_valid [OF p s d(2) l] by auto
qed

theorem loaded_state_is_authentic_witness:
  "verify demo_vec demo_mac (default_state\<lparr>hmac := ''0507''\<rparr>) [5] = Ok True"
proof -
  let ?d = "\<lparr>dk_files = [''s'' \<mapsto> ([3], True)], dk_outcomes = [], dk_random = [], dk_counter = 0\<rparr>"
  have "load_state demo_state_format ''s'' [5] ?d = (Ok (default_state\<lparr>hmac := ''0507''\<rparr>), ?d)"
    using signed_verifies [OF demo_sign] by (simp add: load_state_def bind_io_def demo_state_format_def)
  from loaded_state_is_authentic [OF this] show ?thesis by (simp add: demo_state_format_def)
qed

end
