(* ===== verification/Owner.thy ===== *)
theory Owner
  imports ReplayJournal Gather Lifecycle
begin

text \<open>
  \<open>spotter-svc/src/service.rs\<close>: the owner of the service's state.  It handles one command at a time;
  its fields are explicit, and everything it reaches through its ports (protector, stores, remote,
  discovery, clock, journal) is an effect on a world that may fail.  The remote object is a value
  that the factory builds and the ports interpret.
\<close>

section \<open>Ports and state\<close>

record ('w, 'r) owner_ports =
  op_encrypt :: "u8 list \<Rightarrow> ('w, u8 list) io"
  op_decrypt :: "u8 list \<Rightarrow> ('w, string) io"
  op_save_settings :: "settings \<Rightarrow> ('w, unit) io"
  op_save_state :: "service_state \<Rightarrow> ('w, service_state) io"
  op_build :: "settings \<Rightarrow> ('w, 'r) io"
  op_engine :: "'r \<Rightarrow> 'w engine_env"
  op_reads :: "'r \<Rightarrow> 'w remote_reads"
  op_discover :: "('w, system_info \<times> monitor_info list) io"
  op_now :: "'w \<Rightarrow> int \<times> 'w"
  op_rfc3339 :: "int \<Rightarrow> string"
  op_hours :: "int \<Rightarrow> int option"
  op_guard :: "settings \<Rightarrow> settings \<Rightarrow> ('w, unit) io"
  op_load :: "('w, journal_record list) io"
  op_codec :: codec

record 'r owner =
  ow_settings :: settings
  ow_state :: fsm_state
  ow_persisted :: service_state
  ow_remote :: 'r
  ow_publisher :: "status_publisher option"
  ow_polling :: u64

text \<open>An operation of the owner: an effect on the owner and the world.\<close>

type_synonym ('w, 'r, 'a) owner_io = "('r owner \<times> 'w, failure, 'a) effect"

definition the_owner :: "('w, 'r, 'r owner) owner_io" where
  "the_owner = (\<lambda>(ow, w). (Ok ow, (ow, w)))"

definition update :: "('r owner \<Rightarrow> 'r owner) \<Rightarrow> ('w, 'r, unit) owner_io" where
  "update f = (\<lambda>(ow, w). (Ok (), (f ow, w)))"

definition outside :: "('w, 'a) io \<Rightarrow> ('w, 'r, 'a) owner_io" where
  "outside m = (\<lambda>(ow, w). case m w of (r, w') \<Rightarrow> (r, (ow, w')))"

text \<open>A result inspected with \<open>match\<close>, and an error wrapped with \<open>map_err\<close>.\<close>

definition attempt :: "('s, 'e, 'a) effect \<Rightarrow> ('s, 'e, ('a, 'e) result) effect" where
  "attempt m = (\<lambda>s. case m s of (r, s') \<Rightarrow> (Ok r, s'))"

section \<open>Errors\<close>

fun failure_text :: "failure \<Rightarrow> string" where
  "failure_text (Message m) = m"
| "failure_text (Remote e) = snipeit_error_text e"
| "failure_text (Context c _) = c"
| "failure_text (SavedCandidate f) = ''state candidate saved but journal commit failed: '' @ failure_text f"

definition protocol_error :: "failure \<Rightarrow> ipc_response" where
  "protocol_error e = ErrorResponse (failure_text e)"

text \<open>The first Snipe-IT error of the chain of causes; the source of a saved candidate is its root cause.\<close>

fun chain_snipeit :: "failure \<Rightarrow> snipeit_error option" where
  "chain_snipeit (Message _) = None"
| "chain_snipeit (Remote e) = Some e"
| "chain_snipeit (Context _ f) = chain_snipeit f"
| "chain_snipeit (SavedCandidate f) = chain_snipeit f"

definition state_after_sync_error :: "failure \<Rightarrow> fsm_state" where
  "state_after_sync_error error =
     (case chain_snipeit error of
        Some AuthFailure \<Rightarrow> Unconfigured
      | Some PermissionDenied \<Rightarrow> Unconfigured
      | _ \<Rightarrow> ErrorState)"

fun is_saved_candidate :: "failure \<Rightarrow> bool" where
  "is_saved_candidate (SavedCandidate _) = True"
| "is_saved_candidate (Context _ f) = is_saved_candidate f"
| "is_saved_candidate _ = False"

section \<open>Publication\<close>

definition published_state :: "fsm_state \<Rightarrow> string" where
  "published_state st = (case st of
     Bootstrap \<Rightarrow> ''Starting'' | LoadConfig \<Rightarrow> ''Starting'' | Decrypt \<Rightarrow> ''Starting'' | ValidateConfig \<Rightarrow> ''Starting''
   | Unconfigured \<Rightarrow> ''Unconfigured'' | Idle \<Rightarrow> ''Idle'' | Syncing \<Rightarrow> ''Syncing'' | ErrorState \<Rightarrow> ''Error'')"

definition publish_snapshot :: "('w, 'r) owner_ports \<Rightarrow> ('w, 'r, unit) owner_io" where
  "publish_snapshot ports = update (\<lambda>ow. ow\<lparr>ow_publisher := map_option (\<lambda>p.
     publish (op_rfc3339 ports) p (published_state (ow_state ow)) (url (s_snipeit (ow_settings ow)))
       (ow_state ow \<noteq> Unconfigured) (ow_persisted ow)) (ow_publisher ow)\<rparr>)"

definition activate_scheduler :: "('w, 'r, unit) owner_io" where
  "activate_scheduler = update (\<lambda>ow. ow\<lparr>ow_publisher := map_option (\<lambda>p.
     activate_configuration p (ow_state ow \<noteq> Unconfigured)
       (unat (interval_hours (s_polling (ow_settings ow)) * 3600))) (ow_publisher ow)\<rparr>)"

definition set_fsm :: "fsm_state \<Rightarrow> ('w, 'r, unit) owner_io" where
  "set_fsm st = update (\<lambda>ow. ow\<lparr>ow_state := st\<rparr>)"

definition set_persisted :: "service_state \<Rightarrow> ('w, 'r, unit) owner_io" where
  "set_persisted st = update (\<lambda>ow. ow\<lparr>ow_persisted := st\<rparr>)"

definition configured_state :: "settings \<Rightarrow> fsm_state" where
  "configured_state s = (if config_status s = [] then Idle else Unconfigured)"

definition refresh_configuration_state :: "('w, 'r, unit) owner_io" where
  "refresh_configuration_state = update (\<lambda>ow. ow\<lparr>ow_state := configured_state (ow_settings ow)\<rparr>)"

text \<open>The save of a candidate of the persisted state and its activation in memory.\<close>

definition save_and_activate :: "('w, 'r) owner_ports \<Rightarrow> service_state \<Rightarrow> ('w, 'r, unit) owner_io" where
  "save_and_activate ports candidate = bind_io (outside (op_save_state ports candidate)) set_persisted"

section \<open>Recovery before new work\<close>

text \<open>Commit of the journal after a save: an error is a \<open>SavedCandidateError\<close>.\<close>

definition commit_saved :: "('w, 'r) owner_ports \<Rightarrow> 'r \<Rightarrow> string list \<Rightarrow> ('w, unit) io" where
  "commit_saved ports remote ids =
     map_error SavedCandidate (commit_after_state_save_with (op_engine ports remote) ids)"

definition recover_owner_state_with_finalization :: "('w, 'r) owner_ports \<Rightarrow> ('w, 'r, unit) owner_io" where
  "recover_owner_state_with_finalization ports =
     bind_io the_owner (\<lambda>ow.
     bind_io (outside (recover_pending (op_engine ports (ow_remote ow)) (op_codec ports))) (\<lambda>confirmed.
     if confirmed = [] then ret ()
     else
       bind_io (outside (op_load ports)) (\<lambda>records.
       bind_io (lift_io (apply_recovered_candidate_states (op_codec ports) (ow_persisted ow) records confirmed)) (\<lambda>candidate.
       bind_io (save_and_activate ports candidate) (\<lambda>_.
         outside (commit_saved ports (ow_remote ow) confirmed))))))"

definition recover_before_new_work :: "('w, 'r) owner_ports \<Rightarrow> ('w, 'r, unit) owner_io" where
  "recover_before_new_work ports =
     bind_io (recover_owner_state_with_finalization ports) (\<lambda>_. publish_snapshot ports)"

section \<open>Synchronization\<close>

definition decrypted_config :: "('w, 'r) owner_ports \<Rightarrow> ('w, 'r, string) owner_io" where
  "decrypted_config ports =
     bind_io the_owner (\<lambda>ow. outside (op_decrypt ports (api_token_encrypted (s_snipeit (ow_settings ow)))))"

text \<open>
  The save of a candidate, its activation and the commit of the journal, as the synchronization and
  the forced check-in end.
\<close>

definition save_and_commit :: "('w, 'r) owner_ports \<Rightarrow> service_state \<Rightarrow> string list \<Rightarrow> ('w, 'r, unit) owner_io" where
  "save_and_commit ports candidate confirmed =
     bind_io (save_and_activate ports candidate) (\<lambda>_.
     bind_io (publish_snapshot ports) (\<lambda>_.
     bind_io the_owner (\<lambda>ow. outside (commit_saved ports (ow_remote ow) confirmed))))"

definition sync_candidate :: "('w, 'r) owner_ports \<Rightarrow> service_state \<Rightarrow> sync_plan \<Rightarrow> asset option \<Rightarrow> int \<Rightarrow> service_state" where
  "sync_candidate ports persisted plan system_asset now =
     persisted\<lparr>last_sync_time := Some (op_rfc3339 ports now),
       last_sync_result := Some (if warnings plan = [] then Success else PartialSuccess (warnings plan)),
       matched_asset := map_option asset_summary_of system_asset,
       known_monitors := entries (next_monitor_state plan)\<rparr>"

definition planned_sync :: "('w, 'r) owner_ports \<Rightarrow> 'r owner \<Rightarrow> gathered_sync \<Rightarrow> int \<Rightarrow> sync_plan option" where
  "planned_sync ports ow gathered now =
     map_option (\<lambda>plan. plan\<lparr>warnings := warnings plan @ ga_warnings gathered\<rparr>)
       (plan_sync (op_hours ports) (ga_system gathered) (ga_system_taxonomy gathered) (ga_monitors gathered)
          (ga_system_asset gathered) \<lparr>entries = known_monitors (ow_persisted ow)\<rparr> (s_monitors (ow_settings ow))
          \<lparr>st_checkout = checkout_status_id (s_snipeit (ow_settings ow)),
           st_checkin = checkin_status_id (s_snipeit (ow_settings ow))\<rparr> now)"

text \<open>A value of \<open>None\<close> is a panic of the planner's time arithmetic, which unwinds the task.\<close>

definition run_sync :: "('w, 'r) owner_ports \<Rightarrow> int \<Rightarrow> ('w, 'r, string list option) owner_io" where
  "run_sync ports now =
     bind_io (decrypted_config ports) (\<lambda>_.
     bind_io the_owner (\<lambda>ow.
     bind_io (outside (gather_sync (op_discover ports) (op_reads ports (ow_remote ow)))) (\<lambda>gathered.
     case planned_sync ports ow gathered now of
       None \<Rightarrow> ret None
     | Some plan \<Rightarrow>
         let computer_asset_id = map_option as_id (ga_system_asset gathered);
             candidate = sync_candidate ports (ow_persisted ow) plan (ga_system_asset gathered) now in
         bind_io (outside (execute_plan_with_candidate (op_engine ports (ow_remote ow)) (op_codec ports) plan
           computer_asset_id (ow_persisted ow) candidate)) (\<lambda>outcome.
         bind_io (save_and_commit ports
             (candidate\<lparr>known_monitors := entries (ex_next_monitor_state outcome),
                matched_asset := ex_matched_asset outcome\<rparr>) (ex_confirmed outcome)) (\<lambda>_.
           ret (Some (ex_warnings outcome)))))))"

definition sync_message :: "string list \<Rightarrow> string" where
  "sync_message ws =
     (if ws = [] then ''synchronization completed''
      else ''synchronization completed with '' @ dec_nat (length ws) @ '' warning(s)'')"

text \<open>The record of a failed synchronization.\<close>

definition record_failure :: "('w, 'r) owner_ports \<Rightarrow> int \<Rightarrow> failure \<Rightarrow> ('w, 'r, 'a) owner_io" where
  "record_failure ports now error =
     bind_io (set_fsm (state_after_sync_error error)) (\<lambda>_.
     bind_io the_owner (\<lambda>ow.
     bind_io (attempt (save_and_activate ports ((ow_persisted ow)
         \<lparr>last_sync_time := Some (op_rfc3339 ports now), last_sync_result := Some (Failed (failure_text error))\<rparr>))) (\<lambda>saved.
       case saved of
         Ok _ \<Rightarrow> bind_io (publish_snapshot ports) (\<lambda>_. fail error)
       | Err save_error \<Rightarrow>
           fail (Context (''failed to persist synchronization failure: '' @ failure_text save_error) error))))"

definition trigger_sync :: "('w, 'r) owner_ports \<Rightarrow> ('w, 'r, ipc_response option) owner_io" where
  "trigger_sync ports =
     bind_io the_owner (\<lambda>ow.
     if config_status (ow_settings ow) \<noteq> [] then fail (Message ''service is not configured'')
     else
     bind_io (attempt (recover_before_new_work ports)) (\<lambda>recovered.
     case recovered of
       Err error \<Rightarrow>
         bind_io (set_fsm (state_after_sync_error error)) (\<lambda>_.
         bind_io (publish_snapshot ports) (\<lambda>_. fail error))
     | Ok _ \<Rightarrow>
         bind_io (set_fsm Syncing) (\<lambda>_.
         bind_io (publish_snapshot ports) (\<lambda>_.
         bind_io (outside (\<lambda>w. case op_now ports w of (t, w') \<Rightarrow> (Ok t, w'))) (\<lambda>now.
         bind_io (attempt (run_sync ports now)) (\<lambda>result.
         case result of
           Ok None \<Rightarrow> ret None
         | Ok (Some ws) \<Rightarrow>
             bind_io (set_fsm Idle) (\<lambda>_.
             bind_io (publish_snapshot ports) (\<lambda>_. ret (Some (OkResponse (sync_message ws)))))
         | Err error \<Rightarrow>
             if is_saved_candidate error then
               bind_io (set_fsm ErrorState) (\<lambda>_.
               bind_io (publish_snapshot ports) (\<lambda>_. fail error))
             else record_failure ports now error))))))"

section \<open>Forced check-in\<close>

definition check_requested :: "service_state \<Rightarrow> string \<Rightarrow> (unit, string) result" where
  "check_requested st serial =
     (case find (\<lambda>e. me_serial e = serial) (known_monitors st) of
        None \<Rightarrow> Err (''monitor '' @ serial @ '' is unknown'')
      | Some e \<Rightarrow>
          (case forced_checkin_ineligible e of
             Some Present \<Rightarrow> Err (''monitor '' @ serial @ '' is present and cannot be checked in'')
           | Some AlreadyCheckedIn \<Rightarrow> Err (''monitor '' @ serial @ '' is already checked in'')
           | Some Unmapped \<Rightarrow> Err (''monitor '' @ serial @ '' has no Snipe-IT asset mapping'')
           | None \<Rightarrow> Ok ()))"

text \<open>The loop over the known monitors: the operations and the entries of the answer.\<close>

fun forced_operations ::
  "u64 \<Rightarrow> string option \<Rightarrow> monitor_entry list \<Rightarrow> (monitor_checkin list \<times> checkin_entry list, snipeit_error) result" where
  "forced_operations status requested [] = Ok ([], [])"
| "forced_operations status requested (e # es) =
     (if (case requested of Some serial \<Rightarrow> serial \<noteq> me_serial e | None \<Rightarrow> False)
      then forced_operations status requested es
      else
        case nonzero (snipeit_asset_id e) of
          None \<Rightarrow> forced_operations status requested es
        | Some asset_id \<Rightarrow>
            if absent_since e = None \<or> \<not> checked_out e then forced_operations status requested es
            else
              and_then (build_monitor_checkin (''checkin:'' @ dec asset_id @ '':'' @ dec status) asset_id status) (\<lambda>op.
                map_ok (\<lambda>(ops, answers). (op # ops, \<lparr>ce_serial = me_serial e, ce_asset_id = asset_id\<rparr> # answers))
                  (forced_operations status requested es)))"

definition forced_plan :: "service_state \<Rightarrow> monitor_checkin list \<Rightarrow> checkin_entry list \<Rightarrow> sync_plan" where
  "forced_plan st ops answers =
     \<lparr>asset_update = None, monitor_checkouts = [], monitor_checkins = ops,
      next_monitor_state = apply_forced_checkin_serials \<lparr>entries = known_monitors st\<rparr> (map ce_serial answers),
      warnings = []\<rparr>"

definition force_checkin :: "('w, 'r) owner_ports \<Rightarrow> string option \<Rightarrow> ('w, 'r, ipc_response) owner_io" where
  "force_checkin ports requested =
     bind_io the_owner (\<lambda>ow.
     if config_status (ow_settings ow) \<noteq> [] then fail (Message ''service is not configured'')
     else
     bind_io (attempt (recover_before_new_work ports)) (\<lambda>recovered.
     case recovered of
       Err error \<Rightarrow> bind_io (set_fsm (state_after_sync_error error)) (\<lambda>_. fail error)
     | Ok _ \<Rightarrow>
     if (case requested of Some serial \<Rightarrow> trim serial = [] | None \<Rightarrow> False)
     then fail (Message ''monitor serial must not be empty'')
     else
     bind_io the_owner (\<lambda>ow.
     bind_io (lift_io (case requested of Some serial \<Rightarrow> check_requested (ow_persisted ow) serial | None \<Rightarrow> Ok ())) (\<lambda>_.
     bind_io (decrypted_config ports) (\<lambda>_.
     case forced_operations (checkin_status_id (s_snipeit (ow_settings ow))) requested (known_monitors (ow_persisted ow)) of
       Err e \<Rightarrow> fail (Remote e)
     | Ok (ops, answers) \<Rightarrow>
         if requested \<noteq> None \<and> ops = [] then fail (Message ''monitor is not eligible for check-in'')
         else if ops = [] then ret (CheckinResult answers)
         else
           let plan = forced_plan (ow_persisted ow) ops answers;
               candidate = (ow_persisted ow)\<lparr>known_monitors := entries (next_monitor_state plan)\<rparr> in
           bind_io (outside (execute_plan_with_candidate (op_engine ports (ow_remote ow)) (op_codec ports) plan None
             (ow_persisted ow) candidate)) (\<lambda>outcome.
           bind_io (save_and_commit ports
               (candidate\<lparr>known_monitors := entries (ex_next_monitor_state outcome)\<rparr>) (ex_confirmed outcome)) (\<lambda>_.
             ret (CheckinResult answers))))))))"

section \<open>Configuration\<close>

text \<open>Saving and activating settings: the remote is built first, the stores are written next.\<close>

definition build_if_configured :: "('w, 'r) owner_ports \<Rightarrow> settings \<Rightarrow> ('w, 'r, 'r option) owner_io" where
  "build_if_configured ports s =
     (if config_status s = [] then bind_io (outside (op_build ports s)) (\<lambda>remote. ret (Some remote)) else ret None)"

definition activate_settings :: "('w, 'r) owner_ports \<Rightarrow> settings \<Rightarrow> 'r option \<Rightarrow> ('w, 'r, unit) owner_io" where
  "activate_settings ports s remote =
     bind_io (update (\<lambda>ow. ow\<lparr>ow_settings := s,
       ow_remote := (case remote of Some r \<Rightarrow> r | None \<Rightarrow> ow_remote ow)\<rparr>)) (\<lambda>_.
     bind_io refresh_configuration_state (\<lambda>_.
     bind_io (publish_snapshot ports) (\<lambda>_. activate_scheduler)))"

definition set_config :: "('w, 'r) owner_ports \<Rightarrow> string \<Rightarrow> string \<Rightarrow> ('w, 'r, ipc_response) owner_io" where
  "set_config ports key val =
     bind_io the_owner (\<lambda>ow.
     bind_io (lift_io (validate_config_field key val)) (\<lambda>upd.
     let s = apply_settings_update (ow_settings ow) upd in
     if validate_settings s \<noteq> Ok () then fail (Message ''invalid settings values'')
     else
     bind_io (outside (op_guard ports (ow_settings ow) s)) (\<lambda>_.
     bind_io (build_if_configured ports s) (\<lambda>remote.
     bind_io (outside (op_save_settings ports s)) (\<lambda>_.
     bind_io (update (\<lambda>ow. ow\<lparr>ow_polling := interval_hours (s_polling s)\<rparr>)) (\<lambda>_.
     bind_io (activate_settings ports s remote) (\<lambda>_.
       ret (OkResponse (''updated '' @ key)))))))))"

definition set_token :: "('w, 'r) owner_ports \<Rightarrow> u8 list \<Rightarrow> ('w, 'r, ipc_response) owner_io" where
  "set_token ports plaintext =
     (if plaintext = [] then fail (Message ''API token must not be empty'')
      else
      bind_io (map_error (Context ''failed to encrypt API token'') (outside (op_encrypt ports plaintext))) (\<lambda>encrypted.
      bind_io the_owner (\<lambda>ow.
      let s = (ow_settings ow)\<lparr>s_snipeit := (s_snipeit (ow_settings ow))\<lparr>api_token_encrypted := encrypted\<rparr>\<rparr> in
      bind_io (build_if_configured ports s) (\<lambda>remote.
      bind_io (outside (op_save_settings ports s)) (\<lambda>_.
      bind_io (activate_settings ports s remote) (\<lambda>_.
        ret (OkResponse ''API token updated'')))))))"

definition status_response :: "('w, 'r) owner_ports \<Rightarrow> 'r owner \<Rightarrow> bool \<Rightarrow> ipc_response" where
  "status_response ports ow full =
     service_status_projection (op_rfc3339 ports) (ow_state ow) (ow_settings ow) (ow_persisted ow) full"

section \<open>The command handler\<close>

text \<open>An answer of \<open>None\<close> is a panic of the handler.\<close>

definition answer :: "('w, 'r, ipc_response) owner_io \<Rightarrow> ('w, 'r, ipc_response option) owner_io" where
  "answer m = bind_io m (\<lambda>response. ret (Some response))"

fun run_command :: "('w, 'r) owner_ports \<Rightarrow> service_command \<Rightarrow> ('w, 'r, ipc_response option) owner_io" where
  "run_command ports GetConfig =
     bind_io the_owner (\<lambda>ow.
       ret (Some (ConfigResponse (redact_settings (ow_settings ow)) (config_status (ow_settings ow)))))"
| "run_command ports (SetConfig key val) = answer (set_config ports key val)"
| "run_command ports (SetToken val) = answer (set_token ports (map (\<lambda>c. of_nat (byte c)) val))"
| "run_command ports GetStatus = bind_io the_owner (\<lambda>ow. ret (Some (status_response ports ow False)))"
| "run_command ports GetStatusFull = bind_io the_owner (\<lambda>ow. ret (Some (status_response ports ow True)))"
| "run_command ports TriggerSync = trigger_sync ports"
| "run_command ports CheckinAll = answer (force_checkin ports None)"
| "run_command ports (CheckinSerial serial) = answer (force_checkin ports (Some serial))"

definition handle ::
  "('w, 'r) owner_ports \<Rightarrow> service_command \<Rightarrow> 'r owner \<times> 'w \<Rightarrow> ipc_response option \<times> 'r owner \<times> 'w" where
  "handle ports command s =
     (case run_command ports command s of
        (Ok None, s1) \<Rightarrow> (None, s1)
      | (Ok (Some response), s1) \<Rightarrow> (Some response, snd (publish_snapshot ports s1))
      | (Err e, s1) \<Rightarrow> (Some (protocol_error e), snd (publish_snapshot ports s1)))"

section \<open>Start-up\<close>

definition admit_journal_for_startup :: "'w engine_env \<Rightarrow> ('w, unit) io" where
  "admit_journal_for_startup env =
     bind_io (env_recover env) (\<lambda>outcome.
       case outcome of
         Clean _ \<Rightarrow> ret ()
       | _ \<Rightarrow> fail (Message ''operation journal recovery is not clean; service startup blocked''))"

definition recover_owner_state :: "('w, 'r) owner_ports \<Rightarrow> ('w, 'r, unit) owner_io" where
  "recover_owner_state ports =
     bind_io the_owner (\<lambda>ow.
     bind_io (outside (admit_journal_for_startup (op_engine ports (ow_remote ow)))) (\<lambda>_.
       recover_owner_state_with_finalization ports))"

text \<open>
  The construction of the owner: a configured service recovers its pending operations with a client
  of its own, and the owner gets another.  \<open>unavailable\<close> is the remote of an unconfigured service; the
  publisher is the one the owner is given, with the activation of the start-up published.
\<close>

definition assembled_owner :: "('w, 'r) owner_ports \<Rightarrow> settings \<Rightarrow> service_state \<Rightarrow> 'r \<Rightarrow> 'r owner" where
  "assembled_owner ports s persisted remote =
     \<lparr>ow_settings = s, ow_state = configured_state s, ow_persisted = persisted, ow_remote = remote,
      ow_publisher = Some (publish_startup_activation (op_rfc3339 ports) new_publisher (config_status s = [])
        (url (s_snipeit s)) (unat (interval_hours (s_polling s) * 3600)) persisted),
      ow_polling = interval_hours (s_polling s)\<rparr>"

definition recover_operations :: "('w, 'r) owner_ports \<Rightarrow> settings \<Rightarrow> service_state \<Rightarrow> ('w, service_state) io" where
  "recover_operations ports s persisted =
     bind_io (op_build ports s) (\<lambda>client w.
       case recover_owner_state ports (assembled_owner ports s persisted client, w) of
         (Err e, (_, w1)) \<Rightarrow> (Err e, w1)
       | (Ok _, (recovered, w1)) \<Rightarrow> (Ok (ow_persisted recovered), w1))"

definition start_owner :: "('w, 'r) owner_ports \<Rightarrow> settings \<Rightarrow> service_state \<Rightarrow> 'r \<Rightarrow> ('w, 'r owner) io" where
  "start_owner ports s persisted unavailable =
     (if config_status s \<noteq> [] then ret (assembled_owner ports s persisted unavailable)
      else
        bind_io (recover_operations ports s persisted) (\<lambda>recovered.
        bind_io (op_build ports s) (\<lambda>remote. ret (assembled_owner ports s recovered remote))))"

end
