(* ===== verification/OwnerInvariant.thy ===== *)
theory OwnerInvariant
  imports Owner Contracts
begin

text \<open>
  What the command owner keeps.  An invariant of the owner and its world that every port action, save
  and activation keeps is kept by every command, whatever it answers: the locale states the contract
  once, and the properties are its instances.
\<close>

section \<open>The owner's effects\<close>

lemma keeps_the_owner [keeping]: "keeps I the_owner"
  by (auto simp: keeps_def the_owner_def)

lemma keeps_attempt [keeping]: "keeps I m \<Longrightarrow> keeps I (attempt m)"
  by (auto simp: keeps_def attempt_def split: prod.splits)

lemma keeps_map_error [keeping]: "keeps I m \<Longrightarrow> keeps I (map_error f m)"
  by (auto simp: keeps_def map_error_def split: prod.splits result.splits)

lemma snd_bind_ret: "snd (bind_io m (\<lambda>_. ret x) s) = snd (m s)"
  by (simp add: bind_io_def split: prod.splits result.splits)

lemma bind_update: "bind_io (update f) g (ow, w) = g () (f ow, w)"
  by (simp add: bind_io_def update_def)

lemma same_polling [simp]: "ow\<lparr>ow_polling := ow_polling ow\<rparr> = ow"
  by (cases ow) simp

lemma keeps_bind_owner:
  assumes "\<And>ow w. I (ow, w) \<Longrightarrow> I (snd (f ow (ow, w)))"
  shows "keeps I (bind_io the_owner f)"
  using assms by (auto simp: keeps_def bind_io_def the_owner_def)

section \<open>What the ports do to the world\<close>

text \<open>The actions of the ports other than the two saves.\<close>

inductive port_step :: "('w, 'r) owner_ports \<Rightarrow> 'w \<Rightarrow> 'w \<Rightarrow> bool" for ports where
  decrypt: "op_decrypt ports c w = (r, w') \<Longrightarrow> port_step ports w w'"
| encrypt: "op_encrypt ports t w = (r', w') \<Longrightarrow> port_step ports w w'"
| build: "op_build ports s w = (r'', w') \<Longrightarrow> port_step ports w w'"
| guard: "op_guard ports s t w = (u, w') \<Longrightarrow> port_step ports w w'"
| load: "op_load ports w = (l, w') \<Longrightarrow> port_step ports w w'"
| now: "op_now ports w = (i, w') \<Longrightarrow> port_step ports w w'"
| gather: "gather_sync (op_discover ports) (op_reads ports remote) w = (g, w') \<Longrightarrow> port_step ports w w'"
| recover: "recover_pending (op_engine ports remote) (op_codec ports) w = (c, w') \<Longrightarrow> port_step ports w w'"
| execute: "execute_plan_with_candidate (op_engine ports remote) (op_codec ports) plan computer persisted candidate w = (x, w')
    \<Longrightarrow> port_step ports w w'"
| commit: "commit_saved ports remote ids w = (y, w') \<Longrightarrow> port_step ports w w'"

inductive_cases port_stepE: "port_step ports w w'"

text \<open>The settings that a command may activate.\<close>

definition accepted :: "settings \<Rightarrow> settings \<Rightarrow> bool" where
  "accepted old new \<longleftrightarrow> validate_settings new = Ok ()
     \<or> (\<exists>e. new = old\<lparr>s_snipeit := (s_snipeit old)\<lparr>api_token_encrypted := e\<rparr>\<rparr>)"

section \<open>The contract of an invariant\<close>

text \<open>
  What keeps an invariant through recovery, planning and execution: the ports' actions, a save of the
  persisted state with its activation, and publication.
\<close>

locale owner_steps =
  fixes ports :: "('w, 'r) owner_ports"
    and I :: "'r owner \<times> 'w \<Rightarrow> bool"
  assumes world: "port_step ports w w' \<Longrightarrow> I (ow, w) \<Longrightarrow> I (ow, w')"
    and publisher: "I (ow, w) \<Longrightarrow> I (ow\<lparr>ow_publisher := p\<rparr>, w)"
    and save_state: "keeps I (save_and_activate ports candidate)"
begin

lemma keeps_port:
  "keeps I (outside (op_decrypt ports c))" "keeps I (outside (op_encrypt ports t))"
  "keeps I (outside (op_build ports s))" "keeps I (outside (op_guard ports s s'))"
  "keeps I (outside (op_load ports))" "keeps I (outside (\<lambda>w. case op_now ports w of (i, w') \<Rightarrow> (Ok i, w')))"
  "keeps I (outside (gather_sync (op_discover ports) (op_reads ports remote)))"
  "keeps I (outside (recover_pending (op_engine ports remote) (op_codec ports)))"
  "keeps I (outside (execute_plan_with_candidate (op_engine ports remote) (op_codec ports) plan computer persisted x))"
  "keeps I (outside (commit_saved ports remote ids))"
  unfolding keeps_def outside_def
  by (auto split: prod.splits intro: world port_step.intros)

lemma keeps_publish: "keeps I (publish_snapshot ports)" "keeps I activate_scheduler"
  by (auto simp: keeps_def publish_snapshot_def activate_scheduler_def update_def intro: publisher)

lemmas keeps_steps = keeps_port keeps_publish save_state

lemma keeps_recovery: "keeps I (recover_owner_state_with_finalization ports)" "keeps I (recover_before_new_work ports)"
  unfolding recover_owner_state_with_finalization_def recover_before_new_work_def
  by (intro keeping keeps_steps)+

lemma keeps_commit: "keeps I (save_and_commit ports candidate confirmed)"
  unfolding save_and_commit_def by (intro keeping keeps_steps)

lemma keeps_run_sync: "keeps I (run_sync ports t)"
  unfolding run_sync_def decrypted_config_def by (intro keeping keeps_steps keeps_commit)

end

text \<open>
  An invariant that also survives the settings a command activates and the state of a failure is kept
  by every command but the synchronization.
\<close>

locale owner_settings = owner_steps +
  assumes settings_saved: "I (ow, w) \<Longrightarrow> accepted (ow_settings ow) s \<Longrightarrow> op_save_settings ports s w = (Ok (), w') \<Longrightarrow>
      I (ow\<lparr>ow_polling := polling, ow_settings := s, ow_remote := remote, ow_state := configured_state s\<rparr>, w')"
    and settings_refused: "I (ow, w) \<Longrightarrow> accepted (ow_settings ow) s \<Longrightarrow> op_save_settings ports s w = (Err e, w') \<Longrightarrow> I (ow, w')"
    and failed: "I (ow, w) \<Longrightarrow> I (ow\<lparr>ow_state := state_after_sync_error f\<rparr>, w)"
begin

lemma keeps_failed: "keeps I (set_fsm (state_after_sync_error f))"
  by (auto simp: keeps_def set_fsm_def update_def intro: failed)

lemma keeps_activation:
  assumes "I (ow\<lparr>ow_polling := n, ow_settings := s, ow_remote := (case remote of Some r \<Rightarrow> r | None \<Rightarrow> ow_remote ow),
      ow_state := configured_state s\<rparr>, w)"
  shows "I (snd (activate_settings ports s remote (ow\<lparr>ow_polling := n\<rparr>, w)))"
proof -
  have "keeps I (bind_io (publish_snapshot ports) (\<lambda>_. activate_scheduler))"
    by (intro keeping keeps_steps)
  then have "I (snd (bind_io (publish_snapshot ports) (\<lambda>_. activate_scheduler)
      (ow\<lparr>ow_polling := n, ow_settings := s, ow_remote := (case remote of Some r \<Rightarrow> r | None \<Rightarrow> ow_remote ow),
          ow_state := configured_state s\<rparr>, w)))"
    using assms unfolding keeps_def by blast
  then show ?thesis
    by (simp add: activate_settings_def bind_io_def update_def refresh_configuration_state_def cong: option.case_cong)
qed

lemma keeps_outside:
  assumes "I (ow, w)" "keeps I (outside m)" "\<And>x w'. I (ow, w') \<Longrightarrow> I (snd (f x (ow, w')))"
  shows "I (snd (bind_io (outside m) f (ow, w)))"
proof -
  obtain r w' where m: "m w = (r, w')" by fastforce
  then have "I (ow, w')" using keepsD [OF assms(2,1)] by (simp add: outside_def)
  with m show ?thesis using assms(3) by (cases r) (auto simp: bind_io_def outside_def)
qed

text \<open>A save of settings, followed by their activation.\<close>

lemma keeps_saved_settings:
  assumes "I (ow, w)" "accepted (ow_settings ow) s"
    and "\<And>w'. I (ow\<lparr>ow_polling := n, ow_settings := s,
      ow_remote := (case remote of Some r \<Rightarrow> r | None \<Rightarrow> ow_remote ow), ow_state := configured_state s\<rparr>, w') \<Longrightarrow>
      I (snd (f (ow, w')))"
  shows "I (snd (bind_io (outside (op_save_settings ports s)) (\<lambda>_. f) (ow, w)))"
proof -
  obtain r w' where m: "op_save_settings ports s w = (r, w')" by fastforce
  show ?thesis
  proof (cases r)
    case (Ok u)
    then have "op_save_settings ports s w = (Ok (), w')" using m by simp
    from assms(3) [OF settings_saved [OF assms(1,2) this]] m Ok show ?thesis by (simp add: bind_io_def outside_def)
  next
    case (Err e)
    from settings_refused [OF assms(1,2)] m Err show ?thesis by (auto simp: bind_io_def outside_def)
  qed
qed

lemma keeps_build:
  assumes "I (ow, w)" "\<And>remote w'. I (ow, w') \<Longrightarrow> I (snd (f remote (ow, w')))"
  shows "I (snd (bind_io (build_if_configured ports s) f (ow, w)))"
  using keeps_outside [OF assms(1) keeps_port(3) [of s], of "\<lambda>r. f (Some r)"] assms
  by (simp add: build_if_configured_def bind_io_assoc del: ret_apply)

lemma keeps_set_config: "keeps I (set_config ports key val)"
  unfolding set_config_def
proof (rule keeps_bind_owner)
  fix ow w assume I: "I (ow, w)"
  show "I (snd (bind_io (lift_io (validate_config_field key val)) (\<lambda>upd.
     let s = apply_settings_update (ow_settings ow) upd in
     if validate_settings s \<noteq> Ok () then fail (Message ''invalid settings values'')
     else
     bind_io (outside (op_guard ports (ow_settings ow) s)) (\<lambda>_.
     bind_io (build_if_configured ports s) (\<lambda>remote.
     bind_io (outside (op_save_settings ports s)) (\<lambda>_.
     bind_io (update (\<lambda>ow. ow\<lparr>ow_polling := interval_hours (s_polling s)\<rparr>)) (\<lambda>_.
     bind_io (activate_settings ports s remote) (\<lambda>_.
       ret (OkResponse (''updated '' @ key)))))))) (ow, w)))"
  proof (cases "validate_config_field key val")
    case (Err e)
    with I show ?thesis by (simp add: bind_io_def)
  next
    case (Ok upd)
    define s where "s = apply_settings_update (ow_settings ow) upd"
    show ?thesis
    proof (cases "validate_settings s = Ok ()")
      case False
      with I Ok show ?thesis by (simp add: bind_io_def s_def Let_def)
    next
      case True
      have *: "I (snd (bind_io (outside (op_guard ports (ow_settings ow) s)) (\<lambda>_.
         bind_io (build_if_configured ports s) (\<lambda>remote.
         bind_io (outside (op_save_settings ports s)) (\<lambda>_.
         bind_io (update (\<lambda>ow. ow\<lparr>ow_polling := interval_hours (s_polling s)\<rparr>)) (\<lambda>_.
         bind_io (activate_settings ports s remote) (\<lambda>_. ret (OkResponse (''updated '' @ key))))))) (ow, w)))"
      proof (rule keeps_outside [OF I keeps_port(4)], erule keeps_build)
        fix remote w' assume I': "I (ow, w')"
        show "I (snd (bind_io (outside (op_save_settings ports s)) (\<lambda>_.
           bind_io (update (\<lambda>ow. ow\<lparr>ow_polling := interval_hours (s_polling s)\<rparr>)) (\<lambda>_.
           bind_io (activate_settings ports s remote) (\<lambda>_. ret (OkResponse (''updated '' @ key))))) (ow, w')))"
        proof (rule keeps_saved_settings [where n = "interval_hours (s_polling s)" and remote = remote, OF I'])
          show "accepted (ow_settings ow) s" using True by (simp add: accepted_def)
        qed (simp add: snd_bind_ret bind_update keeps_activation del: ret_apply)
      qed
      then show ?thesis using Ok True by (simp add: bind_io_lift s_def [symmetric] Let_def del: ret_apply)
    qed
  qed
qed

lemma keeps_set_token: "keeps I (set_token ports plaintext)"
  unfolding set_token_def
proof (rule keeps_if [OF keeps_ret(2)], rule keeps_bind [OF keeps_map_error [OF keeps_port(2)]], rule keeps_bind_owner)
  fix encrypted ow w assume I: "I (ow, w)"
  let ?s = "(ow_settings ow)\<lparr>s_snipeit := (s_snipeit (ow_settings ow))\<lparr>api_token_encrypted := encrypted\<rparr>\<rparr>"
  have "I (snd (bind_io (build_if_configured ports ?s) (\<lambda>remote.
      bind_io (outside (op_save_settings ports ?s)) (\<lambda>_.
      bind_io (activate_settings ports ?s remote) (\<lambda>_. ret (OkResponse ''API token updated'')))) (ow, w)))"
  proof (rule keeps_build [OF I])
    fix remote w' assume I': "I (ow, w')"
    show "I (snd (bind_io (outside (op_save_settings ports ?s)) (\<lambda>_.
        bind_io (activate_settings ports ?s remote) (\<lambda>_. ret (OkResponse ''API token updated''))) (ow, w')))"
    proof (rule keeps_saved_settings [where n = "ow_polling ow" and remote = remote, OF I'])
      fix w'' assume "I (ow\<lparr>ow_polling := ow_polling ow, ow_settings := ?s,
        ow_remote := (case remote of Some r \<Rightarrow> r | None \<Rightarrow> ow_remote ow), ow_state := configured_state ?s\<rparr>, w'')"
      from keeps_activation [OF this]
      show "I (snd (bind_io (activate_settings ports ?s remote) (\<lambda>_. ret (OkResponse ''API token updated'')) (ow, w'')))"
        by (simp add: snd_bind_ret del: ret_apply)
    qed (auto simp: accepted_def)
  qed
  then show "I (snd ((let s = ?s in bind_io (build_if_configured ports s) (\<lambda>remote.
      bind_io (outside (op_save_settings ports s)) (\<lambda>_.
      bind_io (activate_settings ports s remote) (\<lambda>_. ret (OkResponse ''API token updated''))))) (ow, w)))"
    by (simp only: Let_def)
qed

lemma keeps_record_failure: "keeps I (record_failure ports t e)"
  unfolding record_failure_def by (intro keeping keeps_steps keeps_failed)

lemma keeps_force_checkin: "keeps I (force_checkin ports requested)"
  unfolding force_checkin_def decrypted_config_def
  by (intro keeping keeps_steps keeps_failed keeps_recovery keeps_commit)

lemma handle_keeps_if:
  assumes "I s" "\<And>r s1. trigger_sync ports s = (r, s1) \<Longrightarrow> command = TriggerSync \<Longrightarrow> I s1"
  shows "I (snd (handle ports command s))"
proof -
  obtain r s1 where m: "run_command ports command s = (r, s1)" by (rule prod.exhaust)
  have "I s1"
  proof (cases "command = TriggerSync")
    case True
    then show ?thesis using assms(2) m by simp
  next
    case False
    then have "keeps I (run_command ports command)"
      by (cases command) (auto simp: answer_def simp del: ret_apply
          intro!: keeping keeps_set_config keeps_set_token keeps_force_checkin)
    from keepsD [OF this assms(1) m] show ?thesis .
  qed
  then have "I (snd (publish_snapshot ports s1))" using keeps_publish(1) unfolding keeps_def by blast
  with \<open>I s1\<close> m show ?thesis by (auto simp: handle_def split: result.splits option.splits)
qed

end

text \<open>An invariant of the whole handler also survives every state a synchronization passes through.\<close>

locale owner_commands = owner_settings +
  assumes fsm: "st \<in> {Idle, Syncing, ErrorState} \<Longrightarrow> I (ow, w) \<Longrightarrow> I (ow\<lparr>ow_state := st\<rparr>, w)"
begin

lemma keeps_fsm: "st \<in> {Idle, Syncing, ErrorState} \<Longrightarrow> keeps I (set_fsm st)"
  by (auto simp: keeps_def set_fsm_def update_def intro: fsm)

lemma keeps_trigger_sync: "keeps I (trigger_sync ports)"
  unfolding trigger_sync_def
  by (intro keeping keeps_steps keeps_fsm keeps_failed keeps_recovery keeps_run_sync keeps_record_failure) simp_all

lemma handle_keeps: "I s \<Longrightarrow> I (snd (handle ports command s))"
  using handle_keeps_if keepsD [OF keeps_trigger_sync] by blast

end

section \<open>Validated settings and unchanged fields\<close>

lemma validate_settings_token [simp]:
  "validate_settings (s\<lparr>s_snipeit := (s_snipeit s)\<lparr>api_token_encrypted := e\<rparr>\<rparr>) = Ok () \<longleftrightarrow> validate_settings s = Ok ()"
  by (simp add: validate_settings_Ok)

interpretation settings_valid: owner_commands ports "\<lambda>(ow, w). validate_settings (ow_settings ow) = Ok ()" for ports
  by unfold_locales
    (auto simp: keeps_def save_and_activate_def bind_io_def outside_def set_persisted_def update_def accepted_def
      split: prod.splits result.splits)

text \<open>Recovery, planning and execution leave the state, the settings and the remote alone.\<close>

interpretation same_owner: owner_steps ports
  "\<lambda>(ow, w). ow_state ow = st \<and> ow_settings ow = s \<and> ow_remote ow = remote" for ports st s remote
  by unfold_locales
    (auto simp: keeps_def save_and_activate_def bind_io_def outside_def set_persisted_def update_def
      split: prod.splits result.splits)

section \<open>Steps evaluated\<close>

definition published :: "('w, 'r) owner_ports \<Rightarrow> 'r owner \<Rightarrow> 'r owner" where
  "published ports ow = fst (snd (publish_snapshot ports (ow, undefined)))"

lemma publish_apply: "publish_snapshot ports (ow, w) = (Ok (), (published ports ow, w))"
  by (simp add: published_def publish_snapshot_def update_def)

lemma step_apply:
  "set_fsm st (ow, w) = (Ok (), (ow\<lparr>ow_state := st\<rparr>, w))"
  "set_persisted p (ow, w) = (Ok (), (ow\<lparr>ow_persisted := p\<rparr>, w))"
  "the_owner (ow, w) = (Ok ow, (ow, w))"
  by (simp_all add: set_fsm_def set_persisted_def the_owner_def update_def)

lemma published_fields [simp]:
  "ow_state (published ports ow) = ow_state ow" "ow_settings (published ports ow) = ow_settings ow"
  "ow_persisted (published ports ow) = ow_persisted ow" "ow_remote (published ports ow) = ow_remote ow"
  by (simp_all add: published_def publish_snapshot_def update_def)

lemma recovery_same:
  assumes "recover_before_new_work ports (ow, w) = (r, (ow', w'))"
  shows "ow_state ow' = ow_state ow" "ow_settings ow' = ow_settings ow" "ow_remote ow' = ow_remote ow"
  using keepsD [OF same_owner.keeps_recovery(2) _ assms, of "ow_state ow" "ow_settings ow" "ow_remote ow"] by simp_all

lemma run_sync_same:
  assumes "run_sync ports t (ow, w) = (r, (ow', w'))"
  shows "ow_state ow' = ow_state ow" "ow_settings ow' = ow_settings ow" "ow_remote ow' = ow_remote ow"
  using keepsD [OF same_owner.keeps_run_sync _ assms, of "ow_state ow" "ow_settings ow" "ow_remote ow"] by simp_all

lemma save_same:
  assumes "save_and_activate ports c (ow, w) = (r, (ow', w'))"
  shows "ow_state ow' = ow_state ow" "ow_settings ow' = ow_settings ow" "ow_remote ow' = ow_remote ow"
  using keepsD [OF same_owner.save_state _ assms, of "ow_state ow" "ow_settings ow" "ow_remote ow"] by simp_all

text \<open>A synchronization of a configured service, step by step.\<close>

definition sync_started :: "('w, 'r) owner_ports \<Rightarrow> 'r owner \<Rightarrow> 'r owner" where
  "sync_started ports ow = published ports (ow\<lparr>ow_state := Syncing\<rparr>)"

lemma trigger_sync_steps:
  assumes "config_status (ow_settings ow) = []"
  shows "trigger_sync ports (ow, w) =
    (case recover_before_new_work ports (ow, w) of
       (Err e, (ow1, w1)) \<Rightarrow> (Err e, (published ports (ow1\<lparr>ow_state := state_after_sync_error e\<rparr>), w1))
     | (Ok _, (ow1, w1)) \<Rightarrow>
         (case op_now ports w1 of (now, w2) \<Rightarrow>
           (case run_sync ports now (sync_started ports ow1, w2) of
              (Ok None, s3) \<Rightarrow> (Ok None, s3)
            | (Ok (Some ws), (ow3, w3)) \<Rightarrow>
                (Ok (Some (OkResponse (sync_message ws))), (published ports (ow3\<lparr>ow_state := Idle\<rparr>), w3))
            | (Err e, (ow3, w3)) \<Rightarrow>
                if is_saved_candidate e then (Err e, (published ports (ow3\<lparr>ow_state := ErrorState\<rparr>), w3))
                else record_failure ports now e (ow3, w3))))"
  using assms
  by (auto simp: trigger_sync_def sync_started_def bind_io_def attempt_def step_apply publish_apply outside_def
      split: prod.splits result.splits option.splits)

lemma record_failure_state:
  "record_failure ports now e (ow, w) = (r, (ow', w')) \<Longrightarrow>
     ow_state ow' = state_after_sync_error e \<and> ow_settings ow' = ow_settings ow \<and> (\<exists>f. r = Err f)"
  by (auto simp: record_failure_def bind_io_def attempt_def step_apply publish_apply save_same
      split: prod.splits result.splits)

end
