(* ===== verification/OwnerProperties.thy ===== *)
theory OwnerProperties
  imports OwnerInvariant
begin

text \<open>
  What holds of the command owner after every command, whatever its ports answer: it is well formed
  and settled, its publication is its own status, a failed recovery stops it, its settings change only
  through every gate, its forced check-ins are the eligible ones, and what is active is stored.
\<close>

section \<open>The state after a command\<close>

definition owner_ok :: "'r owner \<Rightarrow> bool" where
  "owner_ok ow \<longleftrightarrow> validate_settings (ow_settings ow) = Ok ()
     \<and> ow_state ow \<in> {Idle, Unconfigured, ErrorState}
     \<and> (ow_state ow = Idle \<longrightarrow> config_status (ow_settings ow) = [])"

lemma settled_after_error: "state_after_sync_error e \<in> {Unconfigured, ErrorState}"
  by (auto simp: state_after_sync_error_def split: option.splits snipeit_error.splits)

lemma settled_ne [simp]: "state_after_sync_error e \<noteq> Idle" "state_after_sync_error e = Unconfigured \<longleftrightarrow> state_after_sync_error e \<noteq> ErrorState"
  using settled_after_error [of e] by auto

lemma trigger_sync_ok:
  assumes ok: "owner_ok ow" and run: "trigger_sync ports (ow, w) = (r, (ow', w'))" and r: "r \<noteq> Ok None"
  shows "ow_state ow' \<in> {Idle, Unconfigured, ErrorState} \<and> (ow_state ow' = Idle \<longrightarrow> config_status (ow_settings ow') = [])"
proof (cases "config_status (ow_settings ow) = []")
  case False
  with ok run show ?thesis by (auto simp: owner_ok_def trigger_sync_def bind_io_def step_apply)
next
  case True
  from run r show ?thesis
    unfolding trigger_sync_steps [OF True]
    by (auto simp: True sync_started_def recovery_same run_sync_same dest!: record_failure_state
        split: prod.splits result.splits option.splits if_splits)
qed

interpretation owner_ok: owner_settings ports "\<lambda>(ow, w). owner_ok ow" for ports
  by unfold_locales
    (auto simp: keeps_def save_and_activate_def bind_io_def outside_def step_apply accepted_def owner_ok_def
      configured_state_def split: prod.splits result.splits)

text \<open>The documented range of \<open>chrono::Duration::hours\<close>: a year of hours is within it.\<close>

definition hours_in_range :: "(int \<Rightarrow> int option) \<Rightarrow> bool" where
  "hours_in_range hours \<longleftrightarrow> (\<forall>h. 0 \<le> h \<and> h \<le> 8760 \<longrightarrow> hours h = Some (h * 3600000000000))"

lemma outside_Ok: "outside m (ow, w) = (Ok x, s) \<longleftrightarrow> (\<exists>w'. m w = (Ok x, w') \<and> s = (ow, w'))"
  by (auto simp: outside_def split: prod.splits)

lemma Ok_eq_bind: "(Ok y, s) = bind_io m f w \<longleftrightarrow> (\<exists>x w1. m w = (Ok x, w1) \<and> f x w1 = (Ok y, s))"
  unfolding bind_io_eq_Ok [symmetric] by (rule eq_commute)

lemma run_sync_answers:
  assumes "hours_in_range (op_hours ports)" "validate_settings (ow_settings ow) = Ok ()"
    and "run_sync ports t (ow, w) = (Ok r, s)"
  shows "r \<noteq> None"
proof -
  have some: False if "planned_sync ports ow g t = None" for g
  proof -
    have "op_hours ports h = Some (h * 3600000000000)" if "0 \<le> h" "h \<le> 8760" for h
      using assms(1) that by (simp add: hours_in_range_def)
    from plan_sync_total [OF this assms(2), THEN conjunct1] that [unfolded planned_sync_def option.map_disc_iff]
    show False by (rule notE)
  qed
  obtain tok :: "(string, failure) result" and w1 where "run_sync ports t (ow, w) = (case tok of
      Err e \<Rightarrow> (Err e, (ow, w1))
    | Ok _ \<Rightarrow> (case gather_sync (op_discover ports) (op_reads ports (ow_remote ow)) w1 of
        (Err e, w2) \<Rightarrow> (Err e, (ow, w2))
      | (Ok g, w2) \<Rightarrow> (case planned_sync ports ow g t of
          None \<Rightarrow> ret None
        | Some plan \<Rightarrow> bind_io (outside (execute_plan_with_candidate (op_engine ports (ow_remote ow)) (op_codec ports) plan
              (map_option as_id (ga_system_asset g)) (ow_persisted ow)
              (sync_candidate ports (ow_persisted ow) plan (ga_system_asset g) t))) (\<lambda>outcome.
            bind_io (save_and_commit ports ((sync_candidate ports (ow_persisted ow) plan (ga_system_asset g) t)
              \<lparr>known_monitors := entries (ex_next_monitor_state outcome), matched_asset := ex_matched_asset outcome\<rparr>)
              (ex_confirmed outcome)) (\<lambda>_. ret (Some (ex_warnings outcome))))) (ow, w2)))"
  proof -
    obtain tok w1 where "op_decrypt ports (api_token_encrypted (s_snipeit (ow_settings ow))) w = (tok, w1)"
      by (rule prod.exhaust)
    then show thesis
      by (intro that [of w1 tok]) (simp add: run_sync_def decrypted_config_def bind_io_def outside_def the_owner_def Let_def
          split: prod.splits result.splits cong: option.case_cong)
  qed
  then show ?thesis using assms(3)
    by (auto simp: bind_io_eq_Ok Ok_eq_bind dest: some split: prod.splits result.splits option.splits)
qed

lemma record_failure_not_Ok: "fst (record_failure ports t e (ow, w)) \<noteq> Ok x"
proof
  assume "fst (record_failure ports t e (ow, w)) = Ok x"
  then obtain ow' w' where "record_failure ports t e (ow, w) = (Ok x, (ow', w'))"
    by (metis prod.collapse)
  from record_failure_state [OF this] show False by simp
qed

lemma trigger_sync_answers:
  assumes "hours_in_range (op_hours ports)" "validate_settings (ow_settings ow) = Ok ()"
  shows "fst (trigger_sync ports (ow, w)) \<noteq> Ok None"
proof (cases "config_status (ow_settings ow) = []")
  case True
  have "run_sync ports t (sync_started ports ow1, w2) \<noteq> (Ok None, s)"
    if "recover_before_new_work ports (ow, w) = (u, (ow1, w1))" for u ow1 w1 w2 t s
  proof
    assume run: "run_sync ports t (sync_started ports ow1, w2) = (Ok None, s)"
    have "validate_settings (ow_settings (sync_started ports ow1)) = Ok ()"
      using recovery_same(2) [OF that] assms(2) by (simp add: sync_started_def)
    from run_sync_answers [OF assms(1) this run] show False by simp
  qed
  then show ?thesis unfolding trigger_sync_steps [OF True]
    by (auto simp: record_failure_not_Ok split: prod.splits result.splits option.splits)
qed (simp add: trigger_sync_def bind_io_def step_apply)

lemma answer_not_None: "fst (answer m s) \<noteq> Ok None"
  by (auto simp: answer_def bind_io_def split: prod.splits result.splits)

lemma run_command_answers:
  assumes "hours_in_range (op_hours ports)" "validate_settings (ow_settings ow) = Ok ()"
  shows "fst (run_command ports command (ow, w)) \<noteq> Ok None"
  using assms by (cases command) (simp_all add: trigger_sync_answers answer_not_None bind_io_def step_apply)

text \<open>
  C1: a well-formed owner answers every command and stays well formed.  With valid settings, in a
  settled state, idle only if configured, it never panics, whatever its ports answer, and the
  command leaves it with valid settings, in a settled state (never \<open>Syncing\<close>), idle only if
  configured.  The hypothesis on \<open>op_hours\<close> is the documented range of \<open>chrono::Duration::hours\<close>.
\<close>

theorem handle_well_formed:
  assumes "hours_in_range (op_hours ports)" and "owner_ok ow"
  shows "\<exists>response ow' w'. handle ports command (ow, w) = (Some response, (ow', w')) \<and> owner_ok ow'"
proof -
  obtain r ow' w' where h: "handle ports command (ow, w) = (r, (ow', w'))" by (metis prod.exhaust)
  have valid: "validate_settings (ow_settings ow) = Ok ()" using assms(2) by (simp add: owner_ok_def)
  have "owner_ok ow1" if run: "trigger_sync ports (ow, w) = (q, (ow1, w1))" for q ow1 w1
  proof -
    have "q \<noteq> Ok None" using trigger_sync_answers [OF assms(1) valid, of w] run by auto
    with trigger_sync_ok [OF assms(2) run] keepsD [OF settings_valid.keeps_trigger_sync _ run] valid
    show ?thesis by (simp add: owner_ok_def)
  qed
  then have "owner_ok ow'" using owner_ok.handle_keeps_if [of "(ow, w)" ports command] assms(2) h by force
  moreover have "r \<noteq> None"
    using run_command_answers [OF assms(1) valid, of command w] h
    by (auto simp: handle_def split: prod.splits result.splits option.splits)
  ultimately show ?thesis using h by auto
qed

section \<open>Publication after every command\<close>

lemma handle_published:
  assumes "handle ports command (ow, w) = (Some response, (ow', w'))"
  shows "\<exists>ow1. ow' = published ports ow1"
  using assms by (auto simp: handle_def publish_apply split: prod.splits result.splits option.splits)

text \<open>
  Every answered command leaves published exactly the status the owner itself would answer: the
  status read from the publisher, under a schedule made for another configuration, is the owner's own
  full and short status, for an owner that is settled.
\<close>

theorem published_status_is_owners:
  assumes "handle ports command (ow, w) = (Some response, (ow', w'))"
    and "ow_publisher ow' = Some p" and "owner_ok ow'"
    and "sn_config_generation sched \<noteq> ps_config_generation (pb_status p)"
  shows "project_status (pb_status p) sched full = status_response ports ow' full"
proof -
  obtain ow1 where ow1: "ow' = published ports ow1" using handle_published [OF assms(1)] by blast
  with assms(2) obtain p1 where "p = publish (op_rfc3339 ports) p1 (published_state (ow_state ow'))
      (url (s_snipeit (ow_settings ow'))) (ow_state ow' \<noteq> Unconfigured) (ow_persisted ow')"
    by (auto simp: published_def publish_snapshot_def update_def)
  moreover have "published_state (ow_state ow') = state_debug (ow_state ow')"
    using assms(3) by (auto simp: owner_ok_def published_state_def state_debug_def)
  ultimately show ?thesis using assms(4)
    by (simp add: project_status_def publish_def from_parts_def status_response_def service_status_projection_def)
qed

section \<open>No new work after a failed recovery\<close>

text \<open>
  C11: nothing new is sent while the journal cannot be recovered.  When the recovery before a
  synchronization or a forced check-in fails, the command answers that error, and the world it leaves
  is the one the recovery left: no discovery, no planning, no further request, no save.
\<close>

theorem failed_recovery_stops:
  assumes "config_status (ow_settings ow) = []"
    and "recover_before_new_work ports (ow, w) = (Err e, (ow1, w1))"
    and "command \<in> {TriggerSync, CheckinAll, CheckinSerial serial}"
  shows "\<exists>ow2. handle ports command (ow, w) = (Some (protocol_error e), (ow2, w1))
    \<and> ow_persisted ow2 = ow_persisted ow1 \<and> ow_settings ow2 = ow_settings ow
    \<and> ow_state ow2 = state_after_sync_error e"
proof -
  have "ow_settings ow1 = ow_settings ow" using recovery_same(2) [OF assms(2)] .
  then show ?thesis using assms
    by (auto simp: handle_def trigger_sync_steps force_checkin_def answer_def bind_io_def attempt_def step_apply
        publish_apply)
qed

section \<open>Configuration\<close>

text \<open>Synchronizations and forced check-ins leave the settings and the remote alone.\<close>

interpretation same_settings: owner_steps ports
  "\<lambda>(ow, w). ow_settings ow = s \<and> ow_remote ow = remote" for ports s remote
  by unfold_locales
    (auto simp: keeps_def save_and_activate_def bind_io_def outside_def set_persisted_def update_def
      split: prod.splits result.splits)

lemma keeps_settings_fsm: "keeps (\<lambda>(ow, w). ow_settings ow = s \<and> ow_remote ow = remote) (set_fsm st)"
  by (simp add: keeps_def set_fsm_def update_def)

lemma work_keeps_settings:
  "keeps (\<lambda>(ow, w). ow_settings ow = s \<and> ow_remote ow = remote) (trigger_sync ports)"
  "keeps (\<lambda>(ow, w). ow_settings ow = s \<and> ow_remote ow = remote) (force_checkin ports requested)"
  unfolding trigger_sync_def force_checkin_def record_failure_def decrypted_config_def
  by (intro keeping same_settings.keeps_steps keeps_settings_fsm same_settings.keeps_recovery
      same_settings.keeps_run_sync same_settings.keeps_commit)+

text \<open>The settings with a new encrypted token.\<close>

definition with_token :: "settings \<Rightarrow> u8 list \<Rightarrow> settings" where
  "with_token s encrypted = s\<lparr>s_snipeit := (s_snipeit s)\<lparr>api_token_encrypted := encrypted\<rparr>\<rparr>"

text \<open>What happened if a command has changed the active settings or the remote.\<close>

definition change_gated ::
  "('w, 'r) owner_ports \<Rightarrow> service_command \<Rightarrow> 'r owner \<Rightarrow> 'w \<Rightarrow> ipc_response option \<Rightarrow> 'r owner \<Rightarrow> 'w \<Rightarrow> bool" where
  "change_gated ports command ow w response ow' w' \<longleftrightarrow>
     (\<exists>w1 w2 remote.
        (case command of
           SetConfig key val \<Rightarrow>
             (\<exists>upd. validate_config_field key val = Ok upd \<and> ow_settings ow' = apply_settings_update (ow_settings ow) upd)
             \<and> validate_settings (ow_settings ow') = Ok ()
             \<and> op_guard ports (ow_settings ow) (ow_settings ow') w = (Ok (), w1)
             \<and> response = Some (OkResponse (''updated '' @ key))
         | SetToken val \<Rightarrow>
             val \<noteq> []
             \<and> (\<exists>encrypted. op_encrypt ports (map (\<lambda>c. of_nat (byte c)) val) w = (Ok encrypted, w1)
                  \<and> ow_settings ow' = with_token (ow_settings ow) encrypted)
             \<and> response = Some (OkResponse ''API token updated'')
         | _ \<Rightarrow> False)
        \<and> build_if_configured ports (ow_settings ow') (ow, w1) = (Ok remote, (ow, w2))
        \<and> op_save_settings ports (ow_settings ow') w2 = (Ok (), w')
        \<and> ow_remote ow' = (case remote of Some r \<Rightarrow> r | None \<Rightarrow> ow_remote ow)
        \<and> ow_state ow' = configured_state (ow_settings ow'))"

lemma build_world:
  assumes "build_if_configured ports s (ow, w) = (b, s2)"
  obtains w2 where "s2 = (ow, w2)"
  using assms by (auto simp: build_if_configured_def bind_io_def outside_def split: if_splits prod.splits result.splits)

lemma set_config_gated:
  assumes run: "set_config ports key val (ow, w) = (r, (ow', w'))"
    and response: "response = Some (case r of Ok x \<Rightarrow> x | Err e \<Rightarrow> protocol_error e)"
    and changed: "ow_settings ow' \<noteq> ow_settings ow \<or> ow_remote ow' \<noteq> ow_remote ow"
  shows "change_gated ports (SetConfig key val) ow w response ow' w'"
proof (cases "validate_config_field key val")
  case (Err e)
  then show ?thesis using run changed by (auto simp: set_config_def bind_io_def step_apply)
next
  case (Ok upd)
  define s where "s = apply_settings_update (ow_settings ow) upd"
  obtain g w1 where g: "op_guard ports (ow_settings ow) s w = (g, w1)" by (rule prod.exhaust)
  obtain b s2 where b: "build_if_configured ports s (ow, w1) = (b, s2)" by (rule prod.exhaust)
  from build_world [OF b] obtain w2 where s2: "s2 = (ow, w2)" .
  obtain c w3 where c: "op_save_settings ports s w2 = (c, w3)" by (rule prod.exhaust)
  show ?thesis using run Ok g b [unfolded s2] c response changed
    by (auto simp: change_gated_def set_config_def bind_io_def step_apply s_def [symmetric] outside_def Let_def
        activate_settings_def update_def refresh_configuration_state_def publish_apply activate_scheduler_def
        split: if_splits result.splits cong: option.case_cong)
qed

lemma set_token_gated:
  assumes run: "set_token ports (map (\<lambda>c. of_nat (byte c)) val) (ow, w) = (r, (ow', w'))"
    and response: "response = Some (case r of Ok x \<Rightarrow> x | Err e \<Rightarrow> protocol_error e)"
    and changed: "ow_settings ow' \<noteq> ow_settings ow \<or> ow_remote ow' \<noteq> ow_remote ow"
  shows "change_gated ports (SetToken val) ow w response ow' w'"
proof -
  let ?bytes = "map (\<lambda>c. of_nat (byte c)) val"
  obtain n w1 where n: "op_encrypt ports ?bytes w = (n, w1)" by (rule prod.exhaust)
  show ?thesis
  proof (cases "val = [] \<or> \<not> is_ok n")
    case True
    with run n changed show ?thesis
      by (cases n) (auto simp: set_token_def bind_io_def map_error_def outside_def split: if_splits)
  next
    case False
    then obtain encrypted where e: "n = Ok encrypted" "val \<noteq> []" by (auto simp: is_ok_iff)
    define s where "s = with_token (ow_settings ow) encrypted"
    obtain b s2 where b: "build_if_configured ports s (ow, w1) = (b, s2)" by (rule prod.exhaust)
    from build_world [OF b] obtain w2 where s2: "s2 = (ow, w2)" .
    obtain c w3 where c: "op_save_settings ports s w2 = (c, w3)" by (rule prod.exhaust)
    have "bind_io (build_if_configured ports s) (\<lambda>remote.
        bind_io (outside (op_save_settings ports s)) (\<lambda>_.
        bind_io (activate_settings ports s remote) (\<lambda>_. ret (OkResponse ''API token updated'')))) (ow, w1) = (r, (ow', w'))"
      using run n e by (simp add: set_token_def bind_io_def map_error_def outside_def step_apply Let_def s_def with_token_def)
    then show ?thesis using n e b [unfolded s2] c response changed
      by (auto simp: change_gated_def bind_io_def step_apply s_def [symmetric] outside_def
          activate_settings_def update_def refresh_configuration_state_def publish_apply activate_scheduler_def
          split: if_splits result.splits cong: option.case_cong)
  qed
qed

text \<open>
  C12: settings become active only after every gate.  If a command changes the active settings or the
  remote, it is a \<open>SetConfig\<close> whose field parsed, whose result is valid and whose change the guard of the
  remote identity accepted against the active settings; or a \<open>SetToken\<close>, which changes the encrypted
  token alone, to what the encryption of the non-empty token answered.  In both cases the new remote
  was built if the result is configured, then the store saved exactly these settings, and the state
  of the owner is that of the new settings.  Every other command, and every other outcome of these
  two, leaves the settings and the remote as they were.
\<close>

theorem settings_change_is_gated:
  assumes "handle ports command (ow, w) = (response, (ow', w'))"
  shows "(ow_settings ow' = ow_settings ow \<and> ow_remote ow' = ow_remote ow)
    \<or> change_gated ports command ow w response ow' w'"
proof -
  obtain r ow1 w1 where m: "run_command ports command (ow, w) = (r, (ow1, w1))" by (metis prod.exhaust)
  have same: "ow_settings ow' = ow_settings ow1" "ow_remote ow' = ow_remote ow1" "ow_state ow' = ow_state ow1" "w' = w1"
      "response = (case r of Ok x \<Rightarrow> x | Err e \<Rightarrow> Some (protocol_error e))"
    using assms m by (auto simp: handle_def publish_apply split: result.splits option.splits prod.splits)
  have kept: "ow_settings ow1 = ow_settings ow \<and> ow_remote ow1 = ow_remote ow"
    if "keeps (\<lambda>(a, b). ow_settings a = ow_settings ow \<and> ow_remote a = ow_remote ow) (run_command ports command)"
    using keepsD [OF that _ m] by simp
  have gated: "change_gated ports command ow w response ow' w'"
    if "change_gated ports command ow w response ow1 w1"
    using that unfolding change_gated_def same(1-4) .
  show ?thesis
  proof (cases command)
    case (SetConfig key val)
    obtain q where "set_config ports key val (ow, w) = (q, (ow1, w1))" "r = map_ok Some q"
      using m SetConfig by (auto simp: answer_def bind_io_def split: prod.splits result.splits)
    then show ?thesis using set_config_gated [of ports key val ow w q ow1 w1 response] gated same SetConfig
      by (cases q) auto
  next
    case (SetToken val)
    obtain q where "set_token ports (map (\<lambda>c. of_nat (byte c)) val) (ow, w) = (q, (ow1, w1))" "r = map_ok Some q"
      using m SetToken by (auto simp: answer_def bind_io_def split: prod.splits result.splits)
    then show ?thesis using set_token_gated [of ports val ow w q ow1 w1 response] gated same SetToken
      by (cases q) auto
  qed (use kept same in \<open>auto simp: answer_def simp del: ret_apply intro!: keeping work_keeps_settings\<close>)
qed

section \<open>Forced check-in\<close>

definition forced_target :: "string option \<Rightarrow> monitor_entry \<Rightarrow> bool" where
  "forced_target requested e \<longleftrightarrow> forced_checkin_ineligible e = None \<and> (case requested of None \<Rightarrow> True | Some s \<Rightarrow> me_serial e = s)"

definition forced_op :: "u64 \<Rightarrow> monitor_entry \<Rightarrow> monitor_checkin" where
  "forced_op status e =
     \<lparr>ci_operation_id = ''checkin:'' @ dec (the (snipeit_asset_id e)) @ '':'' @ dec status,
      ci_source_asset_id = the (snipeit_asset_id e), ci_request = \<lparr>ci_status_id = status\<rparr>\<rparr>"

definition forced_answer :: "monitor_entry \<Rightarrow> checkin_entry" where
  "forced_answer e = \<lparr>ce_serial = me_serial e, ce_asset_id = the (snipeit_asset_id e)\<rparr>"

lemma forced_operations_Cons:
  "forced_operations status requested (e # es) =
     (if forced_target requested e
      then and_then (build_monitor_checkin (''checkin:'' @ dec (the (snipeit_asset_id e)) @ '':'' @ dec status)
             (the (snipeit_asset_id e)) status) (\<lambda>op.
               map_ok (\<lambda>(ops, answers). (op # ops, forced_answer e # answers)) (forced_operations status requested es))
      else forced_operations status requested es)"
  by (cases "snipeit_asset_id e"; cases requested)
    (simp_all add: forced_target_def forced_checkin_ineligible_def forced_answer_def)

lemma forced_operations_char:
  "forced_operations status requested es = Ok (ops, answers) \<Longrightarrow>
     answers = map forced_answer (filter (forced_target requested) es)
     \<and> ops = map (forced_op status) (filter (forced_target requested) es)"
proof (induction es arbitrary: ops answers)
  case (Cons e es)
  show ?case
  proof (cases "forced_target requested e")
    case False
    with Cons show ?thesis by (simp only: forced_operations_Cons if_False filter.simps)
  next
    case True
    with Cons.prems obtain op ops' answers' where *: "forced_operations status requested es = Ok (ops', answers')"
        "op = forced_op status e" "ops = op # ops'" "answers = forced_answer e # answers'"
      unfolding forced_operations_Cons
      by (auto simp: and_then_eq_Ok build_monitor_checkin_Ok forced_op_def simp del: forced_operations.simps)
    with True Cons.IH [OF *(1)] show ?thesis by simp
  qed
qed simp

text \<open>
  C28: a forced check-in answers exactly the eligible monitors.  When it succeeds, the entries it
  answers are, in order, the known monitors of the recovered state that are absent, still checked out
  and mapped to an asset (and have the requested serial); a requested monitor is never answered
  vacuously.
\<close>

theorem forced_checkin_exact:
  assumes "force_checkin ports requested (ow, w) = (Ok response, s)"
  shows "\<exists>ow1 w1. recover_before_new_work ports (ow, w) = (Ok (), (ow1, w1))
    \<and> response = CheckinResult (map forced_answer (filter (forced_target requested) (known_monitors (ow_persisted ow1))))
    \<and> (if requested \<noteq> None then \<exists>e\<in>set (known_monitors (ow_persisted ow1)). forced_target requested e else True)"
proof -
  have c: "config_status (ow_settings ow) = []"
    using assms by (auto simp: force_checkin_def bind_io_def step_apply split: if_splits)
  obtain r ow1 w1 where rec: "recover_before_new_work ports (ow, w) = (r, (ow1, w1))" by (metis prod.exhaust)
  obtain u where r: "r = Ok u"
    using assms rec c by (cases r) (auto simp: force_checkin_def bind_io_def step_apply attempt_def)
  define F where "F = forced_operations (checkin_status_id (s_snipeit (ow_settings ow1))) requested (known_monitors (ow_persisted ow1))"
  have "\<exists>ops answers. F = Ok (ops, answers) \<and> response = CheckinResult answers \<and> (requested \<noteq> None \<longrightarrow> ops \<noteq> [])"
    using assms rec c r
    by (auto simp: force_checkin_def bind_io_def step_apply attempt_def F_def [symmetric] decrypted_config_def outside_def
        Let_def split: prod.splits result.splits if_splits)
  then obtain ops answers where F: "F = Ok (ops, answers)" "response = CheckinResult answers" "requested \<noteq> None \<longrightarrow> ops \<noteq> []"
    by blast
  note f = forced_operations_char [OF F(1) [unfolded F_def]]
  then have "requested \<noteq> None \<longrightarrow> (\<exists>e\<in>set (known_monitors (ow_persisted ow1)). forced_target requested e)"
    using F(3) by (auto simp: filter_empty_conv)
  with f F(2) rec r show ?thesis by auto
qed

section \<open>Ports that leave the stores alone\<close>

text \<open>
  The contract of the stores, from its primitive operations: what every effect of the engine and every
  other port keeps is kept by discovery, planning, execution, recovery and commit.
\<close>

definition engine_keeps :: "('w \<Rightarrow> bool) \<Rightarrow> 'w engine_env \<Rightarrow> bool" where
  "engine_keeps I env \<longleftrightarrow> (\<forall>r. keeps I (env_append env r)) \<and> keeps I (env_recover env)
     \<and> (\<forall>rs. keeps I (env_compact env rs)) \<and> (\<forall>i q. keeps I (env_patch env i q))
     \<and> (\<forall>q. keeps I (env_checkout env q)) \<and> (\<forall>q. keeps I (env_checkin env q))
     \<and> keeps I (env_before_terminal env) \<and> keeps I (env_after_terminal env)"

lemma engine_keepsD:
  assumes "engine_keeps I env"
  shows "keeps I (env_append env r)" "keeps I (env_recover env)" "keeps I (env_compact env rs)"
    "keeps I (env_patch env i q)" "keeps I (env_checkout env c)" "keeps I (env_checkin env k)"
    "keeps I (env_before_terminal env)" "keeps I (env_after_terminal env)"
  using assms by (simp_all add: engine_keeps_def)

lemma keeps_pair_eq [keeping]: "(\<And>a b. keeps I (f a b)) \<Longrightarrow> keeps I (case_prod f p)"
  by (cases p) simp

lemma keeps_execute_checkouts:
  "engine_keeps I env \<Longrightarrow> keeps I (execute_checkouts env cd plan final ops s)"
proof (induction ops arbitrary: s)
  case (Cons q ops)
  show ?case using Cons
    by (cases s) (auto simp: Let_def prepare_def observe_remote_outcome_def simp del: ret_apply
        intro!: keeping engine_keepsD)
next
  case Nil
  then show ?case by (cases s) (simp add: keeping del: ret_apply)
qed

lemma keeps_execute_checkins:
  "engine_keeps I env \<Longrightarrow> keeps I (execute_checkins env cd plan final ops s)"
proof (induction ops arbitrary: s)
  case (Cons q ops)
  show ?case using Cons
    by (cases s) (auto simp: Let_def prepare_def observe_remote_outcome_def simp del: ret_apply
        intro!: keeping engine_keepsD)
next
  case Nil
  then show ?case by (cases s) (simp add: keeping del: ret_apply)
qed

lemma keeps_execute_patch:
  "engine_keeps I env \<Longrightarrow> keeps I (execute_patch env cd plan final computer s)"
  unfolding execute_patch_def
  by (auto simp: Let_def prepare_def observe_remote_outcome_def simp del: ret_apply
      intro!: keeping engine_keepsD split: option.split)

lemma keeps_execute_plan:
  "engine_keeps I env \<Longrightarrow> keeps I (execute_plan_with_candidate env cd plan computer base final)"
  unfolding execute_plan_with_candidate_def execute_plan_inner_def
  by (intro keeping keeps_execute_patch keeps_execute_checkouts keeps_execute_checkins)

lemma keeps_replay_one: "engine_keeps I env \<Longrightarrow> keeps I (replay_one env cd i op)"
  unfolding replay_one_def by (intro keeping engine_keepsD)

lemma keeps_recover_one: "engine_keeps I env \<Longrightarrow> keeps I (recover_one env cd p)"
  unfolding recover_one_def observe_remote_outcome_def Let_def by (intro keeping keeps_replay_one engine_keepsD)

lemma keeps_recover_pending: "engine_keeps I env \<Longrightarrow> keeps I (recover_pending env cd)"
proof -
  assume e: "engine_keeps I env"
  have "keeps I (recover_each env cd ps seen)" for ps seen
    by (induction ps arbitrary: seen) (auto simp: keeps_recover_one [OF e] simp del: ret_apply intro!: keeping)
  then show ?thesis unfolding recover_pending_def by (intro keeping engine_keepsD [OF e])
qed

lemma keeps_commit_after_save: "engine_keeps I env \<Longrightarrow> keeps I (commit_after_state_save_with env ids)"
proof -
  assume e: "engine_keeps I env"
  have "keeps I (each_io (\<lambda>i. env_append env (StateCommitted i)) ids)"
    by (induction ids) (auto simp: engine_keepsD [OF e] simp del: ret_apply intro!: keeping)
  then show ?thesis unfolding commit_after_state_save_with_def compact_after_state_commit_def
    by (intro keeping engine_keepsD [OF e])
qed

lemma keeps_find_optional: "(\<And>s. keeps I (rr_find_asset remote s)) \<Longrightarrow> keeps I (find_optional remote s)"
  by (auto simp: keeps_def find_optional_def split: prod.splits) (metis snd_conv)

lemma keeps_gather:
  assumes "keeps I discover" "\<And>s. keeps I (rr_find_asset remote s)" "\<And>a b. keeps I (rr_resolve_taxonomy remote a b)"
  shows "keeps I (gather_sync discover remote)"
proof -
  have "keeps I (gather_monitors remote ms s)" for ms s
  proof (induction ms arbitrary: s)
    case (Cons m ms)
    then show ?case
      by (cases s) (auto simp: Let_def simp del: ret_apply intro!: keeping keeps_find_optional assms)
  qed (simp add: keeping del: ret_apply)
  then show ?thesis unfolding gather_sync_def by (intro keeping keeps_find_optional assms)
qed

text \<open>The ports other than the saves, at their primitive operations.\<close>

definition ports_keep :: "('w \<Rightarrow> bool) \<Rightarrow> ('w, 'r) owner_ports \<Rightarrow> bool" where
  "ports_keep I ports \<longleftrightarrow> (\<forall>c. keeps I (op_decrypt ports c)) \<and> (\<forall>t. keeps I (op_encrypt ports t))
     \<and> (\<forall>s. keeps I (op_build ports s)) \<and> (\<forall>s t. keeps I (op_guard ports s t)) \<and> keeps I (op_load ports)
     \<and> (\<forall>w. I w \<longrightarrow> I (snd (op_now ports w))) \<and> keeps I (op_discover ports)
     \<and> (\<forall>r. engine_keeps I (op_engine ports r))
     \<and> (\<forall>r s. keeps I (rr_find_asset (op_reads ports r) s)) \<and> (\<forall>r a b. keeps I (rr_resolve_taxonomy (op_reads ports r) a b))"

lemma port_step_keeps:
  assumes "ports_keep I ports" "port_step ports w w'" "I w"
  shows "I w'"
  using assms(2)
proof cases
  case (gather remote g)
  have "keeps I (gather_sync (op_discover ports) (op_reads ports remote))"
    using assms(1) by (intro keeps_gather) (simp_all add: ports_keep_def)
  from keepsD [OF this assms(3) gather] show ?thesis .
next
  case (recover remote c)
  have "keeps I (recover_pending (op_engine ports remote) (op_codec ports))"
    using assms(1) by (intro keeps_recover_pending) (simp add: ports_keep_def)
  from keepsD [OF this assms(3) recover] show ?thesis .
next
  case (execute remote plan computer persisted candidate x)
  have "keeps I (execute_plan_with_candidate (op_engine ports remote) (op_codec ports) plan computer persisted candidate)"
    using assms(1) by (intro keeps_execute_plan) (simp add: ports_keep_def)
  from keepsD [OF this assms(3) execute] show ?thesis .
next
  case (commit remote ids y)
  have "keeps I (commit_saved ports remote ids)"
    using assms(1) unfolding commit_saved_def by (intro keeping keeps_commit_after_save) (simp add: ports_keep_def)
  from keepsD [OF this assms(3) commit] show ?thesis .
next
  case (now i)
  then show ?thesis using assms(1,3) by (metis ports_keep_def snd_conv)
next
  case (guard s t u)
  have "keeps I (op_guard ports s t)" using assms(1) by (simp add: ports_keep_def)
  from keepsD [OF this assms(3) guard] show ?thesis .
qed (use assms(1,3) in \<open>auto simp: ports_keep_def dest: keepsD\<close>)

section \<open>What is active is durable\<close>

text \<open>
  The contract of the two stores, by readers of the stored settings and state and a flag \<open>torn\<close> that
  some save has failed after it replaced the stored bytes: a save that succeeds stores what it
  activates, a save that fails stores nothing unless it is torn, and nothing else touches a store.
\<close>

definition durable_ports ::
  "('w, 'r) owner_ports \<Rightarrow> ('w \<Rightarrow> settings) \<Rightarrow> ('w \<Rightarrow> service_state) \<Rightarrow> ('w \<Rightarrow> bool) \<Rightarrow> bool" where
  "durable_ports ports stored_settings stored_state torn \<longleftrightarrow>
     (\<forall>w0. ports_keep (\<lambda>w. stored_settings w = stored_settings w0 \<and> stored_state w = stored_state w0 \<and> torn w = torn w0) ports)
     \<and> (\<forall>s w. case op_save_settings ports s w of
          (Ok _, w') \<Rightarrow> stored_settings w' = s \<and> stored_state w' = stored_state w \<and> torn w' = torn w
        | (Err _, w') \<Rightarrow> torn w' \<or>
            (stored_settings w' = stored_settings w \<and> stored_state w' = stored_state w \<and> torn w' = torn w))
     \<and> (\<forall>s w. case op_save_state ports s w of
          (Ok saved, w') \<Rightarrow> stored_settings w' = stored_settings w \<and> stored_state w' = saved \<and> torn w' = torn w
        | (Err _, w') \<Rightarrow> torn w' \<or>
            (stored_settings w' = stored_settings w \<and> stored_state w' = stored_state w \<and> torn w' = torn w))"

definition active_is_durable ::
  "('w \<Rightarrow> settings) \<Rightarrow> ('w \<Rightarrow> service_state) \<Rightarrow> ('w \<Rightarrow> bool) \<Rightarrow> 'r owner \<times> 'w \<Rightarrow> bool" where
  "active_is_durable stored_settings stored_state torn = (\<lambda>(ow, w).
     torn w \<or> (ow_settings ow = stored_settings w \<and> ow_persisted ow = stored_state w))"

lemma durable_settings_saved:
  assumes "durable_ports ports ss st torn"
  shows "case op_save_settings ports s w of
      (Ok _, w') \<Rightarrow> ss w' = s \<and> st w' = st w \<and> torn w' = torn w
    | (Err _, w') \<Rightarrow> torn w' \<or> (ss w' = ss w \<and> st w' = st w \<and> torn w' = torn w)"
  by (rule assms [unfolded durable_ports_def, THEN conjunct2, THEN conjunct1, rule_format])

lemma durable_state_saved:
  assumes "durable_ports ports ss st torn"
  shows "case op_save_state ports candidate w of
      (Ok saved, w') \<Rightarrow> ss w' = ss w \<and> st w' = saved \<and> torn w' = torn w
    | (Err _, w') \<Rightarrow> torn w' \<or> (ss w' = ss w \<and> st w' = st w \<and> torn w' = torn w)"
  by (rule assms [unfolded durable_ports_def, THEN conjunct2, THEN conjunct2, rule_format])

lemma durable_port_step:
  assumes "durable_ports ports ss st torn" "port_step ports w w'"
  shows "ss w' = ss w \<and> st w' = st w \<and> torn w' = torn w"
  by (rule port_step_keeps [OF assms(1) [unfolded durable_ports_def, THEN conjunct1, THEN spec, of w] assms(2)]) simp

lemma durable_contract:
  fixes ports :: "('w, 'r) owner_ports"
  assumes "durable_ports ports ss st torn"
  shows "owner_commands ports (active_is_durable ss st torn)"
proof
  fix candidate
  show "keeps (active_is_durable ss st torn) (save_and_activate ports candidate)"
    unfolding keeps_def
  proof (intro allI impI)
    fix s :: "'r owner \<times> 'w" assume I: "active_is_durable ss st torn s"
    obtain ow w where s: "s = (ow, w)" by (cases s)
    obtain r w' where m: "op_save_state ports candidate w = (r, w')" by (rule prod.exhaust)
    with I s durable_state_saved [OF assms, where candidate = candidate and w = w] show "active_is_durable ss st torn (snd (save_and_activate ports candidate s))"
      by (cases r) (auto simp: save_and_activate_def bind_io_def outside_def step_apply active_is_durable_def)
  qed
next
  fix ow :: "'r owner" and w s w' polling and remote :: 'r
  note law = durable_settings_saved [OF assms, where s = s and w = w]
  { assume "active_is_durable ss st torn (ow, w)" "op_save_settings ports s w = (Ok (), w')"
    with law show "active_is_durable ss st torn
        (ow\<lparr>ow_polling := polling, ow_settings := s, ow_remote := remote, ow_state := configured_state s\<rparr>, w')"
      by (auto simp: active_is_durable_def) }
  { fix e assume "active_is_durable ss st torn (ow, w)" "op_save_settings ports s w = (Err e, w')"
    with law show "active_is_durable ss st torn (ow, w')" by (auto simp: active_is_durable_def) }
next
  fix w w' :: 'w and ow :: "'r owner"
  assume "port_step ports w w'" "active_is_durable ss st torn (ow, w)"
  with durable_port_step [OF assms] show "active_is_durable ss st torn (ow, w')" by (simp add: active_is_durable_def)
qed (auto simp: active_is_durable_def)

text \<open>
  What is active is what is stored.  With stores that keep their contract, after every command,
  whatever it answers and wherever it failed, the owner's active settings and persisted state are
  exactly the stored ones, unless some save has failed after replacing the stored bytes.
\<close>

theorem active_stays_durable:
  assumes "durable_ports ports stored_settings stored_state torn"
    and "active_is_durable stored_settings stored_state torn (ow, w)"
  shows "active_is_durable stored_settings stored_state torn (snd (handle ports command (ow, w)))"
  by (rule owner_commands.handle_keeps [OF durable_contract [OF assms(1)] assms(2)])

section \<open>Witnesses\<close>

text \<open>
  Ports over a world that holds the stored settings and state; the journal's recovery answers as given,
  and the remote, the discovery and the other journal effects do nothing or fail.
\<close>

definition quiet_engine :: "(recovery_outcome, failure) result \<Rightarrow> 'w engine_env" where
  "quiet_engine recovery =
     \<lparr>env_append = (\<lambda>_. ret ()), env_recover = (\<lambda>w. (recovery, w)), env_compact = (\<lambda>_. ret ()),
      env_patch = (\<lambda>_ _. fail (Remote NotFound)), env_checkout = (\<lambda>_. fail (Remote NotFound)),
      env_checkin = (\<lambda>_. ret ()), env_before_terminal = ret (), env_after_terminal = ret ()\<rparr>"

definition demo_ports :: "(recovery_outcome, failure) result \<Rightarrow> (settings \<times> service_state, unit) owner_ports" where
  "demo_ports recovery =
     \<lparr>op_encrypt = ret, op_decrypt = (\<lambda>_. ret ''token''),
      op_save_settings = (\<lambda>s (_, st). (Ok (), (s, st))), op_save_state = (\<lambda>st (s, _). (Ok st, (s, st))),
      op_build = (\<lambda>_. ret ()), op_engine = (\<lambda>_. quiet_engine recovery),
      op_reads = (\<lambda>_. \<lparr>rr_find_asset = (\<lambda>_. ret None), rr_resolve_taxonomy = (\<lambda>_ _. fail (Message ''unused''))\<rparr>),
      op_discover = fail (Message ''no hardware''), op_now = (\<lambda>w. (0, w)), op_rfc3339 = (\<lambda>_. ''now''),
      op_hours = demo_hours, op_guard = (\<lambda>_ _. ret ()), op_load = ret [], op_codec = wire_codec\<rparr>"

definition demo_configured :: settings where
  "demo_configured = default_settings\<lparr>s_snipeit := \<lparr>url = ''https://x'', api_token_encrypted = [1],
     checkout_status_id = 7, checkin_status_id = 8\<rparr>\<rparr>"

definition demo_owner :: "settings \<Rightarrow> unit owner" where
  "demo_owner s = \<lparr>ow_settings = s, ow_state = configured_state s, ow_persisted = default_state, ow_remote = (),
     ow_publisher = Some new_publisher, ow_polling = 4\<rparr>"

lemma demo_configured: "config_status demo_configured = []" "validate_settings demo_configured = Ok ()"
  "config_status default_settings \<noteq> []" "validate_settings default_settings = Ok ()"
  by code_simp+

lemma demo_fields [simp]:
  "ow_settings (demo_owner s) = s" "ow_persisted (demo_owner s) = default_state" "known_monitors default_state = []"
  "op_decrypt (demo_ports recovery) c w = (Ok ''token'', w)" "op_engine (demo_ports recovery) u = quiet_engine recovery"
  by (simp_all add: demo_owner_def demo_ports_def default_state_def)

lemma demo_owner_ok: "owner_ok (demo_owner demo_configured)"
  by (simp add: owner_ok_def demo_owner_def configured_state_def demo_configured)

lemma demo_hours_in_range: "hours_in_range (op_hours (demo_ports recovery))"
  by (auto simp: hours_in_range_def demo_ports_def demo_hours_def i64_max_def)

theorem handle_well_formed_witness:
  "\<exists>response ow' w'. handle (demo_ports (Ok (Clean []))) TriggerSync (demo_owner demo_configured, (demo_configured, default_state))
     = (Some response, (ow', w')) \<and> owner_ok ow'"
  by (rule handle_well_formed [OF demo_hours_in_range demo_owner_ok])

theorem published_status_is_owners_witness:
  "\<exists>ow' p. ow_publisher ow' = Some p
     \<and> project_status (pb_status p) \<lparr>sn_config_generation = 9, sn_next_sync = None\<rparr> True
        = status_response (demo_ports (Ok (Clean []))) ow' True"
proof -
  let ?P = "demo_ports (Ok (Clean []))" and ?w = "(demo_configured, default_state)"
  define ow where "ow = published ?P (demo_owner demo_configured)"
  have h: "handle ?P GetStatus (demo_owner demo_configured, ?w)
      = (Some (status_response ?P (demo_owner demo_configured) False), (ow, ?w))"
    by (simp add: handle_def bind_io_def step_apply publish_apply ow_def)
  have "\<exists>p. ow_publisher ow = Some p \<and> ps_config_generation (pb_status p) = 0"
    by (simp add: ow_def published_def publish_snapshot_def update_def demo_owner_def publish_def from_parts_def new_publisher_def)
  then obtain p where p: "ow_publisher ow = Some p" "ps_config_generation (pb_status p) = 0" by blast
  have "owner_ok ow" using demo_owner_ok by (simp add: ow_def owner_ok_def)
  from published_status_is_owners [OF h p(1) this, of "\<lparr>sn_config_generation = 9, sn_next_sync = None\<rparr>"] p show ?thesis
    by auto
qed

theorem failed_recovery_stops_witness:
  "\<exists>ow2. handle (demo_ports (Err (Message ''disk''))) TriggerSync (demo_owner demo_configured, (demo_configured, default_state))
     = (Some (protocol_error (Message ''disk'')), (ow2, (demo_configured, default_state))) \<and> ow_state ow2 = ErrorState"
proof -
  have "recover_before_new_work (demo_ports (Err (Message ''disk''))) (demo_owner demo_configured, (demo_configured, default_state))
      = (Err (Message ''disk''), (demo_owner demo_configured, (demo_configured, default_state)))"
    by (simp add: recover_before_new_work_def recover_owner_state_with_finalization_def bind_io_def step_apply outside_def
        recover_pending_def quiet_engine_def)
  from failed_recovery_stops [OF _ this, of TriggerSync] show ?thesis
    by (auto simp: demo_owner_def demo_configured state_after_sync_error_def)
qed

theorem settings_change_is_gated_witness:
  "fst (handle (demo_ports (Ok (Clean []))) (SetConfig ''polling.interval_hours'' ''8'')
      (demo_owner demo_configured, (demo_configured, default_state))) = Some (OkResponse ''updated polling.interval_hours'')"
proof -
  let ?h = "handle (demo_ports (Ok (Clean []))) (SetConfig ''polling.interval_hours'' ''8'') (demo_owner demo_configured, (demo_configured, default_state))"
  obtain response ow' w' where h: "?h = (response, (ow', w'))"
    by (metis prod.exhaust)
  have "ow_settings (fst (snd ?h)) \<noteq> ow_settings (demo_owner demo_configured)"
    by code_simp
  with settings_change_is_gated [OF h] h show ?thesis
    by (auto simp: change_gated_def)
qed

lemma demo_recovers:
  "recover_before_new_work (demo_ports (Ok (Clean []))) (ow, w) = (Ok (), (published (demo_ports (Ok (Clean []))) ow, w))"
proof -
  have "recover_pending (quiet_engine (Ok (Clean []))) cd w = (Ok [], w)" for cd
    by (simp add: recover_pending_def bind_io_def quiet_engine_def clean_records_def demo_no_records)
  then show ?thesis
    by (simp add: recover_before_new_work_def recover_owner_state_with_finalization_def bind_io_def step_apply outside_def
        publish_apply)
qed

theorem forced_checkin_exact_witness:
  "\<exists>ow1 w1. recover_before_new_work (demo_ports (Ok (Clean []))) (demo_owner demo_configured, (demo_configured, default_state)) = (Ok (), (ow1, w1))"
proof -
  have "force_checkin (demo_ports (Ok (Clean []))) None (demo_owner demo_configured, (demo_configured, default_state))
      = (Ok (CheckinResult []), (published (demo_ports (Ok (Clean []))) (demo_owner demo_configured), (demo_configured, default_state)))"
    by (simp add: force_checkin_def bind_io_def step_apply outside_def attempt_def demo_recovers decrypted_config_def
        demo_configured)
  from forced_checkin_exact [OF this] show ?thesis by blast
qed

lemma demo_durable: "durable_ports (demo_ports recovery) fst snd (\<lambda>_. False)"
  by (auto simp: durable_ports_def demo_ports_def ports_keep_def engine_keeps_def quiet_engine_def keeps_def)

theorem active_stays_durable_witness:
  "active_is_durable fst snd (\<lambda>_. False)
     (snd (handle (demo_ports (Ok (Clean []))) (SetConfig ''polling.interval_hours'' ''12'')
        (demo_owner demo_configured, (demo_configured, default_state))))"
  by (rule active_stays_durable [OF demo_durable]) (simp add: active_is_durable_def demo_owner_def)

end
