(* ===== verification/Machines.thy ===== *)
theory Machines
  imports Main
begin

text \<open>
  State machines: what holds of the start and is kept by every step holds of every state that is
  reached.  The service's command loop, its scheduler and the accept loop of its pipe are instances.
\<close>

inductive reached :: "'s \<Rightarrow> ('s \<Rightarrow> 's \<Rightarrow> bool) \<Rightarrow> 's \<Rightarrow> bool" for start step where
  start: "reached start step start"
| step: "reached start step s \<Longrightarrow> step s t \<Longrightarrow> reached start step t"

locale machine =
  fixes start :: 's
    and step :: "'s \<Rightarrow> 's \<Rightarrow> bool"
    and inv :: "'s \<Rightarrow> bool"
  assumes inv_start: "inv start"
    and inv_step: "inv s \<Longrightarrow> step s t \<Longrightarrow> inv t"
begin

lemma inv_reached: "reached start step s \<Longrightarrow> inv s"
  by (induction rule: reached.induct) (auto intro: inv_start inv_step)

text \<open>A quantity that no step lowers never falls along a run.\<close>

lemma grows:
  assumes "\<And>s t. inv s \<Longrightarrow> step s t \<Longrightarrow> f s \<le> (f t :: nat)" "step\<^sup>*\<^sup>* s t" "inv s"
  shows "f s \<le> f t"
proof -
  from assms(2,3) have "inv t \<and> f s \<le> f t"
    by (induction rule: rtranclp_induct) (auto dest: assms(1) intro: inv_step order_trans)
  then show ?thesis ..
qed

end

end
