(* ===== verification/Fsm.thy ===== *)
theory Fsm
  imports Machines Lifecycle
begin

text \<open>
  \<open>spotter-svc/src/fsm.rs\<close>: the bounded command queue with one owner loop, the claim of a
  synchronization and its generations.  A step is what one task does between two points at which
  others may run; a caller waits in \<open>send\<close> while the queue is full and may be dropped there.  The
  generations are counted as natural numbers: statements hold short of \<open>2 ^ 64\<close> synchronizations.
\<close>

section \<open>State\<close>

record fsm_request =
  fr_command :: service_command
  fr_caller :: nat
  fr_generation :: "nat option"

text \<open>The loop's position: waiting, in the handler, and the steps after a handler.\<close>

datatype loop_state =
    Receiving
  | Handling fsm_request
  | Handled fsm_request ipc_response
  | Cleared fsm_request ipc_response
  | Completed fsm_request ipc_response
  | Gone

text \<open>
  The callers that wait in \<open>send\<close>, the channel, the loop, the claim slot, the two counters, and the
  answers given to callers (none: the service is unavailable).
\<close>

record fsm =
  fs_capacity :: nat
  fs_waiting :: "fsm_request list"
  fs_queue :: "fsm_request list"
  fs_loop :: loop_state
  fs_slot :: "nat option"
  fs_next :: nat
  fs_completed :: nat
  fs_answers :: "(nat \<times> ipc_response option) list"

definition spawn :: "nat \<Rightarrow> fsm option" where
  "spawn capacity =
     (if capacity = 0 then None
      else Some \<lparr>fs_capacity = capacity, fs_waiting = [], fs_queue = [], fs_loop = Receiving, fs_slot = None,
                 fs_next = 0, fs_completed = 0, fs_answers = []\<rparr>)"

section \<open>Callers\<close>

text \<open>
  What a caller gets before it waits: the claim it joined, or the generation it waits to submit.
\<close>

datatype sync_enqueue = Coalesced nat | Accepted nat

definition enqueue_with_generation :: "service_command \<Rightarrow> nat \<Rightarrow> fsm \<Rightarrow> sync_enqueue \<times> fsm" where
  "enqueue_with_generation command caller st =
     (if command = TriggerSync then
        (case fs_slot st of
           Some pending \<Rightarrow>
             (Coalesced pending, st\<lparr>fs_answers := fs_answers st @ [(caller, Some (OkResponse ''sync already queued''))]\<rparr>)
         | None \<Rightarrow>
             let allocated = fs_next st + 1 in
             (Accepted allocated,
              st\<lparr>fs_next := allocated, fs_slot := Some allocated,
                 fs_waiting := fs_waiting st @ [\<lparr>fr_command = command, fr_caller = caller, fr_generation = Some allocated\<rparr>]\<rparr>))
      else
        (Accepted 0,
         st\<lparr>fs_waiting := fs_waiting st @ [\<lparr>fr_command = command, fr_caller = caller, fr_generation = None\<rparr>]\<rparr>))"

definition clear_claim :: "fsm_request \<Rightarrow> fsm \<Rightarrow> fsm" where
  "clear_claim r st = (if fr_generation r = None then st else st\<lparr>fs_slot := None\<rparr>)"

text \<open>
  The send of the caller that waits longest: it fails if the loop is gone, and waits while the
  channel is full.
\<close>

definition submit :: "fsm \<Rightarrow> fsm option" where
  "submit st =
     (case fs_waiting st of
        [] \<Rightarrow> None
      | r # rs \<Rightarrow>
          if fs_loop st = Gone
          then Some (clear_claim r (st\<lparr>fs_waiting := rs, fs_answers := fs_answers st @ [(fr_caller r, None)]\<rparr>))
          else if length (fs_queue st) < fs_capacity st
          then Some (st\<lparr>fs_waiting := rs, fs_queue := fs_queue st @ [r]\<rparr>)
          else None)"

text \<open>A caller dropped while its send waits: the claim guard clears the slot.\<close>

definition cancel :: "nat \<Rightarrow> fsm \<Rightarrow> fsm option" where
  "cancel n st =
     (if n < length (fs_waiting st)
      then Some (clear_claim (fs_waiting st ! n) (st\<lparr>fs_waiting := take n (fs_waiting st) @ drop (Suc n) (fs_waiting st)\<rparr>))
      else None)"

section \<open>The loop\<close>

text \<open>One step of the loop; the handler's answer is a parameter.\<close>

definition loop_step :: "(service_command \<Rightarrow> ipc_response) \<Rightarrow> fsm \<Rightarrow> fsm option" where
  "loop_step handler st =
     (case fs_loop st of
        Receiving \<Rightarrow> (case fs_queue st of [] \<Rightarrow> None | r # rs \<Rightarrow> Some (st\<lparr>fs_queue := rs, fs_loop := Handling r\<rparr>))
      | Handling r \<Rightarrow> Some (st\<lparr>fs_loop := Handled r (handler (fr_command r))\<rparr>)
      | Handled r response \<Rightarrow>
          Some (if fr_command r = TriggerSync then st\<lparr>fs_slot := None, fs_loop := Cleared r response\<rparr>
                else st\<lparr>fs_loop := Completed r response\<rparr>)
      | Cleared r response \<Rightarrow>
          Some (case fr_generation r of
                  Some generation \<Rightarrow> st\<lparr>fs_completed := generation, fs_loop := Completed r response\<rparr>
                | None \<Rightarrow> st\<lparr>fs_loop := Completed r response\<rparr>)
      | Completed r response \<Rightarrow>
          Some (st\<lparr>fs_loop := Receiving, fs_answers := fs_answers st @ [(fr_caller r, Some response)]\<rparr>)
      | Gone \<Rightarrow> None)"

text \<open>
  A panic of the handler ends the loop's task: the receiver goes with it, and neither the request in
  hand nor the queued ones get a response.
\<close>

definition loop_panic :: "fsm \<Rightarrow> fsm option" where
  "loop_panic st =
     (case fs_loop st of
        Handling r \<Rightarrow>
          Some (st\<lparr>fs_loop := Gone, fs_queue := [],
                   fs_answers := fs_answers st @ List.map (\<lambda>q. (fr_caller q, None)) (r # fs_queue st)\<rparr>)
      | _ \<Rightarrow> None)"

text \<open>\<open>wait_for_sync_generation\<close> returns once the completed generation reaches its target.\<close>

definition generation_reached :: "nat \<Rightarrow> fsm \<Rightarrow> bool" where
  "generation_reached target_generation st \<longleftrightarrow> fs_completed st \<ge> target_generation"

inductive fsm_step :: "fsm \<Rightarrow> fsm \<Rightarrow> bool" where
  enqueue: "fsm_step st (snd (enqueue_with_generation command caller st))"
| submit: "submit st = Some st' \<Longrightarrow> fsm_step st st'"
| cancel: "cancel n st = Some st' \<Longrightarrow> fsm_step st st'"
| loop: "loop_step handler st = Some st' \<Longrightarrow> fsm_step st st'"

section \<open>The status path\<close>

text \<open>
  \<open>request_status\<close>: the attached publication before the handle's own snapshot, each under the
  schedule; without either (\<open>None\<close>) the command goes through the queue.
\<close>

definition request_status ::
  "public_status option \<Rightarrow> public_status option \<Rightarrow> schedule_snapshot option \<Rightarrow> bool \<Rightarrow> ipc_response option" where
  "request_status attached own schedule full =
     (case (case attached of Some p \<Rightarrow> Some p | None \<Rightarrow> own) of
        None \<Rightarrow> None
      | Some status \<Rightarrow>
          Some (project_status status
            (case schedule of Some s \<Rightarrow> s
             | None \<Rightarrow> \<lparr>sn_config_generation = ps_config_generation status, sn_next_sync = None\<rparr>) full))"

section \<open>The invariant\<close>

definition generations :: "fsm_request list \<Rightarrow> nat list" where
  "generations rs = List.map_filter fr_generation rs"

fun claimed_by_loop :: "loop_state \<Rightarrow> fsm_request list" where
  "claimed_by_loop (Handling r) = [r]"
| "claimed_by_loop (Handled r _) = [r]"
| "claimed_by_loop _ = []"

fun finishing_in_loop :: "loop_state \<Rightarrow> fsm_request list" where
  "finishing_in_loop (Cleared r _) = [r]"
| "finishing_in_loop _ = []"

definition slot_list :: "fsm \<Rightarrow> nat list" where
  "slot_list st = (case fs_slot st of None \<Rightarrow> [] | Some g \<Rightarrow> [g])"

text \<open>The requests not yet answered, from the loop to the callers that wait.\<close>

definition outstanding :: "fsm \<Rightarrow> fsm_request list" where
  "outstanding st = claimed_by_loop (fs_loop st) @ fs_queue st @ fs_waiting st"

definition well_tagged :: "fsm_request \<Rightarrow> bool" where
  "well_tagged r \<longleftrightarrow> (fr_command r = TriggerSync \<longleftrightarrow> fr_generation r \<noteq> None)"

definition fsm_inv :: "fsm \<Rightarrow> bool" where
  "fsm_inv st \<longleftrightarrow> fs_loop st \<noteq> Gone \<and> length (fs_queue st) \<le> fs_capacity st \<and> 0 < fs_capacity st
     \<and> generations (outstanding st) = slot_list st
     \<and> (\<forall>r\<in>set (outstanding st @ finishing_in_loop (fs_loop st)). well_tagged r)
     \<and> sorted_wrt (<) (fs_completed st # generations (finishing_in_loop (fs_loop st)) @ slot_list st)
     \<and> (\<forall>g\<in>set (fs_completed st # generations (finishing_in_loop (fs_loop st)) @ slot_list st). g \<le> fs_next st)"

lemma generations_simps [simp]:
  "generations [] = []"
  "generations (r # rs) = (case fr_generation r of None \<Rightarrow> [] | Some g \<Rightarrow> [g]) @ generations rs"
  "generations (rs @ qs) = generations rs @ generations qs"
  by (auto simp: generations_def List.map_filter_def split: option.splits)

lemma generations_take_drop:
  "n < length rs \<Longrightarrow>
   generations rs = generations (take n rs) @ generations [rs ! n] @ generations (drop (Suc n) rs)"
  by (metis append_Cons append_Nil generations_simps(3) id_take_nth_drop)

lemma inv_enqueue: "fsm_inv st \<Longrightarrow> fsm_inv (snd (enqueue_with_generation command caller st))"
  by (auto simp: fsm_inv_def enqueue_with_generation_def outstanding_def slot_list_def well_tagged_def Let_def
      sorted_wrt_append less_Suc_eq_le split: option.splits)

lemma inv_submit: "fsm_inv st \<Longrightarrow> submit st = Some st' \<Longrightarrow> fsm_inv st'"
  by (auto simp: fsm_inv_def submit_def outstanding_def slot_list_def split: list.splits if_splits)

lemma inv_cancel:
  assumes "fsm_inv st" "cancel n st = Some st'"
  shows "fsm_inv st'"
proof -
  have n: "n < length (fs_waiting st)" and
    st': "st' = clear_claim (fs_waiting st ! n)
            (st\<lparr>fs_waiting := take n (fs_waiting st) @ drop (Suc n) (fs_waiting st)\<rparr>)"
    using assms(2) by (auto simp: cancel_def split: if_splits)
  let ?rest = "take n (fs_waiting st) @ drop (Suc n) (fs_waiting st)"
  have sub: "set ?rest \<subseteq> set (fs_waiting st)"
    using set_take_subset [of n "fs_waiting st"] set_drop_subset [of "Suc n" "fs_waiting st"] by auto
  show ?thesis
  proof (cases "fr_generation (fs_waiting st ! n)")
    case None
    then have "generations ?rest = generations (fs_waiting st)"
      using generations_take_drop [OF n] by simp
    then show ?thesis
      using assms(1) sub None unfolding st' fsm_inv_def outstanding_def slot_list_def clear_claim_def by auto
  next
    case (Some g)
    have "generations (claimed_by_loop (fs_loop st)) @ generations (fs_queue st) @ generations (fs_waiting st) = slot_list st"
      using assms(1) by (simp add: fsm_inv_def outstanding_def)
    then have "generations (claimed_by_loop (fs_loop st)) = []" "generations (fs_queue st) = []"
      "generations (take n (fs_waiting st)) = []" "generations (drop (Suc n) (fs_waiting st)) = []"
      using generations_take_drop [OF n] Some
      by (auto simp: slot_list_def append_eq_Cons_conv split: option.splits)
    then show ?thesis
      using assms(1) sub Some unfolding st' fsm_inv_def outstanding_def slot_list_def clear_claim_def
      by (auto simp: sorted_wrt_append split: option.splits)
  qed
qed

lemmas fsm_inv_defs = fsm_inv_def outstanding_def slot_list_def well_tagged_def

lemma inv_loop:
  assumes "fsm_inv st" "loop_step handler st = Some st'"
  shows "fsm_inv st'"
proof (cases "fs_loop st")
  case Receiving
  then show ?thesis
    using assms by (cases "fs_queue st") (auto simp: loop_step_def fsm_inv_defs)
next
  case (Handled r response)
  then show ?thesis
    using assms by (cases "fs_slot st"; cases "fr_generation r") (auto simp: loop_step_def fsm_inv_defs split: if_splits)
next
  case (Cleared r response)
  then show ?thesis
    using assms by (cases "fr_generation r") (auto simp: loop_step_def fsm_inv_defs)
qed (use assms in \<open>auto simp: loop_step_def fsm_inv_defs\<close>)

interpretation command_loop: machine "the (spawn (Suc n))" fsm_step fsm_inv for n
proof
  show "fsm_inv (the (spawn (Suc n)))"
    by (simp add: spawn_def fsm_inv_defs)
next
  fix s t
  assume "fsm_inv s" "fsm_step s t"
  then show "fsm_inv t"
    by (auto elim!: fsm_step.cases intro: inv_enqueue inv_submit inv_cancel inv_loop)
qed

section \<open>Synchronizations coalesce exactly\<close>

definition syncs :: "fsm_request list \<Rightarrow> fsm_request list" where
  "syncs rs = filter (\<lambda>r. fr_command r = TriggerSync) rs"

lemma syncs_generations:
  "\<forall>r\<in>set rs. well_tagged r \<Longrightarrow> List.map fr_generation (syncs rs) = List.map Some (generations rs)"
  by (induction rs) (auto simp: syncs_def well_tagged_def)

lemma inv_syncs:
  "fsm_inv st \<Longrightarrow> List.map fr_generation (syncs (outstanding st)) = List.map Some (slot_list st)"
  using syncs_generations [of "outstanding st"] by (auto simp: fsm_inv_def)

lemma slot_after_completed: "fsm_inv st \<Longrightarrow> fs_slot st = Some g \<Longrightarrow> fs_completed st < g \<and> g \<le> fs_next st"
  by (auto simp: fsm_inv_def slot_list_def)

lemma completed_le_next: "fsm_inv st \<Longrightarrow> fs_completed st \<le> fs_next st"
  by (auto simp: fsm_inv_def)

lemma inv_coalesces:
  assumes "fsm_inv st"
  shows "case fst (enqueue_with_generation TriggerSync caller st) of
           Coalesced g \<Rightarrow> (\<exists>r. syncs (outstanding st) = [r] \<and> fr_generation r = Some g) \<and> fs_completed st < g
         | Accepted g \<Rightarrow> syncs (outstanding st) = [] \<and> fs_completed st < g \<and> g = Suc (fs_next st)"
  using inv_syncs [OF assms] slot_after_completed [OF assms] completed_le_next [OF assms]
  by (auto simp: enqueue_with_generation_def slot_list_def map_eq_Cons_conv Let_def split: option.splits)

section \<open>Progress\<close>

text \<open>What moves without a new caller: the longest waiting send, and the loop.\<close>

definition progress :: "(service_command \<Rightarrow> ipc_response) \<Rightarrow> fsm \<Rightarrow> fsm \<Rightarrow> bool" where
  "progress handler st st' \<longleftrightarrow> loop_step handler st = Some st' \<or> submit st = Some st'"

fun loop_work :: "loop_state \<Rightarrow> nat" where
  "loop_work Receiving = 0"
| "loop_work (Handling _) = 4"
| "loop_work (Handled _ _) = 3"
| "loop_work (Cleared _ _) = 2"
| "loop_work (Completed _ _) = 1"
| "loop_work Gone = 0"

definition work :: "fsm \<Rightarrow> nat" where
  "work st = loop_work (fs_loop st) + 5 * length (fs_queue st) + 6 * length (fs_waiting st)"

lemma loop_step_works: "loop_step handler st = Some st' \<Longrightarrow> work st' < work st"
  by (auto simp: loop_step_def work_def split: loop_state.splits list.splits option.splits if_splits)

lemma submit_works: "submit st = Some st' \<Longrightarrow> work st' < work st"
  by (auto simp: submit_def work_def clear_claim_def split: list.splits if_splits)

lemma progress_works: "progress handler st st' \<Longrightarrow> work st' < work st"
  by (auto simp: progress_def dest: loop_step_works submit_works)

function drain :: "(service_command \<Rightarrow> ipc_response) \<Rightarrow> fsm \<Rightarrow> fsm" where
  "drain handler st =
     (case loop_step handler st of
        Some st' \<Rightarrow> drain handler st'
      | None \<Rightarrow> (case submit st of Some st' \<Rightarrow> drain handler st' | None \<Rightarrow> st))"
  by pat_completeness auto
termination
  by (relation "measure (\<lambda>(handler, st). work st)") (auto dest: loop_step_works submit_works)

declare drain.simps [simp del]

text \<open>The answers that the requests taken so far will get, and the generation they will complete.\<close>

fun loop_promise :: "(service_command \<Rightarrow> ipc_response) \<Rightarrow> loop_state \<Rightarrow> (nat \<times> ipc_response option) list" where
  "loop_promise handler Receiving = []"
| "loop_promise handler (Handling r) = [(fr_caller r, Some (handler (fr_command r)))]"
| "loop_promise handler (Handled r response) = [(fr_caller r, Some response)]"
| "loop_promise handler (Cleared r response) = [(fr_caller r, Some response)]"
| "loop_promise handler (Completed r response) = [(fr_caller r, Some response)]"
| "loop_promise handler Gone = []"

definition promised_answers :: "(service_command \<Rightarrow> ipc_response) \<Rightarrow> fsm \<Rightarrow> (nat \<times> ipc_response option) list" where
  "promised_answers handler st =
     fs_answers st @ loop_promise handler (fs_loop st)
       @ List.map (\<lambda>r. (fr_caller r, Some (handler (fr_command r)))) (fs_queue st @ fs_waiting st)"

definition promised_generation :: "fsm \<Rightarrow> nat" where
  "promised_generation st = last (fs_completed st # generations (finishing_in_loop (fs_loop st)) @ slot_list st)"

definition settled :: "(service_command \<Rightarrow> ipc_response) \<Rightarrow> fsm \<Rightarrow> fsm" where
  "settled handler st =
     st\<lparr>fs_waiting := [], fs_queue := [], fs_loop := Receiving, fs_slot := None,
        fs_completed := promised_generation st, fs_answers := promised_answers handler st\<rparr>"

lemmas settled_defs = settled_def promised_answers_def promised_generation_def slot_list_def

lemma submit_settled: "fsm_inv st \<Longrightarrow> submit st = Some st' \<Longrightarrow> settled handler st' = settled handler st"
  by (auto simp: settled_defs submit_def fsm_inv_def split: list.splits if_splits)

lemma loop_settled:
  assumes "fsm_inv st" "loop_step handler st = Some st'"
  shows "settled handler st' = settled handler st"
proof (cases "fs_loop st")
  case Receiving
  then show ?thesis
    using assms by (cases "fs_queue st") (auto simp: loop_step_def settled_defs)
next
  case (Handled r response)
  then show ?thesis
    using assms
    by (cases "fs_slot st"; cases "fr_generation r")
      (auto simp: loop_step_def fsm_inv_defs settled_defs split: if_splits)
next
  case (Cleared r response)
  then show ?thesis
    using assms by (cases "fr_generation r") (auto simp: loop_step_def fsm_inv_defs settled_defs)
qed (use assms in \<open>auto simp: loop_step_def settled_defs\<close>)

lemma inv_progress: "fsm_inv st \<Longrightarrow> progress handler st st' \<Longrightarrow> fsm_inv st'"
  by (auto simp: progress_def intro: inv_submit inv_loop)

lemma progress_settled: "fsm_inv st \<Longrightarrow> progress handler st st' \<Longrightarrow> settled handler st' = settled handler st"
  by (auto simp: progress_def intro: submit_settled loop_settled)

lemma progresses_settled:
  "(progress handler)\<^sup>*\<^sup>* st st' \<Longrightarrow> fsm_inv st \<Longrightarrow> fsm_inv st' \<and> settled handler st' = settled handler st"
  by (induction rule: rtranclp_induct) (auto intro: inv_progress dest: progress_settled)

lemma stuck_is_settled:
  assumes "fsm_inv st" "loop_step handler st = None" "submit st = None"
  shows "settled handler st = st"
proof -
  have loop: "fs_loop st = Receiving" "fs_queue st = []"
    using assms(1,2) by (auto simp: loop_step_def fsm_inv_def split: loop_state.splits list.splits option.splits)
  then have wait: "fs_waiting st = []"
    using assms(1,3) by (auto simp: submit_def fsm_inv_def split: list.splits if_splits)
  then have "fs_slot st = None"
    using assms(1) loop by (auto simp: fsm_inv_defs split: option.splits)
  then show ?thesis
    using loop wait by (simp add: settled_defs)
qed

lemma drain_is_settled: "fsm_inv st \<Longrightarrow> drain handler st = settled handler st"
proof (induction handler st rule: drain.induct)
  case (1 handler st)
  show ?case
  proof (cases "loop_step handler st")
    case loop: None
    show ?thesis
      by (cases "submit st")
        (use 1 loop in \<open>auto simp: drain.simps [of handler st] stuck_is_settled submit_settled intro: inv_submit\<close>)
  next
    case (Some st')
    then show ?thesis
      using 1 inv_loop [OF 1(3) Some] loop_settled [OF 1(3) Some] by (simp add: drain.simps [of handler st])
  qed
qed

lemma progress_terminates: "wf {(st', st). progress handler st st'}"
  by (rule wf_subset [OF wf_measure [of work]]) (auto dest: progress_works)

lemma drains_alike:
  "fsm_inv st \<Longrightarrow> (progress handler)\<^sup>*\<^sup>* st st' \<Longrightarrow> drain handler st' = settled handler st"
  using progresses_settled drain_is_settled by metis

section \<open>The properties\<close>

text \<open>
  C15: A request to synchronize joins another one exactly if one is taken and not yet answered by the
  handler; then there is only that one, and its generation is the one to wait for.  Otherwise a fresh
  generation is taken.  Either way the generation is not completed when the request is made, so that
  no caller is told of the completion of an earlier synchronization.
\<close>

theorem synchronizations_coalesce_exactly:
  assumes "reached (the (spawn (Suc n))) fsm_step st"
  shows "case fst (enqueue_with_generation TriggerSync caller st) of
           Coalesced g \<Rightarrow> (\<exists>r. syncs (outstanding st) = [r] \<and> fr_generation r = Some g) \<and> \<not> generation_reached g st
         | Accepted g \<Rightarrow> syncs (outstanding st) = [] \<and> g = Suc (fs_next st) \<and> \<not> generation_reached g st"
  using inv_coalesces [OF command_loop.inv_reached [OF assms], of caller]
  by (auto simp: generation_reached_def split: sync_enqueue.splits)

text \<open>
  C14: The loop serves whoever waits.  Whatever is reached, the sends and the loop cannot go on for
  ever without a new request, and in whatever order they run they end in one state: nothing waits,
  each request taken has its answer, in the order taken, the claim is free, and the generation that a
  joined synchronization waits for is completed.
\<close>

theorem command_loop_settles:
  assumes "reached (the (spawn (Suc n))) fsm_step st"
  shows "wf {(t, s). progress handler s t}
    \<and> (\<forall>st'. (progress handler)\<^sup>*\<^sup>* st st' \<longrightarrow> drain handler st' = settled handler st)
    \<and> generation_reached (case fs_slot st of Some g \<Rightarrow> g | None \<Rightarrow> fs_completed st) (settled handler st)"
proof -
  have inv: "fsm_inv st"
    by (rule command_loop.inv_reached [OF assms])
  then have "generation_reached (case fs_slot st of Some g \<Rightarrow> g | None \<Rightarrow> fs_completed st) (settled handler st)"
    by (auto simp: fsm_inv_def settled_defs generation_reached_def intro: less_imp_le split: option.splits)
  then show ?thesis
    using progress_terminates drains_alike [OF inv] by blast
qed

section \<open>A handler that panics\<close>

definition claim_stuck :: "nat \<Rightarrow> fsm \<Rightarrow> bool" where
  "claim_stuck g st \<longleftrightarrow> fs_loop st = Gone \<and> fs_slot st = Some g \<and> fs_completed st < g
     \<and> (\<forall>r\<in>set (fs_waiting st). fr_generation r = None)"

lemma generations_empty: "generations rs = [] \<longleftrightarrow> (\<forall>r\<in>set rs. fr_generation r = None)"
  by (induction rs) (auto split: option.splits)

lemma panic_sticks:
  assumes "fsm_inv st" "fs_loop st = Handling r" "fr_command r = TriggerSync" "loop_panic st = Some st'"
  shows "\<exists>g. fr_generation r = Some g \<and> claim_stuck g st'"
proof -
  obtain g where g: "fr_generation r = Some g"
    using assms(1-3) by (auto simp: fsm_inv_defs)
  then have "fs_slot st = Some g" "generations (fs_waiting st) = []"
    using assms(1,2) by (auto simp: fsm_inv_defs split: option.splits)
  then show ?thesis
    using assms g by (auto simp: claim_stuck_def loop_panic_def generations_empty dest: slot_after_completed)
qed

lemma stuck_stays:
  assumes "claim_stuck g st" "fsm_step st st'"
  shows "claim_stuck g st'"
  using assms(2,1)
proof cases
  case (cancel n)
  have "\<forall>r\<in>set (take n (fs_waiting st)) \<union> set (drop (Suc n) (fs_waiting st)). fr_generation r = None"
    using assms(1) unfolding claim_stuck_def by (meson UnE in_set_takeD in_set_dropD)
  then show ?thesis
    using cancel assms(1) by (auto simp: claim_stuck_def cancel_def clear_claim_def split: if_splits)
qed (auto simp: claim_stuck_def enqueue_with_generation_def submit_def loop_step_def clear_claim_def
    split: if_splits list.splits)

lemma stuck_for_ever: "fsm_step\<^sup>*\<^sup>* st st' \<Longrightarrow> claim_stuck g st \<Longrightarrow> claim_stuck g st'"
  by (induction rule: rtranclp_induct) (auto intro: stuck_stays)

text \<open>
  If the handler panics in a synchronization, its claim is never given back: the loop is gone, and
  yet every later request to synchronize is answered that one is already queued, and the generation
  it is told to wait for is never completed.
\<close>

theorem panicked_synchronization_stays_claimed:
  assumes "reached (the (spawn (Suc n))) fsm_step st" "fs_loop st = Handling r" "fr_command r = TriggerSync"
    and "loop_panic st = Some gone" "fsm_step\<^sup>*\<^sup>* gone later"
  shows "enqueue_with_generation TriggerSync caller later
       = (Coalesced (the (fr_generation r)),
          later\<lparr>fs_answers := fs_answers later @ [(caller, Some (OkResponse ''sync already queued''))]\<rparr>)
     \<and> fs_loop later = Gone \<and> \<not> generation_reached (the (fr_generation r)) later"
proof -
  obtain g where "fr_generation r = Some g" "claim_stuck g gone"
    using panic_sticks [OF command_loop.inv_reached [OF assms(1)] assms(2-4)] by blast
  moreover from this have "claim_stuck g later"
    using assms(5) by (blast intro: stuck_for_ever)
  ultimately show ?thesis
    by (simp add: claim_stuck_def enqueue_with_generation_def generation_reached_def)
qed

section \<open>Examples\<close>

text \<open>Two clients ask for a synchronization in a loop of capacity one, after a third asked for the settings.\<close>

definition demo_claimed :: fsm where
  "demo_claimed =
     (let ask = (\<lambda>command caller st. snd (enqueue_with_generation command caller st)) in
      ask TriggerSync 3 (ask TriggerSync 2 (ask GetConfig 1 (the (spawn (Suc 0))))))"

lemma demo_claimed_reached: "reached (the (spawn (Suc 0))) fsm_step demo_claimed"
  unfolding demo_claimed_def Let_def
  by (rule reached.step, rule reached.step, rule reached.step, rule reached.start) (rule fsm_step.enqueue)+

definition demo_handler :: "service_command \<Rightarrow> ipc_response" where
  "demo_handler command = OkResponse (if command = TriggerSync then ''sync'' else ''other'')"

lemmas demo_simps = demo_claimed_def spawn_def enqueue_with_generation_def Let_def

lemma synchronizations_coalesce_exactly_witness:
  "fst (enqueue_with_generation TriggerSync 4 demo_claimed) = Coalesced 1
   \<and> \<not> generation_reached 1 demo_claimed"
proof -
  have "fst (enqueue_with_generation TriggerSync 4 demo_claimed) = Coalesced 1"
    by (simp add: demo_simps)
  then show ?thesis
    using synchronizations_coalesce_exactly [OF demo_claimed_reached, of 4] by simp
qed

lemma command_loop_settles_witness:
  "drain demo_handler demo_claimed
     = demo_claimed\<lparr>fs_waiting := [], fs_slot := None, fs_completed := 1,
         fs_answers := [(3, Some (OkResponse ''sync already queued'')), (1, Some (OkResponse ''other'')),
                        (2, Some (OkResponse ''sync''))]\<rparr>"
proof -
  have "drain demo_handler demo_claimed = settled demo_handler demo_claimed"
    using command_loop_settles [OF demo_claimed_reached, of demo_handler] by blast
  then show ?thesis
    by (simp add: settled_defs demo_simps demo_handler_def)
qed

definition demo_taken :: fsm where
  "demo_taken =
     (let st = snd (enqueue_with_generation TriggerSync 1 (the (spawn (Suc 0)))) in
      the (loop_step demo_handler (the (submit st))))"

lemma demo_taken_eq:
  "demo_taken = \<lparr>fs_capacity = Suc 0, fs_waiting = [], fs_queue = [],
     fs_loop = Handling \<lparr>fr_command = TriggerSync, fr_caller = 1, fr_generation = Some 1\<rparr>,
     fs_slot = Some 1, fs_next = 1, fs_completed = 0, fs_answers = []\<rparr>"
  by (simp add: demo_taken_def spawn_def enqueue_with_generation_def submit_def loop_step_def Let_def)

lemma demo_taken_reached: "reached (the (spawn (Suc 0))) fsm_step demo_taken"
proof -
  define asked where "asked = snd (enqueue_with_generation TriggerSync 1 (the (spawn (Suc 0))))"
  define sent where "sent = the (submit asked)"
  have "reached (the (spawn (Suc 0))) fsm_step asked"
    unfolding asked_def by (rule reached.step, rule reached.start, rule fsm_step.enqueue)
  moreover have "submit asked = Some sent"
    by (simp add: sent_def asked_def spawn_def enqueue_with_generation_def submit_def Let_def)
  moreover have "loop_step demo_handler sent = Some demo_taken"
    unfolding demo_taken_eq
    by (simp add: sent_def asked_def spawn_def enqueue_with_generation_def submit_def loop_step_def Let_def)
  ultimately show ?thesis
    by (blast intro: reached.step fsm_step.submit fsm_step.loop)
qed

lemma panicked_synchronization_stays_claimed_witness:
  "fst (enqueue_with_generation TriggerSync 2 (the (loop_panic demo_taken))) = Coalesced 1
   \<and> \<not> generation_reached 1 (the (loop_panic demo_taken))"
proof -
  let ?r = "\<lparr>fr_command = TriggerSync, fr_caller = 1, fr_generation = Some 1\<rparr>"
  have "fs_loop demo_taken = Handling ?r" "loop_panic demo_taken = Some (the (loop_panic demo_taken))"
    by (simp_all add: demo_taken_eq loop_panic_def)
  then show ?thesis
    using panicked_synchronization_stays_claimed [OF demo_taken_reached, of ?r "the (loop_panic demo_taken)"
        "the (loop_panic demo_taken)" 2]
    by simp
qed

end
