(* ===== verification/Scheduler.thy ===== *)
theory Scheduler
  imports Machines Lifecycle
begin

text \<open>
  \<open>spotter-svc/src/scheduler.rs\<close>: the task that owns the deadline of the automatic
  synchronization, as a machine over the watch channel of its input.  Time is counted in whole units
  from the start of the clock; the text of a deadline is a parameter.
\<close>

section \<open>The projection of the next attempt\<close>

definition project_next_sync ::
  "(nat \<Rightarrow> nat \<Rightarrow> string) \<Rightarrow> bool \<Rightarrow> nat \<Rightarrow> nat \<Rightarrow> u64 \<Rightarrow> u64 \<Rightarrow> nat \<Rightarrow> (nat \<times> string) option" where
  "project_next_sync rfc3339_from_instant configured interval completed_at observed_generation current_generation now =
     (if \<not> configured \<or> observed_generation \<noteq> current_generation then None
      else if interval = 0 then None
      else (let deadline = completed_at + interval in Some (deadline, rfc3339_from_instant deadline now)))"

section \<open>State\<close>

text \<open>
  Where the task stands: at the head of the loop, waiting for another input, waiting out a deadline
  armed at some time (\<open>again\<close>: from the completion of a synchronization), submitting, and awaiting a
  generation.
\<close>

datatype scheduler_state =
    AtTop
  | AwaitingInput
  | Armed nat schedule_input bool
  | Submitting schedule_input bool
  | Running nat bool
  | StoppedTask

text \<open>
  The clock, the watch channel with its unseen and closed marks, the projection last published to the
  status path, and the attempts: when each was due to be submitted, and under which input.
\<close>

record scheduler =
  sd_state :: scheduler_state
  sd_now :: nat
  sd_input :: schedule_input
  sd_changed :: bool
  sd_closed :: bool
  sd_published :: schedule_snapshot
  sd_attempts :: "(nat \<times> schedule_input) list"

definition publish_schedule :: "u64 \<Rightarrow> string option \<Rightarrow> scheduler \<Rightarrow> scheduler" where
  "publish_schedule generation next_sync s =
     s\<lparr>sd_published := \<lparr>sn_config_generation = generation, sn_next_sync = next_sync\<rparr>\<rparr>"

text \<open>Reads the input and arms one full interval, at the head of the loop and after a completion.\<close>

definition arm :: "(nat \<Rightarrow> nat \<Rightarrow> string) \<Rightarrow> bool \<Rightarrow> scheduler \<Rightarrow> scheduler" where
  "arm rfc again s =
     (let input = sd_input s; seen = s\<lparr>sd_changed := False\<rparr> in
      if \<not> si_configured input
      then (publish_schedule (si_generation input) None seen)\<lparr>sd_state := AwaitingInput\<rparr>
      else (case project_next_sync rfc True (si_interval input) (sd_now s) (si_generation input) (si_generation input) (sd_now s) of
              None \<Rightarrow> seen\<lparr>sd_state := AwaitingInput\<rparr>
            | Some (deadline, projected) \<Rightarrow>
                (publish_schedule (si_generation input) (Some projected) seen)\<lparr>sd_state := Armed (sd_now s) input again\<rparr>))"

text \<open>
  What the task gets while it runs: nothing (with the answer of \<open>has_changed\<close> on a closed channel),
  the answer to its submission, and whether the awaited generation was completed.
\<close>

datatype scheduler_event = Proceed bool | Enqueued "nat option" | SyncAnswered bool

definition run_scheduler_step :: "(nat \<Rightarrow> nat \<Rightarrow> string) \<Rightarrow> scheduler_event \<Rightarrow> scheduler \<Rightarrow> scheduler option" where
  "run_scheduler_step rfc event s =
     (case (sd_state s, event) of
        (AtTop, Proceed gone) \<Rightarrow>
          if sd_closed s \<and> (gone \<or> \<not> sd_changed s) then Some (s\<lparr>sd_state := StoppedTask\<rparr>)
          else Some (arm rfc False s)
      | (AwaitingInput, Proceed _) \<Rightarrow>
          if sd_changed s then Some (s\<lparr>sd_changed := False, sd_state := AtTop\<rparr>)
          else if sd_closed s then Some (s\<lparr>sd_state := StoppedTask\<rparr>)
          else None
      | (Armed since input again, Proceed _) \<Rightarrow>
          if sd_changed s then Some (s\<lparr>sd_changed := False, sd_state := AtTop\<rparr>)
          else if sd_closed s then Some (s\<lparr>sd_state := StoppedTask\<rparr>)
          else if since + si_interval input \<le> sd_now s
          then Some ((publish_schedule (si_generation input) None s)
                 \<lparr>sd_state := Submitting input again, sd_attempts := sd_attempts s @ [(sd_now s, input)]\<rparr>)
          else None
      | (Submitting input again, Enqueued None) \<Rightarrow>
          Some ((publish_schedule (si_generation input) None s)\<lparr>sd_state := StoppedTask\<rparr>)
      | (Submitting input again, Enqueued (Some target_generation)) \<Rightarrow>
          Some (s\<lparr>sd_state := Running target_generation again\<rparr>)
      | (Running target_generation again, SyncAnswered ok) \<Rightarrow>
          if \<not> ok then Some (s\<lparr>sd_state := StoppedTask\<rparr>)
          else if again then Some (s\<lparr>sd_state := AtTop\<rparr>)
          else Some (arm rfc True s)
      | _ \<Rightarrow> None)"

definition start_scheduler :: "schedule_input \<Rightarrow> schedule_snapshot \<Rightarrow> scheduler" where
  "start_scheduler input published =
     \<lparr>sd_state = AtTop, sd_now = 0, sd_input = input, sd_changed = False, sd_closed = False,
      sd_published = published, sd_attempts = []\<rparr>"

text \<open>Around the task, time passes, an activation publishes an input, and the channel is closed.\<close>

definition set_input :: "schedule_input \<Rightarrow> scheduler \<Rightarrow> scheduler" where
  "set_input input s = s\<lparr>sd_input := input, sd_changed := True\<rparr>"

inductive scheduler_moves :: "(nat \<Rightarrow> nat \<Rightarrow> string) \<Rightarrow> scheduler \<Rightarrow> scheduler \<Rightarrow> bool" for rfc where
  tick: "scheduler_moves rfc s (s\<lparr>sd_now := sd_now s + d\<rparr>)"
| input: "\<not> sd_closed s \<Longrightarrow> scheduler_moves rfc s (set_input input s)"
| close: "scheduler_moves rfc s (s\<lparr>sd_closed := True\<rparr>)"
| task: "run_scheduler_step rfc event s = Some s' \<Longrightarrow> scheduler_moves rfc s s'"

section \<open>The invariant\<close>

definition spaced :: "(nat \<times> schedule_input) list \<Rightarrow> bool" where
  "spaced attempts \<longleftrightarrow>
     sorted_wrt (\<lambda>(earlier, _) (later, input). earlier + si_interval input \<le> later) attempts"

definition sound_input :: "schedule_input \<Rightarrow> bool" where
  "sound_input input \<longleftrightarrow> si_configured input \<and> 0 < si_interval input"

text \<open>What is published while the task stands at each place.\<close>

definition published_fits :: "scheduler \<Rightarrow> bool" where
  "published_fits s =
     (case sd_state s of
        Armed since input again \<Rightarrow>
          sn_next_sync (sd_published s) \<noteq> None \<and> sn_config_generation (sd_published s) = si_generation input
      | Submitting input again \<Rightarrow> sn_next_sync (sd_published s) = None
      | Running target again \<Rightarrow> sn_next_sync (sd_published s) = None
      | _ \<Rightarrow> True)"

definition scheduler_inv :: "scheduler \<Rightarrow> bool" where
  "scheduler_inv s \<longleftrightarrow>
     spaced (sd_attempts s)
     \<and> (\<forall>(at, input)\<in>set (sd_attempts s). at \<le> sd_now s \<and> si_interval input \<le> at \<and> sound_input input)
     \<and> (case sd_state s of
          Armed since input again \<Rightarrow>
            (\<forall>(at, _)\<in>set (sd_attempts s). at \<le> since) \<and> since \<le> sd_now s \<and> sound_input input
            \<and> (\<not> sd_changed s \<longrightarrow> sd_input s = input)
        | _ \<Rightarrow> True)
     \<and> published_fits s"

lemmas scheduler_inv_defs = scheduler_inv_def published_fits_def

lemma spaced_snoc:
  "spaced (attempts @ [(at, input)]) \<longleftrightarrow>
     spaced attempts \<and> (\<forall>(earlier, _)\<in>set attempts. earlier + si_interval input \<le> at)"
  by (auto simp: spaced_def sorted_wrt_append)

lemma arm_inv: "scheduler_inv s \<Longrightarrow> scheduler_inv (arm rfc again s)"
  by (auto simp: scheduler_inv_defs arm_def publish_schedule_def project_next_sync_def sound_input_def Let_def)

lemma stand_inv:
  "scheduler_inv s \<Longrightarrow> st \<in> {AtTop, AwaitingInput, StoppedTask} \<Longrightarrow> scheduler_inv (s\<lparr>sd_state := st\<rparr>)"
  by (auto simp: scheduler_inv_defs)

lemma seen_inv: "scheduler_inv s \<Longrightarrow> scheduler_inv (s\<lparr>sd_changed := False, sd_state := AtTop\<rparr>)"
  by (auto simp: scheduler_inv_defs)

lemma due_inv:
  assumes "scheduler_inv s" "sd_state s = Armed since input again" "since + si_interval input \<le> sd_now s"
  shows "scheduler_inv ((publish_schedule (si_generation input) None s)
           \<lparr>sd_state := Submitting input again, sd_attempts := sd_attempts s @ [(sd_now s, input)]\<rparr>)"
proof -
  have "\<forall>(earlier, _)\<in>set (sd_attempts s). earlier + si_interval input \<le> sd_now s"
    using assms by (auto simp: scheduler_inv_def)
  then show ?thesis
    using assms by (auto simp: scheduler_inv_defs spaced_snoc publish_schedule_def)
qed

lemma step_inv:
  assumes "scheduler_inv s" "run_scheduler_step rfc event s = Some s'"
  shows "scheduler_inv s'"
  using assms
  by (cases event; cases "sd_state s")
    (auto simp: run_scheduler_step_def intro: arm_inv stand_inv seen_inv due_inv split: if_splits option.splits,
     auto simp: scheduler_inv_defs publish_schedule_def)

interpretation scheduler_task: machine "start_scheduler input published" "scheduler_moves rfc" scheduler_inv
  for input published rfc
proof
  show "scheduler_inv (start_scheduler input published)"
    by (simp add: scheduler_inv_defs start_scheduler_def spaced_def)
next
  fix s t
  assume "scheduler_inv s" "scheduler_moves rfc s t"
  from this(2,1) show "scheduler_inv t"
  proof cases
    case (task event)
    then show ?thesis
      using \<open>scheduler_inv s\<close> by (auto intro: step_inv)
  qed (auto simp: scheduler_inv_defs set_input_def split: scheduler_state.splits)
qed

section \<open>No attempt is early\<close>

lemma attempt_step:
  assumes "scheduler_inv s" "run_scheduler_step rfc event s = Some s'"
  shows "sd_attempts s' = sd_attempts s
       \<or> sd_attempts s' = sd_attempts s @ [(sd_now s, sd_input s)] \<and> sound_input (sd_input s)"
  using assms
  by (cases event; cases "sd_state s")
    (auto simp: run_scheduler_step_def arm_def publish_schedule_def scheduler_inv_def Let_def
      split: if_splits option.splits)

text \<open>
  C31: No automatic synchronization is early, and none is caught up.  Each attempt is made under the
  settings in force when it is submitted, which are configured; from the start, or from the attempt
  before, at least the interval of those settings has passed; and while an attempt is queued or runs
  no next synchronization is published.
\<close>

theorem automatic_syncs_are_due:
  assumes "reached (start_scheduler input published) (scheduler_moves rfc) s"
    and "run_scheduler_step rfc event s = Some s'"
  shows "spaced (sd_attempts s)
    \<and> list_all (\<lambda>(at, input). si_configured input \<and> 0 < si_interval input \<and> si_interval input \<le> at) (sd_attempts s)
    \<and> (sd_attempts s' = sd_attempts s \<or> sd_attempts s' = sd_attempts s @ [(sd_now s, sd_input s)])
    \<and> (case sd_state s of
         Submitting _ _ \<Rightarrow> sn_next_sync (sd_published s) = None
       | Running _ _ \<Rightarrow> sn_next_sync (sd_published s) = None
       | _ \<Rightarrow> True)"
proof -
  have inv: "scheduler_inv s"
    by (rule scheduler_task.inv_reached [OF assms(1)])
  then have "spaced (sd_attempts s)"
    "list_all (\<lambda>(at, input). si_configured input \<and> 0 < si_interval input \<and> si_interval input \<le> at) (sd_attempts s)"
    "case sd_state s of
       Submitting _ _ \<Rightarrow> sn_next_sync (sd_published s) = None
     | Running _ _ \<Rightarrow> sn_next_sync (sd_published s) = None
     | _ \<Rightarrow> True"
    by (auto simp: scheduler_inv_defs sound_input_def list_all_iff split: scheduler_state.splits)
  then show ?thesis
    using attempt_step [OF inv assms(2)] by blast
qed

section \<open>Every save starts the interval anew\<close>

text \<open>
  An activation that changes nothing but the generation, as every accepted settings command makes,
  \<open>delay\<close> after the last one; the task then does what it can.
\<close>

definition resave :: "(nat \<Rightarrow> nat \<Rightarrow> string) \<Rightarrow> nat \<Rightarrow> scheduler \<Rightarrow> scheduler" where
  "resave rfc delay s =
     (let later = s\<lparr>sd_now := sd_now s + delay\<rparr>;
          waited = (case run_scheduler_step rfc (Proceed False) later of Some s' \<Rightarrow> s' | None \<Rightarrow> later);
          saved = set_input (sd_input s\<lparr>si_generation := si_generation (sd_input s) + 1\<rparr>) waited;
          woken = the (run_scheduler_step rfc (Proceed False) saved)
      in the (run_scheduler_step rfc (Proceed False) woken))"

definition armed_now :: "scheduler \<Rightarrow> bool" where
  "armed_now s \<longleftrightarrow> sd_state s = Armed (sd_now s) (sd_input s) False \<and> \<not> sd_changed s \<and> \<not> sd_closed s
     \<and> sound_input (sd_input s)"

lemma resave_rearms:
  assumes "armed_now s" "delay < si_interval (sd_input s)"
  shows "armed_now (resave rfc delay s) \<and> sd_now (resave rfc delay s) = sd_now s + delay
    \<and> sd_attempts (resave rfc delay s) = sd_attempts s
    \<and> si_interval (sd_input (resave rfc delay s)) = si_interval (sd_input s)"
  using assms
  by (simp add: armed_now_def resave_def run_scheduler_step_def set_input_def arm_def project_next_sync_def
      publish_schedule_def sound_input_def Let_def)

lemma resaves_rearm:
  "armed_now s \<Longrightarrow> \<forall>delay\<in>set delays. delay < si_interval (sd_input s) \<Longrightarrow>
   armed_now (fold (resave rfc) delays s) \<and> sd_now (fold (resave rfc) delays s) = sd_now s + sum_list delays
   \<and> sd_attempts (fold (resave rfc) delays s) = sd_attempts s"
proof (induction delays arbitrary: s)
  case (Cons delay delays)
  then show ?case
    using resave_rearms [of s delay rfc] by (simp add: add.assoc)
qed simp

text \<open>
  Settings that are saved more often than the interval keep the automatic synchronization from
  ever running, even if no save changes anything: each activation moves the armed deadline to a full
  interval from then, so no attempt is made however long the saves go on.
\<close>

theorem saves_postpone_the_sync:
  assumes "armed_now s" "\<forall>delay\<in>set delays. delay < si_interval (sd_input s)"
  shows "sd_attempts (fold (resave rfc) delays s) = sd_attempts s
    \<and> sd_now (fold (resave rfc) delays s) = sd_now s + sum_list delays"
  using resaves_rearm [OF assms] by blast

section \<open>The rule of arming\<close>

text \<open>The rule that the tests state of a save of the settings, and what the task does.\<close>

datatype arm_decision = Unchanged | ArmFromNow | ClearedDeadline

definition arm_on_settings_change :: "bool \<Rightarrow> bool \<Rightarrow> nat \<Rightarrow> nat \<Rightarrow> arm_decision" where
  "arm_on_settings_change previously_configured now_configured previous_interval new_interval =
     (if previously_configured \<and> \<not> now_configured then ClearedDeadline
      else if \<not> previously_configured \<and> now_configured then ArmFromNow
      else if now_configured \<and> previous_interval \<noteq> new_interval then ArmFromNow
      else Unchanged)"

text \<open>The position after an activation that finds an armed deadline: two steps of the task.\<close>

definition after_activation :: "(nat \<Rightarrow> nat \<Rightarrow> string) \<Rightarrow> schedule_input \<Rightarrow> scheduler \<Rightarrow> scheduler_state option" where
  "after_activation rfc input s =
     map_option sd_state (Option.bind (run_scheduler_step rfc (Proceed False) (set_input input s)) (run_scheduler_step rfc (Proceed False)))"

text \<open>
  The task follows the rule where it clears or arms, and where it should keep the deadline it arms a new
  one: after an activation over a deadline armed at \<open>since\<close>, the position is that of the rule, except
  that an unchanged configuration is armed again from now.
\<close>

theorem arming_follows_rule_but_unchanged:
  assumes "sd_state s = Armed since old again" "\<not> sd_closed s" "si_configured old" "0 < si_interval input"
  shows "after_activation rfc input s =
    (case arm_on_settings_change (si_configured old) (si_configured input) (si_interval old) (si_interval input) of
       ClearedDeadline \<Rightarrow> Some AwaitingInput
     | ArmFromNow \<Rightarrow> Some (Armed (sd_now s) input False)
     | Unchanged \<Rightarrow> Some (Armed (sd_now s) input False))"
  using assms
  by (auto simp: after_activation_def arm_on_settings_change_def run_scheduler_step_def set_input_def arm_def
      project_next_sync_def publish_schedule_def Let_def)

section \<open>Examples\<close>

definition demo_hourly :: schedule_input where
  "demo_hourly = \<lparr>si_configured = True, si_interval = 3600, si_generation = 1\<rparr>"

definition demo_started :: scheduler where
  "demo_started = start_scheduler demo_hourly \<lparr>sn_config_generation = 0, sn_next_sync = None\<rparr>"

definition demo_text :: "nat \<Rightarrow> nat \<Rightarrow> string" where
  "demo_text deadline now = ''soon''"

definition demo_armed :: scheduler where
  "demo_armed = the (run_scheduler_step demo_text (Proceed False) demo_started)"

lemmas demo_scheduler_simps = demo_armed_def demo_started_def demo_hourly_def demo_text_def start_scheduler_def
  run_scheduler_step_def arm_def project_next_sync_def publish_schedule_def Let_def

definition demo_due :: scheduler where
  "demo_due = demo_armed\<lparr>sd_now := sd_now demo_armed + 3600\<rparr>"

lemma demo_due_reached: "reached demo_started (scheduler_moves demo_text) demo_due"
proof -
  have "run_scheduler_step demo_text (Proceed False) demo_started = Some demo_armed"
    by (simp add: demo_scheduler_simps)
  then show ?thesis
    unfolding demo_due_def
    by (blast intro: reached.intros scheduler_moves.task scheduler_moves.tick)
qed

lemma automatic_syncs_are_due_witness:
  "sd_attempts (the (run_scheduler_step demo_text (Proceed False) demo_due)) = [(3600, demo_hourly)]
   \<and> spaced (sd_attempts demo_due)"
proof -
  let ?s = "the (run_scheduler_step demo_text (Proceed False) demo_due)"
  have step: "run_scheduler_step demo_text (Proceed False) demo_due = Some ?s"
    "sd_attempts ?s = [(3600, demo_hourly)]"
    by (simp_all add: demo_due_def demo_scheduler_simps)
  then show ?thesis
    using automatic_syncs_are_due [OF demo_due_reached [unfolded demo_started_def] step(1)] by blast
qed

lemma saves_postpone_the_sync_witness:
  "sd_attempts (fold (resave demo_text) (replicate 100 3599) demo_armed) = []
   \<and> sd_now (fold (resave demo_text) (replicate 100 3599) demo_armed) = 359900"
proof -
  have "armed_now demo_armed" "si_interval (sd_input demo_armed) = 3600" "sd_attempts demo_armed = []" "sd_now demo_armed = 0"
    by (simp_all add: armed_now_def sound_input_def demo_scheduler_simps)
  then show ?thesis
    using saves_postpone_the_sync [of demo_armed "replicate 100 3599" demo_text] by (simp add: sum_list_replicate)
qed

end
