(* ===== verification/CliOutput.thy ===== *)
theory CliOutput
  imports Ipc Json Lifecycle
begin

text \<open>
  \<open>spotter-cli/src/cli_output.rs\<close>: the selection of a configuration field and the rendering of
  responses for a terminal.  The pretty printer of serde_json is a parameter, on values and on
  responses.
\<close>

section \<open>Selection\<close>

definition SELECTABLE_FIELDS :: "string list" where
  "SELECTABLE_FIELDS =
     [''snipeit.url'', ''snipeit.checkout_status_id'', ''snipeit.checkin_status_id'', ''polling.interval_hours'',
      ''logging.level'', ''logging.max_size_mb'', ''logging.max_files'', ''monitors.checkin_policy'',
      ''monitors.checkin_threshold_hours'']"

definition validate_selector :: "string \<Rightarrow> (unit, string) result" where
  "validate_selector selector =
     (if selector \<in> set SELECTABLE_FIELDS then Ok ()
      else if selector = ''snipeit.api_token_encrypted'' then Err ''use the set-token command to update the API token''
      else Err ''unknown configuration field'')"

definition number_value :: "'w::len word \<Rightarrow> json" where
  "number_value n = JNum (PosInt (unat n))"

text \<open>The last case is the source's \<open>unreachable!\<close>.\<close>

definition select_setting :: "settings \<Rightarrow> string \<Rightarrow> (json, string) result" where
  "select_setting s selector =
     and_then (validate_selector selector) (\<lambda>_.
       if selector = ''snipeit.url'' then Ok (JStr (url (s_snipeit s)))
       else if selector = ''snipeit.checkout_status_id'' then Ok (number_value (checkout_status_id (s_snipeit s)))
       else if selector = ''snipeit.checkin_status_id'' then Ok (number_value (checkin_status_id (s_snipeit s)))
       else if selector = ''polling.interval_hours'' then Ok (number_value (interval_hours (s_polling s)))
       else if selector = ''logging.level'' then Ok (JStr (log_level (s_logging s)))
       else if selector = ''logging.max_size_mb'' then Ok (number_value (max_size_mb (s_logging s)))
       else if selector = ''logging.max_files'' then Ok (number_value (max_files (s_logging s)))
       else if selector = ''monitors.checkin_policy'' then Ok (JStr (policy_text (checkin_policy (s_monitors s))))
       else if selector = ''monitors.checkin_threshold_hours''
         then Ok (number_value (checkin_threshold_hours (s_monitors s)))
       else Err ''panic: validate_selector accepts only known selectors'')"

section \<open>Escaping\<close>

definition hex_lower :: "nat \<Rightarrow> char" where
  "hex_lower n = (if n < 10 then char_of (48 + n) else char_of (87 + n))"

definition hex_text :: "nat \<Rightarrow> string" where
  "hex_text n = (if n < 16 then [hex_lower n] else [hex_lower (n div 16), hex_lower (n mod 16)])"

text \<open>\<open>char::escape_default\<close> of a control character, which is below U+00A0.\<close>

definition escape_default :: "nat \<Rightarrow> string" where
  "escape_default n =
     (if n = 9 then [CHR 0x5C, CHR ''t''] else if n = 13 then [CHR 0x5C, CHR ''r'']
      else if n = 10 then [CHR 0x5C, CHR ''n'']
      else [CHR 0x5C, CHR ''u'', CHR 0x7B] @ hex_text n @ [CHR 0x7D])"

fun escape_terminal :: "string \<Rightarrow> string" where
  "escape_terminal [] = []"
| "escape_terminal (a # s) =
     (if byte a < 32 \<or> byte a = 127 then escape_default (byte a) @ escape_terminal s
      else if byte a = 0xC2 then
        (case s of
           b # t \<Rightarrow> if 0x80 \<le> byte b \<and> byte b \<le> 0x9F then escape_default (byte b) @ escape_terminal t
                    else a # escape_terminal s
         | [] \<Rightarrow> [a])
      else a # escape_terminal s)"

definition display_optional :: "string \<Rightarrow> string" where
  "display_optional text = (if text = [] then ''<none>'' else escape_terminal text)"

definition human_json_scalar :: "json \<Rightarrow> string" where
  "human_json_scalar v =
     (case v of JStr s \<Rightarrow> escape_terminal s | JNum (PosInt n) \<Rightarrow> dec_nat n | JNum _ \<Rightarrow> scalar_text v | _ \<Rightarrow> ''<unsupported>'')"

section \<open>Rendering\<close>

definition line_break :: string where
  "line_break = [CHR 0x0A]"

record printer =
  pr_value :: "json \<Rightarrow> (string, string) result"
  pr_response :: "ipc_response \<Rightarrow> (string, string) result"

definition all_settings :: "settings \<Rightarrow> (string \<times> string) list" where
  "all_settings s =
     [(''snipeit.url'', url (s_snipeit s)),
      (''snipeit.checkout_status_id'', dec (checkout_status_id (s_snipeit s))),
      (''snipeit.checkin_status_id'', dec (checkin_status_id (s_snipeit s))),
      (''polling.interval_hours'', dec (interval_hours (s_polling s))),
      (''logging.level'', log_level (s_logging s)),
      (''logging.max_size_mb'', dec (max_size_mb (s_logging s))),
      (''logging.max_files'', dec (max_files (s_logging s))),
      (''monitors.checkin_policy'', policy_text (checkin_policy (s_monitors s))),
      (''monitors.checkin_threshold_hours'', dec (checkin_threshold_hours (s_monitors s)))]"

definition render_config ::
  "printer \<Rightarrow> settings \<Rightarrow> string list \<Rightarrow> string option \<Rightarrow> bool \<Rightarrow> (string, string) result" where
  "render_config pr s missing selector json =
     (case selector of
        Some sel \<Rightarrow>
          and_then (select_setting s sel) (\<lambda>v.
            if json then pr_value pr v else Ok (sel @ '': '' @ human_json_scalar v))
      | None \<Rightarrow>
          if json then pr_response pr (ConfigResponse (redact_settings s) missing)
          else Ok (concat (List.map (\<lambda>(field, v). field @ '': '' @ escape_terminal v @ line_break) (all_settings s))
                   @ ''missing: ''
                   @ (if missing = [] then ''<none>'' else join_with '', '' (List.map escape_terminal (sort missing)))))"

definition bool_text :: "bool \<Rightarrow> string" where
  "bool_text b = (if b then ''true'' else ''false'')"

definition render_monitor :: "monitor_status \<Rightarrow> string" where
  "render_monitor m =
     line_break @ ''  '' @ escape_terminal (ms_serial m) @ '': asset ''
       @ (case ms_asset_id m of None \<Rightarrow> ''<none>'' | Some i \<Rightarrow> dec i)
       @ '', checked out '' @ bool_text (ms_checked_out m)
       @ '', absent since '' @ display_optional (case ms_absent_since m of None \<Rightarrow> [] | Some t \<Rightarrow> t)"

definition or_empty :: "string option \<Rightarrow> string" where
  "or_empty text = (case text of None \<Rightarrow> [] | Some t \<Rightarrow> t)"

definition render_status_lines ::
  "string \<Rightarrow> string \<Rightarrow> string option \<Rightarrow> string option \<Rightarrow> asset_summary option \<Rightarrow> monitor_status list \<Rightarrow> bool \<Rightarrow> string" where
  "render_status_lines st snipeit_url last_sync next_sync asset monitors full =
     ''State: '' @ escape_terminal st
     @ line_break @ ''Snipe-IT Instance: '' @ display_optional snipeit_url
     @ line_break @ ''Last Sync: '' @ display_optional (or_empty last_sync)
     @ line_break @ ''Next Sync: '' @ display_optional (or_empty next_sync)
     @ (if \<not> full then []
        else line_break @ ''Matched Asset: ''
             @ (case asset of
                  None \<Rightarrow> ''<none>''
                | Some a \<Rightarrow>
                    escape_terminal (sm_name a) @ '' (ID '' @ dec (sm_id a)
                    @ '', serial '' @ display_optional (or_empty (sm_serial a))
                    @ '', asset tag '' @ display_optional (or_empty (sm_asset_tag a)) @ '')'')
             @ line_break @ ''Monitors:''
             @ (if monitors = [] then line_break @ ''  <none>''
                else concat (List.map render_monitor (sort_key ms_serial monitors))))"

definition render_status :: "printer \<Rightarrow> ipc_response \<Rightarrow> bool \<Rightarrow> (string, string) result" where
  "render_status pr response json =
     (if json then pr_response pr response
      else (case response of
              StatusResponse st last_sync next_sync snipeit_url \<Rightarrow>
                Ok (render_status_lines st snipeit_url last_sync next_sync None [] False)
            | StatusFullResponse st last_sync next_sync snipeit_url asset monitors \<Rightarrow>
                Ok (render_status_lines st snipeit_url last_sync next_sync asset monitors True)
            | _ \<Rightarrow> Err ''unexpected response for status command''))"

section \<open>What the fields show\<close>

lemma dec_eq_dec_nat: "dec n = dec_nat (unat n)"
  by (simp add: dec_def)

lemma human_number [simp]: "human_json_scalar (number_value n) = dec n"
  by (simp add: human_json_scalar_def number_value_def dec_eq_dec_nat)

lemma escape_plain_ascii: "list_all (\<lambda>c. 32 \<le> byte c \<and> byte c < 127) s \<Longrightarrow> escape_terminal s = s"
  by (induction s) auto

lemma dec_ascii: "list_all (\<lambda>c. 32 \<le> byte c \<and> byte c < 127) (dec n)"
  using dec_nat_digits [of _ "unat n"] by (force simp: dec_eq_dec_nat list_all_iff byte_def)

lemma policy_ascii: "list_all (\<lambda>c. 32 \<le> byte c \<and> byte c < 127) (policy_text p)"
  by (cases p) (simp_all add: policy_text_def byte_def)

lemma escape_dec [simp]: "escape_terminal (dec n) = dec n"
  by (rule escape_plain_ascii [OF dec_ascii])

lemma escape_policy [simp]: "escape_terminal (policy_text p) = policy_text p"
  by (rule escape_plain_ascii [OF policy_ascii])

lemma human_text [simp]: "human_json_scalar (JStr s) = escape_terminal s"
  by (simp add: human_json_scalar_def)

lemma select_setting_text:
  "field \<in> set SELECTABLE_FIELDS \<Longrightarrow>
   \<exists>v. select_setting s field = Ok v \<and> human_json_scalar v = escape_terminal (setting_text s field)"
  unfolding SELECTABLE_FIELDS_def list.set insert_iff empty_iff simp_thms
  by (elim disjE; hypsubst; simp add: select_setting_def validate_selector_def SELECTABLE_FIELDS_def setting_text_def)

lemma all_settings_text: "all_settings s = List.map (\<lambda>field. (field, setting_text s field)) SELECTABLE_FIELDS"
  by (simp add: all_settings_def SELECTABLE_FIELDS_def setting_text_def)

lemma select_setting_only: "select_setting s field = Ok v \<Longrightarrow> field \<in> set SELECTABLE_FIELDS"
  by (simp add: select_setting_def validate_selector_def and_then_eq_Ok split: if_splits)

section \<open>Nothing controls the terminal\<close>

definition ascii :: "char \<Rightarrow> bool" where
  "ascii c \<longleftrightarrow> 32 \<le> byte c \<and> byte c < 127"

definition calm :: "string \<Rightarrow> bool" where
  "calm s \<longleftrightarrow> \<not> any_control s"

lemma calm_Nil [simp]: "calm []"
  by (simp add: calm_def)

lemma calm_Cons [simp]: "ascii c \<Longrightarrow> calm (c # s) = calm s"
  by (auto simp: calm_def ascii_def)

lemma calm_ascii_append: "list_all ascii s \<Longrightarrow> calm (s @ t) = calm t"
  by (induction s) auto

lemma calm_append: "calm s \<Longrightarrow> calm t \<Longrightarrow> t = [] \<or> ascii (hd t) \<Longrightarrow> calm (s @ t)"
  by (induction s) (auto simp: calm_def ascii_def hd_append)

lemma hex_lower_ascii: "n < 16 \<Longrightarrow> ascii (hex_lower n)"
  by (auto simp: hex_lower_def ascii_def byte_def)

lemma escape_default_ascii: "n < 256 \<Longrightarrow> list_all ascii (escape_default n)"
  using hex_lower_ascii [of n] hex_lower_ascii [of "n div 16"] hex_lower_ascii [of "n mod 16"]
  by (auto simp: escape_default_def hex_text_def ascii_def byte_def)

lemma byte_below_256: "byte c < 256"
  by (simp add: byte_def)

lemma escape_head:
  "escape_terminal s = [] \<and> s = [] \<or> s \<noteq> [] \<and> escape_terminal s \<noteq> []
     \<and> (hd (escape_terminal s) = hd s \<or> ascii (hd (escape_terminal s)))"
  by (cases s) (auto simp: escape_default_def ascii_def byte_def split: list.split)

lemma escape_calm: "calm (escape_terminal s)"
proof (induction s rule: escape_terminal.induct)
  case (2 a s)
  consider "byte a < 32 \<or> byte a = 127" | "\<not> (byte a < 32 \<or> byte a = 127)" "byte a = 0xC2"
    | "\<not> (byte a < 32 \<or> byte a = 127)" "byte a \<noteq> 0xC2"
    by blast
  then show ?case
  proof cases
    case 1
    then show ?thesis
      using 2(1) by (simp add: calm_ascii_append escape_default_ascii byte_below_256)
  next
    case 2
    then show ?thesis
      using "2.IH" escape_head [of s]
      by (cases s) (auto simp: calm_def calm_ascii_append [unfolded calm_def] escape_default_ascii byte_below_256 ascii_def)
  next
    case 3
    then show ?thesis
      using "2.IH" by (simp add: calm_def)
  qed
qed simp

lemma ascii_literals [simp]:
  "ascii (CHR '' '')" "ascii (CHR '':'')" "ascii (CHR '','')" "ascii (CHR ''<'')" "ascii (CHR ''('')" "ascii (CHR '')'')"
  by (simp_all add: ascii_def byte_def)

lemma calm_then: "calm s \<Longrightarrow> ascii c \<Longrightarrow> calm t \<Longrightarrow> calm (s @ c # t)"
  by (rule calm_append) simp_all

lemma calm_words: "list_all ascii s \<Longrightarrow> calm s"
  using calm_ascii_append [of s "[]"] by simp

lemma calm_join: "list_all calm xs \<Longrightarrow> calm (join_with '', '' xs)"
  by (induction "'', ''" xs rule: join_with.induct) (auto intro: calm_then)

lemma calm_optional: "calm (display_optional s)"
  by (simp add: display_optional_def escape_calm calm_words ascii_def byte_def)

lemma calm_dec: "calm (dec n)"
  by (rule calm_words) (use dec_ascii [of n] in \<open>simp add: list_all_iff ascii_def\<close>)

lemma calm_bool: "calm (bool_text b)"
  by (simp add: bool_text_def calm_words ascii_def byte_def)

lemma concat_lines: "concat (List.map (\<lambda>x. f x @ sep) xs) @ y = join_with sep (List.map f xs @ [y])"
proof (induction xs)
  case (Cons x xs)
  then show ?case
    by (cases "List.map f xs @ [y]") auto
qed simp

lemma join_head: "join_with sep ((a @ b) # xs) = a @ join_with sep (b # xs)"
  by (cases xs) simp_all

lemma lines_concat: "x @ concat (List.map (\<lambda>y. sep @ g y) ys) = join_with sep (x # List.map g ys)"
proof (induction ys arbitrary: x)
  case (Cons y ys)
  from Cons [of "sep @ g y"] show ?case
    by (simp add: join_head)
qed simp

lemma lines_concat_tail: "join_with sep xs @ concat (List.map (\<lambda>y. sep @ g y) ys) = join_with sep (xs @ List.map g ys)"
  if "xs \<noteq> []"
  using that
proof (induction sep xs rule: join_with.induct)
  case (2 sep x)
  then show ?case
    using lines_concat [of x sep g ys] by simp
qed auto

text \<open>The lines of a rendering, without control characters.\<close>

definition calm_lines :: "nat \<Rightarrow> string \<Rightarrow> bool" where
  "calm_lines n out \<longleftrightarrow> (\<exists>ls. out = join_with line_break ls \<and> list_all calm ls \<and> length ls = n)"

lemma selectable_ascii: "field \<in> set SELECTABLE_FIELDS \<Longrightarrow> list_all ascii field"
  by (auto simp: SELECTABLE_FIELDS_def ascii_def byte_def)

lemma setting_line_calm: "field \<in> set SELECTABLE_FIELDS \<Longrightarrow> calm (field @ '': '' @ escape_terminal v)"
  by (simp add: calm_ascii_append selectable_ascii escape_calm)

lemma missing_line_calm:
  "calm (''missing: '' @ (if missing = [] then ''<none>'' else join_with '', '' (List.map escape_terminal (sort missing))))"
proof -
  have "list_all ascii ''missing: ''" "list_all ascii ''<none>''"
    by (simp_all add: ascii_def byte_def)
  moreover have "calm (join_with '', '' (List.map escape_terminal (sort missing)))"
    by (rule calm_join) (simp add: list_all_iff escape_calm)
  ultimately show ?thesis
    by (auto simp: calm_ascii_append calm_words simp del: append_Cons)
qed

lemma config_lines:
  "render_config pr s missing None False = Ok out \<Longrightarrow> calm_lines 10 out"
proof -
  assume "render_config pr s missing None False = Ok out"
  then have "out = join_with line_break
      (List.map (\<lambda>field. field @ '': '' @ escape_terminal (setting_text s field)) SELECTABLE_FIELDS
       @ [''missing: '' @ (if missing = [] then ''<none>'' else join_with '', '' (List.map escape_terminal (sort missing)))])"
    unfolding concat_lines [symmetric] by (auto simp: render_config_def all_settings_text comp_def)
  moreover have "length SELECTABLE_FIELDS = 9"
    by (simp add: SELECTABLE_FIELDS_def)
  ultimately show ?thesis
    unfolding calm_lines_def
    by (intro exI conjI) (auto simp: list_all_iff setting_line_calm missing_line_calm simp del: append_Cons)
qed

lemma literals_ascii [simp]:
  "list_all ascii ''State: ''" "list_all ascii ''Snipe-IT Instance: ''" "list_all ascii ''Last Sync: ''"
  "list_all ascii ''Next Sync: ''" "list_all ascii ''Matched Asset: ''" "list_all ascii ''Monitors:''"
  "list_all ascii '' (ID ''" "list_all ascii '', serial ''" "list_all ascii '', asset tag ''" "list_all ascii '')''"
  "list_all ascii ''  ''" "list_all ascii '': asset ''" "list_all ascii '', checked out ''"
  "list_all ascii '', absent since ''" "list_all ascii ''<none>''" "list_all ascii ''  <none>''"
  by (simp_all add: ascii_def byte_def)

lemma calm_literal: "list_all ascii s \<Longrightarrow> calm t \<Longrightarrow> calm (s @ t)"
  by (simp add: calm_ascii_append)

lemma calm_then_literal: "calm s \<Longrightarrow> list_all ascii t \<Longrightarrow> t \<noteq> [] \<Longrightarrow> calm u \<Longrightarrow> calm (s @ t @ u)"
  by (cases t) (auto intro!: calm_then simp: calm_ascii_append)

lemmas calm_intros = literals_ascii [THEN calm_literal] literals_ascii [THEN calm_then_literal [rotated]]
  literals_ascii [THEN calm_words] escape_calm calm_optional calm_dec calm_bool

definition monitor_line :: "monitor_status \<Rightarrow> string" where
  "monitor_line m =
     ''  '' @ escape_terminal (ms_serial m) @ '': asset ''
       @ (case ms_asset_id m of None \<Rightarrow> ''<none>'' | Some i \<Rightarrow> dec i)
       @ '', checked out '' @ bool_text (ms_checked_out m)
       @ '', absent since '' @ display_optional (case ms_absent_since m of None \<Rightarrow> [] | Some t \<Rightarrow> t)"

lemma render_monitor_line: "render_monitor m = line_break @ monitor_line m"
  by (simp add: render_monitor_def monitor_line_def)

lemma monitor_line_calm: "calm (monitor_line m)"
proof -
  have "calm (case ms_asset_id m of None \<Rightarrow> ''<none>'' | Some i \<Rightarrow> dec i)"
    by (cases "ms_asset_id m") (simp_all only: option.case calm_words calm_dec literals_ascii)
  then show ?thesis
    unfolding monitor_line_def
    by (intro calm_intros) simp_all
qed

definition asset_line :: "asset_summary option \<Rightarrow> string" where
  "asset_line asset =
     ''Matched Asset: ''
       @ (case asset of
            None \<Rightarrow> ''<none>''
          | Some a \<Rightarrow>
              escape_terminal (sm_name a) @ '' (ID '' @ dec (sm_id a)
              @ '', serial '' @ display_optional (or_empty (sm_serial a))
              @ '', asset tag '' @ display_optional (or_empty (sm_asset_tag a)) @ '')'')"

lemma asset_line_calm: "calm (asset_line asset)"
proof (cases asset)
  case None
  show ?thesis
    unfolding asset_line_def None option.case by (intro calm_literal calm_words literals_ascii)
next
  case (Some a)
  have "calm (display_optional (or_empty (sm_asset_tag a)) @ '')'')"
    by (intro calm_append calm_optional calm_words literals_ascii) simp
  then show ?thesis
    unfolding asset_line_def Some option.case
    by (intro calm_intros) simp_all
qed

definition head_lines :: "string \<Rightarrow> string \<Rightarrow> string option \<Rightarrow> string option \<Rightarrow> string list" where
  "head_lines st snipeit_url last_sync next_sync =
     [''State: '' @ escape_terminal st, ''Snipe-IT Instance: '' @ display_optional snipeit_url,
      ''Last Sync: '' @ display_optional (or_empty last_sync), ''Next Sync: '' @ display_optional (or_empty next_sync)]"

lemma head_lines_calm: "list_all calm (head_lines st snipeit_url last_sync next_sync)"
  unfolding head_lines_def list.pred_inject
  by (intro conjI calm_literal escape_calm calm_optional literals_ascii) simp

lemma length_head_lines: "length (head_lines st snipeit_url last_sync next_sync) = 4"
  by (simp add: head_lines_def)

lemma status_lines_short:
  "render_status_lines st snipeit_url last_sync next_sync asset monitors False
     = join_with line_break (head_lines st snipeit_url last_sync next_sync)"
  unfolding render_status_lines_def head_lines_def by (simp only: join_with.simps append_assoc if_True not_False_eq_True append_Nil2)

lemma status_lines_full:
  "render_status_lines st snipeit_url last_sync next_sync asset monitors True
     = join_with line_break
         (head_lines st snipeit_url last_sync next_sync @ [asset_line asset, ''Monitors:'']
          @ (if monitors = [] then [''  <none>''] else List.map monitor_line (sort_key ms_serial monitors)))"
proof -
  have head: "render_status_lines st snipeit_url last_sync next_sync asset monitors True
     = join_with line_break (head_lines st snipeit_url last_sync next_sync @ [asset_line asset, ''Monitors:''])
       @ (if monitors = [] then line_break @ ''  <none>''
          else concat (List.map render_monitor (sort_key ms_serial monitors)))"
    unfolding render_status_lines_def head_lines_def asset_line_def
    by (simp only: join_with.simps append_assoc append.simps not_True_eq_False if_False)
  show ?thesis
  proof (cases "monitors = []")
    case True
    have "join_with line_break xs @ line_break @ y = join_with line_break (xs @ [y])" if "xs \<noteq> []" for xs y
      using lines_concat_tail [OF that, of line_break "\<lambda>x. x" "[y]"] by simp
    then show ?thesis
      unfolding head by (simp only: True simp_thms if_True) (simp del: append_Cons append.simps)
  next
    case False
    have "join_with line_break xs @ concat (List.map render_monitor ms) = join_with line_break (xs @ List.map monitor_line ms)"
      if "xs \<noteq> []" for xs ms
      using lines_concat_tail [OF that, of line_break monitor_line ms]
      unfolding render_monitor_line [abs_def] .
    from this [of "head_lines st snipeit_url last_sync next_sync @ [asset_line asset, ''Monitors:'']"
        "sort_key ms_serial monitors"] False show ?thesis
      unfolding head by simp
  qed
qed

lemma join_calm_lines: "list_all calm ls \<Longrightarrow> calm_lines (length ls) (join_with line_break ls)"
  unfolding calm_lines_def by blast

lemma short_calm: "calm_lines 4 (render_status_lines st snipeit_url last_sync next_sync asset monitors False)"
  using join_calm_lines [OF head_lines_calm, of st snipeit_url last_sync next_sync]
  by (simp only: status_lines_short length_head_lines)

lemma full_calm:
  "calm_lines (6 + max 1 (length monitors))
     (render_status_lines st snipeit_url last_sync next_sync asset monitors True)"
proof -
  let ?tail = "if monitors = [] then [''  <none>''] else List.map monitor_line (sort_key ms_serial monitors)"
  let ?ls = "head_lines st snipeit_url last_sync next_sync @ [asset_line asset, ''Monitors:''] @ ?tail"
  have "list_all calm ?tail"
    using calm_words [OF literals_ascii(16)] by (simp add: list_all_iff monitor_line_calm del: calm_Cons)
  moreover have "calm ''Monitors:''"
    by (intro calm_words literals_ascii)
  ultimately have "list_all calm ?ls"
    by (simp add: head_lines_calm asset_line_calm del: list_all_length)
  moreover have "length ?ls = 6 + max 1 (length monitors)"
    by (cases monitors) (simp_all add: head_lines_def)
  ultimately show ?thesis
    using join_calm_lines [of ?ls] by (simp only: status_lines_full)
qed

lemma selected_line:
  "case render_config pr s missing (Some field) False of
     Ok out \<Rightarrow> out = field @ '': '' @ escape_terminal (setting_text s field) \<and> calm out
   | Err e \<Rightarrow> field \<notin> set SELECTABLE_FIELDS"
proof (cases "field \<in> set SELECTABLE_FIELDS")
  case True
  then obtain v where v: "select_setting s field = Ok v" "human_json_scalar v = escape_terminal (setting_text s field)"
    using select_setting_text by blast
  have "calm (field @ '': '' @ escape_terminal (setting_text s field))"
    by (rule setting_line_calm [OF True])
  with v show ?thesis
    by (simp add: render_config_def)
next
  case False
  then have "\<nexists>v. select_setting s field = Ok v"
    using select_setting_only by blast
  then show ?thesis
    using False by (cases "select_setting s field") (auto simp: render_config_def)
qed

section \<open>The properties\<close>

text \<open>
  Each rendering for a person of a configuration or a status has a number of lines that is fixed by its
  layout, one line for each monitor, and no line holds a control character, whatever the names,
  serials, texts and settings are; a selected field shows the escaped text of that setting, and a
  selection fails exactly for what is not selectable.
\<close>

theorem human_renderings_calm:
  "(case render_config pr s missing None False of Ok out \<Rightarrow> calm_lines 10 out | Err e \<Rightarrow> False)
   \<and> (case render_config pr s missing (Some field) False of
        Ok out \<Rightarrow> out = field @ '': '' @ escape_terminal (setting_text s field) \<and> calm out
      | Err e \<Rightarrow> field \<notin> set SELECTABLE_FIELDS)
   \<and> calm_lines 4 (render_status_lines st snipeit_url last_sync next_sync asset monitors False)
   \<and> calm_lines (6 + max 1 (length monitors))
       (render_status_lines st snipeit_url last_sync next_sync asset monitors True)"
proof -
  have "case render_config pr s missing None False of Ok out \<Rightarrow> calm_lines 10 out | Err e \<Rightarrow> False"
    using config_lines [of pr s missing] by (auto simp: render_config_def split: result.split)
  then show ?thesis
    using selected_line short_calm full_calm by blast
qed

text \<open>
  The encrypted token is never shown: what is rendered of a configuration, for a person or as
  JSON, of all fields or of one, is the same whatever the token is.
\<close>

theorem token_is_never_rendered:
  "render_config pr (s\<lparr>s_snipeit := (s_snipeit s)\<lparr>api_token_encrypted := other\<rparr>\<rparr>) missing selector json
     = render_config pr s missing selector json"
  by (simp add: render_config_def select_setting_def all_settings_def redact_settings_def split: option.split)

end
