(* ===== verification/IpcServer.thy ===== *)
theory IpcServer
  imports Effects Ipc Machines
begin

text \<open>
  \<open>spotter-svc/src/ipc_server.rs\<close>: one bounded JSON line per connection, and the accept loop of
  the named pipe with its bounded set of sessions.  The JSON form of commands and responses, which
  serde derives, is a parameter.
\<close>

section \<open>Framing\<close>

record wire =
  wi_command_to_vec :: "service_command \<Rightarrow> string"
  wi_command_from_slice :: "string \<Rightarrow> (service_command, string) result"
  wi_response_to_vec :: "ipc_response \<Rightarrow> string"
  wi_response_from_slice :: "string \<Rightarrow> (ipc_response, string) result"

definition newline :: char where
  "newline = CHR 0x0A"

definition carriage_return :: char where
  "carriage_return = CHR 0x0D"

definition context_err :: "string \<Rightarrow> ('a, string) result \<Rightarrow> ('a, failure) result" where
  "context_err text r = (case r of Ok x \<Rightarrow> Ok x | Err e \<Rightarrow> Err (Context text (Message e)))"

definition decode_command :: "wire \<Rightarrow> string \<Rightarrow> (service_command, failure) result" where
  "decode_command wi line =
     (if line = [] then Err (Message ''IPC request is empty'')
      else if length line > IPC_MAX_LINE_BYTES then Err (Message ''IPC request exceeds 64 KiB'')
      else context_err ''invalid IPC request JSON'' (wi_command_from_slice wi line))"

definition encode_response :: "wire \<Rightarrow> ipc_response \<Rightarrow> (string, failure) result" where
  "encode_response wi response =
     (let bytes = wi_response_to_vec wi response @ [newline] in
      if length bytes > IPC_MAX_LINE_BYTES then Err (Message ''IPC response exceeds 64 KiB'') else Ok bytes)"

text \<open>
  The other end of a connection: the bytes it sends, what happens after them, and how many bytes of
  the response it takes before it stalls or fails (\<open>None\<close>: all of them).
\<close>

datatype read_end = Eof | Stalls | ReadFails string

record pipe_client =
  pc_sends :: string
  pc_then :: read_end
  pc_takes :: "(nat \<times> string option) option"

text \<open>\<open>take(limit)\<close> and \<open>read_until(newline)\<close> under the deadline.\<close>

definition read_bounded_line :: "nat \<Rightarrow> pipe_client \<Rightarrow> (string, failure) result" where
  "read_bounded_line limit client =
     (let available = take limit (pc_sends client) in
      if newline \<in> set available then Ok (takeWhile (\<lambda>c. c \<noteq> newline) available @ [newline])
      else if length available = limit then Ok available
      else (case pc_then client of
              Eof \<Rightarrow> Ok available
            | Stalls \<Rightarrow> Err (Context ''IPC request read timed out'' (Message ''deadline has elapsed''))
            | ReadFails e \<Rightarrow> Err (Message e)))"

definition strip_carriage_return :: "string \<Rightarrow> string" where
  "strip_carriage_return line =
     (if line \<noteq> [] \<and> last line = carriage_return then butlast line else line)"

definition framed_command :: "wire \<Rightarrow> pipe_client \<Rightarrow> (service_command, failure) result" where
  "framed_command wi client =
     and_then (read_bounded_line IPC_MAX_LINE_BYTES client) (\<lambda>line.
       if line = [] then Err (Message ''IPC client disconnected before request'')
       else if last line \<noteq> newline then Err (Message ''IPC request is unterminated or oversized'')
       else decode_command wi (strip_carriage_return (butlast line)))"

text \<open>\<open>write_all\<close> and \<open>flush\<close> under the deadline; the second component of the world is what the client got.\<close>

definition write_response :: "pipe_client \<Rightarrow> string \<Rightarrow> ('w \<times> string, unit) io" where
  "write_response client bytes = (\<lambda>(w, got).
     (case pc_takes client of
        None \<Rightarrow> (Ok (), (w, got @ bytes))
      | Some (n, None) \<Rightarrow>
          (Err (Context ''IPC response write timed out'' (Message ''deadline has elapsed'')), (w, got @ take n bytes))
      | Some (n, Some e) \<Rightarrow> (Err (Message e), (w, got @ take n bytes))))"

definition serve_one ::
  "wire \<Rightarrow> (service_command \<Rightarrow> ('w, ipc_response) io) \<Rightarrow> pipe_client \<Rightarrow> ('w \<times> string, unit) io" where
  "serve_one wi request client =
     bind_io (\<lambda>wg. (framed_command wi client, wg)) (\<lambda>command.
     bind_io (\<lambda>(w, got). map_prod id (\<lambda>w'. (w', got)) (request command w)) (\<lambda>response.
     bind_io (\<lambda>wg. (encode_response wi response, wg)) (\<lambda>bytes.
     write_response client bytes)))"

subsection \<open>What is dispatched\<close>

lemma newline_not_return [simp]: "newline \<noteq> carriage_return"
  by (simp add: newline_def carriage_return_def)

lemma last_newline_takeWhile:
  "newline \<in> set s \<Longrightarrow> \<exists>rest. s = takeWhile (\<lambda>c. c \<noteq> newline) s @ newline # rest"
  by (induction s) auto

lemma takeWhile_until [simp]: "newline \<notin> set s \<Longrightarrow> takeWhile (\<lambda>c. c \<noteq> newline) (s @ newline # t) = s"
  by (induction s) auto

lemma read_bounded_line_terminated:
  assumes "read_bounded_line limit client = Ok line" "line \<noteq> []" "last line = newline"
  shows "\<exists>s rest. pc_sends client = s @ newline # rest \<and> newline \<notin> set s \<and> length s < limit \<and> line = s @ [newline]"
proof -
  let ?available = "take limit (pc_sends client)"
  have "newline \<in> set ?available"
    using assms by (auto simp: read_bounded_line_def Let_def split: if_splits read_end.splits dest: last_in_set)
  moreover from this have line: "line = takeWhile (\<lambda>c. c \<noteq> newline) ?available @ [newline]"
    using assms(1) by (simp add: read_bounded_line_def Let_def)
  ultimately obtain rest where rest: "?available = takeWhile (\<lambda>c. c \<noteq> newline) ?available @ newline # rest"
    using last_newline_takeWhile by blast
  let ?s = "takeWhile (\<lambda>c. c \<noteq> newline) ?available"
  have "pc_sends client = ?s @ newline # (rest @ drop limit (pc_sends client))"
    using rest append_take_drop_id [of limit "pc_sends client"] by (metis append_Cons append_assoc)
  moreover have "length ?s < limit"
    using arg_cong [OF rest, of length] by simp
  moreover have "newline \<notin> set ?s"
    by (auto dest: set_takeWhileD)
  ultimately show ?thesis
    using line by blast
qed

lemma read_bounded_line_complete:
  "newline \<notin> set s \<Longrightarrow> length s < limit \<Longrightarrow> pc_sends client = s @ newline # rest
   \<Longrightarrow> read_bounded_line limit client = Ok (s @ [newline])"
  by (auto simp: read_bounded_line_def Let_def take_Cons')

lemma framed_command_iff:
  "framed_command wi client = Ok command \<longleftrightarrow>
     (\<exists>s rest. pc_sends client = s @ newline # rest \<and> newline \<notin> set s \<and> length s < IPC_MAX_LINE_BYTES
       \<and> strip_carriage_return s \<noteq> [] \<and> wi_command_from_slice wi (strip_carriage_return s) = Ok command)"
  (is "?l \<longleftrightarrow> ?r")
proof
  assume ?l
  then obtain line where line: "read_bounded_line IPC_MAX_LINE_BYTES client = Ok line" "line \<noteq> []"
      "last line = newline" "decode_command wi (strip_carriage_return (butlast line)) = Ok command"
    by (auto simp: framed_command_def and_then_eq_Ok split: if_splits)
  obtain s rest where "pc_sends client = s @ newline # rest" "newline \<notin> set s" "length s < IPC_MAX_LINE_BYTES"
      "line = s @ [newline]"
    using read_bounded_line_terminated [OF line(1-3)] by blast
  with line(4) show ?r
    by (auto simp: decode_command_def context_err_def split: if_splits result.splits)
next
  assume ?r
  then obtain s rest where s: "pc_sends client = s @ newline # rest" "newline \<notin> set s"
      "length s < IPC_MAX_LINE_BYTES" "strip_carriage_return s \<noteq> []"
      "wi_command_from_slice wi (strip_carriage_return s) = Ok command"
    by blast
  moreover have "length (strip_carriage_return s) \<le> length s"
    by (simp add: strip_carriage_return_def)
  ultimately show ?l
    using read_bounded_line_complete [OF s(2,3,1)]
    by (simp add: framed_command_def decode_command_def context_err_def)
qed

lemma serve_one_Err:
  "framed_command wi client = Err e \<Longrightarrow> serve_one wi request client (w, got) = (Err e, (w, got))"
  by (simp add: serve_one_def bind_io_def)

lemma serve_one_Ok:
  assumes "framed_command wi client = Ok command" "request command w = (Ok response, w')"
    "encode_response wi response = Ok bytes" "pc_takes client = None"
  shows "serve_one wi request client (w, got) = (Ok (), (w', got @ bytes))"
  using assms by (simp add: serve_one_def bind_io_def write_response_def)

lemma serve_one_too_long:
  assumes "framed_command wi client = Ok command" "request command w = (Ok response, w')"
    "encode_response wi response = Err e"
  shows "serve_one wi request client (w, got) = (Err e, (w', got))"
  using assms by (simp add: serve_one_def bind_io_def)

lemma serve_one_refused:
  assumes "framed_command wi client = Ok command" "request command w = (Err e, w')"
  shows "serve_one wi request client (w, got) = (Err e, (w', got))"
  using assms by (simp add: serve_one_def bind_io_def)

definition dispatched :: "wire \<Rightarrow> (service_command \<Rightarrow> ('w, ipc_response) io) \<Rightarrow> pipe_client \<Rightarrow> 'w \<Rightarrow> service_command list" where
  "dispatched wi request client w =
     snd (fst (snd (serve_one wi (\<lambda>c (w, log). map_prod id (\<lambda>w'. (w', log @ [c])) (request c w)) client ((w, []), []))))"

lemma dispatched_eq:
  "dispatched wi request client w = (case framed_command wi client of Ok c \<Rightarrow> [c] | Err _ \<Rightarrow> [])"
proof (cases "framed_command wi client")
  case (Ok c)
  obtain r w' where "request c w = (r, w')"
    by fastforce
  with Ok show ?thesis
    by (cases r) (auto simp: dispatched_def serve_one_def bind_io_def write_response_def split: result.split option.split)
qed (simp add: dispatched_def serve_one_def bind_io_def)

text \<open>
  C34: A connection runs at most one command, and exactly the one that the bytes it sends begin with:
  a line of less than 64 KiB before its newline, which decodes once a final carriage return is
  removed.  What stands after the newline, how the connection ends and whether the client reads its
  response make no difference, and nothing else that a client may send is ever run.
\<close>

theorem session_dispatches_exactly:
  "length (dispatched wi request client w) \<le> 1
   \<and> (command \<in> set (dispatched wi request client w) \<longleftrightarrow>
        (\<exists>s rest. pc_sends client = s @ newline # rest \<and> newline \<notin> set s \<and> length s < IPC_MAX_LINE_BYTES
           \<and> strip_carriage_return s \<noteq> [] \<and> wi_command_from_slice wi (strip_carriage_return s) = Ok command))"
  unfolding framed_command_iff [symmetric] by (auto simp: dispatched_eq split: result.split)

section \<open>The accept loop\<close>

definition MAX_ACTIVE_PIPE_SESSIONS :: nat where
  "MAX_ACTIVE_PIPE_SESSIONS = 16"

datatype accept_state = Listening | Refusing | Draining | Returned "(unit, string) result"

text \<open>
  The set of session tasks (a task that is complete stays in it until it is joined), and the clients
  that were served and that were accepted and closed at once.
\<close>

record accept_loop =
  al_state :: accept_state
  al_sessions :: "(nat \<times> bool) list"
  al_first_instance :: bool
  al_served :: "nat list"
  al_refused :: "nat list"

text \<open>The head of the loop, where the creation of the next pipe instance may fail.\<close>

definition loop_top :: "bool \<Rightarrow> accept_loop \<Rightarrow> accept_loop" where
  "loop_top creates st =
     (if length (al_sessions st) \<ge> MAX_ACTIVE_PIPE_SESSIONS
      then (let reaped = st\<lparr>al_sessions := filter (\<lambda>(i, complete). \<not> complete) (al_sessions st)\<rparr> in
            if creates then reaped\<lparr>al_state := Refusing\<rparr>
            else reaped\<lparr>al_state := Returned (Err ''failed to create secured named pipe''), al_sessions := []\<rparr>)
      else if creates then st\<lparr>al_state := Listening, al_first_instance := False\<rparr>
      else st\<lparr>al_state := Returned (Err ''failed to create secured named pipe''), al_sessions := []\<rparr>)"

definition run_named_pipe_bounded :: "bool \<Rightarrow> accept_loop" where
  "run_named_pipe_bounded creates =
     loop_top creates \<lparr>al_state = Listening, al_sessions = [], al_first_instance = True, al_served = [], al_refused = []\<rparr>"

text \<open>
  What the loop waits for: a client connects (and the next instance can or cannot be created), the
  connection fails, a session task completes, the service shuts down, the drain deadline elapses.
\<close>

datatype accept_event = Connects nat bool | ConnectFails string | Completes nat | ShutsDown | DeadlineElapses

fun accept_step :: "accept_event \<Rightarrow> accept_loop \<Rightarrow> accept_loop" where
  "accept_step (Connects c creates) st =
     (case al_state st of
        Listening \<Rightarrow> loop_top creates (st\<lparr>al_sessions := al_sessions st @ [(c, False)], al_served := al_served st @ [c]\<rparr>)
      | Refusing \<Rightarrow> loop_top creates (st\<lparr>al_refused := al_refused st @ [c]\<rparr>)
      | _ \<Rightarrow> st)"
| "accept_step (ConnectFails e) st =
     (if al_state st \<in> {Listening, Refusing}
      then st\<lparr>al_state := Returned (Err ''named-pipe client connect failed''), al_sessions := []\<rparr> else st)"
| "accept_step (Completes c) st =
     (let sessions = List.map (\<lambda>(i, complete). (i, complete \<or> i = c)) (al_sessions st) in
      if al_state st = Draining
      then (let left = filter (\<lambda>(i, complete). \<not> complete) sessions in
            st\<lparr>al_sessions := left, al_state := (if left = [] then Returned (Ok ()) else Draining)\<rparr>)
      else st\<lparr>al_sessions := sessions\<rparr>)"
| "accept_step ShutsDown st =
     (if al_state st \<in> {Listening, Refusing}
      then (let left = filter (\<lambda>(i, complete). \<not> complete) (al_sessions st) in
            st\<lparr>al_sessions := left, al_state := (if left = [] then Returned (Ok ()) else Draining)\<rparr>)
      else st)"
| "accept_step DeadlineElapses st =
     (if al_state st = Draining then st\<lparr>al_sessions := [], al_state := Returned (Ok ())\<rparr> else st)"

definition accept_run :: "accept_event list \<Rightarrow> accept_loop \<Rightarrow> accept_loop" where
  "accept_run events st = fold accept_step events st"

lemma accept_run_simps [simp]:
  "accept_run [] st = st"
  "accept_run (e # es) st = accept_run es (accept_step e st)"
  "accept_run (es @ fs) st = accept_run fs (accept_run es st)"
  by (simp_all add: accept_run_def)

subsection \<open>The bound on the sessions\<close>

text \<open>
  At most 16 tasks are in the set, while a connection is awaited in order to be served fewer, and
  after the loop has returned none.
\<close>

definition accept_inv :: "accept_loop \<Rightarrow> bool" where
  "accept_inv st \<longleftrightarrow> length (al_sessions st) \<le> MAX_ACTIVE_PIPE_SESSIONS
     \<and> (al_state st = Listening \<longrightarrow> length (al_sessions st) < MAX_ACTIVE_PIPE_SESSIONS)
     \<and> (\<forall>r. al_state st = Returned r \<longrightarrow> al_sessions st = [])
     \<and> fst ` set (al_sessions st) \<subseteq> set (al_served st)"

definition accept_moves :: "accept_loop \<Rightarrow> accept_loop \<Rightarrow> bool" where
  "accept_moves st st' \<longleftrightarrow> (\<exists>e. st' = accept_step e st)"

lemma loop_top_inv:
  "length (al_sessions st) \<le> MAX_ACTIVE_PIPE_SESSIONS \<Longrightarrow> fst ` set (al_sessions st) \<subseteq> set (al_served st)
   \<Longrightarrow> accept_inv (loop_top creates st)"
  by (auto simp: accept_inv_def loop_top_def Let_def intro: le_trans [OF length_filter_le])

lemma accept_step_inv:
  assumes inv: "accept_inv st"
  shows "accept_inv (accept_step e st)"
proof (cases e)
  case (Connects c creates)
  have "accept_inv (loop_top creates (st\<lparr>al_sessions := al_sessions st @ [(c, False)], al_served := al_served st @ [c]\<rparr>))"
    if "al_state st = Listening"
    by (rule loop_top_inv) (use that inv in \<open>auto simp: accept_inv_def\<close>)
  moreover have "accept_inv (loop_top creates (st\<lparr>al_refused := al_refused st @ [c]\<rparr>))"
    by (rule loop_top_inv) (use inv in \<open>auto simp: accept_inv_def\<close>)
  ultimately show ?thesis
    using inv Connects by (auto split: accept_state.split)
next
  case (Completes c)
  let ?sessions = "List.map (\<lambda>(i, complete). (i, complete \<or> i = c)) (al_sessions st)"
  have "fst ` set (filter P ?sessions) \<subseteq> set (al_served st)" for P
    using inv by (force simp: accept_inv_def)
  from this [of "\<lambda>_. True"] this show ?thesis
    using inv Completes by (auto simp: accept_inv_def Let_def intro: le_trans [OF length_filter_le])
next
  case ShutsDown
  have "fst ` set (filter P (al_sessions st)) \<subseteq> set (al_served st)" for P
    using inv by (force simp: accept_inv_def)
  then show ?thesis
    using inv ShutsDown by (auto simp: accept_inv_def Let_def intro: le_trans [OF length_filter_le])
qed (use inv in \<open>auto simp: accept_inv_def\<close>)

interpretation accept_loop: machine "run_named_pipe_bounded creates" accept_moves accept_inv for creates
proof
  show "accept_inv (run_named_pipe_bounded creates)"
    unfolding run_named_pipe_bounded_def by (rule loop_top_inv) simp_all
next
  show "accept_inv s \<Longrightarrow> accept_moves s t \<Longrightarrow> accept_inv t" for s t
    by (auto simp: accept_moves_def intro: accept_step_inv)
qed

subsection \<open>One client after the other\<close>

text \<open>Client \<open>i\<close> connects when the session of client \<open>i - 1\<close> is complete.\<close>

definition one_by_one :: "nat \<Rightarrow> accept_event list" where
  "one_by_one n = concat (List.map (\<lambda>i. [Connects i True, Completes i]) [0..<n])"

lemma one_by_one_simps [simp]:
  "one_by_one 0 = []"
  "one_by_one (Suc n) = one_by_one n @ [Connects n True, Completes n]"
  by (simp_all add: one_by_one_def)

definition turn_refused :: "nat \<Rightarrow> bool" where
  "turn_refused i \<longleftrightarrow> 0 < i \<and> i mod MAX_ACTIVE_PIPE_SESSIONS = 0"

text \<open>The state before client \<open>n\<close> connects: all tasks in the set are complete.\<close>

definition between_clients :: "nat \<Rightarrow> accept_loop \<Rightarrow> bool" where
  "between_clients n st \<longleftrightarrow>
     (\<forall>(i, complete)\<in>set (al_sessions st). complete)
     \<and> length (al_sessions st) = (if turn_refused n then 1 else n mod MAX_ACTIVE_PIPE_SESSIONS)
     \<and> al_state st = (if turn_refused n then Refusing else Listening)
     \<and> al_served st = filter (\<lambda>i. \<not> turn_refused i) [0..<n]
     \<and> al_refused st = filter turn_refused [0..<n]"

lemma all_complete_reaped:
  "\<forall>(i, complete)\<in>set xs. complete \<Longrightarrow> filter (\<lambda>(i, complete). \<not> complete) xs = []"
  by (induction xs) auto

lemma mod_16_cases:
  "\<not> turn_refused n \<Longrightarrow>
   (Suc (n mod MAX_ACTIVE_PIPE_SESSIONS) = MAX_ACTIVE_PIPE_SESSIONS \<and> turn_refused (Suc n))
   \<or> (Suc (n mod MAX_ACTIVE_PIPE_SESSIONS) < MAX_ACTIVE_PIPE_SESSIONS \<and> \<not> turn_refused (Suc n)
        \<and> Suc n mod MAX_ACTIVE_PIPE_SESSIONS = Suc (n mod MAX_ACTIVE_PIPE_SESSIONS))"
  by (auto simp: turn_refused_def MAX_ACTIVE_PIPE_SESSIONS_def mod_Suc split: if_splits)

lemma turn_after_refused:
  "turn_refused n \<Longrightarrow> \<not> turn_refused (Suc n) \<and> Suc n mod MAX_ACTIVE_PIPE_SESSIONS = 1"
  by (auto simp: turn_refused_def MAX_ACTIVE_PIPE_SESSIONS_def mod_Suc)

lemma one_client:
  assumes "between_clients n st"
  shows "between_clients (Suc n) (accept_step (Completes n) (accept_step (Connects n True) st))"
proof (cases "turn_refused n")
  case True
  then show ?thesis
    using assms turn_after_refused [OF True]
    by (auto simp: between_clients_def loop_top_def MAX_ACTIVE_PIPE_SESSIONS_def)
next
  case False
  then have st: "al_state st = Listening" "length (al_sessions st) = n mod MAX_ACTIVE_PIPE_SESSIONS"
      "al_served st = filter (\<lambda>i. \<not> turn_refused i) [0..<n]" "al_refused st = filter turn_refused [0..<n]"
      "\<forall>(i, complete)\<in>set (al_sessions st). complete"
    using assms by (simp_all add: between_clients_def)
  from mod_16_cases [OF False] show ?thesis
  proof (elim disjE conjE)
    assume full: "Suc (n mod MAX_ACTIVE_PIPE_SESSIONS) = MAX_ACTIVE_PIPE_SESSIONS" "turn_refused (Suc n)"
    show ?thesis
      unfolding between_clients_def
      using False full st(1-4) all_complete_reaped [OF st(5)]
      by (simp add: loop_top_def Let_def)
  next
    assume room: "Suc (n mod MAX_ACTIVE_PIPE_SESSIONS) < MAX_ACTIVE_PIPE_SESSIONS" "\<not> turn_refused (Suc n)"
      "Suc n mod MAX_ACTIVE_PIPE_SESSIONS = Suc (n mod MAX_ACTIVE_PIPE_SESSIONS)"
    show ?thesis
      using False room st unfolding between_clients_def by (auto simp: loop_top_def)
  qed
qed

lemma clients_one_by_one: "between_clients n (accept_run (one_by_one n) (run_named_pipe_bounded True))"
proof (induction n)
  case 0
  show ?case
    by (simp add: between_clients_def run_named_pipe_bounded_def loop_top_def turn_refused_def
        MAX_ACTIVE_PIPE_SESSIONS_def)
next
  case (Suc n)
  then show ?case
    using one_client [of n] by simp
qed

text \<open>
  Clients that come one after the other, each after the one before it is done, are not all
  served: the seventeenth, and from then on every sixteenth, is accepted and closed at once, although
  no session is active when it connects.  Completed sessions are only joined once 16 of them have
  piled up, and the next connection is refused all the same.
\<close>

theorem sequential_clients_are_refused:
  "al_refused (accept_run (one_by_one n) (run_named_pipe_bounded True)) = filter turn_refused [0..<n]
   \<and> al_served (accept_run (one_by_one n) (run_named_pipe_bounded True)) = filter (\<lambda>i. \<not> turn_refused i) [0..<n]
   \<and> filter (\<lambda>(i, complete). \<not> complete) (al_sessions (accept_run (one_by_one n) (run_named_pipe_bounded True))) = []
   \<and> turn_refused 16"
  using clients_one_by_one [of n] by (auto simp: between_clients_def filter_empty_conv turn_refused_def MAX_ACTIVE_PIPE_SESSIONS_def)

end
