(* ===== verification/Cli.thy ===== *)
theory Cli
  imports CliOutput IpcServer
begin

text \<open>
  \<open>spotter-cli/src/lib.rs\<close>: the dispatch of one parsed command through the client's ports, the
  exchange with the service over the pipe, the reading of a token and of a confirmation, and the exit
  code.  Argument parsing (clap), the console and the pipe itself are parameters.
\<close>

section \<open>Errors and exit codes\<close>

datatype cli_error = CliMessage string | CliContext string cli_error | ServiceUnavailable | ServiceIdentityError string

definition EXIT_SERVICE_UNAVAILABLE :: int where
  "EXIT_SERVICE_UNAVAILABLE = 2"

text \<open>Whether a cause in the error's chain is one that makes the service unavailable.\<close>

fun unavailable_cause :: "cli_error \<Rightarrow> bool" where
  "unavailable_cause (CliMessage _) = False"
| "unavailable_cause (CliContext _ e) = unavailable_cause e"
| "unavailable_cause ServiceUnavailable = True"
| "unavailable_cause (ServiceIdentityError _) = True"

definition exit_code :: "cli_error \<Rightarrow> int" where
  "exit_code e = (if unavailable_cause e then EXIT_SERVICE_UNAVAILABLE else 1)"

type_synonym ('w, 'a) cli_io = "('w, cli_error, 'a) effect"

definition lift_text :: "('a, string) result \<Rightarrow> ('w, 'a) cli_io" where
  "lift_text r = (\<lambda>w. (case r of Ok x \<Rightarrow> Ok x | Err e \<Rightarrow> Err (CliMessage e), w))"

lemma lift_text_simps [simp]:
  "lift_text (Ok x) w = (Ok x, w)"
  "lift_text (Err e) w = (Err (CliMessage e), w)"
  by (simp_all add: lift_text_def)

section \<open>Dispatch\<close>

datatype config_command = ConfigSet string string | ConfigGet "string option" | ConfigSetToken

datatype service_command_args = Install | Uninstall

datatype cli_command =
    ConfigCmd config_command
  | StatusCmd bool
  | SyncCmd
  | CheckinCmd bool "string option" bool
  | ServiceCmd service_command_args

record cli =
  cli_json :: bool
  cli_command :: cli_command

record 'w cli_ports =
  cp_elevated :: bool
  cp_send :: "service_command \<Rightarrow> ('w, ipc_response) cli_io"
  cp_read_token :: "('w, string) cli_io"
  cp_confirm :: "string \<Rightarrow> ('w, bool) cli_io"
  cp_install :: "('w, unit) cli_io"
  cp_uninstall :: "('w, unit) cli_io"

definition confirm_prompt :: string where
  "confirm_prompt = ''Check in the selected monitor asset(s)? [y/N] ''"

definition some_io :: "('w, 'a) cli_io \<Rightarrow> ('w, 'a option) cli_io" where
  "some_io m = bind_io m (\<lambda>x. ret (Some x))"

text \<open>The command that is sent, if any, and its response.\<close>

definition dispatch_command :: "cli_command \<Rightarrow> 'w cli_ports \<Rightarrow> ('w, ipc_response option) cli_io" where
  "dispatch_command command ports =
     (case command of
        ConfigCmd (ConfigSet field v) \<Rightarrow>
          bind_io (lift_text (validate_config_field field v)) (\<lambda>_. some_io (cp_send ports (SetConfig field v)))
      | ConfigCmd (ConfigGet field) \<Rightarrow>
          bind_io (case field of Some f \<Rightarrow> lift_text (validate_selector f) | None \<Rightarrow> ret ()) (\<lambda>_.
            some_io (cp_send ports GetConfig))
      | ConfigCmd ConfigSetToken \<Rightarrow>
          bind_io (cp_read_token ports) (\<lambda>token. some_io (cp_send ports (SetToken token)))
      | StatusCmd full \<Rightarrow> some_io (cp_send ports (if full then GetStatusFull else GetStatus))
      | SyncCmd \<Rightarrow> some_io (cp_send ports TriggerSync)
      | CheckinCmd all serial yes \<Rightarrow>
          if \<not> all \<and> serial = None then fail (CliMessage ''specify --all or a monitor serial'')
          else bind_io (if yes then ret True else cp_confirm ports confirm_prompt) (\<lambda>confirmed.
            if \<not> confirmed then fail (CliMessage ''check-in cancelled'')
            else if all then some_io (cp_send ports CheckinAll)
            else (case serial of
                    Some s \<Rightarrow> some_io (cp_send ports (CheckinSerial s))
                  | None \<Rightarrow> fail (CliMessage ''specify --all or a monitor serial'')))
      | ServiceCmd Install \<Rightarrow> bind_io (cp_install ports) (\<lambda>_. ret None)
      | ServiceCmd Uninstall \<Rightarrow> bind_io (cp_uninstall ports) (\<lambda>_. ret None))"

text \<open>The generic renderer; its last case is the source's \<open>unreachable!\<close>.\<close>

definition render :: "printer \<Rightarrow> ipc_response \<Rightarrow> bool \<Rightarrow> (string, string) result" where
  "render pr response json =
     (if json then pr_response pr response
      else (case response of
              OkResponse message \<Rightarrow> Ok message
            | ErrorResponse message \<Rightarrow> Ok message
            | CheckinResult checked_in \<Rightarrow> Ok (''Checked in '' @ dec_nat (length checked_in) @ '' monitor(s)'')
            | _ \<Rightarrow> Err ''panic: special responses are rendered before the generic renderer''))"

definition selector_of :: "cli_command \<Rightarrow> string option" where
  "selector_of command = (case command of ConfigCmd (ConfigGet field) \<Rightarrow> field | _ \<Rightarrow> None)"

definition render_response :: "printer \<Rightarrow> cli \<Rightarrow> ipc_response option \<Rightarrow> (string, string) result" where
  "render_response pr cli response =
     (case response of
        None \<Rightarrow> Ok ''ok''
      | Some (ErrorResponse message) \<Rightarrow> Err message
      | Some (ConfigResponse settings missing) \<Rightarrow>
          render_config pr settings missing (selector_of (cli_command cli)) (cli_json cli)
      | Some (StatusResponse a b c d) \<Rightarrow> render_status pr (StatusResponse a b c d) (cli_json cli)
      | Some (StatusFullResponse a b c d e f) \<Rightarrow> render_status pr (StatusFullResponse a b c d e f) (cli_json cli)
      | Some response \<Rightarrow> render pr response (cli_json cli))"

definition dispatch :: "printer \<Rightarrow> cli \<Rightarrow> 'w cli_ports \<Rightarrow> ('w, string) cli_io" where
  "dispatch pr cli ports =
     (if \<not> cp_elevated ports then fail (CliMessage ''administrator privileges are required'')
      else bind_io (dispatch_command (cli_command cli) ports) (\<lambda>response. lift_text (render_response pr cli response)))"

subsection \<open>What is shown\<close>

lemma dec_nat_calm: "calm (dec_nat n)"
proof -
  have "list_all ascii (dec_nat n)"
    using dec_nat_digits [of _ n] by (fastforce simp: list_all_iff ascii_def byte_def)
  then show ?thesis by (rule calm_words)
qed

lemma calm_lines_single: "calm out \<Longrightarrow> calm_lines (Suc 0) out"
  by (auto simp: calm_lines_def intro!: exI [of _ "[out]"])

text \<open>
  C38: of an answer shown to a person, only the message of an \<open>Ok\<close> or an \<open>Error\<close> answer is not escaped.
  That message is printed, or is the error of the command, exactly as the service sent it.  A
  configuration, a status and a check-in, whatever names, serials, texts and settings they
  hold, are shown in a number of lines fixed by the layout, with one line for each monitor, and no
  line holds a control character; only the selection of a field that cannot be selected fails.
\<close>

theorem terminal_output_is_calm:
  assumes "\<not> cli_json cli"
  shows "case response of
      OkResponse message \<Rightarrow> render_response pr cli (Some response) = Ok message
    | ErrorResponse message \<Rightarrow> render_response pr cli (Some response) = Err message
    | CheckinResult checked_in \<Rightarrow> (\<exists>out. render_response pr cli (Some response) = Ok out \<and> calm_lines 1 out)
    | ConfigResponse s missing \<Rightarrow>
        (case selector_of (cli_command cli) of
           None \<Rightarrow> (\<exists>out. render_response pr cli (Some response) = Ok out \<and> calm_lines 10 out)
         | Some field \<Rightarrow>
             if is_ok (render_response pr cli (Some response))
             then render_response pr cli (Some response) = Ok (field @ '': '' @ escape_terminal (setting_text s field))
               \<and> calm_lines 1 (field @ '': '' @ escape_terminal (setting_text s field))
             else field \<notin> set SELECTABLE_FIELDS)
    | StatusResponse st last_sync next_sync snipeit_url \<Rightarrow>
        (\<exists>out. render_response pr cli (Some response) = Ok out \<and> calm_lines 4 out)
    | StatusFullResponse st last_sync next_sync snipeit_url asset monitors \<Rightarrow>
        (\<exists>out. render_response pr cli (Some response) = Ok out \<and> calm_lines (6 + max 1 (length monitors)) out)"
proof (cases response)
  case (ConfigResponse s missing)
  note r = human_renderings_calm [of pr s missing, THEN conjunct1]
    human_renderings_calm [of pr s missing, THEN conjunct2, THEN conjunct1]
  show ?thesis
  proof (cases "selector_of (cli_command cli)")
    case None
    with assms ConfigResponse r(1) show ?thesis by (auto simp: render_response_def split: result.splits)
  next
    case (Some field)
    with assms ConfigResponse r(2) [of field] show ?thesis
      by (cases "render_config pr s missing (Some field) False") (auto simp: render_response_def intro: calm_lines_single)
  qed
next
  case (CheckinResult checked_in)
  have "calm (''Checked in '' @ dec_nat (length checked_in) @ '' monitor(s)'')"
  proof (rule calm_literal)
    show "list_all ascii ''Checked in ''" by (simp add: ascii_def byte_def)
    have "list_all ascii '' monitor(s)''" by (simp add: ascii_def byte_def)
    then show "calm (dec_nat (length checked_in) @ '' monitor(s)'')"
      by (intro calm_append dec_nat_calm calm_words) (simp_all add: ascii_def byte_def)
  qed
  with assms CheckinResult show ?thesis by (auto simp: render_response_def render_def intro: calm_lines_single)
next
  case (StatusResponse st last_sync next_sync snipeit_url)
  with assms show ?thesis by (auto simp: render_response_def render_status_def intro: short_calm)
next
  case (StatusFullResponse st last_sync next_sync snipeit_url asset monitors)
  with assms show ?thesis by (simp add: render_response_def render_status_def full_calm [simplified])
qed (use assms in \<open>simp_all add: render_response_def render_def\<close>)

text \<open>An escape sequence in the state and the URL of a status, and in the message of an error.\<close>

theorem terminal_output_is_calm_witness:
  "\<forall>pr. (\<exists>out. render_response pr \<lparr>cli_json = False, cli_command = StatusCmd False\<rparr>
        (Some (StatusResponse [CHR 0x1B] None None [CHR 0x1B, CHR 0x5B])) = Ok out \<and> calm_lines 4 out)
   \<and> render_response pr \<lparr>cli_json = False, cli_command = StatusCmd False\<rparr> (Some (ErrorResponse [CHR 0x1B])) = Err [CHR 0x1B]"
  using terminal_output_is_calm [of "\<lparr>cli_json = False, cli_command = StatusCmd False\<rparr>",
      where response = "StatusResponse [CHR 0x1B] None None [CHR 0x1B, CHR 0x5B]"]
    terminal_output_is_calm [of "\<lparr>cli_json = False, cli_command = StatusCmd False\<rparr>",
      where response = "ErrorResponse [CHR 0x1B]"]
  by simp

subsection \<open>What is sent\<close>

text \<open>The same ports over a world that also records the commands sent.\<close>

definition recording :: "'w cli_ports \<Rightarrow> ('w \<times> service_command list) cli_ports" where
  "recording ports =
     \<lparr>cp_elevated = cp_elevated ports,
      cp_send = (\<lambda>c (w, log). map_prod id (\<lambda>w'. (w', log @ [c])) (cp_send ports c w)),
      cp_read_token = (\<lambda>(w, log). map_prod id (\<lambda>w'. (w', log)) (cp_read_token ports w)),
      cp_confirm = (\<lambda>p (w, log). map_prod id (\<lambda>w'. (w', log)) (cp_confirm ports p w)),
      cp_install = (\<lambda>(w, log). map_prod id (\<lambda>w'. (w', log)) (cp_install ports w)),
      cp_uninstall = (\<lambda>(w, log). map_prod id (\<lambda>w'. (w', log)) (cp_uninstall ports w))\<rparr>"

definition commands_sent :: "printer \<Rightarrow> cli \<Rightarrow> 'w cli_ports \<Rightarrow> 'w \<Rightarrow> service_command list" where
  "commands_sent pr cli ports w = snd (snd (dispatch pr cli (recording ports) (w, [])))"

text \<open>The one command that an invocation stands for, if it passes its checks.\<close>

definition intended :: "cli_command \<Rightarrow> 'w cli_ports \<Rightarrow> 'w \<Rightarrow> service_command option" where
  "intended command ports w =
     (case command of
        ConfigCmd (ConfigSet field v) \<Rightarrow> if is_ok (validate_config_field field v) then Some (SetConfig field v) else None
      | ConfigCmd (ConfigGet None) \<Rightarrow> Some GetConfig
      | ConfigCmd (ConfigGet (Some field)) \<Rightarrow> if field \<in> set SELECTABLE_FIELDS then Some GetConfig else None
      | ConfigCmd ConfigSetToken \<Rightarrow> (case fst (cp_read_token ports w) of Ok token \<Rightarrow> Some (SetToken token) | Err _ \<Rightarrow> None)
      | StatusCmd full \<Rightarrow> Some (if full then GetStatusFull else GetStatus)
      | SyncCmd \<Rightarrow> Some TriggerSync
      | CheckinCmd all serial yes \<Rightarrow>
          if yes \<or> fst (cp_confirm ports confirm_prompt w) = Ok True
          then (if all then Some CheckinAll else map_option CheckinSerial serial) else None
      | ServiceCmd _ \<Rightarrow> None)"

lemma snd_lift_text [simp]: "snd (lift_text r w) = w"
  by (simp add: lift_text_def)

lemma commands_sent_bind:
  "snd (snd (bind_io m (\<lambda>x. lift_text (f x)) wl)) = snd (snd (m wl))"
  by (auto simp: bind_io_def split: prod.split result.split)

lemma send_records:
  "snd (snd (some_io (cp_send (recording ports) c) (w, log))) = log @ [c]"
  by (cases "cp_send ports c w") (auto simp: some_io_def bind_io_def recording_def split: result.split)

lemma recording_pass:
  assumes "m' = (\<lambda>(w, log). map_prod id (\<lambda>w'. (w', log)) (m w))"
  shows "snd (snd (bind_io m' f (w, log))) =
     (case m w of (Ok x, w') \<Rightarrow> snd (snd (f x (w', log))) | (Err _, _) \<Rightarrow> log)"
  by (cases "m w") (auto simp: assms bind_io_def split: result.split)

lemma recording_ports [simp]:
  "cp_elevated (recording ports) = cp_elevated ports"
  "cp_read_token (recording ports) = (\<lambda>(w, log). map_prod id (\<lambda>w'. (w', log)) (cp_read_token ports w))"
  "cp_confirm (recording ports) = (\<lambda>p (w, log). map_prod id (\<lambda>w'. (w', log)) (cp_confirm ports p w))"
  "cp_install (recording ports) = (\<lambda>(w, log). map_prod id (\<lambda>w'. (w', log)) (cp_install ports w))"
  "cp_uninstall (recording ports) = (\<lambda>(w, log). map_prod id (\<lambda>w'. (w', log)) (cp_uninstall ports w))"
  by (simp_all add: recording_def)

lemma bind_lift_text: "bind_io (lift_text r) f wl = (case r of Ok x \<Rightarrow> f x wl | Err e \<Rightarrow> (Err (CliMessage e), wl))"
  by (cases r) (simp_all add: bind_io_def)

lemma validate_selector_iff: "validate_selector field = Ok u \<longleftrightarrow> field \<in> set SELECTABLE_FIELDS"
  by (simp add: validate_selector_def)

lemma sent_checkin:
  "snd (snd (dispatch_command (CheckinCmd all serial yes) (recording ports) (w, []))) =
     (case intended (CheckinCmd all serial yes) ports w of Some c \<Rightarrow> [c] | None \<Rightarrow> [])"
proof (cases "\<not> all \<and> serial = None")
  case True
  then show ?thesis
    by (simp add: dispatch_command_def intended_def)
next
  case False
  let ?send = "\<lambda>confirmed. if \<not> confirmed then fail (CliMessage ''check-in cancelled'')
            else if all then some_io (cp_send (recording ports) CheckinAll)
            else (case serial of
                    Some s \<Rightarrow> some_io (cp_send (recording ports) (CheckinSerial s))
                  | None \<Rightarrow> fail (CliMessage ''specify --all or a monitor serial''))"
  have send: "snd (snd (?send b (w', []))) =
      (if b then (if all then [CheckinAll] else (case serial of Some s \<Rightarrow> [CheckinSerial s] | None \<Rightarrow> [])) else [])" for b w'
    using False by (auto simp: send_records split: option.split)
  have confirm: "snd (snd (bind_io (cp_confirm (recording ports) confirm_prompt) ?send (w, []))) =
      (case cp_confirm ports confirm_prompt w of (Ok b, w') \<Rightarrow> snd (snd (?send b (w', []))) | (Err _, _) \<Rightarrow> [])"
    by (subst recording_pass [of _ "cp_confirm ports confirm_prompt"]) (simp_all split: prod.split result.split)
  show ?thesis
  proof (cases yes)
    case True
    with False show ?thesis
      using send [of True w] by (auto simp: dispatch_command_def intended_def split: option.split)
  next
    case no: False
    have "dispatch_command (CheckinCmd all serial yes) (recording ports) =
        bind_io (cp_confirm (recording ports) confirm_prompt) ?send"
      unfolding dispatch_command_def using False no by auto
    then have "snd (snd (dispatch_command (CheckinCmd all serial yes) (recording ports) (w, []))) =
        (case cp_confirm ports confirm_prompt w of
           (Ok b, w') \<Rightarrow>
             (if b then (if all then [CheckinAll] else (case serial of Some s \<Rightarrow> [CheckinSerial s] | None \<Rightarrow> [])) else [])
         | (Err _, _) \<Rightarrow> [])"
      by (simp only: confirm send)
    then show ?thesis
      using False no by (auto simp: intended_def simp del: recording_ports split: prod.split result.split option.split)
  qed
qed

lemma sent_as_intended:
  "snd (snd (dispatch_command command (recording ports) (w, []))) =
     (case intended command ports w of Some c \<Rightarrow> [c] | None \<Rightarrow> [])"
proof (cases command)
  case (ConfigCmd c)
  show ?thesis
  proof (cases c)
    case (ConfigSet field v)
    then show ?thesis
      using ConfigCmd
      by (cases "validate_config_field field v")
        (simp_all add: dispatch_command_def intended_def bind_lift_text send_records)
  next
    case (ConfigGet field)
    show ?thesis
    proof (cases field)
      case (Some f)
      then show ?thesis
        using ConfigCmd ConfigGet validate_selector_iff [of f]
        by (cases "validate_selector f")
          (auto simp: dispatch_command_def intended_def bind_lift_text send_records)
    qed (use ConfigCmd ConfigGet in \<open>simp add: dispatch_command_def intended_def send_records\<close>)
  next
    case ConfigSetToken
    then show ?thesis
      using ConfigCmd
      by (cases "cp_read_token ports w"; cases "fst (cp_read_token ports w)")
        (simp_all add: dispatch_command_def intended_def send_records recording_pass [of _ "cp_read_token ports"])
  qed
next
  case (ServiceCmd a)
  then show ?thesis
    by (cases a) (simp_all add: dispatch_command_def intended_def recording_pass [of _ "cp_install ports"]
        recording_pass [of _ "cp_uninstall ports"] split: prod.split result.split)
next
  case (CheckinCmd all serial yes)
  show ?thesis
    unfolding CheckinCmd by (rule sent_checkin)
qed (simp_all add: dispatch_command_def intended_def send_records)

text \<open>
  An invocation sends at most one command, and exactly the one it stands for: nothing without
  administrator rights, nothing for a setting that does not validate or a field that cannot be
  selected, no check-in that was neither confirmed at the prompt nor with --yes, and no token that was
  not read.  What the service answers makes no difference, and nothing is ever sent twice.
\<close>

theorem dispatch_sends_what_is_intended:
  "commands_sent pr cli ports w =
     (if cp_elevated ports
      then (case intended (cli_command cli) ports w of Some command \<Rightarrow> [command] | None \<Rightarrow> [])
      else [])"
  by (simp add: commands_sent_def dispatch_def commands_sent_bind sent_as_intended)

section \<open>The exchange over the pipe\<close>

definition incomplete_response :: cli_error where
  "incomplete_response = CliMessage ''service response is empty, unterminated, or oversized''"

text \<open>\<open>take\<close> and \<open>read_until\<close> on what the service sends; a stall runs into the overall deadline.\<close>

definition read_bounded_pipe_response :: "nat \<Rightarrow> string \<Rightarrow> read_end \<Rightarrow> (string, cli_error) result" where
  "read_bounded_pipe_response max_bytes sent rest =
     (let available = take max_bytes sent in
      if newline \<in> set available then Ok (takeWhile (\<lambda>c. c \<noteq> newline) available @ [newline])
      else if length available = max_bytes then Ok available
      else (case rest of
              Eof \<Rightarrow> Ok available
            | Stalls \<Rightarrow> Err (CliContext ''service request timed out'' (CliMessage ''timed out waiting on channel''))
            | ReadFails e \<Rightarrow> Err (CliContext ''failed to read service response'' (CliMessage e))))"

definition encode_request :: "wire \<Rightarrow> service_command \<Rightarrow> (string, cli_error) result" where
  "encode_request wi command =
     (let request = wi_command_to_vec wi command @ [newline] in
      if length request > IPC_MAX_LINE_BYTES then Err (CliMessage ''service request exceeds 64 KiB'') else Ok request)"

definition decode_response :: "wire \<Rightarrow> string \<Rightarrow> (ipc_response, cli_error) result" where
  "decode_response wi response =
     (if response = [] \<or> last response \<noteq> newline then Err incomplete_response
      else (case wi_response_from_slice wi (strip_carriage_return (butlast response)) of
              Ok r \<Rightarrow> Ok r
            | Err e \<Rightarrow> Err (CliContext ''invalid service response JSON'' (CliMessage e))))"

text \<open>
  The pipe: whether it opens, whether its server is the registered service, and what a request gets
  (or why it cannot be written).
\<close>

record 'w pipe =
  pi_open :: "('w, string, unit) effect"
  pi_identity :: "('w, string, unit) effect"
  pi_converse :: "string \<Rightarrow> ('w, string, string \<times> read_end) effect"

definition map_err :: "('e \<Rightarrow> 'f) \<Rightarrow> ('w, 'e, 'a) effect \<Rightarrow> ('w, 'f, 'a) effect" where
  "map_err f m = (\<lambda>w. case m w of (Ok x, w') \<Rightarrow> (Ok x, w') | (Err e, w') \<Rightarrow> (Err (f e), w'))"

definition exchange_named_pipe :: "wire \<Rightarrow> 'w pipe \<Rightarrow> service_command \<Rightarrow> ('w, ipc_response) cli_io" where
  "exchange_named_pipe wi pipe command =
     bind_io (map_err (\<lambda>e. CliContext e ServiceUnavailable) (pi_open pipe)) (\<lambda>_.
     bind_io (map_err (\<lambda>e. CliContext ''service identity authentication failed'' (ServiceIdentityError e)) (pi_identity pipe)) (\<lambda>_.
     bind_io (\<lambda>w. (encode_request wi command, w)) (\<lambda>request.
     bind_io (map_err (\<lambda>e. CliContext ''failed to write service request'' (CliMessage e)) (pi_converse pipe request)) (\<lambda>(sent, rest).
     bind_io (\<lambda>w. (read_bounded_pipe_response IPC_MAX_LINE_BYTES sent rest, w)) (\<lambda>response w.
     (decode_response wi response, w))))))"

subsection \<open>The exchange is authenticated first\<close>

lemma exchange_not_open:
  "pi_open pipe w = (Err e, w1) \<Longrightarrow>
   exchange_named_pipe wi pipe command w = (Err (CliContext e ServiceUnavailable), w1)"
  by (simp add: exchange_named_pipe_def bind_io_def map_err_def)

lemma exchange_not_authentic:
  "pi_open pipe w = (Ok (), w1) \<Longrightarrow> pi_identity pipe w1 = (Err e, w2) \<Longrightarrow>
   exchange_named_pipe wi pipe command w
     = (Err (CliContext ''service identity authentication failed'' (ServiceIdentityError e)), w2)"
  by (simp add: exchange_named_pipe_def bind_io_def map_err_def)

lemma exchange_authentic:
  "pi_open pipe w = (Ok (), w1) \<Longrightarrow> pi_identity pipe w1 = (Ok (), w2) \<Longrightarrow>
   exchange_named_pipe wi pipe command w =
     (case encode_request wi command of
        Err e \<Rightarrow> (Err e, w2)
      | Ok request \<Rightarrow>
          (case pi_converse pipe request w2 of
             (Err e, w3) \<Rightarrow> (Err (CliContext ''failed to write service request'' (CliMessage e)), w3)
           | (Ok (sent, rest), w3) \<Rightarrow>
               (and_then (read_bounded_pipe_response IPC_MAX_LINE_BYTES sent rest) (decode_response wi), w3)))"
  by (auto simp: exchange_named_pipe_def bind_io_def map_err_def split: result.split prod.split)

lemma read_response_plain: "read_bounded_pipe_response n sent rest = Err e \<Longrightarrow> \<not> unavailable_cause e"
  by (auto simp: read_bounded_pipe_response_def Let_def split: if_splits read_end.splits)

lemma decode_response_plain: "decode_response wi response = Err e \<Longrightarrow> \<not> unavailable_cause e"
  by (auto simp: decode_response_def incomplete_response_def split: if_splits result.splits)

lemma encode_request_plain: "encode_request wi command = Err e \<Longrightarrow> \<not> unavailable_cause e"
  by (auto simp: encode_request_def Let_def split: if_splits)

lemma authentic_plain:
  assumes "pi_open pipe w = (Ok (), w1)" "pi_identity pipe w1 = (Ok (), w2)"
    "exchange_named_pipe wi pipe command w = (Err e, w3)"
  shows "\<not> unavailable_cause e"
  using assms(3) unfolding exchange_authentic [OF assms(1,2)]
  by (auto simp: and_then_eq_Err split: result.splits prod.splits
      dest: encode_request_plain read_response_plain decode_response_plain)

text \<open>
  No byte of a command, a token among them, reaches a pipe whose server is not authenticated: if
  the pipe does not open, or its server is not the registered service, the exchange is over in the
  world that this left, and whatever the rest of the pipe would answer is never asked.  The exit code
  is 2 exactly for these two failures.
\<close>

theorem exchange_authenticates_first:
  "(case pi_open pipe w of
      (Err e, w1) \<Rightarrow> exchange_named_pipe wi pipe command w = (Err (CliContext e ServiceUnavailable), w1)
    | (Ok _, w1) \<Rightarrow>
        (case pi_identity pipe w1 of
           (Err e, w2) \<Rightarrow> snd (exchange_named_pipe wi pipe command w) = w2
             \<and> (case fst (exchange_named_pipe wi pipe command w) of Ok _ \<Rightarrow> False | Err e \<Rightarrow> exit_code e = 2)
         | (Ok _, w2) \<Rightarrow>
             (case fst (exchange_named_pipe wi pipe command w) of Ok _ \<Rightarrow> True | Err e \<Rightarrow> exit_code e = 1)))"
proof -
  obtain r1 w1 where "pi_open pipe w = (r1, w1)"
    by fastforce
  moreover obtain r2 w2 where "pi_identity pipe w1 = (r2, w2)"
    by fastforce
  ultimately show ?thesis
    using exchange_not_open [of pipe w _ w1 wi command] exchange_not_authentic [of pipe w w1 _ w2 wi command]
      authentic_plain [of pipe w w1 w2 wi command]
    by (cases r1; cases r2; cases "exchange_named_pipe wi pipe command w")
      (auto simp: exit_code_def EXIT_SERVICE_UNAVAILABLE_def split: result.split)
qed

section \<open>End to end\<close>

text \<open>What serde promises of one value: it is read back, its text is one line and does not end in a carriage return.\<close>

definition carries :: "('a \<Rightarrow> string) \<Rightarrow> (string \<Rightarrow> ('a, string) result) \<Rightarrow> 'a \<Rightarrow> bool" where
  "carries to_vec from_slice x \<longleftrightarrow>
     from_slice (to_vec x) = Ok x \<and> to_vec x \<noteq> [] \<and> newline \<notin> set (to_vec x) \<and> last (to_vec x) \<noteq> carriage_return"

text \<open>A pipe whose server is the service: it serves the connection and closes it.\<close>

definition service_pipe :: "wire \<Rightarrow> (service_command \<Rightarrow> ('w, ipc_response) io) \<Rightarrow> 'w pipe" where
  "service_pipe wi request =
     \<lparr>pi_open = ret (), pi_identity = ret (),
      pi_converse = (\<lambda>bytes w.
        (case serve_one wi request \<lparr>pc_sends = bytes, pc_then = Stalls, pc_takes = None\<rparr> (w, []) of
           (_, (w', got)) \<Rightarrow> (Ok (got, Eof), w')))\<rparr>"

lemma carries_strip: "carries to_vec from_slice x \<Longrightarrow> strip_carriage_return (to_vec x) = to_vec x"
  by (simp add: carries_def strip_carriage_return_def)

lemma carried_command:
  assumes "carries (wi_command_to_vec wi) (wi_command_from_slice wi) command"
    "length (wi_command_to_vec wi command) < IPC_MAX_LINE_BYTES"
  shows "framed_command wi \<lparr>pc_sends = wi_command_to_vec wi command @ [newline], pc_then = e, pc_takes = t\<rparr> = Ok command"
  unfolding framed_command_iff
  using assms carries_strip [OF assms(1)]
  by (intro exI [of _ "wi_command_to_vec wi command"] exI [of _ "[]"]) (simp add: carries_def)

lemma carried_response:
  assumes "carries (wi_response_to_vec wi) (wi_response_from_slice wi) response"
    "length (wi_response_to_vec wi response) < IPC_MAX_LINE_BYTES"
  shows "read_bounded_pipe_response IPC_MAX_LINE_BYTES (wi_response_to_vec wi response @ [newline]) rest
           = Ok (wi_response_to_vec wi response @ [newline])"
    and "decode_response wi (wi_response_to_vec wi response @ [newline]) = Ok response"
  using assms carries_strip [OF assms(1)]
  by (simp_all add: read_bounded_pipe_response_def decode_response_def carries_def)

lemma nothing_sent:
  "and_then (read_bounded_pipe_response IPC_MAX_LINE_BYTES [] Eof) (decode_response wi) = Err incomplete_response"
  by (simp add: read_bounded_pipe_response_def decode_response_def IPC_MAX_LINE_BYTES_def)

lemma end_to_end:
  assumes command: "carries (wi_command_to_vec wi) (wi_command_from_slice wi) command"
    and request: "request command w = (r, w')"
    and response: "case r of Ok response \<Rightarrow> carries (wi_response_to_vec wi) (wi_response_from_slice wi) response | Err _ \<Rightarrow> True"
  shows "exchange_named_pipe wi (service_pipe wi request) command w =
     (if length (wi_command_to_vec wi command) \<ge> IPC_MAX_LINE_BYTES
      then (Err (CliMessage ''service request exceeds 64 KiB''), w)
      else (case r of
              Ok response \<Rightarrow>
                if length (wi_response_to_vec wi response) < IPC_MAX_LINE_BYTES then Ok response
                else Err incomplete_response
            | Err _ \<Rightarrow> Err incomplete_response, w'))"
proof (cases "length (wi_command_to_vec wi command) \<ge> IPC_MAX_LINE_BYTES")
  case True
  then have "encode_request wi command = Err (CliMessage ''service request exceeds 64 KiB'')"
    by (simp add: encode_request_def)
  with True show ?thesis
    by (subst exchange_authentic [of _ w w w]) (simp_all add: service_pipe_def)
next
  case False
  then have encoded: "encode_request wi command = Ok (wi_command_to_vec wi command @ [newline])"
    by (simp add: encode_request_def)
  let ?client = "\<lparr>pc_sends = wi_command_to_vec wi command @ [newline], pc_then = Stalls, pc_takes = None\<rparr>"
  have framed: "framed_command wi ?client = Ok command"
    using False by (intro carried_command [OF command]) simp
  have exchange: "exchange_named_pipe wi (service_pipe wi request) command w =
      (case serve_one wi request ?client (w, []) of
         (_, (w', got)) \<Rightarrow> (and_then (read_bounded_pipe_response IPC_MAX_LINE_BYTES got Eof) (decode_response wi), w'))"
    by (subst exchange_authentic [of _ w w w]) (simp_all add: service_pipe_def encoded split: prod.split)
  show ?thesis
  proof (cases r)
    case (Err e)
    then show ?thesis
      using False unfolding exchange by (simp add: serve_one_refused [where request = request and w = w, OF framed request [unfolded Err]] nothing_sent Err)
  next
    case (Ok answer)
    show ?thesis
    proof (cases "length (wi_response_to_vec wi answer) < IPC_MAX_LINE_BYTES")
      case True
      then have "encode_response wi answer = Ok (wi_response_to_vec wi answer @ [newline])"
        by (simp add: encode_response_def)
      from serve_one_Ok [where request = request and w = w, OF framed request [unfolded Ok] this] True False show ?thesis
        unfolding exchange using carried_response [OF response [unfolded Ok result.case] True] Ok by simp
    next
      case long: False
      then have "encode_response wi answer = Err (Message ''IPC response exceeds 64 KiB'')"
        by (simp add: encode_response_def)
      from serve_one_too_long [where request = request and w = w, OF framed request [unfolded Ok] this] long False show ?thesis
        unfolding exchange using Ok by (simp add: nothing_sent)
    qed
  qed
qed

text \<open>
  C33: Client and service agree over the pipe.  With a codec that carries the command and its answer, a
  command that fits a line is run by the service exactly once and the client gets its answer; a
  command that does not fit is refused before anything is sent.  But an answer of 64 KiB or more is
  dropped by the service after the command has run, and the client reports an incomplete response, as
  it does when the command loop is gone.
\<close>

theorem exchange_end_to_end:
  assumes "carries (wi_command_to_vec wi) (wi_command_from_slice wi) command"
    and "request command w = (r, w')"
    and "case r of Ok response \<Rightarrow> carries (wi_response_to_vec wi) (wi_response_from_slice wi) response | Err _ \<Rightarrow> True"
  shows "exchange_named_pipe wi (service_pipe wi request) command w =
     (if length (wi_command_to_vec wi command) \<ge> IPC_MAX_LINE_BYTES
      then (Err (CliMessage ''service request exceeds 64 KiB''), w)
      else (case r of
              Ok response \<Rightarrow>
                if length (wi_response_to_vec wi response) < IPC_MAX_LINE_BYTES then Ok response
                else Err incomplete_response
            | Err _ \<Rightarrow> Err incomplete_response, w'))"
  by (rule end_to_end [where request = request and w = w, OF assms])

definition demo_wire :: wire where
  "demo_wire = \<lparr>wi_command_to_vec = (\<lambda>_. ''sync''), wi_command_from_slice = (\<lambda>_. Ok TriggerSync),
     wi_response_to_vec = (\<lambda>_. ''done''), wi_response_from_slice = (\<lambda>_. Ok (OkResponse ''done''))\<rparr>"

lemma exchange_end_to_end_witness:
  "exchange_named_pipe demo_wire (service_pipe demo_wire (\<lambda>c n. (Ok (OkResponse ''done''), n + 1))) TriggerSync (0 :: nat)
     = (Ok (OkResponse ''done''), 1)"
proof -
  have "carries (wi_command_to_vec demo_wire) (wi_command_from_slice demo_wire) TriggerSync"
    "carries (wi_response_to_vec demo_wire) (wi_response_from_slice demo_wire) (OkResponse ''done'')"
    by (simp_all add: carries_def demo_wire_def newline_def carriage_return_def)
  then show ?thesis
    by (subst exchange_end_to_end [where r = "Ok (OkResponse ''done'')" and w' = 1])
      (simp_all add: demo_wire_def IPC_MAX_LINE_BYTES_def)
qed

section \<open>Tokens and confirmation\<close>

definition MAX_TOKEN_BYTES :: nat where
  "MAX_TOKEN_BYTES = 16 * 1024"

text \<open>A token piped in; the validity of UTF-8 and a failing read are parameters.\<close>

definition read_piped_token :: "(string \<Rightarrow> bool) \<Rightarrow> (string, string) result \<Rightarrow> (string, cli_error) result" where
  "read_piped_token is_utf8 input =
     (case input of
        Err e \<Rightarrow> Err (CliContext ''failed to read API token from stdin'' (CliMessage e))
      | Ok everything \<Rightarrow>
          (let bytes = take (MAX_TOKEN_BYTES + 1) everything in
           if length bytes > MAX_TOKEN_BYTES then Err (CliMessage ''API token input exceeds 16 KiB'')
           else (let token = rev (dropWhile (\<lambda>c. c = carriage_return \<or> c = newline) (rev bytes)) in
                 if is_utf8 token then Ok token else Err (CliMessage ''API token must be UTF-8''))))"

text \<open>\<open>None\<close>: standard input is not a terminal.\<close>

definition read_token ::
  "(string \<Rightarrow> bool) \<Rightarrow> (string, string) result option \<Rightarrow> (string, string) result \<Rightarrow> (string, cli_error) result" where
  "read_token is_utf8 prompted input =
     and_then
       (case prompted of
          Some (Ok token) \<Rightarrow> Ok token
        | Some (Err e) \<Rightarrow> Err (CliContext ''failed to read API token'' (CliMessage e))
        | None \<Rightarrow> read_piped_token is_utf8 input)
       (\<lambda>token. if token = [] then Err (CliMessage ''API token must not be empty'') else Ok token)"

definition is_confirmation :: "string \<Rightarrow> bool" where
  "is_confirmation answer \<longleftrightarrow> ascii_lower (trim answer) \<in> {''y'', ''yes''}"

definition console_confirm :: "(unit, string) result \<Rightarrow> (string, string) result \<Rightarrow> (bool, cli_error) result" where
  "console_confirm flushed answer =
     (case flushed of
        Err e \<Rightarrow> Err (CliContext ''failed to flush confirmation prompt'' (CliMessage e))
      | Ok _ \<Rightarrow>
          (case answer of
             Err e \<Rightarrow> Err (CliContext ''failed to read confirmation'' (CliMessage e))
           | Ok text \<Rightarrow> Ok (is_confirmation text)))"

text \<open>A piped token is read back without the line ends behind it, and without anything else.\<close>

lemma piped_token_exact:
  "read_piped_token is_utf8 (Ok everything) = Ok token \<longleftrightarrow>
     (\<exists>ends. everything = token @ ends \<and> set ends \<subseteq> {carriage_return, newline}
       \<and> (token = [] \<or> last token \<notin> {carriage_return, newline})
       \<and> length everything \<le> MAX_TOKEN_BYTES \<and> is_utf8 token)"
  (is "?l \<longleftrightarrow> ?r")
proof
  assume ?l
  then have fits: "length everything \<le> MAX_TOKEN_BYTES" "is_utf8 token"
    and token: "token = rev (dropWhile (\<lambda>c. c = carriage_return \<or> c = newline) (rev everything))"
    by (auto simp: read_piped_token_def Let_def split: if_splits)
  let ?ends = "rev (takeWhile (\<lambda>c. c = carriage_return \<or> c = newline) (rev everything))"
  have "everything = token @ ?ends"
    unfolding token by (metis rev_append rev_rev_ident takeWhile_dropWhile_id)
  moreover have "set ?ends \<subseteq> {carriage_return, newline}"
    by (auto dest: set_takeWhileD)
  moreover have "token = [] \<or> last token \<notin> {carriage_return, newline}"
    unfolding token using hd_dropWhile [of "\<lambda>c. c = carriage_return \<or> c = newline" "rev everything"]
    by (auto simp: last_rev)
  ultimately show ?r
    using fits by blast
next
  assume ?r
  then obtain ends where r: "everything = token @ ends" "set ends \<subseteq> {carriage_return, newline}"
      "token = [] \<or> last token \<notin> {carriage_return, newline}" "length everything \<le> MAX_TOKEN_BYTES" "is_utf8 token"
    by blast
  have "dropWhile (\<lambda>c. c = carriage_return \<or> c = newline) (rev ends @ rev token) = rev token"
    using r(2,3) by (subst dropWhile_append2) (auto simp: hd_rev neq_Nil_conv dropWhile_eq_self_iff)
  with r show ?l
    by (simp add: read_piped_token_def)
qed

end
