(* ===== verification/CommandLine.thy ===== *)
theory CommandLine
  imports Identity
begin

text \<open>
  The executable of a service's command line: \<open>spotter-cli/src/command_line.rs\<close> and its twin in
  \<open>spotter-win32/src/pipe.rs\<close>, with which the client checks that the process behind the pipe is the
  registered service.
\<close>

definition quote_char :: char where
  "quote_char = CHR 0x22"

lemma quote_not_backslash [simp]: "quote_char \<noteq> backslash" "backslash \<noteq> quote_char"
  by (simp_all add: quote_char_def Identity.backslash_def)

definition no_executable :: string where
  "no_executable = ''service command line has no executable path''"

definition unterminated_quote :: string where
  "unterminated_quote = ''service command line has an unterminated executable quote''"

section \<open>The parsers\<close>

text \<open>The loop over a quoted path: what is read so far and the backslashes not yet written.\<close>

fun quoted_executable :: "string \<Rightarrow> nat \<Rightarrow> string \<Rightarrow> (string, string) result" where
  "quoted_executable executable backslashes [] = Err unterminated_quote"
| "quoted_executable executable backslashes (c # cs) =
     (if c = backslash then quoted_executable executable (backslashes + 1) cs
      else if c = quote_char then
        (if backslashes mod 2 = 0
         then (let path = executable @ replicate (backslashes div 2) backslash in
               if path = [] then Err no_executable else Ok path)
         else quoted_executable (executable @ replicate (backslashes div 2) backslash @ [quote_char]) 0 cs)
      else quoted_executable (executable @ replicate backslashes backslash @ [c]) 0 cs)"

fun unquoted_executable :: "string \<Rightarrow> string \<Rightarrow> string" where
  "unquoted_executable executable [] = executable"
| "unquoted_executable executable (c # cs) =
     (if ws_len (c # cs) \<noteq> 0 then executable else unquoted_executable (executable @ [c]) cs)"

definition executable_from_command_line :: "string \<Rightarrow> (string, string) result" where
  "executable_from_command_line command_line =
     (case trim_start command_line of
        [] \<Rightarrow> Err no_executable
      | c # cs \<Rightarrow>
          if c = quote_char then quoted_executable [] 0 cs
          else (let executable = unquoted_executable [] (c # cs) in
                if executable = [] then Err no_executable else Ok executable))"

text \<open>The twin: a quote after an even number of backslashes is a guarded arm of its own.\<close>

fun pipe_quoted_executable :: "string \<Rightarrow> nat \<Rightarrow> string \<Rightarrow> (string, string) result" where
  "pipe_quoted_executable executable backslashes [] = Err unterminated_quote"
| "pipe_quoted_executable executable backslashes (c # cs) =
     (if c = backslash then pipe_quoted_executable executable (backslashes + 1) cs
      else if c = quote_char \<and> backslashes mod 2 = 0
      then (let path = executable @ replicate (backslashes div 2) backslash in
            if path = [] then Err no_executable else Ok path)
      else if c = quote_char
      then pipe_quoted_executable (executable @ replicate (backslashes div 2) backslash @ [quote_char]) 0 cs
      else pipe_quoted_executable (executable @ replicate backslashes backslash @ [c]) 0 cs)"

definition pipe_executable_from_command_line :: "string \<Rightarrow> (string, string) result" where
  "pipe_executable_from_command_line command_line =
     (case trim_start command_line of
        [] \<Rightarrow> Err no_executable
      | c # cs \<Rightarrow>
          if c = quote_char then pipe_quoted_executable [] 0 cs
          else (let executable = unquoted_executable [] (c # cs) in
                if executable = [] then Err no_executable else Ok executable))"

lemma pipe_quoted_same: "pipe_quoted_executable e n cs = quoted_executable e n cs"
  by (induction e n cs rule: quoted_executable.induct) auto

section \<open>Quoting\<close>

text \<open>
  The quoting of an argument that Windows programs use: backslashes are doubled before a quote, and
  a quote inside is escaped.
\<close>

fun escape_argument :: "nat \<Rightarrow> string \<Rightarrow> string" where
  "escape_argument n [] = replicate (2 * n) backslash"
| "escape_argument n (c # cs) =
     (if c = backslash then escape_argument (Suc n) cs
      else if c = quote_char then replicate (2 * n + 1) backslash @ quote_char # escape_argument 0 cs
      else replicate n backslash @ c # escape_argument 0 cs)"

definition quote_argument :: "string \<Rightarrow> string" where
  "quote_argument s = quote_char # escape_argument 0 s @ [quote_char]"

lemma quoted_backslashes:
  "quoted_executable e n (replicate k backslash @ cs) = quoted_executable e (n + k) cs"
  by (induction k arbitrary: n) auto

lemma quoted_escape:
  "quoted_executable e 0 (escape_argument n s @ quote_char # rest)
     = (let path = e @ replicate n backslash @ s in if path = [] then Err no_executable else Ok path)"
proof (induction n s arbitrary: e rule: escape_argument.induct)
  case (2 n c cs)
  then show ?case
    by (auto simp: quoted_backslashes replicate_append_same Let_def)
qed (simp add: quoted_backslashes Let_def)

lemma ws_len_blank: "ws1 c \<Longrightarrow> ws_len (c # cs) = 1"
  by (cases cs rule: ws_len.cases) auto

lemma ws_len_ascii: "\<not> ws1 c \<Longrightarrow> byte c < 0x80 \<Longrightarrow> ws_len (c # cs) = 0"
  by (cases cs rule: ws_len.cases; cases "tl cs") (auto simp: ws2_def ws3_def)

lemma trim_start_blanks: "list_all ws1 blanks \<Longrightarrow> trim_start (blanks @ s) = trim_start s"
  by (induction blanks) (simp_all add: trim_start_def strip_ws.simps [of ws_len "_ # _"] ws_len_blank)

lemma quote_char_plain: "\<not> ws1 quote_char" "byte quote_char < 0x80"
  by (simp_all add: quote_char_def ws1_def byte_def)

lemma trim_start_ascii: "\<not> ws1 c \<Longrightarrow> byte c < 0x80 \<Longrightarrow> trim_start (c # cs) = c # cs"
  by (simp add: trim_start_def strip_ws_zero ws_len_ascii)

lemma quoted_round_trip:
  "list_all ws1 blanks \<Longrightarrow> path \<noteq> [] \<Longrightarrow>
   executable_from_command_line (blanks @ quote_argument path @ rest) = Ok path"
  by (simp add: executable_from_command_line_def trim_start_blanks quote_argument_def trim_start_ascii
      quote_char_plain quoted_escape)

lemma unquoted_reads:
  "\<forall>c\<in>set path. \<not> ws1 c \<and> byte c < 0x80 \<Longrightarrow> rest = [] \<or> ws1 (hd rest) \<Longrightarrow>
   unquoted_executable e (path @ rest) = e @ path"
proof (induction path arbitrary: e)
  case Nil
  then show ?case
    by (cases rest) (auto simp: ws_len_blank)
qed (auto simp: ws_len_ascii)

lemma unquoted_round_trip:
  assumes "list_all ws1 blanks" "path \<noteq> []" "hd path \<noteq> quote_char"
    "\<forall>c\<in>set path. \<not> ws1 c \<and> byte c < 0x80" "rest = [] \<or> ws1 (hd rest)"
  shows "executable_from_command_line (blanks @ path @ rest) = Ok path"
proof -
  obtain c cs where path: "path = c # cs"
    using assms(2) by (cases path) auto
  show ?thesis
    using unquoted_reads [OF assms(4,5), of "[]"] assms
    by (simp add: path executable_from_command_line_def trim_start_blanks trim_start_ascii)
qed

lemma twins_agree: "pipe_executable_from_command_line command_line = executable_from_command_line command_line"
  by (simp add: pipe_executable_from_command_line_def executable_from_command_line_def pipe_quoted_same
      split: list.split)

text \<open>
  The executable of a command line is the path that was quoted into it, whatever the path and
  whatever stands behind it; and the twin of the parser in the client's identity check reads the same
  from every command line, so that the check compares the path that is registered.
\<close>

theorem command_line_round_trip:
  assumes "list_all ws1 blanks" "path \<noteq> []"
  shows "executable_from_command_line (blanks @ quote_argument path @ rest) = Ok path
    \<and> pipe_executable_from_command_line command_line = executable_from_command_line command_line"
  using quoted_round_trip [OF assms] twins_agree by blast

lemma command_line_round_trip_witness:
  "executable_from_command_line ('' '' @ quote_argument ''C:/a b'' @ '' --service'') = Ok ''C:/a b''"
  using command_line_round_trip [of "'' ''" "''C:/a b''" "'' --service''"] by (simp add: ws1_def byte_def)

end
