(* ===== verification/Registration.thy ===== *)
theory Registration
  imports Cli CommandLine
begin

text \<open>
  The registration of the service by the client (\<open>spotter-cli/src/lib.rs\<close>): the options with
  their validation, and install and uninstall over the Windows Service Control Manager, which is a
  parameter with its clock.
\<close>

section \<open>Options\<close>

record registration_options =
  ro_runtime :: runtime_options
  ro_executable :: string

definition validate_registration :: "registration_options \<Rightarrow> (unit, string) result" where
  "validate_registration o1 =
     (let r = ro_runtime o1; nul = CHR 0x00 in
      if ro_executable o1 = [] then Err ''service executable path must not be empty''
      else if trim (service_name r) = [] then Err ''service name must not be empty''
      else if data_root r = [] then Err ''service data root must not be empty''
      else if trim (pipe_endpoint r) = [] then Err ''pipe endpoint must not be empty''
      else if \<not> starts_with pipe_namespace (pipe_endpoint r)
        then Err ''pipe endpoint must use the Windows named-pipe namespace''
      else if trim (mutex_name r) = [] then Err ''mutex name must not be empty''
      else if nul \<in> set (service_name r) \<or> nul \<in> set (pipe_endpoint r) \<or> nul \<in> set (mutex_name r)
        \<or> nul \<in> set (data_root r) \<or> nul \<in> set (ro_executable o1)
        then Err ''service registration values must not contain NUL bytes''
      else Ok ())"

text \<open>The path functions of the standard library are parameters.\<close>

definition registration_options_from_current_exe ::
  "(string \<Rightarrow> bool) \<Rightarrow> (string \<Rightarrow> string \<Rightarrow> string) \<Rightarrow> (string, string) result \<Rightarrow> (registration_options, cli_error) result" where
  "registration_options_from_current_exe is_absolute with_file_name current_exe =
     (case current_exe of
        Err e \<Rightarrow> Err (CliContext ''failed to resolve current executable'' (CliMessage e))
      | Ok path \<Rightarrow>
          if \<not> is_absolute path then Err (CliMessage ''current executable path must be absolute'')
          else Ok \<lparr>ro_runtime = production, ro_executable = with_file_name path ''spotter-svc.exe''\<rparr>)"

section \<open>The Service Control Manager\<close>

datatype scm_error_class = Missing | AlreadyExists | AccessDenied | MarkedForDelete | Other

definition classify_scm_error_code :: "int option \<Rightarrow> scm_error_class" where
  "classify_scm_error_code code =
     (if code = Some 5 then AccessDenied
      else if code = Some 1060 then Missing
      else if code = Some 1072 then MarkedForDelete
      else if code = Some 1073 then AlreadyExists
      else Other)"

datatype scm_error = Winapi "int option" string | OtherScmError string

definition classify_scm_error :: "scm_error \<Rightarrow> scm_error_class" where
  "classify_scm_error e = (case e of Winapi code _ \<Rightarrow> classify_scm_error_code code | _ \<Rightarrow> Other)"

record service_info =
  sv_name :: string
  sv_executable :: string
  sv_launch_arguments :: "string list"

text \<open>
  Whether a file exists, and the manager: connecting, opening a service, creating it with its
  description, its state (stopped or not), stopping and deleting it; the clock, and sleeping.
\<close>

record 'w scm =
  sc_is_file :: "string \<Rightarrow> 'w \<Rightarrow> bool"
  sc_connect :: "('w, scm_error, unit) effect"
  sc_open :: "string \<Rightarrow> ('w, scm_error, unit) effect"
  sc_create :: "service_info \<Rightarrow> ('w, scm_error, unit) effect"
  sc_describe :: "('w, scm_error, unit) effect"
  sc_query :: "('w, scm_error, bool) effect"
  sc_stop :: "('w, scm_error, unit) effect"
  sc_delete :: "('w, scm_error, unit) effect"
  sc_now :: "'w \<Rightarrow> nat"
  sc_sleep :: "nat \<Rightarrow> 'w \<Rightarrow> 'w"

definition scm_text :: "scm_error \<Rightarrow> string" where
  "scm_text e = (case e of Winapi _ t \<Rightarrow> t | OtherScmError t \<Rightarrow> t)"

definition scm_context :: "string \<Rightarrow> scm_error \<Rightarrow> cli_error" where
  "scm_context text e = CliContext text (CliMessage (scm_text e))"

definition SCM_WAIT_TIMEOUT :: nat where
  "SCM_WAIT_TIMEOUT = 90000"

definition SCM_POLL_INTERVAL :: nat where
  "SCM_POLL_INTERVAL = 250"

section \<open>Install\<close>

definition service_info_of :: "registration_options \<Rightarrow> service_info" where
  "service_info_of o1 =
     \<lparr>sv_name = service_name (ro_runtime o1), sv_executable = ro_executable o1,
      sv_launch_arguments = launch_arguments (ro_runtime o1)\<rparr>"

definition require_absent :: "'w scm \<Rightarrow> string \<Rightarrow> ('w, unit) cli_io" where
  "require_absent scm name = (\<lambda>w.
     (case sc_open scm name w of
        (Ok _, w1) \<Rightarrow> (Err (CliMessage (''service '' @ name @ '' is already installed'')), w1)
      | (Err e, w1) \<Rightarrow>
          (case classify_scm_error e of
             Missing \<Rightarrow> (Ok (), w1)
           | MarkedForDelete \<Rightarrow> (Err (CliMessage (''service '' @ name @ '' is marked for deletion'')), w1)
           | _ \<Rightarrow> (Err (scm_context (''failed to determine whether service '' @ name @ '' is installed'') e), w1))))"

definition install :: "'w scm \<Rightarrow> registration_options \<Rightarrow> ('w, unit) cli_io" where
  "install scm o1 =
     (let name = service_name (ro_runtime o1) in
      bind_io (lift_text (validate_registration o1)) (\<lambda>_.
      bind_io (\<lambda>w. (if sc_is_file scm (ro_executable o1) w then Ok ()
                    else Err (CliMessage (''service executable not found: '' @ ro_executable o1)), w)) (\<lambda>_.
      bind_io (map_err (scm_context ''failed to connect to the Windows Service Control Manager'') (sc_connect scm)) (\<lambda>_.
      bind_io (require_absent scm name) (\<lambda>_.
      bind_io (map_err (scm_context (''failed to install '' @ name @ '' service'')) (sc_create scm (service_info_of o1))) (\<lambda>_.
      map_err (scm_context (''failed to set '' @ name @ '' service description'')) (sc_describe scm)))))))"

section \<open>Uninstall\<close>

partial_function (option) wait_for_service_state ::
  "'w scm \<Rightarrow> nat \<Rightarrow> 'w \<Rightarrow> ((unit, cli_error) result \<times> 'w) option" where
  "wait_for_service_state scm deadline w =
     (case sc_query scm w of
        (Err e, w1) \<Rightarrow> Some (Err (scm_context ''failed to query service status while waiting'' e), w1)
      | (Ok stopped, w1) \<Rightarrow>
          if stopped then Some (Ok (), w1)
          else if deadline \<le> sc_now scm w1
          then Some (Err (CliMessage ''service did not reach Stopped before the timeout''), w1)
          else wait_for_service_state scm deadline (sc_sleep scm SCM_POLL_INTERVAL w1))"

partial_function (option) wait_for_service_removed ::
  "'w scm \<Rightarrow> string \<Rightarrow> nat \<Rightarrow> 'w \<Rightarrow> ((unit, cli_error) result \<times> 'w) option" where
  "wait_for_service_removed scm name deadline w =
     (case sc_open scm name w of
        (Ok _, w1) \<Rightarrow>
          if sc_now scm w1 < deadline then wait_for_service_removed scm name deadline (sc_sleep scm SCM_POLL_INTERVAL w1)
          else Some (Err (CliMessage (''service '' @ name @ '' remained registered after the timeout'')), w1)
      | (Err e, w1) \<Rightarrow>
          (if classify_scm_error e = Missing then Some (Ok (), w1)
           else if classify_scm_error e = MarkedForDelete \<and> sc_now scm w1 < deadline
           then wait_for_service_removed scm name deadline (sc_sleep scm SCM_POLL_INTERVAL w1)
           else if classify_scm_error e = MarkedForDelete
           then Some (Err (CliMessage (''service '' @ name @ '' remained marked for deletion after the timeout'')), w1)
           else Some (Err (scm_context (''failed to query service '' @ name @ '' while waiting for removal'') e), w1)))"

text \<open>A step that may not return, after steps that do.\<close>

definition then_loop ::
  "('w, 'a) cli_io \<Rightarrow> ('a \<Rightarrow> 'w \<Rightarrow> ((unit, cli_error) result \<times> 'w) option) \<Rightarrow> 'w \<Rightarrow> ((unit, cli_error) result \<times> 'w) option" where
  "then_loop m f w = (case m w of (Ok x, w1) \<Rightarrow> f x w1 | (Err e, w1) \<Rightarrow> Some (Err e, w1))"

definition after_loop ::
  "((unit, cli_error) result \<times> 'w) option \<Rightarrow> ('w \<Rightarrow> ((unit, cli_error) result \<times> 'w) option) \<Rightarrow>
   ((unit, cli_error) result \<times> 'w) option" where
  "after_loop r f =
     (case r of None \<Rightarrow> None | Some (Ok _, w1) \<Rightarrow> f w1 | Some (Err e, w1) \<Rightarrow> Some (Err e, w1))"

definition open_for_uninstall :: "'w scm \<Rightarrow> string \<Rightarrow> ('w, unit) cli_io" where
  "open_for_uninstall scm name =
     map_err (\<lambda>e. if classify_scm_error e = Missing then CliMessage (''service '' @ name @ '' is not installed'')
                  else scm_context (''failed to open service '' @ name @ '' for uninstall'') e) (sc_open scm name)"

definition remove_service :: "'w scm \<Rightarrow> string \<Rightarrow> 'w \<Rightarrow> ((unit, cli_error) result \<times> 'w) option" where
  "remove_service scm name =
     then_loop (map_err (scm_context ''failed to remove service'') (sc_delete scm)) (\<lambda>_ w1.
       wait_for_service_removed scm name (sc_now scm w1 + SCM_WAIT_TIMEOUT) w1)"

definition uninstall :: "'w scm \<Rightarrow> registration_options \<Rightarrow> 'w \<Rightarrow> ((unit, cli_error) result \<times> 'w) option" where
  "uninstall scm o1 =
     (let name = service_name (ro_runtime o1) in
      then_loop
        (bind_io (map_err (scm_context ''failed to connect to the Windows Service Control Manager'') (sc_connect scm)) (\<lambda>_.
         bind_io (open_for_uninstall scm name) (\<lambda>_.
         map_err (scm_context ''failed to query service status'') (sc_query scm))))
        (\<lambda>stopped w1.
          if stopped then remove_service scm name w1
          else then_loop (map_err (scm_context ''failed to stop service'') (sc_stop scm)) (\<lambda>_ w2.
                 after_loop (wait_for_service_state scm (sc_now scm w2 + SCM_WAIT_TIMEOUT) w2) (remove_service scm name)) w1))"

section \<open>The waits end\<close>

text \<open>What is relied on of the clock: nothing turns it back, and sleeping moves it on by the interval.\<close>

definition clock_runs :: "'w scm \<Rightarrow> bool" where
  "clock_runs scm \<longleftrightarrow>
     (\<forall>w. sc_now scm w \<le> sc_now scm (snd (sc_query scm w)))
     \<and> (\<forall>name w. sc_now scm w \<le> sc_now scm (snd (sc_open scm name w)))
     \<and> (\<forall>d w. sc_now scm w + d \<le> sc_now scm (sc_sleep scm d w))"

lemma wait_state_returns:
  assumes "clock_runs scm"
  shows "\<exists>r w'. wait_for_service_state scm deadline w = Some (r, w')"
proof (induction "deadline - sc_now scm w" arbitrary: w rule: less_induct)
  case less
  obtain r w1 where q: "sc_query scm w = (r, w1)"
    by fastforce
  have "sc_now scm w \<le> sc_now scm w1" "sc_now scm w1 + SCM_POLL_INTERVAL \<le> sc_now scm (sc_sleep scm SCM_POLL_INTERVAL w1)"
    using assms q by (auto simp: clock_runs_def dest: spec [of _ w])
  then have "\<exists>r w'. wait_for_service_state scm deadline (sc_sleep scm SCM_POLL_INTERVAL w1) = Some (r, w')"
    if "sc_now scm w1 < deadline"
    using that by (intro less) (simp add: SCM_POLL_INTERVAL_def)
  then show ?case
    by (subst wait_for_service_state.simps) (auto simp: q split: result.split)
qed

lemma wait_removed_returns:
  assumes "clock_runs scm"
  shows "\<exists>r w'. wait_for_service_removed scm name deadline w = Some (r, w')"
proof (induction "deadline - sc_now scm w" arbitrary: w rule: less_induct)
  case less
  obtain r w1 where q: "sc_open scm name w = (r, w1)"
    by fastforce
  have "sc_now scm w \<le> sc_now scm w1" "sc_now scm w1 + SCM_POLL_INTERVAL \<le> sc_now scm (sc_sleep scm SCM_POLL_INTERVAL w1)"
    using assms q unfolding clock_runs_def by (metis snd_conv)+
  then have "\<exists>r w'. wait_for_service_removed scm name deadline (sc_sleep scm SCM_POLL_INTERVAL w1) = Some (r, w')"
    if "sc_now scm w1 < deadline"
    using that by (intro less) (simp add: SCM_POLL_INTERVAL_def)
  then show ?case
    by (subst wait_for_service_removed.simps) (auto simp: q split: result.split)
qed

definition returns :: "((unit, cli_error) result \<times> 'w) option \<Rightarrow> bool" where
  "returns r \<longleftrightarrow> r \<noteq> None"

lemma then_loop_returns: "(\<And>x w1. returns (f x w1)) \<Longrightarrow> returns (then_loop m f w)"
  by (auto simp: then_loop_def returns_def split: prod.split result.split)

lemma after_loop_returns: "returns r \<Longrightarrow> (\<And>w1. returns (f w1)) \<Longrightarrow> returns (after_loop r f)"
  by (auto simp: after_loop_def returns_def split: result.split)

lemma waits_return:
  assumes "clock_runs scm"
  shows "returns (wait_for_service_state scm deadline w)" "returns (wait_for_service_removed scm name deadline w)"
  using wait_state_returns [OF assms, of deadline w] wait_removed_returns [OF assms, of name deadline w]
  by (auto simp: returns_def)

lemma remove_returns: "clock_runs scm \<Longrightarrow> returns (remove_service scm name w)"
  unfolding remove_service_def by (intro then_loop_returns waits_return)

lemma uninstall_returns: "clock_runs scm \<Longrightarrow> returns (uninstall scm o1 w)"
  unfolding uninstall_def Let_def
  by (rule then_loop_returns) (auto intro!: then_loop_returns after_loop_returns waits_return remove_returns)

section \<open>What success means\<close>

definition gone :: "'w scm \<Rightarrow> string \<Rightarrow> 'w \<Rightarrow> bool" where
  "gone scm name w' \<longleftrightarrow> (\<exists>w1 e. sc_open scm name w1 = (Err e, w') \<and> classify_scm_error e = Missing)"

lemma goneI: "sc_open scm name w1 = (Err e, w') \<Longrightarrow> classify_scm_error e = Missing \<Longrightarrow> gone scm name w'"
  unfolding gone_def by blast

lemma removed_means_missing:
  fixes scm :: "'w scm"
  assumes "wait_for_service_removed scm name deadline w = Some y"
  shows "fst y = Ok () \<longrightarrow> gone scm name (snd y)"
proof (rule wait_for_service_removed.raw_induct
    [where P = "\<lambda>scm name deadline w y. fst y = Ok () \<longrightarrow> gone scm name (snd y)", OF _ assms])
  fix wait :: "'w scm \<Rightarrow> string \<Rightarrow> nat \<Rightarrow> 'w \<Rightarrow> ((unit, cli_error) result \<times> 'w) option"
  fix scm :: "'w scm" and name deadline w y
  assume IH: "\<And>scm name deadline w y. wait scm name deadline w = Some y \<Longrightarrow> fst y = Ok () \<longrightarrow> gone scm name (snd y)"
  assume "(case sc_open scm name w of
        (Ok _, w1) \<Rightarrow>
          if sc_now scm w1 < deadline then wait scm name deadline (sc_sleep scm SCM_POLL_INTERVAL w1)
          else Some (Err (CliMessage (''service '' @ name @ '' remained registered after the timeout'')), w1)
      | (Err e, w1) \<Rightarrow>
          (if classify_scm_error e = Missing then Some (Ok (), w1)
           else if classify_scm_error e = MarkedForDelete \<and> sc_now scm w1 < deadline
           then wait scm name deadline (sc_sleep scm SCM_POLL_INTERVAL w1)
           else if classify_scm_error e = MarkedForDelete
           then Some (Err (CliMessage (''service '' @ name @ '' remained marked for deletion after the timeout'')), w1)
           else Some (Err (scm_context (''failed to query service '' @ name @ '' while waiting for removal'') e), w1))) = Some y"
  then show "fst y = Ok () \<longrightarrow> gone scm name (snd y)"
    by (auto split: prod.splits result.splits if_splits dest: IH intro: goneI)
qed

lemma then_loop_Ok: "then_loop m f w = Some (Ok (), w') \<longleftrightarrow> (\<exists>x w1. m w = (Ok x, w1) \<and> f x w1 = Some (Ok (), w'))"
  by (auto simp: then_loop_def split: prod.splits result.splits)

lemma after_loop_Ok: "after_loop r f = Some (Ok (), w') \<longleftrightarrow> (\<exists>w1. r = Some (Ok (), w1) \<and> f w1 = Some (Ok (), w'))"
  by (auto simp: after_loop_def split: option.splits prod.splits result.splits)

lemma map_err_Ok [simp]: "map_err f m w = (Ok x, w') \<longleftrightarrow> m w = (Ok x, w')"
  by (auto simp: map_err_def split: prod.splits result.splits)

lemma remove_service_Ok:
  "remove_service scm name w = Some (Ok (), w') \<Longrightarrow> gone scm name w' \<and> (\<exists>wd w1. sc_delete scm wd = (Ok (), w1))"
  using removed_means_missing [of scm name _ _ "(Ok (), w')"] by (auto simp: remove_service_def then_loop_Ok)

lemma uninstall_Ok:
  assumes "uninstall scm o1 w = Some (Ok (), w')"
  shows "gone scm (service_name (ro_runtime o1)) w' \<and> (\<exists>wd w1. sc_delete scm wd = (Ok (), w1))"
proof -
  have "\<exists>w1. remove_service scm (service_name (ro_runtime o1)) w1 = Some (Ok (), w')"
    using assms by (auto simp: uninstall_def Let_def then_loop_Ok after_loop_Ok split: if_splits)
  then obtain w1 where "remove_service scm (service_name (ro_runtime o1)) w1 = Some (Ok (), w')"
    by blast
  from remove_service_Ok [OF this] show ?thesis .
qed

lemma launch_arguments_decode: "validate_options o1 = Ok () \<Longrightarrow> from_arguments (launch_arguments o1) = Ok o1"
  by (cases o1) (simp add: from_arguments_def launch_arguments_def argument_index_def new_options_def)

lemma registration_valid: "validate_registration o1 = Ok () \<Longrightarrow> validate_options (ro_runtime o1) = Ok ()"
  by (simp add: validate_registration_def validate_options_def Let_def split: if_splits)

lemma lift_text_Ok: "lift_text r w = (Ok x, w') \<longleftrightarrow> r = Ok x \<and> w' = w"
  by (cases r) auto

lemma install_Ok:
  assumes "install scm o1 w = (Ok (), w')"
  shows "validate_registration o1 = Ok ()
    \<and> (\<exists>w2 w3. gone scm (service_name (ro_runtime o1)) w2
         \<and> sc_create scm (service_info_of o1) w2 = (Ok (), w3) \<and> sc_describe scm w3 = (Ok (), w'))"
proof -
  have "gone scm name w2" if "require_absent scm name w1 = (Ok (), w2)" for name w1 w2
    using that by (auto simp: require_absent_def gone_def split: prod.splits result.splits scm_error_class.splits)
  then show ?thesis
    using assms unfolding install_def Let_def bind_io_eq_Ok lift_text_Ok map_err_Ok by auto
qed

section \<open>The properties\<close>

text \<open>
  C39: Uninstalling always returns, if the clock runs: no wait goes on for ever, whatever the manager
  answers and however often; and it answers success only after the service was deleted and a later
  attempt to open it found it missing.
\<close>

theorem uninstall_returns_and_removes:
  assumes "clock_runs scm"
  shows "\<exists>r w'. uninstall scm o1 w = Some (r, w')
    \<and> (case r of
         Ok _ \<Rightarrow> (\<exists>w1 e. sc_open scm (service_name (ro_runtime o1)) w1 = (Err e, w') \<and> classify_scm_error e = Missing)
           \<and> (\<exists>wd w1. sc_delete scm wd = (Ok (), w1))
       | Err _ \<Rightarrow> True)"
proof -
  obtain r w' where "uninstall scm o1 w = Some (r, w')"
    using uninstall_returns [OF assms, of o1 w] by (auto simp: returns_def)
  then show ?thesis
    using uninstall_Ok [of scm o1 w w'] by (cases r) (auto simp: gone_def)
qed

text \<open>
  A service that installs starts as the service it was registered as.  When the installation
  succeeds, no service of that name was there, and the service was created with launch arguments that
  the service reads as exactly the registered identity, which is valid.
\<close>

theorem installed_service_starts_as_registered:
  assumes "install scm o1 w = (Ok (), w')"
  shows "(\<exists>w1 e w2 w3. sc_open scm (service_name (ro_runtime o1)) w1 = (Err e, w2) \<and> classify_scm_error e = Missing
           \<and> sc_create scm \<lparr>sv_name = service_name (ro_runtime o1), sv_executable = ro_executable o1,
                sv_launch_arguments = launch_arguments (ro_runtime o1)\<rparr> w2 = (Ok (), w3))
    \<and> from_arguments (launch_arguments (ro_runtime o1)) = Ok (ro_runtime o1)
    \<and> validate_options (ro_runtime o1) = Ok ()"
proof -
  have "validate_options (ro_runtime o1) = Ok ()"
    using install_Ok [OF assms] registration_valid by blast
  then show ?thesis
    using install_Ok [OF assms] launch_arguments_decode by (auto simp: gone_def service_info_of_def)
qed

section \<open>Examples\<close>

text \<open>A manager that knows no service, over a world that counts the services created, and a clock that runs.\<close>

definition demo_scm :: "(nat \<times> nat) scm" where
  "demo_scm =
     \<lparr>sc_is_file = (\<lambda>_ _. True), sc_connect = ret (),
      sc_open = (\<lambda>_ (n, t). if n = 0 then (Err (Winapi (Some 1060) ''missing''), (n, t)) else (Ok (), (n, t))),
      sc_create = (\<lambda>_ (n, t). (Ok (), (n + 1, t))), sc_describe = ret (),
      sc_query = ret False, sc_stop = ret (), sc_delete = (\<lambda>(n, t). (Ok (), (0, t))),
      sc_now = snd, sc_sleep = (\<lambda>d (n, t). (n, t + d))\<rparr>"

definition demo_registration :: registration_options where
  "demo_registration = \<lparr>ro_runtime = production, ro_executable = ''spotter-svc.exe''\<rparr>"

lemma demo_clock_runs: "clock_runs demo_scm"
  by (simp add: clock_runs_def demo_scm_def split: prod.split)

lemma uninstall_returns_and_removes_witness: "\<exists>r w'. uninstall demo_scm demo_registration (1, 0) = Some (r, w')"
  using uninstall_returns_and_removes [OF demo_clock_runs, of demo_registration "(1, 0)"] by blast

lemma demo_registration_valid: "validate_registration demo_registration = Ok ()"
  by code_simp

lemma demo_installs: "install demo_scm demo_registration (0, 0) = (Ok (), (1, 0))"
  by (simp add: install_def demo_registration_valid Let_def demo_scm_def require_absent_def classify_scm_error_def
      classify_scm_error_code_def bind_io_def map_err_def)

lemma installed_service_starts_as_registered_witness:
  "from_arguments (launch_arguments production) = Ok production"
  using installed_service_starts_as_registered [OF demo_installs] by (simp add: demo_registration_def)

end
