(* ===== verification/ServerIdentity.thy ===== *)
theory ServerIdentity
  imports CommandLine Effects
begin

text \<open>
  \<open>spotter-win32/src/pipe.rs\<close>: how the client decides that the process behind the pipe is the
  registered service.  The calls into Windows are ports; the decisions over their answers are modelled.
\<close>

section \<open>Ports and errors\<close>

datatype service_identity_error =
    PipeUnavailable | ServiceStarting | ServiceRestarting
  | IdentityQueryFailed string | UnexpectedIdentity string | UnexpectedExecutable string

record server_identity =
  sr_process_id :: u32
  sr_account_sid :: string
  sr_image_path :: string

text \<open>
  The privilege, the process of a pipe, its handle and whether that is valid, its exit code, its owner
  (whether LocalSystem, and its SID as a text if that can be formatted), the caller's own SID, the
  image of the process, the command line that the manager holds for a service; the normal components
  of a path, whether the object a path names is a reparse point, and its final path.
\<close>

record 'w os =
  os_debug_privilege :: "('w, string, unit) effect"
  os_server_pid :: "('w, string, u32) effect"
  os_open_process :: "u32 \<Rightarrow> ('w, string, nat option) effect"
  os_exit_code :: "nat \<Rightarrow> ('w, string, u32) effect"
  os_token_user :: "nat \<Rightarrow> ('w, string, bool \<times> string option) effect"
  os_current_user :: "('w, string, string) effect"
  os_image_path :: "nat \<Rightarrow> ('w, string, string) effect"
  os_service_command_line :: "string \<Rightarrow> ('w, string, string) effect"
  os_components :: "string \<Rightarrow> string list"
  os_is_reparse :: "string \<Rightarrow> ('w, string, bool) effect"
  os_final_path :: "string \<Rightarrow> ('w, string, string) effect"

definition STILL_ACTIVE :: u32 where
  "STILL_ACTIVE = 259"

definition lift_result :: "('a, string) result \<Rightarrow> ('w, string, 'a) effect" where
  "lift_result r = (\<lambda>w. (r, w))"

section \<open>Paths\<close>

definition validate_path_components :: "'w os \<Rightarrow> string \<Rightarrow> (unit, string) result" where
  "validate_path_components os path =
     (if list_ex (\<lambda>c. c \<noteq> [] \<and> (last c = CHR ''.'' \<or> last c = CHR '' '')) (os_components os path)
      then Err ''executable path contains a trailing dot or space'' else Ok ())"

definition canonicalize_without_reparse :: "'w os \<Rightarrow> string \<Rightarrow> ('w, string, string) effect" where
  "canonicalize_without_reparse os path =
     bind_io (lift_result (validate_path_components os path)) (\<lambda>_.
     bind_io (os_is_reparse os path) (\<lambda>reparse.
     if reparse then fail ''executable path is a reparse point'' else os_final_path os path))"

definition paths_equal_case_insensitive :: "string \<Rightarrow> string \<Rightarrow> bool" where
  "paths_equal_case_insensitive left right \<longleftrightarrow> ascii_lower left = ascii_lower right"

definition query_service_binary_path :: "'w os \<Rightarrow> string \<Rightarrow> ('w, string, string) effect" where
  "query_service_binary_path os name =
     bind_io (os_service_command_line os name) (\<lambda>command_line.
     bind_io (lift_result (pipe_executable_from_command_line command_line)) (canonicalize_without_reparse os))"

section \<open>The query\<close>

definition identity_failure :: "('w, string, 'a) effect \<Rightarrow> ('w, service_identity_error, 'a) effect" where
  "identity_failure m = (\<lambda>w. case m w of (Ok x, w') \<Rightarrow> (Ok x, w') | (Err e, w') \<Rightarrow> (Err (IdentityQueryFailed e), w'))"

definition require_active :: "'w os \<Rightarrow> nat \<Rightarrow> ('w, service_identity_error, unit) effect" where
  "require_active os process =
     bind_io (identity_failure (os_exit_code os process)) (\<lambda>exit_code.
     if exit_code \<noteq> STILL_ACTIVE then fail ServiceRestarting else ret ())"

text \<open>The process behind the pipe, its owner, and its image: the three parts of the query.\<close>

definition open_server :: "'w os \<Rightarrow> ('w, service_identity_error, u32 \<times> nat) effect" where
  "open_server os =
     bind_io (identity_failure (os_debug_privilege os)) (\<lambda>_.
     bind_io (identity_failure (os_server_pid os)) (\<lambda>process_id.
     if process_id = 0 then fail ServiceStarting else
     bind_io (identity_failure (os_open_process os process_id)) (\<lambda>handle.
     case handle of
       None \<Rightarrow> fail (IdentityQueryFailed ''Windows returned an invalid process handle'')
     | Some process \<Rightarrow> bind_io (require_active os process) (\<lambda>_. ret (process_id, process)))))"

definition check_owner :: "'w os \<Rightarrow> string option \<Rightarrow> nat \<Rightarrow> ('w, service_identity_error, string) effect" where
  "check_owner os same_account_executable process =
     bind_io (identity_failure (os_token_user os process)) (\<lambda>(local_system, sid).
     let observed_account = (case sid of Some s \<Rightarrow> s | None \<Rightarrow> ''unknown'') in
     bind_io (if same_account_executable = None then ret False
              else bind_io (identity_failure (os_current_user os)) (\<lambda>user. ret (observed_account = user))) (\<lambda>same_account.
     if \<not> local_system \<and> \<not> same_account then fail (UnexpectedIdentity observed_account) else ret observed_account))"

definition check_image :: "'w os \<Rightarrow> string \<Rightarrow> string option \<Rightarrow> nat \<Rightarrow> ('w, service_identity_error, string) effect" where
  "check_image os name same_account_executable process =
     bind_io (identity_failure (os_image_path os process)) (\<lambda>image_path.
     bind_io (case same_account_executable of
                Some declared \<Rightarrow> ret declared
              | None \<Rightarrow> identity_failure (query_service_binary_path os name)) (\<lambda>expected_path.
     bind_io (identity_failure (canonicalize_without_reparse os image_path)) (\<lambda>image_path_canonical.
     bind_io (identity_failure (canonicalize_without_reparse os expected_path)) (\<lambda>expected_path_canonical.
     if \<not> paths_equal_case_insensitive image_path_canonical expected_path_canonical
     then fail (UnexpectedExecutable image_path) else ret image_path))))"

definition native_query_with_profile ::
  "'w os \<Rightarrow> string \<Rightarrow> string option \<Rightarrow> ('w, service_identity_error, server_identity) effect" where
  "native_query_with_profile os name same_account_executable =
     bind_io (open_server os) (\<lambda>(process_id, process).
     bind_io (check_owner os same_account_executable process) (\<lambda>observed_account.
     bind_io (check_image os name same_account_executable process) (\<lambda>image_path.
     bind_io (require_active os process) (\<lambda>_.
     ret \<lparr>sr_process_id = process_id, sr_account_sid = observed_account, sr_image_path = image_path\<rparr>))))"

definition native_query :: "'w os \<Rightarrow> string \<Rightarrow> ('w, service_identity_error, server_identity) effect" where
  "native_query os name = native_query_with_profile os name None"

section \<open>What an accepted server is\<close>

lemma identity_failure_Ok [simp]: "identity_failure m w = (Ok x, w') \<longleftrightarrow> m w = (Ok x, w')"
  by (auto simp: identity_failure_def split: prod.splits result.splits)

lemma lift_result_Ok [simp]: "lift_result r w = (Ok x, w') \<longleftrightarrow> r = Ok x \<and> w' = w"
  by (auto simp: lift_result_def)

lemma require_active_Ok: "require_active os process w = (Ok u, w') \<longleftrightarrow> os_exit_code os process w = (Ok STILL_ACTIVE, w')"
  by (auto simp: require_active_def bind_io_eq_Ok split: if_splits)

lemma guarded_Ok: "(if c then fail e else m) w = (Ok x, w') \<longleftrightarrow> \<not> c \<and> m w = (Ok x, w')"
  by simp

lemma open_server_Ok:
  assumes "open_server os w = (Ok (pid, process), w')"
  shows "\<exists>w1 w2 w3. os_server_pid os w1 = (Ok pid, w2) \<and> pid \<noteq> 0
    \<and> os_open_process os pid w2 = (Ok (Some process), w3) \<and> os_exit_code os process w3 = (Ok STILL_ACTIVE, w')"
  using assms
  by (auto simp: open_server_def bind_io_eq_Ok require_active_Ok split: if_splits option.splits) blast

lemma check_owner_Ok:
  assumes "check_owner os None process w = (Ok account, w')"
  shows "\<exists>sid. os_token_user os process w = (Ok (True, sid), w')"
  using assms by (auto simp: check_owner_def bind_io_eq_Ok Let_def split: if_splits)

lemma check_image_Ok:
  assumes "check_image os name None process w = (Ok image_path, w')"
  shows "\<exists>w1 w2 w3 w4 command_line executable registered image expected.
      os_image_path os process w = (Ok image_path, w1)
    \<and> os_service_command_line os name w1 = (Ok command_line, w2)
    \<and> pipe_executable_from_command_line command_line = Ok executable
    \<and> canonicalize_without_reparse os executable w2 = (Ok registered, w3)
    \<and> canonicalize_without_reparse os image_path w3 = (Ok image, w4)
    \<and> canonicalize_without_reparse os registered w4 = (Ok expected, w')
    \<and> ascii_lower image = ascii_lower expected"
  using assms
  by (auto simp: check_image_def query_service_binary_path_def paths_equal_case_insensitive_def bind_io_eq_Ok
      split: if_splits)

text \<open>
  C32: Only the registered service is accepted: when the query succeeds, the process that serves the
  pipe runs as LocalSystem, was active at first and is active last, nothing is done after that last
  look, the reported image is the answer for the handle of that same process, and the final path of
  this image is, but for case, that of the executable in the command line that is registered under
  the service's name; each question is asked where the one before it left the world.
\<close>

theorem accepted_server_is_registered:
  assumes "native_query os name w = (Ok identity, w')"
  shows "\<exists>process w1 w2 w3 w4 w5.
      (\<exists>w0. os_server_pid os w0 = (Ok (sr_process_id identity), w1)) \<and> sr_process_id identity \<noteq> 0
    \<and> os_open_process os (sr_process_id identity) w1 = (Ok (Some process), w2)
    \<and> os_exit_code os process w2 = (Ok STILL_ACTIVE, w3)
    \<and> (\<exists>sid. os_token_user os process w3 = (Ok (True, sid), w4))
    \<and> (\<exists>v1 v2 v3 v4 command_line executable registered image expected.
          os_image_path os process w4 = (Ok (sr_image_path identity), v1)
        \<and> os_service_command_line os name v1 = (Ok command_line, v2)
        \<and> pipe_executable_from_command_line command_line = Ok executable
        \<and> canonicalize_without_reparse os executable v2 = (Ok registered, v3)
        \<and> canonicalize_without_reparse os (sr_image_path identity) v3 = (Ok image, v4)
        \<and> canonicalize_without_reparse os registered v4 = (Ok expected, w5)
        \<and> ascii_lower image = ascii_lower expected)
    \<and> os_exit_code os process w5 = (Ok STILL_ACTIVE, w')"
proof -
  from assms obtain pid process w3 account w4 image_path w5 where
    server: "open_server os w = (Ok (pid, process), w3)"
    and owner: "check_owner os None process w3 = (Ok account, w4)"
    and image: "check_image os name None process w4 = (Ok image_path, w5)"
    and active: "os_exit_code os process w5 = (Ok STILL_ACTIVE, w')"
    and identity: "identity = \<lparr>sr_process_id = pid, sr_account_sid = account, sr_image_path = image_path\<rparr>"
    by (auto simp: native_query_def native_query_with_profile_def bind_io_eq_Ok require_active_Ok)
  show ?thesis
    using open_server_Ok [OF server] check_owner_Ok [OF owner] check_image_Ok [OF image] active
    unfolding identity server_identity.simps by blast
qed

section \<open>Example\<close>

definition demo_os :: "nat os" where
  "demo_os =
     \<lparr>os_debug_privilege = ret (), os_server_pid = ret 7, os_open_process = (\<lambda>_. ret (Some 1)),
      os_exit_code = (\<lambda>_. ret STILL_ACTIVE), os_token_user = (\<lambda>_. ret (True, Some ''S-1-5-18'')),
      os_current_user = ret ''admin'', os_image_path = (\<lambda>h. if h = 1 then ret ''svc.exe'' else fail ''no such process''),
      os_service_command_line = (\<lambda>_. ret ''SVC.exe --service-name x''), os_components = (\<lambda>p. [p]),
      os_is_reparse = (\<lambda>_. ret False), os_final_path = ret\<rparr>"

lemma accepted_server_is_registered_witness:
  "fst (native_query demo_os ''x'' 0) = Ok \<lparr>sr_process_id = 7, sr_account_sid = ''S-1-5-18'', sr_image_path = ''svc.exe''\<rparr>
   \<and> (\<exists>process w1 w2 w4 v1 v2 command_line. os_open_process demo_os 7 w1 = (Ok (Some process), w2)
        \<and> os_image_path demo_os process w4 = (Ok ''svc.exe'', v1)
        \<and> os_service_command_line demo_os ''x'' v1 = (Ok command_line, v2)
        \<and> pipe_executable_from_command_line command_line = Ok ''SVC.exe'')"
proof -
  have parsed: "pipe_executable_from_command_line ''SVC.exe --service-name x'' = Ok ''SVC.exe''"
    by (simp add: twins_agree unquoted_round_trip [where blanks = "[]" and path = "''SVC.exe''"
          and rest = "'' --service-name x''", simplified] ws1_def byte_def quote_char_def)
  moreover have "ascii_lower ''svc.exe'' = ascii_lower ''SVC.exe''"
    by code_simp
  ultimately have query: "native_query demo_os ''x'' 0 = (Ok \<lparr>sr_process_id = 7, sr_account_sid = ''S-1-5-18'', sr_image_path = ''svc.exe''\<rparr>, 0)"
    by (simp add: native_query_def native_query_with_profile_def open_server_def check_owner_def check_image_def
        query_service_binary_path_def canonicalize_without_reparse_def validate_path_components_def require_active_def
        identity_failure_def bind_io_def lift_result_def paths_equal_case_insensitive_def demo_os_def)
  from accepted_server_is_registered [OF this]
  obtain process w1 w2 w4 v1 v2 command_line where
    "os_open_process demo_os 7 w1 = (Ok (Some process), w2)" "os_image_path demo_os process w4 = (Ok ''svc.exe'', v1)"
    and command_line: "os_service_command_line demo_os ''x'' v1 = (Ok command_line, v2)"
    by auto
  moreover have "pipe_executable_from_command_line command_line = Ok ''SVC.exe''"
    using command_line parsed by (simp add: demo_os_def)
  ultimately have "\<exists>process w1 w2 w4 v1 v2 command_line. os_open_process demo_os 7 w1 = (Ok (Some process), w2)
      \<and> os_image_path demo_os process w4 = (Ok ''svc.exe'', v1)
      \<and> os_service_command_line demo_os ''x'' v1 = (Ok command_line, v2)
      \<and> pipe_executable_from_command_line command_line = Ok ''SVC.exe''"
    using command_line by blast
  then show ?thesis
    using query by simp
qed

end
