(* ===== verification/PathPolicy.thy ===== *)
theory PathPolicy
  imports Identity "HOL-Library.Sublist"
begin

text \<open>
  \<open>spotter-hardware-service/src/path_policy.rs\<close>: the decisions on protected paths, over the
  facts that the Windows shell around them gathers.
\<close>

section \<open>Facts\<close>

datatype path_owner = Administrators | LocalSystem | TrustedInstaller | OtherOwner

datatype principal = AdministratorsPrincipal | SystemPrincipal | OtherPrincipal

record ace_fact =
  af_principal :: principal
  af_grants_write :: bool
  af_allow :: bool

datatype path_purpose =
  StagingRoot | ConfigFile | Collector | ServiceExecutable | Key | OutputDirectory | PowerShellHost

datatype object_kind = FileObject | DirectoryObject

record path_facts =
  pf_final_path :: string
  pf_reparse_tag :: u32
  pf_ancestor_reparse :: bool
  pf_owner :: path_owner
  pf_aces :: "ace_fact list"
  pf_ancestor_aces :: "ace_fact list"
  pf_object_kind :: object_kind
  pf_exists :: bool

datatype policy_error =
    MissingPath | ReparseTag u32 | AncestorReparse | OutsideStagingRoot | InvalidOwner | UnexpectedWriteAce
  | StandardUserWritableAncestor | ExpectedDirectory | ExpectedFile | PowerShellHostNotAllowlisted

text \<open>The text of an error; the reparse tag is shown in hexadecimal.\<close>

definition lower_hex_digit :: "nat \<Rightarrow> char" where
  "lower_hex_digit n = (if n < 10 then char_of (48 + n) else char_of (87 + n))"

fun hex_nat :: "nat \<Rightarrow> string" where
  "hex_nat n = (if n < 16 then [lower_hex_digit n] else hex_nat (n div 16) @ [lower_hex_digit (n mod 16)])"

declare hex_nat.simps [simp del]

definition policy_error_text :: "policy_error \<Rightarrow> string" where
  "policy_error_text e =
     (case e of
        MissingPath \<Rightarrow> ''path does not exist''
      | ReparseTag tag \<Rightarrow> ''path contains reparse tag 0x'' @ hex_nat (unat tag)
      | AncestorReparse \<Rightarrow> ''path has a reparse-point ancestor''
      | OutsideStagingRoot \<Rightarrow> ''path is outside the protected staging root''
      | InvalidOwner \<Rightarrow> ''path owner is not allowlisted''
      | UnexpectedWriteAce \<Rightarrow> ''path grants write access to an unallowlisted principal''
      | StandardUserWritableAncestor \<Rightarrow> ''path has a standard-user-writable ancestor''
      | ExpectedDirectory \<Rightarrow> ''path is not a directory''
      | ExpectedFile \<Rightarrow> ''path is not a file''
      | PowerShellHostNotAllowlisted \<Rightarrow> ''PowerShell host is not in an allowlisted system layout'')"

section \<open>Components\<close>

definition slash :: char where
  "slash = CHR ''/''"

definition replace_slash :: "char \<Rightarrow> char" where
  "replace_slash c = (if c = slash then backslash else c)"

text \<open>\<open>split\<close> at a character.\<close>

fun split_at :: "char \<Rightarrow> string \<Rightarrow> string list" where
  "split_at c [] = [[]]"
| "split_at c (a # s) =
     (if a = c then [] # split_at c s
      else (case split_at c s of [] \<Rightarrow> [[a]] | p # ps \<Rightarrow> (a # p) # ps))"

definition verbatim_prefix :: string where
  "verbatim_prefix = [backslash, backslash, CHR ''?'', backslash]"

definition device_prefix :: string where
  "device_prefix = [backslash, backslash, CHR ''.'', backslash]"

definition strip_verbatim :: "string \<Rightarrow> string" where
  "strip_verbatim path =
     (case strip_prefix verbatim_prefix path of
        Some stripped \<Rightarrow> stripped
      | None \<Rightarrow> (case strip_prefix device_prefix path of Some stripped \<Rightarrow> stripped | None \<Rightarrow> path))"

fun collect_components :: "string list \<Rightarrow> string list \<Rightarrow> string list option" where
  "collect_components components [] = Some components"
| "collect_components components (c # cs) =
     (if c = [] then collect_components components cs
      else if c = ''.'' \<or> c = ''..'' then None
      else collect_components (components @ [ascii_lower c]) cs)"

definition path_components :: "string \<Rightarrow> string list option" where
  "path_components text =
     (let path = strip_verbatim (List.map replace_slash text) in
      if path = [] then None
      else
        (let drive = length path \<ge> 2 \<and> path ! 1 = CHR '':'';
             components = (if drive then [ascii_lower (take 2 path)] else []);
             remainder = (if drive then drop 2 path else path)
         in (case collect_components components (split_at backslash remainder) of
               None \<Rightarrow> None
             | Some all \<Rightarrow> if all = [] then None else Some all)))"

section \<open>Decisions\<close>

definition is_below_staging_root :: "string \<Rightarrow> string \<Rightarrow> bool" where
  "is_below_staging_root root candidate =
     (case path_components root of
        None \<Rightarrow> False
      | Some r \<Rightarrow>
          (case path_components candidate of
             None \<Rightarrow> False
           | Some c \<Rightarrow> length c > length r \<and> take (length r) c = r))"

definition is_contained_path :: "string \<Rightarrow> string \<Rightarrow> bool" where
  "is_contained_path root candidate =
     (case path_components root of
        None \<Rightarrow> False
      | Some r \<Rightarrow>
          (case path_components candidate of
             None \<Rightarrow> False
           | Some c \<Rightarrow> length c \<ge> length r \<and> take (length r) c = r))"

definition is_output_file_path :: "string \<Rightarrow> string \<Rightarrow> bool" where
  "is_output_file_path output_directory candidate =
     (case path_components output_directory of
        None \<Rightarrow> False
      | Some r \<Rightarrow>
          (case path_components candidate of
             None \<Rightarrow> False
           | Some c \<Rightarrow> length c = length r + 1 \<and> take (length r) c = r))"

definition is_allowlisted_powershell_layout :: "string \<Rightarrow> bool" where
  "is_allowlisted_powershell_layout path =
     (case path_components path of
        None \<Rightarrow> False
      | Some components \<Rightarrow>
          if length components < 4 then False
          else components ! 1 = ''program files'' \<and> components ! 2 \<in> {''powershell'', ''powershell-core''}
            \<and> last components = ''pwsh.exe'')"

definition grants_unallowlisted_write :: "ace_fact \<Rightarrow> bool" where
  "grants_unallowlisted_write ace \<longleftrightarrow>
     af_allow ace \<and> af_grants_write ace \<and> af_principal ace \<notin> {AdministratorsPrincipal, SystemPrincipal}"

definition has_standard_user_writable_ancestor :: "ace_fact list \<Rightarrow> bool" where
  "has_standard_user_writable_ancestor ancestor_aces \<longleftrightarrow> list_ex grants_unallowlisted_write ancestor_aces"

definition is_owner_allowed :: "path_owner \<Rightarrow> path_purpose \<Rightarrow> bool" where
  "is_owner_allowed owner purpose =
     (if purpose = PowerShellHost then owner \<in> {Administrators, LocalSystem, TrustedInstaller}
      else owner \<in> {Administrators, LocalSystem})"

definition validate_path :: "string \<Rightarrow> path_facts \<Rightarrow> path_purpose \<Rightarrow> (unit, policy_error) result" where
  "validate_path root facts purpose =
     (if \<not> pf_exists facts then Err MissingPath
      else if pf_reparse_tag facts \<noteq> 0 then Err (ReparseTag (pf_reparse_tag facts))
      else if pf_ancestor_reparse facts then Err AncestorReparse
      else if has_standard_user_writable_ancestor (pf_ancestor_aces facts) then Err StandardUserWritableAncestor
      else if purpose = PowerShellHost \<and> \<not> is_allowlisted_powershell_layout (pf_final_path facts)
        then Err PowerShellHostNotAllowlisted
      else if purpose \<noteq> PowerShellHost \<and> \<not> is_contained_path root (pf_final_path facts) then Err OutsideStagingRoot
      else if \<not> is_owner_allowed (pf_owner facts) purpose then Err InvalidOwner
      else if purpose \<noteq> PowerShellHost
        \<and> list_ex (\<lambda>ace. af_allow ace \<and> af_grants_write ace
             \<and> af_principal ace \<notin> {AdministratorsPrincipal, SystemPrincipal}) (pf_aces facts)
        then Err UnexpectedWriteAce
      else (case purpose of
              StagingRoot \<Rightarrow> if pf_object_kind facts \<noteq> DirectoryObject then Err ExpectedDirectory else Ok ()
            | OutputDirectory \<Rightarrow> if pf_object_kind facts \<noteq> DirectoryObject then Err ExpectedDirectory else Ok ()
            | _ \<Rightarrow> if pf_object_kind facts \<noteq> FileObject then Err ExpectedFile else Ok ()))"

section \<open>Containment is prefix of components\<close>

lemma take_prefix: "length c \<ge> length r \<and> take (length r) c = r \<longleftrightarrow> prefix r c"
  by (auto simp: prefix_def) (metis append_take_drop_id)

lemma take_strict_prefix: "length c > length r \<and> take (length r) c = r \<longleftrightarrow> strict_prefix r c"
  unfolding strict_prefix_def using take_prefix [of r c] by (auto simp: prefix_def)

lemma contained_iff:
  "is_contained_path root candidate \<longleftrightarrow>
     (\<exists>r c. path_components root = Some r \<and> path_components candidate = Some c \<and> prefix r c)"
  by (auto simp: is_contained_path_def take_prefix split: option.splits)

lemma below_iff:
  "is_below_staging_root root candidate \<longleftrightarrow>
     (\<exists>r c. path_components root = Some r \<and> path_components candidate = Some c \<and> strict_prefix r c)"
  by (auto simp: is_below_staging_root_def take_strict_prefix split: option.splits)

text \<open>No component of a path is empty, relative, or holds a separator.\<close>

lemma collect_append:
  "collect_components acc cs = Some all \<Longrightarrow> \<exists>more. all = acc @ more \<and>
     more = List.map ascii_lower (filter (\<lambda>c. c \<noteq> []) cs) \<and> ''.'' \<notin> set cs \<and> ''..'' \<notin> set cs"
  by (induction acc cs arbitrary: all rule: collect_components.induct) (auto split: if_splits)

lemma collect_iff:
  "collect_components acc cs =
     (if ''.'' \<in> set cs \<or> ''..'' \<in> set cs then None else Some (acc @ List.map ascii_lower (filter (\<lambda>c. c \<noteq> []) cs)))"
  by (induction acc cs rule: collect_components.induct) auto

lemma split_at_pieces: "p \<in> set (split_at c s) \<Longrightarrow> c \<notin> set p \<and> set p \<subseteq> set s"
proof (induction c s arbitrary: p rule: split_at.induct)
  case (2 c a s)
  then show ?case
    by (fastforce split: if_splits list.splits)
qed simp

lemma lower_keeps:
  assumes "\<not> (65 \<le> byte d \<and> byte d \<le> 90)" "\<not> (97 \<le> byte d \<and> byte d \<le> 122)"
  shows "ascii_lower_char c = d \<longleftrightarrow> c = d"
proof
  assume d: "ascii_lower_char c = d"
  show "c = d"
  proof (rule ccontr)
    assume "c \<noteq> d"
    then have "65 \<le> byte c \<and> byte c \<le> 90" "d = char_of (byte c + 32)"
      using d by (auto simp: ascii_lower_char_def split: if_splits)
    then have "byte d = byte c + 32"
      by (simp add: byte_def)
    then show False
      using assms \<open>65 \<le> byte c \<and> byte c \<le> 90\<close> by simp
  qed
qed (use assms in \<open>auto simp: ascii_lower_char_def\<close>)

lemma lower_special [simp]:
  "ascii_lower_char c = slash \<longleftrightarrow> c = slash" "ascii_lower_char c = backslash \<longleftrightarrow> c = backslash"
  "ascii_lower_char c = CHR ''.'' \<longleftrightarrow> c = CHR ''.''" "ascii_lower_char c = CHR '':'' \<longleftrightarrow> c = CHR '':''"
  "ascii_lower_char c = CHR ''?'' \<longleftrightarrow> c = CHR ''?''"
  by (rule lower_keeps; simp add: slash_def backslash_def byte_def)+

lemma lower_idem [simp]: "ascii_lower_char (ascii_lower_char c) = ascii_lower_char c"
  by (auto simp: ascii_lower_char_def byte_def)

lemma ascii_lower_simps [simp]:
  "ascii_lower [] = []" "ascii_lower (c # s) = ascii_lower_char c # ascii_lower s"
  "ascii_lower s = [] \<longleftrightarrow> s = []" "length (ascii_lower s) = length s"
  "ascii_lower (ascii_lower s) = ascii_lower s"
  by (simp_all add: ascii_lower_def)

lemma lower_dots [simp]: "ascii_lower c = ''.'' \<longleftrightarrow> c = ''.''" "ascii_lower c = ''..'' \<longleftrightarrow> c = ''..''"
  by (auto simp: ascii_lower_def map_eq_Cons_conv)

lemma lower_separator [simp]: "backslash \<in> set (ascii_lower s) \<longleftrightarrow> backslash \<in> set s"
    "slash \<in> set (ascii_lower s) \<longleftrightarrow> slash \<in> set s"
  by (force simp: ascii_lower_def image_iff eq_commute [of _ "ascii_lower_char _"])+

lemma lower_replace: "ascii_lower_char (replace_slash c) = replace_slash (ascii_lower_char c)"
  by (simp add: replace_slash_def)

lemma strip_prefix_lower:
  "(\<And>c d. d \<in> set p \<Longrightarrow> ascii_lower_char c = d \<longleftrightarrow> c = d) \<Longrightarrow>
   strip_prefix p (ascii_lower s) = map_option ascii_lower (strip_prefix p s)"
proof (induction p arbitrary: s)
  case Nil
  then show ?case
    by (simp add: strip_prefix_def)
next
  case (Cons d p)
  have p: "strip_prefix p (ascii_lower s) = map_option ascii_lower (strip_prefix p s)" for s
    using Cons.prems by (intro Cons.IH) simp
  show ?case
  proof (cases s)
    case (Cons c t)
    then show ?thesis
      using p [of t] Cons.prems [of d c] by (auto simp: strip_prefix_def starts_with_def split: if_splits)
  qed (simp add: strip_prefix_def starts_with_def)
qed

lemma strip_verbatim_lower: "strip_verbatim (ascii_lower s) = ascii_lower (strip_verbatim s)"
proof -
  have "strip_prefix verbatim_prefix (ascii_lower s) = map_option ascii_lower (strip_prefix verbatim_prefix s)"
    "strip_prefix device_prefix (ascii_lower s) = map_option ascii_lower (strip_prefix device_prefix s)"
    by (rule strip_prefix_lower; auto simp: verbatim_prefix_def device_prefix_def)+
  then show ?thesis
    by (auto simp: strip_verbatim_def split: option.split)
qed

lemma split_at_lower: "split_at backslash (ascii_lower s) = List.map ascii_lower (split_at backslash s)"
  by (induction backslash s rule: split_at.induct) (auto split: list.split)

lemma path_components_lower: "path_components (ascii_lower s) = path_components s"
proof -
  let ?p = "strip_verbatim (List.map replace_slash s)"
  have p: "strip_verbatim (List.map replace_slash (ascii_lower s)) = ascii_lower ?p"
    unfolding strip_verbatim_lower [symmetric] by (simp add: ascii_lower_def lower_replace comp_def)
  have "length ?p \<ge> 2 \<Longrightarrow> ascii_lower ?p ! 1 = CHR '':'' \<longleftrightarrow> ?p ! 1 = CHR '':''"
    by (simp add: ascii_lower_def)
  moreover have "collect_components acc (List.map ascii_lower cs) = collect_components acc cs" for acc cs
    by (induction acc cs rule: collect_components.induct) auto
  moreover have "take 2 (ascii_lower ?p) = ascii_lower (take 2 ?p)" "drop 2 (ascii_lower ?p) = ascii_lower (drop 2 ?p)"
    by (simp_all add: ascii_lower_def take_map drop_map)
  ultimately show ?thesis
    unfolding path_components_def Let_def p by (auto simp: split_at_lower)
qed

lemma path_components_slash: "path_components (List.map replace_slash s) = path_components s"
proof -
  have "replace_slash (replace_slash c) = replace_slash c" for c
    by (simp add: replace_slash_def slash_def backslash_def)
  then have "List.map replace_slash (List.map replace_slash s) = List.map replace_slash s"
    by simp
  then show ?thesis
    by (simp only: path_components_def)
qed

section \<open>The shape of the components\<close>

lemma split_at_inside:
  "backslash \<notin> set c \<Longrightarrow> split_at backslash (c @ backslash # s) = c # split_at backslash s"
  "backslash \<notin> set c \<Longrightarrow> split_at backslash c = [c]"
  by (induction c) auto

text \<open>What a validated object is, without the order of the checks.\<close>

definition expected_kind :: "path_purpose \<Rightarrow> object_kind" where
  "expected_kind purpose = (if purpose \<in> {StagingRoot, OutputDirectory} then DirectoryObject else FileObject)"

lemma validate_path_Ok:
  "validate_path root facts purpose = Ok () \<longleftrightarrow>
     pf_exists facts \<and> pf_reparse_tag facts = 0 \<and> \<not> pf_ancestor_reparse facts
     \<and> filter grants_unallowlisted_write (pf_ancestor_aces facts) = []
     \<and> is_owner_allowed (pf_owner facts) purpose \<and> pf_object_kind facts = expected_kind purpose
     \<and> (if purpose = PowerShellHost then is_allowlisted_powershell_layout (pf_final_path facts)
        else is_contained_path root (pf_final_path facts) \<and> filter grants_unallowlisted_write (pf_aces facts) = [])"
proof -
  have guard: "(if c then Err e else r) = Ok x \<longleftrightarrow> \<not> c \<and> r = Ok x" for c r and e :: policy_error and x :: unit
    by simp
  have kinds: "(case purpose of
          StagingRoot \<Rightarrow> if pf_object_kind facts \<noteq> DirectoryObject then Err ExpectedDirectory else Ok ()
        | OutputDirectory \<Rightarrow> if pf_object_kind facts \<noteq> DirectoryObject then Err ExpectedDirectory else Ok ()
        | _ \<Rightarrow> if pf_object_kind facts \<noteq> FileObject then Err ExpectedFile else Ok ()) = Ok ()
      \<longleftrightarrow> pf_object_kind facts = expected_kind purpose"
    by (cases purpose) (simp_all add: expected_kind_def)
  have aces: "list_ex (\<lambda>ace. af_allow ace \<and> af_grants_write ace
             \<and> af_principal ace \<notin> {AdministratorsPrincipal, SystemPrincipal}) xs
      \<longleftrightarrow> filter grants_unallowlisted_write xs \<noteq> []" for xs
    by (auto simp: list_ex_iff filter_empty_conv grants_unallowlisted_write_def)
  have ancestors: "has_standard_user_writable_ancestor xs \<longleftrightarrow> filter grants_unallowlisted_write xs \<noteq> []" for xs
    by (auto simp: has_standard_user_writable_ancestor_def list_ex_iff filter_empty_conv)
  show ?thesis
    unfolding validate_path_def guard kinds aces ancestors by auto
qed

text \<open>
  A path is accepted exactly when every fact allows it, whatever the order of the checks: it
  exists, is reached over no reparse point and no ancestor that another principal may write, has an
  allowed owner and the kind of its purpose, and, unless it is the PowerShell host, may be written by
  no other principal and lies at or below the root component by component, in any case and with either
  separator; dot components never count as contained.
\<close>

theorem protected_path_exact:
  "(validate_path root facts purpose = Ok () \<longleftrightarrow>
     pf_exists facts \<and> pf_reparse_tag facts = 0 \<and> \<not> pf_ancestor_reparse facts
     \<and> filter grants_unallowlisted_write (pf_ancestor_aces facts) = []
     \<and> is_owner_allowed (pf_owner facts) purpose \<and> pf_object_kind facts = expected_kind purpose
     \<and> (if purpose = PowerShellHost then is_allowlisted_powershell_layout (pf_final_path facts)
        else (\<exists>r c. path_components root = Some r \<and> path_components (pf_final_path facts) = Some c \<and> prefix r c)
          \<and> filter grants_unallowlisted_write (pf_aces facts) = []))
   \<and> path_components (ascii_lower text) = path_components text
   \<and> path_components (List.map replace_slash text) = path_components text"
  unfolding validate_path_Ok contained_iff path_components_lower path_components_slash by simp

text \<open>
  The layout of the PowerShell host looks at the components after the first: the first may be any
  volume, the name of another computer included.
\<close>

theorem powershell_layout_on_any_share:
  assumes "share \<noteq> []" "slash \<notin> set share" "backslash \<notin> set share" "share \<noteq> ''.''" "share \<noteq> ''..''" "share \<noteq> ''?''"
  shows "is_allowlisted_powershell_layout
    ([backslash, backslash] @ share @ [backslash] @ ''Program Files'' @ [backslash] @ ''PowerShell'' @ [backslash]
     @ ''7'' @ [backslash] @ ''pwsh.exe'')"
proof -
  let ?rest = "''Program Files'' @ [backslash] @ ''PowerShell'' @ [backslash] @ ''7'' @ [backslash] @ ''pwsh.exe''"
  let ?path = "[backslash, backslash] @ share @ [backslash] @ ?rest"
  have "List.map replace_slash share = share"
    using assms(2) by (intro map_idI) (auto simp: replace_slash_def)
  then have replaced: "List.map replace_slash ?path = ?path"
    by (simp add: replace_slash_def slash_def backslash_def)
  have "strip_verbatim ?path = ?path"
    using assms(1,3,4,6) by (cases share; cases "tl share")
      (auto simp: strip_verbatim_def strip_prefix_def starts_with_def verbatim_prefix_def device_prefix_def)
  moreover have "?path ! 1 \<noteq> CHR '':''"
    by (simp add: backslash_def)
  moreover have "split_at backslash ?path =
      [[], [], share, ''Program Files'', ''PowerShell'', ''7'', ''pwsh.exe'']"
    using split_at_inside [OF assms(3)] by (simp add: split_at_inside) (simp add: backslash_def)
  moreover have lower_letters: "ascii_lower_char (CHR ''P'') = CHR ''p''" "ascii_lower_char (CHR ''F'') = CHR ''f''"
    "ascii_lower_char (CHR ''S'') = CHR ''s''"
    by code_simp+
  ultimately have "path_components ?path =
      Some [ascii_lower share, ''program files'', ''powershell'', ''7'', ''pwsh.exe'']"
    unfolding path_components_def replaced Let_def
    using assms(1,4,5) by (simp add: collect_iff lower_letters) (simp add: ascii_lower_char_def byte_def)
  then show ?thesis
    by (simp add: is_allowlisted_powershell_layout_def)
qed

end
