(* ===== verification/Discovery.thy ===== *)
theory Discovery
  imports Monitors
begin

text \<open>
  \<open>spotter-svc/src/discovery.rs\<close>: the conversion of the WMI rows of monitors; the query itself is
  a parameter.  \<open>String::from_utf16_lossy\<close> is the standard library's, written out.
\<close>

section \<open>UTF-16 to UTF-8\<close>

definition replacement :: nat where
  "replacement = 0xFFFD"

fun decode_utf16_lossy :: "u16 list \<Rightarrow> nat list" where
  "decode_utf16_lossy [] = []"
| "decode_utf16_lossy (u # us) =
     (if unat u < 0xD800 \<or> 0xDFFF < unat u then unat u # decode_utf16_lossy us
      else if 0xDC00 \<le> unat u then replacement # decode_utf16_lossy us
      else (case us of
              [] \<Rightarrow> [replacement]
            | v # vs \<Rightarrow>
                if 0xDC00 \<le> unat v \<and> unat v \<le> 0xDFFF
                then (0x10000 + (unat u - 0xD800) * 0x400 + (unat v - 0xDC00)) # decode_utf16_lossy vs
                else replacement # decode_utf16_lossy us))"

definition utf8_encode :: "nat \<Rightarrow> string" where
  "utf8_encode n =
     List.map char_of
       (if n < 0x80 then [n]
        else if n < 0x800 then [0xC0 + n div 0x40, 0x80 + n mod 0x40]
        else if n < 0x10000 then [0xE0 + n div 0x1000, 0x80 + n div 0x40 mod 0x40, 0x80 + n mod 0x40]
        else [0xF0 + n div 0x40000, 0x80 + n div 0x1000 mod 0x40, 0x80 + n div 0x40 mod 0x40, 0x80 + n mod 0x40])"

definition from_utf16_lossy :: "u16 list \<Rightarrow> string" where
  "from_utf16_lossy us = concat (List.map utf8_encode (decode_utf16_lossy us))"

section \<open>Monitors\<close>

record wmi_monitor_id =
  wm_active :: bool
  wm_manufacturer_name :: "u16 list"
  wm_product_code_id :: "u16 list"
  wm_serial_number_id :: "u16 list"
  wm_week :: u8
  wm_year :: u16

definition decode_wmi_string :: "u16 list \<Rightarrow> string" where
  "decode_wmi_string units = trim (from_utf16_lossy (takeWhile (\<lambda>unit. unit \<noteq> 0) units))"

definition convert_monitor :: "wmi_monitor_id \<Rightarrow> monitor_info option" where
  "convert_monitor row =
     (if \<not> wm_active row then None
      else (let serial = decode_wmi_string (wm_serial_number_id row) in
            if serial = [] then None
            else Some \<lparr>manufacturer_code = decode_wmi_string (wm_manufacturer_name row),
                       product_code = decode_wmi_string (wm_product_code_id row), mi_serial = serial,
                       manufacture_week = wm_week row, manufacture_year = wm_year row\<rparr>))"

definition read_monitors :: "(wmi_monitor_id list, string) result \<Rightarrow> (monitor_info list, string) result" where
  "read_monitors rows =
     (case rows of
        Err e \<Rightarrow> Err (''failed to query WmiMonitorID: '' @ e)
      | Ok rs \<Rightarrow> Ok (List.map_filter convert_monitor rs))"

section \<open>What is discovered\<close>

lemma decode_trimmed [simp]: "trim (decode_wmi_string units) = decode_wmi_string units"
  by (simp add: decode_wmi_string_def)

lemma convert_monitor_eq:
  "convert_monitor row = Some m \<longleftrightarrow>
     wm_active row \<and> decode_wmi_string (wm_serial_number_id row) \<noteq> []
     \<and> m = \<lparr>manufacturer_code = decode_wmi_string (wm_manufacturer_name row),
            product_code = decode_wmi_string (wm_product_code_id row),
            mi_serial = decode_wmi_string (wm_serial_number_id row),
            manufacture_week = wm_week row, manufacture_year = wm_year row\<rparr>"
  by (auto simp: convert_monitor_def Let_def)

lemma monitors_named:
  "m \<in> set (List.map_filter convert_monitor rows) \<Longrightarrow> mi_serial m \<noteq> [] \<and> trim (mi_serial m) = mi_serial m"
proof -
  assume "m \<in> set (List.map_filter convert_monitor rows)"
  then obtain row where "convert_monitor row = Some m"
    by (auto simp: List.map_filter_def)
  then show ?thesis
    by (auto simp: convert_monitor_eq)
qed

text \<open>A text of ASCII characters, padded with zeros as WMI does, is read as it is.\<close>

definition utf16_ascii :: "string \<Rightarrow> u16 list" where
  "utf16_ascii s = List.map (\<lambda>c. of_nat (byte c)) s"

lemma unat_ascii: "byte c < 0x80 \<Longrightarrow> unat (of_nat (byte c) :: u16) = byte c"
  by (simp add: unat_of_nat_small)

lemma from_utf16_ascii:
  "\<forall>c\<in>set s. byte c < 0x80 \<Longrightarrow> from_utf16_lossy (utf16_ascii s) = s"
proof (induction s)
  case (Cons c s)
  then have "unat (of_nat (byte c) :: u16) = byte c" "utf8_encode (byte c) = [c]"
    using unat_ascii [of c] by (simp_all add: utf8_encode_def byte_def)
  with Cons show ?case
    by (simp add: from_utf16_lossy_def utf16_ascii_def)
qed (simp add: from_utf16_lossy_def utf16_ascii_def)

lemma takeWhile_padded:
  "\<forall>c\<in>set s. byte c \<noteq> 0 \<and> byte c < 0x80 \<Longrightarrow>
   takeWhile (\<lambda>unit. unit \<noteq> 0) (utf16_ascii s @ replicate n 0) = utf16_ascii s"
proof (induction s)
  case Nil
  show ?case
    by (cases n) (simp_all add: utf16_ascii_def)
next
  case (Cons c s)
  then have "(of_nat (byte c) :: u16) \<noteq> 0"
    using unat_ascii [of c] by (metis list.set_intros(1) unat_0)
  with Cons show ?case
    by (simp add: utf16_ascii_def)
qed

text \<open>
  A padded ASCII serial is read exactly, and every monitor that discovery answers is named: its
  serial is neither empty nor surrounded by white space, as the state and the planner key on it.
\<close>

theorem discovered_monitors_are_named:
  assumes "\<forall>c\<in>set s. byte c \<noteq> 0 \<and> byte c < 0x80"
  shows "decode_wmi_string (utf16_ascii s @ replicate n 0) = trim s
    \<and> (case read_monitors rows of
         Ok ms \<Rightarrow> list_all (\<lambda>m. mi_serial m \<noteq> [] \<and> trim (mi_serial m) = mi_serial m) ms
       | Err _ \<Rightarrow> \<not> is_ok rows)"
proof -
  have "decode_wmi_string (utf16_ascii s @ replicate n 0) = trim s"
    using assms by (simp add: decode_wmi_string_def takeWhile_padded from_utf16_ascii)
  then show ?thesis
    using monitors_named by (auto simp: read_monitors_def list_all_iff split: result.split)
qed

lemma discovered_monitors_are_named_witness:
  "decode_wmi_string (utf16_ascii ''ABC '' @ replicate 12 0) = trim ''ABC ''"
  using discovered_monitors_are_named [of "''ABC ''" 12 "Err []"] by (simp add: byte_def)

end
