(* ===== verification/Logging.thy ===== *)
theory Logging
  imports Effects Lifecycle "HOL-Library.Product_Lexorder"
begin

text \<open>
  \<open>spotter-svc/src/logging.rs\<close>: the set-up of the service's log and the retention of its files.  The
  installation of the subscriber is that of the tracing packages, a port.
\<close>

definition SERVICE_LOG_PREFIX :: string where
  "SERVICE_LOG_PREFIX = ''spotter-svc.log''"

text \<open>
  An entry of the log directory that could be read: its name, by which the paths of one directory
  compare, and its modification time if that can be read.
\<close>

record log_entry =
  le_name :: string
  le_modified :: "nat option"

definition dated_logs :: "log_entry list \<Rightarrow> (nat \<times> string) list" where
  "dated_logs listing =
     sort (List.map_filter (\<lambda>e. map_option (\<lambda>t. (t, le_name e)) (le_modified e))
       (filter (\<lambda>e. starts_with SERVICE_LOG_PREFIX (le_name e)) listing))"

text \<open>\<open>prune_logs\<close>, with the removal of a file as a port.\<close>

definition prune_logs ::
  "(log_entry list, string) result \<Rightarrow> u32 \<Rightarrow> (string \<Rightarrow> ('w, string, unit) effect) \<Rightarrow> ('w, string, unit) effect" where
  "prune_logs listing retained remove =
     (if retained = 0 then fail ''logging.max_files must be nonzero''
      else (case listing of
              Err e \<Rightarrow> fail e
            | Ok es \<Rightarrow>
                (let logs = dated_logs es; surplus = length logs - unat retained in
                 each_io (\<lambda>(_, path). remove path) (take surplus logs))))"

text \<open>
  \<open>initialize\<close>: the directory, the retention, the filter and the subscriber, whose installation
  (of the appender, its guard and the layers) is the tracing packages'.
\<close>

record 'w log_ports =
  lp_create_dir :: "string \<Rightarrow> ('w, string, unit) effect"
  lp_listing :: "string \<Rightarrow> 'w \<Rightarrow> (log_entry list, string) result"
  lp_remove :: "string \<Rightarrow> ('w, string, unit) effect"
  lp_filter :: "string \<Rightarrow> (unit, string) result"
  lp_install :: "string \<Rightarrow> ('w, string, unit) effect"

definition initialize :: "'w log_ports \<Rightarrow> string \<Rightarrow> logging_settings \<Rightarrow> ('w, unit) io" where
  "initialize ports log_dir s =
     bind_io (in_context (''failed to create log directory '' @ log_dir) (lp_create_dir ports log_dir)) (\<lambda>_.
     bind_io (\<lambda>w. explained Message (prune_logs (lp_listing ports log_dir w) (max_files s) (lp_remove ports)) w) (\<lambda>_.
     bind_io (in_context (''invalid logging level '' @ log_level s) (\<lambda>w. (lp_filter ports (log_level s), w))) (\<lambda>_.
     in_context ''failed to initialize service logging'' (lp_install ports log_dir))))"

definition removals :: "log_entry list \<Rightarrow> u32 \<Rightarrow> string list" where
  "removals listing retained = snd (snd (prune_logs (Ok listing) retained (\<lambda>p (w :: unit, gone). (Ok (), (w, gone @ [p]))) ((), [])))"

lemma each_removes:
  "each_io (\<lambda>(_, path). (\<lambda>(w :: unit, gone). (Ok (), (w, gone @ [path])))) logs ((), gone)
     = (Ok (), ((), gone @ List.map snd logs))"
  by (induction logs arbitrary: gone) (auto simp: bind_io_def)

lemma removals_eq:
  "retained \<noteq> 0 \<Longrightarrow> removals listing retained = List.map snd (take (length (dated_logs listing) - unat retained) (dated_logs listing))"
  using arg_cong [where f = "\<lambda>r. snd (snd r)", OF each_removes
      [of "take (length (dated_logs listing) - unat retained) (dated_logs listing)" "[]"]]
  by (simp add: removals_def prune_logs_def Let_def case_prod_beta')

lemma removals_none: "removals listing 0 = []"
  by (simp add: removals_def prune_logs_def fail_def)

lemma dated_logs_sorted: "sorted (dated_logs listing)"
  by (simp add: dated_logs_def)

lemma sort_split: "sorted xs \<Longrightarrow> x \<in> set (take n xs) \<Longrightarrow> y \<in> set (drop n xs) \<Longrightarrow> x \<le> y"
  by (metis append_take_drop_id sorted_append)

lemma dated_logs_named:
  "(t, name) \<in> set (dated_logs listing) \<longleftrightarrow>
     starts_with SERVICE_LOG_PREFIX name \<and> (\<exists>e\<in>set listing. le_name e = name \<and> le_modified e = Some t)"
  by (force simp: dated_logs_def List.map_filter_def)

text \<open>
  Retention removes old service logs and nothing else: with a nonzero limit, what is removed are
  the oldest of the dated files whose names begin as the service's logs do, each no newer than any
  that is kept, and as many are kept as the limit allows; with the limit zero nothing is removed.
\<close>

theorem pruning_keeps_the_newest:
  "\<exists>kept. dated_logs listing = take (length (dated_logs listing) - length kept) (dated_logs listing) @ kept
     \<and> (if retained = 0 then removals listing retained = []
        else removals listing retained = List.map snd (take (length (dated_logs listing) - length kept) (dated_logs listing))
          \<and> length kept = min (unat retained) (length (dated_logs listing)))
     \<and> sorted (dated_logs listing)
     \<and> ((t, name) \<in> set (dated_logs listing) \<longleftrightarrow>
          starts_with SERVICE_LOG_PREFIX name \<and> (\<exists>e\<in>set listing. le_name e = name \<and> le_modified e = Some t))"
proof (cases "retained = 0")
  case True
  then show ?thesis
    by (intro exI [of _ "dated_logs listing"]) (simp add: removals_none dated_logs_named dated_logs_sorted)
next
  case False
  let ?logs = "dated_logs listing"
  show ?thesis
    using False removals_eq [OF False, of listing]
    by (intro exI [of _ "drop (length ?logs - unat retained) ?logs"])
      (auto simp: dated_logs_named min_def dated_logs_sorted)
qed

end
