(* ===== verification/Handles.thy ===== *)
theory Handles
  imports Contracts "HOL-Library.Multiset"
begin

text \<open>
  Resources of the operating system that the program owns: handles, which are closed, and memory that
  Windows allocates, which is freed.  The ledger records what is owned now, and whether anything was
  ever used or released that was not owned at the time.  Windows itself is a port on its own world.
\<close>

datatype resource = Handle nat | Memory nat

record ledger =
  lg_owned :: "resource multiset"
  lg_misused :: bool

definition empty_ledger :: ledger where
  "empty_ledger = \<lparr>lg_owned = {#}, lg_misused = False\<rparr>"

text \<open>An invalid handle and a null pointer are not resources.\<close>

definition is_resource :: "resource \<Rightarrow> bool" where
  "is_resource r \<longleftrightarrow> (case r of Handle h \<Rightarrow> h \<noteq> 0 | Memory a \<Rightarrow> a \<noteq> 0)"

definition gain :: "resource \<Rightarrow> ledger \<Rightarrow> ledger" where
  "gain r l = (if is_resource r then l\<lparr>lg_owned := add_mset r (lg_owned l)\<rparr> else l)"

definition drop_resource :: "resource \<Rightarrow> ledger \<Rightarrow> ledger" where
  "drop_resource r l =
     (if \<not> is_resource r then l
      else l\<lparr>lg_owned := lg_owned l - {#r#}, lg_misused := lg_misused l \<or> r \<notin># lg_owned l\<rparr>)"

definition touch :: "resource \<Rightarrow> ledger \<Rightarrow> ledger" where
  "touch r l = l\<lparr>lg_misused := lg_misused l \<or> (is_resource r \<and> r \<notin># lg_owned l)\<rparr>"

section \<open>Effects\<close>

type_synonym ('w, 'e, 'a) owning = "('w \<times> ledger, 'e, 'a) effect"

text \<open>A call that owns nothing, one that uses a resource, and one that answers a new one.\<close>

definition plain :: "('w, 'e, 'a) effect \<Rightarrow> ('w, 'e, 'a) owning" where
  "plain m = (\<lambda>(w, l). case m w of (r, w') \<Rightarrow> (r, (w', l)))"

definition using_it :: "resource \<Rightarrow> ('w, 'e, 'a) effect \<Rightarrow> ('w, 'e, 'a) owning" where
  "using_it r m = (\<lambda>(w, l). case m w of (x, w') \<Rightarrow> (x, (w', touch r l)))"

definition acquire :: "('a \<Rightarrow> resource) \<Rightarrow> ('w, 'e, 'a) effect \<Rightarrow> ('w, 'e, 'a) owning" where
  "acquire f m = (\<lambda>(w, l). case m w of (Ok x, w') \<Rightarrow> (Ok x, (w', gain (f x) l)) | (Err e, w') \<Rightarrow> (Err e, (w', l)))"

text \<open>Releasing cannot fail, as far as the program looks.\<close>

definition release :: "(resource \<Rightarrow> 'w \<Rightarrow> 'w) \<Rightarrow> resource \<Rightarrow> 'w \<times> ledger \<Rightarrow> 'w \<times> ledger" where
  "release close r = (\<lambda>(w, l). if is_resource r then (close r w, drop_resource r l) else (w, l))"

text \<open>A scope that owns a resource releases it at its end, however it ends.\<close>

definition scoped :: "(resource \<Rightarrow> 'w \<Rightarrow> 'w) \<Rightarrow> resource \<Rightarrow> ('w, 'e, 'a) owning \<Rightarrow> ('w, 'e, 'a) owning" where
  "scoped close r m = (\<lambda>s. case m s of (x, s') \<Rightarrow> (x, release close r s'))"

text \<open>A list of handles that is released when a step fails.\<close>

definition closing :: "(resource \<Rightarrow> 'w \<Rightarrow> 'w) \<Rightarrow> resource list \<Rightarrow> ('w, 'e, 'a) owning \<Rightarrow> ('w, 'e, 'a) owning" where
  "closing close rs m = (\<lambda>s. case m s of (Ok x, s') \<Rightarrow> (Ok x, s') | (Err e, s') \<Rightarrow> (Err e, fold (release close) rs s'))"

definition close_all :: "(resource \<Rightarrow> 'w \<Rightarrow> 'w) \<Rightarrow> resource list \<Rightarrow> ('w, 'e, unit) owning" where
  "close_all close rs = (\<lambda>s. (Ok (), fold (release close) rs s))"

section \<open>Ownership\<close>

text \<open>What is owned besides some \<open>frame\<close> that the operation does not touch, with nothing misused.\<close>

definition owns :: "resource multiset \<Rightarrow> resource multiset \<Rightarrow> 'w \<times> ledger \<Rightarrow> bool" where
  "owns frame rs s \<longleftrightarrow> lg_owned (snd s) = frame + rs \<and> \<not> lg_misused (snd s)"

definition owned :: "resource \<Rightarrow> resource multiset" where
  "owned r = (if is_resource r then {#r#} else {#})"

definition owned_list :: "resource list \<Rightarrow> resource multiset" where
  "owned_list rs = sum_list (List.map owned rs)"

lemma owned_list_simps [simp]:
  "owned_list [] = {#}" "owned_list (r # rs) = owned r + owned_list rs"
  "owned_list (rs @ rs') = owned_list rs + owned_list rs'"
  by (simp_all add: owned_list_def)

text \<open>An operation over owned resources: what it owns on success, and on failure.\<close>

definition manages ::
  "resource multiset \<Rightarrow> ('w, 'e, 'a) owning \<Rightarrow> ('a \<Rightarrow> resource multiset) \<Rightarrow> resource multiset \<Rightarrow> bool" where
  "manages rs m Q E \<longleftrightarrow> (\<forall>frame. contract (owns frame rs) m (\<lambda>x. owns frame (Q x)) (\<lambda>_. owns frame E))"

named_theorems managing

lemma managesI:
  "(\<And>frame s x s'. owns frame rs s \<Longrightarrow> m s = (Ok x, s') \<Longrightarrow> owns frame (Q x) s') \<Longrightarrow>
   (\<And>frame s e s'. owns frame rs s \<Longrightarrow> m s = (Err e, s') \<Longrightarrow> owns frame E s') \<Longrightarrow> manages rs m Q E"
  unfolding manages_def contract_def by blast

lemma managesD:
  "manages rs m Q E \<Longrightarrow> owns frame rs s \<Longrightarrow> m s = (Ok x, s') \<Longrightarrow> owns frame (Q x) s'"
  "manages rs m Q E \<Longrightarrow> owns frame rs s \<Longrightarrow> m s = (Err e, s') \<Longrightarrow> owns frame E s'"
  unfolding manages_def contract_def by blast+

lemma manages_bind: "manages rs m Q E \<Longrightarrow> (\<And>x. manages (Q x) (f x) R E) \<Longrightarrow> manages rs (bind_io m f) R E"
  unfolding manages_def by (blast intro: contract_bind)

lemma manages_plain: "manages rs (plain m) (\<lambda>_. rs) rs"
  by (auto intro!: managesI simp: plain_def owns_def split: prod.splits)

lemma manages_ret: "manages (Q x) (ret x) Q E"
  by (auto intro!: managesI simp: owns_def)

lemma manages_fail: "manages E (fail e) Q E"
  by (auto intro!: managesI simp: owns_def)

lemma touch_owned: "owned r \<subseteq># lg_owned l \<Longrightarrow> touch r l = l"
  by (cases l) (auto simp: touch_def owned_def)

lemma manages_using: "owned r \<subseteq># rs \<Longrightarrow> manages rs (using_it r m) (\<lambda>_. rs) rs"
  by (rule managesI)
    (auto simp: using_it_def owns_def touch_owned subset_mset.add_increasing split: prod.splits)

lemma manages_acquire: "manages rs (acquire f m) (\<lambda>x. owned (f x) + rs) rs"
  by (rule managesI)
    (auto simp: acquire_def owns_def gain_def owned_def split: prod.splits result.splits)

lemma release_owned: "owns frame (owned r + rs) s \<Longrightarrow> owns frame rs (release close r s)"
  by (auto simp: release_def owns_def drop_resource_def owned_def split: prod.splits)

lemma releases_owned: "owns frame (owned_list hs + rs) s \<Longrightarrow> owns frame rs (fold (release close) hs s)"
proof (induction hs arbitrary: s)
  case (Cons h hs)
  then have "owns frame (owned_list hs + rs) (release close h s)"
    using release_owned [of frame h "owned_list hs + rs"] by (simp add: ac_simps)
  then show ?case
    using Cons.IH by simp
qed simp

lemma manages_scoped:
  assumes "manages rs m (\<lambda>x. owned r + Q x) (owned r + E)"
  shows "manages rs (scoped close r m) Q E"
proof (rule managesI)
  fix frame s x s' assume s: "owns frame rs s" "scoped close r m s = (Ok x, s')"
  then obtain s1 where "m s = (Ok x, s1)" "s' = release close r s1"
    by (cases "m s") (auto simp: scoped_def)
  then show "owns frame (Q x) s'"
    using managesD(1) [OF assms s(1)] by (blast intro: release_owned)
next
  fix frame s e s' assume s: "owns frame rs s" "scoped close r m s = (Err e, s')"
  then obtain s1 where "m s = (Err e, s1)" "s' = release close r s1"
    by (cases "m s") (auto simp: scoped_def)
  then show "owns frame E s'"
    using managesD(2) [OF assms s(1)] by (blast intro: release_owned)
qed

lemma manages_closing:
  assumes "manages rs m Q (owned_list hs + E)"
  shows "manages rs (closing close hs m) Q E"
proof (rule managesI)
  fix frame s x s' assume s: "owns frame rs s" "closing close hs m s = (Ok x, s')"
  then have "m s = (Ok x, s')"
    by (cases "m s"; cases "fst (m s)") (auto simp: closing_def)
  then show "owns frame (Q x) s'"
    using managesD(1) [OF assms s(1)] by blast
next
  fix frame s e s' assume s: "owns frame rs s" "closing close hs m s = (Err e, s')"
  then obtain s1 where "m s = (Err e, s1)" "s' = fold (release close) hs s1"
    by (cases "m s"; cases "fst (m s)") (auto simp: closing_def)
  then show "owns frame E s'"
    using managesD(2) [OF assms s(1)] by (blast intro: releases_owned)
qed

lemma manages_close_all: "manages (owned_list hs + rs) (close_all close hs) (\<lambda>_. rs) E"
  by (rule managesI) (metis Pair_inject close_all_def releases_owned, simp add: close_all_def)

lemma manages_if: "(c \<Longrightarrow> manages rs m Q E) \<Longrightarrow> (\<not> c \<Longrightarrow> manages rs n Q E) \<Longrightarrow> manages rs (if c then m else n) Q E"
  by simp

lemma manages_option:
  "(x = None \<Longrightarrow> manages rs m Q E) \<Longrightarrow> (\<And>y. x = Some y \<Longrightarrow> manages rs (f y) Q E) \<Longrightarrow>
   manages rs (case x of None \<Rightarrow> m | Some y \<Rightarrow> f y) Q E"
  by (cases x) auto

lemma manages_pair: "(\<And>a b. p = (a, b) \<Longrightarrow> manages rs (f a b) Q E) \<Longrightarrow> manages rs (case p of (a, b) \<Rightarrow> f a b) Q E"
  by (cases p) auto

lemma manages_weaken: "manages rs m Q E \<Longrightarrow> (\<And>x. Q x = Q' x) \<Longrightarrow> E = E' \<Longrightarrow> manages rs m Q' E'"
  by (simp add: manages_def contract_def)

subsection \<open>Operations that own nothing at their end\<close>

definition steady :: "resource multiset \<Rightarrow> ('w, 'e, 'a) owning \<Rightarrow> bool" where
  "steady rs m \<longleftrightarrow> manages rs m (\<lambda>_. rs) rs"

named_theorems steadying

lemma steadyD: "steady rs m \<Longrightarrow> owns frame rs s \<Longrightarrow> m s = (r, s') \<Longrightarrow> owns frame rs s'"
  unfolding steady_def by (cases r) (auto dest: managesD)

lemma steady_basic [steadying]:
  "steady rs (ret x)" "steady rs (fail e)" "steady rs (plain p)"
  by (simp_all add: steady_def manages_fail manages_plain manages_ret [where Q = "\<lambda>_. rs"])

lemma steady_using [steadying]: "owned r \<subseteq># rs \<Longrightarrow> steady rs (using_it r m)"
  by (simp add: steady_def manages_using)

lemma steady_bind [steadying]: "steady rs m \<Longrightarrow> (\<And>x. steady rs (f x)) \<Longrightarrow> steady rs (bind_io m f)"
  unfolding steady_def by (rule manages_bind)

lemma steady_if [steadying]: "(c \<Longrightarrow> steady rs m) \<Longrightarrow> (\<not> c \<Longrightarrow> steady rs n) \<Longrightarrow> steady rs (if c then m else n)"
  by simp

lemma steady_option [steadying]:
  "(x = None \<Longrightarrow> steady rs m) \<Longrightarrow> (\<And>y. x = Some y \<Longrightarrow> steady rs (f y)) \<Longrightarrow> steady rs (case x of None \<Rightarrow> m | Some y \<Rightarrow> f y)"
  by (cases x) auto

lemma steady_pair [steadying]: "(\<And>a b. p = (a, b) \<Longrightarrow> steady rs (f a b)) \<Longrightarrow> steady rs (case p of (a, b) \<Rightarrow> f a b)"
  by (cases p) auto

text \<open>A resource that is acquired for a scope.\<close>

lemma steady_scope:
  assumes "\<And>x. steady (owned (f x) + rs) (g x)"
  shows "steady rs (bind_io (acquire f m) (\<lambda>x. scoped close (f x) (g x)))"
  using assms unfolding steady_def by (blast intro: manages_bind manages_acquire manages_scoped)

text \<open>A step under a list of handles that is closed when the step fails.\<close>

lemma manages_step:
  assumes "steady rs m" "\<And>x. manages rs (f x) Q {#}" "owned_list hs = rs"
  shows "manages rs (bind_io (closing close hs m) f) Q {#}"
  using assms unfolding steady_def by (intro manages_bind [OF manages_closing]) auto

lemma manages_give_up: "owned_list hs = rs \<Longrightarrow> manages rs (bind_io (close_all close hs) (\<lambda>_. fail e)) Q {#}"
  using manages_close_all [of hs "{#}"] by (auto intro!: manages_bind manages_fail)

text \<open>From an empty ledger: what is owned at the end, and nothing was misused.\<close>

lemma manages_start:
  assumes "manages {#} m Q E" "m (w, empty_ledger) = (r, (w', l))"
  shows "lg_owned l = (case r of Ok x \<Rightarrow> Q x | Err _ \<Rightarrow> E) \<and> \<not> lg_misused l"
proof -
  have start: "owns {#} {#} (w, empty_ledger)"
    by (simp add: owns_def empty_ledger_def)
  show ?thesis
    using managesD [OF assms(1) start] assms(2) by (cases r) (auto simp: owns_def)
qed

section \<open>What is kept of the world\<close>

text \<open>A condition on the world alone; the calls keep it that keep it as ports, and so does releasing.\<close>

definition on_world :: "('w \<Rightarrow> bool) \<Rightarrow> 'w \<times> ledger \<Rightarrow> bool" where
  "on_world P s \<longleftrightarrow> P (fst s)"

definition closes_keep :: "(resource \<Rightarrow> 'w \<Rightarrow> 'w) \<Rightarrow> ('w \<Rightarrow> bool) \<Rightarrow> bool" where
  "closes_keep close P \<longleftrightarrow> (\<forall>r w. P w \<longrightarrow> P (close r w))"

lemma world_using: "contract P m Q E \<Longrightarrow>
  contract (on_world P) (using_it r m) (\<lambda>x. on_world (Q x)) (\<lambda>e. on_world (E e))"
  by (auto simp: contract_def using_it_def on_world_def split: prod.splits)

lemma world_acquire: "contract P m Q E \<Longrightarrow>
  contract (on_world P) (acquire f m) (\<lambda>x. on_world (Q x)) (\<lambda>e. on_world (E e))"
  by (auto simp: contract_def acquire_def on_world_def split: prod.splits result.splits)

lemma world_release: "closes_keep close P \<Longrightarrow> on_world P s \<Longrightarrow> on_world P (release close r s)"
  by (auto simp: closes_keep_def on_world_def release_def split: prod.splits)

lemma world_releases: "closes_keep close P \<Longrightarrow> on_world P s \<Longrightarrow> on_world P (fold (release close) rs s)"
proof (induction rs arbitrary: s)
  case (Cons r rs)
  show ?case
    using Cons.IH [OF Cons.prems(1) world_release [OF Cons.prems]] by simp
qed simp

lemma world_closing:
  assumes "contract P m Q (\<lambda>_. on_world E)" "closes_keep close E"
  shows "contract P (closing close hs m) Q (\<lambda>_. on_world E)"
  using assms world_releases [OF assms(2)]
  by (simp add: contract_def closing_def split: prod.splits result.splits) (metis prod.collapse)

lemma world_close_all: "closes_keep close P \<Longrightarrow> contract (on_world P) (close_all close hs) (\<lambda>_. on_world P) E"
  unfolding contract_def close_all_def by (auto dest: world_releases)

lemma keeps_using [keeping]: "keeps P m \<Longrightarrow> keeps (on_world P) (using_it r m)"
  unfolding keeps_contract by (rule world_using)

lemma keeps_acquire [keeping]: "keeps P m \<Longrightarrow> keeps (on_world P) (acquire f m)"
  unfolding keeps_contract by (rule world_acquire)

lemma keeps_scoped [keeping]:
  assumes "closes_keep close P" "keeps (on_world P) m"
  shows "keeps (on_world P) (scoped close r m)"
  unfolding keeps_def
proof (intro allI impI)
  fix s assume "on_world P s"
  then have "on_world P (snd (m s))"
    using assms(2) unfolding keeps_def by blast
  then show "on_world P (snd (scoped close r m s))"
    using world_release [OF assms(1)] by (cases "m s") (simp add: scoped_def)
qed

end
