(* ===== verification/Platform.thy ===== *)
theory Platform
  imports Handles Identity
begin

text \<open>
  The bindings to Windows that own a resource for the length of a call: the instance mutex
  (\<open>spotter-win32/src/mutex.rs\<close>), the elevation of the process token (\<open>elevation.rs\<close>), the Data
  Protection API (\<open>dpapi.rs\<close>), the ACL of the data directory (\<open>spotter-svc/src/windows_acl.rs\<close>) and
  the security attributes of the pipe (\<open>pipe.rs\<close>).  Each call into Windows is a port, and what it
  answers is arbitrary.
\<close>

section \<open>Ports\<close>

text \<open>The output of the Data Protection API: a pointer, a length, and the bytes found there.\<close>

record output_blob =
  bl_pointer :: nat
  bl_length :: u32
  bl_bytes :: "u8 list"

record 'w windows =
  wn_close :: "resource \<Rightarrow> 'w \<Rightarrow> 'w"
  wn_create_mutex :: "string \<Rightarrow> ('w, string, nat \<times> bool) effect"
  wn_release_mutex :: "nat \<Rightarrow> 'w \<Rightarrow> 'w"
  wn_open_token :: "('w, string, nat) effect"
  wn_token_elevation :: "nat \<Rightarrow> ('w, string, u32 \<times> u32) effect"
  wn_protect :: "string \<Rightarrow> u8 list \<Rightarrow> u32 \<Rightarrow> 'w \<Rightarrow> ((unit, string) result \<times> output_blob) \<times> 'w"
  wn_unprotect :: "u8 list \<Rightarrow> u32 \<Rightarrow> 'w \<Rightarrow> ((unit, string) result \<times> output_blob) \<times> 'w"
  wn_wipe :: "nat \<Rightarrow> nat \<Rightarrow> 'w \<Rightarrow> 'w"
  wn_descriptor :: "string \<Rightarrow> ('w, string, nat) effect"
  wn_dacl :: "nat \<Rightarrow> ('w, string, bool \<times> nat) effect"
  wn_set_security :: "string \<Rightarrow> nat \<Rightarrow> ('w, u32, unit) effect"

definition message :: "string \<Rightarrow> ('s, 'a) io" where
  "message text = fail (Message text)"

section \<open>The instance mutex\<close>

definition try_acquire_named_mutex :: "'w windows \<Rightarrow> string \<Rightarrow> ('w, failure, nat) owning" where
  "try_acquire_named_mutex win name =
     (if name = [] \<or> CHR 0x00 \<in> set name then message ''mutex name must not be empty or contain NUL bytes''
      else
      bind_io (acquire (\<lambda>(handle, _). Handle handle) (in_context ''failed to create mutex'' (wn_create_mutex win name)))
        (\<lambda>(handle, already_exists).
           if already_exists
           then bind_io (close_all (wn_close win) [Handle handle]) (\<lambda>_. message ''SnipeSpotter is already running'')
           else ret handle))"

text \<open>The guard's drop.\<close>

definition drop_mutex_guard :: "'w windows \<Rightarrow> nat \<Rightarrow> 'w \<times> ledger \<Rightarrow> 'w \<times> ledger" where
  "drop_mutex_guard win handle =
     release (\<lambda>r w. wn_close win r (wn_release_mutex win handle w)) (Handle handle)"

section \<open>Elevation\<close>

definition is_elevated :: "'w windows \<Rightarrow> 'w \<times> ledger \<Rightarrow> bool \<times> ('w \<times> ledger)" where
  "is_elevated win s =
     (case acquire Handle (wn_open_token win) s of
        (Err _, s1) \<Rightarrow> (False, s1)
      | (Ok token, s1) \<Rightarrow>
          if token = 0 then (False, s1)
          else
            (case using_it (Handle token) (wn_token_elevation win token) s1 of
               (queried, s2) \<Rightarrow>
                 (case queried of Ok (returned_length, elevated) \<Rightarrow> 4 \<le> returned_length \<and> elevated \<noteq> 0 | Err _ \<Rightarrow> False,
                  release (wn_close win) (Handle token) s2)))"

section \<open>The Data Protection API\<close>

definition CRYPTPROTECT_UI_FORBIDDEN :: u32 where
  "CRYPTPROTECT_UI_FORBIDDEN = 1"

definition CRYPTPROTECT_LOCAL_MACHINE :: u32 where
  "CRYPTPROTECT_LOCAL_MACHINE = 4"

definition data_blob :: "u8 list \<Rightarrow> (unit, string) result" where
  "data_blob data = (if length data \<ge> 2 ^ 32 then Err ''DPAPI input is too large'' else Ok ())"

definition copy_output :: "output_blob \<Rightarrow> (u8 list, failure) result" where
  "copy_output output =
     (if bl_length output \<noteq> 0 \<and> bl_pointer output = 0 then Err (Message ''DPAPI returned a null output buffer'')
      else if bl_length output = 0 then Ok []
      else Ok (take (unat (bl_length output)) (bl_bytes output)))"

text \<open>The guard of the output: what was allocated is overwritten and then freed, however the call ends.\<close>

definition free_guard :: "'w windows \<Rightarrow> output_blob \<Rightarrow> resource \<Rightarrow> 'w \<Rightarrow> 'w" where
  "free_guard win output r w =
     wn_close win r (if bl_length output = 0 then w else wn_wipe win (bl_pointer output) (unat (bl_length output)) w)"

definition guarded_output ::
  "'w windows \<Rightarrow> string \<Rightarrow> ('w \<Rightarrow> ((unit, string) result \<times> output_blob) \<times> 'w) \<Rightarrow> ('w, failure, u8 list) owning" where
  "guarded_output win text call =
     bind_io (acquire (\<lambda>(_, output). Memory (bl_pointer output)) (\<lambda>w. case call w of (answer, w') \<Rightarrow> (Ok answer, w')))
       (\<lambda>(answer, output).
          scoped (free_guard win output) (Memory (bl_pointer output))
            (\<lambda>s. (case answer of Err e \<Rightarrow> Err (Context text (Message e)) | Ok _ \<Rightarrow> copy_output output, s)))"

definition prepared :: "string \<Rightarrow> u8 list \<Rightarrow> ('s, failure, unit) effect" where
  "prepared text data = (case data_blob data of Ok _ \<Rightarrow> ret () | Err e \<Rightarrow> fail (Context text (Message e)))"

definition dpapi_encrypt :: "'w windows \<Rightarrow> u8 list \<Rightarrow> ('w, failure, u8 list) owning" where
  "dpapi_encrypt win plaintext =
     bind_io (prepared ''failed to prepare DPAPI plaintext'' plaintext) (\<lambda>_.
       guarded_output win ''failed to encrypt data with DPAPI''
         (wn_protect win PRODUCT_NAME plaintext (or CRYPTPROTECT_UI_FORBIDDEN CRYPTPROTECT_LOCAL_MACHINE)))"

definition dpapi_decrypt :: "'w windows \<Rightarrow> u8 list \<Rightarrow> ('w, failure, u8 list) owning" where
  "dpapi_decrypt win ciphertext =
     bind_io (prepared ''failed to prepare DPAPI ciphertext'' ciphertext) (\<lambda>_.
       guarded_output win ''failed to decrypt data with DPAPI'' (wn_unprotect win ciphertext CRYPTPROTECT_UI_FORBIDDEN))"

section \<open>Access control lists\<close>

definition DATA_ACL_SDDL :: string where
  "DATA_ACL_SDDL = ''D:P(A;OICI;GA;;;SY)(A;OICI;GA;;;BA)''"

definition ADMIN_PIPE_SDDL :: string where
  "ADMIN_PIPE_SDDL = ''D:P(A;;GA;;;SY)(A;;GA;;;BA)''"

definition descriptor_from_sddl :: "'w windows \<Rightarrow> ('w, failure, nat) owning" where
  "descriptor_from_sddl win =
     bind_io (acquire Memory (in_context ''failed to create protected data security descriptor'' (wn_descriptor win DATA_ACL_SDDL)))
       (\<lambda>descriptor.
          if descriptor = 0 then message ''Windows returned an invalid protected data security descriptor''
          else ret descriptor)"

definition descriptor_dacl :: "'w windows \<Rightarrow> nat \<Rightarrow> ('w, failure, nat) owning" where
  "descriptor_dacl win descriptor =
     (if descriptor = 0 then message ''Windows returned an invalid security descriptor''
      else
      bind_io (using_it (Memory descriptor) (in_context ''failed to read security descriptor DACL'' (wn_dacl win descriptor)))
        (\<lambda>(present, dacl).
           if \<not> present \<or> dacl = 0 then message ''security descriptor does not contain a DACL'' else ret dacl))"

definition apply_acl_contract :: "'w windows \<Rightarrow> string \<Rightarrow> ('w, failure, unit) owning" where
  "apply_acl_contract win path =
     bind_io (descriptor_from_sddl win) (\<lambda>descriptor.
       scoped (wn_close win) (Memory descriptor)
         (bind_io (descriptor_dacl win descriptor) (\<lambda>dacl.
          using_it (Memory descriptor) (\<lambda>w.
            case wn_set_security win path dacl w of
              (Ok u, w') \<Rightarrow> (Ok u, w')
            | (Err code, w') \<Rightarrow>
                (Err (Message (''failed to apply protected data ACL: Win32 error '' @ dec code)), w')))))"

text \<open>The attributes own their descriptor until they are dropped.\<close>

definition create_admin_pipe_security_attributes :: "'w windows \<Rightarrow> ('w, failure, nat) owning" where
  "create_admin_pipe_security_attributes win =
     bind_io (acquire Memory (in_context ''failed to create named-pipe security descriptor'' (wn_descriptor win ADMIN_PIPE_SDDL)))
       (\<lambda>descriptor.
          if descriptor = 0 then message ''Windows returned a null named-pipe security descriptor'' else ret descriptor)"

definition drop_security_attributes :: "'w windows \<Rightarrow> nat \<Rightarrow> 'w \<times> ledger \<Rightarrow> 'w \<times> ledger" where
  "drop_security_attributes win descriptor = release (wn_close win) (Memory descriptor)"

section \<open>Ownership\<close>

lemma owned_null [simp]: "owned (Handle 0) = {#}" "owned (Memory 0) = {#}"
  by (simp_all add: owned_def is_resource_def)

lemma steady_message [steadying]: "steady rs (message text)"
  unfolding message_def by (rule steadying)

lemma manages_refuse: "manages E (message text) Q E"
  unfolding message_def by (rule manages_fail)

lemma manages_mutex: "manages {#} (try_acquire_named_mutex win name) (\<lambda>h. owned (Handle h)) {#}"
  unfolding try_acquire_named_mutex_def
proof (intro manages_if manages_refuse)
  have step: "manages (owned (Handle h)) (if running then bind_io (close_all (wn_close win) [Handle h]) (\<lambda>_. message why) else ret h)
      (\<lambda>h. owned (Handle h)) {#}" for h running why
    using manages_give_up [of "[Handle h]" "owned (Handle h)" "wn_close win" "Message why"]
    by (auto simp: message_def intro: manages_ret [where Q = "\<lambda>h. owned (Handle h)"])
  show "manages {#} (bind_io (acquire (\<lambda>(handle, _). Handle handle) (in_context ''failed to create mutex'' (wn_create_mutex win name)))
      (\<lambda>(h, running). if running then bind_io (close_all (wn_close win) [Handle h]) (\<lambda>_. message ''SnipeSpotter is already running'')
         else ret h)) (\<lambda>h. owned (Handle h)) {#}"
    by (rule manages_bind [OF manages_acquire]) (auto simp: step)
qed

lemma steady_answer: "steady rs (\<lambda>s. (r, s))"
  unfolding steady_def by (rule managesI) auto

lemma steady_guarded: "steady rs (guarded_output win text call)"
proof -
  have "steady rs (bind_io (acquire (\<lambda>(_, output). Memory (bl_pointer output)) (\<lambda>w. case call w of (answer, w') \<Rightarrow> (Ok answer, w')))
      (\<lambda>x. case x of (answer, output) \<Rightarrow> scoped (free_guard win output) (Memory (bl_pointer output))
            (\<lambda>s. (case answer of Err e \<Rightarrow> Err (Context text (Message e)) | Ok _ \<Rightarrow> copy_output output, s))))"
    unfolding steady_def
    by (rule manages_bind [OF manages_acquire])
      (auto simp: steady_answer [unfolded steady_def] intro!: manages_scoped)
  then show ?thesis
    by (simp add: guarded_output_def)
qed

lemma steady_prepared [steadying]: "steady rs (prepared text data)"
  by (auto simp: prepared_def steadying split: result.split)

lemma steady_dpapi: "steady rs (dpapi_encrypt win data)" "steady rs (dpapi_decrypt win data)"
  unfolding dpapi_encrypt_def dpapi_decrypt_def by (intro steadying steady_guarded)+

lemma manages_descriptor: "manages rs (descriptor_from_sddl win) (\<lambda>d. owned (Memory d) + rs) rs"
  unfolding descriptor_from_sddl_def
  by (rule manages_bind [OF manages_acquire])
    (auto intro!: manages_refuse manages_ret [where Q = "\<lambda>d. owned (Memory d) + rs"])

lemma steady_dacl: "owned (Memory d) \<subseteq># rs \<Longrightarrow> steady rs (descriptor_dacl win d)"
  unfolding descriptor_dacl_def by (intro steadying)

lemma steady_acl: "steady rs (apply_acl_contract win path)"
proof -
  have "steady (owned (Memory d) + rs) (bind_io (descriptor_dacl win d) (\<lambda>dacl. using_it (Memory d) (f dacl)))"
    for d and f :: "nat \<Rightarrow> ('a, failure, unit) effect"
    by (intro steadying steady_dacl) auto
  then show ?thesis
    unfolding apply_acl_contract_def steady_def
    by (intro manages_bind [OF manages_descriptor] manages_scoped)
qed

lemma manages_attributes: "manages rs (create_admin_pipe_security_attributes win) (\<lambda>d. owned (Memory d) + rs) rs"
  unfolding create_admin_pipe_security_attributes_def
  by (rule manages_bind [OF manages_acquire])
    (auto intro!: manages_refuse manages_ret [where Q = "\<lambda>d. owned (Memory d) + rs"])

lemma elevated_keeps: "owns frame rs s \<Longrightarrow> owns frame rs (snd (is_elevated win s))"
proof -
  assume s: "owns frame rs s"
  obtain r s1 where open_token: "acquire Handle (wn_open_token win) s = (r, s1)"
    by (metis prod.exhaust)
  show ?thesis
  proof (cases r)
    case (Err e)
    then show ?thesis
      using managesD(2) [OF manages_acquire s] open_token by (simp add: is_elevated_def)
  next
    case (Ok token)
    then have s1: "owns frame (owned (Handle token) + rs) s1"
      using managesD(1) [OF manages_acquire s] open_token by simp
    obtain q s2 where query: "using_it (Handle token) (wn_token_elevation win token) s1 = (q, s2)"
      by (metis prod.exhaust)
    have "owns frame (owned (Handle token) + rs) s2"
      by (rule steadyD [OF steady_using s1 query]) simp
    then show ?thesis
      using Ok open_token query s1 by (auto simp: is_elevated_def intro: release_owned)
  qed
qed

definition accounts :: "resource multiset \<Rightarrow> 'w \<times> ledger \<Rightarrow> bool" where
  "accounts rs s \<longleftrightarrow> lg_owned (snd s) = rs \<and> \<not> lg_misused (snd s)"

lemma accounts_owns: "accounts rs s \<longleftrightarrow> owns {#} rs s"
  by (simp add: accounts_def owns_def)

lemma accounts_start: "accounts {#} (w, empty_ledger)"
  by (simp add: accounts_def empty_ledger_def)

lemma accounts_manages:
  "manages {#} m Q E \<Longrightarrow> case m (w, empty_ledger) of (Ok x, s) \<Rightarrow> accounts (Q x) s | (Err _, s) \<Rightarrow> accounts E s"
proof -
  assume m: "manages {#} m Q E"
  obtain r s where run: "m (w, empty_ledger) = (r, s)"
    by (metis prod.exhaust)
  show ?thesis
    using managesD [OF m accounts_start [unfolded accounts_owns]] run
    by (cases r) (auto simp: accounts_owns)
qed

lemma accounts_steady: "steady {#} m \<Longrightarrow> accounts {#} (snd (m (w, empty_ledger)))"
proof -
  assume m: "steady {#} m"
  obtain r s where run: "m (w, empty_ledger) = (r, s)"
    by (metis prod.exhaust)
  show ?thesis
    using steadyD [OF m accounts_start [unfolded accounts_owns] run] run by (simp add: accounts_owns)
qed

lemma accounts_release: "accounts (owned r) s \<Longrightarrow> accounts {#} (release close r s)"
  unfolding accounts_owns using release_owned [of "{#}" r "{#}" s] by simp

lemma accounts_released:
  assumes "manages {#} m (\<lambda>x. owned (f x)) {#}"
  shows "case m (w, empty_ledger) of
      (Ok x, s) \<Rightarrow> accounts (owned (f x)) s \<and> accounts {#} (release (g x) (f x) s)
    | (Err _, s) \<Rightarrow> accounts {#} s"
proof -
  obtain r s where run: "m (w, empty_ledger) = (r, s)"
    by (metis prod.exhaust)
  show ?thesis
    using accounts_manages [OF assms, of w] run accounts_release [of _ s] by (cases r) simp_all
qed

text \<open>
  The bindings own nothing at their end but what they answer: whatever Windows answers, the token
  of an elevation query, the output of the Data Protection API and the descriptor of an ACL are
  released exactly once and not used after it; an acquired mutex and the descriptor of the pipe's
  security attributes are what is left, and dropping their owners releases them.
\<close>

theorem platform_releases_all:
  "accounts {#} (snd (is_elevated win (w, empty_ledger)))
   \<and> accounts {#} (snd (dpapi_encrypt win data (w, empty_ledger)))
   \<and> accounts {#} (snd (dpapi_decrypt win data (w, empty_ledger)))
   \<and> accounts {#} (snd (apply_acl_contract win path (w, empty_ledger)))
   \<and> (case try_acquire_named_mutex win name (w, empty_ledger) of
        (Ok h, s) \<Rightarrow> accounts (owned (Handle h)) s \<and> accounts {#} (drop_mutex_guard win h s)
      | (Err _, s) \<Rightarrow> accounts {#} s)
   \<and> (case create_admin_pipe_security_attributes win (w, empty_ledger) of
        (Ok d, s) \<Rightarrow> accounts (owned (Memory d)) s \<and> accounts {#} (drop_security_attributes win d s)
      | (Err _, s) \<Rightarrow> accounts {#} s)"
proof (intro conjI)
  show "accounts {#} (snd (is_elevated win (w, empty_ledger)))"
    using elevated_keeps [OF accounts_start [unfolded accounts_owns]] by (simp add: accounts_owns)
  show "case try_acquire_named_mutex win name (w, empty_ledger) of
        (Ok h, s) \<Rightarrow> accounts (owned (Handle h)) s \<and> accounts {#} (drop_mutex_guard win h s)
      | (Err _, s) \<Rightarrow> accounts {#} s"
    unfolding drop_mutex_guard_def by (rule accounts_released [OF manages_mutex])
  show "case create_admin_pipe_security_attributes win (w, empty_ledger) of
        (Ok d, s) \<Rightarrow> accounts (owned (Memory d)) s \<and> accounts {#} (drop_security_attributes win d s)
      | (Err _, s) \<Rightarrow> accounts {#} s"
    using accounts_released [OF manages_attributes [of "{#}", simplified]] unfolding drop_security_attributes_def .
qed (intro accounts_steady steady_dpapi steady_acl)+

section \<open>Secrets in memory\<close>

datatype memory_event = Wiped nat nat | Freed resource

definition lifted :: "('w \<Rightarrow> 'a \<times> 'w) \<Rightarrow> 'w \<times> memory_event list \<Rightarrow> 'a \<times> ('w \<times> memory_event list)" where
  "lifted m = (\<lambda>(w, t). case m w of (x, w') \<Rightarrow> (x, (w', t)))"

text \<open>The same ports over a world that also records what is overwritten and what is freed.\<close>

definition noted :: "'w windows \<Rightarrow> ('w \<times> memory_event list) windows" where
  "noted win =
     \<lparr>wn_close = (\<lambda>r (w, t). (wn_close win r w, t @ [Freed r])),
      wn_create_mutex = (\<lambda>n. lifted (wn_create_mutex win n)), wn_release_mutex = (\<lambda>h (w, t). (wn_release_mutex win h w, t)),
      wn_open_token = lifted (wn_open_token win), wn_token_elevation = (\<lambda>h. lifted (wn_token_elevation win h)),
      wn_protect = (\<lambda>d p f. lifted (wn_protect win d p f)), wn_unprotect = (\<lambda>c f. lifted (wn_unprotect win c f)),
      wn_wipe = (\<lambda>p n (w, t). (wn_wipe win p n w, t @ [Wiped p n])),
      wn_descriptor = (\<lambda>s. lifted (wn_descriptor win s)), wn_dacl = (\<lambda>d. lifted (wn_dacl win d)),
      wn_set_security = (\<lambda>p d. lifted (wn_set_security win p d))\<rparr>"

definition disposal :: "output_blob \<Rightarrow> memory_event list" where
  "disposal output =
     (if bl_pointer output = 0 then []
      else (if bl_length output = 0 then [] else [Wiped (bl_pointer output) (unat (bl_length output))])
        @ [Freed (Memory (bl_pointer output))])"

lemma guarded_disposal:
  "case guarded_output (noted win) why (lifted call) ((w, t), l) of
     (r, ((w', t'), l')) \<Rightarrow> t' = t @ disposal (snd (fst (call w)))"
  by (auto simp: guarded_output_def bind_io_def acquire_def lifted_def scoped_def release_def is_resource_def free_guard_def
      noted_def disposal_def split: prod.splits)

text \<open>
  What the Data Protection API allocates, a decrypted token among it, is overwritten to its whole
  length and then freed, once, whether or not the call succeeds; nothing else is overwritten or freed.
\<close>

theorem secrets_are_wiped:
  "(case dpapi_decrypt (noted win) data ((w, []), l) of
      (r, ((w', t), l')) \<Rightarrow>
        t = (if length data \<ge> 2 ^ 32 then [] else disposal (snd (fst (wn_unprotect win data CRYPTPROTECT_UI_FORBIDDEN w)))))
   \<and> (case dpapi_encrypt (noted win) data ((w, []), l) of
      (r, ((w', t), l')) \<Rightarrow>
        t = (if length data \<ge> 2 ^ 32 then []
             else disposal (snd (fst (wn_protect win PRODUCT_NAME data
                    (or CRYPTPROTECT_UI_FORBIDDEN CRYPTPROTECT_LOCAL_MACHINE) w)))))"
  using guarded_disposal [where win = win and call = "wn_unprotect win data CRYPTPROTECT_UI_FORBIDDEN" and w = w and t = "[]" and l = l]
    guarded_disposal [where win = win and call = "wn_protect win PRODUCT_NAME data (or CRYPTPROTECT_UI_FORBIDDEN CRYPTPROTECT_LOCAL_MACHINE)"
      and w = w and t = "[]" and l = l]
  by (auto simp: dpapi_decrypt_def dpapi_encrypt_def prepared_def data_blob_def bind_io_def noted_def split: prod.splits)

end
