(* ===== verification/PathInspect.thy ===== *)
theory PathInspect
  imports Handles PathPolicy Discovery
begin

unbundle bit_operations_syntax

text \<open>
  \<open>spotter-hardware-service/src/windows_path_policy.rs\<close>: the facts of a protected path, gathered
  component by component from handles that do not follow reparse points.  Windows and the path
  functions of the standard library are ports; the handles and the memory of security descriptors are
  kept in the ledger.
\<close>

section \<open>What Windows answers\<close>

text \<open>
  A SID as far as it is looked at: the two well-known ones, and the address of its text in memory that
  Windows allocates, with the text if it decodes.
\<close>

record sid =
  wk_administrators :: bool
  wk_local_system :: bool
  wk_text :: "(nat \<times> (string, string) result, string) result"

record raw_ace =
  ra_type :: u8
  ra_mask :: u32
  ra_sid :: "sid option"

record acl =
  ac_address :: nat
  ac_entries :: "(raw_ace option, string) result list"

record raw_security =
  rs_owner :: "sid option"
  rs_dacl :: "acl option"
  rs_descriptor :: nat

datatype path_component = PrefixPart string | RootPart string | NormalPart string | CurDirPart | ParentDirPart

record 'w path_os =
  po_components :: "string \<Rightarrow> path_component list"
  po_push :: "string \<Rightarrow> string \<Rightarrow> string"
  po_create_file :: "string \<Rightarrow> ('w, string, nat) effect"
  po_tag_info :: "nat \<Rightarrow> ('w, string, u32 \<times> u32) effect"
  po_final_path :: "nat \<Rightarrow> ('w, string, nat \<times> u16 list) effect"
  po_security_info :: "nat \<Rightarrow> ('w, string, raw_security) effect"
  po_descriptor_dacl :: "nat \<Rightarrow> ('w, string, bool \<times> acl option) effect"
  po_close :: "resource \<Rightarrow> 'w \<Rightarrow> 'w"

definition WRITE_MASK :: u32 where
  "WRITE_MASK = 0x0002 OR 0x0004 OR 0x0010 OR 0x0100 OR 0x10000 OR 0x20000 OR 0x40000 OR 0x80000"

definition REPARSE_TAG_NONE :: u32 where
  "REPARSE_TAG_NONE = 0"

definition MAX_FINAL_PATH :: nat where
  "MAX_FINAL_PATH = 32768"

definition FILE_ATTRIBUTE_DIRECTORY :: u32 where
  "FILE_ATTRIBUTE_DIRECTORY = 0x10"

definition TRUSTED_INSTALLER_SID :: string where
  "TRUSTED_INSTALLER_SID = ''S-1-5-80-956008885-3418522649-1831038044-185329263-2271478464''"

definition lift_text :: "('a, string) result \<Rightarrow> ('s, string, 'a) effect" where
  "lift_text r = (\<lambda>s. (r, s))"

definition prefixed :: "string \<Rightarrow> ('s, string, 'a) effect \<Rightarrow> ('s, string, 'a) effect" where
  "prefixed text m = (\<lambda>s. case m s of (Ok x, s') \<Rightarrow> (Ok x, s') | (Err e, s') \<Rightarrow> (Err (text @ e), s'))"

section \<open>The components of a path\<close>

fun component_loop :: "'w path_os \<Rightarrow> string \<Rightarrow> path_component list \<Rightarrow> string \<Rightarrow> string list \<Rightarrow> (string list, string) result" where
  "component_loop os path [] current paths = Ok paths"
| "component_loop os path (PrefixPart p # cs) current paths = component_loop os path cs (po_push os current p) paths"
| "component_loop os path (RootPart p # cs) current paths = component_loop os path cs (po_push os current p) paths"
| "component_loop os path (NormalPart n # cs) current paths =
     component_loop os path cs (po_push os current n) (paths @ [po_push os current n])"
| "component_loop os path (CurDirPart # cs) current paths = Err (''path contains navigation component: '' @ path)"
| "component_loop os path (ParentDirPart # cs) current paths = Err (''path contains navigation component: '' @ path)"

definition component_paths :: "'w path_os \<Rightarrow> string \<Rightarrow> (string list, string) result" where
  "component_paths os path =
     and_then (component_loop os path (po_components os path) [] []) (\<lambda>paths.
       if paths = [] then Err (''path has no openable components: '' @ path) else Ok paths)"

section \<open>One component\<close>

definition open_no_follow :: "'w path_os \<Rightarrow> string \<Rightarrow> ('w, string, nat) owning" where
  "open_no_follow os path =
     acquire Handle (prefixed ''failed to open protected path without following reparse points: '' (po_create_file os path))"

fun valid_utf16 :: "u16 list \<Rightarrow> bool" where
  "valid_utf16 [] = True"
| "valid_utf16 (u # us) =
     (if unat u < 0xD800 \<or> 0xDFFF < unat u then valid_utf16 us
      else if 0xDC00 \<le> unat u then False
      else (case us of [] \<Rightarrow> False | v # vs \<Rightarrow> 0xDC00 \<le> unat v \<and> unat v \<le> 0xDFFF \<and> valid_utf16 vs))"

definition final_path :: "'w path_os \<Rightarrow> nat \<Rightarrow> ('w, string, string) owning" where
  "final_path os handle =
     bind_io (using_it (Handle handle) (po_final_path os handle)) (\<lambda>(length, buffer).
       if length = 0 \<or> length \<ge> MAX_FINAL_PATH then fail ''failed to resolve final path from protected handle''
       else if valid_utf16 (take length buffer) then ret (from_utf16_lossy (take length buffer))
       else fail ''final path was not valid UTF-16'')"

definition tag_info :: "'w path_os \<Rightarrow> nat \<Rightarrow> ('w, string, u32 \<times> u32) owning" where
  "tag_info os handle = using_it (Handle handle) (prefixed ''failed to read file attribute tag: '' (po_tag_info os handle))"

definition sid_string :: "'w path_os \<Rightarrow> sid \<Rightarrow> ('w, string, string) owning" where
  "sid_string os s =
     bind_io (acquire (\<lambda>(address, _). Memory address) (prefixed ''failed to convert SID to text: '' (lift_text (wk_text s))))
       (\<lambda>(address, decoded). scoped (po_close os) (Memory address)
          (prefixed ''failed to decode SID text: '' (lift_text decoded)))"

definition classify_sid :: "sid option \<Rightarrow> (principal, string) result" where
  "classify_sid s =
     (case s of
        None \<Rightarrow> Err ''ACL entry has no trustee SID''
      | Some s \<Rightarrow>
          if wk_administrators s then Ok AdministratorsPrincipal
          else if wk_local_system s then Ok SystemPrincipal
          else Ok OtherPrincipal)"

definition classify_owner :: "'w path_os \<Rightarrow> sid option \<Rightarrow> ('w, string, path_owner) owning" where
  "classify_owner os s =
     (case s of
        None \<Rightarrow> fail ''protected path has no owner''
      | Some s \<Rightarrow>
          if wk_administrators s then ret Administrators
          else if wk_local_system s then ret LocalSystem
          else bind_io (sid_string os s) (\<lambda>text.
            ret (if ascii_lower text = ascii_lower TRUSTED_INSTALLER_SID then TrustedInstaller else OtherOwner)))"

definition ace_fact_of :: "raw_ace \<Rightarrow> bool \<Rightarrow> (ace_fact, string) result" where
  "ace_fact_of ace allow =
     and_then (classify_sid (ra_sid ace)) (\<lambda>p.
       Ok \<lparr>af_principal = p, af_grants_write = (ra_mask ace AND WRITE_MASK \<noteq> 0), af_allow = allow\<rparr>)"

fun ace_loop :: "nat \<Rightarrow> (raw_ace option, string) result list \<Rightarrow> (ace_fact list, string) result" where
  "ace_loop i [] = Ok []"
| "ace_loop i (Err e # es) = Err (''failed to read ACL entry '' @ dec_nat i @ '': '' @ e)"
| "ace_loop i (Ok None # es) = Err ''Windows returned a null ACL entry''"
| "ace_loop i (Ok (Some ace) # es) =
     (if ra_type ace = 0 then and_then (ace_fact_of ace True) (\<lambda>fact. map_ok ((#) fact) (ace_loop (Suc i) es))
      else if ra_type ace = 1 then and_then (ace_fact_of ace False) (\<lambda>fact. map_ok ((#) fact) (ace_loop (Suc i) es))
      else Err (''unsupported ACL entry type '' @ dec (ra_type ace)))"

definition ace_facts :: "acl option \<Rightarrow> (ace_fact list, string) result" where
  "ace_facts dacl = (case dacl of None \<Rightarrow> Err ''protected path has no DACL'' | Some acl \<Rightarrow> ace_loop 0 (ac_entries acl))"

definition described_facts :: "'w path_os \<Rightarrow> raw_security \<Rightarrow> ('w, string, path_owner \<times> ace_fact list) owning" where
  "described_facts os security =
     bind_io (using_it (Memory (rs_descriptor security))
        (prefixed ''failed to read protected handle DACL: '' (po_descriptor_dacl os (rs_descriptor security))))
       (\<lambda>(present, dacl).
          if \<not> present \<or> dacl = None \<or> map_option ac_address dacl \<noteq> map_option ac_address (rs_dacl security)
          then fail ''protected handle has an absent or inconsistent DACL''
          else bind_io (classify_owner os (rs_owner security)) (\<lambda>owner.
               bind_io (lift_text (ace_facts dacl)) (\<lambda>aces. ret (owner, aces))))"

definition security_facts :: "'w path_os \<Rightarrow> nat \<Rightarrow> ('w, string, path_owner \<times> ace_fact list) owning" where
  "security_facts os handle =
     bind_io (using_it (Handle handle) (ret ())) (\<lambda>_.
     bind_io (acquire (\<lambda>security. Memory (rs_descriptor security))
        (prefixed ''failed to read protected handle security: '' (po_security_info os handle))) (\<lambda>security.
       scoped (po_close os) (Memory (rs_descriptor security)) (described_facts os security)))"

section \<open>The walk\<close>

record retained_handle =
  rh_handle :: nat
  rh_final_path :: string

definition format_policy_error :: "string \<Rightarrow> policy_error \<Rightarrow> string" where
  "format_policy_error path error = ''unsafe hardware-host path '' @ path @ '': '' @ policy_error_text error"

definition final_facts :: "string \<Rightarrow> u32 \<Rightarrow> u32 \<Rightarrow> path_owner \<Rightarrow> ace_fact list \<Rightarrow> ace_fact list \<Rightarrow> path_facts" where
  "final_facts final tag attributes owner aces ancestor_aces =
     \<lparr>pf_final_path = final, pf_reparse_tag = tag, pf_ancestor_reparse = False, pf_owner = owner, pf_aces = aces,
      pf_ancestor_aces = ancestor_aces,
      pf_object_kind = (if attributes AND FILE_ATTRIBUTE_DIRECTORY \<noteq> 0 then DirectoryObject else FileObject),
      pf_exists = True\<rparr>"

text \<open>The facts of one open component, if it is no reparse point.\<close>

definition component_facts ::
  "'w path_os \<Rightarrow> string \<Rightarrow> nat list \<Rightarrow> nat \<Rightarrow> ('w, string, (u32 \<times> u32) \<times> string \<times> path_owner \<times> ace_fact list) owning" where
  "component_facts os path handles handle =
     (let all = List.map Handle (handles @ [handle]) in
      bind_io (closing (po_close os) all (tag_info os handle)) (\<lambda>(tag, attributes).
      if tag \<noteq> REPARSE_TAG_NONE
      then bind_io (close_all (po_close os) all) (\<lambda>_. fail (format_policy_error path (ReparseTag tag)))
      else
      bind_io (closing (po_close os) all (final_path os handle)) (\<lambda>final.
      bind_io (closing (po_close os) all (security_facts os handle)) (\<lambda>(owner, aces).
        ret ((tag, attributes), final, owner, aces)))))"

definition accept_final ::
  "'w path_os \<Rightarrow> string \<Rightarrow> string \<Rightarrow> path_purpose \<Rightarrow> nat list \<Rightarrow> nat \<Rightarrow> path_facts \<Rightarrow> ('w, string, retained_handle) owning" where
  "accept_final os root path purpose handles handle facts =
     (case validate_path root facts purpose of
        Err e \<Rightarrow>
          bind_io (close_all (po_close os) (List.map Handle (handles @ [handle]))) (\<lambda>_. fail (format_policy_error path e))
      | Ok _ \<Rightarrow>
          bind_io (close_all (po_close os) (List.map Handle handles)) (\<lambda>_.
            ret \<lparr>rh_handle = handle, rh_final_path = pf_final_path facts\<rparr>))"

fun inspect_from ::
  "'w path_os \<Rightarrow> string \<Rightarrow> string \<Rightarrow> path_purpose \<Rightarrow> string list \<Rightarrow> nat list \<Rightarrow> ace_fact list
     \<Rightarrow> ('w, string, retained_handle) owning" where
  "inspect_from os root path purpose [] handles ancestor_aces =
     bind_io (close_all (po_close os) (List.map Handle handles)) (\<lambda>_. fail (''path has no final component: '' @ path))"
| "inspect_from os root path purpose (c # cs) handles ancestor_aces =
     bind_io (closing (po_close os) (List.map Handle handles) (open_no_follow os c)) (\<lambda>handle.
     bind_io (component_facts os path handles handle) (\<lambda>((tag, attributes), final, owner, aces).
     if cs \<noteq> [] then
       inspect_from os root path purpose cs (handles @ [handle])
         (if is_below_staging_root root c then ancestor_aces @ aces else ancestor_aces)
     else accept_final os root path purpose handles handle (final_facts final tag attributes owner aces ancestor_aces)))"

definition inspect_path :: "'w path_os \<Rightarrow> string \<Rightarrow> string \<Rightarrow> path_purpose \<Rightarrow> ('w, string, retained_handle) owning" where
  "inspect_path os root path purpose =
     bind_io (lift_text (component_paths os path)) (\<lambda>components. inspect_from os root path purpose components [] [])"

section \<open>Ownership\<close>

lemma steady_lift [steadying]: "steady rs (lift_text r)"
  unfolding steady_def by (rule managesI) (auto simp: lift_text_def)

lemma prefixed_Ok [simp]: "prefixed text m s = (Ok x, s') \<longleftrightarrow> m s = (Ok x, s')"
  by (auto simp: prefixed_def split: prod.splits result.splits)

lemma prefixed_Err: "prefixed text m s = (Err e, s') \<longleftrightarrow> (\<exists>e'. m s = (Err e', s') \<and> e = text @ e')"
  by (auto simp: prefixed_def split: prod.splits result.splits)

lemma steady_prefixed [steadying]: "steady rs m \<Longrightarrow> steady rs (prefixed text m)"
  unfolding steady_def by (rule managesI) (auto simp: prefixed_Err dest: managesD)

lemma steady_final: "owned (Handle h) \<subseteq># rs \<Longrightarrow> steady rs (final_path os h)"
  unfolding final_path_def by (intro steadying)

lemma steady_tag: "owned (Handle h) \<subseteq># rs \<Longrightarrow> steady rs (tag_info os h)"
  unfolding tag_info_def by (intro steadying)

lemma steady_sid [steadying]: "steady rs (sid_string os s)"
  unfolding sid_string_def
  using steady_scope [of "\<lambda>(a, _). Memory a" rs "\<lambda>(a, decoded). prefixed ''failed to decode SID text: '' (lift_text decoded)"]
  by (simp add: case_prod_beta' steadying)

lemma steady_owner [steadying]: "steady rs (classify_owner os s)"
  unfolding classify_owner_def by (intro steadying)

lemma steady_described:
  "owned (Memory (rs_descriptor security)) \<subseteq># rs \<Longrightarrow> steady rs (described_facts os security)"
  unfolding described_facts_def by (intro steadying)

lemma steady_security: "owned (Handle h) \<subseteq># rs \<Longrightarrow> steady rs (security_facts os h)"
  unfolding security_facts_def by (intro steadying steady_scope steady_described) auto

lemma manages_component:
  assumes "rs = owned_list (List.map Handle (hs @ [h]))"
  shows "manages rs (component_facts os path hs h) (\<lambda>_. rs) {#}"
proof -
  have "owned (Handle h) \<subseteq># rs"
    by (simp add: assms)
  then show ?thesis
    unfolding component_facts_def Let_def
    by (intro manages_step manages_pair manages_if manages_give_up steady_tag steady_final steady_security
        manages_ret [where Q = "\<lambda>_. rs"] assms [symmetric])
qed

lemma manages_accept:
  assumes "rs = owned_list (List.map Handle (hs @ [h]))"
  shows "manages rs (accept_final os root path purpose hs h facts) (\<lambda>r. owned (Handle (rh_handle r))) {#}"
proof (cases "validate_path root facts purpose")
  case (Err e)
  then show ?thesis
    using assms by (simp add: accept_final_def manages_give_up)
next
  case (Ok u)
  have "manages rs (close_all (po_close os) (List.map Handle hs)) (\<lambda>_. owned (Handle h)) {#}"
    using manages_close_all [of "List.map Handle hs" "owned (Handle h)" "po_close os" "{#}"] by (simp add: assms)
  then show ?thesis
    using Ok manages_ret [of "\<lambda>r. owned (Handle (rh_handle r))" "\<lparr>rh_handle = h, rh_final_path = pf_final_path facts\<rparr>" "{#}"]
    by (auto simp: accept_final_def intro: manages_bind)
qed

lemma manages_inspect_from:
  "rs = owned_list (List.map Handle hs) \<Longrightarrow>
   manages rs (inspect_from os root path purpose cs hs aces) (\<lambda>r. owned (Handle (rh_handle r))) {#}"
proof (induction cs arbitrary: hs aces rs)
  case Nil
  then show ?case
    by (simp add: manages_give_up)
next
  case (Cons c cs)
  have "manages rs (closing (po_close os) (List.map Handle hs) (open_no_follow os c))
      (\<lambda>h. owned_list (List.map Handle (hs @ [h]))) {#}"
    unfolding open_no_follow_def Cons.prems
    using manages_acquire [of "owned_list (List.map Handle hs)" Handle] by (intro manages_closing) (simp add: ac_simps)
  moreover have "manages (owned_list (List.map Handle (hs @ [h])))
      (bind_io (component_facts os path hs h) (\<lambda>((tag, attributes), final, owner, fresh).
         if cs \<noteq> [] then inspect_from os root path purpose cs (hs @ [h]) (if is_below_staging_root root c then aces @ fresh else aces)
         else accept_final os root path purpose hs h (final_facts final tag attributes owner fresh aces)))
      (\<lambda>r. owned (Handle (rh_handle r))) {#}" for h
    using Cons.IH [OF refl] manages_accept [OF refl]
    by (intro manages_bind [OF manages_component [OF refl]]) (auto simp del: List.map_append owned_list_simps)
  ultimately show ?case
    by (simp add: manages_bind)
qed

lemma manages_inspect: "manages {#} (inspect_path os root path purpose) (\<lambda>r. owned (Handle (rh_handle r))) {#}"
  unfolding inspect_path_def
  by (intro manages_bind [where Q = "\<lambda>_. {#}"] manages_inspect_from) (use steady_lift in \<open>auto simp: steady_def\<close>)

text \<open>
  Inspecting a path leaves nothing open.  Whatever Windows answers and wherever the walk stops,
  every handle and every security descriptor and SID text is released exactly once and never used
  after it; only the handle of an accepted path is kept, and it is the caller's.
\<close>

theorem inspection_releases_all:
  "case inspect_path os root path purpose (w, empty_ledger) of
     (r, (w', l)) \<Rightarrow>
       \<not> lg_misused l
       \<and> lg_owned l = (case r of Ok retained \<Rightarrow> owned (Handle (rh_handle retained)) | Err _ \<Rightarrow> {#})"
  using manages_start [OF manages_inspect] by (fastforce split: prod.split)

section \<open>The order of the walk\<close>

text \<open>The same ports over a world that also records the components opened and the tags read.\<close>

datatype look = Opened string | Tagged u32

definition noting :: "('a \<Rightarrow> look list) \<Rightarrow> ('w, 'e, 'a) effect \<Rightarrow> ('w \<times> look list, 'e, 'a) effect" where
  "noting f m = (\<lambda>(w, t). case m w of (Ok x, w') \<Rightarrow> (Ok x, (w', t @ f x)) | (Err e, w') \<Rightarrow> (Err e, (w', t)))"

definition watched :: "'w path_os \<Rightarrow> ('w \<times> look list) path_os" where
  "watched os =
     \<lparr>po_components = po_components os, po_push = po_push os,
      po_create_file = (\<lambda>c. noting (\<lambda>_. [Opened c]) (po_create_file os c)),
      po_tag_info = (\<lambda>h. noting (\<lambda>(tag, _). [Tagged tag]) (po_tag_info os h)),
      po_final_path = (\<lambda>h. noting (\<lambda>_. []) (po_final_path os h)),
      po_security_info = (\<lambda>h. noting (\<lambda>_. []) (po_security_info os h)),
      po_descriptor_dacl = (\<lambda>d. noting (\<lambda>_. []) (po_descriptor_dacl os d)),
      po_close = (\<lambda>r (w, t). (po_close os r w, t))\<rparr>"

text \<open>A component is opened only after every one above it was opened and its tag was none.\<close>

fun guarded_walk :: "string list \<Rightarrow> look list \<Rightarrow> bool" where
  "guarded_walk cs [] = True"
| "guarded_walk (c # cs) [Opened p] = (p = c)"
| "guarded_walk (c # cs) (Opened p # Tagged tag # t) = (p = c \<and> (if tag = REPARSE_TAG_NONE then guarded_walk cs t else t = []))"
| "guarded_walk _ _ = False"

definition whole_walk :: "string list \<Rightarrow> look list" where
  "whole_walk cs = concat (List.map (\<lambda>c. [Opened c, Tagged REPARSE_TAG_NONE]) cs)"

definition log_is :: "(look list \<Rightarrow> bool) \<Rightarrow> 'w \<times> look list \<Rightarrow> bool" where
  "log_is P = (\<lambda>(w, t). P t)"

lemma watched_fields [simp]:
  "po_create_file (watched os) c = noting (\<lambda>_. [Opened c]) (po_create_file os c)"
  "po_tag_info (watched os) h = noting (\<lambda>(tag, _). [Tagged tag]) (po_tag_info os h)"
  "po_final_path (watched os) h = noting (\<lambda>_. []) (po_final_path os h)"
  "po_security_info (watched os) h = noting (\<lambda>_. []) (po_security_info os h)"
  "po_descriptor_dacl (watched os) d = noting (\<lambda>_. []) (po_descriptor_dacl os d)"
  by (simp_all add: watched_def)

lemma component_loop_watched: "component_loop (watched os) path cs current paths = component_loop os path cs current paths"
  by (induction os path cs current paths rule: component_loop.induct) (simp_all add: watched_def)

lemma component_paths_watched: "component_paths (watched os) path = component_paths os path"
  using component_loop_watched [of os] by (simp add: component_paths_def watched_def [THEN arg_cong [where f = po_components]])

lemma watched_closes: "closes_keep (po_close (watched os)) (log_is P)"
  by (auto simp: closes_keep_def watched_def log_is_def)

lemma noting_contract: "contract (log_is (\<lambda>t. t = t0)) (noting f m) (\<lambda>x. log_is (\<lambda>t. t = t0 @ f x)) (\<lambda>_. log_is (\<lambda>t. t = t0))"
  by (auto simp: contract_def noting_def log_is_def split: prod.splits result.splits)

lemma prefixed_contract: "contract P m Q (\<lambda>_. E) \<Longrightarrow> contract P (prefixed text m) Q (\<lambda>_. E)"
  by (auto simp: contract_def prefixed_Err)

lemma keeps_prefixed [keeping]: "keeps I m \<Longrightarrow> keeps I (prefixed text m)"
  unfolding keeps_contract by (rule prefixed_contract)

lemma keeps_lift_text [keeping]: "keeps I (lift_text r)"
  by (simp add: keeps_def lift_text_def)

lemma keeps_noting [keeping]: "keeps (log_is (\<lambda>t. t = t0)) (noting (\<lambda>_. []) m)"
  using noting_contract [of t0 "\<lambda>_. []" m] by (simp add: keeps_contract)

abbreviation logged :: "look list \<Rightarrow> ('w \<times> look list) \<times> ledger \<Rightarrow> bool" where
  "logged t0 \<equiv> on_world (log_is (\<lambda>t. t = t0))"

lemma final_logged: "keeps (logged t0) (final_path (watched os) h)"
  unfolding final_path_def by (simp, intro keeping)

lemma owner_logged [keeping]: "keeps (logged t0) (classify_owner (watched os) s)"
  unfolding classify_owner_def sid_string_def by (intro keeping watched_closes)

lemma security_logged: "keeps (logged t0) (security_facts (watched os) h)"
  unfolding security_facts_def described_facts_def by (simp, intro keeping watched_closes)

lemma logged_step:
  assumes "contract (logged t0) m Q (\<lambda>_. logged t0)" "P t0"
  shows "contract (logged t0) (closing (po_close (watched os)) hs m) Q (\<lambda>_. on_world (log_is P))"
  by (rule world_closing [OF contract_weaken [OF assms(1)] watched_closes])
    (use assms(2) in \<open>auto simp: on_world_def log_is_def split: prod.splits\<close>)

lemma logged_give_up:
  assumes "P t0"
  shows "contract (logged t0) (bind_io (close_all (po_close (watched os)) hs) (\<lambda>_. fail e)) Q (\<lambda>_. on_world (log_is P))"
  by (rule contract_bind [OF world_close_all [OF watched_closes] contract_fail])
    (use assms in \<open>auto simp: on_world_def log_is_def split: prod.splits\<close>)

lemma kept_step:
  assumes "keeps (logged t0) m" "P t0" "\<And>x. contract (logged t0) (f x) Q (\<lambda>_. on_world (log_is P))"
  shows "contract (logged t0) (bind_io (closing (po_close (watched os)) hs m) f) Q (\<lambda>_. on_world (log_is P))"
  using assms by (intro contract_bind [OF logged_step]) (auto simp: keeps_contract)

definition stops_at :: "look list \<Rightarrow> look list \<Rightarrow> bool" where
  "stops_at t0 t \<longleftrightarrow> t = t0 \<or> (\<exists>tag. t = t0 @ [Tagged tag])"

lemma component_logged:
  "contract (logged t0) (component_facts (watched os) path hs h)
     (\<lambda>_. logged (t0 @ [Tagged REPARSE_TAG_NONE])) (\<lambda>_. on_world (log_is (stops_at t0)))"
proof -
  let ?all = "List.map Handle (hs @ [h])" and ?t1 = "t0 @ [Tagged REPARSE_TAG_NONE]"
  have tag: "contract (logged t0) (tag_info (watched os) h) (\<lambda>(tag, _). logged (t0 @ [Tagged tag])) (\<lambda>_. logged t0)"
    using world_using [OF prefixed_contract [OF noting_contract
        [of t0 "\<lambda>(tag, _). [Tagged tag]" "po_tag_info os h"]], of "Handle h" "''failed to read file attribute tag: ''"]
    by (simp add: tag_info_def case_prod_beta')
  have rest: "contract (logged ?t1) (bind_io (closing (po_close (watched os)) ?all (final_path (watched os) h)) (\<lambda>final.
      bind_io (closing (po_close (watched os)) ?all (security_facts (watched os) h)) (\<lambda>(owner, aces).
        ret ((REPARSE_TAG_NONE, attributes), final, owner, aces))))
      (\<lambda>_. logged ?t1) (\<lambda>_. on_world (log_is (stops_at t0)))" for attributes
    by (intro kept_step final_logged security_logged contract_pair contract_ret) (auto simp: stops_at_def)
  show ?thesis
    unfolding component_facts_def Let_def
  proof (rule contract_bind [OF logged_step [OF tag]])
    show "stops_at t0 t0"
      by (simp add: stops_at_def)
  next
    fix x :: "u32 \<times> u32"
    obtain tag attributes where x: "x = (tag, attributes)"
      by (cases x)
    show "contract (case x of (tag, _) \<Rightarrow> logged (t0 @ [Tagged tag]))
       (case x of (tag, attributes) \<Rightarrow>
          if tag \<noteq> REPARSE_TAG_NONE
          then bind_io (close_all (po_close (watched os)) ?all) (\<lambda>_. fail (format_policy_error path (ReparseTag tag)))
          else bind_io (closing (po_close (watched os)) ?all (final_path (watched os) h)) (\<lambda>final.
               bind_io (closing (po_close (watched os)) ?all (security_facts (watched os) h)) (\<lambda>(owner, aces).
                 ret ((tag, attributes), final, owner, aces))))
       (\<lambda>_. logged ?t1) (\<lambda>_. on_world (log_is (stops_at t0)))"
      using rest [of attributes] by (auto simp: x stops_at_def simp del: List.map_append intro!: logged_give_up)
  qed
qed

lemma accept_logged:
  assumes "stops_at t0 t1"
  shows "contract (logged t1) (accept_final (watched os) root path purpose hs h facts)
     (\<lambda>r s. logged t1 s \<and> validate_path root facts purpose = Ok () \<and> rh_final_path r = pf_final_path facts)
     (\<lambda>_. on_world (log_is (stops_at t0)))"
proof (cases "validate_path root facts purpose")
  case (Err e)
  then show ?thesis
    using assms by (simp add: accept_final_def logged_give_up)
next
  case (Ok u)
  then show ?thesis
    by (simp add: accept_final_def contract_bind [OF world_close_all [OF watched_closes] contract_ret])
qed

lemma open_logged:
  "contract (logged t0) (closing (po_close (watched os)) hs (open_no_follow (watched os) c))
     (\<lambda>_. logged (t0 @ [Opened c])) (\<lambda>_. logged t0)"
  unfolding open_no_follow_def
  by (simp, rule logged_step [OF world_acquire [OF prefixed_contract [OF noting_contract]]]) simp

definition in_place :: "string \<Rightarrow> path_purpose \<Rightarrow> string \<Rightarrow> bool" where
  "in_place root purpose final =
     (if purpose = PowerShellHost then is_allowlisted_powershell_layout final else is_contained_path root final)"

lemma validated_in_place: "validate_path root facts purpose = Ok () \<Longrightarrow> in_place root purpose (pf_final_path facts)"
  by (auto simp: validate_path_def in_place_def split: if_splits)

lemma guarded_stop: "stops_at (t0 @ [Opened c]) t \<Longrightarrow> \<exists>u. t = t0 @ u \<and> guarded_walk (c # cs) u"
  by (auto simp: stops_at_def)

lemma guarded_further:
  "guarded_walk cs u \<Longrightarrow> \<exists>v. (t0 @ [Opened c]) @ [Tagged REPARSE_TAG_NONE] @ u = t0 @ v \<and> guarded_walk (c # cs) v"
  by simp

lemma inspect_from_logged:
  "contract (logged t0) (inspect_from (watched os) root path purpose cs hs aces)
     (\<lambda>r s. logged (t0 @ whole_walk cs) s \<and> in_place root purpose (rh_final_path r))
     (\<lambda>_. on_world (log_is (\<lambda>t. \<exists>u. t = t0 @ u \<and> guarded_walk cs u)))"
proof (induction cs arbitrary: t0 hs aces)
  case Nil
  show ?case
    by (simp add: logged_give_up)
next
  case (Cons c cs)
  let ?t1 = "t0 @ [Opened c]" and ?E = "\<lambda>_ :: string. on_world (log_is (\<lambda>t. \<exists>u. t = t0 @ u \<and> guarded_walk (c # cs) u))"
  let ?t2 = "?t1 @ [Tagged REPARSE_TAG_NONE]"
  have opened: "contract (logged t0) (closing (po_close (watched os)) (List.map Handle hs) (open_no_follow (watched os) c))
      (\<lambda>_. logged ?t1) ?E"
    by (rule contract_weaken [OF open_logged]) (auto simp: on_world_def log_is_def split: prod.splits)
  have described: "contract (logged ?t1) (component_facts (watched os) path hs h) (\<lambda>_. logged ?t2) ?E" for h
    by (rule contract_weaken [OF component_logged])
      (use guarded_stop in \<open>force simp: on_world_def log_is_def split: prod.splits\<close>)+
  have further: "contract (logged ?t2) (inspect_from (watched os) root path purpose cs hs' aces')
      (\<lambda>r s. logged (t0 @ whole_walk (c # cs)) s \<and> in_place root purpose (rh_final_path r)) ?E" for hs' aces'
    by (rule contract_weaken [OF Cons.IH])
      (auto simp: on_world_def log_is_def whole_walk_def split: prod.splits)
  have accepted: "cs = [] \<Longrightarrow> contract (logged ?t2) (accept_final (watched os) root path purpose hs h facts)
      (\<lambda>r s. logged (t0 @ whole_walk (c # cs)) s \<and> in_place root purpose (rh_final_path r)) ?E" for h facts
    by (rule contract_weaken [OF accept_logged [of ?t1 ?t2]])
      (auto simp: on_world_def log_is_def whole_walk_def stops_at_def dest: validated_in_place split: prod.splits)
  show ?case
    using further accepted
    by (simp, intro contract_bind [OF opened] contract_bind [OF described]) (auto split: prod.split)
qed

text \<open>
  No component of a path is opened before every one above it was opened and found to be no reparse
  point, wherever the walk stops; a path is accepted only after all of it was walked so, and only if
  the final path of the handle that is kept lies in the protected root (for the PowerShell host, in
  its allowlisted layout).
\<close>

theorem walk_never_follows:
  "case inspect_path (watched os) root path purpose ((w, []), l) of
     (r, ((w', t), l')) \<Rightarrow>
       (case component_paths os path of
          Err e \<Rightarrow> r = Err e \<and> t = []
        | Ok cs \<Rightarrow> guarded_walk cs t
            \<and> (case r of Ok retained \<Rightarrow> t = whole_walk cs \<and> in_place root purpose (rh_final_path retained) | Err _ \<Rightarrow> True))"
proof (cases "component_paths os path")
  case (Err e)
  then show ?thesis
    by (simp add: inspect_path_def component_paths_watched bind_io_def lift_text_def)
next
  case (Ok cs)
  obtain r w' t l' where run: "inspect_from (watched os) root path purpose cs [] [] ((w, []), l) = (r, ((w', t), l'))"
    by (metis prod.exhaust)
  have start: "logged [] ((w, []), l)"
    by (simp add: on_world_def log_is_def)
  have whole: "guarded_walk cs (whole_walk cs)"
    by (induction cs) (auto simp: whole_walk_def)
  have "inspect_path (watched os) root path purpose ((w, []), l) = (r, ((w', t), l'))"
    using run Ok by (simp add: inspect_path_def component_paths_watched bind_io_def lift_text_def)
  then show ?thesis
    using contract_Ok [OF inspect_from_logged start] contract_Err [OF inspect_from_logged start] run whole
    by (cases r) (fastforce simp: Ok on_world_def log_is_def)+
qed

section \<open>What an accepted path is\<close>

text \<open>
  The policy on what Windows answers.  A trusted owner is Administrators, LocalSystem or, for the
  PowerShell host, TrustedInstaller; an access list grants no foreign write when each entry can be
  read, allows or denies, and none that allows some right of the mask is for another principal than
  Administrators and LocalSystem.
\<close>

definition trusted_owner :: "path_purpose \<Rightarrow> sid option \<Rightarrow> bool" where
  "trusted_owner purpose owner \<longleftrightarrow>
     (\<exists>s. owner = Some s \<and>
        (wk_administrators s \<or> wk_local_system s
         \<or> (purpose = PowerShellHost
            \<and> (\<exists>address text. wk_text s = Ok (address, Ok text) \<and> ascii_lower text = ascii_lower TRUSTED_INSTALLER_SID))))"

definition no_foreign_write :: "acl \<Rightarrow> bool" where
  "no_foreign_write acl \<longleftrightarrow>
     list_all (\<lambda>entry. \<exists>ace s. entry = Ok (Some ace) \<and> ra_sid ace = Some s
        \<and> (ra_type ace = 1 \<or> (ra_type ace = 0 \<and> (ra_mask ace AND WRITE_MASK \<noteq> 0 \<longrightarrow> wk_administrators s \<or> wk_local_system s))))
       (ac_entries acl)"

text \<open>
  What Windows answered for an object that was opened without following a reparse point, question
  after question, all to the same handle: a reparse tag of none and the attributes, its final path,
  and its owner and access list, which is present and the one that its descriptor holds.
\<close>

definition examined :: "'w path_os \<Rightarrow> string \<Rightarrow> nat \<Rightarrow> u32 \<Rightarrow> string \<Rightarrow> sid option \<Rightarrow> acl \<Rightarrow> bool" where
  "examined os c handle attributes final owner acl \<longleftrightarrow>
     (\<exists>w0 w1 w2 w3 w4 w5 length buffer security.
        po_create_file os c w0 = (Ok handle, w1)
      \<and> po_tag_info os handle w1 = (Ok (0, attributes), w2)
      \<and> po_final_path os handle w2 = (Ok (length, buffer), w3) \<and> 0 < length \<and> length < 32768
      \<and> valid_utf16 (take length buffer) \<and> final = from_utf16_lossy (take length buffer)
      \<and> po_security_info os handle w3 = (Ok security, w4) \<and> owner = rs_owner security
      \<and> po_descriptor_dacl os (rs_descriptor security) w4 = (Ok (True, Some acl), w5)
      \<and> map_option ac_address (rs_dacl security) = Some (ac_address acl))"

text \<open>
  An accepted path: every component was examined; none strictly below the root on the way lets others
  write; the last, whose handle and final path are kept, lies where its purpose allows, has a trusted
  owner, lets no others write (but for the PowerShell host) and is a directory or a file as its purpose is.
\<close>

definition passable :: "'w path_os \<Rightarrow> string \<Rightarrow> string \<Rightarrow> bool" where
  "passable os root c \<longleftrightarrow>
     (\<exists>handle attributes final owner acl. examined os c handle attributes final owner acl
        \<and> (is_below_staging_root root c \<longrightarrow> no_foreign_write acl))"

definition keepable :: "'w path_os \<Rightarrow> string \<Rightarrow> path_purpose \<Rightarrow> string \<Rightarrow> retained_handle \<Rightarrow> bool" where
  "keepable os root purpose c kept \<longleftrightarrow>
     (\<exists>attributes owner acl. examined os c (rh_handle kept) attributes (rh_final_path kept) owner acl
        \<and> in_place root purpose (rh_final_path kept)
        \<and> trusted_owner purpose owner
        \<and> (purpose = PowerShellHost \<or> no_foreign_write acl)
        \<and> (attributes AND FILE_ATTRIBUTE_DIRECTORY \<noteq> 0 \<longleftrightarrow> purpose \<in> {StagingRoot, OutputDirectory}))"

definition accepted_path :: "'w path_os \<Rightarrow> string \<Rightarrow> string \<Rightarrow> path_purpose \<Rightarrow> retained_handle \<Rightarrow> bool" where
  "accepted_path os root path purpose kept \<longleftrightarrow>
     (\<exists>above c. component_paths os path = Ok (above @ [c])
      \<and> list_all (passable os root) above \<and> keepable os root purpose c kept)"

lemma closing_Ok [simp]: "closing close rs m s = (Ok x, s') \<longleftrightarrow> m s = (Ok x, s')"
  by (auto simp: closing_def split: prod.splits result.splits)

lemma scoped_eq_Ok: "scoped close r m s = (Ok x, s') \<longleftrightarrow> (\<exists>s1. m s = (Ok x, s1) \<and> s' = release close r s1)"
  by (auto simp: scoped_def split: prod.splits)

lemma using_it_Ok: "using_it r m (w, l) = (Ok x, s') \<longleftrightarrow> (\<exists>w'. m w = (Ok x, w') \<and> s' = (w', touch r l))"
  by (auto simp: using_it_def split: prod.splits)

lemma acquire_Ok: "acquire f m (w, l) = (Ok x, s') \<longleftrightarrow> (\<exists>w'. m w = (Ok x, w') \<and> s' = (w', gain (f x) l))"
  by (auto simp: acquire_def split: prod.splits result.splits)

lemma lift_text_eq_Ok [simp]: "lift_text r s = (Ok x, s') \<longleftrightarrow> r = Ok x \<and> s' = s"
  by (auto simp: lift_text_def)

lemma close_all_Ok: "close_all close rs s = (Ok u, s') \<longleftrightarrow> s' = fold (release close) rs s"
  by (auto simp: close_all_def)

lemma owner_trusted:
  "classify_owner os owner s = (Ok classified, s') \<Longrightarrow> is_owner_allowed classified purpose \<Longrightarrow> trusted_owner purpose owner"
  by (cases s; cases owner)
    (auto simp: classify_owner_def trusted_owner_def is_owner_allowed_def sid_string_def bind_io_eq_Ok acquire_Ok
      scoped_eq_Ok split: if_splits)

lemma aces_without_write:
  "ace_loop i es = Ok facts \<Longrightarrow> \<not> list_ex grants_unallowlisted_write facts \<Longrightarrow>
   no_foreign_write \<lparr>ac_address = address, ac_entries = es\<rparr>"
proof (induction i es arbitrary: facts rule: ace_loop.induct)
  case (4 i ace es)
  then show ?case
    by (cases "ra_sid ace")
      (auto simp: no_foreign_write_def ace_fact_of_def classify_sid_def grants_unallowlisted_write_def and_then_def
        split: if_splits result.splits)
qed (simp_all add: no_foreign_write_def)

lemma no_foreign_writeI:
  "ace_facts (Some acl) = Ok facts \<Longrightarrow> \<not> list_ex grants_unallowlisted_write facts \<Longrightarrow> no_foreign_write acl"
  using aces_without_write [of 0 "ac_entries acl" facts "ac_address acl"] by (simp add: ace_facts_def no_foreign_write_def)

lemma described_Ok:
  assumes "described_facts os security (w, l) = (Ok (owner, aces), s')"
  shows "\<exists>acl w' s1 s2. po_descriptor_dacl os (rs_descriptor security) w = (Ok (True, Some acl), w')
      \<and> map_option ac_address (rs_dacl security) = Some (ac_address acl)
      \<and> classify_owner os (rs_owner security) s1 = (Ok owner, s2) \<and> ace_facts (Some acl) = Ok aces"
proof -
  obtain present dacl w' l' where asked: "po_descriptor_dacl os (rs_descriptor security) w = (Ok (present, dacl), w')"
    and rest: "(if \<not> present \<or> dacl = None \<or> map_option ac_address dacl \<noteq> map_option ac_address (rs_dacl security)
          then fail ''protected handle has an absent or inconsistent DACL''
          else bind_io (classify_owner os (rs_owner security)) (\<lambda>owner.
               bind_io (lift_text (ace_facts dacl)) (\<lambda>aces. ret (owner, aces)))) (w', l') = (Ok (owner, aces), s')"
    using assms unfolding described_facts_def bind_io_eq_Ok [of "using_it _ _"]
    by (clarsimp simp: using_it_Ok simp del: if_split)
  then show ?thesis
    by (cases dacl; cases "rs_dacl security") (auto simp: bind_io_eq_Ok split: if_splits)
qed

lemma component_examined:
  assumes "open_no_follow os c s = (Ok handle, s1)"
    and "component_facts os path handles handle s1 = (Ok ((tag, attributes), final, owner, aces), s2)"
  shows "tag = 0 \<and> (\<exists>raw acl. examined os c handle attributes final raw acl
    \<and> (\<forall>purpose. is_owner_allowed owner purpose \<longrightarrow> trusted_owner purpose raw) \<and> ace_facts (Some acl) = Ok aces)"
proof -
  obtain w0 l0 w1 l1 where s: "s = (w0, l0)" "s1 = (w1, l1)"
    by (metis prod.exhaust)
  have opened: "po_create_file os c w0 = (Ok handle, w1)"
    using assms(1) unfolding s by (auto simp: open_no_follow_def acquire_Ok)
  obtain w2 l2 s3 s4 where tagged: "po_tag_info os handle w1 = (Ok (0, attributes), w2)" "tag = 0"
    and finals: "final_path os handle (w2, l2) = (Ok final, s3)"
    and secured: "security_facts os handle s3 = (Ok (owner, aces), s4)"
    using assms(2) unfolding s component_facts_def Let_def
    by (auto simp: bind_io_eq_Ok tag_info_def using_it_Ok REPARSE_TAG_NONE_def split: if_splits)
  obtain w3 l3 length buffer where resolved: "po_final_path os handle w2 = (Ok (length, buffer), w3)" "s3 = (w3, l3)"
    "0 < length" "length < 32768" "valid_utf16 (take length buffer)" "final = from_utf16_lossy (take length buffer)"
    using finals by (auto simp: final_path_def bind_io_eq_Ok using_it_Ok MAX_FINAL_PATH_def split: if_splits)
  obtain security w4 w5 acl s5 s6 where described: "po_security_info os handle w3 = (Ok security, w4)"
    "po_descriptor_dacl os (rs_descriptor security) w4 = (Ok (True, Some acl), w5)"
    "map_option ac_address (rs_dacl security) = Some (ac_address acl)"
    "classify_owner os (rs_owner security) s5 = (Ok owner, s6)" "ace_facts (Some acl) = Ok aces"
    using secured unfolding resolved(2)
    by (fastforce simp: security_facts_def bind_io_eq_Ok using_it_Ok acquire_Ok scoped_eq_Ok dest: described_Ok)
  have "examined os c handle attributes final (rs_owner security) acl"
    unfolding examined_def using opened tagged(1) resolved described by blast
  then show ?thesis
    using tagged(2) described(4,5) owner_trusted by blast
qed

lemma accept_final_Ok:
  "accept_final os root path purpose handles handle facts s = (Ok kept, s') \<Longrightarrow>
   validate_path root facts purpose = Ok () \<and> rh_handle kept = handle \<and> rh_final_path kept = pf_final_path facts"
  by (auto simp: accept_final_def bind_io_eq_Ok split: result.splits)

lemma accepted_facts:
  "validate_path root (final_facts final tag attributes owner found aces) purpose = Ok () \<longleftrightarrow>
     tag = 0 \<and> \<not> list_ex grants_unallowlisted_write aces \<and> in_place root purpose final \<and> is_owner_allowed owner purpose
     \<and> (purpose = PowerShellHost \<or> \<not> list_ex grants_unallowlisted_write found)
     \<and> (attributes AND FILE_ATTRIBUTE_DIRECTORY \<noteq> 0 \<longleftrightarrow> purpose \<in> {StagingRoot, OutputDirectory})"
  by (cases purpose)
    (auto simp: validate_path_def final_facts_def in_place_def has_standard_user_writable_ancestor_def
      grants_unallowlisted_write_def [abs_def] split: if_splits)

lemma inspect_from_accepts:
  assumes "inspect_from os root path purpose cs handles aces s = (Ok kept, s')"
  shows "\<exists>above c. cs = above @ [c] \<and> list_all (passable os root) above \<and> keepable os root purpose c kept
    \<and> \<not> list_ex grants_unallowlisted_write aces"
  using assms
proof (induction cs arbitrary: handles aces s)
  case Nil
  then show ?case
    by (simp add: bind_io_eq_Ok)
next
  case (Cons c cs)
  obtain handle s1 tag attributes final owner found s2 where opened: "open_no_follow os c s = (Ok handle, s1)"
    and facts: "component_facts os path handles handle s1 = (Ok ((tag, attributes), final, owner, found), s2)"
    and rest: "(if cs \<noteq> [] then inspect_from os root path purpose cs (handles @ [handle])
         (if is_below_staging_root root c then aces @ found else aces)
       else accept_final os root path purpose handles handle (final_facts final tag attributes owner found aces)) s2 = (Ok kept, s')"
    using Cons.prems unfolding inspect_from.simps bind_io_eq_Ok closing_Ok by (elim exE conjE) (auto simp: split_paired_all simp del: if_split)
  obtain raw acl where seen: "examined os c handle attributes final raw acl"
    "\<And>purpose. is_owner_allowed owner purpose \<Longrightarrow> trusted_owner purpose raw" "ace_facts (Some acl) = Ok found"
    using component_examined [OF opened facts] by blast
  show ?case
  proof (cases "cs = []")
    case True
    then have accepted: "validate_path root (final_facts final tag attributes owner found aces) purpose = Ok ()"
      and kept: "rh_handle kept = handle" "rh_final_path kept = final"
      using accept_final_Ok [of os root path purpose handles handle _ s2 kept s'] rest by (auto simp: final_facts_def)
    have "trusted_owner purpose raw" "\<not> list_ex grants_unallowlisted_write aces"
      "purpose = PowerShellHost \<or> no_foreign_write acl"
      using accepted seen(2) no_foreign_writeI [OF seen(3)]
      by (auto simp: accepted_facts)
    moreover have "attributes AND FILE_ATTRIBUTE_DIRECTORY \<noteq> 0 \<longleftrightarrow> purpose \<in> {StagingRoot, OutputDirectory}"
      using accepted by (auto simp: accepted_facts)
    moreover have "in_place root purpose final"
      using validated_in_place [OF accepted] by (simp add: final_facts_def)
    ultimately have "keepable os root purpose c kept"
      using seen(1) kept unfolding keepable_def by blast
    then show ?thesis
      using True \<open>\<not> list_ex grants_unallowlisted_write aces\<close> by simp
  next
    case False
    then have "inspect_from os root path purpose cs (handles @ [handle])
         (if is_below_staging_root root c then aces @ found else aces) s2 = (Ok kept, s')"
      using rest by simp
    from Cons.IH [OF this] obtain above c' where walked: "cs = above @ [c']" "list_all (passable os root) above"
      "keepable os root purpose c' kept"
      "\<not> list_ex grants_unallowlisted_write (if is_below_staging_root root c then aces @ found else aces)"
      by blast
    have "is_below_staging_root root c \<longrightarrow> no_foreign_write acl"
      using walked(4) no_foreign_writeI [OF seen(3)] by (auto split: if_splits)
    then have "passable os root c"
      using seen(1) unfolding passable_def by blast
    then show ?thesis
      using walked by (intro exI [of _ "c # above"] exI [of _ c']) (simp split: if_splits)
  qed
qed

lemma inspect_accepts:
  assumes "inspect_path os root path purpose s = (Ok kept, s')"
  shows "accepted_path os root path purpose kept"
proof -
  obtain cs where cs: "component_paths os path = Ok cs" and walk: "inspect_from os root path purpose cs [] [] s = (Ok kept, s')"
    using assms by (auto simp: inspect_path_def bind_io_eq_Ok)
  from inspect_from_accepts [OF walk] cs show ?thesis
    unfolding accepted_path_def by blast
qed

section \<open>What counts as write access\<close>

text \<open>
  An entry that allows reading only (\<open>FILE_GENERIC_READ\<close>) counts as a grant of write access, since
  the mask holds \<open>READ_CONTROL\<close>; one that allows the deletion of children (\<open>FILE_DELETE_CHILD\<close>) does not.
\<close>

definition entry_with :: "u32 \<Rightarrow> raw_ace" where
  "entry_with m = \<lparr>ra_type = 0, ra_mask = m,
     ra_sid = Some \<lparr>wk_administrators = False, wk_local_system = False, wk_text = Err []\<rparr>\<rparr>"

theorem write_mask_is_not_write_access:
  "map_ok (List.map af_grants_write) (ace_facts (Some \<lparr>ac_address = 1, ac_entries = [Ok (Some (entry_with 0x00120089))]\<rparr>)) = Ok [True]"
  "map_ok (List.map af_grants_write) (ace_facts (Some \<lparr>ac_address = 1, ac_entries = [Ok (Some (entry_with 0x40))]\<rparr>)) = Ok [False]"
  by code_simp+

end
