(* ===== verification/HardwareService.thy ===== *)
theory HardwareService
  imports PathInspect
begin

text \<open>
  \<open>spotter-hardware-service/src/main.rs\<close>: the service that runs one PowerShell collector over
  inspected paths.  The handles of the inspected objects are owned from their inspection to the end of
  the run.  The Service Control Manager, processes, files and the JSON of the configuration are ports.
\<close>

section \<open>Configuration\<close>

record hw_config =
  hc_service_name :: string
  hc_collector :: string
  hc_image :: string
  hc_image_alias :: string
  hc_context :: string
  hc_repetition :: u32
  hc_key_path :: string
  hc_output_path :: string
  hc_pwsh_path :: string
  hc_staging_root :: string

text \<open>The path functions of the standard library; \<open>pl_same\<close> is the equality of paths, by their components.\<close>

record path_lib =
  pl_extension :: "string \<Rightarrow> string option"
  pl_is_absolute :: "string \<Rightarrow> bool"
  pl_parent :: "string \<Rightarrow> string option"
  pl_join :: "string \<Rightarrow> string \<Rightarrow> string"
  pl_file_name :: "string \<Rightarrow> string option"
  pl_component_count :: "string \<Rightarrow> nat"
  pl_is_utf8 :: "string \<Rightarrow> bool"
  pl_same :: "string \<Rightarrow> string \<Rightarrow> bool"

text \<open>Control characters: the ASCII ones, and those that UTF-8 encodes as \<open>C2 80\<close> to \<open>C2 9F\<close>.\<close>

fun has_control :: "string \<Rightarrow> bool" where
  "has_control [] = False"
| "has_control (c # s) =
     (byte c < 32 \<or> byte c = 127
      \<or> (byte c = 0xC2 \<and> (case s of [] \<Rightarrow> False | d # _ \<Rightarrow> 0x80 \<le> byte d \<and> byte d \<le> 0x9F))
      \<or> has_control s)"

definition validate_service_name :: "string \<Rightarrow> (unit, string) result" where
  "validate_service_name name =
     (if name = [] \<or> length name > 256 \<or> has_control name \<or> CHR ''/'' \<in> set name
      then Err ''service name is empty or contains unsupported characters'' else Ok ())"

definition validate_config_path :: "string \<Rightarrow> (unit, string) result" where
  "validate_config_path path =
     (if length path > 32768 \<or> CHR 0x00 \<in> set path then Err ''service config path is invalid'' else Ok ())"

fun argument_position :: "string list \<Rightarrow> string \<Rightarrow> nat option" where
  "argument_position [] name = None"
| "argument_position (a # as) name = (if a = name then Some 0 else map_option Suc (argument_position as name))"

definition argument_value :: "path_lib \<Rightarrow> string list \<Rightarrow> string \<Rightarrow> (string, string) result" where
  "argument_value lib arguments name =
     (case argument_position arguments name of
        None \<Rightarrow> Err (''missing required argument: '' @ name)
      | Some position \<Rightarrow>
          if position + 1 \<ge> length arguments then Err (''missing value for argument: '' @ name)
          else (let v = arguments ! (position + 1) in
                if pl_is_utf8 lib v \<and> trim v \<noteq> [] then Ok v else Err (''invalid value for argument: '' @ name)))"

definition has_extension :: "path_lib \<Rightarrow> string \<Rightarrow> string \<Rightarrow> bool" where
  "has_extension lib path extension =
     (case pl_extension lib path of
        None \<Rightarrow> False
      | Some e \<Rightarrow> pl_is_utf8 lib e \<and> ascii_lower e = ascii_lower extension)"

definition outside_root :: "path_lib \<Rightarrow> (string \<Rightarrow> bool) \<Rightarrow> hw_config \<Rightarrow> string \<Rightarrow> bool" where
  "outside_root lib is_dir c path \<longleftrightarrow> 
     is_dir path \<or> (case pl_parent lib path of None \<Rightarrow> True | Some p \<Rightarrow> \<not> pl_same lib p (hc_staging_root c))"

definition validate_config :: "path_lib \<Rightarrow> (string \<Rightarrow> bool) \<Rightarrow> hw_config \<Rightarrow> (unit, string) result" where
  "validate_config lib is_dir c =
     and_then (validate_service_name (hc_service_name c)) (\<lambda>_.
       if \<not> has_extension lib (hc_collector c) ''ps1'' then Err ''collector must be a PowerShell script''
       else if hc_image c \<noteq> hc_image_alias c then Err ''image alias does not match image''
       else if hc_context c \<noteq> ''LocalSystem'' then Err ''hardware service context must be LocalSystem''
       else if \<not> pl_is_absolute lib (hc_pwsh_path c) \<or> \<not> has_extension lib (hc_pwsh_path c) ''exe''
         then Err ''PowerShell host must be an absolute executable path''
       else if \<not> pl_is_absolute lib (hc_staging_root c)
         \<or> pl_same lib (hc_staging_root c) (case pl_parent lib (hc_staging_root c) of Some p \<Rightarrow> p | None \<Rightarrow> [])
         then Err ''protected staging root must be an absolute per-cell directory''
       else if outside_root lib is_dir c (hc_collector c)
         then Err ''collector must be a direct child of the protected staging root''
       else if outside_root lib is_dir c (hc_key_path c)
         then Err ''key must be a direct child of the protected staging root''
       else if \<not> is_output_file_path (pl_join lib (hc_staging_root c) ''output'') (hc_output_path c) \<or> is_dir (hc_output_path c)
         then Err ''output path must name a file in the protected output directory''
       else if \<not> (1 \<le> hc_repetition c \<and> hc_repetition c \<le> 3) then Err ''repetition must be between 1 and 3''
       else Ok ())"

section \<open>Ports\<close>

datatype service_status = StartPending | RunningStatus | StoppedStatus

datatype control_signal = StopRequested | TimedOut | Disconnected

record 'w hw_os =
  hw_paths :: "'w path_os"
  hw_lib :: path_lib
  hw_is_dir :: "'w \<Rightarrow> string \<Rightarrow> bool"
  hw_read :: "string \<Rightarrow> ('w, string, string) effect"
  hw_parse :: "string \<Rightarrow> (hw_config, string) result"
  hw_current_exe :: "('w, string, string) effect"
  hw_session_id :: "('w, string, u32) effect"
  hw_open_log :: "string \<Rightarrow> ('w, string, unit) effect"
  hw_spawn :: "string \<Rightarrow> string list \<Rightarrow> ('w, string, nat) effect"
  hw_register :: "string \<Rightarrow> ('w, string, unit) effect"
  hw_set_status :: "service_status \<Rightarrow> ('w, string, unit) effect"
  hw_try_wait :: "nat \<Rightarrow> ('w, string, (bool \<times> string) option) effect"
  hw_recv :: "'w \<Rightarrow> control_signal \<times> 'w"
  hw_kill_and_wait :: "nat \<Rightarrow> 'w \<Rightarrow> 'w"

definition close_retained :: "'w hw_os \<Rightarrow> retained_handle list \<Rightarrow> ('w, 'e, 'a) owning \<Rightarrow> ('w, 'e, 'a) owning" where
  "close_retained os rs m = closing (po_close (hw_paths os)) (List.map (\<lambda>r. Handle (rh_handle r)) rs) m"

section \<open>Loading\<close>

definition parsed_config :: "'w hw_os \<Rightarrow> string \<Rightarrow> string \<Rightarrow> ('w, string, hw_config) owning" where
  "parsed_config os staging_root path =
     bind_io (plain (prefixed ''failed to read service config: '' (hw_read os path))) (\<lambda>bytes.
     bind_io (prefixed ''failed to parse service config: '' (lift_text (hw_parse os bytes))) (\<lambda>c.
     bind_io (\<lambda>(w, l). (validate_config (hw_lib os) (hw_is_dir os w) c, (w, l))) (\<lambda>_.
     if \<not> pl_same (hw_lib os) (hc_staging_root c) staging_root
     then fail ''service config is not directly beneath its protected staging root'' else ret c)))"

definition load_config :: "'w hw_os \<Rightarrow> string \<Rightarrow> ('w, string, hw_config) owning" where
  "load_config os path =
     (case pl_parent (hw_lib os) path of
        None \<Rightarrow> fail ''service config has no protected parent directory''
      | Some staging_root \<Rightarrow>
          bind_io (inspect_path (hw_paths os) staging_root path ConfigFile) (\<lambda>config_handle.
            scoped (po_close (hw_paths os)) (Handle (rh_handle config_handle)) (parsed_config os staging_root path)))"

section \<open>Launching\<close>

record launch_bound =
  lb_collector :: retained_handle
  lb_key :: retained_handle
  lb_output_directory :: retained_handle
  lb_pwsh :: retained_handle
  lb_service_executable :: retained_handle
  lb_root :: retained_handle

definition output_file_name :: "path_lib \<Rightarrow> hw_config \<Rightarrow> string" where
  "output_file_name lib c = (case pl_file_name lib (hc_output_path c) of Some n \<Rightarrow> n | None \<Rightarrow> ''hardware-report.json'')"

definition not_an_output_file :: string where
  "not_an_output_file = ''output path must name a single file in the protected output directory''"

definition validate_output :: "path_lib \<Rightarrow> hw_config \<Rightarrow> retained_handle \<Rightarrow> (unit, string) result" where
  "validate_output lib c directory =
     (let name = output_file_name lib c in
      if \<not> is_output_file_path (rh_final_path directory) (pl_join lib (rh_final_path directory) name) then Err not_an_output_file
      else if pl_component_count lib name \<noteq> 1 \<or> name = ''.'' \<or> name = ''..'' then Err not_an_output_file
      else Ok ())"

definition validate_launch_inputs :: "'w hw_os \<Rightarrow> hw_config \<Rightarrow> ('w, string, launch_bound) owning" where
  "validate_launch_inputs os c =
     (let inspect = inspect_path (hw_paths os) (hc_staging_root c) in
      bind_io (inspect (hc_staging_root c) StagingRoot) (\<lambda>root.
      bind_io (close_retained os [root] (inspect (hc_collector c) Collector)) (\<lambda>collector.
      bind_io (close_retained os [collector, root] (inspect (hc_key_path c) Key)) (\<lambda>key.
      bind_io (close_retained os [key, collector, root]
         (inspect (pl_join (hw_lib os) (hc_staging_root c) ''output'') OutputDirectory)) (\<lambda>directory.
      bind_io (close_retained os [directory, key, collector, root] (lift_text (validate_output (hw_lib os) c directory))) (\<lambda>_.
      bind_io (close_retained os [directory, key, collector, root] (inspect (hc_pwsh_path c) PowerShellHost)) (\<lambda>pwsh.
      bind_io (close_retained os [pwsh, directory, key, collector, root]
         (bind_io (plain (prefixed ''failed to resolve service executable: '' (hw_current_exe os))) (\<lambda>exe.
            inspect exe ServiceExecutable))) (\<lambda>service_executable.
      ret \<lparr>lb_collector = collector, lb_key = key, lb_output_directory = directory, lb_pwsh = pwsh,
           lb_service_executable = service_executable, lb_root = root\<rparr>))))))))"

text \<open>The fields of the bound, in the order in which they are dropped.\<close>

definition bound_handles :: "launch_bound \<Rightarrow> retained_handle list" where
  "bound_handles b = [lb_collector b, lb_key b, lb_output_directory b, lb_pwsh b, lb_service_executable b, lb_root b]"

definition collector_arguments :: "path_lib \<Rightarrow> hw_config \<Rightarrow> launch_bound \<Rightarrow> u32 \<Rightarrow> string list" where
  "collector_arguments lib c b session_id =
     [''-NoLogo'', ''-NoProfile'', ''-NonInteractive'', ''-ExecutionPolicy'', ''Bypass'',
      ''-File'', rh_final_path (lb_collector b), ''-Image'', hc_image c, ''-ImageAlias'', hc_image_alias c,
      ''-Context'', hc_context c, ''-Repetition'', dec (hc_repetition c), ''-SessionId'', dec session_id,
      ''-HmacKeyPath'', rh_final_path (lb_key b),
      ''-OutputPath'', pl_join lib (rh_final_path (lb_output_directory b)) (output_file_name lib c)]"

text \<open>Every retained handle is in use when the collector is started.\<close>

fun using_all :: "resource list \<Rightarrow> ('w, 'e, 'a) effect \<Rightarrow> ('w, 'e, 'a) owning" where
  "using_all [] m = plain m"
| "using_all (r # rs) m = bind_io (using_it r (ret ())) (\<lambda>_. using_all rs m)"

definition spawn_collector :: "'w hw_os \<Rightarrow> hw_config \<Rightarrow> launch_bound \<Rightarrow> ('w, string, nat) owning" where
  "spawn_collector os c b =
     bind_io (plain (prefixed ''failed to query service session ID: '' (hw_session_id os))) (\<lambda>session_id.
     bind_io (plain (hw_open_log os (pl_join (hw_lib os) (hc_staging_root c) ''collector_stdout.log''))) (\<lambda>_.
     bind_io (plain (hw_open_log os (pl_join (hw_lib os) (hc_staging_root c) ''collector_stderr.log''))) (\<lambda>_.
     using_all (List.map (\<lambda>r. Handle (rh_handle r)) (bound_handles b))
       (prefixed ''failed to launch hardware collector: ''
         (hw_spawn os (rh_final_path (lb_pwsh b)) (collector_arguments (hw_lib os) c b session_id))))))"

section \<open>Running\<close>

partial_function (option) supervise :: "'w hw_os \<Rightarrow> nat \<Rightarrow> 'w \<Rightarrow> (((unit, string) result, string) result \<times> 'w) option" where
  "supervise os process w =
     (case hw_try_wait os process w of
        (Err e, w1) \<Rightarrow> Some (Err (''failed to query hardware collector: '' @ e), w1)
      | (Ok (Some (success, status)), w1) \<Rightarrow>
          Some (Ok (if success then Ok () else Err (''hardware collector exited with status '' @ status)), w1)
      | (Ok None, w1) \<Rightarrow>
          (case hw_recv os w1 of
             (StopRequested, w2) \<Rightarrow> Some (Ok (Err ''hardware collector stopped by SCM''), hw_kill_and_wait os process w2)
           | (TimedOut, w2) \<Rightarrow> supervise os process w2
           | (Disconnected, w2) \<Rightarrow>
               Some (Ok (Err ''hardware service control channel disconnected''), hw_kill_and_wait os process w2)))"

definition started :: "'w hw_os \<Rightarrow> string \<Rightarrow> hw_config \<Rightarrow> launch_bound \<Rightarrow> ('w, string, nat) owning" where
  "started os name c b =
     bind_io (plain (prefixed ''failed to register hardware service controls: '' (hw_register os name))) (\<lambda>_.
     bind_io (plain (prefixed ''failed to report service status: '' (hw_set_status os StartPending))) (\<lambda>_.
     bind_io (plain (prefixed ''failed to report service status: '' (hw_set_status os RunningStatus))) (\<lambda>_.
     spawn_collector os c b)))"

definition prologue :: "'w hw_os \<Rightarrow> string list \<Rightarrow> ('w, string, launch_bound \<times> nat) owning" where
  "prologue os arguments =
     bind_io (lift_text (argument_value (hw_lib os) arguments ''--service-name'')) (\<lambda>name.
     bind_io (lift_text (argument_value (hw_lib os) arguments ''--config'')) (\<lambda>config_path.
     bind_io (load_config os config_path) (\<lambda>c.
     if hc_service_name c \<noteq> name then fail ''service name does not match service configuration''
     else
     bind_io (validate_launch_inputs os c) (\<lambda>b.
     bind_io (close_retained os (bound_handles b) (started os name c b)) (\<lambda>process. ret (b, process))))))"

definition epilogue ::
  "'w hw_os \<Rightarrow> launch_bound \<Rightarrow> ((unit, string) result, string) result \<Rightarrow> 'w \<times> ledger \<Rightarrow> (unit, string) result \<times> 'w \<times> ledger" where
  "epilogue os b outcome s =
     (case bind_io (\<lambda>s. (outcome, s)) (\<lambda>service_result.
        bind_io (plain (prefixed ''failed to report service status: '' (hw_set_status os StoppedStatus))) (\<lambda>_.
          lift_text service_result)) s of
        (r, s1) \<Rightarrow> (r, fold (release (po_close (hw_paths os))) (List.map (\<lambda>r. Handle (rh_handle r)) (bound_handles b)) s1))"

definition run_service :: "'w hw_os \<Rightarrow> string list \<Rightarrow> 'w \<times> ledger \<Rightarrow> ((unit, string) result \<times> 'w \<times> ledger) option" where
  "run_service os arguments s =
     (case prologue os arguments s of
        (Err e, s1) \<Rightarrow> Some (Err e, s1)
      | (Ok (b, process), (w1, l1)) \<Rightarrow>
          (case supervise os process w1 of
             None \<Rightarrow> None
           | Some (outcome, w2) \<Rightarrow> Some (epilogue os b outcome (w2, l1))))"

section \<open>Ownership\<close>

definition handles_of :: "retained_handle list \<Rightarrow> resource multiset" where
  "handles_of rs = owned_list (List.map (\<lambda>r. Handle (rh_handle r)) rs)"

lemma handles_of_simps [simp]:
  "handles_of [] = {#}" "handles_of (r # rs) = owned (Handle (rh_handle r)) + handles_of rs"
  by (simp_all add: handles_of_def)

lemma manages_frame: "manages rs m Q E \<Longrightarrow> manages (rs + extra) m (\<lambda>x. Q x + extra) (E + extra)"
proof -
  assume m: "manages rs m Q E"
  have frame: "owns f (rs' + extra) = owns (f + extra) rs'" for f rs'
    by (simp add: owns_def ac_simps fun_eq_iff)
  show ?thesis
    using m unfolding manages_def frame by blast
qed

lemma bound_step:
  assumes "manages {#} m F {#}" "\<And>x. manages (F x + handles_of rs) (f x) Q {#}"
  shows "manages (handles_of rs) (bind_io (close_retained os rs m) f) Q {#}"
  unfolding close_retained_def
  using manages_frame [OF assms(1), of "handles_of rs"] assms(2)
  by (intro manages_bind [OF manages_closing]) (auto simp: handles_of_def)

lemma bound_inspection:
  assumes "\<And>x. manages (handles_of (x # rs)) (f x) Q {#}"
  shows "manages (handles_of rs) (bind_io (close_retained os rs (inspect_path paths root path purpose)) f) Q {#}"
  by (rule bound_step [OF manages_inspect]) (use assms in simp)

lemma bound_steady:
  assumes "steady {#} m" "\<And>x. manages (handles_of rs) (f x) Q {#}"
  shows "manages (handles_of rs) (bind_io (close_retained os rs m) f) Q {#}"
  by (rule bound_step [OF assms(1) [unfolded steady_def]]) (use assms(2) in simp)

lemma bound_executable:
  assumes "\<And>x. manages (handles_of (x # rs)) (f x) Q {#}"
  shows "manages (handles_of rs) (bind_io (close_retained os rs (bind_io (plain p) (\<lambda>exe. inspect_path paths root exe purpose))) f) Q {#}"
  by (rule bound_step [OF manages_bind [OF manages_plain manages_inspect]]) (use assms in simp)

lemma manages_launch: "manages {#} (validate_launch_inputs os c) (\<lambda>b. handles_of (bound_handles b)) {#}"
proof -
  have bound: "manages (handles_of [executable, pwsh, directory, key, collector, root])
     (ret \<lparr>lb_collector = collector, lb_key = key, lb_output_directory = directory, lb_pwsh = pwsh,
           lb_service_executable = executable, lb_root = root\<rparr>) (\<lambda>b. handles_of (bound_handles b)) {#}"
    for executable pwsh directory key collector root
    using manages_ret [of "\<lambda>b. handles_of (bound_handles b)"
        "\<lparr>lb_collector = collector, lb_key = key, lb_output_directory = directory, lb_pwsh = pwsh,
           lb_service_executable = executable, lb_root = root\<rparr>" "{#}"]
    by (simp add: bound_handles_def ac_simps)
  have first: "manages (handles_of [root]) m Q E \<Longrightarrow> manages (owned (Handle (rh_handle root))) m Q E"
    for root m Q E by simp
  show ?thesis
    unfolding validate_launch_inputs_def Let_def
    by (rule manages_bind [OF manages_inspect], rule first)
      (intro bound_inspection bound_steady bound_executable bound steadying)
qed

lemma steady_using_all: "owned_list rs \<subseteq># all \<Longrightarrow> steady all (using_all rs m)"
proof (induction rs)
  case (Cons r rs)
  then have "owned r \<subseteq># all" "owned_list rs \<subseteq># all"
    by (simp_all, meson mset_subset_eq_add_left mset_subset_eq_add_right subset_mset.order_trans)+
  then show ?case
    using Cons.IH by (simp, intro steadying)
qed (simp add: steadying)

lemma manages_started: "steady (handles_of (bound_handles b)) (started os name c b)"
  unfolding started_def spawn_collector_def
  by (intro steadying steady_using_all) (simp add: handles_of_def)

lemma steady_state: "steady rs (\<lambda>(w, l). (f w, (w, l)))"
  unfolding steady_def by (rule managesI) auto

lemma steady_load: "steady rs (load_config os path)"
proof -
  have parsed: "steady all (parsed_config os root path)" for all root
    unfolding parsed_config_def by (intro steadying steady_state)
  have "steady rs (bind_io (inspect_path (hw_paths os) root path ConfigFile) (\<lambda>h.
      scoped (po_close (hw_paths os)) (Handle (rh_handle h)) (parsed_config os root path)))" for root
    unfolding steady_def
    using manages_frame [OF manages_inspect, of rs "hw_paths os" root path ConfigFile]
      parsed [unfolded steady_def]
    by (intro manages_bind manages_scoped) auto
  then show ?thesis
    by (simp add: load_config_def steady_basic split: option.split)
qed

lemma manages_first: "steady rs m \<Longrightarrow> (\<And>x. manages rs (f x) Q rs) \<Longrightarrow> manages rs (bind_io m f) Q rs"
  unfolding steady_def by (rule manages_bind)

lemma manages_prologue: "manages {#} (prologue os arguments) (\<lambda>(b, _). handles_of (bound_handles b)) {#}"
proof -
  have launched: "manages {#} (bind_io (validate_launch_inputs os c) (\<lambda>b.
      bind_io (close_retained os (bound_handles b) (started os name c b)) (\<lambda>process. ret (b, process))))
      (\<lambda>(b, _). handles_of (bound_handles b)) {#}" for c name
    unfolding close_retained_def
    by (rule manages_bind [OF manages_launch], rule manages_step [OF manages_started])
      (use manages_ret [where Q = "\<lambda>(b, _). handles_of (bound_handles b)"] in \<open>fastforce simp: handles_of_def\<close>)+
  show ?thesis
    unfolding prologue_def
    by (intro manages_first steady_lift manages_if manages_fail launched steady_load)
qed

section \<open>The end of a run\<close>

text \<open>The world after some rounds in which the process was running and no control arrived.\<close>

fun idle_after :: "'w hw_os \<Rightarrow> nat \<Rightarrow> nat \<Rightarrow> 'w \<Rightarrow> 'w option" where
  "idle_after os process 0 w = Some w"
| "idle_after os process (Suc n) w =
     (case hw_try_wait os process w of
        (Ok None, w1) \<Rightarrow> (case hw_recv os w1 of (TimedOut, w2) \<Rightarrow> idle_after os process n w2 | _ \<Rightarrow> None)
      | _ \<Rightarrow> None)"

lemma supervise_ends:
  assumes "supervise os process w = Some y"
  shows "\<exists>n. idle_after os process n w = None"
proof (rule supervise.raw_induct [where P = "\<lambda>os process w y. \<exists>n. idle_after os process n w = None", OF _ assms])
  fix rec :: "'a hw_os \<Rightarrow> nat \<Rightarrow> 'a \<Rightarrow> (((unit, string) result, string) result \<times> 'a) option"
    and os :: "'a hw_os" and process w y
  assume 1: "\<And>os process w y. rec os process w = Some y \<Longrightarrow> \<exists>n. idle_after os process n w = None"
    "(case hw_try_wait os process w of
        (Err e, w1) \<Rightarrow> Some (Err (''failed to query hardware collector: '' @ e), w1)
      | (Ok (Some (success, status)), w1) \<Rightarrow>
          Some (Ok (if success then Ok () else Err (''hardware collector exited with status '' @ status)), w1)
      | (Ok None, w1) \<Rightarrow>
          (case hw_recv os w1 of
             (StopRequested, w2) \<Rightarrow> Some (Ok (Err ''hardware collector stopped by SCM''), hw_kill_and_wait os process w2)
           | (TimedOut, w2) \<Rightarrow> rec os process w2
           | (Disconnected, w2) \<Rightarrow>
               Some (Ok (Err ''hardware service control channel disconnected''), hw_kill_and_wait os process w2))) = Some y"
  show "\<exists>n. idle_after os process n w = None"
  proof (cases "idle_after os process 1 w")
    case (Some w2)
    then have "rec os process w2 = Some y"
      using 1(2) by (auto split: prod.splits result.splits option.splits control_signal.splits)
    then obtain n where "idle_after os process n w2 = None"
      using 1(1) by blast
    then have "idle_after os process (Suc n) w = None"
      using Some by (auto split: prod.splits result.splits option.splits control_signal.splits)
    then show ?thesis ..
  qed blast
qed

lemma supervise_idle: "idle_after os process n w = Some w' \<Longrightarrow> supervise os process w = supervise os process w'"
proof (induction n arbitrary: w)
  case (Suc n)
  then show ?case
    by (subst supervise.simps) (auto split: prod.splits result.splits option.splits control_signal.splits)
qed simp

lemma supervise_returns: "idle_after os process n w = None \<Longrightarrow> supervise os process w \<noteq> None"
proof (induction n arbitrary: w)
  case (Suc n)
  then show ?case
    by (subst supervise.simps) (auto split: prod.splits result.splits option.splits control_signal.splits)
qed simp

lemma supervise_None: "supervise os process w = None \<longleftrightarrow> (\<forall>n. idle_after os process n w \<noteq> None)"
  using supervise_ends supervise_returns by (metis not_Some_eq)

lemma epilogue_owns:
  assumes "owns {#} (handles_of (bound_handles b)) s" "epilogue os b outcome s = (r, s')"
  shows "owns {#} {#} s'"
proof -
  let ?m = "bind_io (\<lambda>s. (outcome, s)) (\<lambda>service_result.
      bind_io (plain (prefixed ''failed to report service status: '' (hw_set_status os StoppedStatus))) (\<lambda>_. lift_text service_result))"
  obtain s1 where run: "?m s = (r, s1)"
      "s' = fold (release (po_close (hw_paths os))) (List.map (\<lambda>r. Handle (rh_handle r)) (bound_handles b)) s1"
    using assms(2) by (auto simp: epilogue_def split: prod.splits)
  have "steady (handles_of (bound_handles b)) (\<lambda>s. (outcome, s))"
    unfolding steady_def by (rule managesI) auto
  then have "steady (handles_of (bound_handles b)) ?m"
    by (intro steadying)
  from steadyD [OF this assms(1) run(1)] show ?thesis
    unfolding run(2) by (intro releases_owned) (simp add: handles_of_def)
qed

text \<open>
  C37: A run of the hardware service releases everything it opened: the handle of the configuration and
  the six handles of the launch, each exactly once, none used after it, whatever the manager, the
  process, the file system and the security of the paths answer; and all six are owned while the
  collector is started.  The run fails to return only if the process never ends and no control ever
  arrives.
\<close>

theorem hardware_run_releases_all:
  "case run_service os arguments (w, empty_ledger) of
     Some (r, (w', l)) \<Rightarrow> lg_owned l = {#} \<and> \<not> lg_misused l
   | None \<Rightarrow> \<exists>b process w1 l1. prologue os arguments (w, empty_ledger) = (Ok (b, process), (w1, l1))
       \<and> (\<forall>n. idle_after os process n w1 \<noteq> None)"
proof -
  obtain r w1 l1 where p: "prologue os arguments (w, empty_ledger) = (r, (w1, l1))"
    by (metis prod.exhaust)
  have start: "owns {#} {#} (w, empty_ledger)"
    by (simp add: owns_def empty_ledger_def)
  show ?thesis
  proof (cases r)
    case (Err e)
    then show ?thesis
      using managesD(2) [OF manages_prologue start, of os arguments e "(w1, l1)"] p by (simp add: run_service_def owns_def)
  next
    case (Ok x)
    obtain b process where x: "x = (b, process)" by (cases x)
    have bound: "owns {#} (handles_of (bound_handles b)) (w1, l1)"
      using managesD(1) [OF manages_prologue start, of os arguments x "(w1, l1)"] p Ok x by simp
    show ?thesis
    proof (cases "supervise os process w1")
      case None
      then show ?thesis
        using p Ok x by (simp add: run_service_def) (simp add: supervise_None)
    next
      case (Some y)
      obtain outcome w2 where y: "y = (outcome, w2)" by (cases y)
      obtain r' w3 l3 where e: "epilogue os b outcome (w2, l1) = (r', (w3, l3))"
        by (metis prod.exhaust)
      have "owns {#} (handles_of (bound_handles b)) (w2, l1)"
        using bound by (simp add: owns_def)
      from epilogue_owns [OF this e] show ?thesis
        using p Ok x Some y e by (simp add: run_service_def owns_def)
    qed
  qed
qed

section \<open>What is launched\<close>

lemma plain_Ok: "plain m (w, l) = (Ok x, s') \<longleftrightarrow> (\<exists>w'. m w = (Ok x, w') \<and> s' = (w', l))"
  by (auto simp: plain_def split: prod.splits)

lemma close_retained_Ok [simp]: "close_retained os rs m s = (Ok x, s') \<longleftrightarrow> m s = (Ok x, s')"
  by (simp add: close_retained_def)

lemma launch_accepted:
  assumes "validate_launch_inputs os c s = (Ok b, s')"
  shows "accepted_path (hw_paths os) (hc_staging_root c) (hc_staging_root c) StagingRoot (lb_root b)
    \<and> accepted_path (hw_paths os) (hc_staging_root c) (hc_collector c) Collector (lb_collector b)
    \<and> accepted_path (hw_paths os) (hc_staging_root c) (hc_key_path c) Key (lb_key b)
    \<and> accepted_path (hw_paths os) (hc_staging_root c) (pl_join (hw_lib os) (hc_staging_root c) ''output'') OutputDirectory
        (lb_output_directory b)
    \<and> accepted_path (hw_paths os) (hc_staging_root c) (hc_pwsh_path c) PowerShellHost (lb_pwsh b)
    \<and> (\<exists>w exe w'. hw_current_exe os w = (Ok exe, w')
          \<and> accepted_path (hw_paths os) (hc_staging_root c) exe ServiceExecutable (lb_service_executable b))
    \<and> validate_output (hw_lib os) c (lb_output_directory b) = Ok ()"
  using assms unfolding validate_launch_inputs_def Let_def bind_io_eq_Ok close_retained_Ok ret_apply
  by (clarsimp simp: plain_Ok) (blast intro: inspect_accepts)

text \<open>
  A launch that the policy allows.  The configuration is the parsed content of an accepted file, and
  its staging root the directory of this file; the root, the script, the key, the output directory, the
  host and the service's own executable are accepted paths for their purposes; and what is started
  are just the final paths of the handles that were kept: this host, with this script, this key and
  a file directly in this output directory.
\<close>

definition protected_launch :: "'w hw_os \<Rightarrow> string list \<Rightarrow> string \<Rightarrow> string list \<Rightarrow> bool" where
  "protected_launch os arguments program args \<longleftrightarrow>
     (\<exists>path parent config_file c root collector key output host executable.
        argument_value (hw_lib os) arguments ''--config'' = Ok path \<and> pl_parent (hw_lib os) path = Some parent
        \<and> accepted_path (hw_paths os) parent path ConfigFile config_file
        \<and> (\<exists>w bytes w'. hw_read os path w = (Ok bytes, w') \<and> hw_parse os bytes = Ok c)
        \<and> pl_same (hw_lib os) (hc_staging_root c) parent
        \<and> accepted_path (hw_paths os) (hc_staging_root c) (hc_staging_root c) StagingRoot root
        \<and> accepted_path (hw_paths os) (hc_staging_root c) (hc_collector c) Collector collector
        \<and> accepted_path (hw_paths os) (hc_staging_root c) (hc_key_path c) Key key
        \<and> accepted_path (hw_paths os) (hc_staging_root c) (pl_join (hw_lib os) (hc_staging_root c) ''output'') OutputDirectory output
        \<and> accepted_path (hw_paths os) (hc_staging_root c) (hc_pwsh_path c) PowerShellHost host
        \<and> (\<exists>w exe w'. hw_current_exe os w = (Ok exe, w')
              \<and> accepted_path (hw_paths os) (hc_staging_root c) exe ServiceExecutable executable)
        \<and> program = rh_final_path host \<and> length args = 21
        \<and> args ! 5 = ''-File'' \<and> args ! 6 = rh_final_path collector
        \<and> args ! 17 = ''-HmacKeyPath'' \<and> args ! 18 = rh_final_path key
        \<and> args ! 19 = ''-OutputPath'' \<and> is_output_file_path (rh_final_path output) (args ! 20))"

text \<open>The same service with a check before the collector is started.\<close>

definition rechecked :: "'w hw_os \<Rightarrow> string list \<Rightarrow> 'w hw_os" where
  "rechecked os arguments = os\<lparr>hw_spawn := (\<lambda>program args.
     if protected_launch os arguments program args then hw_spawn os program args else fail ''unprotected launch'')\<rparr>"

lemma rechecked_fields [simp]:
  "hw_paths (rechecked os arguments) = hw_paths os" "hw_lib (rechecked os arguments) = hw_lib os"
  "hw_is_dir (rechecked os arguments) = hw_is_dir os" "hw_read (rechecked os arguments) = hw_read os"
  "hw_parse (rechecked os arguments) = hw_parse os" "hw_current_exe (rechecked os arguments) = hw_current_exe os"
  "hw_session_id (rechecked os arguments) = hw_session_id os" "hw_open_log (rechecked os arguments) = hw_open_log os"
  "hw_register (rechecked os arguments) = hw_register os" "hw_set_status (rechecked os arguments) = hw_set_status os"
  "hw_try_wait (rechecked os arguments) = hw_try_wait os" "hw_recv (rechecked os arguments) = hw_recv os"
  "hw_kill_and_wait (rechecked os arguments) = hw_kill_and_wait os"
  by (simp_all add: rechecked_def)

lemma load_rechecked: "load_config (rechecked os arguments) path = load_config os path"
  by (simp add: load_config_def parsed_config_def cong: option.case_cong)

lemma launch_rechecked: "validate_launch_inputs (rechecked os arguments) c = validate_launch_inputs os c"
  by (simp add: validate_launch_inputs_def close_retained_def)

lemma load_config_Ok:
  assumes "load_config os path s = (Ok c, s')"
  shows "\<exists>parent config_file. pl_parent (hw_lib os) path = Some parent \<and> pl_same (hw_lib os) (hc_staging_root c) parent
    \<and> accepted_path (hw_paths os) parent path ConfigFile config_file
    \<and> (\<exists>w bytes w'. hw_read os path w = (Ok bytes, w') \<and> hw_parse os bytes = Ok c)"
proof -
  obtain parent config_file s1 s2 where loaded: "pl_parent (hw_lib os) path = Some parent"
    "inspect_path (hw_paths os) parent path ConfigFile s = (Ok config_file, s1)" "parsed_config os parent path s1 = (Ok c, s2)"
    using assms by (auto simp: load_config_def bind_io_eq_Ok scoped_eq_Ok split: option.splits)
  have "pl_same (hw_lib os) (hc_staging_root c) parent \<and> (\<exists>w bytes w'. hw_read os path w = (Ok bytes, w') \<and> hw_parse os bytes = Ok c)"
    using loaded(3) by (cases s1) (auto simp: parsed_config_def bind_io_eq_Ok plain_Ok split: if_splits)
  then show ?thesis
    using loaded(1) inspect_accepts [OF loaded(2)] by blast
qed

lemma launch_protected:
  assumes "argument_value (hw_lib os) arguments ''--config'' = Ok path" "load_config os path s = (Ok c, s1)"
    and "validate_launch_inputs os c s2 = (Ok b, s3)"
  shows "protected_launch os arguments (rh_final_path (lb_pwsh b)) (collector_arguments (hw_lib os) c b session_id)"
proof -
  have inside: "is_output_file_path (rh_final_path (lb_output_directory b))
      (pl_join (hw_lib os) (rh_final_path (lb_output_directory b)) (output_file_name (hw_lib os) c))"
    using launch_accepted [OF assms(3)] by (auto simp: validate_output_def Let_def split: if_splits)
  let ?args = "collector_arguments (hw_lib os) c b session_id"
  have args: "length ?args = 21" "?args ! 5 = ''-File''" "?args ! 6 = rh_final_path (lb_collector b)"
    "?args ! 17 = ''-HmacKeyPath''" "?args ! 18 = rh_final_path (lb_key b)" "?args ! 19 = ''-OutputPath''"
    "is_output_file_path (rh_final_path (lb_output_directory b)) (?args ! 20)"
    using inside by (simp_all add: collector_arguments_def)
  show ?thesis
    unfolding protected_launch_def
    using load_config_Ok [OF assms(2)] launch_accepted [OF assms(3)] assms(1) args by blast
qed

lemma started_rechecked:
  "(\<And>session_id. protected_launch os arguments (rh_final_path (lb_pwsh b)) (collector_arguments (hw_lib os) c b session_id))
   \<Longrightarrow> started (rechecked os arguments) name c b = started os name c b"
  by (simp add: started_def spawn_collector_def rechecked_def)

lemma bind_cong: "(\<And>x s1. m s = (Ok x, s1) \<Longrightarrow> f x s1 = g x s1) \<Longrightarrow> bind_io m f s = bind_io m g s"
  by (auto simp: bind_io_def split: prod.splits result.splits)

lemma prologue_rechecked: "prologue (rechecked os arguments) arguments s = prologue os arguments s"
proof -
  have started: "bind_io (close_retained (rechecked os arguments) (bound_handles b) (started (rechecked os arguments) name c b)) f
      = bind_io (close_retained os (bound_handles b) (started os name c b)) f"
    if "argument_value (hw_lib os) arguments ''--config'' = Ok path" "load_config os path s = (Ok c, s1)"
      "validate_launch_inputs os c s2 = (Ok b, s3)" for name path c b s s1 s2 s3 and f :: "nat \<Rightarrow> ('a, string, launch_bound \<times> nat) owning"
    using launch_protected [OF that] by (simp add: started_rechecked close_retained_def)
  show ?thesis
    unfolding prologue_def load_rechecked launch_rechecked rechecked_fields
    by (intro bind_cong) (auto simp: lift_text_def intro!: bind_cong simp: started)
qed

lemma idle_rechecked: "idle_after (rechecked os arguments) process n w = idle_after os process n w"
  by (induction n arbitrary: w) (auto split: prod.split result.split option.split control_signal.split)

lemma supervise_same:
  assumes "supervise os process w = Some y"
  shows "supervise (rechecked os arguments) process w = Some y"
proof -
  have "\<forall>arguments. supervise (rechecked os arguments) process w = Some y"
  proof (rule supervise.raw_induct
      [where P = "\<lambda>os process w y. \<forall>arguments. supervise (rechecked os arguments) process w = Some y", OF _ assms])
    fix rec :: "'a hw_os \<Rightarrow> nat \<Rightarrow> 'a \<Rightarrow> (((unit, string) result, string) result \<times> 'a) option"
      and os :: "'a hw_os" and process w y
    assume "\<And>os process w y. rec os process w = Some y \<Longrightarrow> \<forall>arguments. supervise (rechecked os arguments) process w = Some y"
      "(case hw_try_wait os process w of
        (Err e, w1) \<Rightarrow> Some (Err (''failed to query hardware collector: '' @ e), w1)
      | (Ok (Some (success, status)), w1) \<Rightarrow>
          Some (Ok (if success then Ok () else Err (''hardware collector exited with status '' @ status)), w1)
      | (Ok None, w1) \<Rightarrow>
          (case hw_recv os w1 of
             (StopRequested, w2) \<Rightarrow> Some (Ok (Err ''hardware collector stopped by SCM''), hw_kill_and_wait os process w2)
           | (TimedOut, w2) \<Rightarrow> rec os process w2
           | (Disconnected, w2) \<Rightarrow>
               Some (Ok (Err ''hardware service control channel disconnected''), hw_kill_and_wait os process w2))) = Some y"
    then show "\<forall>arguments. supervise (rechecked os arguments) process w = Some y"
      by (subst supervise.simps) (auto split: prod.splits result.splits option.splits control_signal.splits)
  qed
  then show ?thesis ..
qed

lemma supervise_rechecked: "supervise (rechecked os arguments) process w = supervise os process w"
proof (cases "supervise os process w")
  case None
  then have "supervise (rechecked os arguments) process w = None"
    by (simp add: supervise_None idle_rechecked)
  with None show ?thesis by simp
qed (simp add: supervise_same)

lemma epilogue_rechecked: "epilogue (rechecked os arguments) = epilogue os"
  by (intro ext) (simp add: epilogue_def)

text \<open>
  C36: No collector is ever started that the policy would not allow: the service behaves as the
  same service with a check immediately before the start, which would refuse the start unless the
  host, the script, the key and the output are the final paths of handles that were opened component by
  component with no reparse point on the way, with a trusted owner and, but for the host itself, no write access for
  others, nor on any component below the staging root that leads there, and unless the configuration, the
  staging root and the service's own executable are accepted in the same way.
\<close>

theorem launches_are_protected:
  "run_service (rechecked os arguments) arguments s = run_service os arguments s"
  unfolding run_service_def prologue_rechecked supervise_rechecked epilogue_rechecked by (rule refl)

end
