(* ===== verification/ServiceProcess.thy ===== *)
theory ServiceProcess
  imports OwnerProperties Identity Logging Fsm Contracts
begin

text \<open>
  \<open>spotter-svc/src/service.rs\<close>, \<open>run_service\<close> and what it calls: the start of the service process, its
  reports to the Service Control Manager and its end.  The milestones are the texts that the code logs
  at its information level as it passes them.  Files, ACLs, the mutex, the Service Control Manager
  and the tokio runtime are ports; the other theories model the code behind them.
\<close>

section \<open>Arguments\<close>

definition runtime_options :: "(string \<Rightarrow> bool) \<Rightarrow> string list \<Rightarrow> (runtime_options, string) result" where
  "runtime_options utf8 arguments =
     (if \<not> list_all utf8 arguments then Err ''service launch argument is not valid UTF-8''
      else
        (case from_arguments
            (case arguments of [] \<Rightarrow> [] | a # rest \<Rightarrow> if starts_with ''--'' a then arguments else rest) of
           Err e \<Rightarrow> Err (''invalid service runtime arguments: '' @ e)
         | Ok runtime \<Rightarrow> Ok runtime))"

definition runtime_options_for_service_process ::
  "(string \<Rightarrow> bool) \<Rightarrow> string list \<Rightarrow> string list \<Rightarrow> (runtime_options, string) result" where
  "runtime_options_for_service_process utf8 process_arguments callback_arguments =
     and_then (runtime_options utf8 process_arguments) (\<lambda>runtime.
       case callback_arguments of
         [] \<Rightarrow> Ok runtime
       | name # _ \<Rightarrow>
           if utf8 name \<and> \<not> starts_with ''--'' name \<and> name \<noteq> service_name runtime
           then Err (''service callback name '' @ name @ '' does not match registered service '' @ service_name runtime)
           else Ok runtime)"

section \<open>Controls and status\<close>

datatype scm_state =
    ScmStopped | ScmStartPending | ScmStopPending | ScmRunning | ScmContinuePending | ScmPausePending | ScmPaused

datatype service_control = Interrogate | StopControl | OtherControl

datatype control_result = NoError | NotImplemented

text \<open>
  The control handler, over the channel of one place to the main loop: whether a stop waits in it, and
  whether its receiver is still there.  A stop that cannot be sent is ignored.
\<close>

record stop_channel =
  sc_pending :: bool
  sc_open :: bool

definition control_handler :: "service_control \<Rightarrow> stop_channel \<Rightarrow> control_result \<times> stop_channel" where
  "control_handler control c =
     (case control of
        Interrogate \<Rightarrow> (NoError, c)
      | StopControl \<Rightarrow> (NoError, if sc_open c \<and> \<not> sc_pending c then c\<lparr>sc_pending := True\<rparr> else c)
      | OtherControl \<Rightarrow> (NotImplemented, c))"

definition service_controls_for :: "scm_state \<Rightarrow> service_control list" where
  "service_controls_for st = (if st = ScmRunning then [StopControl] else [])"

record status_report =
  sr_state :: scm_state
  sr_controls :: "service_control list"
  sr_exit_code :: u32
  sr_checkpoint :: u32
  sr_wait_seconds :: nat

definition status_report :: "scm_state \<Rightarrow> u32 \<Rightarrow> nat \<Rightarrow> status_report" where
  "status_report st checkpoint wait_hint =
     \<lparr>sr_state = st, sr_controls = service_controls_for st, sr_exit_code = 0, sr_checkpoint = checkpoint,
      sr_wait_seconds = wait_hint\<rparr>"

section \<open>Ports\<close>

text \<open>An entry of the log directory: its name, and whether it is a file, if that can be read.\<close>

record dir_artifact =
  da_name :: string
  da_is_file :: "(bool, string) result"

datatype pipe_join = Joined "(unit, failure) result" | JoinCancelled | JoinFailed string

text \<open>
  \<open>sp_exists\<close> is \<open>fs::metadata\<close> and \<open>sp_read_dir\<close> is \<open>fs::read_dir\<close>, with an object that is not found as a
  value; \<open>sp_listen\<close> is the listener for the stop, and \<open>sp_drain\<close> the request to the pipe server to end
  and the wait for it.
\<close>

record ('w, 'r) process_ports =
  sp_utf8 :: "string \<Rightarrow> bool"
  sp_join :: "string \<Rightarrow> string \<Rightarrow> string"
  sp_process_id :: u32
  sp_lock :: "string \<Rightarrow> ('w, unit) io"
  sp_unlock :: "'w \<Rightarrow> 'w"
  sp_acl :: "string \<Rightarrow> ('w, unit) io"
  sp_exists :: "string \<Rightarrow> ('w, string, bool) effect"
  sp_read_dir :: "string \<Rightarrow> ('w, string, (dir_artifact, string) result list option) effect"
  sp_recover_temporaries :: "string \<Rightarrow> u32 \<Rightarrow> nat \<Rightarrow> ('w, unit) io"
  sp_load_settings :: "string \<Rightarrow> ('w, settings) io"
  sp_logging :: "'w log_ports"
  sp_engine :: "string \<Rightarrow> 'w engine_env"
  sp_key :: "string \<Rightarrow> ('w, u8 list) io"
  sp_load_state :: "string \<Rightarrow> u8 list \<Rightarrow> ('w, service_state) io"
  sp_register :: "string \<Rightarrow> ('w, string, unit) effect"
  sp_report :: "status_report \<Rightarrow> ('w, string, unit) effect"
  sp_runtime :: "('w, string, unit) effect"
  sp_owner :: "string \<Rightarrow> u8 list \<Rightarrow> ('w, 'r) owner_ports"
  sp_unavailable :: 'r
  sp_listen :: "('w, string, (unit, string) result) effect"
  sp_drain :: "'r owner \<Rightarrow> fsm \<Rightarrow> 'w \<Rightarrow> pipe_join \<times> 'w"

text \<open>What the process has passed and reported so far.\<close>

record process_log =
  pl_milestones :: "string list"
  pl_reports :: "status_report list"
  pl_locked :: bool

definition empty_log :: process_log where
  "empty_log = \<lparr>pl_milestones = [], pl_reports = [], pl_locked = False\<rparr>"

type_synonym ('w, 'a) process = "('w \<times> process_log, 'a) io"

definition within :: "('w, 'a) io \<Rightarrow> ('w, 'a) process" where
  "within m = (\<lambda>(w, l). case m w of (r, w') \<Rightarrow> (r, (w', l)))"

definition milestone :: "string \<Rightarrow> ('w, unit) process" where
  "milestone t = (\<lambda>(w, l). (Ok (), (w, l\<lparr>pl_milestones := pl_milestones l @ [t]\<rparr>)))"

definition set_status :: "('w, 'r) process_ports \<Rightarrow> scm_state \<Rightarrow> u32 \<Rightarrow> nat \<Rightarrow> ('w, unit) process" where
  "set_status ports st checkpoint wait_hint =
     (let report = status_report st checkpoint wait_hint in
      bind_io (within (in_context ''failed to report service status'' (sp_report ports report))) (\<lambda>_ (w, l).
        (Ok (), (w, l\<lparr>pl_reports := pl_reports l @ [report]\<rparr>))))"

text \<open>The mutex is held from its acquisition to the end of the scope, however it ends.\<close>

definition holding_mutex :: "('w, 'r) process_ports \<Rightarrow> string \<Rightarrow> ('w, 'a) process \<Rightarrow> ('w, 'a) process" where
  "holding_mutex ports name m =
     (\<lambda>(w, l). case sp_lock ports name w of
        (Err e, w1) \<Rightarrow> (Err (Context ''another SnipeSpotter service instance is already running'' e), (w1, l))
      | (Ok _, w1) \<Rightarrow>
          (case m (w1, l\<lparr>pl_locked := True\<rparr>) of (r, (w2, l2)) \<Rightarrow> (r, (sp_unlock ports w2, l2\<lparr>pl_locked := False\<rparr>))))"

section \<open>Protection of the files\<close>

definition apply_acl_if_present :: "('w, 'r) process_ports \<Rightarrow> string \<Rightarrow> ('w, unit) io" where
  "apply_acl_if_present ports path =
     bind_io (in_context (''failed to inspect runtime artifact '' @ path) (sp_exists ports path)) (\<lambda>found.
       if found then wrapped (''failed to apply protected data ACL to '' @ path) (sp_acl ports path) else ret ())"

definition artifact_names :: "string list" where
  "artifact_names = [''settings.toml'', ''state.toml'', ''state-hmac-key.bin'', ''operations.jsonl'', ''logs'']"

definition protect_log :: "('w, 'r) process_ports \<Rightarrow> string \<Rightarrow> (dir_artifact, string) result \<Rightarrow> ('w, unit) io" where
  "protect_log ports logs_dir entry =
     (case entry of
        Err e \<Rightarrow> fail (Context (''failed to inspect runtime log directory '' @ logs_dir) (Message e))
      | Ok a \<Rightarrow>
          let path = sp_join ports logs_dir (da_name a) in
          (case da_is_file a of
             Err e \<Rightarrow> fail (Context (''failed to inspect runtime artifact '' @ path) (Message e))
           | Ok is_file \<Rightarrow>
               if is_file \<and> starts_with SERVICE_LOG_PREFIX (da_name a) then apply_acl_if_present ports path else ret ()))"

definition apply_runtime_acl_contract :: "('w, 'r) process_ports \<Rightarrow> string \<Rightarrow> ('w, unit) io" where
  "apply_runtime_acl_contract ports root =
     bind_io (each_io (\<lambda>name. apply_acl_if_present ports (sp_join ports root name)) artifact_names) (\<lambda>_.
       let logs_dir = sp_join ports root ''logs'' in
       bind_io (in_context (''failed to inspect runtime log directory '' @ logs_dir) (sp_read_dir ports logs_dir)) (\<lambda>listing.
         case listing of None \<Rightarrow> ret () | Some listed \<Rightarrow> each_io (protect_log ports logs_dir) listed))"

section \<open>The run\<close>

text \<open>From the acquired mutex to the loaded files.\<close>

definition load_files :: "('w, 'r) process_ports \<Rightarrow> string \<Rightarrow> ('w, settings \<times> u8 list \<times> service_state) process" where
  "load_files ports root =
     bind_io (milestone ''using data directory'') (\<lambda>_.
     bind_io (within (wrapped ''failed to apply protected data ACL'' (sp_acl ports root))) (\<lambda>_.
     bind_io (within (apply_runtime_acl_contract ports root)) (\<lambda>_.
     bind_io (within (sp_recover_temporaries ports root (sp_process_id ports) 300)) (\<lambda>_.
     bind_io (within (sp_load_settings ports (sp_join ports root ''settings.toml''))) (\<lambda>s.
     bind_io (milestone ''settings loaded'') (\<lambda>_.
     bind_io (within (initialize (sp_logging ports) (sp_join ports root ''logs'') (s_logging s))) (\<lambda>_.
     bind_io (within (apply_runtime_acl_contract ports root)) (\<lambda>_.
     bind_io (milestone ''logging initialized'') (\<lambda>_.
     bind_io (within (admit_journal_for_startup (sp_engine ports (sp_join ports root ''operations.jsonl'')))) (\<lambda>_.
     bind_io (within (sp_key ports (sp_join ports root ''state-hmac-key.bin''))) (\<lambda>key.
     bind_io (milestone ''state key loaded'') (\<lambda>_.
     bind_io (within (sp_load_state ports (sp_join ports root ''state.toml'') key)) (\<lambda>persisted.
     bind_io (milestone ''persisted state loaded'') (\<lambda>_. ret (s, key, persisted)))))))))))))))"

text \<open>From the registered controls to the owner and its command loop.\<close>

definition prepare_owner ::
  "('w, 'r) process_ports \<Rightarrow> runtime_options \<Rightarrow> settings \<Rightarrow> u8 list \<Rightarrow> service_state \<Rightarrow> ('w, 'r owner \<times> fsm) process" where
  "prepare_owner ports runtime s key persisted =
     bind_io (within (in_context ''failed to register service control handler''
       (sp_register ports (service_name runtime)))) (\<lambda>_.
     bind_io (milestone ''controls registered'') (\<lambda>_.
     bind_io (set_status ports ScmStartPending 1 10) (\<lambda>_.
     bind_io (milestone ''StartPending reported'') (\<lambda>_.
     bind_io (within (in_context ''failed to create service runtime'' (sp_runtime ports))) (\<lambda>_.
     bind_io (milestone ''runtime created'') (\<lambda>_.
     bind_io (milestone ''runtime entered'') (\<lambda>_.
     bind_io (within (start_owner (sp_owner ports (data_root runtime) key) s persisted (sp_unavailable ports))) (\<lambda>ow.
       case spawn 32 of
         None \<Rightarrow> fail (Message ''FSM channel capacity must be nonzero'')
       | Some loop \<Rightarrow> bind_io (milestone ''FSM spawned'') (\<lambda>_. ret (ow, loop))))))))))"

text \<open>The main loop: the stop, and then the drain of the pipe server.\<close>

definition serve :: "('w, 'r) process_ports \<Rightarrow> 'r owner \<Rightarrow> fsm \<Rightarrow> ('w, unit) io" where
  "serve ports ow loop =
     bind_io (in_context ''shutdown listener task failed'' (sp_listen ports)) (\<lambda>stop.
       case stop of
         Err e \<Rightarrow> fail (Context ''service shutdown channel disconnected'' (Message e))
       | Ok _ \<Rightarrow>
           (\<lambda>w. case sp_drain ports ow loop w of
              (JoinCancelled, w') \<Rightarrow> (Ok (), w')
            | (JoinFailed e, w') \<Rightarrow> (Err (Context ''IPC server task failed'' (Message e)), w')
            | (Joined r, w') \<Rightarrow> (r, w')))"

definition run_instance :: "('w, 'r) process_ports \<Rightarrow> runtime_options \<Rightarrow> ('w, unit) process" where
  "run_instance ports runtime =
     bind_io (milestone ''acquired global mutex'') (\<lambda>_.
     bind_io (load_files ports (data_root runtime)) (\<lambda>(s, key, persisted).
     bind_io (prepare_owner ports runtime s key persisted) (\<lambda>(ow, loop).
     bind_io (set_status ports ScmRunning 0 0) (\<lambda>_.
     bind_io (milestone ''Running reported; entering main loop'') (\<lambda>_.
     bind_io (within (serve ports ow loop)) (\<lambda>_.
     set_status ports ScmStopped 0 0))))))"

definition run_service :: "('w, 'r) process_ports \<Rightarrow> string list \<Rightarrow> string list \<Rightarrow> ('w, unit) process" where
  "run_service ports process_arguments callback_arguments =
     bind_io (lift_io (runtime_options_for_service_process (sp_utf8 ports) process_arguments callback_arguments)) (\<lambda>runtime.
     bind_io (milestone ''SnipeSpotter service starting'') (\<lambda>_.
     holding_mutex ports (mutex_name runtime) (run_instance ports runtime)))"

text \<open>The callback of the dispatcher ends the process with code 1 on an error: it has no other result.\<close>

definition service_main ::
  "('w, 'r) process_ports \<Rightarrow> string list \<Rightarrow> string list \<Rightarrow> 'w \<times> process_log \<Rightarrow> nat option \<times> ('w \<times> process_log)" where
  "service_main ports process_arguments callback_arguments s =
     (case run_service ports process_arguments callback_arguments s of (Ok _, s') \<Rightarrow> (None, s') | (Err _, s') \<Rightarrow> (Some 1, s'))"

section \<open>Milestones\<close>

definition all_milestones :: "string list" where
  "all_milestones =
     [''SnipeSpotter service starting'', ''acquired global mutex'', ''using data directory'', ''settings loaded'',
      ''logging initialized'', ''state key loaded'', ''persisted state loaded'', ''controls registered'',
      ''StartPending reported'', ''runtime created'', ''runtime entered'', ''FSM spawned'',
      ''Running reported; entering main loop'']"

definition all_reports :: "status_report list" where
  "all_reports = [status_report ScmStartPending 1 10, status_report ScmRunning 0 0, status_report ScmStopped 0 0]"

text \<open>The log after so many milestones and reports.\<close>

definition at :: "nat \<Rightarrow> nat \<Rightarrow> bool \<Rightarrow> 'w \<times> process_log \<Rightarrow> bool" where
  "at n reports locked s \<longleftrightarrow>
     pl_milestones (snd s) = take n all_milestones \<and> pl_reports (snd s) = take reports all_reports \<and> pl_locked (snd s) = locked"

text \<open>What an unfinished run has reported after so many milestones; a run that ends with \<open>k\<close> of them at most.\<close>

definition reported_by :: "nat \<Rightarrow> nat" where
  "reported_by n = (if n < 9 then 0 else if n < 13 then 1 else 2)"

definition unfinished :: "nat \<Rightarrow> 'w \<times> process_log \<Rightarrow> bool" where
  "unfinished k s \<longleftrightarrow> (\<exists>n \<le> k. at n (reported_by n) True s)"

lemma at_unfinished: "at n (reported_by n) True s \<Longrightarrow> n \<le> k \<Longrightarrow> unfinished k s"
  unfolding unfinished_def by blast

definition advances :: "nat \<Rightarrow> nat \<Rightarrow> nat \<Rightarrow> ('w, 'a) process \<Rightarrow> ('w \<times> process_log \<Rightarrow> bool) \<Rightarrow> bool" where
  "advances k n i m Q \<longleftrightarrow> contract (at n i True) m (\<lambda>_. Q) (\<lambda>_. unfinished k)"

lemma advances_bind: "advances k n i m (at n' i' True) \<Longrightarrow> (\<And>x. advances k n' i' (f x) Q) \<Longrightarrow> advances k n i (bind_io m f) Q"
  unfolding advances_def by (rule contract_bind)

lemma advances_stuck: "advances k n i m (\<lambda>_. False) \<Longrightarrow> advances k n i (bind_io m f) Q"
  unfolding advances_def by (rule contract_bind) (auto simp: contract_def)

lemma advances_pair: "(\<And>a b. advances k n i (f a b) Q) \<Longrightarrow> advances k n i (case p of (a, b) \<Rightarrow> f a b) Q"
  by (cases p) simp

lemma advances_ret: "n = n' \<Longrightarrow> advances k n i (ret x) (at n' i True)"
  by (simp add: advances_def contract_def)

lemma advances_within: "i = reported_by n \<Longrightarrow> n \<le> k \<Longrightarrow> advances k n i (within m) (at n i True)"
  by (auto simp: advances_def contract_def within_def at_def intro!: at_unfinished [of n] split: prod.splits)

lemma advances_fails:
  "i = reported_by n \<Longrightarrow> n \<le> k \<Longrightarrow> (\<And>w. fst (m w) \<noteq> Ok ()) \<Longrightarrow> advances k n i (within m) (\<lambda>_. False)"
  by (auto simp: advances_def contract_def within_def at_def intro!: at_unfinished [of n] split: prod.splits) (metis fst_conv)

lemma advances_milestone: "n < length all_milestones \<Longrightarrow> all_milestones ! n = t \<Longrightarrow> advances k n i (milestone t) (at (Suc n) i True)"
  by (auto simp: advances_def contract_def milestone_def at_def take_Suc_conv_app_nth)

lemma report_lengths: "length all_reports = 3" "length all_milestones = 13"
  by (simp_all add: all_reports_def all_milestones_def)

lemma advances_report:
  assumes "i = reported_by n" "n \<le> k" "i < 3" "all_reports ! i = status_report st checkpoint wait_hint" "n = n'" "Suc i = i'"
  shows "advances k n i (set_status ports st checkpoint wait_hint) (at n' i' True)"
proof -
  have "take (Suc i) all_reports = take i all_reports @ [status_report st checkpoint wait_hint]"
    using assms(3,4) take_Suc_conv_app_nth [of i all_reports] by (simp add: report_lengths)
  then show ?thesis
    using assms(1,2,5,6) unfolding set_status_def Let_def
    by (intro advances_bind [OF advances_within]) (auto simp: advances_def contract_def at_def split: prod.splits)
qed

text \<open>The same, for the steps of a chain.\<close>

lemma then_milestone:
  "n < 13 \<Longrightarrow> all_milestones ! n = t \<Longrightarrow> (\<And>x. advances k (Suc n) i (f x) Q) \<Longrightarrow> advances k n i (bind_io (milestone t) f) Q"
  by (rule advances_bind [OF advances_milestone]) (simp_all add: report_lengths)

lemma then_within:
  "i = reported_by n \<Longrightarrow> n \<le> k \<Longrightarrow> (\<And>x. advances k n i (f x) Q) \<Longrightarrow> advances k n i (bind_io (within m) f) Q"
  by (rule advances_bind [OF advances_within])

lemma then_report:
  assumes "i = reported_by n" "n \<le> k" "i < 3" "all_reports ! i = status_report st checkpoint wait_hint"
    "\<And>x. advances k n (Suc i) (f x) Q"
  shows "advances k n i (bind_io (set_status ports st checkpoint wait_hint) f) Q"
  by (rule advances_bind [OF advances_report]) (use assms in simp_all)

lemma advances_load: "advances 13 (Suc 1) 0 (load_files ports root) (at 7 0 True)"
  unfolding load_files_def
  by (intro then_milestone then_within advances_ret) (simp_all add: reported_by_def all_milestones_def)

lemma advances_owner: "advances 13 7 0 (prepare_owner ports runtime s key persisted) (at 12 1 True)"
  unfolding prepare_owner_def spawn_def
  by (simp, intro then_milestone then_within then_report advances_ret)
    (simp_all add: reported_by_def all_reports_def all_milestones_def)

lemma advances_run: "advances 13 1 0 (run_instance ports runtime) (at 13 3 True)"
proof -
  have served: "advances 13 12 1 (bind_io (set_status ports ScmRunning 0 0) (\<lambda>_.
      bind_io (milestone ''Running reported; entering main loop'') (\<lambda>_.
      bind_io (within (serve ports ow loop)) (\<lambda>_. set_status ports ScmStopped 0 0)))) (at 13 3 True)" for ow loop
    by (intro then_milestone then_within then_report advances_report)
      (simp_all add: reported_by_def all_reports_def all_milestones_def)
  show ?thesis
    unfolding run_instance_def
    by (intro then_milestone advances_pair served advances_bind [OF advances_load] advances_bind [OF advances_owner])
      (simp_all add: all_milestones_def)
qed

text \<open>A journal that is not admitted stops the run before the key is read.\<close>

definition never_clean :: "('w, 'r) process_ports \<Rightarrow> bool" where
  "never_clean ports \<longleftrightarrow> (\<forall>path w rs. fst (env_recover (sp_engine ports path) w) \<noteq> Ok (Clean rs))"

lemma never_admitted: "never_clean ports \<Longrightarrow> fst (admit_journal_for_startup (sp_engine ports path) w) \<noteq> Ok ()"
  by (auto simp: never_clean_def admit_journal_for_startup_def bind_io_def split: prod.splits result.splits recovery_outcome.splits)
    (metis fst_conv)

lemma then_refused:
  "never_clean ports \<Longrightarrow> i = reported_by n \<Longrightarrow> n \<le> k \<Longrightarrow>
   advances k n i (bind_io (within (admit_journal_for_startup (sp_engine ports path))) f) Q"
  by (rule advances_stuck, rule advances_fails) (simp_all add: never_admitted)

lemma blocked_run:
  assumes "never_clean ports"
  shows "advances 5 1 0 (run_instance ports runtime) (\<lambda>_. False)"
proof -
  have "advances 5 (Suc 1) 0 (load_files ports root) (\<lambda>_. False)" for root
    unfolding load_files_def
    by (intro then_refused [OF assms] then_milestone then_within) (simp_all add: reported_by_def all_milestones_def)
  then show ?thesis
    unfolding run_instance_def
    by (intro then_milestone advances_stuck) (simp_all add: all_milestones_def)
qed

text \<open>How a run ends, from what the run of the instance establishes.\<close>

lemma runs_in_stages:
  assumes run: "run_service ports process_arguments callback_arguments (w, empty_log) = (r, (w', l))"
    and instance_run: "\<And>runtime. advances k 1 0 (run_instance ports runtime) Q" and k: "1 \<le> k"
  shows "(r = Ok () \<and> (\<exists>w2 l2. Q (w2, l2) \<and> l = l2\<lparr>pl_locked := False\<rparr>))
    \<or> (r \<noteq> Ok () \<and> (\<exists>n \<le> k. at n (reported_by n) False (w', l)))"
proof -
  have early: ?thesis if "r \<noteq> Ok ()" "n \<le> 1" "at n 0 False (w', l)" for n
    using that k by (intro disjI2 conjI exI [of _ n]) (auto simp: reported_by_def)
  show ?thesis
  proof (cases "runtime_options_for_service_process (sp_utf8 ports) process_arguments callback_arguments")
    case (Err e)
    then show ?thesis
      using run by (intro early [of 0]) (auto simp: run_service_def bind_io_def at_def empty_log_def)
  next
    case (Ok runtime)
    define l1 where "l1 = empty_log\<lparr>pl_milestones := [''SnipeSpotter service starting'']\<rparr>"
    have l1: "at 1 0 b (w1, l1\<lparr>pl_locked := b\<rparr>)" for w1 :: 'a and b
      by (simp add: l1_def at_def empty_log_def all_milestones_def)
    have held: "holding_mutex ports (mutex_name runtime) (run_instance ports runtime) (w, l1) = (r, (w', l))"
      using run Ok by (simp add: run_service_def bind_io_def milestone_def l1_def empty_log_def)
    show ?thesis
    proof (cases "sp_lock ports (mutex_name runtime) w")
      case (Pair locked w1)
      show ?thesis
      proof (cases locked)
        case (Err e)
        then show ?thesis
          using held Pair l1 [of False w'] by (intro early [of 1]) (auto simp: holding_mutex_def l1_def empty_log_def)
      next
        case (Ok u)
        obtain r2 w2 l2 where m: "run_instance ports runtime (w1, l1\<lparr>pl_locked := True\<rparr>) = (r2, (w2, l2))"
          by (metis prod.exhaust)
        have ends: "r2 = r" "w' = sp_unlock ports w2" "l = l2\<lparr>pl_locked := False\<rparr>"
          using held Pair Ok m by (auto simp: holding_mutex_def)
        have "if r = Ok () then Q (w2, l2) else unfinished k (w2, l2)"
          using instance_run [of runtime, unfolded advances_def] l1 [of True w1] m ends(1)
          by (cases r) (auto dest: contract_Ok contract_Err)
        then show ?thesis
          using ends by (auto simp: unfinished_def at_def split: if_splits)
      qed
    qed
  qed
qed

section \<open>What a reported status rests on\<close>

text \<open>
  The calls that a start makes, each in the world that the one before it left: the protection of one
  artifact, and of some in order; that of the fixed artifacts and then of the service's own log files
  among the entries of the log directory, all of which can be inspected.
\<close>

definition artifact_protected :: "('w, 'r) process_ports \<Rightarrow> string \<Rightarrow> 'w \<Rightarrow> 'w \<Rightarrow> bool" where
  "artifact_protected ports path w w' \<longleftrightarrow>
     sp_exists ports path w = (Ok False, w')
     \<or> (\<exists>w1. sp_exists ports path w = (Ok True, w1) \<and> sp_acl ports path w1 = (Ok (), w'))"

fun all_protected :: "('w, 'r) process_ports \<Rightarrow> string list \<Rightarrow> 'w \<Rightarrow> 'w \<Rightarrow> bool" where
  "all_protected ports [] w w' \<longleftrightarrow> w' = w"
| "all_protected ports (p # ps) w w' \<longleftrightarrow> (\<exists>w1. artifact_protected ports p w w1 \<and> all_protected ports ps w1 w')"

definition own_logs :: "('w, 'r) process_ports \<Rightarrow> string \<Rightarrow> (dir_artifact, string) result list \<Rightarrow> string list" where
  "own_logs ports logs listed =
     [sp_join ports logs (da_name a). Ok a \<leftarrow> listed, da_is_file a = Ok True \<and> prefix SERVICE_LOG_PREFIX (da_name a)]"

definition logs_protected ::
  "('w, 'r) process_ports \<Rightarrow> string \<Rightarrow> (dir_artifact, string) result list option \<Rightarrow> 'w \<Rightarrow> 'w \<Rightarrow> bool" where
  "logs_protected ports logs listing w w' \<longleftrightarrow>
     (case listing of
        None \<Rightarrow> w' = w
      | Some listed \<Rightarrow> list_all (\<lambda>entry. \<exists>a is_file. entry = Ok a \<and> da_is_file a = Ok is_file) listed
          \<and> all_protected ports (own_logs ports logs listed) w w')"

definition runtime_protected :: "('w, 'r) process_ports \<Rightarrow> string \<Rightarrow> 'w \<Rightarrow> 'w \<Rightarrow> bool" where
  "runtime_protected ports root w w' \<longleftrightarrow>
     (let logs = sp_join ports root ''logs'' in
      \<exists>w1 w2 listing.
        all_protected ports
          [sp_join ports root ''settings.toml'', sp_join ports root ''state.toml'', sp_join ports root ''state-hmac-key.bin'',
           sp_join ports root ''operations.jsonl'', logs] w w1
        \<and> sp_read_dir ports logs w1 = (Ok listing, w2)
        \<and> logs_protected ports logs listing w2 w')"

text \<open>From the lock to the loaded state; from there to StartPending; from there to the started owner.\<close>

definition files_ready ::
  "('w, 'r) process_ports \<Rightarrow> string \<Rightarrow> 'w \<Rightarrow> settings \<Rightarrow> u8 list \<Rightarrow> service_state \<Rightarrow> 'w \<Rightarrow> bool" where
  "files_ready ports root w s key persisted w' \<longleftrightarrow>
     (\<exists>w1 w2 w3 w4 w5 w6 w7 w8 records.
        sp_acl ports root w = (Ok (), w1)
      \<and> runtime_protected ports root w1 w2
      \<and> sp_recover_temporaries ports root (sp_process_id ports) 300 w2 = (Ok (), w3)
      \<and> sp_load_settings ports (sp_join ports root ''settings.toml'') w3 = (Ok s, w4)
      \<and> initialize (sp_logging ports) (sp_join ports root ''logs'') (s_logging s) w4 = (Ok (), w5)
      \<and> runtime_protected ports root w5 w6
      \<and> env_recover (sp_engine ports (sp_join ports root ''operations.jsonl'')) w6 = (Ok (Clean records), w7)
      \<and> sp_key ports (sp_join ports root ''state-hmac-key.bin'') w7 = (Ok key, w8)
      \<and> sp_load_state ports (sp_join ports root ''state.toml'') key w8 = (Ok persisted, w'))"

definition pending_ready :: "('w, 'r) process_ports \<Rightarrow> runtime_options \<Rightarrow> 'w \<Rightarrow> 'w \<Rightarrow> bool" where
  "pending_ready ports runtime w w' \<longleftrightarrow>
     (\<exists>w1. sp_register ports (service_name runtime) w = (Ok (), w1)
         \<and> sp_report ports (status_report ScmStartPending 1 10) w1 = (Ok (), w'))"

definition owner_ready ::
  "('w, 'r) process_ports \<Rightarrow> runtime_options \<Rightarrow> settings \<Rightarrow> u8 list \<Rightarrow> service_state \<Rightarrow> 'w \<Rightarrow> 'r owner \<Rightarrow> 'w \<Rightarrow> bool" where
  "owner_ready ports runtime s key persisted w ow w' \<longleftrightarrow>
     (\<exists>w1. sp_runtime ports w = (Ok (), w1)
         \<and> start_owner (sp_owner ports (data_root runtime) key) s persisted (sp_unavailable ports) w1 = (Ok ow, w'))"

text \<open>The same of the whole start, behind the mutex, in the world that the mutex left.\<close>

definition start_pending_earned :: "('w, 'r) process_ports \<Rightarrow> runtime_options \<Rightarrow> 'w \<Rightarrow> bool" where
  "start_pending_earned ports runtime w \<longleftrightarrow>
     (\<exists>w1 w2 s key persisted. files_ready ports (data_root runtime) w s key persisted w1 \<and> pending_ready ports runtime w1 w2)"

definition running_earned :: "('w, 'r) process_ports \<Rightarrow> runtime_options \<Rightarrow> 'w \<Rightarrow> bool" where
  "running_earned ports runtime w \<longleftrightarrow>
     (\<exists>w1 w2 w3 w4 s key persisted ow.
        files_ready ports (data_root runtime) w s key persisted w1
      \<and> pending_ready ports runtime w1 w2
      \<and> owner_ready ports runtime s key persisted w2 ow w3
      \<and> sp_report ports (status_report ScmRunning 0 0) w3 = (Ok (), w4))"


lemma in_context_Ok [simp]: "in_context why m w = (Ok x, w') \<longleftrightarrow> m w = (Ok x, w')"
  by (auto simp: in_context_def explained_def split: prod.splits result.splits)

lemma in_context_Err [simp]: "in_context why m w = (Err e, w') \<longleftrightarrow> (\<exists>e'. m w = (Err e', w') \<and> e = Context why (Message e'))"
  by (auto simp: in_context_def explained_def split: prod.splits result.splits)

lemma wrapped_Ok [simp]: "wrapped why m w = (Ok x, w') \<longleftrightarrow> m w = (Ok x, w')"
  by (auto simp: wrapped_def explained_def split: prod.splits result.splits)

lemma within_Ok [simp]: "within m (w, l) = (Ok x, s) \<longleftrightarrow> (\<exists>w'. m w = (Ok x, w') \<and> s = (w', l))"
  by (auto simp: within_def split: prod.splits)

lemma milestone_Ok [simp]:
  "milestone t (w, l) = (Ok x, s) \<longleftrightarrow> s = (w, l\<lparr>pl_milestones := pl_milestones l @ [t]\<rparr>)"
  by (auto simp: milestone_def)

lemma artifact_protected_Ok: "apply_acl_if_present ports path w = (Ok u, w') \<longleftrightarrow> artifact_protected ports path w w'"
  by (auto simp: apply_acl_if_present_def artifact_protected_def bind_io_eq_Ok split: if_splits)

lemma all_protected_Ok:
  "each_io (\<lambda>x. apply_acl_if_present ports (f x)) xs w = (Ok u, w') \<longleftrightarrow> all_protected ports (List.map f xs) w w'"
  by (induction xs arbitrary: w) (auto simp: bind_io_eq_Ok artifact_protected_Ok)

lemma all_protected_append:
  "all_protected ports (ps @ qs) w w' \<longleftrightarrow> (\<exists>w1. all_protected ports ps w w1 \<and> all_protected ports qs w1 w')"
  by (induction ps arbitrary: w) auto

lemma own_logs_Cons: "own_logs ports logs (entry # listed) = own_logs ports logs [entry] @ own_logs ports logs listed"
  by (simp add: own_logs_def split: result.split)

lemma log_protected_Ok:
  "protect_log ports logs entry w = (Ok u, w') \<longleftrightarrow>
     (\<exists>a is_file. entry = Ok a \<and> da_is_file a = Ok is_file) \<and> all_protected ports (own_logs ports logs [entry]) w w'"
proof (cases entry)
  case (Ok a)
  then show ?thesis
    by (cases "da_is_file a") (auto simp: protect_log_def own_logs_def Let_def starts_with_iff prefix_def artifact_protected_Ok)
qed (simp add: protect_log_def)

lemma listed_protected_Ok:
  "each_io (protect_log ports logs) listed w = (Ok u, w') \<longleftrightarrow>
     list_all (\<lambda>entry. \<exists>a is_file. entry = Ok a \<and> da_is_file a = Ok is_file) listed
     \<and> all_protected ports (own_logs ports logs listed) w w'"
proof (induction listed arbitrary: w)
  case (Cons entry listed)
  show ?case
    unfolding own_logs_Cons [of ports logs entry listed] all_protected_append each_io.simps bind_io_eq_Ok Cons.IH log_protected_Ok list.pred_inject
    by blast
qed (auto simp: own_logs_def)

lemma logs_protected_Ok:
  "(case listing of None \<Rightarrow> ret () | Some listed \<Rightarrow> each_io (protect_log ports logs) listed) w = (Ok u, w') \<longleftrightarrow>
     logs_protected ports logs listing w w'"
  by (auto simp: logs_protected_def listed_protected_Ok split: option.split)

lemma runtime_protected_Ok: "apply_runtime_acl_contract ports root w = (Ok u, w') \<longleftrightarrow> runtime_protected ports root w w'"
  by (simp add: apply_runtime_acl_contract_def runtime_protected_def bind_io_eq_Ok Let_def artifact_names_def
      all_protected_Ok logs_protected_Ok del: all_protected.simps each_io.simps) blast

lemma admitted_Ok:
  "admit_journal_for_startup env w = (Ok u, w') \<longleftrightarrow> (\<exists>records. env_recover env w = (Ok (Clean records), w'))"
  by (auto simp: admit_journal_for_startup_def bind_io_def split: prod.split result.split recovery_outcome.split)

lemma files_ready_Ok:
  "(\<exists>l'. load_files ports root (w, l) = (Ok (s, key, persisted), (w', l'))) \<longleftrightarrow> files_ready ports root w s key persisted w'"
  unfolding load_files_def files_ready_def by (simp add: bind_io_eq_Ok runtime_protected_Ok admitted_Ok) blast

lemma set_status_Ok:
  "set_status ports st checkpoint wait_hint (w, l) = (Ok u, (w', l'))
   \<longleftrightarrow> sp_report ports (status_report st checkpoint wait_hint) w = (Ok (), w')
      \<and> l' = l\<lparr>pl_reports := pl_reports l @ [status_report st checkpoint wait_hint]\<rparr>"
  by (auto simp: set_status_def bind_io_eq_Ok Let_def)

lemma owner_ready_Ok:
  "(\<exists>l'. prepare_owner ports runtime s key persisted (w, l) = (Ok (ow, loop), (w', l')))
   \<longleftrightarrow> (\<exists>w1. pending_ready ports runtime w w1 \<and> owner_ready ports runtime s key persisted w1 ow w') \<and> spawn 32 = Some loop"
  unfolding prepare_owner_def pending_ready_def owner_ready_def
  by (simp add: bind_io_eq_Ok set_status_Ok spawn_def) blast

lemma noted_milestone: "bind_io (milestone t) f (w, l) = f () (w, l\<lparr>pl_milestones := pl_milestones l @ [t]\<rparr>)"
  by (simp add: milestone_def bind_io_def)

text \<open>The reports that a stage adds, and those that a run has made.\<close>

definition reports_are :: "status_report list \<Rightarrow> 'w \<times> process_log \<Rightarrow> bool" where
  "reports_are reports s \<longleftrightarrow> pl_reports (snd s) = reports"

lemma keeps_reports [keeping]:
  "keeps (reports_are reports) (within m)" "keeps (reports_are reports) (milestone t)"
  by (auto simp: keeps_def reports_are_def within_def milestone_def split: prod.splits)

lemma bind_stops:
  assumes "bind_io m f s = (r, s')"
  obtains (failed) e where "m s = (Err e, s')" "r = Err e" | (went_on) x s1 where "m s = (Ok x, s1)" "f x s1 = (r, s')"
  using assms by (auto simp: bind_io_def split: prod.splits result.splits)

lemma unreported: "keeps (reports_are (pl_reports l)) m \<Longrightarrow> m (w, l) = (r, (w', l')) \<Longrightarrow> pl_reports l' = pl_reports l"
  using keepsD [of "reports_are (pl_reports l)" m "(w, l)" r "(w', l')"] by (simp add: reports_are_def)

lemma load_reports: "load_files ports root (w, l) = (r, (w', l')) \<Longrightarrow> pl_reports l' = pl_reports l"
  by (erule unreported [rotated]) (unfold load_files_def, intro keeping)

lemma set_status_stops:
  assumes "bind_io (set_status ports st checkpoint wait_hint) f (w, l) = (r, (w', l'))"
  obtains (failed) e where "\<And>w1. sp_report ports (status_report st checkpoint wait_hint) w \<noteq> (Ok (), w1)" "r = Err e"
      "pl_reports l' = pl_reports l"
    | (went_on) w1 l1 where "sp_report ports (status_report st checkpoint wait_hint) w = (Ok (), w1)"
      "pl_reports l1 = pl_reports l @ [status_report st checkpoint wait_hint]" "f () (w1, l1) = (r, (w', l'))"
  using assms
proof (cases rule: bind_stops)
  case (failed e)
  have "pl_reports l' = pl_reports l"
    using failed(1) by (auto simp: set_status_def bind_io_def within_def Let_def split: prod.splits result.splits)
  moreover have "sp_report ports (status_report st checkpoint wait_hint) w \<noteq> (Ok (), w1)" for w1
    using failed(1) set_status_Ok [of ports st checkpoint wait_hint w l "()" w1] by auto
  ultimately show ?thesis
    using failed(2) that(1) by simp
next
  case (went_on u s1)
  then show ?thesis
    by (cases s1) (rule that(2), auto simp: set_status_Ok)
qed

lemma prepare_reports:
  assumes "prepare_owner ports runtime s key persisted (w, l) = (r, (w', l'))"
  shows "pl_reports l' = pl_reports l
     @ (if \<exists>w1. pending_ready ports runtime w w1 then [status_report ScmStartPending 1 10] else [])"
  using assms unfolding prepare_owner_def
proof (cases rule: bind_stops)
  case (failed e)
  then have "pl_reports l' = pl_reports l" "\<And>w1. sp_register ports (service_name runtime) w \<noteq> (Ok (), w1)"
    by (auto simp: within_def split: prod.splits)
  then show ?thesis
    by (simp add: pending_ready_def)
next
  case (went_on u s1)
  note after = went_on(2)
  obtain w1 where registered: "sp_register ports (service_name runtime) w = (Ok (), w1)" "s1 = (w1, l)"
    using went_on(1) by auto
  have pending: "(\<exists>w2. pending_ready ports runtime w w2)
      \<longleftrightarrow> (\<exists>w2. sp_report ports (status_report ScmStartPending 1 10) w1 = (Ok (), w2))"
    using registered(1) by (simp add: pending_ready_def)
  show ?thesis
    using after unfolding registered(2) noted_milestone
  proof (cases rule: set_status_stops)
    case failed
    then show ?thesis
      unfolding pending by simp
  next
    case (went_on w2 l2)
    have "pl_reports l' = pl_reports l2"
      using went_on(3) by (elim unreported [where w = w2 and l = l2 and w' = w' and l' = l' and r = r, rotated]) (intro keeping)
    then show ?thesis
      unfolding pending using went_on by auto
  qed
qed

lemma run_reports:
  assumes "run_instance ports runtime (w, l) = (r, (w', l'))"
  shows "pl_reports l' = pl_reports l
     @ (if start_pending_earned ports runtime w then [status_report ScmStartPending 1 10] else [])
     @ (if running_earned ports runtime w then [status_report ScmRunning 0 0] else [])
     @ (if r = Ok () then [status_report ScmStopped 0 0] else [])"
proof -
  let ?l = "l\<lparr>pl_milestones := pl_milestones l @ [''acquired global mutex'']\<rparr>"
  from assms show ?thesis
    unfolding run_instance_def noted_milestone
  proof (cases rule: bind_stops)
    case (failed e)
    then have "\<not> files_ready ports (data_root runtime) w s key persisted w1" for s key persisted w1
      using files_ready_Ok [of ports "data_root runtime" w ?l s key persisted w1] by simp
    then show ?thesis
      using load_reports [OF failed(1)] failed(2) by (simp add: start_pending_earned_def running_earned_def)
  next
    case (went_on x s1)
    obtain s key persisted w1 l1 where split: "x = (s, key, persisted)" "s1 = (w1, l1)"
      by (metis prod.exhaust)
    have files: "files_ready ports (data_root runtime) w s' key' persisted' w2
        \<longleftrightarrow> s' = s \<and> key' = key \<and> persisted' = persisted \<and> w2 = w1" for s' key' persisted' w2
      using went_on(1) unfolding split files_ready_Ok [of _ _ _ ?l, symmetric] by auto
    have l1: "pl_reports l1 = pl_reports l"
      using load_reports went_on(1) unfolding split by fastforce
    have pending: "start_pending_earned ports runtime w \<longleftrightarrow> (\<exists>w2. pending_ready ports runtime w1 w2)"
      by (auto simp: start_pending_earned_def files)
    from went_on(2) show ?thesis
      unfolding split prod.case
    proof (cases rule: bind_stops)
      case (failed e)
      then have "\<not> running_earned ports runtime w"
        using owner_ready_Ok [of ports runtime s key persisted w1 l1]
        by (fastforce simp: running_earned_def files spawn_def)
      then show ?thesis
        using prepare_reports [OF failed(1)] failed(2) l1 by (simp add: pending)
    next
      case (went_on x s2)
      obtain ow loop w2 l2 where split: "x = (ow, loop)" "s2 = (w2, l2)"
        by (metis prod.exhaust)
      have ready: "\<exists>w3. pending_ready ports runtime w1 w3 \<and> owner_ready ports runtime s key persisted w3 ow w2"
        using went_on(1) owner_ready_Ok [of ports runtime s key persisted w1 l1] unfolding split by blast
      have same: "ow' = ow \<and> w3 = w2"
        if "pending_ready ports runtime w1 w4" "owner_ready ports runtime s key persisted w4 ow' w3" for ow' w3 w4
        using that ready by (auto simp: pending_ready_def owner_ready_def)
      have l2: "pl_reports l2 = pl_reports l @ [status_report ScmStartPending 1 10]"
        using prepare_reports went_on(1) ready l1 unfolding split by fastforce
      have running: "running_earned ports runtime w \<longleftrightarrow> (\<exists>w3. sp_report ports (status_report ScmRunning 0 0) w2 = (Ok (), w3))"
        using ready same by (auto simp: running_earned_def files)
      from went_on(2) show ?thesis
        unfolding split prod.case
      proof (cases rule: set_status_stops)
        case failed
        then show ?thesis
          using l2 ready by (auto simp: pending running)
      next
        case (went_on w3 l3)
        from went_on(3) have "pl_reports l' = pl_reports l3 @ (if r = Ok () then [status_report ScmStopped 0 0] else [])"
          unfolding noted_milestone
        proof (cases rule: bind_stops)
          case (failed e)
          then show ?thesis
            by (auto simp: within_def split: prod.splits)
        next
          case (went_on u s4)
          then show ?thesis
            by (cases r) (auto simp: set_status_Ok set_status_def Let_def bind_io_def within_def split: prod.splits result.splits)
        qed
        then show ?thesis
          using l2 ready went_on by (auto simp: pending running)
      qed
    qed
  qed
qed

text \<open>
  C35: What a run of the service reports to the Service Control Manager is exactly what its calls have
  earned.  StartPending is reported if and only if, behind the acquired mutex and each in the world
  that the one before it left, these calls succeeded: the ACL of the data directory, that of each
  artifact that is there and of the service's own logs, the recovery of temporary files, the settings,
  the log, the ACLs again, the recovery of the journal with a clean outcome, the key, the state under
  this key, the registration of the controls, and the report itself.  Running is reported if and only
  if the runtime and the owner were started after these, with the settings, the key and the state that
  were loaded, and the report succeeded; Stopped if and only if the run ends without an error.  The
  milestones in the log are a prefix of the start-up order, only Running accepts a stop, and once
  the mutex is acquired the last thing that is done to the world is its release, however the run ends.
\<close>

theorem running_is_gated:
  "case run_service ports process_arguments callback_arguments (w, empty_log) of (r, (w', l)) \<Rightarrow>
     prefix (pl_milestones l) all_milestones
     \<and> list_all (\<lambda>report. sr_controls report = (if sr_state report = ScmRunning then [StopControl] else [])) (pl_reports l)
     \<and> (case runtime_options_for_service_process (sp_utf8 ports) process_arguments callback_arguments of
          Err _ \<Rightarrow> r \<noteq> Ok () \<and> pl_reports l = [] \<and> w' = w
        | Ok runtime \<Rightarrow>
            (case sp_lock ports (mutex_name runtime) w of
               (Err _, w1) \<Rightarrow> r \<noteq> Ok () \<and> pl_reports l = [] \<and> w' = w1
             | (Ok _, w1) \<Rightarrow>
                 pl_reports l =
                   (if start_pending_earned ports runtime w1 then [status_report ScmStartPending 1 10] else [])
                   @ (if running_earned ports runtime w1 then [status_report ScmRunning 0 0] else [])
                   @ (if r = Ok () then [status_report ScmStopped 0 0] else [])
                 \<and> (\<exists>l1 l2 w2. run_instance ports runtime (w1, l1) = (r, (w2, l2)) \<and> w' = sp_unlock ports w2)))"
proof -
  obtain r w' l where run: "run_service ports process_arguments callback_arguments (w, empty_log) = (r, (w', l))"
    by (metis prod.exhaust)
  consider (finished) "at 13 3 False (w', l)" | (failed) n where "at n (reported_by n) False (w', l)"
    using runs_in_stages [OF run advances_run] by (auto simp: at_def)
  then obtain n i where log: "pl_milestones l = take n all_milestones" "pl_reports l = take i all_reports"
    by cases (auto simp: at_def)
  have controls: "list_all (\<lambda>report. sr_controls report = (if sr_state report = ScmRunning then [StopControl] else [])) (take i all_reports)"
    by (auto simp: list_all_iff all_reports_def status_report_def service_controls_for_def dest!: in_set_takeD)
  show ?thesis
  proof (cases "runtime_options_for_service_process (sp_utf8 ports) process_arguments callback_arguments")
    case (Err e)
    then show ?thesis
      using run by (auto simp: run_service_def bind_io_def empty_log_def)
  next
    case (Ok runtime)
    define l1 where "l1 = empty_log\<lparr>pl_milestones := [''SnipeSpotter service starting'']\<rparr>"
    have held: "holding_mutex ports (mutex_name runtime) (run_instance ports runtime) (w, l1) = (r, (w', l))"
      using run Ok by (simp add: run_service_def bind_io_def milestone_def l1_def empty_log_def)
    obtain locked w1 where lock: "sp_lock ports (mutex_name runtime) w = (locked, w1)"
      by (metis prod.exhaust)
    show ?thesis
    proof (cases locked)
      case (Err e)
      then show ?thesis
        using run held lock Ok log(1) by (auto simp: holding_mutex_def l1_def empty_log_def take_is_prefix)
    next
      case locked: (Ok u)
      obtain r2 w2 l2 where m: "run_instance ports runtime (w1, l1\<lparr>pl_locked := True\<rparr>) = (r2, (w2, l2))"
        by (metis prod.exhaust)
      have ends: "r2 = r" "w' = sp_unlock ports w2" "l = l2\<lparr>pl_locked := False\<rparr>"
        using held lock locked m by (auto simp: holding_mutex_def)
      have "\<exists>l1 l2 w2. run_instance ports runtime (w1, l1) = (r, (w2, l2)) \<and> w' = sp_unlock ports w2"
        using m ends by blast
      moreover have "prefix (pl_milestones l) all_milestones"
        by (simp add: log take_is_prefix)
      moreover note controls [folded log(2)] run_reports [OF m]
      ultimately show ?thesis
        using run lock locked Ok ends by (simp add: l1_def empty_log_def)
    qed
  qed
qed

text \<open>
  A journal whose recovery is not clean blocks the start: the run ends with an error, whatever the
  other ports answer, before the key is read, and nothing is ever reported to the Service Control Manager.
\<close>

theorem unclean_journal_blocks_start:
  assumes "never_clean ports"
  shows "case run_service ports process_arguments callback_arguments (w, empty_log) of (r, (w', l)) \<Rightarrow>
     r \<noteq> Ok () \<and> pl_reports l = [] \<and> ''state key loaded'' \<notin> set (pl_milestones l) \<and> \<not> pl_locked l
     \<and> fst (service_main ports process_arguments callback_arguments (w, empty_log)) = Some 1"
proof -
  obtain r w' l where run: "run_service ports process_arguments callback_arguments (w, empty_log) = (r, (w', l))"
    by (metis prod.exhaust)
  obtain n where n: "r \<noteq> Ok ()" "n \<le> 5" "at n (reported_by n) False (w', l)"
    using runs_in_stages [OF run blocked_run [OF assms]] by auto
  have "set (take n all_milestones) \<subseteq> set (take 5 all_milestones)"
    using n(2) by (rule set_take_subset_set_take)
  then show ?thesis
    using run n by (cases r) (auto simp: at_def reported_by_def service_main_def all_milestones_def)
qed

text \<open>Ports that all succeed but, as given, the recovery of the journal.\<close>

definition demo_process ::
  "(recovery_outcome, failure) result \<Rightarrow> (settings \<times> service_state, unit) process_ports" where
  "demo_process recovery =
     \<lparr>sp_utf8 = (\<lambda>_. True), sp_join = (\<lambda>a b. a @ backslash # b), sp_process_id = 7,
      sp_lock = (\<lambda>_. ret ()), sp_unlock = (\<lambda>w. w), sp_acl = (\<lambda>_. ret ()), sp_exists = (\<lambda>_. ret True),
      sp_read_dir = (\<lambda>_. ret None),
      sp_recover_temporaries = (\<lambda>_ _ _. ret ()), sp_load_settings = (\<lambda>_. ret default_settings),
      sp_logging = \<lparr>lp_create_dir = (\<lambda>_. ret ()), lp_listing = (\<lambda>_ _. Ok []), lp_remove = (\<lambda>_. ret ()),
        lp_filter = (\<lambda>_. Ok ()), lp_install = (\<lambda>_. ret ())\<rparr>,
      sp_engine = (\<lambda>_. quiet_engine recovery), sp_key = (\<lambda>_. ret [1]), sp_load_state = (\<lambda>_ _. ret default_state),
      sp_register = (\<lambda>_. ret ()), sp_report = (\<lambda>_. ret ()), sp_runtime = ret (),
      sp_owner = (\<lambda>_ _. demo_ports recovery), sp_unavailable = (),
      sp_listen = ret (Ok ()), sp_drain = (\<lambda>_ _ w. (Joined (Ok ()), w))\<rparr>"

lemma demo_process_ports:
  "sp_utf8 (demo_process r) = (\<lambda>_. True)" "sp_lock (demo_process r) = (\<lambda>_. ret ())" "sp_unlock (demo_process r) = (\<lambda>w. w)"
  "sp_acl (demo_process r) = (\<lambda>_. ret ())" "sp_exists (demo_process r) = (\<lambda>_. ret True)" "sp_read_dir (demo_process r) = (\<lambda>_. ret None)"
  "sp_recover_temporaries (demo_process r) = (\<lambda>_ _ _. ret ())" "sp_load_settings (demo_process r) = (\<lambda>_. ret default_settings)"
  "sp_engine (demo_process r) = (\<lambda>_. quiet_engine r)" "sp_key (demo_process r) = (\<lambda>_. ret [1])"
  "sp_load_state (demo_process r) = (\<lambda>_ _. ret default_state)" "sp_register (demo_process r) = (\<lambda>_. ret ())"
  "sp_report (demo_process r) = (\<lambda>_. ret ())" "sp_runtime (demo_process r) = ret ()" "sp_owner (demo_process r) = (\<lambda>_ _. demo_ports r)"
  "sp_listen (demo_process r) = ret (Ok ())" "sp_drain (demo_process r) = (\<lambda>_ _ w. (Joined (Ok ()), w))"
  by (simp_all add: demo_process_def)

lemma silent: "within (ret x) = ret x" "in_context t (ret x) = ret x" "wrapped t (ret x) = ret x"
  by (auto simp: within_def in_context_def wrapped_def explained_def fun_eq_iff)

text \<open>Where every port succeeds, the run ends without an error.\<close>

lemma demo_process_ends:
  "fst (run_service (demo_process (Ok (Clean []))) [] [''SnipeSpotter''] ((default_settings, default_state), empty_log)) = Ok ()"
proof -
  let ?ports = "demo_process (Ok (Clean []))"
  have runtime: "runtime_options_for_service_process (\<lambda>_. True) [] [''SnipeSpotter''] = Ok production"
    by code_simp
  have protected: "apply_runtime_acl_contract ?ports root = ret ()" for root
    by (simp add: apply_runtime_acl_contract_def artifact_names_def apply_acl_if_present_def demo_process_ports silent Let_def
        del: ret_apply flip: ret_def)
  have owner: "start_owner (demo_ports recovery) default_settings default_state remote = ret (assembled_owner (demo_ports recovery) default_settings default_state remote)"
    for recovery remote
    by (simp add: start_owner_def demo_configured)
  have journal: "admit_journal_for_startup (quiet_engine (Ok (Clean []))) = ret ()"
    by (simp add: admit_journal_for_startup_def quiet_engine_def bind_io_def fun_eq_iff)
  have logs: "initialize (sp_logging ?ports) dir (s_logging default_settings) = ret ()" for dir
    by (auto simp: initialize_def demo_process_def silent prune_logs_def dated_logs_def default_settings_def
        default_logging_def explained_def in_context_def bind_io_def List.map_filter_def fun_eq_iff)
  have report: "set_status ?ports st checkpoint wait_hint = (\<lambda>(w, l). (Ok (), (w, l\<lparr>pl_reports := pl_reports l @ [status_report st checkpoint wait_hint]\<rparr>)))"
    for st checkpoint wait_hint
    by (simp add: set_status_def demo_process_ports silent)
  have serves: "serve ?ports ow loop = ret ()" for ow loop
    by (simp add: serve_def demo_process_ports silent fun_eq_iff)
  show ?thesis
    by (simp add: run_service_def runtime noted_milestone holding_mutex_def run_instance_def load_files_def prepare_owner_def
        demo_process_ports silent protected owner journal logs report serves spawn_def bind_io_assoc bind_io_lift)
qed

theorem unclean_journal_blocks_start_witness:
  "fst (service_main (demo_process (Err (Message ''disk''))) [] [] ((default_settings, default_state), empty_log)) = Some 1"
proof -
  have "never_clean (demo_process (Err (Message ''disk'')))"
    by (simp add: never_clean_def demo_process_def quiet_engine_def)
  from unclean_journal_blocks_start [OF this, of "[]" "[]" "(default_settings, default_state)"] show ?thesis
    by (simp add: case_prod_beta')
qed

end
