(* ===== verification/Build.thy ===== *)
theory Build
  imports Effects AtomicFile
begin

text \<open>
  \<open>spotter-build/src/lib.rs\<close>: the version resource and the manifest that the build scripts embed.  The
  environment, the files and the resource compiler are ports, and the two manifests are files of
  their own; the directives that are printed for cargo are left out.
\<close>

datatype binary_kind = ServiceBinary | CliBinary

definition line_feed :: char where
  "line_feed = CHR 0x0A"

definition double_quote :: char where
  "double_quote = CHR 0x22"

text \<open>\<open>str::lines\<close>: a carriage return before a line feed is no part of the line, nor is the end of the text a line.\<close>

fun rust_lines :: "string \<Rightarrow> string list" where
  "rust_lines s =
     (let parts = split_char line_feed s;
          without_return = (\<lambda>l. if l \<noteq> [] \<and> last l = CHR 0x0D then butlast l else l)
      in List.map without_return (butlast parts) @ (if last parts = [] then [] else [last parts]))"

definition parse_string_constant :: "string \<Rightarrow> string \<Rightarrow> (string, string) result" where
  "parse_string_constant source name =
     (let opening = ''pub const '' @ name @ '': &str = '' @ [double_quote];
          found = List.map_filter (\<lambda>line. strip_prefix opening (trim line)) (rust_lines source)
      in case (case found of [] \<Rightarrow> None | v # _ \<Rightarrow> strip_suffix [double_quote, CHR '';''] v) of
           None \<Rightarrow> Err (''failed to parse '' @ name @ '' from identity.rs'')
         | Some v \<Rightarrow>
             if v = [] \<or> double_quote \<in> set v \<or> CHR 0x5C \<in> set v
             then Err (name @ '' contains unsupported resource characters'') else Ok v)"

definition parse_version_part :: "string option \<Rightarrow> string \<Rightarrow> (u16, string) result" where
  "parse_version_part v label =
     and_then (ok_or (''version is missing '' @ label @ '' component'') v) (\<lambda>s.
       ok_or (''version '' @ label @ '' component is not a u16'') (parse_u16_str s))"

definition nth_part :: "string list \<Rightarrow> nat \<Rightarrow> string option" where
  "nth_part parts n = (if n < length parts then Some (parts ! n) else None)"

definition version_core :: "string \<Rightarrow> string" where
  "version_core version = takeWhile (\<lambda>c. c \<noteq> CHR ''-'' \<and> c \<noteq> CHR ''+'') version"

definition numeric_version :: "string \<Rightarrow> (u16 list, string) result" where
  "numeric_version version =
     (let parts = split_char (CHR ''.'') (version_core version) in
      and_then (parse_version_part (nth_part parts 0) ''major'') (\<lambda>major.
      and_then (parse_version_part (nth_part parts 1) ''minor'') (\<lambda>minor.
      and_then (parse_version_part (nth_part parts 2) ''patch'') (\<lambda>patch.
        if nth_part parts 3 \<noteq> None then Err (''version has more than three numeric parts: '' @ version)
        else Ok [major, minor, patch, 0]))))"

definition manifest :: "string \<Rightarrow> string \<Rightarrow> binary_kind \<Rightarrow> string" where
  "manifest service_manifest cli_manifest kind =
     (let level = (case kind of ServiceBinary \<Rightarrow> ''asInvoker'' | CliBinary \<Rightarrow> ''requireAdministrator'')
      in if level = ''asInvoker'' then service_manifest else cli_manifest)"

fun doubled_backslashes :: "string \<Rightarrow> string" where
  "doubled_backslashes [] = []"
| "doubled_backslashes (c # s) = (if c = CHR 0x5C then [c, c] else [c]) @ doubled_backslashes s"

definition in_quotes :: "string \<Rightarrow> string" where
  "in_quotes s = double_quote # s @ [double_quote]"

definition resource_value :: "string \<Rightarrow> string \<Rightarrow> string" where
  "resource_value key v = ''      VALUE '' @ in_quotes key @ '', '' @ in_quotes (v @ [CHR 0x5C, CHR ''0''])"

definition resource_script :: "string \<Rightarrow> string \<Rightarrow> string \<Rightarrow> string \<Rightarrow> u16 list \<Rightarrow> string" where
  "resource_script manifest_path product company version numeric =
     (let numbers = join_with '','' (List.map dec numeric) in
      concat (List.map (\<lambda>line. line @ [line_feed])
        [''1 24 '' @ in_quotes (doubled_backslashes manifest_path),
         ''1 VERSIONINFO'', ''FILEVERSION '' @ numbers, ''PRODUCTVERSION '' @ numbers,
         ''FILEFLAGSMASK 0x3fL'', ''FILEFLAGS 0x0L'', ''FILEOS 0x40004L'', ''FILETYPE 0x1L'', ''FILESUBTYPE 0x0L'',
         ''BEGIN'', ''  BLOCK '' @ in_quotes ''StringFileInfo'', ''  BEGIN'', ''    BLOCK '' @ in_quotes ''040904b0'', ''    BEGIN'',
         resource_value ''CompanyName'' company, resource_value ''FileDescription'' product,
         resource_value ''FileVersion'' version, resource_value ''ProductName'' product,
         resource_value ''ProductVersion'' version,
         ''    END'', ''  END'', ''  BLOCK '' @ in_quotes ''VarFileInfo'', ''  BEGIN'',
         ''    VALUE '' @ in_quotes ''Translation'' @ '', 0x409, 1200'', ''  END'', ''END'']))"

record 'w build_ports =
  bp_var :: "string \<Rightarrow> (string, string) result"
  bp_join :: "string \<Rightarrow> string \<Rightarrow> string"
  bp_read :: "string \<Rightarrow> ('w, string, string) effect"
  bp_save :: "string \<Rightarrow> string \<Rightarrow> ('w, string, unit) effect"
  bp_compile :: "string \<Rightarrow> ('w, string, unit) effect"

definition given :: "('a, string) result \<Rightarrow> ('w, string, 'a) effect" where
  "given r = (\<lambda>w. (r, w))"

definition embed :: "'w build_ports \<Rightarrow> string \<Rightarrow> string \<Rightarrow> binary_kind \<Rightarrow> ('w, string, unit) effect" where
  "embed ports service_manifest cli_manifest kind =
     bind_io (given (bp_var ports ''CARGO_MANIFEST_DIR'')) (\<lambda>manifest_dir.
     bind_io (given (bp_var ports ''CARGO_CFG_TARGET_OS'')) (\<lambda>os.
     if os \<noteq> ''windows'' then ret ()
     else
     bind_io (given (bp_var ports ''CARGO_CFG_TARGET_ENV'')) (\<lambda>target_env.
     if target_env \<noteq> ''msvc'' then ret ()
     else
     bind_io (bp_read ports (bp_join ports manifest_dir ''../spotter-core/src/identity.rs'')) (\<lambda>identity.
     bind_io (given (parse_string_constant identity ''PRODUCT_NAME'')) (\<lambda>product.
     bind_io (given (parse_string_constant identity ''COMPANY_NAME'')) (\<lambda>company.
     bind_io (given (bp_var ports ''CARGO_PKG_VERSION'')) (\<lambda>version.
     bind_io (given (numeric_version version)) (\<lambda>numeric.
     bind_io (given (bp_var ports ''OUT_DIR'')) (\<lambda>out_dir.
     let manifest_path = bp_join ports out_dir ''spotter.manifest''; rc_path = bp_join ports out_dir ''spotter.rc'' in
     bind_io (bp_save ports manifest_path (manifest service_manifest cli_manifest kind)) (\<lambda>_.
     bind_io (bp_save ports rc_path (resource_script manifest_path product company version numeric)) (\<lambda>_.
     explained (\<lambda>e. ''failed to compile Windows resources: '' @ e) (bp_compile ports rc_path))))))))))))"

section \<open>Versions\<close>

lemma dec_only_digits:
  assumes "byte c < 48"
  shows "c \<notin> set (dec n)"
  using dec_nat_digits [of c "unat n"] assms by (auto simp: dec_def byte_def)

lemma split_char_first: "c \<notin> set a \<Longrightarrow> split_char c (a @ c # s) = a # split_char c s"
  by (induction a) auto

lemma parse_u16_dec: "parse_u16_str (dec (w :: u16)) = Some w"
proof -
  have "unat w \<le> 2 ^ 16 - 1" using unsigned_less [of w, where 'a = nat] by simp
  then show ?thesis by (simp add: parse_u16_str_def dec_def)
qed

lemma core_of_numbers:
  "version_core (dec a @ ''.'' @ dec b @ ''.'' @ dec c @ (case suffix of None \<Rightarrow> [] | Some (separator, rest) \<Rightarrow>
      (if separator then CHR ''-'' else CHR ''+'') # rest)) = dec a @ ''.'' @ dec b @ ''.'' @ dec c"
proof -
  have plain: "version_core (s @ rest) = s @ version_core rest" if "CHR ''-'' \<notin> set s" "CHR ''+'' \<notin> set s" for s rest
    using that unfolding version_core_def by (subst takeWhile_append2) auto
  have "version_core (case suffix of None \<Rightarrow> [] | Some (separator, rest) \<Rightarrow> (if separator then CHR ''-'' else CHR ''+'') # rest) = []"
    by (auto simp: version_core_def split: option.split)
  then show ?thesis
    using plain [of "dec a @ ''.'' @ dec b @ ''.'' @ dec c"] by (simp add: dec_only_digits byte_def)
qed

text \<open>
  The three numbers of a version come back, whatever pre-release or build suffix follows them; a version
  of two numbers or of four is refused.
\<close>

theorem numeric_version_reads_back:
  "numeric_version (dec a @ ''.'' @ dec b @ ''.'' @ dec c
      @ (case suffix of None \<Rightarrow> [] | Some (separator, rest) \<Rightarrow> (if separator then CHR ''-'' else CHR ''+'') # rest)) = Ok [a, b, c, 0]
   \<and> numeric_version (dec a @ ''.'' @ dec b) = Err ''version is missing patch component''
   \<and> numeric_version (dec a @ ''.'' @ dec b @ ''.'' @ dec c @ ''.'' @ dec (d :: u16))
       = Err (''version has more than three numeric parts: '' @ dec a @ ''.'' @ dec b @ ''.'' @ dec c @ ''.'' @ dec d)"
proof -
  have pair: "split_char (CHR ''.'') (dec n @ CHR ''.'' # s) = dec n # split_char (CHR ''.'') s" for n :: u16 and s
    by (rule split_char_first) (simp add: dec_no_dot)
  have one: "split_char (CHR ''.'') (dec n) = [dec n]" for n :: u16
    by (rule split_char_none [OF dec_no_dot])
  have plain: "version_core s = s" if "CHR ''-'' \<notin> set s" "CHR ''+'' \<notin> set s" for s
    using that unfolding version_core_def takeWhile_eq_all_conv by blast
  have numbers: "CHR ''-'' \<notin> set (dec n)" "CHR ''+'' \<notin> set (dec n)" for n :: u16
    by (simp_all add: dec_only_digits byte_def)
  have part: "parse_version_part (Some (dec n)) label = Ok n" "parse_version_part None label = Err (''version is missing '' @ label @ '' component'')"
    for n label
    by (simp_all add: parse_version_part_def parse_u16_dec)
  have three: "split_char (CHR ''.'') (dec a @ ''.'' @ dec b @ ''.'' @ dec c) = [dec a, dec b, dec c]"
    and two: "split_char (CHR ''.'') (dec a @ ''.'' @ dec b) = [dec a, dec b]"
    and four: "split_char (CHR ''.'') (dec a @ ''.'' @ dec b @ ''.'' @ dec c @ ''.'' @ dec d) = [dec a, dec b, dec c, dec d]"
    by (simp_all add: pair one)
  have cores: "version_core (dec a @ ''.'' @ dec b) = dec a @ ''.'' @ dec b"
    "version_core (dec a @ ''.'' @ dec b @ ''.'' @ dec c @ ''.'' @ dec d) = dec a @ ''.'' @ dec b @ ''.'' @ dec c @ ''.'' @ dec d"
    by (rule plain; simp add: numbers)+
  show ?thesis
    unfolding numeric_version_def cores core_of_numbers two three four
    by (simp add: nth_part_def part)
qed

end
