(* ===== verification/DiskFrame.thy ===== *)
theory DiskFrame
  imports FileStore
begin

text \<open>
  What an atomic write does to the files, whichever controller it runs under: the conditions that hold
  before the replacement, after it and wherever it fails, by what the hooks of the controller keep.  In
  particular it leaves alone every file that is neither its destination nor one of its temporary names.
\<close>

definition on_files :: "(files \<Rightarrow> bool) \<Rightarrow> disk \<Rightarrow> bool" where
  "on_files A d \<longleftrightarrow> A (dk_files d)"

text \<open>A condition that any content of these names keeps.\<close>

definition closed_for :: "string set \<Rightarrow> (files \<Rightarrow> bool) \<Rightarrow> bool" where
  "closed_for names A \<longleftrightarrow> (\<forall>f q x. A f \<longrightarrow> q \<in> names \<longrightarrow> A (f(q := x)))"

lemma closed_forD: "closed_for names A \<Longrightarrow> A f \<Longrightarrow> q \<in> names \<Longrightarrow> A (f(q := x))"
  by (simp add: closed_for_def)

lemma keeps_files: "keeps (on_files A) m \<Longrightarrow> files_contract A m (\<lambda>_. A) A"
  unfolding files_contract_def keeps_contract on_files_def .

lemma keeps_weak: "keeps (on_files A) m \<Longrightarrow> (\<And>f. A f \<Longrightarrow> E f) \<Longrightarrow> files_contract A m (\<lambda>_. A) E"
  by (rule files_weaken [OF keeps_files])

lemma keeps_file_op [keeping]:
  assumes "\<And>d. on_files A d \<Longrightarrow> on_files A (effect d)" "\<And>n d. on_files A d \<Longrightarrow> on_files A (partial n d)"
  shows "keeps (on_files A) (file_op message effect partial)"
  using assms by (auto simp: keeps_def file_op_def on_files_def split: prod.splits op_outcome.splits)

lemma keeps_check_op [keeping]: "keeps (on_files A) (check_op message)"
  unfolding check_op_def by (rule keeps_file_op) simp_all

lemma keeps_catch_stop [keeping]: "keeps I m \<Longrightarrow> keeps I (catch_stop m)"
  by (auto simp: keeps_def catch_stop_def split: prod.splits result.splits stop.splits)

lemma keeps_ignore_error [keeping]: "keeps I m \<Longrightarrow> keeps I (ignore_error m)"
  unfolding ignore_error_def by (intro keeping)

lemma keeps_looking:
  assumes "\<And>d. m d = (if c d then (r, d) else n d)" "keeps I n"
  shows "keeps I m"
  using assms by (simp add: keeps_def)

text \<open>Operations on one of the names.\<close>

lemma keeps_other:
  assumes "closed_for names A" "name \<in> names"
  shows "keeps (on_files A) (remove_file name)" "keeps (on_files A) (create_new name)"
    "keeps (on_files A) (open_file name)" "keeps (on_files A) (write_all name bytes)"
    "keeps (on_files A) (sync_file name)"
proof -
  have set: "on_files A d \<Longrightarrow> on_files A (set_file name x d)" for x d
    using closed_forD [OF assms(1) _ assms(2)] by (simp add: on_files_def set_file_def)
  note op = keeps_file_op [where A = A]
  show "keeps (on_files A) (remove_file name)"
    by (rule keeps_looking [where m = "remove_file name", OF remove_file_def], rule op) (use set in simp_all)
  show "keeps (on_files A) (create_new name)"
    by (rule keeps_looking [where m = "create_new name"], subst create_new_def, rule refl)
      (intro keeping, use set in simp_all)
  show "keeps (on_files A) (open_file name)"
    by (rule keeps_looking [where m = "open_file name", OF open_file_def]) (rule keeps_check_op)
  show "keeps (on_files A) (write_all name bytes)" "keeps (on_files A) (sync_file name)"
    unfolding write_all_def sync_file_def by (rule op; use set in simp)+
qed

lemma keeps_nonce: "keeps (on_files A) next_temporary_nonce"
proof -
  have "keeps (on_files A) (bind_io (check_op message) (\<lambda>_ d2. (Ok (f d2), d2\<lparr>dk_random := tl (dk_random d2)\<rparr>)))" for message and f :: "disk \<Rightarrow> u64"
    by (rule keeps_bind [OF keeps_check_op]) (simp add: keeps_def on_files_def)
  then show ?thesis
    unfolding keeps_def next_temporary_nonce_def Let_def by (simp add: on_files_def)
qed

section \<open>The write\<close>

text \<open>Names that a write of \<open>path\<close> may use.\<close>

definition temporary_names :: "string \<Rightarrow> u32 \<Rightarrow> string set" where
  "temporary_names path pid =
     (\<Union>nonce. {temporary_path_with_identity path pid nonce, owner_metadata_path (temporary_path_with_identity path pid nonce)})"

lemma keeps_attempt_temporary:
  assumes "closed_for (temporary_names path pid) A"
  shows "keeps (on_files A) (temporary_attempt windows pid path)"
proof -
  have "temporary_path_with_identity path pid nonce \<in> temporary_names path pid"
    "owner_metadata_path (temporary_path_with_identity path pid nonce) \<in> temporary_names path pid" for nonce
    by (auto simp: temporary_names_def)
  then show ?thesis
    unfolding temporary_attempt_def create_owner_metadata_def apply_acl_contract_def
    by (intro keeping keeps_nonce keeps_other [OF assms]; simp)
qed

text \<open>What an effect can answer.\<close>

definition answers :: "'a set \<Rightarrow> ('s, 'e, 'a) effect \<Rightarrow> bool" where
  "answers A m \<longleftrightarrow> contract (\<lambda>_. True) m (\<lambda>x _. x \<in> A) (\<lambda>_ _. True)"

lemma answers_ret: "x \<in> A \<Longrightarrow> answers A (ret x)" and answers_fail: "answers A (fail e)"
  by (simp_all add: answers_def contract_def)

lemma answers_bind: "(\<And>x. answers A (f x)) \<Longrightarrow> answers A (bind_io m f)"
  unfolding answers_def by (rule contract_bind [where Q = "\<lambda>_ _. True"]) (simp_all add: contract_def)

lemma answers_if: "answers A m \<Longrightarrow> answers A n \<Longrightarrow> answers A (if c then m else n)"
  by simp

lemma answers_result: "(\<And>y. answers A (f y)) \<Longrightarrow> (\<And>e. answers A (g e)) \<Longrightarrow> answers A (case x of Ok y \<Rightarrow> f y | Err e \<Rightarrow> g e)"
  by (cases x) simp_all

lemma answersD: "answers A m \<Longrightarrow> m s = (Ok x, s') \<Longrightarrow> x \<in> A"
  unfolding answers_def contract_def by blast

lemma attempt_answers:
  "answers {r. \<forall>t m. r = Some (t, m) \<longrightarrow> {t, m} \<subseteq> temporary_names path pid} (temporary_attempt windows pid path)"
  unfolding temporary_attempt_def Let_def
  by (intro answers_bind answers_if answers_result answers_ret answers_fail) (auto simp: temporary_names_def)

lemma attempt_names:
  "temporary_attempt windows pid path d = (Ok (Some (t, m)), d') \<Longrightarrow> {t, m} \<subseteq> temporary_names path pid"
  using answersD [OF attempt_answers] by blast

lemma allocation_names:
  "temporary_attempts windows pid path n d = (Ok (t, m), d') \<Longrightarrow> {t, m} \<subseteq> temporary_names path pid"
proof (induction n arbitrary: d)
  case (Suc n)
  from Suc.prems obtain r d1 where "temporary_attempt windows pid path d = (Ok r, d1)"
    "(case r of Some names \<Rightarrow> ret names | None \<Rightarrow> temporary_attempts windows pid path n) d1 = (Ok (t, m), d')"
    by (auto simp: bind_io_eq_Ok simp del: split_paired_Ex)
  then show ?case
    using attempt_names [of windows pid path d t m] Suc.IH [of d1] by (cases r) auto
qed simp

lemma keeps_bind_Ok:
  assumes "keeps I m" "\<And>x s s'. m s = (Ok x, s') \<Longrightarrow> keeps I (f x)"
  shows "keeps I (bind_io m f)"
  unfolding keeps_def
proof (intro allI impI)
  fix s assume "I s"
  obtain r s1 where m: "m s = (r, s1)"
    by (rule prod.exhaust)
  have "I s1"
    by (rule keepsD [OF assms(1) \<open>I s\<close> m])
  then show "I (snd (bind_io m f s))"
    using assms(2) [of s _ s1] m by (cases r) (auto simp: bind_io_def keeps_def)
qed

lemma keeps_allocation:
  "closed_for (temporary_names path pid) A \<Longrightarrow> keeps (on_files A) (temporary_attempts windows pid path n)"
  by (induction n) (auto simp del: ret_apply intro!: keeping keeps_attempt_temporary simp: keeps_ret)

lemma temporary_names_new: "path \<notin> temporary_names path pid"
  using length_temporary length_owner_metadata by (fastforce simp: temporary_names_def temporary_path_with_identity_def owner_metadata_path_def)

section \<open>A write under a controller\<close>

text \<open>
  What a write keeps, by what its controller's hooks keep: \<open>A\<close> before the replacement, \<open>B\<close> after it, \<open>C\<close>
  after the hook that follows it, and \<open>E\<close> wherever it fails or the process ends.
\<close>

lemma files_controlled:
  assumes closed: "closed_for (temporary_names path pid) A" "closed_for (temporary_names path pid) C"
      "closed_for (temporary_names path pid) E"
    and error: "\<And>f. A f \<Longrightarrow> E f" "\<And>f. B f \<Longrightarrow> E f" "\<And>f. C f \<Longrightarrow> E f" "\<And>f. A f \<Longrightarrow> windows \<Longrightarrow> E (f(path := None))"
    and replaced: "\<And>f t. A f \<Longrightarrow> t \<in> temporary_names path pid \<Longrightarrow> B (f(path := Some (bytes, True), t := None))"
    and early: "files_contract A (before_temporary_creation controller) (\<lambda>_. A) E"
      "\<And>t y. t \<in> temporary_names path pid \<Longrightarrow>
         files_contract (\<lambda>f. A f \<and> f t = y) (after_temporary_write controller) (\<lambda>_ f. A f \<and> f t = y) E"
      "\<And>t y. t \<in> temporary_names path pid \<Longrightarrow>
         files_contract (\<lambda>f. A f \<and> f t = y) (before_temporary_flush controller) (\<lambda>_ f. A f \<and> f t = y) E"
      "\<And>t y. t \<in> temporary_names path pid \<Longrightarrow>
         files_contract (\<lambda>f. A f \<and> f t = y) (before_replace controller) (\<lambda>_ f. A f \<and> f t = y) E"
    and late: "files_contract B (after_replace controller) (\<lambda>_. C) E"
      "files_contract C (before_directory_flush controller) (\<lambda>_. C) E"
    and directory: "open_directory controller = check_op opening" "sync_directory controller = check_op syncing"
  shows "files_contract A (write_with_controller windows pid controller path bytes) (\<lambda>_. C) E"
proof -
  note weak = keeps_weak [where E = E]
  have acl: "files_contract P (if windows then apply_acl_contract why else ret ()) (\<lambda>_. P) E"
    if "\<And>f. P f \<Longrightarrow> E f" for P :: "files \<Rightarrow> bool" and why
    by (rule weak [where A = P]) (auto simp: apply_acl_contract_def that simp del: ret_apply intro!: keeping)
  have flush: "files_contract C (flush_parent_directory controller) (\<lambda>_. C) E"
    by (rule weak [where A = C]) (auto simp: flush_parent_directory_def directory error simp del: ret_apply intro!: keeping)
  have body: "files_contract A (write_body windows controller path t bytes) (\<lambda>_. C) E" if t: "t \<in> temporary_names path pid" for t
  proof -
    have path: "t \<noteq> path" using t temporary_names_new by blast
    have opened: "files_contract A (open_file t) (\<lambda>_. A) E"
      by (rule weak [where A = A]) (use keeps_other(3) [OF closed(1) t] error in auto)
    have w: "files_contract A (write_all t bytes) (\<lambda>_ f. A f \<and> f t = Some (bytes, False)) E"
      unfolding write_all_def
      by (rule files_op) (auto simp: set_file_def closed_forD [OF closed(1) _ t] intro: error closed_forD [OF closed(1) _ t])
    have s: "files_contract (\<lambda>f. A f \<and> f t = Some (bytes, False)) (sync_file t) (\<lambda>_ f. A f \<and> f t = Some (bytes, True)) E"
      unfolding sync_file_def
      by (rule files_op) (auto simp: set_file_def closed_forD [OF closed(1) _ t] intro: error closed_forD [OF closed(1) _ t])
    let ?P = "\<lambda>f. A f \<and> f t = Some (bytes, True)"
    let ?install = "\<lambda>d. set_file t None (set_file path (dk_files d t) d)"
    have new: "B (dk_files (set_file t None (set_file path (Some (bytes, True)) d)))" if "A (dk_files d)" for d
      using that replaced [OF _ t] path by (simp add: set_file_def)
    have "files_contract ?P (file_op why ?install (\<lambda>_. id)) (\<lambda>_. B) E" for why
      by (rule files_op) (auto intro: new error)
    moreover have "files_contract ?P (file_op why ?install (\<lambda>n. if n = 0 then id else set_file path None)) (\<lambda>_. B) E"
      if "windows" for why
      by (rule files_op) (use that replaced [OF _ t] path in \<open>auto intro: error simp: set_file_def\<close>)
    ultimately have r: "files_contract ?P (replace windows t path) (\<lambda>_. B) E"
      unfolding replace_def Let_def files_contract_def contract_def by auto
    show ?thesis
      unfolding write_body_def
      by (rule files_bind [OF acl [OF error(1)] files_bind [OF opened files_bind [OF w files_bind [OF early(2) [OF t]
            files_bind [OF early(3) [OF t] files_bind [OF s files_bind [OF early(4) [OF t] files_bind [OF r
            files_bind [OF acl [OF error(2)] files_bind [OF late(1) files_bind [OF late(2) flush]]]]]]]]]]])
  qed
  have allocation: "files_contract A (create_temporary_identity windows pid path)
      (\<lambda>names f. A f \<and> fst names \<in> temporary_names path pid \<and> snd names \<in> temporary_names path pid) E"
    unfolding files_contract_def contract_def
  proof (intro conjI allI impI)
    fix d names d' assume A: "A (dk_files d)" and m: "create_temporary_identity windows pid path d = (Ok names, d')"
    from keepsD [OF keeps_allocation [OF closed(1)] _ m [unfolded create_temporary_identity_def]] A
    show "A (dk_files d')" by (simp add: on_files_def)
    from m allocation_names [of windows pid path 16 d "fst names" "snd names" d']
    show "fst names \<in> temporary_names path pid" "snd names \<in> temporary_names path pid"
      by (simp_all add: create_temporary_identity_def)
  next
    fix d e d' assume A: "A (dk_files d)" and m: "create_temporary_identity windows pid path d = (Err e, d')"
    from keepsD [OF keeps_allocation [OF closed(1)] _ m [unfolded create_temporary_identity_def]] A
    show "E (dk_files d')" by (simp add: on_files_def error)
  qed
  have dir: "files_contract A (check_op why) (\<lambda>_. A) E" for why
    by (rule weak [where A = A]) (auto intro: keeping error)
  show ?thesis
    unfolding write_with_controller_def
  proof (rule files_bind [OF dir files_bind [OF early(1) files_bind [OF allocation]]])
    fix names :: "string \<times> string"
    obtain t m where names: "names = (t, m)" by (cases names)
    show "files_contract (\<lambda>f. A f \<and> fst names \<in> temporary_names path pid \<and> snd names \<in> temporary_names path pid)
        (case names of (t, m) \<Rightarrow> bind_io (catch_stop (write_body windows controller path t bytes)) (\<lambda>result.
         case result of
           Err e \<Rightarrow> bind_io (ignore_error (remove_file t)) (\<lambda>_. bind_io (ignore_error (remove_file m)) (\<lambda>_. fail (Stopped e)))
         | Ok _ \<Rightarrow> bind_io (catch_stop (remove_file m)) (\<lambda>removed.
             case removed of Ok _ \<Rightarrow> ret () | Err _ \<Rightarrow> fail (Stopped (''failed to remove owner metadata for '' @ t)))))
        (\<lambda>_. C) E"
    proof (cases "t \<in> temporary_names path pid \<and> m \<in> temporary_names path pid")
      case False
      then show ?thesis by (auto simp: files_contract_def contract_def names)
    next
      case True
      have drop: "files_contract E (ignore_error (remove_file q)) (\<lambda>_. E) E" if "q \<in> {t, m}" for q
        by (rule keeps_files) (use that True in \<open>auto intro!: keeping keeps_other [OF closed(3)]\<close>)
      have removed: "files_contract C (remove_file m) (\<lambda>_. C) C"
        by (rule keeps_files) (use True in \<open>auto intro!: keeps_other [OF closed(2)]\<close>)
      show ?thesis
        unfolding names prod.case
        by (rule files_caught [OF files_weaken [OF body] files_caught [OF removed files_ret files_fail]
              files_bind [OF drop files_bind [OF drop files_fail]]]) (use True error in auto)
    qed
  qed
qed

section \<open>Files that a write leaves alone\<close>

definition file_is :: "string \<Rightarrow> (u8 list \<times> bool) option \<Rightarrow> disk \<Rightarrow> bool" where
  "file_is q x d \<longleftrightarrow> dk_files d q = x"

lemma file_is_on_files: "file_is q x = on_files (\<lambda>f. f q = x)"
  by (simp add: fun_eq_iff file_is_def on_files_def)

lemma keeps_check_file [keeping]: "keeps (file_is q x) (check_op message)"
  unfolding file_is_on_files by (rule keeps_check_op)

lemma keeps_atomic_write:
  assumes "q \<noteq> path" "q \<notin> temporary_names path pid"
  shows "keeps (file_is q x) (atomic_write windows pid path bytes)"
proof -
  let ?A = "\<lambda>f :: files. f q = x"
  have "closed_for (temporary_names path pid) ?A"
    using assms(2) by (auto simp: closed_for_def)
  then have "files_contract ?A (write_with_controller windows pid noop_fault_controller path bytes) (\<lambda>_. ?A) ?A"
    by (intro files_controlled [where B = ?A]) (use assms in \<open>auto simp: noop_fault_controller_def simp del: ret_apply intro!: files_ret\<close>)
  then show ?thesis
    by (simp add: keeps_contract file_is_on_files on_files_def [abs_def] files_contract_def atomic_write_def)
qed

end
