(* ===== verification/Production.thy ===== *)
theory Production
  imports DiskFrame OwnerProperties Platform Discovery
begin

text \<open>
  \<open>spotter-svc/src/owner_ports.rs\<close> and the adapters around it: what the command owner reaches in the
  service that runs.  The world is a machine: the files of the data directory, the journal, the
  resources of the operating system, and the rest (network, firmware, clock).  Its ports are the
  operations of the other theories, so that a statement about the owner is one about the whole.
\<close>

section \<open>The machine\<close>

text \<open>
  \<open>mc_ended\<close> says that the process has ended, after which nothing happens any more.  \<open>mc_torn\<close> holds the
  files whose last save answered an error although the file has changed.
\<close>

record 'n machine =
  mc_disk :: disk
  mc_journal :: journal_disk
  mc_ledger :: ledger
  mc_rest :: 'n
  mc_ended :: bool
  mc_torn :: "string set"

definition ended :: failure where
  "ended = Message ''the process has ended''"

definition alive :: "('n machine, 'a) io \<Rightarrow> ('n machine, 'a) io" where
  "alive m = (\<lambda>s. if mc_ended s then (Err ended, s) else m s)"

definition on_rest :: "('n, 'a) io \<Rightarrow> ('n machine, 'a) io" where
  "on_rest m = alive (\<lambda>s. case m (mc_rest s) of (r, n) \<Rightarrow> (r, s\<lparr>mc_rest := n\<rparr>))"

definition on_windows :: "('n, failure, 'a) owning \<Rightarrow> ('n machine, 'a) io" where
  "on_windows m = alive (\<lambda>s. case m (mc_rest s, mc_ledger s) of (r, (n, l)) \<Rightarrow> (r, s\<lparr>mc_rest := n, mc_ledger := l\<rparr>))"

definition on_disk :: "'a disk_io \<Rightarrow> ('n machine, 'a) io" where
  "on_disk m = alive (\<lambda>s. case m (mc_disk s) of
     (Ok x, d) \<Rightarrow> (Ok x, s\<lparr>mc_disk := d\<rparr>)
   | (Err (Stopped e), d) \<Rightarrow> (Err (Message e), s\<lparr>mc_disk := d\<rparr>)
   | (Err Crashed, d) \<Rightarrow> (Err ended, s\<lparr>mc_disk := d, mc_ended := True\<rparr>))"

text \<open>A save of a file.\<close>

definition saving :: "string \<Rightarrow> 'a disk_io \<Rightarrow> ('n machine, 'a) io" where
  "saving path m = (\<lambda>s. case on_disk m s of
     (Ok x, s') \<Rightarrow> (Ok x, s'\<lparr>mc_torn := mc_torn s' - {path}\<rparr>)
   | (Err e, s') \<Rightarrow> (Err e,
       if dk_files (mc_disk s') path = dk_files (mc_disk s) path then s' else s'\<lparr>mc_torn := insert path (mc_torn s')\<rparr>))"

text \<open>An operation of the journal, with the faults that it meets.\<close>

definition on_journal ::
  "('n \<Rightarrow> journal_faults \<times> 'n) \<Rightarrow> (journal_faults \<Rightarrow> journal_disk \<Rightarrow> ('a, string) result \<times> journal_disk)
     \<Rightarrow> ('n machine, 'a) io" where
  "on_journal faults f = alive (\<lambda>s.
     case faults (mc_rest s) of (io, n) \<Rightarrow>
     (case f io (mc_journal s) of (r, d) \<Rightarrow> (as_failure r, s\<lparr>mc_rest := n, mc_journal := d\<rparr>)))"

section \<open>What is not under the service's control\<close>

text \<open>
  \<open>pd_http\<close> builds the HTTP client and \<open>pd_transport\<close> is the transport of a client for a URL and a token;
  \<open>pd_firmware_size\<close> and \<open>pd_firmware_table\<close> are the two calls of \<open>GetSystemFirmwareTable\<close>.
\<close>

record 'n production =
  pd_pid :: u32
  pd_key :: "u8 list"
  pd_state_format :: state_format
  pd_settings_format :: settings_format
  pd_codec :: codec
  pd_encode :: "journal_record \<Rightarrow> u8 list"
  pd_decode :: line_decoder
  pd_utf8 :: "u8 list \<Rightarrow> string option"
  pd_faults :: "'n \<Rightarrow> journal_faults \<times> 'n"
  pd_windows :: "'n windows"
  pd_url :: "string \<Rightarrow> url_parts option"
  pd_http :: "('n, unit) io"
  pd_transport :: "url_parts \<Rightarrow> string \<Rightarrow> 'n transport"
  pd_manufacturers :: "u8 list \<Rightarrow> manufacturer list option"
  pd_models :: "u8 list \<Rightarrow> asset_model list option"
  pd_lowercase :: "string \<Rightarrow> string"
  pd_firmware_size :: "'n \<Rightarrow> u32 \<times> 'n"
  pd_firmware_table :: "u32 \<Rightarrow> 'n \<Rightarrow> (u32 \<times> u8 list) \<times> 'n"
  pd_wmi_connect :: "('n, string, unit) effect"
  pd_wmi_query :: "('n, string, wmi_monitor_id list) effect"
  pd_clock :: "'n \<Rightarrow> int \<times> 'n"
  pd_rfc3339 :: "int \<Rightarrow> string"
  pd_hours :: "int \<Rightarrow> int option"

section \<open>Secrets and the remote\<close>

definition token_text :: "(u8 list \<Rightarrow> string option) \<Rightarrow> u8 list \<Rightarrow> ('w, string) io" where
  "token_text utf8 plaintext =
     (case utf8 plaintext of None \<Rightarrow> fail (Message ''decrypted API token is not UTF-8'') | Some token \<Rightarrow> ret token)"

definition protector_decrypt :: "'n production \<Rightarrow> u8 list \<Rightarrow> ('n machine, string) io" where
  "protector_decrypt pd ciphertext =
     bind_io (on_windows (wrapped ''failed to decrypt API token with DPAPI'' (dpapi_decrypt (pd_windows pd) ciphertext)))
       (token_text (pd_utf8 pd))"

record decrypted_settings =
  dc_url :: string
  dc_api_token :: string
  dc_checkout_status_id :: u64
  dc_checkin_status_id :: u64

definition decrypt_config :: "'n production \<Rightarrow> settings \<Rightarrow> ('n machine, decrypted_settings) io" where
  "decrypt_config pd s =
     bind_io (on_windows (dpapi_decrypt (pd_windows pd) (api_token_encrypted (s_snipeit s)))) (\<lambda>plaintext.
     bind_io (token_text (pd_utf8 pd) plaintext) (\<lambda>token.
       ret \<lparr>dc_url = url (s_snipeit s), dc_api_token = token,
            dc_checkout_status_id = checkout_status_id (s_snipeit s),
            dc_checkin_status_id = checkin_status_id (s_snipeit s)\<rparr>))"

text \<open>The remote of a service that is not configured, or a client for a URL and a token.\<close>

datatype remote = UnavailableRemote | ClientRemote url_parts string

definition new_client :: "'n production \<Rightarrow> string \<Rightarrow> string \<Rightarrow> ('n machine, remote) io" where
  "new_client pd base_url token =
     bind_io (lift_io (with_timeout (pd_url pd) base_url)) (\<lambda>u.
     bind_io (on_rest (pd_http pd)) (\<lambda>_. ret (ClientRemote u token)))"

definition build_remote :: "'n production \<Rightarrow> settings \<Rightarrow> ('n machine, remote) io" where
  "build_remote pd s = bind_io (decrypt_config pd s) (\<lambda>c. new_client pd (dc_url c) (dc_api_token c))"

definition api_of :: "'n transport \<Rightarrow> 'n machine client_api" where
  "api_of tr =
     \<lparr>cl_get_asset = (\<lambda>i. on_rest (explained Remote (get_asset tr i))),
      cl_patch_asset = (\<lambda>i q. on_rest (explained Remote (patch_asset tr i q))),
      cl_checkout_asset = (\<lambda>i q. on_rest (explained Remote (checkout_asset tr i q))),
      cl_checkin_asset = (\<lambda>i q. on_rest (explained Remote (checkin_asset tr i q)))\<rparr>"

definition remote_unavailable :: "('w, 'a) io" where
  "remote_unavailable = fail (Message ''remote client is unavailable'')"

definition remote_patch :: "'n production \<Rightarrow> remote \<Rightarrow> u64 \<Rightarrow> asset_patch_request \<Rightarrow> ('n machine, asset) io" where
  "remote_patch pd remote asset_id request = (case remote of
     UnavailableRemote \<Rightarrow> remote_unavailable
   | ClientRemote u token \<Rightarrow> reconcile_patch (api_of (pd_transport pd u token)) asset_id request)"

definition remote_checkout :: "'n production \<Rightarrow> remote \<Rightarrow> monitor_checkout \<Rightarrow> ('n machine, unit) io" where
  "remote_checkout pd remote operation = (case remote of
     UnavailableRemote \<Rightarrow> remote_unavailable
   | ClientRemote u token \<Rightarrow> reconcile_checkout (api_of (pd_transport pd u token)) operation)"

definition remote_checkin :: "'n production \<Rightarrow> remote \<Rightarrow> monitor_checkin \<Rightarrow> ('n machine, unit) io" where
  "remote_checkin pd remote operation = (case remote of
     UnavailableRemote \<Rightarrow> remote_unavailable
   | ClientRemote u token \<Rightarrow> reconcile_checkin (api_of (pd_transport pd u token)) operation)"

definition unresolved_taxonomy :: resolved_taxonomy where
  "unresolved_taxonomy =
     \<lparr>tx_manufacturer = Missing, tx_category = Missing, tx_model = Missing, normalized_manufacturer = [],
      normalized_model = []\<rparr>"

definition remote_reads_of :: "'n production \<Rightarrow> remote \<Rightarrow> 'n machine remote_reads" where
  "remote_reads_of pd remote = (case remote of
     UnavailableRemote \<Rightarrow> \<lparr>rr_find_asset = (\<lambda>_. ret None), rr_resolve_taxonomy = (\<lambda>_ _. ret unresolved_taxonomy)\<rparr>
   | ClientRemote u token \<Rightarrow>
       let reads = client_reads (pd_transport pd u token) (pd_manufacturers pd) (pd_models pd) (pd_lowercase pd) in
       \<lparr>rr_find_asset = (\<lambda>serial. on_rest (rr_find_asset reads serial)),
        rr_resolve_taxonomy = (\<lambda>manufacturer model. on_rest (rr_resolve_taxonomy reads manufacturer model))\<rparr>)"

section \<open>The journal\<close>

text \<open>
  \<open>BufRead::lines\<close>: a terminated line loses its line feed and a carriage return before it, and there is
  no line after the last line feed.
\<close>

definition without_cr :: "u8 list \<Rightarrow> u8 list" where
  "without_cr line = (if line \<noteq> [] \<and> last line = 13 then butlast line else line)"

definition buf_lines :: "u8 list \<Rightarrow> u8 list list" where
  "buf_lines bytes =
     (let lines = split_lines bytes; unterminated = last lines in
      List.map without_cr (butlast lines) @ (if unterminated = [] then [] else [unterminated]))"

fun parse_lines :: "(u8 list \<Rightarrow> string option) \<Rightarrow> line_decoder \<Rightarrow> u8 list list \<Rightarrow> (journal_record list, string) result" where
  "parse_lines utf8 decode [] = Ok []"
| "parse_lines utf8 decode (line # lines) =
     (if utf8 line = None then Err ''stream did not contain valid UTF-8''
      else case decode line of
        Err _ \<Rightarrow> Err ''invalid operation journal record''
      | Ok r \<Rightarrow> map_ok (\<lambda>rs. r # rs) (parse_lines utf8 decode lines))"

definition load_journal ::
  "(u8 list \<Rightarrow> string option) \<Rightarrow> line_decoder \<Rightarrow> journal_faults \<Rightarrow> journal_disk
     \<Rightarrow> (journal_record list, string) result \<times> journal_disk" where
  "load_journal utf8 decode io d =
     (case jd_active d of
        None \<Rightarrow> (Ok [], d)
      | Some bytes \<Rightarrow>
          (if read_fails io then Err ''failed to open the journal'' else parse_lines utf8 decode (buf_lines bytes), d))"

definition done_or :: "string \<Rightarrow> bool \<times> 'd \<Rightarrow> (unit, string) result \<times> 'd" where
  "done_or why r = (if fst r then Ok () else Err why, snd r)"

text \<open>The engine's environment; the hooks around the terminal append are \<open>ProductionJournalFinalization\<close>.\<close>

definition production_engine :: "'n production \<Rightarrow> remote \<Rightarrow> 'n machine engine_env" where
  "production_engine pd remote =
     \<lparr>env_append = (\<lambda>r. on_journal (pd_faults pd) (\<lambda>io d.
        done_or ''failed to append to the journal'' (append_record (pd_encode pd) io d r))),
      env_recover = on_journal (pd_faults pd) (\<lambda>io d.
        case recover_journal (pd_decode pd) io d of
          (None, d') \<Rightarrow> (Err ''failed to read the journal'', d') | (Some outcome, d') \<Rightarrow> (Ok outcome, d')),
      env_compact = (\<lambda>rs. on_journal (pd_faults pd) (\<lambda>io d.
        done_or ''failed to compact the journal'' (compact (pd_encode pd) io d rs))),
      env_patch = remote_patch pd remote, env_checkout = remote_checkout pd remote,
      env_checkin = remote_checkin pd remote, env_before_terminal = ret (), env_after_terminal = ret ()\<rparr>"

section \<open>Discovery\<close>

definition smbios_error_text :: "smbios_parse_error \<Rightarrow> string" where
  "smbios_error_text e = (case e of
     Empty \<Rightarrow> ''SMBIOS data is empty''
   | Truncated offset \<Rightarrow> ''SMBIOS structure is truncated at offset '' @ dec_nat offset
   | InvalidLength offset \<Rightarrow> ''SMBIOS structure has invalid length at offset '' @ dec_nat offset
   | UnterminatedStrings offset \<Rightarrow> ''SMBIOS string table is unterminated at offset '' @ dec_nat offset
   | MissingSystem \<Rightarrow> ''required SMBIOS system information is missing''
   | MissingChassis \<Rightarrow> ''required SMBIOS chassis information is missing'')"

definition read_smbios :: "'n production \<Rightarrow> ('n, u8 list) io" where
  "read_smbios pd = (\<lambda>n.
     case pd_firmware_size pd n of (needed, n1) \<Rightarrow>
     if needed = 0 then (Err (Message ''GetSystemFirmwareTable size query failed''), n1)
     else case pd_firmware_table pd needed n1 of ((written, bytes), n2) \<Rightarrow>
       (if written \<noteq> needed
        then Err (Message (''GetSystemFirmwareTable returned '' @ dec written @ '' of '' @ dec needed @ '' bytes''))
        else Ok bytes, n2))"

definition query_monitors :: "'n production \<Rightarrow> ('n, monitor_info list) io" where
  "query_monitors pd =
     bind_io (explained (\<lambda>e. Message (''failed to connect to ROOT'' @ [CHR 0x5C] @ ''WMI: '' @ e)) (pd_wmi_connect pd)) (\<lambda>_ n.
       case pd_wmi_query pd n of (rows, n') \<Rightarrow> (as_failure (read_monitors rows), n'))"

definition discover :: "'n production \<Rightarrow> ('n, system_info \<times> monitor_info list) io" where
  "discover pd =
     bind_io (read_smbios pd) (\<lambda>raw.
     case parse_smbios_tables raw of
       Err e \<Rightarrow> fail (Message (smbios_error_text e))
     | Ok sys \<Rightarrow> bind_io (query_monitors pd) (\<lambda>monitors. ret (sys, monitors)))"

section \<open>The ports\<close>

definition file_settings_save :: "'n production \<Rightarrow> settings \<Rightarrow> ('n machine, unit) io" where
  "file_settings_save pd s =
     saving ''settings.toml'' (save_settings True (pd_pid pd) (pd_settings_format pd) ''settings.toml'' s)"

definition file_state_save :: "'n production \<Rightarrow> service_state \<Rightarrow> ('n machine, service_state) io" where
  "file_state_save pd s =
     saving ''state.toml'' (save_state True (pd_pid pd) (pd_state_format pd) ''state.toml'' s (pd_key pd))"

definition clock_now :: "'n production \<Rightarrow> 'n machine \<Rightarrow> int \<times> 'n machine" where
  "clock_now pd s = (case pd_clock pd (mc_rest s) of (t, n) \<Rightarrow> (t, s\<lparr>mc_rest := n\<rparr>))"

definition production_ports :: "'n production \<Rightarrow> ('n machine, remote) owner_ports" where
  "production_ports pd =
     \<lparr>op_encrypt = (\<lambda>plaintext. on_windows (dpapi_encrypt (pd_windows pd) plaintext)),
      op_decrypt = protector_decrypt pd,
      op_save_settings = file_settings_save pd,
      op_save_state = file_state_save pd,
      op_build = build_remote pd,
      op_engine = production_engine pd,
      op_reads = remote_reads_of pd,
      op_discover = on_rest (discover pd),
      op_now = clock_now pd,
      op_rfc3339 = pd_rfc3339 pd,
      op_hours = pd_hours pd,
      op_guard = (\<lambda>current candidate. on_journal (pd_faults pd) (\<lambda>io d.
        guard_remote_identity_change (pd_decode pd) io d current candidate)),
      op_load = on_journal (pd_faults pd) (load_journal (pd_utf8 pd) (pd_decode pd)),
      op_codec = pd_codec pd\<rparr>"

end
