(* ===== verification/Restart.thy ===== *)
theory Restart
  imports Production
begin

text \<open>
  What the next start of the service finds.  The settings and the state on the disk are compared with
  what the owner has active, through any run of commands on the machine of the production ports.
\<close>

section \<open>What is stored\<close>

definition quiet_disk :: "'n machine \<Rightarrow> disk" where
  "quiet_disk m = (mc_disk m)\<lparr>dk_outcomes := []\<rparr>"

definition stored_settings :: "'n production \<Rightarrow> settings \<Rightarrow> 'n machine \<Rightarrow> bool" where
  "stored_settings pd s m \<longleftrightarrow>
     (\<exists>bytes fl. dk_files (mc_disk m) ''settings.toml'' = Some (bytes, fl)
        \<and> tf_parse (pd_settings_format pd) bytes = Ok s \<and> validate_settings s = Ok ())"

definition stored_state :: "'n production \<Rightarrow> service_state \<Rightarrow> 'n machine \<Rightarrow> bool" where
  "stored_state pd st m \<longleftrightarrow>
     fst (load_state (pd_state_format pd) ''state.toml'' (pd_key pd) (quiet_disk m)) = Ok st"

definition stored_key :: "'n production \<Rightarrow> 'n machine \<Rightarrow> bool" where
  "stored_key pd m \<longleftrightarrow>
     length (pd_key pd) = 32 \<and> (\<exists>fl. dk_files (mc_disk m) ''state-hmac-key.bin'' = Some (pd_key pd, fl))"

definition resumes :: "'n production \<Rightarrow> 'r owner \<times> 'n machine \<Rightarrow> bool" where
  "resumes pd = (\<lambda>(ow, m).
     stored_key pd m
     \<and> (dk_files (mc_disk m) ''settings.toml'' = None \<or> (\<exists>s. stored_settings pd s m)) \<and> (\<exists>st. stored_state pd st m)
     \<and> (''settings.toml'' \<in> mc_torn m \<or> stored_settings pd (ow_settings ow) m)
     \<and> (''state.toml'' \<in> mc_torn m \<or> stored_state pd (ow_persisted ow) m))"

text \<open>The formats read back what they print.\<close>

definition formats_read_back :: "'n production \<Rightarrow> bool" where
  "formats_read_back pd \<longleftrightarrow>
     (\<forall>t bytes. sf_print (pd_state_format pd) t = Some bytes \<longrightarrow> sf_parse (pd_state_format pd) bytes = Some t)
     \<and> (\<forall>t bytes. tf_print (pd_settings_format pd) t = Some bytes \<longrightarrow> tf_parse (pd_settings_format pd) bytes = Ok t)"

lemma stored_settings_file:
  "dk_files (mc_disk m') ''settings.toml'' = dk_files (mc_disk m) ''settings.toml'' \<Longrightarrow>
   stored_settings pd s m' \<longleftrightarrow> stored_settings pd s m"
  by (simp add: stored_settings_def)

lemma stored_state_file:
  "dk_files (mc_disk m') ''state.toml'' = dk_files (mc_disk m) ''state.toml'' \<Longrightarrow>
   stored_state pd s m' \<longleftrightarrow> stored_state pd s m"
  unfolding stored_state_def
  by (subst load_same [where d' = "quiet_disk m"]) (simp_all add: quiet_disk_def)

section \<open>Ports that leave the disk alone\<close>

definition files_are :: "(string \<Rightarrow> (u8 list \<times> bool) option) \<Rightarrow> string set \<Rightarrow> 'n machine \<Rightarrow> bool" where
  "files_are files torn m \<longleftrightarrow> dk_files (mc_disk m) = files \<and> mc_torn m = torn"

lemma keeps_alive: "keeps I m \<Longrightarrow> keeps I (alive m)"
  by (simp add: keeps_def alive_def)

lemma keeps_on_rest [keeping]: "keeps (files_are files torn) (on_rest m)"
  unfolding on_rest_def by (rule keeps_alive) (simp add: keeps_def files_are_def split: prod.split)

lemma keeps_on_windows [keeping]: "keeps (files_are files torn) (on_windows m)"
  unfolding on_windows_def by (rule keeps_alive) (simp add: keeps_def files_are_def split: prod.split)

lemma keeps_on_journal [keeping]: "keeps (files_are files torn) (on_journal faults f)"
  unfolding on_journal_def by (rule keeps_alive) (simp add: keeps_def files_are_def split: prod.split)

lemma keeps_reconcile [keeping]:
  "keeps (files_are files torn) (reconcile_patch (api_of tr) i q)"
  "keeps (files_are files torn) (reconcile_checkout (api_of tr) c)"
  "keeps (files_are files torn) (reconcile_checkin (api_of tr) k)"
  unfolding reconcile_patch_def reconcile_checkout_def reconcile_checkin_def api_of_def client_api.simps
  by (intro keeping)+

lemma keeps_remote:
  "keeps (files_are files torn) (remote_patch pd remote i q)"
  "keeps (files_are files torn) (remote_checkout pd remote c)"
  "keeps (files_are files torn) (remote_checkin pd remote k)"
  unfolding remote_patch_def remote_checkout_def remote_checkin_def remote_unavailable_def
  by (cases remote; simp del: fail_apply; intro keeping)+

lemma keeps_build_remote: "keeps (files_are files torn) (build_remote pd s)"
  unfolding build_remote_def decrypt_config_def new_client_def token_text_def by (intro keeping)

lemma keeps_reads:
  "keeps (files_are files torn) (rr_find_asset (remote_reads_of pd remote) serial)"
  "keeps (files_are files torn) (rr_resolve_taxonomy (remote_reads_of pd remote) a b)"
  unfolding remote_reads_of_def Let_def by (cases remote; simp del: ret_apply; intro keeping)+

lemma production_ports_keep: "ports_keep (files_are files torn) (production_ports pd)"
proof -
  have "files_are files torn m \<Longrightarrow> files_are files torn (snd (clock_now pd m))" for m
    by (simp add: files_are_def clock_now_def split: prod.split)
  then show ?thesis
    unfolding ports_keep_def engine_keeps_def production_ports_def production_engine_def protector_decrypt_def
      token_text_def owner_ports.simps engine_env.simps
    by (intro conjI allI impI keeping keeps_remote keeps_build_remote keeps_reads)
qed

lemma production_step:
  assumes "port_step (production_ports pd) m m'"
  shows "dk_files (mc_disk m') = dk_files (mc_disk m)" "mc_torn m' = mc_torn m"
  using port_step_keeps [OF production_ports_keep assms, of "dk_files (mc_disk m)" "mc_torn m"]
  by (simp_all add: files_are_def)

section \<open>Saves\<close>

text \<open>A save that writes, by what it answers; and one that refuses before it writes.\<close>

lemma saved_write:
  assumes "saving path (bind_io (atomic_write True pid path bytes) (\<lambda>_. ret x)) m = (r, m')"
  shows "case r of
      Ok y \<Rightarrow> y = x \<and> dk_files (mc_disk m') path = Some (bytes, True) \<and> mc_torn m' = mc_torn m - {path}
    | Err e \<Rightarrow> (dk_files (mc_disk m') path = dk_files (mc_disk m) path \<and> mc_torn m' = mc_torn m)
        \<or> (mc_torn m' = insert path (mc_torn m)
            \<and> (dk_files (mc_disk m') path = Some (bytes, True) \<or> dk_files (mc_disk m') path = None))"
proof (cases "mc_ended m")
  case True
  with assms show ?thesis by (auto simp: saving_def on_disk_def alive_def)
next
  case False
  obtain q d where w: "atomic_write True pid path bytes (mc_disk m) = (q, d)" by (rule prod.exhaust)
  note c = atomic_write_cases [OF w]
  show ?thesis
  proof (cases q)
    case (Ok u)
    with w c assms False show ?thesis by (auto simp: saving_def on_disk_def alive_def bind_io_def)
  next
    case (Err e)
    with w c assms False show ?thesis
      by (cases e) (auto simp: saving_def on_disk_def alive_def bind_io_def split: if_splits)
  qed
qed

lemma saved_write_frame:
  assumes "saving path (bind_io (atomic_write True pid path bytes) (\<lambda>_. ret x)) m = (r, m')"
    and "q \<noteq> path" "q \<notin> temporary_names path pid"
  shows "dk_files (mc_disk m') q = dk_files (mc_disk m) q"
proof (cases "mc_ended m")
  case True
  with assms(1) show ?thesis by (auto simp: saving_def on_disk_def alive_def)
next
  case False
  have "keeps (file_is q y) (bind_io (atomic_write True pid path bytes) (\<lambda>_. ret x))" for y
    by (intro keeping keeps_atomic_write assms(2,3))
  then have "dk_files (snd (bind_io (atomic_write True pid path bytes) (\<lambda>_. ret x) (mc_disk m))) q = dk_files (mc_disk m) q"
    by (simp add: keeps_def file_is_def)
  with False assms(1) show ?thesis
    by (auto simp: saving_def on_disk_def alive_def split: prod.splits result.splits stop.splits if_splits)
qed

lemma bind_ret_unit: "bind_io m (\<lambda>_. ret ()) = m"
  by (auto simp: bind_io_def fun_eq_iff split: prod.split result.split)

lemma refused_save:
  "saving path (fail (Stopped why)) m = (Err (if mc_ended m then ended else Message why), m)"
  by (simp add: saving_def on_disk_def alive_def)

lemma data_file_names:
  "''state.toml'' \<notin> temporary_names ''settings.toml'' pid" "''settings.toml'' \<notin> temporary_names ''state.toml'' pid"
  "''state-hmac-key.bin'' \<notin> temporary_names ''settings.toml'' pid" "''state-hmac-key.bin'' \<notin> temporary_names ''state.toml'' pid"
  "''settings.toml'' \<notin> temporary_names ''state-hmac-key.bin'' pid"
  by (auto simp: temporary_names_def temporary_path_with_identity_def owner_metadata_path_def)

lemma settings_saved:
  assumes "formats_read_back pd" "file_settings_save pd s m = (r, m')"
  shows "dk_files (mc_disk m') ''state.toml'' = dk_files (mc_disk m) ''state.toml''
    \<and> (stored_key pd m' \<longleftrightarrow> stored_key pd m)
    \<and> (case r of
         Ok _ \<Rightarrow> stored_settings pd s m' \<and> mc_torn m' = mc_torn m - {''settings.toml''}
       | Err e \<Rightarrow> (dk_files (mc_disk m') ''settings.toml'' = dk_files (mc_disk m) ''settings.toml'' \<and> mc_torn m' = mc_torn m)
           \<or> (mc_torn m' = insert ''settings.toml'' (mc_torn m)
               \<and> (stored_settings pd s m' \<or> dk_files (mc_disk m') ''settings.toml'' = None)))"
proof (cases "validate_settings s = Ok () \<and> tf_print (pd_settings_format pd) s \<noteq> None")
  case True
  then obtain bytes where b: "validate_settings s = Ok ()" "tf_print (pd_settings_format pd) s = Some bytes"
    by auto
  then have "file_settings_save pd s =
      saving ''settings.toml'' (bind_io (atomic_write True (pd_pid pd) ''settings.toml'' bytes) (\<lambda>_. ret ()))"
    by (simp add: file_settings_save_def save_settings_def bind_ret_unit)
  with assms(2) have w: "saving ''settings.toml'' (bind_io (atomic_write True (pd_pid pd) ''settings.toml'' bytes) (\<lambda>_. ret ())) m = (r, m')"
    by simp
  have new: "stored_settings pd s m'" if "dk_files (mc_disk m') ''settings.toml'' = Some (bytes, True)"
    using that b assms(1) by (auto simp: stored_settings_def formats_read_back_def)
  show ?thesis
    using saved_write [OF w] saved_write_frame [OF w _ data_file_names(1)] saved_write_frame [OF w _ data_file_names(3)] new
    by (cases r) (auto simp: stored_key_def)
next
  case False
  then obtain why where "save_settings True (pd_pid pd) (pd_settings_format pd) ''settings.toml'' s = fail (Stopped why)"
    by (cases "validate_settings s = Ok ()") (auto simp: save_settings_def)
  with assms(2) show ?thesis by (auto simp: file_settings_save_def refused_save)
qed

lemma state_saved:
  assumes "formats_read_back pd" "file_state_save pd s m = (r, m')"
  shows "dk_files (mc_disk m') ''settings.toml'' = dk_files (mc_disk m) ''settings.toml''
    \<and> (stored_key pd m' \<longleftrightarrow> stored_key pd m)
    \<and> (case r of
         Ok saved \<Rightarrow> stored_state pd saved m' \<and> mc_torn m' = mc_torn m - {''state.toml''}
       | Err e \<Rightarrow> (dk_files (mc_disk m') ''state.toml'' = dk_files (mc_disk m) ''state.toml'' \<and> mc_torn m' = mc_torn m)
           \<or> (mc_torn m' = insert ''state.toml'' (mc_torn m) \<and> (\<exists>st. stored_state pd st m')))"
proof (cases "\<exists>tagged bytes. sign (sf_to_vec (pd_state_format pd)) (sf_hmac (pd_state_format pd)) s (pd_key pd) = Ok tagged
    \<and> sf_print (pd_state_format pd) tagged = Some bytes")
  case True
  then obtain tagged bytes where
    b: "sign (sf_to_vec (pd_state_format pd)) (sf_hmac (pd_state_format pd)) s (pd_key pd) = Ok tagged"
      "sf_print (pd_state_format pd) tagged = Some bytes"
    by blast
  with assms(2) have
    w: "saving ''state.toml'' (bind_io (atomic_write True (pd_pid pd) ''state.toml'' bytes) (\<lambda>_. ret tagged)) m = (r, m')"
    by (simp add: file_state_save_def save_state_def)
  have new: "stored_state pd tagged m'" if "dk_files (mc_disk m') ''state.toml'' = Some (bytes, True)"
    unfolding stored_state_def
    by (subst load_signed [OF b]) (use b assms(1) that in \<open>auto simp: quiet_disk_def formats_read_back_def\<close>)
  have none: "stored_state pd default_state m'" if "dk_files (mc_disk m') ''state.toml'' = None"
    using that by (simp add: stored_state_def load_state_def quiet_disk_def)
  show ?thesis
    using saved_write [OF w] saved_write_frame [OF w _ data_file_names(2)] saved_write_frame [OF w _ data_file_names(4)] new none
    by (cases r) (auto simp: stored_key_def)
next
  case False
  then obtain why where "save_state True (pd_pid pd) (pd_state_format pd) ''state.toml'' s (pd_key pd) = fail (Stopped why)"
    by (cases "sign (sf_to_vec (pd_state_format pd)) (sf_hmac (pd_state_format pd)) s (pd_key pd)")
      (auto simp: save_state_def)
  with assms(2) show ?thesis by (auto simp: file_state_save_def refused_save)
qed

section \<open>Commands keep what a restart needs\<close>

lemma resumes_same_files:
  assumes "resumes pd (ow, m)" "dk_files (mc_disk m') = dk_files (mc_disk m)" "mc_torn m' = mc_torn m"
    and "ow_settings ow' = ow_settings ow" "ow_persisted ow' = ow_persisted ow"
  shows "resumes pd (ow', m')"
  using assms stored_settings_file [of m' m pd] stored_state_file [of m' m pd] by (simp add: resumes_def stored_key_def)

lemma resumes_settings_saved:
  assumes "formats_read_back pd" "resumes pd (ow, m)" "file_settings_save pd s m = (r, m')"
    and "ow_persisted ow' = ow_persisted ow" "ow_settings ow' = (if r = Ok () then s else ow_settings ow)"
  shows "resumes pd (ow', m')"
proof -
  note saved = settings_saved [OF assms(1,3)]
  then have "\<And>st. stored_state pd st m' \<longleftrightarrow> stored_state pd st m"
    by (intro stored_state_file) (rule conjunct1)
  moreover from saved stored_settings_file [of m' m pd] assms(2,5) have
    "(dk_files (mc_disk m') ''settings.toml'' = None \<or> (\<exists>s. stored_settings pd s m'))
     \<and> (''settings.toml'' \<in> mc_torn m' \<or> stored_settings pd (ow_settings ow') m')"
    by (cases r) (auto simp: resumes_def)
  moreover from saved have "''state.toml'' \<in> mc_torn m' \<longleftrightarrow> ''state.toml'' \<in> mc_torn m"
    by (cases r) auto
  moreover from saved have "stored_key pd m' \<longleftrightarrow> stored_key pd m" by (cases r) auto
  ultimately show ?thesis using assms(2,4) by (simp add: resumes_def)
qed

lemma resumes_state_saved:
  assumes "formats_read_back pd" "resumes pd (ow, m)" "file_state_save pd s m = (r, m')"
    and "ow_settings ow' = ow_settings ow"
    and "ow_persisted ow' = (case r of Ok saved \<Rightarrow> saved | Err _ \<Rightarrow> ow_persisted ow)"
  shows "resumes pd (ow', m')"
proof -
  note saved = state_saved [OF assms(1,3)]
  then have "\<And>st. stored_settings pd st m' \<longleftrightarrow> stored_settings pd st m"
    by (intro stored_settings_file) (rule conjunct1)
  moreover from saved stored_state_file [of m' m pd] assms(2,5) have
    "(\<exists>s. stored_state pd s m') \<and> (''state.toml'' \<in> mc_torn m' \<or> stored_state pd (ow_persisted ow') m')"
    by (cases r) (auto simp: resumes_def)
  moreover from saved have "''settings.toml'' \<in> mc_torn m' \<longleftrightarrow> ''settings.toml'' \<in> mc_torn m"
    "dk_files (mc_disk m') ''settings.toml'' = dk_files (mc_disk m) ''settings.toml''"
    by (cases r; auto)+
  moreover from saved have "stored_key pd m' \<longleftrightarrow> stored_key pd m" by (cases r) auto
  ultimately show ?thesis using assms(2,4) by (simp add: resumes_def)
qed

lemma production_saves:
  "op_save_settings (production_ports pd) = file_settings_save pd" "op_save_state (production_ports pd) = file_state_save pd"
  by (simp_all add: production_ports_def)

lemma production_contract:
  assumes "formats_read_back pd"
  shows "owner_commands (production_ports pd) (resumes pd)"
proof
  fix candidate
  show "keeps (resumes pd) (save_and_activate (production_ports pd) candidate)"
    unfolding keeps_def
  proof (intro allI impI)
    fix x :: "remote owner \<times> 'a machine" assume "resumes pd x"
    moreover obtain ow m where x: "x = (ow, m)" by (rule prod.exhaust)
    ultimately have I: "resumes pd (ow, m)" by simp
    obtain r m' where s: "file_state_save pd candidate m = (r, m')" by (rule prod.exhaust)
    from resumes_state_saved [OF assms I s, of "case r of Ok saved \<Rightarrow> ow\<lparr>ow_persisted := saved\<rparr> | Err _ \<Rightarrow> ow"] s x
    show "resumes pd (snd (save_and_activate (production_ports pd) candidate x))"
      by (cases r) (auto simp: save_and_activate_def bind_io_def outside_def step_apply production_saves)
  qed
next
  fix ow :: "remote owner" and m s m' polling and remote :: remote
  assume I: "resumes pd (ow, m)"
  { assume "op_save_settings (production_ports pd) s m = (Ok (), m')"
    then show "resumes pd (ow\<lparr>ow_polling := polling, ow_settings := s, ow_remote := remote, ow_state := configured_state s\<rparr>, m')"
      unfolding production_saves by (rule resumes_settings_saved [OF assms I]) simp_all }
  { fix e assume "op_save_settings (production_ports pd) s m = (Err e, m')"
    then show "resumes pd (ow, m')"
      unfolding production_saves by (rule resumes_settings_saved [OF assms I]) simp_all }
next
  fix m m' :: "'a machine" and ow :: "remote owner"
  assume "port_step (production_ports pd) m m'"
  note same = production_step [OF this]
  assume "resumes pd (ow, m)"
  from this same show "resumes pd (ow, m')" by (rule resumes_same_files) simp_all
qed (simp_all add: resumes_def)

section \<open>The start\<close>

text \<open>
  The part of a start that loads the files and makes the owner, with the bytes that a new key would
  have; and the ports under the key that is loaded.
\<close>

definition keyed :: "'n production \<Rightarrow> u8 list \<Rightarrow> 'n production" where
  "keyed pd key = pd\<lparr>pd_key := key\<rparr>"

definition boot :: "'n production \<Rightarrow> u8 list \<Rightarrow> ('n machine, u8 list \<times> remote owner) io" where
  "boot pd random =
     bind_io (on_disk (load_settings True (pd_pid pd) (pd_settings_format pd) ''settings.toml'')) (\<lambda>s.
     bind_io (admit_journal_for_startup (production_engine pd UnavailableRemote)) (\<lambda>_.
     bind_io (on_disk (load_or_create_key True (pd_pid pd) ''state-hmac-key.bin'' random)) (\<lambda>key.
     bind_io (on_disk (load_state (pd_state_format pd) ''state.toml'' key)) (\<lambda>persisted.
     bind_io (start_owner (production_ports (keyed pd key)) s persisted UnavailableRemote) (\<lambda>ow. ret (key, ow))))))"

text \<open>The commands that the owner handles, one after the other.\<close>

definition handled :: "('w, 'r) owner_ports \<Rightarrow> service_command list \<Rightarrow> 'r owner \<times> 'w \<Rightarrow> 'r owner \<times> 'w" where
  "handled ports commands s = fold (\<lambda>command s. snd (handle ports command s)) commands s"

lemma on_disk_Ok: "on_disk f m = (Ok x, m') \<longleftrightarrow> \<not> mc_ended m \<and> (\<exists>d. f (mc_disk m) = (Ok x, d) \<and> m' = m\<lparr>mc_disk := d\<rparr>)"
  by (auto simp: on_disk_def alive_def ended_def split: prod.splits result.splits stop.splits)

lemma next_outcome_files: "next_outcome d = (x, d') \<Longrightarrow> dk_files d' = dk_files d"
  by (cases "dk_outcomes d") (auto simp: next_outcome_def)

lemma read_file_keeps:
  assumes "read_file path d = (r, d')"
  shows "dk_files d' = dk_files d"
proof (cases "dk_files d path")
  case None
  with assms show ?thesis by (simp add: read_file_eq)
next
  case (Some p)
  obtain x d1 where n: "next_outcome d = (x, d1)" by (rule prod.exhaust)
  from assms Some n next_outcome_files [OF n] show ?thesis
    by (cases x; cases p) (simp_all add: read_file_eq)
qed

lemma loaded_settings:
  assumes "load_settings windows pid tf path d = (Ok s, d')"
  shows "(\<exists>bytes fl. dk_files d' path = Some (bytes, fl) \<and> tf_parse tf bytes = Ok s) \<and> validate_settings s = Ok ()"
proof -
  obtain bytes d1 d2 where r: "read_file path d1 = (Ok bytes, d2)" and rest: "(case tf_parse tf bytes of
       Err span \<Rightarrow> fail (Stopped (''invalid settings schema at '' @
         (case span of None \<Rightarrow> ''unknown location'' | Some n \<Rightarrow> ''byte '' @ dec_nat n)))
     | Ok s \<Rightarrow> if validate_settings s \<noteq> Ok () then fail (Stopped ''invalid settings values'') else ret s) d2 = (Ok s, d')"
    using assms unfolding load_settings_def bind_io_eq_Ok by blast
  from rest have "tf_parse tf bytes = Ok s" "validate_settings s = Ok ()" "d' = d2"
    by (cases "tf_parse tf bytes"; auto split: if_splits)+
  with read_file_Ok [OF r] read_file_keeps [OF r] show ?thesis by auto
qed

lemma loaded_state:
  assumes "load_state sf path key d = (Ok s, d')"
  shows "dk_files d' = dk_files d" "fst (load_state sf path key (d'\<lparr>dk_outcomes := []\<rparr>)) = Ok s"
proof -
  have "dk_files d' = dk_files d \<and> fst (load_state sf path key (d\<lparr>dk_outcomes := []\<rparr>)) = Ok s"
  proof (cases "dk_files d path = None")
    case True
    with assms show ?thesis by (simp add: load_state_def)
  next
    case False
    obtain r d1 where read: "read_file path d = (r, d1)" by (rule prod.exhaust)
    with False assms obtain bytes where r: "r = Ok bytes" by (cases r) (auto simp: load_state_def bind_io_def)
    obtain fl where "dk_files d path = Some (bytes, fl)" using read_file_Ok read r by blast
    with assms read r read_file_keeps [OF read] show ?thesis
      by (auto simp: load_state_def bind_io_def split: option.splits result.splits if_splits)
  qed
  then show "dk_files d' = dk_files d" "fst (load_state sf path key (d'\<lparr>dk_outcomes := []\<rparr>)) = Ok s"
    using load_same [of "d'\<lparr>dk_outcomes := []\<rparr>" path "d\<lparr>dk_outcomes := []\<rparr>"] by auto
qed

lemma loaded_key:
  assumes "load_or_create_key windows pid path random d = (Ok key, d')" "length random = 32"
  shows "length key = 32 \<and> (\<exists>fl. dk_files d' path = Some (key, fl))"
proof (cases "dk_files d path = None")
  case True
  with assms(1) obtain d1 where "atomic_write windows pid path random d1 = (Ok (), d')" "key = random"
    by (auto simp: load_or_create_key_def bind_io_eq_Ok)
  with atomic_write_cases assms(2) show ?thesis by fastforce
next
  case False
  with assms(1) obtain d1 where r: "read_file path d = (Ok key, d1)" "length key = 32" "d' = d1"
    by (auto simp: load_or_create_key_def bind_io_eq_Ok split: if_splits)
  with read_file_Ok [OF r(1)] read_file_keeps [OF r(1)] show ?thesis by auto
qed

lemma keeps_read_file: "keeps (file_is q x) (read_file path)"
  unfolding keeps_def file_is_def by (metis prod.collapse read_file_keeps)

lemma keeps_choice:
  assumes "\<And>d. m d = (if c d then a d else b d)" "keeps I a" "keeps I b"
  shows "keeps I m"
  using assms by (simp add: keeps_def)

lemma key_frame:
  assumes "load_or_create_key windows pid path random d = (r, d')" "q \<noteq> path" "q \<notin> temporary_names path pid"
  shows "dk_files d' q = dk_files d q"
proof -
  have "keeps (file_is q x) (load_or_create_key windows pid path random)" for x
    by (rule keeps_choice [OF load_or_create_key_def]) (intro keeping keeps_read_file keeps_atomic_write assms(2,3))+
  with assms(1) show ?thesis by (metis file_is_def keepsD)
qed

lemma assembled_fields [simp]:
  "ow_settings (assembled_owner ports s persisted remote) = s"
  "ow_persisted (assembled_owner ports s persisted remote) = persisted"
  by (simp_all add: assembled_owner_def)

lemma resumes_fields:
  "resumes pd (ow, m) \<Longrightarrow> ow_settings ow' = ow_settings ow \<Longrightarrow> ow_persisted ow' = ow_persisted ow \<Longrightarrow> resumes pd (ow', m)"
  by (simp add: resumes_def)

lemma resumes_port:
  assumes "resumes pd (ow, m)" "keeps (files_are (dk_files (mc_disk m)) (mc_torn m)) f" "f m = (r, m')"
  shows "resumes pd (ow, m')"
proof -
  have "files_are (dk_files (mc_disk m)) (mc_torn m) m'"
    by (rule keepsD [OF assms(2) _ assms(3)]) (simp add: files_are_def)
  then show ?thesis
    by (intro resumes_same_files [OF assms(1)]) (simp_all add: files_are_def)
qed

lemma keeps_admit: "engine_keeps I env \<Longrightarrow> keeps I (admit_journal_for_startup env)"
  unfolding admit_journal_for_startup_def
  by (rule keeps_bind) (auto simp: engine_keeps_def split: recovery_outcome.split simp del: ret_apply fail_apply intro!: keeping)

lemma keeps_build_port: "keeps (files_are files torn) (op_build (production_ports pd) s)"
  by (simp add: production_ports_def keeps_build_remote)

lemma engine_keeps_production: "engine_keeps (files_are files torn) (op_engine (production_ports pd) remote)"
  by (simp add: production_ports_keep [unfolded ports_keep_def])

lemma recovery_resumes:
  assumes "formats_read_back pd" "resumes pd (ow, m)"
    and "recover_owner_state (production_ports pd) (ow, m) = (r, (ow', m'))"
  shows "resumes pd (ow', m') \<and> ow_settings ow' = ow_settings ow"
proof -
  obtain a m1 where a: "admit_journal_for_startup (op_engine (production_ports pd) (ow_remote ow)) m = (a, m1)"
    by (rule prod.exhaust)
  have R: "resumes pd (ow, m1)"
    by (rule resumes_port [OF assms(2) keeps_admit [OF engine_keeps_production] a])
  show ?thesis
  proof (cases a)
    case (Err e)
    with a assms(3) R show ?thesis by (auto simp: recover_owner_state_def bind_io_def the_owner_def outside_def)
  next
    case (Ok u)
    with a assms(3) have rec: "recover_owner_state_with_finalization (production_ports pd) (ow, m1) = (r, (ow', m'))"
      by (auto simp: recover_owner_state_def bind_io_def the_owner_def outside_def)
    have "owner_steps (production_ports pd) (resumes pd)"
      using production_contract [OF assms(1)] by (simp add: owner_commands_def owner_settings_def)
    from keepsD [OF owner_steps.keeps_recovery(1) [OF this] R rec]
      keepsD [OF same_owner.keeps_recovery(1) _ rec, of "ow_state ow" "ow_settings ow" "ow_remote ow"]
    show ?thesis by simp
  qed
qed

lemma start_resumes:
  assumes "formats_read_back pd" "resumes pd (assembled_owner (production_ports pd) s persisted UnavailableRemote, m)"
    and "start_owner (production_ports pd) s persisted UnavailableRemote m = (Ok ow, m')"
  shows "resumes pd (ow, m')"
proof (cases "config_status s = []")
  case False
  with assms(2,3) show ?thesis by (simp add: start_owner_def)
next
  case True
  let ?P = "production_ports pd"
  from assms(3) True obtain recovered m3 remote where
    rec: "recover_operations ?P s persisted m = (Ok recovered, m3)"
    and build: "op_build ?P s m3 = (Ok remote, m')" and ow: "ow = assembled_owner ?P s recovered remote"
    by (auto simp: start_owner_def bind_io_eq_Ok simp del: split_paired_Ex)
  from rec obtain client m1 where b: "op_build ?P s m = (Ok client, m1)"
    and rest: "(case recover_owner_state ?P (assembled_owner ?P s persisted client, m1) of
         (Err e, (_, w1)) \<Rightarrow> (Err e, w1)
       | (Ok _, (recovered, w1)) \<Rightarrow> (Ok (ow_persisted recovered), w1)) = (Ok recovered, m3)"
    unfolding recover_operations_def bind_io_eq_Ok by blast
  obtain q ow2 m2 where r: "recover_owner_state ?P (assembled_owner ?P s persisted client, m1) = (q, (ow2, m2))"
    by (metis prod.exhaust)
  with rest have p: "recovered = ow_persisted ow2" "m2 = m3"
    by (cases q; simp)+
  have "resumes pd (assembled_owner ?P s persisted client, m)"
    by (rule resumes_fields [OF assms(2)]) simp_all
  from recovery_resumes [OF assms(1) resumes_port [OF this keeps_build_port b] r] p(2)
  have "resumes pd (ow2, m3)" "ow_settings ow2 = s" by simp_all
  from resumes_fields [OF resumes_port [OF this(1) keeps_build_port build], of ow] this(2) show ?thesis
    by (simp add: ow p(1))
qed

lemma boot_resumes:
  assumes "formats_read_back pd" "length random = 32" "mc_torn m = {}" "boot pd random m = (Ok (key, ow), m')"
  shows "resumes (keyed pd key) (ow, m')"
proof -
  let ?P = "production_ports (keyed pd key)"
  obtain s ma u mb mc persisted md where
    a: "on_disk (load_settings True (pd_pid pd) (pd_settings_format pd) ''settings.toml'') m = (Ok s, ma)"
    and b: "admit_journal_for_startup (production_engine pd UnavailableRemote) ma = (Ok u, mb)"
    and c: "on_disk (load_or_create_key True (pd_pid pd) ''state-hmac-key.bin'' random) mb = (Ok key, mc)"
    and d: "on_disk (load_state (pd_state_format pd) ''state.toml'' key) mc = (Ok persisted, md)"
    and e: "start_owner ?P s persisted UnavailableRemote md = (Ok ow, m')"
    using assms(4) unfolding boot_def bind_io_eq_Ok by (auto simp del: split_paired_Ex)
  have engine: "engine_keeps (files_are files torn) (production_engine pd remote)" for files torn remote
    using engine_keeps_production by (simp add: production_ports_def)
  have b': "dk_files (mc_disk mb) = dk_files (mc_disk ma)" "mc_torn mb = mc_torn ma"
    using keepsD [OF keeps_admit [OF engine] _ b, of "dk_files (mc_disk ma)" "mc_torn ma"] by (simp_all add: files_are_def)
  from a [unfolded on_disk_Ok] obtain l where l: "ma = m\<lparr>mc_disk := l\<rparr>"
    "load_settings True (pd_pid pd) (pd_settings_format pd) ''settings.toml'' (mc_disk m) = (Ok s, l)" by blast
  from loaded_settings [OF l(2)] assms(3) have a': "stored_settings pd s ma" "mc_torn ma = {}"
    by (simp_all add: stored_settings_def l(1))
  from c [unfolded on_disk_Ok] obtain f where f: "mc = mb\<lparr>mc_disk := f\<rparr>"
    "load_or_create_key True (pd_pid pd) ''state-hmac-key.bin'' random (mc_disk mb) = (Ok key, f)" by blast
  from d [unfolded on_disk_Ok] obtain g where g: "md = mc\<lparr>mc_disk := g\<rparr>"
    "load_state (pd_state_format pd) ''state.toml'' key (mc_disk mc) = (Ok persisted, g)" by blast
  have files: "dk_files g = dk_files f"
    using loaded_state(1) [OF g(2)] f(1) by simp
  then have "dk_files (mc_disk md) ''settings.toml'' = dk_files (mc_disk ma) ''settings.toml''"
    using key_frame [OF f(2) _ data_file_names(5)] b' by (simp add: g(1))
  with a' have settings: "stored_settings (keyed pd key) s md"
    by (simp add: stored_settings_def keyed_def)
  moreover have "stored_state (keyed pd key) persisted md"
    using loaded_state(2) [OF g(2)] by (simp add: stored_state_def keyed_def quiet_disk_def g(1))
  moreover have "stored_key (keyed pd key) md"
    using loaded_key [OF f(2) assms(2)] files by (simp add: stored_key_def keyed_def g(1))
  ultimately have R: "resumes (keyed pd key) (assembled_owner ?P s persisted UnavailableRemote, md)"
    by (auto simp: resumes_def)
  have "formats_read_back (keyed pd key)"
    using assms(1) by (simp add: formats_read_back_def keyed_def)
  from start_resumes [OF this R e] show ?thesis .
qed

section \<open>The next start\<close>

lemma handled_resumes:
  assumes "formats_read_back pd" "resumes pd x"
  shows "resumes pd (handled (production_ports pd) commands x)"
  using assms(2)
proof (induction commands arbitrary: x)
  case (Cons command commands)
  from owner_commands.handle_keeps [OF production_contract [OF assms(1)] Cons.prems]
  show ?case using Cons.IH by (simp add: handled_def)
qed (simp add: handled_def)

lemma load_stored_settings:
  "stored_settings pd s m \<Longrightarrow>
     fst (load_settings True pid (pd_settings_format pd) ''settings.toml'' (quiet_disk m)) = Ok s"
  by (auto simp: stored_settings_def load_settings_def bind_io_def quiet_disk_def)

lemma load_stored_key:
  "stored_key pd m \<Longrightarrow> fst (load_or_create_key True pid ''state-hmac-key.bin'' random (quiet_disk m)) = Ok (pd_key pd)"
  by (auto simp: stored_key_def load_or_create_key_def bind_io_def quiet_disk_def)

section \<open>A machine\<close>

text \<open>A machine of an unconfigured service that has been started before, with a Windows that refuses every call.\<close>

definition refusing_windows :: "'w windows" where
  "refusing_windows =
     \<lparr>wn_close = (\<lambda>_. id), wn_create_mutex = (\<lambda>_. fail ''refused''), wn_release_mutex = (\<lambda>_. id),
      wn_open_token = fail ''refused'', wn_token_elevation = (\<lambda>_. fail ''refused''),
      wn_protect = (\<lambda>_ _ _ w. ((Err ''refused'', \<lparr>bl_pointer = 0, bl_length = 0, bl_bytes = []\<rparr>), w)),
      wn_unprotect = (\<lambda>_ _ w. ((Err ''refused'', \<lparr>bl_pointer = 0, bl_length = 0, bl_bytes = []\<rparr>), w)),
      wn_wipe = (\<lambda>_ _. id), wn_descriptor = (\<lambda>_. fail ''refused''), wn_dacl = (\<lambda>_. fail ''refused''),
      wn_set_security = (\<lambda>_ _. fail 5)\<rparr>"

definition demo_production :: "nat production" where
  "demo_production =
     \<lparr>pd_pid = 7, pd_key = [], pd_state_format = demo_state_format, pd_settings_format = demo_settings_format,
      pd_codec = wire_codec, pd_encode = demo_encode, pd_decode = demo_decode,
      pd_utf8 = (\<lambda>bytes. Some (List.map (\<lambda>b. char_of (unat b)) bytes)), pd_faults = Pair (demo_io NoFault),
      pd_windows = refusing_windows, pd_url = (\<lambda>_. None), pd_http = ret (),
      pd_transport = (\<lambda>_ _. demo_transport), pd_manufacturers = (\<lambda>_. None), pd_models = (\<lambda>_. None), pd_lowercase = id,
      pd_firmware_size = Pair 0, pd_firmware_table = (\<lambda>_. Pair (0, [])), pd_wmi_connect = ret (),
      pd_wmi_query = ret [], pd_clock = (\<lambda>n. (int n, n + 1)), pd_rfc3339 = (\<lambda>_. ''now''), pd_hours = demo_hours\<rparr>"

definition demo_key :: "u8 list" where
  "demo_key = replicate 32 5"

definition demo_machine :: "nat machine" where
  "demo_machine =
     \<lparr>mc_disk = \<lparr>dk_files = [''settings.toml'' \<mapsto> ([3], True), ''state-hmac-key.bin'' \<mapsto> (demo_key, True)],
        dk_outcomes = [], dk_random = [], dk_counter = 0\<rparr>,
      mc_journal = \<lparr>jd_name = ''operations.jsonl'', jd_active = None, jd_marker = None, jd_files = []\<rparr>,
      mc_ledger = empty_ledger, mc_rest = 0, mc_ended = False, mc_torn = {}\<rparr>"

lemma demo_formats: "formats_read_back demo_production"
  by (auto simp: formats_read_back_def demo_production_def demo_state_format_def demo_settings_format_def split: if_splits)

lemma demo_boot:
  "\<exists>ow m. boot demo_production demo_key demo_machine = (Ok (demo_key, ow), m)"
proof -
  let ?pd = demo_production and ?m = demo_machine
  have valid: "validate_settings default_settings = Ok ()" "config_status default_settings \<noteq> []" by code_simp+
  have disk: "dk_outcomes (mc_disk ?m) = []" "\<not> mc_ended ?m" "?m\<lparr>mc_disk := mc_disk ?m\<rparr> = ?m"
    "dk_files (mc_disk ?m) ''settings.toml'' = Some ([3], True)"
    "dk_files (mc_disk ?m) ''state-hmac-key.bin'' = Some (demo_key, True)" "dk_files (mc_disk ?m) ''state.toml'' = None"
    by (simp_all add: demo_machine_def)
  have "load_settings True (pd_pid ?pd) (pd_settings_format ?pd) ''settings.toml'' (mc_disk ?m) = (Ok default_settings, mc_disk ?m)"
    using disk valid by (simp add: load_settings_def bind_io_def demo_production_def demo_settings_format_def)
  then have a: "on_disk (load_settings True (pd_pid ?pd) (pd_settings_format ?pd) ''settings.toml'') ?m = (Ok default_settings, ?m)"
    using disk by (simp add: on_disk_def alive_def)
  have b: "admit_journal_for_startup (production_engine ?pd UnavailableRemote) ?m = (Ok (), ?m)"
    by (simp add: admit_journal_for_startup_def bind_io_def production_engine_def on_journal_def alive_def demo_production_def
        demo_machine_def recover_journal_def recovery_marker_present_def demo_io_def)
  have "load_or_create_key True (pd_pid ?pd) ''state-hmac-key.bin'' demo_key (mc_disk ?m) = (Ok demo_key, mc_disk ?m)"
    using disk by (simp add: load_or_create_key_def bind_io_def) (simp add: demo_key_def)
  then have c: "on_disk (load_or_create_key True (pd_pid ?pd) ''state-hmac-key.bin'' demo_key) ?m = (Ok demo_key, ?m)"
    using disk by (simp add: on_disk_def alive_def)
  have d: "on_disk (load_state (pd_state_format ?pd) ''state.toml'' demo_key) ?m = (Ok default_state, ?m)"
    using disk by (simp add: on_disk_def alive_def load_state_def)
  show ?thesis
    using a b c d valid by (simp add: boot_def start_owner_def)
qed

end
