(* ===== verification/InterruptedWrite.thy ===== *)
theory InterruptedWrite
  imports DiskFrame Identity
begin

text \<open>
  The harness by which the program tests its atomic writes, on the model of those writes: the
  controllers of \<open>spotter-svc/src/atomic_file.rs\<close> that inject a fault or stop at a barrier, and the helper
  process \<open>spotter-svc/src/bin/spotter-atomic-helper.rs\<close> that is killed at the barrier.  What they show of
  a write is what they claim to show.
\<close>

section \<open>Injected faults\<close>

datatype fault_point = CreateTemporary | WriteTemporary | FlushTemporary | BeforeReplace | AfterReplace | DirectoryFlush

definition fault_text :: "fault_point \<Rightarrow> string" where
  "fault_text p = (case p of
     CreateTemporary \<Rightarrow> ''injected failure during temporary creation''
   | WriteTemporary \<Rightarrow> ''injected failure during temporary write''
   | FlushTemporary \<Rightarrow> ''injected failure during temporary flush''
   | BeforeReplace \<Rightarrow> ''injected failure before replacement''
   | AfterReplace \<Rightarrow> ''injected failure after replacement''
   | DirectoryFlush \<Rightarrow> ''injected failure during directory flush'')"

definition fault_at :: "fault_point \<Rightarrow> fault_point \<Rightarrow> unit disk_io" where
  "fault_at p q = (if p = q then fail (Stopped (fault_text q)) else ret ())"

definition injected_fault :: "fault_point \<Rightarrow> fault_controller" where
  "injected_fault p = noop_fault_controller
     \<lparr>before_temporary_creation := fault_at p CreateTemporary, after_temporary_write := fault_at p WriteTemporary,
      before_temporary_flush := fault_at p FlushTemporary, before_replace := fault_at p BeforeReplace,
      after_replace := fault_at p AfterReplace, before_directory_flush := fault_at p DirectoryFlush\<rparr>"

definition write_with_fault :: "u32 \<Rightarrow> string \<Rightarrow> u8 list \<Rightarrow> fault_point \<Rightarrow> unit disk_io" where
  "write_with_fault pid path bytes p = write_with_controller True pid (injected_fault p) path bytes"

section \<open>Barriers\<close>

datatype barrier_point = BarrierBefore | BarrierAfter

text \<open>\<open>fs::write\<close> creates or empties the file and then writes it.\<close>

definition fs_write :: "string \<Rightarrow> u8 list \<Rightarrow> unit disk_io" where
  "fs_write name bytes =
     bind_io (file_op ''failed to create'' (set_file name (Some ([], False))) (\<lambda>_. id)) (\<lambda>_. write_all name bytes)"

definition bytes_of :: "string \<Rightarrow> u8 list" where
  "bytes_of s = List.map (\<lambda>c. of_nat (byte c)) s"

definition barrier_controller :: "barrier_point \<Rightarrow> unit disk_io \<Rightarrow> string \<Rightarrow> fault_controller" where
  "barrier_controller p wait marker = noop_fault_controller
     \<lparr>before_replace :=
        (if p = BarrierBefore then bind_io (fs_write marker (bytes_of ''before-replace'')) (\<lambda>_. wait) else ret ()),
      after_replace :=
        (if p = BarrierAfter then bind_io (fs_write marker (bytes_of ''after-replace'')) (\<lambda>_. wait) else ret ())\<rparr>"

definition write_with_barriers :: "u32 \<Rightarrow> string \<Rightarrow> u8 list \<Rightarrow> barrier_point \<Rightarrow> unit disk_io \<Rightarrow> string \<Rightarrow> unit disk_io" where
  "write_with_barriers pid path bytes p wait marker =
     write_with_controller True pid (barrier_controller p wait marker) path bytes"

definition create_owned_temporary_for_test :: "string \<Rightarrow> u32 \<Rightarrow> u64 \<Rightarrow> string disk_io" where
  "create_owned_temporary_for_test path owner_pid nonce =
     (let temporary = temporary_path_with_identity path owner_pid nonce in
      bind_io (fs_write temporary (bytes_of ''test temporary'')) (\<lambda>_.
      bind_io (fs_write (owner_metadata_path temporary) (owner_text owner_pid nonce)) (\<lambda>_. ret temporary)))"

section \<open>The helper\<close>

text \<open>The arguments after the program's name; one that is not Unicode is no barrier point.\<close>

definition helper_arguments :: "(string \<Rightarrow> bool) \<Rightarrow> string list \<Rightarrow> (string \<times> string \<times> barrier_point, string) result" where
  "helper_arguments unicode arguments = (case arguments of
     [] \<Rightarrow> Err ''atomic helper requires a destination path''
   | [path] \<Rightarrow> Err ''atomic helper requires a marker path''
   | [path, marker] \<Rightarrow> Err ''atomic helper requires a barrier point''
   | path # marker # point # rest \<Rightarrow>
       if \<not> unicode point then Err ''atomic helper requires a barrier point''
       else
         and_then
           (if point = ''before-replace'' then Ok BarrierBefore
            else if point = ''after-replace'' then Ok BarrierAfter
            else Err (''unknown atomic helper barrier: '' @ point)) (\<lambda>p.
           if rest \<noteq> [] then Err ''atomic helper received unexpected arguments'' else Ok (path, marker, p)))"

text \<open>Parked until it is killed.\<close>

definition parked :: "'a disk_io" where
  "parked = (\<lambda>d. (Err Crashed, d))"

text \<open>
  With the first barrier the main thread never comes to it, and the writer waits there; with the second
  it does, and waits for the writer, which goes on.  A writer that fails before the barrier leaves the
  main thread waiting for ever: its error stands for both ends.
\<close>

definition helper :: "(string \<Rightarrow> bool) \<Rightarrow> u32 \<Rightarrow> string list \<Rightarrow> unit disk_io" where
  "helper unicode pid arguments =
     (case helper_arguments unicode arguments of
        Err e \<Rightarrow> fail (Stopped e)
      | Ok (path, marker, p) \<Rightarrow>
          bind_io (write_with_barriers pid path (bytes_of ''new-state'') p (if p = BarrierBefore then parked else ret ()) marker) (\<lambda>_.
          bind_io (fs_write marker (bytes_of ''after-replace-complete'')) (\<lambda>_. parked)))"

section \<open>Faults stop where they say\<close>

lemma injected_directory:
  "open_directory (injected_fault p) = check_op ''failed to open directory''"
  "sync_directory (injected_fault p) = check_op ''failed to sync directory''"
  by (simp_all add: injected_fault_def noop_fault_controller_def)

definition before_the_replacement :: "fault_point \<Rightarrow> bool" where
  "before_the_replacement p \<longleftrightarrow> p \<in> {CreateTemporary, WriteTemporary, FlushTemporary, BeforeReplace}"

lemma fail_bind [simp]: "bind_io (fail e) f = fail e"
  by (simp add: bind_io_def fun_eq_iff)

lemmas fault_hooks = injected_fault_def fault_at_def noop_fault_controller_def

lemma early_body_keeps:
  assumes "before_the_replacement p" "p \<noteq> CreateTemporary" "t \<noteq> path"
  shows "keeps (on_files (\<lambda>f. f path = y)) (write_body True (injected_fault p) path t bytes)"
proof -
  have "closed_for {t} (\<lambda>f. f path = y)"
    using assms(3) by (simp add: closed_for_def)
  note t = keeps_other [OF this singletonI]
  show ?thesis
    using assms(1,2)
    by (cases p) (auto simp: before_the_replacement_def write_body_def fault_hooks apply_acl_contract_def
        simp del: ret_apply fail_apply intro!: keeping t)
qed

lemma early_write_keeps:
  assumes "before_the_replacement p"
  shows "keeps (on_files (\<lambda>f. f path = y)) (write_with_fault pid path bytes p)"
proof (cases "p = CreateTemporary")
  case True
  then show ?thesis
    by (auto simp: write_with_fault_def write_with_controller_def fault_hooks simp del: ret_apply fail_apply intro!: keeping)
next
  case False
  have closed: "closed_for (temporary_names path pid) (\<lambda>f. f path = y)"
    using temporary_names_new by (auto simp: closed_for_def)
  have hook: "before_temporary_creation (injected_fault p) = ret ()"
    using False by (simp add: fault_hooks)
  show ?thesis
    unfolding write_with_fault_def write_with_controller_def hook bind_io_ret
  proof (rule keeps_bind [OF keeps_check_op], rule keeps_bind_Ok)
    show "keeps (on_files (\<lambda>f. f path = y)) (create_temporary_identity True pid path)"
      unfolding create_temporary_identity_def by (rule keeps_allocation [OF closed])
    fix names :: "string \<times> string" and d d' assume names: "create_temporary_identity True pid path d = (Ok names, d')"
    obtain t m where tm: "names = (t, m)" by (cases names)
    with names have "{t, m} \<subseteq> temporary_names path pid"
      using allocation_names by (simp add: create_temporary_identity_def)
    then have "t \<in> temporary_names path pid" "m \<in> temporary_names path pid" "t \<noteq> path"
      using temporary_names_new by auto
    then show "keeps (on_files (\<lambda>f. f path = y)) (case names of (t, m) \<Rightarrow>
        bind_io (catch_stop (write_body True (injected_fault p) path t bytes)) (\<lambda>result.
         case result of
           Err e \<Rightarrow> bind_io (ignore_error (remove_file t)) (\<lambda>_. bind_io (ignore_error (remove_file m)) (\<lambda>_. fail (Stopped e)))
         | Ok _ \<Rightarrow> bind_io (catch_stop (remove_file m)) (\<lambda>removed.
             case removed of Ok _ \<Rightarrow> ret () | Err _ \<Rightarrow> fail (Stopped (''failed to remove owner metadata for '' @ t)))))"
      unfolding tm prod.case
      by (intro keeping early_body_keeps [OF assms False] keeps_other [OF closed]) auto
  qed
qed

text \<open>An effect that never succeeds.\<close>

definition never_ok :: "('w, 'e, 'a) effect \<Rightarrow> bool" where
  "never_ok m \<longleftrightarrow> (\<forall>s. \<not> is_ok (fst (m s)))"

lemma never_ok_fail: "never_ok (fail e)"
  by (simp add: never_ok_def)

lemma never_ok_bind: "never_ok m \<or> (\<forall>x. never_ok (f x)) \<Longrightarrow> never_ok (bind_io m f)"
  by (auto simp: never_ok_def bind_io_def split: prod.split result.split) (metis fst_conv is_ok.simps(1))+

lemma never_ok_caught:
  "never_ok m \<Longrightarrow> (\<And>e. never_ok (g e)) \<Longrightarrow> never_ok (bind_io (catch_stop m) (\<lambda>r. case r of Ok x \<Rightarrow> f x | Err e \<Rightarrow> g e))"
  by (auto simp: never_ok_def bind_io_def catch_stop_def split: prod.split result.split stop.split) (metis fst_conv is_ok.simps(1))+

lemma faults_never_ok: "never_ok (write_with_fault pid path bytes p)"
proof (cases "p = CreateTemporary")
  case True
  then have "before_temporary_creation (injected_fault p) = fail (Stopped (fault_text p))"
    by (simp add: fault_hooks)
  then show ?thesis
    unfolding write_with_fault_def write_with_controller_def by (auto intro!: never_ok_bind never_ok_fail)
next
  case False
  then have "never_ok (write_body True (injected_fault p) path t bytes)" for t
    unfolding write_body_def
    by (cases p) (auto simp: fault_hooks simp del: fail_apply intro!: never_ok_bind never_ok_fail)
  then have "never_ok (bind_io (catch_stop (write_body True (injected_fault p) path t bytes)) (\<lambda>result.
         case result of
           Err e \<Rightarrow> bind_io (ignore_error (remove_file t)) (\<lambda>_. bind_io (ignore_error (remove_file m)) (\<lambda>_. fail (Stopped e)))
         | Ok _ \<Rightarrow> bind_io (catch_stop (remove_file m)) (\<lambda>removed.
             case removed of Ok _ \<Rightarrow> ret () | Err _ \<Rightarrow> fail (Stopped (''failed to remove owner metadata for '' @ t)))))" for t m
    by (rule never_ok_caught) (auto intro!: never_ok_bind never_ok_fail)
  then show ?thesis
    unfolding write_with_fault_def write_with_controller_def by (intro never_ok_bind disjI2 allI) (auto split: prod.split)
qed

lemma late_write_files:
  assumes "\<not> before_the_replacement p"
  shows "files_contract (\<lambda>f. f path = y) (write_with_fault pid path bytes p) (\<lambda>_ f. f path = Some (bytes, True))
    (\<lambda>f. f path = y \<or> f path = Some (bytes, True) \<or> f path = None)"
proof -
  have closed: "closed_for (temporary_names path pid) (\<lambda>f. R (f path))" for R :: "(u8 list \<times> bool) option \<Rightarrow> bool"
    using temporary_names_new by (auto simp: closed_for_def)
  have ne: "t \<in> temporary_names path pid \<Longrightarrow> t \<noteq> path" for t
    using temporary_names_new by blast
  show ?thesis
    unfolding write_with_fault_def
    by (rule files_controlled [where B = "\<lambda>f. f path = Some (bytes, True)", OF closed closed closed _ _ _ _ _ _ _ _ _ _ _ injected_directory])
      (use assms ne in \<open>cases p; auto simp: before_the_replacement_def fault_hooks simp del: ret_apply fail_apply
        intro!: files_ret files_fail\<close>)+
qed

text \<open>
  An injected fault stops the write where it says.  A write with a fault never succeeds; with a fault
  before the replacement it never touches the destination, whatever else fails; with one after it the
  destination is the old one, the new bytes complete and flushed, or lost by Windows.
\<close>

theorem injected_faults_stop_there:
  "case write_with_fault pid path bytes p d of (r, d') \<Rightarrow>
     \<not> is_ok r
     \<and> (if before_the_replacement p then dk_files d' path = dk_files d path
        else dk_files d' path \<in> {dk_files d path, Some (bytes, True), None})"
proof -
  obtain r d' where w: "write_with_fault pid path bytes p d = (r, d')" by (rule prod.exhaust)
  with faults_never_ok [of pid path bytes p] obtain e where e: "r = Err e"
    unfolding never_ok_def by (metis fst_conv is_ok.simps(1) result.exhaust)
  have early: "before_the_replacement p \<Longrightarrow> dk_files d' path = dk_files d path"
    using keepsD [OF early_write_keeps [where y = "dk_files d path"] _ w] by (simp add: on_files_def)
  have late: "\<not> before_the_replacement p \<Longrightarrow> dk_files d' path \<in> {dk_files d path, Some (bytes, True), None}"
    using contract_Err [OF late_write_files [unfolded files_contract_def, where y = "dk_files d path"] _ w [unfolded e]] by auto
  from w early late show ?thesis by (simp add: e)
qed

section \<open>The marker tells the truth\<close>

lemma files_fs_write:
  assumes "\<And>f. P f \<Longrightarrow> R f" "\<And>f x. R f \<Longrightarrow> R (f(marker := x))"
    and "\<And>f. P f \<Longrightarrow> E f" "\<And>f n. R f \<Longrightarrow> f marker = Some (take n text, False) \<Longrightarrow> E f"
  shows "files_contract P (fs_write marker text) (\<lambda>_ f. R f \<and> f marker = Some (text, False)) E"
proof -
  have whole: "R f \<Longrightarrow> f marker = Some (text, False) \<Longrightarrow> E f" for f
    using assms(4) [of f "length text"] by simp
  have none: "R f \<Longrightarrow> f marker = Some ([], False) \<Longrightarrow> E f" for f
    using assms(4) [of f 0] by simp
  have created: "files_contract P (file_op ''failed to create'' (set_file marker (Some ([], False))) (\<lambda>_. id))
      (\<lambda>_ f. R f \<and> f marker = Some ([], False)) E"
    by (rule files_op) (auto simp: set_file_def assms(1,2,3) intro!: none)
  have "files_contract (\<lambda>f. R f \<and> f marker = Some ([], False)) (write_all marker text)
      (\<lambda>_ f. R f \<and> f marker = Some (text, False)) E"
    unfolding write_all_def
  proof (rule files_op)
    fix n and d :: disk assume "R (dk_files d) \<and> dk_files d marker = Some ([], False)"
    then show "E (dk_files (set_file marker (Some (take n text, False)) d))"
      by (intro assms(4) [of _ n]) (simp_all add: set_file_def assms(2))
  qed (auto simp: set_file_def assms(2) intro: whole none)
  from files_bind [OF created this] show ?thesis unfolding fs_write_def .
qed

lemma files_parked: "(\<And>f. P f \<Longrightarrow> E f) \<Longrightarrow> files_contract P parked Q E"
  by (simp add: files_contract_def contract_def parked_def)

definition marker_tells :: "string \<Rightarrow> (u8 list \<times> bool) option \<Rightarrow> u8 list \<Rightarrow> string \<Rightarrow> files \<Rightarrow> bool" where
  "marker_tells path old bytes marker f \<longleftrightarrow>
     f marker = None
     \<or> (f path = old \<and> (\<exists>n. f marker = Some (take n (bytes_of ''before-replace''), False)))
     \<or> (f path = Some (bytes, True)
        \<and> (\<exists>n. f marker = Some (take n (bytes_of ''after-replace''), False)
             \<or> f marker = Some (take n (bytes_of ''after-replace-complete''), False)))"

lemma files_barriers:
  assumes "marker \<noteq> path" "marker \<notin> temporary_names path pid"
  shows "files_contract (\<lambda>f. f path = old \<and> f marker = None)
    (write_with_barriers pid path bytes p (if p = BarrierBefore then parked else ret ()) marker)
    (\<lambda>_ f. f path = Some (bytes, True) \<and> (f marker = None \<or> (\<exists>n. f marker = Some (take n (bytes_of ''after-replace''), False))))
    (marker_tells path old bytes marker)"
proof -
  let ?A = "\<lambda>f :: files. f path = old \<and> f marker = None" and ?B = "\<lambda>f :: files. f path = Some (bytes, True) \<and> f marker = None"
    and ?C = "\<lambda>f :: files. f path = Some (bytes, True) \<and> (f marker = None \<or> (\<exists>n. f marker = Some (take n (bytes_of ''after-replace''), False)))"
    and ?E = "marker_tells path old bytes marker"
    and ?wait = "if p = BarrierBefore then parked else ret () :: unit disk_io"
  let ?c = "barrier_controller p ?wait marker"
  have names: "t \<noteq> path" "t \<noteq> marker" if "t \<in> temporary_names path pid" for t
    using that temporary_names_new assms(2) by blast+
  then have closed: "closed_for (temporary_names path pid) (\<lambda>f. R (f path) (f marker))" for R
    by (auto simp: closed_for_def)
  have before: "files_contract (\<lambda>f. ?A f \<and> f t = y) (before_replace ?c) (\<lambda>_ f. ?A f \<and> f t = y) ?E" for t y
  proof (cases p)
    case BarrierBefore
    have "files_contract (\<lambda>f. ?A f \<and> f t = y) (fs_write marker (bytes_of ''before-replace''))
        (\<lambda>_ f. f path = old \<and> f marker = Some (bytes_of ''before-replace'', False)) ?E"
      by (rule files_fs_write) (use assms(1) in \<open>auto simp: marker_tells_def\<close>)
    moreover have "files_contract (\<lambda>f. f path = old \<and> f marker = Some (bytes_of ''before-replace'', False)) parked Q ?E" for Q :: "unit \<Rightarrow> files \<Rightarrow> bool"
      by (rule files_parked) (auto simp: marker_tells_def intro!: exI [of _ "length (bytes_of ''before-replace'')"])
    ultimately show ?thesis
      using BarrierBefore by (simp add: barrier_controller_def files_bind)
  qed (auto simp: barrier_controller_def simp del: ret_apply intro!: files_ret)
  have after: "files_contract ?B (after_replace ?c) (\<lambda>_. ?C) ?E"
  proof (cases p)
    case BarrierAfter
    have "files_contract ?B (fs_write marker (bytes_of ''after-replace''))
        (\<lambda>_ f. f path = Some (bytes, True) \<and> f marker = Some (bytes_of ''after-replace'', False)) ?E"
      by (rule files_fs_write) (use assms(1) in \<open>auto simp: marker_tells_def\<close>)
    then have "files_contract ?B (fs_write marker (bytes_of ''after-replace'')) (\<lambda>_. ?C) ?E"
      by (rule files_weaken) (auto intro!: exI [of _ "length (bytes_of ''after-replace'')"])
    then show ?thesis
      using BarrierAfter by (simp add: barrier_controller_def)
  qed (auto simp: barrier_controller_def simp del: ret_apply intro!: files_ret)
  have "closed_for (temporary_names path pid) ?E"
    using closed [of "\<lambda>x y. y = None \<or> (x = old \<and> (\<exists>n. y = Some (take n (bytes_of ''before-replace''), False)))
      \<or> (x = Some (bytes, True) \<and> (\<exists>n. y = Some (take n (bytes_of ''after-replace''), False)
          \<or> y = Some (take n (bytes_of ''after-replace-complete''), False)))"]
    by (simp add: marker_tells_def [abs_def])
  note closed3 = closed [of "\<lambda>x y. x = old \<and> y = None"]
    closed [of "\<lambda>x y. x = Some (bytes, True) \<and> (y = None \<or> (\<exists>n. y = Some (take n (bytes_of ''after-replace''), False)))"] this
  have hooks: "before_temporary_creation ?c = ret ()" "after_temporary_write ?c = ret ()" "before_temporary_flush ?c = ret ()"
    "before_directory_flush ?c = ret ()" "open_directory ?c = check_op ''failed to open directory''"
    "sync_directory ?c = check_op ''failed to sync directory''"
    by (simp_all add: barrier_controller_def noop_fault_controller_def)
  show ?thesis
    unfolding write_with_barriers_def
    by (rule files_controlled [where A = ?A and B = ?B and C = ?C and E = ?E, OF closed3 _ _ _ _ _ _ _ _ before after _ hooks(5,6)])
      (use names assms(1) in \<open>auto simp: hooks marker_tells_def simp del: ret_apply intro!: files_ret\<close>)
qed

lemma files_helper:
  assumes "helper_arguments unicode arguments = Ok (path, marker, p)" "marker \<noteq> path" "marker \<notin> temporary_names path pid"
  shows "files_contract (\<lambda>f. f path = old \<and> f marker = None) (helper unicode pid arguments) (\<lambda>_ _. False)
    (marker_tells path old (bytes_of ''new-state'') marker)"
proof -
  let ?new = "\<lambda>f :: files. f path = Some (bytes_of ''new-state'', True)"
  have "files_contract (\<lambda>f. ?new f \<and> (f marker = None \<or> (\<exists>n. f marker = Some (take n (bytes_of ''after-replace''), False))))
      (fs_write marker (bytes_of ''after-replace-complete''))
      (\<lambda>_ f. ?new f \<and> f marker = Some (bytes_of ''after-replace-complete'', False)) (marker_tells path old (bytes_of ''new-state'') marker)"
    by (rule files_fs_write) (use assms(2) in \<open>auto simp: marker_tells_def\<close>)
  moreover have "files_contract (\<lambda>f. ?new f \<and> f marker = Some (bytes_of ''after-replace-complete'', False)) parked (\<lambda>_ _. False)
      (marker_tells path old (bytes_of ''new-state'') marker)"
    by (rule files_parked) (auto simp: marker_tells_def intro!: exI [of _ "length (bytes_of ''after-replace-complete'')"])
  ultimately show ?thesis
    unfolding helper_def assms(1) result.case prod.case by (rule files_bind [OF files_barriers [OF assms(2,3)] files_bind])
qed

lemma marker_texts:
  "take n (bytes_of ''before-replace'') \<noteq> bytes_of ''after-replace''"
  "take n (bytes_of ''before-replace'') \<noteq> bytes_of ''after-replace-complete''"
  "take n (bytes_of ''after-replace'') \<noteq> bytes_of ''before-replace''"
  "take n (bytes_of ''after-replace-complete'') \<noteq> bytes_of ''before-replace''"
  by (cases n; simp add: bytes_of_def byte_def)+

text \<open>
  The marker tells the truth.  The helper never succeeds; wherever it fails or is killed, a marker
  that says before-replace is seen only over the old destination, and one that says after-replace or
  after-replace-complete only over the new bytes, complete and flushed.  So killing it on sight of the
  marker tests exactly the two sides of the replacement.
\<close>

theorem marker_tells_the_truth:
  assumes "helper_arguments unicode arguments = Ok (path, marker, p)"
    and "marker \<noteq> path" "marker \<notin> temporary_names path pid" "dk_files d marker = None"
    and "helper unicode pid arguments d = (r, d')"
  shows "\<not> is_ok r
    \<and> (case dk_files d' marker of
         None \<Rightarrow> True
       | Some (seen, _) \<Rightarrow>
           if seen = bytes_of ''before-replace'' then dk_files d' path = dk_files d path
           else if seen \<in> {bytes_of ''after-replace'', bytes_of ''after-replace-complete''}
           then dk_files d' path = Some (bytes_of ''new-state'', True) else True)"
proof -
  note c = files_helper [OF assms(1-3), unfolded files_contract_def, where old = "dk_files d path"]
  obtain e where e: "r = Err e"
    using contract_Ok [OF c, of d] assms(4,5) by (cases r) auto
  have tells: "marker_tells path (dk_files d path) (bytes_of ''new-state'') marker (dk_files d')"
    by (rule contract_Err [OF c _ assms(5) [unfolded e]]) (simp add: assms(4))
  have "dk_files d' path = dk_files d path" if "dk_files d' marker = Some (bytes_of ''before-replace'', fl)" for fl
    using tells that marker_texts(3,4) [THEN not_sym] by (auto simp: marker_tells_def)
  moreover have "dk_files d' path = Some (bytes_of ''new-state'', True)"
    if "dk_files d' marker = Some (seen, fl)" "seen \<in> {bytes_of ''after-replace'', bytes_of ''after-replace-complete''}" for seen fl
  proof -
    from that(2) have "\<And>n. seen \<noteq> take n (bytes_of ''before-replace'')" using marker_texts(1,2) by (auto dest: sym)
    with tells that(1) show ?thesis by (auto simp: marker_tells_def)
  qed
  ultimately show ?thesis
    by (auto simp: e split: option.split)
qed

theorem marker_tells_the_truth_witness:
  "\<not> is_ok (fst (helper (\<lambda>_. True) 7 [''s'', ''m'', ''before-replace''] (demo_disk [])))"
proof -
  obtain r d where h: "helper (\<lambda>_. True) 7 [''s'', ''m'', ''before-replace''] (demo_disk []) = (r, d)" by (rule prod.exhaust)
  have a: "helper_arguments (\<lambda>_. True) [''s'', ''m'', ''before-replace''] = Ok (''s'', ''m'', BarrierBefore)"
    by (simp add: helper_arguments_def)
  have "''m'' \<notin> temporary_names ''s'' 7"
    by (auto simp: temporary_names_def temporary_path_with_identity_def owner_metadata_path_def)
  moreover have "dk_files (demo_disk []) ''m'' = None" by (simp add: demo_disk_def)
  ultimately show ?thesis
    using marker_tells_the_truth [OF a _ _ _ h] by (simp add: h)
qed

end
