(* ===== verification/OwnerHarness.thy ===== *)
theory OwnerHarness
  imports OwnerProperties Fsm
begin

text \<open>
  \<open>spotter-svc/src/lib.rs\<close>, \<open>test_support\<close>, and \<open>service.rs\<close>, \<open>from_test_ports\<close>: the owner and its command
  loop over ports given by a test, with faults injected around the terminal records of the journal.
\<close>

section \<open>Faults of the finalization\<close>

datatype journal_finalization_fault = BeforeTerminalAppend | AfterTerminalAppend

definition before_terminal_append :: "journal_finalization_fault \<Rightarrow> ('w, unit) io" where
  "before_terminal_append fault =
     (if fault = BeforeTerminalAppend then fail (Message ''injected journal fault before terminal append'') else ret ())"

definition after_terminal_append :: "journal_finalization_fault \<Rightarrow> ('w, unit) io" where
  "after_terminal_append fault =
     (if fault = AfterTerminalAppend then fail (Message ''injected journal fault after terminal append'') else ret ())"

text \<open>The hooks of the engine: those of a fault, or those of production, which do nothing.\<close>

definition with_finalization :: "journal_finalization_fault option \<Rightarrow> 'w engine_env \<Rightarrow> 'w engine_env" where
  "with_finalization fault env = (case fault of
     Some f \<Rightarrow> env\<lparr>env_before_terminal := before_terminal_append f, env_after_terminal := after_terminal_append f\<rparr>
   | None \<Rightarrow> env\<lparr>env_before_terminal := ret (), env_after_terminal := ret ()\<rparr>)"

definition finalized_ports :: "journal_finalization_fault option \<Rightarrow> ('w, 'r) owner_ports \<Rightarrow> ('w, 'r) owner_ports" where
  "finalized_ports fault ports = ports\<lparr>op_engine := \<lambda>remote. with_finalization fault (op_engine ports remote)\<rparr>"

section \<open>Construction\<close>

text \<open>The owner of a test has no publisher.\<close>

definition from_test_ports :: "settings \<Rightarrow> service_state \<Rightarrow> 'r \<Rightarrow> 'r owner" where
  "from_test_ports s persisted remote =
     \<lparr>ow_settings = s, ow_state = configured_state s, ow_persisted = persisted, ow_remote = remote,
      ow_publisher = None, ow_polling = interval_hours (s_polling s)\<rparr>"

definition spawn_owner_inner_with_finalization ::
  "nat \<Rightarrow> settings \<Rightarrow> service_state \<Rightarrow> ('w, 'r) owner_ports \<Rightarrow> 'r \<Rightarrow> journal_finalization_fault option
     \<Rightarrow> (('w, 'r) owner_ports \<times> 'r owner \<times> fsm, string) result" where
  "spawn_owner_inner_with_finalization capacity s persisted ports remote fault =
     map_ok (\<lambda>loop. (finalized_ports fault ports, from_test_ports s persisted remote, loop))
       (ok_or ''FSM channel capacity must be nonzero'' (spawn capacity))"

definition spawn_owner ::
  "nat \<Rightarrow> settings \<Rightarrow> service_state \<Rightarrow> ('w, 'r) owner_ports \<Rightarrow> 'r
     \<Rightarrow> (('w, 'r) owner_ports \<times> 'r owner \<times> fsm, string) result" where
  "spawn_owner capacity s persisted ports remote =
     spawn_owner_inner_with_finalization capacity s persisted ports remote None"

definition spawn_owner_with_finalization ::
  "nat \<Rightarrow> settings \<Rightarrow> service_state \<Rightarrow> ('w, 'r) owner_ports \<Rightarrow> 'r \<Rightarrow> journal_finalization_fault
     \<Rightarrow> (('w, 'r) owner_ports \<times> 'r owner \<times> fsm, string) result" where
  "spawn_owner_with_finalization capacity s persisted ports remote fault =
     spawn_owner_inner_with_finalization capacity s persisted ports remote (Some fault)"

text \<open>The start with recovery: the recovery has the production hooks, and its errors are the start's.\<close>

definition spawn_owner_with_recovery ::
  "nat \<Rightarrow> settings \<Rightarrow> service_state \<Rightarrow> ('w, 'r) owner_ports \<Rightarrow> 'r
     \<Rightarrow> ('w, ('w, 'r) owner_ports \<times> 'r owner \<times> fsm) io" where
  "spawn_owner_with_recovery capacity s persisted ports remote w =
     (case recover_owner_state (finalized_ports None ports) (from_test_ports s persisted remote, w) of
        (Err e, (_, w1)) \<Rightarrow> (Err e, w1)
      | (Ok _, (recovered, w1)) \<Rightarrow>
          (as_failure (spawn_owner_inner_with_finalization capacity s (ow_persisted recovered) ports remote None), w1))"

definition enqueue_owner_request :: "service_command \<Rightarrow> nat \<Rightarrow> fsm \<Rightarrow> fsm" where
  "enqueue_owner_request command caller loop = snd (enqueue_with_generation command caller loop)"

section \<open>The start of a test is that of the service\<close>

text \<open>
  But for its publisher, the owner of a test is the service's: what a recovery leaves depends on the
  publisher in nothing but the publisher.
\<close>

definition unpublished :: "'r owner \<Rightarrow> 'r owner" where
  "unpublished ow = ow\<lparr>ow_publisher := None\<rparr>"

lemma unpublished_assembled: "unpublished (assembled_owner ports s persisted remote) = from_test_ports s persisted remote"
  by (simp add: unpublished_def assembled_owner_def from_test_ports_def)

lemma finalization_blind:
  "recover_owner_state ports (unpublished ow, w) =
     (case recover_owner_state ports (ow, w) of (r, (ow', w')) \<Rightarrow> (r, (unpublished ow', w')))"
  by (auto simp: recover_owner_state_def recover_owner_state_with_finalization_def bind_io_def the_owner_def outside_def
      save_and_activate_def set_persisted_def update_def unpublished_def split: prod.splits result.splits)

text \<open>
  A test starts the owner that the service starts.  Over ports with the production hooks, the
  recovering start of the harness answers the recovered state that the start of a configured service
  answers, or the same error, and leaves the same world; then only the construction of the loop can fail.
\<close>

theorem harness_starts_the_service:
  assumes "op_build ports s w = (Ok remote, w1)"
    and "\<And>r. with_finalization None (op_engine ports r) = op_engine ports r"
  shows "(case recover_operations ports s persisted w of
       (Err e, w2) \<Rightarrow> spawn_owner_with_recovery capacity s persisted ports remote w1 = (Err e, w2)
     | (Ok recovered, w2) \<Rightarrow>
         spawn_owner_with_recovery capacity s persisted ports remote w1 =
           (case spawn capacity of
              None \<Rightarrow> (Err (Message ''FSM channel capacity must be nonzero''), w2)
            | Some loop \<Rightarrow> (Ok (ports, unpublished (assembled_owner ports s recovered remote), loop), w2)))"
proof -
  have same: "finalized_ports None ports = ports"
    using assms(2) by (simp add: finalized_ports_def)
  obtain r ow2 w2 where rec: "recover_owner_state ports (assembled_owner ports s persisted remote, w1) = (r, (ow2, w2))"
    by (metis prod.exhaust)
  have "recover_owner_state ports (from_test_ports s persisted remote, w1) = (r, (unpublished ow2, w2))"
    using finalization_blind [of ports "assembled_owner ports s persisted remote" w1] rec by (simp add: unpublished_assembled)
  moreover have "ow_persisted (unpublished ow2) = ow_persisted ow2"
    by (simp add: unpublished_def)
  ultimately show ?thesis
    using assms(1) rec
    by (cases r) (auto simp: recover_operations_def bind_io_def spawn_owner_with_recovery_def same ok_or_def
        spawn_owner_inner_with_finalization_def unpublished_assembled split: option.split)
qed

section \<open>Faults keep the candidate\<close>

lemma finalized_fields [simp]:
  "op_save_state (finalized_ports fault ports) = op_save_state ports"
  "publish_snapshot (finalized_ports fault ports) = publish_snapshot ports"
  "op_engine (finalized_ports fault ports) remote = with_finalization fault (op_engine ports remote)"
  by (simp_all add: finalized_ports_def publish_snapshot_def)

lemma commit_faulted:
  "commit_saved (finalized_ports (Some BeforeTerminalAppend) ports) remote ids w
     = (Err (SavedCandidate (Message ''injected journal fault before terminal append'')), w)"
  "each_io (\<lambda>i. env_append (op_engine ports remote) (StateCommitted i)) ids w = (Ok u, w1) \<Longrightarrow>
   commit_saved (finalized_ports (Some AfterTerminalAppend) ports) remote ids w
     = (Err (SavedCandidate (Message ''injected journal fault after terminal append'')), w1)"
  by (simp_all add: commit_saved_def map_error_def commit_after_state_save_with_def with_finalization_def
      before_terminal_append_def after_terminal_append_def bind_io_def)

text \<open>
  A fault of the finalization keeps the candidate.  When the state has been saved, a fault around
  the terminal records leaves it active, as it was saved, and is answered as a saved candidate: with the
  fault before them the world is that of the save, with the fault after them that of all the terminal
  records appended and nothing compacted.
\<close>

theorem finalization_faults_keep_candidate:
  assumes "op_save_state ports candidate w = (Ok saved, w1)"
    and "each_io (\<lambda>i. env_append (op_engine ports (ow_remote ow)) (StateCommitted i)) ids w1 = (Ok u, w2)"
    and "save_and_commit (finalized_ports (Some fault) ports) candidate ids (ow, w) = (r, (ow', w'))"
  shows "ow_persisted ow' = saved \<and> ow_settings ow' = ow_settings ow
    \<and> (case r of Ok _ \<Rightarrow> False | Err e \<Rightarrow> is_saved_candidate e)
    \<and> w' = (if fault = BeforeTerminalAppend then w1 else w2)"
  using assms(1,3) commit_faulted(1) [of ports "ow_remote ow" ids w1] commit_faulted(2) [OF assms(2)]
  by (cases fault) (auto simp: save_and_commit_def save_and_activate_def bind_io_def outside_def set_persisted_def update_def
      publish_snapshot_def the_owner_def)

theorem finalization_faults_keep_candidate_witness:
  "case save_and_commit (finalized_ports (Some AfterTerminalAppend) (demo_ports (Ok (Clean [])))) default_state [''a'']
     (demo_owner demo_configured, (default_settings, default_state)) of
     (r, (ow', w')) \<Rightarrow> ow_persisted ow' = default_state \<and> w' = (default_settings, default_state)"
proof -
  let ?P = "demo_ports (Ok (Clean []))" and ?w = "(default_settings, default_state)"
  obtain r ow' w' where s: "save_and_commit (finalized_ports (Some AfterTerminalAppend) ?P) default_state [''a'']
      (demo_owner demo_configured, ?w) = (r, (ow', w'))"
    by (metis prod.exhaust)
  have "op_save_state ?P default_state ?w = (Ok default_state, ?w)"
    by (simp add: demo_ports_def)
  moreover have "each_io (\<lambda>i. env_append (op_engine ?P (ow_remote (demo_owner demo_configured))) (StateCommitted i)) [''a''] ?w
      = (Ok (), ?w)"
    by (simp add: demo_ports_def quiet_engine_def)
  ultimately show ?thesis
    using finalization_faults_keep_candidate [OF _ _ s] by (simp add: s)
qed

end
