(* ===== verification/CliProcess.thy ===== *)
theory CliProcess
  imports Registration ServerIdentity
begin

text \<open>
  \<open>spotter-cli/src/main.rs\<close> and the rest of \<open>lib.rs\<close>: the client as a process, in the production build
  and in the test-support build with its hidden overrides.  The transport bounds an exchange with a
  deadline; the identity that it expects and the identity that a registration gets come from the same
  overrides.  The console, the clock and the calls into Windows are ports.
\<close>

section \<open>Overrides of the test-support build\<close>

record test_cli = cli +
  test_service_name :: "string option"
  test_data_root :: "string option"
  test_pipe_endpoint :: "string option"
  test_mutex_name :: "string option"
  test_transport_timeout_ms :: "u64 option"
  test_service_executable :: "string option"

definition PRODUCTION_TRANSPORT_TIMEOUT :: nat where
  "PRODUCTION_TRANSPORT_TIMEOUT = 30 * 1000"

definition TEST_TRANSPORT_TIMEOUT_MIN_MS :: u64 where
  "TEST_TRANSPORT_TIMEOUT_MIN_MS = 1"

definition TEST_TRANSPORT_TIMEOUT_MAX_MS :: u64 where
  "TEST_TRANSPORT_TIMEOUT_MAX_MS = 30000"

definition in_timeout_range :: "u64 \<Rightarrow> bool" where
  "in_timeout_range ms \<longleftrightarrow> TEST_TRANSPORT_TIMEOUT_MIN_MS \<le> ms \<and> ms \<le> TEST_TRANSPORT_TIMEOUT_MAX_MS"

definition parse_test_transport_timeout_ms :: "string \<Rightarrow> (u64, string) result" where
  "parse_test_transport_timeout_ms v =
     and_then (ok_or ''must be an integer number of milliseconds'' (parse_u64_str v)) (\<lambda>millis.
       if in_timeout_range millis then Ok millis
       else Err (''must be between '' @ dec TEST_TRANSPORT_TIMEOUT_MIN_MS @ '' and ''
         @ dec TEST_TRANSPORT_TIMEOUT_MAX_MS @ '' milliseconds''))"

text \<open>The timeout, in milliseconds.\<close>

definition transport_timeout :: "test_cli \<Rightarrow> nat" where
  "transport_timeout c =
     (case test_transport_timeout_ms c of
        Some ms \<Rightarrow> if in_timeout_range ms then unat ms else PRODUCTION_TRANSPORT_TIMEOUT
      | None \<Rightarrow> PRODUCTION_TRANSPORT_TIMEOUT)"

text \<open>
  The overrides are all given, or none, or the registration is refused.  \<open>production_registration\<close> is
  that of the production build.
\<close>

definition test_registration_options ::
  "(registration_options, cli_error) result \<Rightarrow> test_cli \<Rightarrow> (registration_options, cli_error) result" where
  "test_registration_options production_registration c =
     (case (test_service_name c, test_data_root c, test_pipe_endpoint c, test_mutex_name c, test_service_executable c) of
        (None, None, None, None, None) \<Rightarrow> production_registration
      | (Some name, Some root, Some endpoint, Some mutex, Some executable) \<Rightarrow>
          (case new_options name root endpoint mutex of
             Err e \<Rightarrow> Err (CliMessage (''invalid test service runtime options: '' @ e))
           | Ok runtime \<Rightarrow>
               let options = \<lparr>ro_runtime = runtime, ro_executable = executable\<rparr> in
               (case validate_registration options of Ok _ \<Rightarrow> Ok options | Err e \<Rightarrow> Err (CliMessage e)))
      | _ \<Rightarrow> Err (CliMessage ''test service registration requires every runtime option''))"

section \<open>The transport\<close>

datatype identity_query = Native | SameAccount "string option"

record named_pipe_transport =
  np_timeout :: nat
  np_endpoint :: string
  np_query :: identity_query
  np_service :: string

definition new_transport :: "nat \<Rightarrow> named_pipe_transport" where
  "new_transport timeout =
     \<lparr>np_timeout = timeout, np_endpoint = pipe_endpoint production, np_query = Native, np_service = service_name production\<rparr>"

definition with_identity_query :: "nat \<Rightarrow> string \<Rightarrow> string \<Rightarrow> identity_query \<Rightarrow> named_pipe_transport" where
  "with_identity_query timeout endpoint name query =
     \<lparr>np_timeout = timeout, np_endpoint = endpoint, np_query = query, np_service = name\<rparr>"

definition with_endpoint_and_service :: "nat \<Rightarrow> string \<Rightarrow> string \<Rightarrow> named_pipe_transport" where
  "with_endpoint_and_service timeout endpoint name = with_identity_query timeout endpoint name Native"

definition transport_transport :: "test_cli \<Rightarrow> nat \<Rightarrow> named_pipe_transport option" where
  "transport_transport c timeout =
     map_option (\<lambda>endpoint.
       let name = (case test_service_name c of Some n \<Rightarrow> n | None \<Rightarrow> service_name production) in
       (case test_service_executable c of
          Some executable \<Rightarrow> with_identity_query timeout endpoint name (SameAccount (Some executable))
        | None \<Rightarrow> with_endpoint_and_service timeout endpoint name))
     (test_pipe_endpoint c)"

text \<open>
  The machine: whether the process is elevated; the token and the answer to a prompt from the console;
  the pipe of an endpoint with the queries of the process behind it; the milliseconds after which an
  exchange over an endpoint that starts now is over, if it ever is, and what it leaves when the process
  ends before it; the Service Control Manager; and the path functions of the standard library.
\<close>

record 'w cli_machine =
  cm_elevated :: "'w \<Rightarrow> bool"
  cm_utf8 :: "string \<Rightarrow> bool"
  cm_token :: "'w \<Rightarrow> ((string, string) result option \<times> (string, string) result) \<times> 'w"
  cm_answer :: "string \<Rightarrow> 'w \<Rightarrow> ((unit, string) result \<times> (string, string) result) \<times> 'w"
  cm_open :: "string \<Rightarrow> ('w, string, unit) effect"
  cm_server :: "string \<Rightarrow> 'w os"
  cm_converse :: "string \<Rightarrow> string \<Rightarrow> ('w, string, string \<times> read_end) effect"
  cm_duration :: "string \<Rightarrow> 'w \<Rightarrow> nat option"
  cm_abandoned :: "string \<Rightarrow> service_command \<Rightarrow> 'w \<Rightarrow> 'w"
  cm_scm :: "'w scm"
  cm_current_exe :: "(string, string) result"
  cm_is_absolute :: "string \<Rightarrow> bool"
  cm_with_file_name :: "string \<Rightarrow> string \<Rightarrow> string"

definition identity_error_text :: "service_identity_error \<Rightarrow> string" where
  "identity_error_text e = (case e of
     PipeUnavailable \<Rightarrow> ''service pipe is unavailable''
   | ServiceStarting \<Rightarrow> ''service is starting''
   | ServiceRestarting \<Rightarrow> ''service is restarting''
   | IdentityQueryFailed source \<Rightarrow> ''service identity query failed: '' @ source
   | UnexpectedIdentity account \<Rightarrow> ''unexpected service identity: observed account '' @ account
   | UnexpectedExecutable path \<Rightarrow> ''unexpected service executable: observed path '' @ path)"

text \<open>With its cause, which the format of an error's chain adds.\<close>

definition identity_error_chain :: "service_identity_error \<Rightarrow> string" where
  "identity_error_chain e =
     identity_error_text e @ (case e of IdentityQueryFailed source \<Rightarrow> '': '' @ source | _ \<Rightarrow> [])"

definition run_query :: "identity_query \<Rightarrow> 'w os \<Rightarrow> string \<Rightarrow> ('w, service_identity_error, server_identity) effect" where
  "run_query query os name = (case query of
     Native \<Rightarrow> native_query os name
   | SameAccount executable \<Rightarrow> native_query_with_profile os name executable)"

definition transport_pipe :: "'w cli_machine \<Rightarrow> named_pipe_transport \<Rightarrow> 'w pipe" where
  "transport_pipe m tr =
     \<lparr>pi_open = cm_open m (np_endpoint tr),
      pi_identity = map_err identity_error_chain
        (bind_io (run_query (np_query tr) (cm_server m (np_endpoint tr)) (np_service tr)) (\<lambda>_. ret ())),
      pi_converse = cm_converse m (np_endpoint tr)\<rparr>"

definition timed_out :: cli_error where
  "timed_out = CliContext ''service request timed out'' (CliMessage ''timed out waiting on channel'')"

definition send :: "wire \<Rightarrow> 'w cli_machine \<Rightarrow> named_pipe_transport \<Rightarrow> service_command \<Rightarrow> ('w, ipc_response) cli_io" where
  "send wi m tr command w =
     (case cm_duration m (np_endpoint tr) w of
        Some ms \<Rightarrow>
          if ms \<le> np_timeout tr then exchange_named_pipe wi (transport_pipe m tr) command w
          else (Err timed_out, cm_abandoned m (np_endpoint tr) command w)
      | None \<Rightarrow> (Err timed_out, cm_abandoned m (np_endpoint tr) command w))"

section \<open>The process\<close>

text \<open>\<open>never_ended\<close> stands for an uninstall whose waits never end; such a process has no outcome below.\<close>

definition never_ended :: cli_error where
  "never_ended = CliMessage ''never returned''"

definition ports_of :: "wire \<Rightarrow> 'w cli_machine \<Rightarrow> named_pipe_transport \<Rightarrow> registration_options \<Rightarrow> 'w \<Rightarrow> 'w cli_ports" where
  "ports_of wi m tr o1 w0 =
     \<lparr>cp_elevated = cm_elevated m w0,
      cp_send = send wi m tr,
      cp_read_token = (\<lambda>w. case cm_token m w of ((prompted, input), w') \<Rightarrow> (read_token (cm_utf8 m) prompted input, w')),
      cp_confirm = (\<lambda>prompt w. case cm_answer m prompt w of ((flushed, answer), w') \<Rightarrow> (console_confirm flushed answer, w')),
      cp_install = install (cm_scm m) o1,
      cp_uninstall = (\<lambda>w. case uninstall (cm_scm m) o1 w of Some r \<Rightarrow> r | None \<Rightarrow> (Err never_ended, w))\<rparr>"

fun error_chain :: "cli_error \<Rightarrow> string" where
  "error_chain (CliMessage t) = t"
| "error_chain (CliContext t e) = t @ '': '' @ error_chain e"
| "error_chain ServiceUnavailable = ''service is not running''"
| "error_chain (ServiceIdentityError t) = t"

record cli_outcome =
  oc_exit :: nat
  oc_stdout :: "string option"
  oc_stderr :: "string option"

definition failed_with :: "nat \<Rightarrow> cli_error \<Rightarrow> cli_outcome" where
  "failed_with code e = \<lparr>oc_exit = code, oc_stdout = None, oc_stderr = Some (''error: '' @ error_chain e)\<rparr>"

definition u8_or_1 :: "int \<Rightarrow> nat" where
  "u8_or_1 code = (if 0 \<le> code \<and> code \<le> 255 then nat code else 1)"

text \<open>\<open>None\<close>: the process never ends.\<close>

definition run_main ::
  "wire \<Rightarrow> printer \<Rightarrow> 'w cli_machine \<Rightarrow> cli \<Rightarrow> named_pipe_transport \<Rightarrow> (registration_options, cli_error) result
     \<Rightarrow> 'w \<Rightarrow> (cli_outcome \<times> 'w) option" where
  "run_main wi pr m c tr registration w =
     (case registration of
        Err e \<Rightarrow> Some (failed_with 1 e, w)
      | Ok o1 \<Rightarrow>
          if cm_elevated m w \<and> cli_command c = ServiceCmd Uninstall \<and> uninstall (cm_scm m) o1 w = None then None
          else Some (case dispatch pr c (ports_of wi m tr o1 w) w of
              (Ok output, w') \<Rightarrow> (\<lparr>oc_exit = 0, oc_stdout = Some output, oc_stderr = None\<rparr>, w')
            | (Err e, w') \<Rightarrow> (failed_with (u8_or_1 (exit_code e)) e, w')))"

definition production_registration :: "'w cli_machine \<Rightarrow> (registration_options, cli_error) result" where
  "production_registration m =
     registration_options_from_current_exe (cm_is_absolute m) (cm_with_file_name m) (cm_current_exe m)"

definition production_main :: "wire \<Rightarrow> printer \<Rightarrow> 'w cli_machine \<Rightarrow> cli \<Rightarrow> 'w \<Rightarrow> (cli_outcome \<times> 'w) option" where
  "production_main wi pr m c =
     run_main wi pr m c (new_transport PRODUCTION_TRANSPORT_TIMEOUT) (production_registration m)"

definition test_main :: "wire \<Rightarrow> printer \<Rightarrow> 'w cli_machine \<Rightarrow> test_cli \<Rightarrow> 'w \<Rightarrow> (cli_outcome \<times> 'w) option" where
  "test_main wi pr m c =
     (let timeout = transport_timeout c;
          tr = (case transport_transport c timeout of Some tr \<Rightarrow> tr | None \<Rightarrow> new_transport timeout) in
      run_main wi pr m (cli.truncate c) tr (test_registration_options (production_registration m) c))"

section \<open>Errors that do not make the service unavailable\<close>

definition plain_errors :: "('w, 'a) cli_io \<Rightarrow> bool" where
  "plain_errors m \<longleftrightarrow> (\<forall>w. case fst (m w) of Ok _ \<Rightarrow> True | Err e \<Rightarrow> \<not> unavailable_cause e)"

lemma plain_errorsD: "plain_errors m \<Longrightarrow> m w = (Err e, w') \<Longrightarrow> \<not> unavailable_cause e"
  unfolding plain_errors_def by (metis fst_conv result.case(2))

lemma plain_bind: "plain_errors m \<Longrightarrow> (\<And>x. plain_errors (f x)) \<Longrightarrow> plain_errors (bind_io m f)"
  unfolding plain_errors_def bind_io_def by (auto split: prod.split result.split) (metis fst_conv result.case(2))+

lemma plain_map_err: "(\<And>e. \<not> unavailable_cause (f e)) \<Longrightarrow> plain_errors (map_err f m)"
  by (auto simp: plain_errors_def map_err_def split: prod.split result.split)

lemma plain_lift_text: "plain_errors (lift_text r)"
  by (auto simp: plain_errors_def Cli.lift_text_def split: result.split)

lemma plain_scm_context [simp]: "\<not> unavailable_cause (scm_context t e)"
  by (simp add: scm_context_def)

lemma plain_require_absent: "plain_errors (require_absent scm name)"
  by (auto simp: plain_errors_def require_absent_def split: prod.split result.split scm_error_class.split)

lemma plain_install: "plain_errors (install scm o1)"
  unfolding install_def Let_def
  by (intro plain_bind plain_lift_text plain_map_err plain_require_absent plain_scm_context) (simp add: plain_errors_def)

definition plain_end :: "((unit, cli_error) result \<times> 'w) option \<Rightarrow> bool" where
  "plain_end r = (case r of Some (Err e, _) \<Rightarrow> \<not> unavailable_cause e | _ \<Rightarrow> True)"

lemma plain_end_simps [simp]:
  "plain_end None" "plain_end (Some (Ok x, w))" "plain_end (Some (Err e, w)) \<longleftrightarrow> \<not> unavailable_cause e"
  by (simp_all add: plain_end_def)

lemma plain_state_wait: "plain_end (wait_for_service_state scm deadline w)"
proof (cases "wait_for_service_state scm deadline w")
  case (Some y)
  have "plain_end (Some y)"
  proof (rule wait_for_service_state.raw_induct [where P = "\<lambda>_ _ _ y. plain_end (Some y)", OF _ Some])
    fix rec :: "'a scm \<Rightarrow> nat \<Rightarrow> 'a \<Rightarrow> ((unit, cli_error) result \<times> 'a) option" and scm deadline w y
    assume "\<And>scm deadline w y. rec scm deadline w = Some y \<Longrightarrow> plain_end (Some y)"
      "(case sc_query scm w of
        (Err e, w1) \<Rightarrow> Some (Err (scm_context ''failed to query service status while waiting'' e), w1)
      | (Ok stopped, w1) \<Rightarrow>
          if stopped then Some (Ok (), w1)
          else if deadline \<le> sc_now scm w1
          then Some (Err (CliMessage ''service did not reach Stopped before the timeout''), w1)
          else rec scm deadline (sc_sleep scm SCM_POLL_INTERVAL w1)) = Some y"
    then show "plain_end (Some y)"
      by (auto split: prod.splits result.splits if_splits)
  qed
  with Some show ?thesis by simp
qed simp

lemma plain_removed_wait: "plain_end (wait_for_service_removed scm name deadline w)"
proof (cases "wait_for_service_removed scm name deadline w")
  case (Some y)
  have "plain_end (Some y)"
  proof (rule wait_for_service_removed.raw_induct [where P = "\<lambda>_ _ _ _ y. plain_end (Some y)", OF _ Some])
    fix rec :: "'a scm \<Rightarrow> string \<Rightarrow> nat \<Rightarrow> 'a \<Rightarrow> ((unit, cli_error) result \<times> 'a) option" and scm name deadline w y
    assume rec: "\<And>scm name deadline w y. rec scm name deadline w = Some y \<Longrightarrow> plain_end (Some y)"
      and step: "(case sc_open scm name w of
        (Ok _, w1) \<Rightarrow>
          if sc_now scm w1 < deadline then rec scm name deadline (sc_sleep scm SCM_POLL_INTERVAL w1)
          else Some (Err (CliMessage (''service '' @ name @ '' remained registered after the timeout'')), w1)
      | (Err e, w1) \<Rightarrow>
          (if classify_scm_error e = Missing then Some (Ok (), w1)
           else if classify_scm_error e = MarkedForDelete \<and> sc_now scm w1 < deadline
           then rec scm name deadline (sc_sleep scm SCM_POLL_INTERVAL w1)
           else if classify_scm_error e = MarkedForDelete
           then Some (Err (CliMessage (''service '' @ name @ '' remained marked for deletion after the timeout'')), w1)
           else Some (Err (scm_context (''failed to query service '' @ name @ '' while waiting for removal'') e), w1))) = Some y"
    show "plain_end (Some y)"
      using step by (auto split: prod.splits result.splits if_splits intro: rec)
  qed
  with Some show ?thesis by simp
qed simp

lemma plain_then_loop: "plain_errors m \<Longrightarrow> (\<And>x w1. plain_end (f x w1)) \<Longrightarrow> plain_end (then_loop m f w)"
  by (auto simp: then_loop_def dest: plain_errorsD split: prod.split result.split)

lemma plain_after_loop: "plain_end r \<Longrightarrow> (\<And>w1. plain_end (f w1)) \<Longrightarrow> plain_end (after_loop r f)"
  by (auto simp: after_loop_def split: result.split option.split)

lemma plain_remove: "plain_end (remove_service scm name w)"
  unfolding remove_service_def
  by (intro plain_then_loop plain_map_err plain_scm_context plain_removed_wait)

lemma plain_uninstall: "plain_end (uninstall scm o1 w)"
proof -
  have "plain_errors (open_for_uninstall scm name)" for scm :: "'a scm" and name
    unfolding open_for_uninstall_def by (rule plain_map_err) auto
  then show ?thesis
    unfolding uninstall_def Let_def
    by (intro plain_then_loop plain_bind plain_map_err plain_scm_context)
      (auto intro!: plain_remove plain_then_loop plain_after_loop plain_map_err plain_state_wait)
qed

lemma plain_ports:
  "plain_errors (cp_read_token (ports_of wi m tr o1 w0))"
  "plain_errors (cp_confirm (ports_of wi m tr o1 w0) prompt)"
  "plain_errors (cp_install (ports_of wi m tr o1 w0))"
  "plain_errors (cp_uninstall (ports_of wi m tr o1 w0))"
proof -
  have "fst (r, w) = Err e \<Longrightarrow> uninstall (cm_scm m) o1 w1 = Some (r, w) \<Longrightarrow> \<not> unavailable_cause e" for r w e w1
    using plain_uninstall [of "cm_scm m" o1 w1] by (simp add: plain_end_def)
  then show "plain_errors (cp_uninstall (ports_of wi m tr o1 w0))"
    by (auto simp: plain_errors_def ports_of_def never_ended_def split: option.split result.split)
  show "plain_errors (cp_install (ports_of wi m tr o1 w0))"
    by (simp add: ports_of_def plain_install)
  show "plain_errors (cp_read_token (ports_of wi m tr o1 w0))"
    by (auto simp: plain_errors_def ports_of_def read_token_def read_piped_token_def Let_def split: prod.split result.split option.split)
  show "plain_errors (cp_confirm (ports_of wi m tr o1 w0) prompt)"
    by (auto simp: plain_errors_def ports_of_def console_confirm_def split: prod.split result.split)
qed

section \<open>Exit code 2\<close>

lemma some_io_Err: "some_io m w = (Err e, w') \<longleftrightarrow> m w = (Err e, w')"
  by (auto simp: some_io_def bind_io_def split: prod.split result.split)

lemma bind_unavailable:
  assumes "bind_io m f w = (Err e, w')" "unavailable_cause e" "plain_errors m"
    and "\<And>x w1. f x w1 = (Err e, w') \<Longrightarrow> g x w1 = (Err e, w')"
  shows "bind_io m g w = (Err e, w')"
  using assms plain_errorsD [OF assms(3)] by (auto simp: bind_io_def split: prod.splits result.splits)

text \<open>
  The error of a dispatch makes the service unavailable only as the error of the one exchange, and then
  it is the same with every other exchange that has this error.
\<close>

lemma dispatch_command_unavailable:
  assumes "dispatch_command command ports w = (Err e, w')" "unavailable_cause e"
    and "\<And>c w1. cp_send ports c w1 = (Err e, w') \<Longrightarrow> send' c w1 = (Err e, w')"
    and plain: "plain_errors (cp_read_token ports)" "\<And>prompt. plain_errors (cp_confirm ports prompt)"
      "plain_errors (cp_install ports)" "plain_errors (cp_uninstall ports)"
  shows "dispatch_command command (ports\<lparr>cp_send := send'\<rparr>) w = (Err e, w')"
proof -
  note once = bind_unavailable [OF _ assms(2)]
  have sent: "some_io (cp_send ports c) w1 = (Err e, w') \<Longrightarrow> some_io (send' c) w1 = (Err e, w')" for c w1
    by (simp add: some_io_Err assms(3))
  have ended: "plain_errors m \<Longrightarrow> bind_io m (\<lambda>_. ret None) w = (Err e, w') \<Longrightarrow> False" for m :: "('a, unit) cli_io"
    using bind_unavailable [OF _ assms(2), of m "\<lambda>_. ret None" w w' "\<lambda>_. fail e"] plain_errorsD [of m w e w'] assms(2)
    by (auto simp: bind_io_def split: prod.splits result.splits)
  show ?thesis
  proof (cases command)
    case (ConfigCmd c)
    then show ?thesis
      using assms(1) sent
      by (cases c) (auto simp: dispatch_command_def intro!: plain plain_lift_text elim!: once split: option.splits,
          (auto simp: plain_errors_def)?)
  next
    case (CheckinCmd all serial yes)
    have "plain_errors (if yes then ret True else cp_confirm ports confirm_prompt)"
      using plain(2) by (simp add: plain_errors_def)
    then show ?thesis
      using CheckinCmd assms(1,2) sent
      by (auto simp: dispatch_command_def simp del: ret_apply elim!: once split: if_splits option.splits)
  next
    case (ServiceCmd a)
    then show ?thesis
      using assms(1) ended [OF plain(3)] ended [OF plain(4)] by (cases a) (simp_all add: dispatch_command_def)
  qed (use assms(1) sent in \<open>simp_all add: dispatch_command_def\<close>)
qed

lemma dispatch_unavailable:
  assumes "dispatch pr c ports w = (Err e, w')" "unavailable_cause e"
    and "\<And>c w1. cp_send ports c w1 = (Err e, w') \<Longrightarrow> send' c w1 = (Err e, w')"
    and plain: "plain_errors (cp_read_token ports)" "\<And>prompt. plain_errors (cp_confirm ports prompt)"
      "plain_errors (cp_install ports)" "plain_errors (cp_uninstall ports)"
  shows "dispatch pr c (ports\<lparr>cp_send := send'\<rparr>) w = (Err e, w')"
proof -
  have elevated: "cp_elevated ports"
    and command: "dispatch_command (cli_command c) ports w = (Err e, w')"
    using assms(1,2) by (auto simp: dispatch_def bind_io_def Cli.lift_text_def split: if_splits prod.splits result.splits)
  have "dispatch_command (cli_command c) (ports\<lparr>cp_send := send'\<rparr>) w = (Err e, w')"
    by (rule dispatch_command_unavailable [OF command assms(2,3) plain])
  with elevated show ?thesis
    by (simp add: dispatch_def bind_io_def)
qed

lemma exchange_unavailable:
  assumes "exchange_named_pipe wi pipe command w = (Err e, w')" "unavailable_cause e"
  shows "exchange_named_pipe wi (pipe\<lparr>pi_converse := other\<rparr>) command w = (Err e, w')"
proof -
  obtain r1 w1 where o: "pi_open pipe w = (r1, w1)" by (rule prod.exhaust)
  obtain r2 w2 where i: "pi_identity pipe w1 = (r2, w2)" by (rule prod.exhaust)
  show ?thesis
    using assms authentic_plain [of pipe w w1 w2 wi command] o i
      exchange_not_open [of pipe w _ w1 wi command] exchange_not_open [of "pipe\<lparr>pi_converse := other\<rparr>" w _ w1 wi command]
      exchange_not_authentic [of pipe w w1 _ w2 wi command]
      exchange_not_authentic [of "pipe\<lparr>pi_converse := other\<rparr>" w w1 _ w2 wi command]
    by (cases r1; cases r2) auto
qed

lemma send_unavailable:
  assumes "send wi m tr command w = (Err e, w')" "unavailable_cause e"
  shows "send wi (m\<lparr>cm_converse := other\<rparr>) tr command w = (Err e, w')"
proof -
  have pipe: "transport_pipe (m\<lparr>cm_converse := other\<rparr>) tr = transport_pipe m tr\<lparr>pi_converse := other (np_endpoint tr)\<rparr>"
    by (simp add: transport_pipe_def)
  show ?thesis
    using assms by (auto simp: send_def pipe timed_out_def exchange_unavailable split: option.splits if_splits)
qed

lemma ports_of_converse:
  "ports_of wi (m\<lparr>cm_converse := other\<rparr>) tr o1 w = ports_of wi m tr o1 w\<lparr>cp_send := send wi (m\<lparr>cm_converse := other\<rparr>) tr\<rparr>"
  by (simp add: ports_of_def)

lemma exit_codes: "u8_or_1 (exit_code e) = (if unavailable_cause e then 2 else 1)"
  by (simp add: exit_code_def EXIT_SERVICE_UNAVAILABLE_def u8_or_1_def)

text \<open>
  The exit code says how far a command came.  A process that ends exits with 0 and its output, or
  with 1 or 2 and an error on the standard error.  When it exits with 2, not a byte went to any process
  behind the pipe: with anything else in the place of the conversation, the run is the same.
\<close>

theorem exit_2_says_nothing_was_sent:
  "case run_main wi pr m c tr registration w of
     None \<Rightarrow> True
   | Some (oc, w') \<Rightarrow>
       (if oc_exit oc = 2 then run_main wi pr (m\<lparr>cm_converse := other\<rparr>) c tr registration w = Some (oc, w') else oc_exit oc \<le> 1)
       \<and> (oc_exit oc = 0 \<longleftrightarrow> oc_stdout oc \<noteq> None) \<and> (oc_exit oc = 0 \<longleftrightarrow> oc_stderr oc = None)"
proof (cases registration)
  case (Err e)
  then show ?thesis by (simp add: run_main_def failed_with_def)
next
  case (Ok o1)
  obtain r w' where d: "dispatch pr c (ports_of wi m tr o1 w) w = (r, w')" by (rule prod.exhaust)
  have "dispatch pr c (ports_of wi (m\<lparr>cm_converse := other\<rparr>) tr o1 w) w = (Err e, w')"
    if "r = Err e" "unavailable_cause e" for e
    unfolding ports_of_converse
  proof (rule dispatch_unavailable [OF _ that(2)])
    show "dispatch pr c (ports_of wi m tr o1 w) w = (Err e, w')"
      using d that(1) by simp
    show "send wi (m\<lparr>cm_converse := other\<rparr>) tr command w1 = (Err e, w')"
      if "cp_send (ports_of wi m tr o1 w) command w1 = (Err e, w')" for command w1
      using that \<open>unavailable_cause e\<close> by (simp add: ports_of_def send_unavailable)
  qed (rule plain_ports)+
  with Ok d show ?thesis
    by (cases r) (auto simp: run_main_def failed_with_def exit_codes)
qed

section \<open>One identity\<close>

lemma transport_timeout_bounds: "1 \<le> transport_timeout c \<and> transport_timeout c \<le> 30000"
proof -
  have "1 \<le> unat ms \<and> unat ms \<le> 30000" if "in_timeout_range ms" for ms
    using that by (simp add: in_timeout_range_def TEST_TRANSPORT_TIMEOUT_MIN_MS_def TEST_TRANSPORT_TIMEOUT_MAX_MS_def
        word_le_nat_alt)
  then show ?thesis
    by (auto simp: transport_timeout_def PRODUCTION_TRANSPORT_TIMEOUT_def split: option.split)
qed

lemma parsed_timeout_in_range: "parse_test_transport_timeout_ms v = Ok ms \<Longrightarrow> in_timeout_range ms"
  by (auto simp: parse_test_transport_timeout_ms_def ok_or_def split: option.splits if_splits)

text \<open>The transport of a client and what it registers have one identity.\<close>

definition same_identity :: "named_pipe_transport \<Rightarrow> registration_options \<Rightarrow> bool" where
  "same_identity tr o1 \<longleftrightarrow>
     np_endpoint tr = pipe_endpoint (ro_runtime o1) \<and> np_service tr = service_name (ro_runtime o1)
     \<and> 1 \<le> np_timeout tr \<and> np_timeout tr \<le> 30000
     \<and> (if np_query tr = Native then ro_runtime o1 = production else np_query tr = SameAccount (Some (ro_executable o1)))"

text \<open>
  A client talks to the service that it would register.  Whatever overrides are given to the
  test-support build, it either ends with an error before it does anything, or runs with a transport
  whose endpoint, service name and expected executable are those of its registration, under a deadline
  of 30 seconds at most; and it takes the identity that the production build accepts only together with
  the production service.
\<close>

theorem client_talks_to_what_it_registers:
  "(\<exists>e. test_main wi pr m c w = Some (failed_with 1 e, w))
   \<or> (\<exists>tr o1. same_identity tr o1 \<and> test_main wi pr m c w = run_main wi pr m (cli.truncate c) tr (Ok o1) w)"
proof (cases "test_registration_options (production_registration m) c")
  case (Err e)
  then show ?thesis
    unfolding test_main_def Let_def run_main_def by (intro disjI1 exI) simp
next
  case (Ok o1)
  let ?tr = "case transport_transport c (transport_timeout c) of Some tr \<Rightarrow> tr | None \<Rightarrow> new_transport (transport_timeout c)"
  have "same_identity ?tr o1"
    using Ok transport_timeout_bounds [of c]
    by (auto simp: test_registration_options_def production_registration_def registration_options_from_current_exe_def
        transport_transport_def new_transport_def with_identity_query_def same_identity_def new_options_def Let_def
        and_then_eq_Ok split: option.splits result.splits if_splits)
  then show ?thesis
    using Ok unfolding test_main_def Let_def by (intro disjI2) metis
qed

lemma run_main_ends: "clock_runs (cm_scm m) \<Longrightarrow> run_main wi pr m c tr registration w \<noteq> None"
  using uninstall_returns [of "cm_scm m" _ w] by (auto simp: run_main_def returns_def simp del: not_None_eq split: result.split)

text \<open>The production build is the test-support build without overrides.\<close>

lemma production_is_test_without_overrides:
  assumes "test_service_name c = None" "test_data_root c = None" "test_pipe_endpoint c = None" "test_mutex_name c = None"
    "test_transport_timeout_ms c = None" "test_service_executable c = None"
  shows "test_main wi pr m c = production_main wi pr m (cli.truncate c)"
  using assms
  by (simp add: test_main_def production_main_def transport_transport_def transport_timeout_def test_registration_options_def fun_eq_iff)

section \<open>The exchange as a sequence\<close>

text \<open>
  The two functions of the source that order an exchange over any operations: \<open>exchange_request\<close> for the
  tests, and \<open>authenticate_serialize_write\<close> for the pipe.
\<close>

definition authenticate_serialize_write ::
  "('w, unit) cli_io \<Rightarrow> (service_command \<Rightarrow> ('w, string) cli_io) \<Rightarrow> (string \<Rightarrow> ('w, 'a) cli_io) \<Rightarrow> service_command \<Rightarrow> ('w, 'a) cli_io" where
  "authenticate_serialize_write authenticate serialize write_out command =
     bind_io authenticate (\<lambda>_. bind_io (serialize command) write_out)"

definition exchange_request ::
  "wire \<Rightarrow> ('w, unit) cli_io \<Rightarrow> (service_command \<Rightarrow> ('w, string) cli_io) \<Rightarrow> (string \<Rightarrow> ('w, unit) cli_io)
     \<Rightarrow> ('w, string) cli_io \<Rightarrow> service_command \<Rightarrow> ('w, ipc_response) cli_io" where
  "exchange_request wi authenticate serialize write_out read_response command =
     bind_io authenticate (\<lambda>_.
     bind_io (serialize command) (\<lambda>request.
     bind_io (write_out request) (\<lambda>_.
     bind_io read_response (\<lambda>response w. (decode_response wi response, w)))))"

text \<open>A pipe over its two directions.\<close>

definition duplex_pipe ::
  "('w, string, unit) effect \<Rightarrow> ('w, string, unit) effect \<Rightarrow> (string \<Rightarrow> ('w, string, unit) effect)
     \<Rightarrow> ('w \<Rightarrow> (string \<times> read_end) \<times> 'w) \<Rightarrow> 'w pipe" where
  "duplex_pipe opened identity write_out answer =
     \<lparr>pi_open = opened, pi_identity = identity,
      pi_converse = (\<lambda>request. bind_io (write_out request) (\<lambda>_ w. case answer w of (a, w') \<Rightarrow> (Ok a, w')))\<rparr>"

text \<open>
  Over such a pipe the exchange of the client is the sequence that its tests run, after the pipe has
  been opened; its first part is the other function.
\<close>

lemma exchange_is_the_tested_sequence:
  "exchange_named_pipe wi (duplex_pipe opened identity write_out answer) =
     (\<lambda>command. bind_io (map_err (\<lambda>e. CliContext e ServiceUnavailable) opened) (\<lambda>_.
        exchange_request wi
          (map_err (\<lambda>e. CliContext ''service identity authentication failed'' (ServiceIdentityError e)) identity)
          (\<lambda>command w. (encode_request wi command, w))
          (\<lambda>request. map_err (\<lambda>e. CliContext ''failed to write service request'' (CliMessage e)) (write_out request))
          (\<lambda>w. case answer w of ((sent, rest), w') \<Rightarrow> (read_bounded_pipe_response IPC_MAX_LINE_BYTES sent rest, w'))
          command))"
  by (auto simp: exchange_named_pipe_def exchange_request_def duplex_pipe_def bind_io_def map_err_def fun_eq_iff
      split: prod.split result.split)

lemma exchange_request_parts:
  "exchange_request wi authenticate serialize write_out read_response command =
     bind_io (authenticate_serialize_write authenticate serialize write_out command) (\<lambda>_.
     bind_io read_response (\<lambda>response w. (decode_response wi response, w)))"
  by (auto simp: exchange_request_def authenticate_serialize_write_def bind_io_def fun_eq_iff split: prod.split result.split)

end
