(* ===== verification/EntryPoints.thy ===== *)
theory EntryPoints
  imports HardwareService ServiceProcess
begin

text \<open>
  The entry points of the two service executables: \<open>spotter-svc/src/main.rs\<close> with the dispatcher of
  \<open>service.rs\<close>, and \<open>spotter-hardware-service/src/main.rs\<close> from its process arguments to its exit code,
  with the controls, the status reports and the diagnostics file of its service.  The dispatcher of
  Windows is a port: when it can be started, it calls the service and returns after it.
\<close>

section \<open>The service executable\<close>

datatype process_exit = Success | Failure

record 'w dispatcher =
  di_start :: "string \<Rightarrow> ('w, string, unit) effect"
  di_eprint :: "string \<Rightarrow> 'w \<Rightarrow> 'w"

text \<open>
  The process ends with the code of the callback when that has one, and otherwise returns from the
  dispatcher.  \<open>Inl\<close>: an exit code; \<open>Inr\<close>: the result of the dispatcher.
\<close>

definition run_dispatcher_with_runtime ::
  "'w dispatcher \<Rightarrow> ('w, 'r) process_ports \<Rightarrow> string list \<Rightarrow> string list \<Rightarrow> runtime_options
     \<Rightarrow> 'w \<times> process_log \<Rightarrow> (nat + (unit, failure) result) \<times> ('w \<times> process_log)" where
  "run_dispatcher_with_runtime di ports process_arguments callback_arguments runtime =
     (\<lambda>(w, l). case di_start di (service_name runtime) w of
        (Err e, w1) \<Rightarrow> (Inr (Err (Context ''failed to start Windows service dispatcher'' (Message e))), (w1, l))
      | (Ok _, w1) \<Rightarrow>
          (case service_main ports process_arguments callback_arguments (w1, l) of
             (Some code, s) \<Rightarrow> (Inl code, s)
           | (None, s) \<Rightarrow> (Inr (Ok ()), s)))"

definition run_dispatcher ::
  "'w dispatcher \<Rightarrow> ('w, 'r) process_ports \<Rightarrow> string list \<Rightarrow> string list
     \<Rightarrow> 'w \<times> process_log \<Rightarrow> (nat + (unit, failure) result) \<times> ('w \<times> process_log)" where
  "run_dispatcher di ports process_arguments callback_arguments s =
     (case runtime_options (sp_utf8 ports) process_arguments of
        Err e \<Rightarrow> (Inr (Err (Message e)), s)
      | Ok runtime \<Rightarrow> run_dispatcher_with_runtime di ports process_arguments callback_arguments runtime s)"

text \<open>The process, with the text of an error's chain a parameter.\<close>

definition service_process ::
  "(failure \<Rightarrow> string) \<Rightarrow> 'w dispatcher \<Rightarrow> ('w, 'r) process_ports \<Rightarrow> string list \<Rightarrow> string list
     \<Rightarrow> 'w \<times> process_log \<Rightarrow> nat \<times> ('w \<times> process_log)" where
  "service_process chain di ports process_arguments callback_arguments s =
     (case run_dispatcher di ports process_arguments callback_arguments s of
        (Inl code, s1) \<Rightarrow> (code, s1)
      | (Inr (Ok _), s1) \<Rightarrow> (0, s1)
      | (Inr (Err e), (w1, l1)) \<Rightarrow> (1, (di_eprint di (''error: '' @ chain e) w1, l1)))"

text \<open>The exit code is 0 exactly if the service was run and its run succeeded.\<close>

lemma service_process_exit:
  "fst (service_process chain di ports process_arguments callback_arguments (w, l)) = 0 \<longleftrightarrow>
     (\<exists>runtime w1. runtime_options (sp_utf8 ports) process_arguments = Ok runtime
       \<and> di_start di (service_name runtime) w = (Ok (), w1)
       \<and> is_ok (fst (ServiceProcess.run_service ports process_arguments callback_arguments (w1, l))))"
  by (auto simp: service_process_def run_dispatcher_def run_dispatcher_with_runtime_def service_main_def
      split: result.split prod.split)

section \<open>The hardware service: controls and status\<close>

datatype hw_control = HwInterrogate | HwStop | HwShutdown | HwOther

definition hw_control_handler :: "hw_control \<Rightarrow> stop_channel \<Rightarrow> control_result \<times> stop_channel" where
  "hw_control_handler control c =
     (case control of
        HwInterrogate \<Rightarrow> (NoError, c)
      | HwStop \<Rightarrow> (NoError, if sc_open c \<and> \<not> sc_pending c then c\<lparr>sc_pending := True\<rparr> else c)
      | HwShutdown \<Rightarrow> (NoError, if sc_open c \<and> \<not> sc_pending c then c\<lparr>sc_pending := True\<rparr> else c)
      | HwOther \<Rightarrow> (NotImplemented, c))"

text \<open>The loop's wait of one second, with whether the handler still holds its end of the channel.\<close>

definition wait_for_control :: "bool \<Rightarrow> stop_channel \<Rightarrow> control_signal \<times> stop_channel" where
  "wait_for_control handler_lives c =
     (if sc_pending c then (StopRequested, c\<lparr>sc_pending := False\<rparr>)
      else if handler_lives then (TimedOut, c) else (Disconnected, c))"

definition hw_report :: "service_status \<Rightarrow> status_report" where
  "hw_report st = (case st of
     StartPending \<Rightarrow> \<lparr>sr_state = ScmStartPending, sr_controls = [], sr_exit_code = 0, sr_checkpoint = 1, sr_wait_seconds = 30\<rparr>
   | RunningStatus \<Rightarrow> \<lparr>sr_state = ScmRunning, sr_controls = [StopControl], sr_exit_code = 0, sr_checkpoint = 0, sr_wait_seconds = 0\<rparr>
   | StoppedStatus \<Rightarrow> \<lparr>sr_state = ScmStopped, sr_controls = [], sr_exit_code = 0, sr_checkpoint = 0, sr_wait_seconds = 0\<rparr>)"

text \<open>
  A stop between two waits is never lost, however many controls follow it: the next wait of the loop
  sees it.
\<close>

lemma stop_is_seen:
  assumes "sc_open c" "control = HwStop \<or> control = HwShutdown"
  shows "fst (wait_for_control lives (fold (\<lambda>k c. snd (hw_control_handler k c)) later (snd (hw_control_handler control c))))
    = StopRequested"
proof -
  have "sc_pending (snd (hw_control_handler k c))" if "sc_pending c" for k c
    using that by (simp add: hw_control_handler_def split: hw_control.split)
  then have "sc_pending c \<Longrightarrow> sc_pending (fold (\<lambda>k c. snd (hw_control_handler k c)) later c)" for c
    by (induction later arbitrary: c) auto
  moreover have "sc_pending (snd (hw_control_handler control c))"
    using assms by (auto simp: hw_control_handler_def)
  ultimately show ?thesis
    by (simp add: wait_for_control_def)
qed

section \<open>The hardware service: diagnostics and process\<close>

record diagnostics_paths =
  dp_collector_stdout :: string
  dp_collector_stderr :: string
  dp_service_diagnostic :: string

definition build_diagnostics :: "path_lib \<Rightarrow> string \<Rightarrow> diagnostics_paths" where
  "build_diagnostics lib staging_root =
     \<lparr>dp_collector_stdout = pl_join lib staging_root ''collector_stdout.log'',
      dp_collector_stderr = pl_join lib staging_root ''collector_stderr.log'',
      dp_service_diagnostic = pl_join lib staging_root ''service_diagnostic.log''\<rparr>"

record 'w hw_host =
  ho_os :: "'w hw_os"
  ho_dispatcher :: "'w dispatcher"
  ho_write_line :: "string \<Rightarrow> string \<Rightarrow> ('w, string, unit) effect"

text \<open>Nothing that goes wrong here is reported.\<close>

definition record_service_diagnostic :: "'w hw_host \<Rightarrow> string \<Rightarrow> string \<Rightarrow> 'w \<Rightarrow> 'w" where
  "record_service_diagnostic h path message w =
     (case hw_open_log (ho_os h) path w of
        (Err _, w1) \<Rightarrow> w1
      | (Ok _, w1) \<Rightarrow> snd (ho_write_line h path message w1))"

definition diagnostic_root :: "path_lib \<Rightarrow> string list \<Rightarrow> string option" where
  "diagnostic_root lib arguments =
     (case argument_value lib arguments ''--config'' of Ok config_path \<Rightarrow> pl_parent lib config_path | Err _ \<Rightarrow> None)"

text \<open>\<open>None\<close>: the run never ends.\<close>

definition hw_service_main :: "'w hw_host \<Rightarrow> string list \<Rightarrow> 'w \<Rightarrow> 'w option" where
  "hw_service_main h arguments w =
     (case HardwareService.run_service (ho_os h) arguments (w, empty_ledger) of
        None \<Rightarrow> None
      | Some (Ok _, (w1, _)) \<Rightarrow> Some w1
      | Some (Err e, (w1, _)) \<Rightarrow>
          (let failed = ''hardware service failed: '' @ e;
               w2 = (case diagnostic_root (hw_lib (ho_os h)) arguments of
                       Some root \<Rightarrow>
                         record_service_diagnostic h (dp_service_diagnostic (build_diagnostics (hw_lib (ho_os h)) root)) failed w1
                     | None \<Rightarrow> w1) in
           Some (di_eprint (ho_dispatcher h) failed w2)))"

definition hw_run :: "'w hw_host \<Rightarrow> string list \<Rightarrow> 'w \<Rightarrow> ((unit, string) result \<times> 'w) option" where
  "hw_run h arguments w =
     (case and_then (argument_value (hw_lib (ho_os h)) arguments ''--service-name'') (\<lambda>name.
           and_then (argument_value (hw_lib (ho_os h)) arguments ''--config'') (\<lambda>config_path.
           and_then (validate_service_name name) (\<lambda>_.
           and_then (validate_config_path config_path) (\<lambda>_. Ok name)))) of
        Err e \<Rightarrow> Some (Err e, w)
      | Ok name \<Rightarrow>
          (case di_start (ho_dispatcher h) name w of
             (Err e, w1) \<Rightarrow> Some (Err (''failed to start hardware service dispatcher: '' @ e), w1)
           | (Ok _, w1) \<Rightarrow> map_option (\<lambda>w2. (Ok (), w2)) (hw_service_main h arguments w1)))"

definition hw_main :: "'w hw_host \<Rightarrow> string list \<Rightarrow> 'w \<Rightarrow> (process_exit \<times> 'w) option" where
  "hw_main h arguments w =
     map_option (\<lambda>(r, w1). case r of Ok _ \<Rightarrow> (Success, w1) | Err e \<Rightarrow> (Failure, di_eprint (ho_dispatcher h) (''error: '' @ e) w1))
       (hw_run h arguments w)"

text \<open>The exit code says nothing of the service: it is a failure only if the dispatcher was not started.\<close>

lemma hw_exit_ignores_service:
  "hw_main h arguments w = Some (Failure, w') \<Longrightarrow>
   \<exists>e w1. hw_run h arguments w = Some (Err e, w1) \<and> (w1 = w \<or> (\<exists>name e1. di_start (ho_dispatcher h) name w = (Err e1, w1)))"
  by (auto simp: hw_main_def hw_run_def split: result.splits prod.splits) (metis result.exhaust old.unit.exhaust)

text \<open>
  A failure is recorded where it was refused: when the inspection does not accept the configuration in
  its directory, for instance because the directory is open to other users, the service nevertheless
  creates or truncates its diagnostics file in that directory.
\<close>

theorem failure_is_recorded_where_refused:
  assumes "argument_value (hw_lib (ho_os h)) arguments ''--service-name'' = Ok name"
    and "argument_value (hw_lib (ho_os h)) arguments ''--config'' = Ok path"
    and "pl_parent (hw_lib (ho_os h)) path = Some root"
    and "inspect_path (hw_paths (ho_os h)) root path ConfigFile (w, empty_ledger) = (Err e, (w1, l1))"
  shows "hw_service_main h arguments w =
    Some (di_eprint (ho_dispatcher h) (''hardware service failed: '' @ e)
      (record_service_diagnostic h (pl_join (hw_lib (ho_os h)) root ''service_diagnostic.log'')
        (''hardware service failed: '' @ e) w1))"
proof -
  have "load_config (ho_os h) path (w, empty_ledger) = (Err e, (w1, l1))"
    using assms(3,4) by (simp add: load_config_def bind_io_def)
  then have "prologue (ho_os h) arguments (w, empty_ledger) = (Err e, (w1, l1))"
    using assms(1,2) by (simp add: prologue_def PathInspect.lift_text_def bind_io_def)
  then have run: "HardwareService.run_service (ho_os h) arguments (w, empty_ledger) = Some (Err e, (w1, l1))"
    by (simp add: HardwareService.run_service_def)
  have "diagnostic_root (hw_lib (ho_os h)) arguments = Some root"
    using assms(2,3) by (simp add: diagnostic_root_def)
  with run show ?thesis
    by (simp only: hw_service_main_def build_diagnostics_def diagnostics_paths.select_convs option.case result.case prod.case Let_def)
qed

end
