(* ===== verification/ServerQueries.thy ===== *)
theory ServerQueries
  imports ServerIdentity Platform
begin

text \<open>
  \<open>spotter-win32/src/pipe.rs\<close>: the queries by which the client authenticates the process behind the
  pipe, with the handles and the memory that they own.  The decisions over their answers are those of
  \<open>ServerIdentity\<close>, which this theory runs on these queries.  Errors are the texts that are shown.
\<close>

section \<open>Ports\<close>

text \<open>
  Tokens by their access, the size and the SID of a token's user, whether that SID is LocalSystem's, its
  text in memory that Windows allocates and the decoding of that text; the process of the pipe, its
  handle, exit code and image (a buffer of 16-bit units and a length); the manager, a service and the
  command line of its configuration, if there is one and if it decodes; and a privilege.
\<close>

record 'w query_os =
  qo_close :: "resource \<Rightarrow> 'w \<Rightarrow> 'w"
  qo_own_token :: "u32 \<Rightarrow> ('w, string, nat) effect"
  qo_process_token :: "nat \<Rightarrow> ('w, string, nat) effect"
  qo_token_size :: "nat \<Rightarrow> 'w \<Rightarrow> u32 \<times> 'w"
  qo_token_user :: "nat \<Rightarrow> u32 \<Rightarrow> ('w, string, nat) effect"
  qo_is_local_system :: "nat \<Rightarrow> bool"
  qo_format_sid :: "nat \<Rightarrow> ('w, string, nat) effect"
  qo_decode :: "nat \<Rightarrow> 'w \<Rightarrow> (string, string) result"
  qo_server_pid :: "('w, string, u32) effect"
  qo_open_process :: "u32 \<Rightarrow> ('w, string, nat) effect"
  qo_exit_code :: "nat \<Rightarrow> ('w, string, u32) effect"
  qo_image_name :: "nat \<Rightarrow> ('w, string, u16 list \<times> u32) effect"
  qo_from_wide :: "u16 list \<Rightarrow> string"
  qo_open_manager :: "('w, string, nat) effect"
  qo_open_service :: "nat \<Rightarrow> string \<Rightarrow> ('w, string, nat) effect"
  qo_service_config :: "nat \<Rightarrow> ('w, string, (string, string) result option) effect"
  qo_lookup_privilege :: "('w, string, nat) effect"
  qo_adjust_privileges :: "nat \<Rightarrow> nat \<Rightarrow> ('w, string, bool) effect"
  qo_components :: "string \<Rightarrow> string list"
  qo_is_reparse :: "string \<Rightarrow> ('w, string, bool) effect"
  qo_final_path :: "string \<Rightarrow> ('w, string, string) effect"

definition TOKEN_QUERY :: u32 where
  "TOKEN_QUERY = 0x8"

definition TOKEN_ADJUST_PRIVILEGES :: u32 where
  "TOKEN_ADJUST_PRIVILEGES = 0x20"

definition shown :: "string \<Rightarrow> ('w, string, 'a) effect \<Rightarrow> ('w, string, 'a) effect" where
  "shown why = explained (\<lambda>_. why)"

section \<open>The queries\<close>

text \<open>A text that does not decode is not freed.\<close>

definition sid_to_string :: "'w query_os \<Rightarrow> nat \<Rightarrow> ('w, string, string) owning" where
  "sid_to_string q sid =
     bind_io (acquire Memory (shown ''failed to format owner SID'' (qo_format_sid q sid))) (\<lambda>address.
     if address = 0 then fail ''Windows returned a null owner SID''
     else
     bind_io (using_it (Memory address) (shown ''owner SID was not valid UTF-16'' (\<lambda>w. (qo_decode q address w, w)))) (\<lambda>v.
     bind_io (close_all (qo_close q) [Memory address]) (\<lambda>_. ret v)))"

text \<open>The user of a token, by two calls: for the size of its description, and for the description.\<close>

definition token_user ::
  "'w query_os \<Rightarrow> string \<Rightarrow> (('w, string, nat) effect \<Rightarrow> ('w, string, nat) effect) \<Rightarrow> nat \<Rightarrow> ('w, string, nat) owning" where
  "token_user q no_size explain token =
     bind_io (using_it (Handle token) (\<lambda>w. case qo_token_size q token w of (needed, w') \<Rightarrow> (Ok needed, w'))) (\<lambda>needed.
     if needed = 0 then fail no_size else using_it (Handle token) (explain (qo_token_user q token needed)))"

definition current_user_sid :: "'w query_os \<Rightarrow> ('w, string, string) owning" where
  "current_user_sid q =
     bind_io (acquire Handle (shown ''failed to open current process token'' (qo_own_token q TOKEN_QUERY))) (\<lambda>token.
     scoped (qo_close q) (Handle token)
       (if token = 0 then fail ''Windows returned an invalid current-process token handle''
        else bind_io (token_user q ''Windows returned no current-process token-user size''
               (shown ''failed to read current-process token user'') token) (sid_to_string q)))"

definition process_user :: "'w query_os \<Rightarrow> nat \<Rightarrow> ('w, string, bool \<times> string option) owning" where
  "process_user q process =
     bind_io (acquire Handle (qo_process_token q process)) (\<lambda>token.
     scoped (qo_close q) (Handle token)
       (if token = 0 then fail ''Windows returned an invalid token handle''
        else
        bind_io (token_user q ''Windows returned no token-user size'' (\<lambda>m. m) token) (\<lambda>sid s.
          case sid_to_string q sid s of
            (Ok t, s') \<Rightarrow> (Ok (qo_is_local_system q sid, Some t), s')
          | (Err _, s') \<Rightarrow> (Ok (qo_is_local_system q sid, None), s'))))"

definition query_image_path :: "'w query_os \<Rightarrow> nat \<Rightarrow> ('w, string, string) owning" where
  "query_image_path q process =
     bind_io (using_it (Handle process) (qo_image_name q process)) (\<lambda>(buffer, length).
       ret (qo_from_wide q (take (unat length) buffer)))"

definition query_service_command_line :: "'w query_os \<Rightarrow> string \<Rightarrow> ('w, string, string) owning" where
  "query_service_command_line q name =
     bind_io (acquire Handle (qo_open_manager q)) (\<lambda>manager.
     scoped (qo_close q) (Handle manager)
       (bind_io (using_it (Handle manager) (ret ())) (\<lambda>_.
        bind_io (acquire Handle (qo_open_service q manager name)) (\<lambda>service.
        scoped (qo_close q) (Handle service)
          (bind_io (using_it (Handle service) (qo_service_config q service)) (\<lambda>config.
             case config of
               None \<Rightarrow> fail ''service configuration has no binary path''
             | Some command_line \<Rightarrow> (\<lambda>s. (command_line, s))))))))"

definition enable_debug_privilege :: "'w query_os \<Rightarrow> ('w, string, unit) owning" where
  "enable_debug_privilege q =
     bind_io (acquire Handle (shown ''failed to open current-process token for SeDebugPrivilege''
       (qo_own_token q (or TOKEN_ADJUST_PRIVILEGES TOKEN_QUERY)))) (\<lambda>token.
     scoped (qo_close q) (Handle token)
       (if token = 0 then fail ''Windows returned an invalid current-process token handle''
        else
        bind_io (plain (shown ''failed to look up SeDebugPrivilege'' (qo_lookup_privilege q))) (\<lambda>luid.
        bind_io (using_it (Handle token) (shown ''failed to enable SeDebugPrivilege'' (qo_adjust_privileges q token luid)))
          (\<lambda>not_all_assigned.
             if not_all_assigned then fail ''SeDebugPrivilege is not assigned to the current process token'' else ret ()))))"

text \<open>These queries as the ports of the decisions.\<close>

definition identity_os :: "'w query_os \<Rightarrow> ('w \<times> ledger) os" where
  "identity_os q =
     \<lparr>os_debug_privilege = enable_debug_privilege q, os_server_pid = plain (qo_server_pid q),
      os_open_process = (\<lambda>pid. bind_io (acquire Handle (qo_open_process q pid)) (\<lambda>h. ret (if h = 0 then None else Some h))),
      os_exit_code = (\<lambda>process. using_it (Handle process) (qo_exit_code q process)),
      os_token_user = process_user q, os_current_user = current_user_sid q, os_image_path = query_image_path q,
      os_service_command_line = query_service_command_line q, os_components = qo_components q,
      os_is_reparse = (\<lambda>path. plain (qo_is_reparse q path)), os_final_path = (\<lambda>path. plain (qo_final_path q path))\<rparr>"

section \<open>The query with its process\<close>

definition authenticated ::
  "'w query_os \<Rightarrow> string \<Rightarrow> string option \<Rightarrow> u32 \<Rightarrow> nat \<Rightarrow> ('w, service_identity_error, server_identity) owning" where
  "authenticated q name same_account_executable process_id process =
     bind_io (require_active (identity_os q) process) (\<lambda>_.
     bind_io (check_owner (identity_os q) same_account_executable process) (\<lambda>observed_account.
     bind_io (check_image (identity_os q) name same_account_executable process) (\<lambda>image_path.
     bind_io (require_active (identity_os q) process) (\<lambda>_.
     ret \<lparr>sr_process_id = process_id, sr_account_sid = observed_account, sr_image_path = image_path\<rparr>))))"

definition owning_query_with_profile ::
  "'w query_os \<Rightarrow> string \<Rightarrow> string option \<Rightarrow> ('w, service_identity_error, server_identity) owning" where
  "owning_query_with_profile q name same_account_executable =
     bind_io (identity_failure (enable_debug_privilege q)) (\<lambda>_.
     bind_io (identity_failure (plain (qo_server_pid q))) (\<lambda>process_id.
     if process_id = 0 then fail ServiceStarting else
     bind_io (identity_failure (acquire Handle (qo_open_process q process_id))) (\<lambda>process.
     if process = 0 then fail (IdentityQueryFailed ''Windows returned an invalid process handle'') else
     scoped (qo_close q) (Handle process) (authenticated q name same_account_executable process_id process))))"

lemma owning_query_answers:
  "fst (owning_query_with_profile q name exe s) = fst (native_query_with_profile (identity_os q) name exe s)"
  by (auto simp: owning_query_with_profile_def native_query_with_profile_def open_server_def authenticated_def identity_os_def
      bind_io_def identity_failure_def scoped_def split: prod.split result.split)

section \<open>Ownership\<close>

definition decodes :: "'w query_os \<Rightarrow> bool" where
  "decodes q \<longleftrightarrow> (\<forall>address w. is_ok (qo_decode q address w))"

lemma manages_explained: "manages rs m Q E \<Longrightarrow> manages rs (explained f m) Q E"
  by (rule managesI) (auto simp: explained_def dest: managesD split: prod.splits result.splits)

lemma steady_explained [steadying]: "steady rs m \<Longrightarrow> steady rs (explained f m)"
  unfolding steady_def by (rule manages_explained)

lemma identity_failure_explained: "identity_failure = explained IdentityQueryFailed"
  by (simp add: fun_eq_iff identity_failure_def explained_def)

lemma steady_identity [steadying]: "steady rs m \<Longrightarrow> steady rs (identity_failure m)"
  unfolding identity_failure_explained by (rule steady_explained)

lemma steady_lift_result [steadying]: "steady rs (lift_result r)"
  unfolding steady_def by (rule managesI) (auto simp: lift_result_def)

lemma manages_sid:
  assumes "decodes q"
  shows "steady rs (sid_to_string q sid)"
proof -
  have never: "\<not> (using_it (Memory a) (shown why (\<lambda>w. (qo_decode q a w, w))) s = (Err e, s'))" for a why s e s'
  proof
    assume "using_it (Memory a) (shown why (\<lambda>w. (qo_decode q a w, w))) s = (Err e, s')"
    then obtain w e' where "qo_decode q a w = Err e'"
      by (cases s) (auto simp: using_it_def shown_def explained_def split: prod.splits result.splits)
    with assms show False
      unfolding decodes_def by (metis is_ok.simps(2))
  qed
  have decoded: "manages (owned (Memory a) + rs) (using_it (Memory a) (shown why (\<lambda>w. (qo_decode q a w, w))))
      (\<lambda>_. owned (Memory a) + rs) rs" for a why
  proof (rule managesI)
    show "owns frame (owned (Memory a) + rs) s'"
      if "owns frame (owned (Memory a) + rs) s" "using_it (Memory a) (shown why (\<lambda>w. (qo_decode q a w, w))) s = (Ok x, s')"
      for frame s x s'
      using steadyD [OF steady_using that] by simp
  qed (simp add: never)
  have freed: "manages (owned (Memory a) + rs)
      (bind_io (using_it (Memory a) (shown why (\<lambda>w. (qo_decode q a w, w)))) (\<lambda>v. bind_io (close_all (qo_close q) [Memory a]) (\<lambda>_. ret v)))
      (\<lambda>_. rs) rs" for a why
    using manages_close_all [of "[Memory a]" rs]
    by (intro manages_bind [OF decoded] manages_bind [OF _ manages_ret [where Q = "\<lambda>_. rs"]]) simp
  show ?thesis
    unfolding sid_to_string_def steady_def
    by (rule manages_bind [OF manages_acquire]) (auto intro: freed manages_fail)
qed

lemma steady_token_user: "owned (Handle token) \<subseteq># rs \<Longrightarrow> steady rs (token_user q no_size explain token)"
  unfolding token_user_def by (intro steadying)

lemma steady_current_user: "decodes q \<Longrightarrow> steady rs (current_user_sid q)"
  unfolding current_user_sid_def by (intro steady_scope steadying steady_token_user manages_sid) auto

lemma steady_caught: "steady rs m \<Longrightarrow> steady rs (\<lambda>s. case m s of (Ok t, s') \<Rightarrow> (Ok (f t), s') | (Err _, s') \<Rightarrow> (Ok g, s'))"
  unfolding steady_def
  by (rule managesI) (auto dest: managesD split: prod.splits result.splits)

lemma steady_process_user: "decodes q \<Longrightarrow> steady rs (process_user q process)"
  unfolding process_user_def by (intro steady_scope steadying steady_token_user steady_caught manages_sid) auto

lemma steady_image: "owned (Handle process) \<subseteq># rs \<Longrightarrow> steady rs (query_image_path q process)"
  unfolding query_image_path_def by (intro steadying)

lemma steady_known: "steady rs (\<lambda>s. (r, s))"
  by (rule steady_answer)

lemma steady_command_line: "steady rs (query_service_command_line q name)"
  unfolding query_service_command_line_def
  by (intro steady_scope steadying steady_known) auto

lemma steady_privilege: "steady rs (enable_debug_privilege q)"
  unfolding enable_debug_privilege_def shown_def by (intro steady_scope steadying) auto

lemma identity_os_fields [simp]:
  "os_exit_code (identity_os q) = (\<lambda>process. using_it (Handle process) (qo_exit_code q process))"
  "os_token_user (identity_os q) = process_user q" "os_current_user (identity_os q) = current_user_sid q"
  "os_image_path (identity_os q) = query_image_path q"
  "os_service_command_line (identity_os q) = query_service_command_line q"
  "os_is_reparse (identity_os q) = (\<lambda>path. plain (qo_is_reparse q path))"
  "os_final_path (identity_os q) = (\<lambda>path. plain (qo_final_path q path))"
  by (simp_all add: identity_os_def)

lemma steady_canonical [steadying]: "steady rs (canonicalize_without_reparse (identity_os q) path)"
  unfolding canonicalize_without_reparse_def identity_os_fields by (intro steadying)

lemma steady_authenticated:
  assumes "decodes q" "owned (Handle process) \<subseteq># rs"
  shows "steady rs (authenticated q name exe pid process)"
  using assms
  unfolding authenticated_def require_active_def check_owner_def check_image_def query_service_binary_path_def Let_def identity_os_fields
  by (intro steadying steady_process_user steady_current_user steady_image steady_command_line)

lemma steady_owning_query: "decodes q \<Longrightarrow> steady rs (owning_query_with_profile q name exe)"
proof -
  assume q: "decodes q"
  have opened: "manages rs (identity_failure (acquire Handle (qo_open_process q pid))) (\<lambda>h. owned (Handle h) + rs) rs" for pid
    unfolding identity_failure_explained by (rule manages_explained [OF manages_acquire])
  have inner: "steady rs (bind_io (identity_failure (acquire Handle (qo_open_process q pid))) (\<lambda>process.
     if process = 0 then fail (IdentityQueryFailed why) else
     scoped (qo_close q) (Handle process) (authenticated q name exe pid process)))" for pid why
    unfolding steady_def
    by (rule manages_bind [OF opened])
      (auto intro!: manages_scoped manages_fail steady_authenticated [OF q, unfolded steady_def])
  show ?thesis
    unfolding owning_query_with_profile_def
    by (intro steady_bind [OF steady_identity [OF steady_privilege]] steady_bind [OF steady_identity [OF steady_basic(3)]]
        steady_if steady_basic(2) inner)
qed

text \<open>
  The authentication releases everything it opened.  With its handles and memory in the ledger, the
  query answers what the decisions of the model answer, and however it ends, the token of the privilege,
  the process, its token, the token of the caller, the manager, the service and the texts of the SIDs are
  each released exactly once and none is used after it, provided that the texts of SIDs decode.
\<close>

theorem server_query_releases_all:
  assumes "decodes q"
  shows "fst (owning_query_with_profile q name exe s) = fst (native_query_with_profile (identity_os q) name exe s)
    \<and> accounts {#} (snd (owning_query_with_profile q name exe (w, empty_ledger)))"
  using owning_query_answers accounts_steady [OF steady_owning_query [OF assms]] by blast

text \<open>The proviso is needed: a text that does not decode stays allocated.\<close>

lemma undecoded_text_leaks:
  assumes "qo_format_sid q sid w = (Ok address, w1)" "address \<noteq> 0" "qo_decode q address w1 = Err e"
  shows "sid_to_string q sid (w, empty_ledger) = (Err ''owner SID was not valid UTF-16'', (w1, empty_ledger\<lparr>lg_owned := {#Memory address#}\<rparr>))"
  using assms
  by (simp add: sid_to_string_def bind_io_def acquire_def shown_def explained_def using_it_def gain_def is_resource_def touch_def
      empty_ledger_def)

section \<open>Example\<close>

definition demo_queries :: "nat query_os" where
  "demo_queries =
     \<lparr>qo_close = (\<lambda>_ w. w), qo_own_token = (\<lambda>_. ret 11), qo_process_token = (\<lambda>_. ret 12), qo_token_size = (\<lambda>_ w. (44, w)),
      qo_token_user = (\<lambda>_ _. ret 5), qo_is_local_system = (\<lambda>_. True), qo_format_sid = (\<lambda>_. ret 13),
      qo_decode = (\<lambda>_ _. Ok ''S-1-5-18''), qo_server_pid = ret 7, qo_open_process = (\<lambda>_. ret 14),
      qo_exit_code = (\<lambda>_. ret STILL_ACTIVE), qo_image_name = (\<lambda>_. ret ([67], 1)), qo_from_wide = (\<lambda>_. ''C''),
      qo_open_manager = ret 15, qo_open_service = (\<lambda>_ _. ret 16), qo_service_config = (\<lambda>_. ret (Some (Ok ''C''))),
      qo_lookup_privilege = ret 20, qo_adjust_privileges = (\<lambda>_ _. ret False), qo_components = (\<lambda>p. [p]),
      qo_is_reparse = (\<lambda>_. ret False), qo_final_path = ret\<rparr>"

theorem server_query_releases_all_witness:
  "accounts {#} (snd (owning_query_with_profile demo_queries ''SnipeSpotter'' None (0, empty_ledger)))"
proof -
  have "decodes demo_queries"
    by (simp add: decodes_def demo_queries_def)
  then show ?thesis
    using server_query_releases_all [of demo_queries] by blast
qed

end
