(* ===== verification/ServerLoop.thy ===== *)
theory ServerLoop
  imports IpcServer Platform
begin

text \<open>
  \<open>spotter-svc/src/ipc_server.rs\<close>: the instances of the secured pipe, with the security attributes and
  the handles they own, and the sequential loop \<open>run_named_pipe_at\<close> that the tests of the client run.
\<close>

section \<open>A secured instance\<close>

text \<open>
  The creation of an instance under security attributes, the wait for a client, what the client of an
  instance does, the command loop of the service, and the delivery of a response.
\<close>

record 'w pipe_server =
  ps_windows :: "'w windows"
  ps_create :: "string \<Rightarrow> bool \<Rightarrow> nat \<Rightarrow> ('w, string, nat) effect"
  ps_connect :: "nat \<Rightarrow> ('w, string, unit) effect"
  ps_client :: "nat \<Rightarrow> 'w \<Rightarrow> pipe_client"
  ps_request :: "service_command \<Rightarrow> ('w, ipc_response) io"
  ps_deliver :: "nat \<Rightarrow> string \<Rightarrow> 'w \<Rightarrow> 'w"

definition create_secured_server :: "'w pipe_server \<Rightarrow> string \<Rightarrow> bool \<Rightarrow> ('w, failure, nat) owning" where
  "create_secured_server ps name first_instance =
     bind_io (wrapped ''failed to build named-pipe security attributes'' (create_admin_pipe_security_attributes (ps_windows ps)))
       (\<lambda>descriptor.
          scoped (wn_close (ps_windows ps)) (Memory descriptor)
            (bind_io (using_it (Memory descriptor) (ret ())) (\<lambda>_.
               acquire Handle (in_context ''failed to create secured named pipe'' (ps_create ps name first_instance descriptor)))))"

section \<open>The shutdown guard\<close>

datatype pipe_server_guard = Guard (is_cancelled: bool)

definition new_guard :: pipe_server_guard where
  "new_guard = Guard False"

definition request_shutdown :: "pipe_server_guard \<Rightarrow> pipe_server_guard" where
  "request_shutdown g = Guard True"

section \<open>The sequential loop\<close>

definition session :: "wire \<Rightarrow> 'w pipe_server \<Rightarrow> nat \<Rightarrow> ('w, unit) io" where
  "session wi ps h = (\<lambda>w. case serve_one wi (ps_request ps) (ps_client ps h w) (w, []) of
     (r, (w', got)) \<Rightarrow> (r, ps_deliver ps h got w'))"

definition ignored :: "('w, 'e, unit) effect \<Rightarrow> ('w, 'e, unit) effect" where
  "ignored m = (\<lambda>w. (Ok (), snd (m w)))"

text \<open>One turn of the loop; the guard of the loop is its own, so that nothing cancels the wait.\<close>

definition one_client :: "wire \<Rightarrow> 'w pipe_server \<Rightarrow> string \<Rightarrow> bool \<Rightarrow> ('w, failure, unit) owning" where
  "one_client wi ps name first_instance =
     bind_io (create_secured_server ps name first_instance) (\<lambda>h.
     scoped (wn_close (ps_windows ps)) (Handle h)
       (bind_io (using_it (Handle h) (in_context ''named-pipe client connect failed'' (ps_connect ps h))) (\<lambda>_.
        using_it (Handle h) (ignored (session wi ps h)))))"

partial_function (option) accept_clients ::
  "wire \<Rightarrow> 'w pipe_server \<Rightarrow> string \<Rightarrow> pipe_server_guard \<Rightarrow> bool \<Rightarrow> 'w \<times> ledger \<Rightarrow> ((unit, failure) result \<times> 'w \<times> ledger) option" where
  "accept_clients wi ps name shutdown first_instance s =
     (if is_cancelled shutdown then Some (Ok (), s)
      else (case one_client wi ps name first_instance s of
              (Err e, s') \<Rightarrow> Some (Err e, s')
            | (Ok _, s') \<Rightarrow> accept_clients wi ps name shutdown False s'))"

definition run_named_pipe_at ::
  "wire \<Rightarrow> 'w pipe_server \<Rightarrow> string \<Rightarrow> 'w \<times> ledger \<Rightarrow> ((unit, failure) result \<times> 'w \<times> ledger) option" where
  "run_named_pipe_at wi ps name = accept_clients wi ps name new_guard True"

definition run_named_pipe ::
  "wire \<Rightarrow> 'w pipe_server \<Rightarrow> 'w \<times> ledger \<Rightarrow> ((unit, failure) result \<times> 'w \<times> ledger) option" where
  "run_named_pipe wi ps = run_named_pipe_at wi ps (pipe_endpoint production)"

section \<open>Ownership\<close>

lemma manages_wrapped: "manages rs m Q E \<Longrightarrow> manages rs (wrapped why m) Q E"
  unfolding wrapped_def by (rule managesI) (auto simp: explained_def dest: managesD split: prod.splits result.splits)

lemma manages_after_use: "owned r \<subseteq># rs \<Longrightarrow> (\<And>x. manages rs (f x) Q rs) \<Longrightarrow> manages rs (bind_io (using_it r m) f) Q rs"
  by (rule manages_bind [OF manages_using])

lemma manages_secured: "manages rs (create_secured_server ps name first) (\<lambda>h. owned (Handle h) + rs) rs"
proof -
  have "manages (owned (Memory d) + rs)
      (bind_io (using_it (Memory d) (ret ())) (\<lambda>_. acquire Handle (create d)))
      (\<lambda>h. owned (Memory d) + (owned (Handle h) + rs)) (owned (Memory d) + rs)" for d and create :: "nat \<Rightarrow> ('a, failure, nat) effect"
    using manages_acquire [of "owned (Memory d) + rs" Handle "create d"]
    by (intro manages_after_use) (simp_all add: ac_simps)
  then show ?thesis
    unfolding create_secured_server_def
    by (intro manages_bind [OF manages_wrapped [OF manages_attributes]] manages_scoped)
qed

lemma steady_one_client: "steady rs (one_client wi ps name first)"
  unfolding one_client_def steady_def
  by (rule manages_bind [OF manages_secured], rule manages_scoped, fold steady_def, intro steadying) auto

text \<open>
  The loop ends only with an error, of the creation of an instance or of the wait for a client: no
  client ends it, whatever it sends and however its session fails.  Each instance has been closed and
  each descriptor freed by then, exactly once.
\<close>

theorem sequential_loop_ends_by_error:
  assumes "run_named_pipe_at wi ps name (w, empty_ledger) = Some (r, s')"
  shows "\<not> is_ok r \<and> accounts {#} s'"
proof -
  have inner: "\<not> is_ok r \<and> accounts {#} s'"
    if run: "accept_clients wi ps name new_guard first s = Some (r, s')" and start: "accounts {#} s" for first s
  proof -
    have "\<not> is_cancelled new_guard \<longrightarrow> accounts {#} s \<longrightarrow> \<not> is_ok (fst (r, s')) \<and> accounts {#} (snd (r, s'))"
    proof (rule accept_clients.raw_induct
        [where P = "\<lambda>wi ps name shutdown first s y. \<not> is_cancelled shutdown \<longrightarrow> accounts {#} s \<longrightarrow> \<not> is_ok (fst y) \<and> accounts {#} (snd y)",
          OF _ run])
      fix rec :: "wire \<Rightarrow> 'a pipe_server \<Rightarrow> string \<Rightarrow> pipe_server_guard \<Rightarrow> bool \<Rightarrow> 'a \<times> ledger \<Rightarrow> ((unit, failure) result \<times> 'a \<times> ledger) option"
        and wi ps name shutdown first s y
      assume rec: "\<And>wi ps name shutdown first s y. rec wi ps name shutdown first s = Some y \<Longrightarrow>
          \<not> is_cancelled shutdown \<longrightarrow> accounts {#} s \<longrightarrow> \<not> is_ok (fst y) \<and> accounts {#} (snd y)"
        and step: "(if is_cancelled shutdown then Some (Ok (), s)
          else (case one_client wi ps name first s of
              (Err e, s') \<Rightarrow> Some (Err e, s')
            | (Ok _, s') \<Rightarrow> rec wi ps name shutdown False s')) = Some y"
      obtain r1 s1 where one: "one_client wi ps name first s = (r1, s1)" by (rule prod.exhaust)
      have kept: "accounts {#} s \<Longrightarrow> accounts {#} s1"
        unfolding accounts_owns by (rule steadyD [OF steady_one_client _ one])
      show "\<not> is_cancelled shutdown \<longrightarrow> accounts {#} s \<longrightarrow> \<not> is_ok (fst y) \<and> accounts {#} (snd y)"
        using step one kept rec [of wi ps name shutdown False s1 y] by (cases r1) auto
    qed
    with start show "\<not> is_ok r \<and> accounts {#} s'"
      by (simp add: new_guard_def)
  qed
  show ?thesis
    by (rule inner [OF assms [unfolded run_named_pipe_at_def] accounts_start])
qed

end
