(* ===== verification/Connection.thy ===== *)
theory Connection
  imports Client
begin

text \<open>
  \<open>spotter-svc/src/snipeit_client.rs\<close>: the construction of the HTTP client and the requests it puts on
  the wire, as the transport under the calls of \<open>Client\<close>.  \<open>reqwest\<close>, TLS and the parsers of URLs and
  certificates are parameters.
\<close>

section \<open>Construction\<close>

record http_client =
  hx_timeout :: nat
  hx_redirects :: bool
  hx_native_tls :: bool
  hx_extra_root :: "string option"

text \<open>\<open>certificate\<close> says whether a text is a certificate, \<open>builds\<close> why a client cannot be built.\<close>

definition build_https_client ::
  "(string \<Rightarrow> (unit, string) result) \<Rightarrow> (http_client \<Rightarrow> (unit, string) result) \<Rightarrow> nat \<Rightarrow> string option \<Rightarrow> (http_client, string) result" where
  "build_https_client certificate builds timeout additional_ca_pem =
     and_then (case additional_ca_pem of Some pem \<Rightarrow> certificate pem | None \<Rightarrow> Ok ()) (\<lambda>_.
       let client = \<lparr>hx_timeout = timeout, hx_redirects = False, hx_native_tls = True, hx_extra_root = additional_ca_pem\<rparr> in
       and_then (builds client) (\<lambda>_. Ok client))"

text \<open>A parsed URL with its port and the segments of its path.\<close>

record url = url_parts +
  ur_port :: "nat option"
  ur_path :: "string list"

record snipeit_client =
  sc_client :: http_client
  sc_base_url :: url
  sc_token :: string

definition checked_url :: "(string \<Rightarrow> url option) \<Rightarrow> string \<Rightarrow> (url, string) result" where
  "checked_url parse base_url =
     and_then (with_timeout (\<lambda>s. map_option url_parts.truncate (parse s)) base_url) (\<lambda>_.
       ok_or ''invalid Snipe-IT URL'' (parse (trim base_url)))"

definition client_with_trust ::
  "(string \<Rightarrow> (unit, string) result) \<Rightarrow> (http_client \<Rightarrow> (unit, string) result) \<Rightarrow> (string \<Rightarrow> url option)
     \<Rightarrow> string \<Rightarrow> string \<Rightarrow> nat \<Rightarrow> string option \<Rightarrow> (snipeit_client, string) result" where
  "client_with_trust certificate builds parse base_url token timeout ca_pem =
     and_then (checked_url parse base_url) (\<lambda>u.
     and_then (build_https_client certificate builds timeout ca_pem) (\<lambda>client.
       Ok \<lparr>sc_client = client, sc_base_url = u, sc_token = token\<rparr>))"

definition with_timeout_custom_trust ::
  "(string \<Rightarrow> (unit, string) result) \<Rightarrow> (http_client \<Rightarrow> (unit, string) result) \<Rightarrow> (string \<Rightarrow> url option)
     \<Rightarrow> string \<Rightarrow> string \<Rightarrow> nat \<Rightarrow> string \<Rightarrow> (snipeit_client, string) result" where
  "with_timeout_custom_trust certificate builds parse base_url token timeout ca_pem =
     client_with_trust certificate builds parse base_url token timeout (Some ca_pem)"

definition new_snipeit_client ::
  "(string \<Rightarrow> (unit, string) result) \<Rightarrow> (http_client \<Rightarrow> (unit, string) result) \<Rightarrow> (string \<Rightarrow> url option)
     \<Rightarrow> string \<Rightarrow> string \<Rightarrow> (snipeit_client, string) result" where
  "new_snipeit_client certificate builds parse base_url token =
     client_with_trust certificate builds parse base_url token 30 None"

text \<open>The client of the tests: plain HTTP, to a loopback address only.\<close>

definition loopback_client ::
  "(http_client \<Rightarrow> (unit, string) result) \<Rightarrow> (string \<Rightarrow> url option) \<Rightarrow> (string \<Rightarrow> bool)
     \<Rightarrow> string \<Rightarrow> string \<Rightarrow> nat \<Rightarrow> (snipeit_client, string) result" where
  "loopback_client builds parse is_loopback base_url token timeout =
     and_then (ok_or ''invalid Snipe-IT URL'' (parse (trim base_url))) (\<lambda>u.
       if up_scheme u \<noteq> ''http'' \<or> up_username u \<noteq> [] \<or> up_password u \<noteq> None \<or> up_query u \<noteq> None
         \<or> up_fragment u \<noteq> None \<or> (case up_host u of Some host \<Rightarrow> \<not> is_loopback host | None \<Rightarrow> True)
       then Err ''test HTTP URL must target loopback without credentials or query''
       else
         let client = \<lparr>hx_timeout = timeout, hx_redirects = False, hx_native_tls = False, hx_extra_root = None\<rparr> in
         and_then (builds client) (\<lambda>_. Ok \<lparr>sc_client = client, sc_base_url = u, sc_token = token\<rparr>))"

section \<open>Requests on the wire\<close>

record wire_request =
  wq_method :: http_method
  wq_url :: url
  wq_query :: "(string \<times> string) list"
  wq_headers :: "(string \<times> string) list"
  wq_body :: "json option"

text \<open>The URL of an endpoint: the base URL without query and fragment, under another path.\<close>

definition endpoint_url :: "url \<Rightarrow> string list \<Rightarrow> url" where
  "endpoint_url base path = base\<lparr>up_query := None, up_fragment := None, ur_path := path\<rparr>"

definition request :: "snipeit_client \<Rightarrow> http_request \<Rightarrow> wire_request" where
  "request c rq =
     \<lparr>wq_method = rq_method rq, wq_url = endpoint_url (sc_base_url c) (rq_path rq), wq_query = rq_query rq,
      wq_headers = [(''Authorization'', ''Bearer '' @ sc_token c), (''Accept'', ''application/json'')],
      wq_body = rq_body rq\<rparr>"

record reqwest_error =
  re_is_timeout :: bool
  re_is_connect :: bool

definition network :: "reqwest_error \<Rightarrow> snipeit_error" where
  "network e = NetworkError (if re_is_timeout e then Timeout else if re_is_connect e then Connect else Other)"

text \<open>What \<open>reqwest\<close> does with a client and a request, without and with the deadline of a pagination.\<close>

record 'w reqwest =
  rw_send :: "http_client \<Rightarrow> wire_request \<Rightarrow> ('w, reqwest_error, http_response) effect"
  rw_send_by :: "http_client \<Rightarrow> wire_request \<Rightarrow> 'w \<Rightarrow> (http_response, reqwest_error) result option \<times> 'w"
  rw_deadline :: "('w, snipeit_error, bool) effect"

definition send :: "'w reqwest \<Rightarrow> snipeit_client \<Rightarrow> http_request \<Rightarrow> ('w, snipeit_error, http_response) effect" where
  "send rw c rq = explained network (rw_send rw (sc_client c) (request c rq))"

definition send_by :: "'w reqwest \<Rightarrow> snipeit_client \<Rightarrow> http_request \<Rightarrow> ('w, snipeit_error, http_response) effect" where
  "send_by rw c rq = (\<lambda>w. case rw_send_by rw (sc_client c) (request c rq) w of
     (None, w') \<Rightarrow> (Err (safe_invalid ''pagination deadline exceeded''), w')
   | (Some (Ok response), w') \<Rightarrow> (Ok response, w')
   | (Some (Err e), w') \<Rightarrow> (Err (network e), w'))"

text \<open>The transport of a client, over the codecs of another.\<close>

definition connection :: "'w reqwest \<Rightarrow> snipeit_client \<Rightarrow> 'w transport \<Rightarrow> 'w transport" where
  "connection rw c codecs = codecs
     \<lparr>tr_base := ur_path (sc_base_url c), tr_send := send rw c, tr_send_by := send_by rw c, tr_deadline := rw_deadline rw\<rparr>"

section \<open>Where the token goes\<close>

text \<open>A request that may carry the token: over TLS and without redirects, to the host and port of the URL.\<close>

definition may_carry :: "url \<Rightarrow> http_client \<Rightarrow> wire_request \<Rightarrow> bool" where
  "may_carry configured client rq \<longleftrightarrow>
     \<not> hx_redirects client \<and> hx_native_tls client
     \<and> up_scheme (wq_url rq) = ''https'' \<and> up_host (wq_url rq) = up_host configured \<and> up_host configured \<noteq> None
     \<and> ur_port (wq_url rq) = ur_port configured
     \<and> up_username (wq_url rq) = [] \<and> up_password (wq_url rq) = None \<and> up_query (wq_url rq) = None"

definition guarded :: "url \<Rightarrow> 'w reqwest \<Rightarrow> 'w reqwest" where
  "guarded configured rw = rw
     \<lparr>rw_send := (\<lambda>client rq. if may_carry configured client rq then rw_send rw client rq
        else fail \<lparr>re_is_timeout = False, re_is_connect = False\<rparr>),
      rw_send_by := (\<lambda>client rq. if may_carry configured client rq then rw_send_by rw client rq else (\<lambda>w. (None, w)))\<rparr>"

lemma checked_url_Ok:
  "checked_url parse base_url = Ok u \<Longrightarrow>
   parse (trim base_url) = Some u \<and> up_scheme u = ''https'' \<and> up_username u = [] \<and> up_password u = None \<and> up_host u \<noteq> None"
  by (auto simp: checked_url_def with_timeout_def and_then_eq_Ok ok_or_def url_parts.truncate_def split: if_splits option.splits)

text \<open>
  C25: the token goes to the configured server and nowhere else.  A client that is constructed for a URL
  puts its token only on requests over HTTPS to the host and the port of that URL, on a connection that
  follows no redirect: a check of that on every request, of every call and every page, would refuse none.
\<close>

theorem token_stays_with_the_server:
  assumes "client_with_trust certificate builds parse base_url token timeout ca_pem = Ok c"
    and "parse (trim base_url) = Some u"
  shows "connection (guarded u rw) c codecs = connection rw c codecs"
proof -
  obtain v where v: "checked_url parse base_url = Ok v" and c: "sc_base_url c = v"
    and client: "\<not> hx_redirects (sc_client c)" "hx_native_tls (sc_client c)"
    using assms(1) by (auto simp: client_with_trust_def build_https_client_def and_then_eq_Ok Let_def)
  have vu: "v = u"
    using checked_url_Ok [OF v] assms(2) by simp
  have "may_carry u (sc_client c) (request c rq)" for rq
    using checked_url_Ok [OF v] c client vu by (auto simp: may_carry_def request_def endpoint_url_def)
  then show ?thesis
    by (simp add: connection_def guarded_def send_def send_by_def fun_eq_iff)
qed

section \<open>Example\<close>

definition demo_url :: url where
  "demo_url = \<lparr>up_scheme = ''https'', up_username = [], up_password = None, up_query = None, up_fragment = None,
     up_host = Some ''inventory.example'', ur_port = None, ur_path = [[]]\<rparr>"

definition demo_client :: snipeit_client where
  "demo_client = \<lparr>sc_client = \<lparr>hx_timeout = 30, hx_redirects = False, hx_native_tls = True, hx_extra_root = None\<rparr>,
     sc_base_url = demo_url, sc_token = ''secret''\<rparr>"

lemma demo_constructed:
  "client_with_trust (\<lambda>_. Ok ()) (\<lambda>_. Ok ()) (\<lambda>_. Some demo_url) ''https://inventory.example/'' ''secret'' 30 None = Ok demo_client"
proof -
  have "validate_snipeit_url ''https://inventory.example/'' = Ok ()"
    by code_simp
  then show ?thesis
    by (simp add: client_with_trust_def checked_url_def with_timeout_def build_https_client_def demo_client_def demo_url_def
        ok_or_def url_parts.truncate_def Let_def)
qed

theorem token_stays_with_the_server_witness:
  "\<forall>(rw :: nat reqwest) (codecs :: nat transport).
     connection (guarded demo_url rw) demo_client codecs = connection rw demo_client codecs"
  by (intro allI, rule token_stays_with_the_server [OF demo_constructed]) simp

end
