(* ===== verification/FsmHandle.thy ===== *)
theory FsmHandle
  imports Fsm
begin

text \<open>
  \<open>spotter-svc/src/fsm.rs\<close>, \<open>FsmHandle\<close> with its watch channels: a request for the status goes past the
  queue, to what was last published; every other request goes through it.
\<close>

section \<open>The handle\<close>

text \<open>
  A channel is its latest value.  A handle has a schedule channel of its own, which it publishes to, and
  reads that of its creator if one is given.
\<close>

record fsm_handle =
  fh_loop :: fsm
  fh_status :: "public_status option"
  fh_given_schedule :: "schedule_snapshot option"
  fh_own_schedule :: schedule_snapshot
  fh_attached_status :: "public_status option"
  fh_attached_schedule :: "schedule_input option"

definition spawn_with_status ::
  "nat \<Rightarrow> public_status option \<Rightarrow> schedule_snapshot option \<Rightarrow> (fsm_handle, string) result" where
  "spawn_with_status capacity status schedule =
     (case spawn capacity of
        None \<Rightarrow> Err ''FSM channel capacity must be nonzero''
      | Some loop \<Rightarrow>
          Ok \<lparr>fh_loop = loop, fh_status = status, fh_given_schedule = schedule,
              fh_own_schedule = \<lparr>sn_config_generation = 0, sn_next_sync = None\<rparr>, fh_attached_status = None,
              fh_attached_schedule = None\<rparr>)"

definition schedule_read :: "fsm_handle \<Rightarrow> schedule_snapshot" where
  "schedule_read h = (case fh_given_schedule h of Some s \<Rightarrow> s | None \<Rightarrow> fh_own_schedule h)"

definition attach_status_publication :: "public_status \<Rightarrow> fsm_handle \<Rightarrow> fsm_handle" where
  "attach_status_publication p h = h\<lparr>fh_attached_status := Some p\<rparr>"

definition attach_schedule_input :: "schedule_input \<Rightarrow> fsm_handle \<Rightarrow> fsm_handle" where
  "attach_schedule_input i h = h\<lparr>fh_attached_schedule := Some i\<rparr>"

definition publish_schedule_snapshot :: "schedule_snapshot \<Rightarrow> fsm_handle \<Rightarrow> fsm_handle" where
  "publish_schedule_snapshot s h = h\<lparr>fh_own_schedule := s\<rparr>"

section \<open>Requests\<close>

definition enqueue :: "service_command \<Rightarrow> nat \<Rightarrow> fsm_handle \<Rightarrow> sync_enqueue \<times> fsm_handle" where
  "enqueue command caller h =
     (case enqueue_with_generation command caller (fh_loop h) of (e, loop) \<Rightarrow> (e, h\<lparr>fh_loop := loop\<rparr>))"

definition enqueue_sync :: "nat \<Rightarrow> fsm_handle \<Rightarrow> sync_enqueue \<times> fsm_handle" where
  "enqueue_sync = enqueue TriggerSync"

text \<open>What a caller gets: a response at once, or a place among the requests of the loop.\<close>

datatype requested = AnsweredAtOnce ipc_response | Awaits sync_enqueue

definition handle_request :: "service_command \<Rightarrow> nat \<Rightarrow> fsm_handle \<Rightarrow> requested \<times> fsm_handle" where
  "handle_request command caller h =
     (let queued = (case enqueue command caller h of (e, h') \<Rightarrow> (Awaits e, h')) in
      if command = GetStatus \<or> command = GetStatusFull
      then (case request_status (fh_attached_status h) (fh_status h) (Some (schedule_read h)) (command = GetStatusFull) of
              Some response \<Rightarrow> (AnsweredAtOnce response, h)
            | None \<Rightarrow> queued)
      else queued)"

text \<open>
  A published status is answered at once, from every state of the loop: while a synchronization runs,
  while the queue is full, and after the loop is gone; and asking changes nothing.
\<close>

theorem status_is_answered_at_once:
  "fst (handle_request command caller h) = AnsweredAtOnce response \<longleftrightarrow>
     (command = GetStatus \<or> command = GetStatusFull)
     \<and> (\<exists>status. (case fh_attached_status h of Some p \<Rightarrow> Some p | None \<Rightarrow> fh_status h) = Some status
          \<and> response = project_status status (schedule_read h) (command = GetStatusFull))"
  by (auto simp: handle_request_def request_status_def enqueue_def Let_def split: option.splits prod.splits)

lemma status_changes_nothing:
  "fst (handle_request command caller h) = AnsweredAtOnce response \<Longrightarrow> snd (handle_request command caller h) = h"
  by (auto simp: handle_request_def request_status_def enqueue_def Let_def split: option.splits prod.splits if_splits)

text \<open>
  The schedule that a handle publishes reaches its status only if it was not given a channel by its
  creator; the service gives none.
\<close>

lemma published_schedule_read:
  "schedule_read (publish_schedule_snapshot s h) = (case fh_given_schedule h of None \<Rightarrow> s | Some given \<Rightarrow> given)"
  by (simp add: schedule_read_def publish_schedule_snapshot_def split: option.split)

end
