(* ===== verification/Invocation.thy ===== *)
theory Invocation
  imports Restart OwnerProperties Cli
begin

text \<open>
  The client and the service together: one invocation of the client, from its parsed command line over
  the pipe to the owner and back, with the owner's ports those of any world.  Status requests are
  answered from what is published, past the owner (\<open>request\<close> of \<open>spotter-svc/src/fsm.rs\<close>).
\<close>

section \<open>The composition\<close>

definition status_command :: "service_command \<Rightarrow> bool" where
  "status_command command \<longleftrightarrow> command = GetStatus \<or> command = GetStatusFull"

text \<open>A request to an idle command loop; a handler that panics drops the response.\<close>

definition service_request ::
  "('w, 'r) owner_ports \<Rightarrow> ('r owner \<times> 'w \<Rightarrow> bool \<Rightarrow> ipc_response) \<Rightarrow> service_command \<Rightarrow> ('r owner \<times> 'w, ipc_response) io" where
  "service_request ports status_of command s =
     (if status_command command then (Ok (status_of s (command = GetStatusFull)), s)
      else (case handle ports command s of
              (Some response, s') \<Rightarrow> (Ok response, s')
            | (None, s') \<Rightarrow> (Err (Message ''service command response was cancelled''), s')))"

text \<open>
  The client's ports: the service behind the pipe, and a console whose token and reply do not depend on
  the service.  Registration does not touch it either.
\<close>

definition client_ports ::
  "wire \<Rightarrow> ('w, 'r) owner_ports \<Rightarrow> ('r owner \<times> 'w \<Rightarrow> bool \<Rightarrow> ipc_response) \<Rightarrow> bool \<Rightarrow> (string, cli_error) result
     \<Rightarrow> (bool, cli_error) result \<Rightarrow> (unit, cli_error) result \<Rightarrow> ('r owner \<times> 'w) cli_ports" where
  "client_ports wi ports status_of elevated token reply registered =
     \<lparr>cp_elevated = elevated, cp_send = exchange_named_pipe wi (service_pipe wi (service_request ports status_of)),
      cp_read_token = (\<lambda>s. (token, s)), cp_confirm = (\<lambda>_ s. (reply, s)), cp_install = (\<lambda>s. (registered, s)),
      cp_uninstall = (\<lambda>s. (registered, s))\<rparr>"

section \<open>What an invocation changes\<close>

text \<open>Ports whose sends alone touch the world.\<close>

definition only_sends :: "'w cli_ports \<Rightarrow> bool" where
  "only_sends cp \<longleftrightarrow> (\<forall>w. snd (cp_read_token cp w) = w \<and> (\<forall>p. snd (cp_confirm cp p w) = w)
     \<and> snd (cp_install cp w) = w \<and> snd (cp_uninstall cp w) = w)"

lemma snd_some_io [simp]: "snd (some_io m w) = snd (m w)"
  by (auto simp: some_io_def bind_io_def split: prod.split result.split)

lemma snd_bind_pure:
  "snd (m w) = w \<Longrightarrow> snd (bind_io m f w) = (case fst (m w) of Ok x \<Rightarrow> snd (f x w) | Err _ \<Rightarrow> w)"
  by (auto simp: bind_io_def split: prod.split result.split)

lemma snd_bind_text: "snd (bind_io (lift_text r) f w) = (case r of Ok x \<Rightarrow> snd (f x w) | Err _ \<Rightarrow> w)"
  by (simp add: bind_lift_text split: result.split)

lemma dispatch_changes:
  assumes "only_sends cp"
  shows "snd (dispatch_command command cp w) = (case intended command cp w of Some k \<Rightarrow> snd (cp_send cp k w) | None \<Rightarrow> w)"
proof -
  have pure: "snd (cp_read_token cp w) = w" "snd (cp_confirm cp p w) = w" "snd (cp_install cp w) = w" "snd (cp_uninstall cp w) = w" for p
    using assms by (simp_all add: only_sends_def)
  show ?thesis
  proof (cases command)
    case (ConfigCmd c)
    show ?thesis
    proof (cases c)
      case (ConfigSet field v)
      then show ?thesis
        using ConfigCmd by (cases "validate_config_field field v") (simp_all add: dispatch_command_def intended_def bind_lift_text)
    next
      case (ConfigGet field)
      show ?thesis
      proof (cases field)
        case (Some f)
        then show ?thesis
          using ConfigCmd ConfigGet validate_selector_iff [of f]
          by (cases "validate_selector f") (auto simp: dispatch_command_def intended_def bind_lift_text)
      qed (use ConfigCmd ConfigGet in \<open>simp add: dispatch_command_def intended_def\<close>)
    next
      case ConfigSetToken
      then show ?thesis
        using ConfigCmd by (simp add: dispatch_command_def intended_def snd_bind_pure [where m = "cp_read_token cp" and w = w, OF pure(1)] split: result.split)
    qed
  next
    case (CheckinCmd all serial yes)
    note asked = snd_bind_pure [where m = "cp_confirm cp confirm_prompt" and w = w, OF pure(2)]
    show ?thesis
      using CheckinCmd
      by (cases yes; cases "fst (cp_confirm cp confirm_prompt w)")
        (auto simp: dispatch_command_def intended_def asked split: option.split)
  next
    case (ServiceCmd a)
    then show ?thesis
      by (cases a) (simp_all add: dispatch_command_def intended_def snd_bind_pure [where m = "cp_install cp" and w = w, OF pure(3)] snd_bind_pure [where m = "cp_uninstall cp" and w = w, OF pure(4)] split: result.split)
  qed (simp_all add: dispatch_command_def intended_def)
qed

lemma client_only_sends: "only_sends (client_ports wi ports status_of elevated token reply registered)"
  by (simp add: only_sends_def client_ports_def)

text \<open>The owner's share of an invocation: one command, or none.\<close>

definition owner_share :: "wire \<Rightarrow> bool \<Rightarrow> service_command option \<Rightarrow> service_command list" where
  "owner_share wi elevated command =
     (case command of
        Some k \<Rightarrow> if elevated \<and> \<not> status_command k \<and> length (wi_command_to_vec wi k) < IPC_MAX_LINE_BYTES then [k] else []
      | None \<Rightarrow> [])"

definition answer_carried :: "wire \<Rightarrow> (ipc_response, failure) result \<Rightarrow> bool" where
  "answer_carried wi r =
     (case r of Ok response \<Rightarrow> carries (wi_response_to_vec wi) (wi_response_from_slice wi) response | Err _ \<Rightarrow> True)"

lemma invocation_step:
  assumes "intended (cli_command c) (client_ports wi ports status_of elevated token reply registered) s = command"
    and "case command of
        Some k \<Rightarrow> carries (wi_command_to_vec wi) (wi_command_from_slice wi) k
          \<and> answer_carried wi (fst (service_request ports status_of k s))
      | None \<Rightarrow> True"
  shows "snd (dispatch pr c (client_ports wi ports status_of elevated token reply registered) s)
    = handled ports (owner_share wi elevated command) s"
proof -
  let ?cp = "client_ports wi ports status_of elevated token reply registered"
  have same: "intended (cli_command c) (client_ports wi ports status_of True token reply registered) s = command" if elevated
    using assms(1) that by simp
  have dispatched: "snd (dispatch pr c ?cp s) = (if elevated then snd (dispatch_command (cli_command c) ?cp s) else s)"
    by (auto simp: dispatch_def client_ports_def bind_io_def split: prod.split result.split)
  show ?thesis
  proof (cases command)
    case None
    then show ?thesis
      unfolding dispatched using same by (simp add: dispatch_changes [OF client_only_sends] owner_share_def handled_def)
  next
    case (Some k)
    obtain r s1 where request: "service_request ports status_of k s = (r, s1)" by (rule prod.exhaust)
    have "snd (cp_send ?cp k s) = (if length (wi_command_to_vec wi k) \<ge> IPC_MAX_LINE_BYTES then s else s1)"
      using assms(2) Some request end_to_end [of wi k "service_request ports status_of" s r s1]
      by (simp add: client_ports_def answer_carried_def)
    moreover have "s1 = (if status_command k then s else snd (handle ports k s))"
      using request by (auto simp: service_request_def split: prod.splits option.splits if_splits)
    ultimately show ?thesis
      unfolding dispatched using Some same
      by (auto simp: dispatch_changes [OF client_only_sends] owner_share_def handled_def)
  qed
qed

text \<open>
  C10: an invocation of the client is one step of the owner.  Over a codec that carries the command and
  its reply, an invocation takes the service exactly where the owner takes it by handling the one command
  that the invocation stands for; it takes it nowhere if the client is not elevated, the command does not
  pass the client's checks, asks for the status, or does not fit a line.  What the client is answered, and
  whether its reply fits, makes no difference.
\<close>

theorem invocation_is_one_owner_step:
  assumes "intended (cli_command c) (client_ports wi ports status_of elevated token reply registered) s = command"
    and "case command of
        Some k \<Rightarrow> carries (wi_command_to_vec wi) (wi_command_from_slice wi) k
          \<and> answer_carried wi (fst (service_request ports status_of k s))
      | None \<Rightarrow> True"
  shows "snd (dispatch pr c (client_ports wi ports status_of elevated token reply registered) s)
    = handled ports (owner_share wi elevated command) s"
  by (rule invocation_step [OF assms])

text \<open>
  So every invocation keeps what the next start needs, on the machine of the production ports and with any
  of its failures.
\<close>

corollary invocation_resumes:
  assumes "formats_read_back pd" "resumes pd s"
    and "intended (cli_command c) (client_ports wi (production_ports pd) status_of elevated token reply registered) s = command"
    and "case command of
        Some k \<Rightarrow> carries (wi_command_to_vec wi) (wi_command_from_slice wi) k
          \<and> answer_carried wi (fst (service_request (production_ports pd) status_of k s))
      | None \<Rightarrow> True"
  shows "resumes pd (snd (dispatch pr c (client_ports wi (production_ports pd) status_of elevated token reply registered) s))"
  unfolding invocation_step [OF assms(3,4)] by (rule handled_resumes [OF assms(1,2)])

section \<open>Example\<close>

definition demo_service :: "unit owner \<times> (settings \<times> service_state)" where
  "demo_service = (demo_owner demo_configured, (default_settings, default_state))"

definition wire_for :: "ipc_response \<Rightarrow> wire" where
  "wire_for response = \<lparr>wi_command_to_vec = (\<lambda>_. ''sync''), wi_command_from_slice = (\<lambda>_. Ok TriggerSync),
     wi_response_to_vec = (\<lambda>_. ''done''), wi_response_from_slice = (\<lambda>_. Ok response)\<rparr>"

theorem invocation_is_one_owner_step_witness:
  "\<exists>response. \<forall>pr. snd (dispatch pr \<lparr>cli_json = False, cli_command = SyncCmd\<rparr>
       (client_ports (wire_for response) (demo_ports (Ok (Clean []))) (\<lambda>_ _. OkResponse []) True (Ok []) (Ok True) (Ok ())) demo_service)
     = handled (demo_ports (Ok (Clean []))) [TriggerSync] demo_service"
proof -
  let ?status = "\<lambda>_ _. OkResponse []"
  let ?request = "service_request (demo_ports (Ok (Clean []))) ?status TriggerSync demo_service"
  define response where "response = (case fst ?request of Ok r \<Rightarrow> r | Err _ \<Rightarrow> OkResponse [])"
  have "carries (wi_command_to_vec (wire_for response)) (wi_command_from_slice (wire_for response)) TriggerSync"
    by (simp add: carries_def wire_for_def newline_def carriage_return_def)
  moreover have "answer_carried (wire_for response) (fst ?request)"
    by (auto simp: answer_carried_def carries_def wire_for_def response_def newline_def carriage_return_def split: result.split)
  ultimately have "snd (dispatch pr \<lparr>cli_json = False, cli_command = SyncCmd\<rparr>
       (client_ports (wire_for response) (demo_ports (Ok (Clean []))) ?status True (Ok []) (Ok True) (Ok ())) demo_service)
     = handled (demo_ports (Ok (Clean []))) (owner_share (wire_for response) True (Some TriggerSync)) demo_service" for pr
    by (intro invocation_is_one_owner_step) (simp_all add: intended_def)
  then show ?thesis
    by (intro exI [of _ response]) (simp add: owner_share_def status_command_def wire_for_def IPC_MAX_LINE_BYTES_def)
qed

end
