(* ===== verification/Reconcile.thy ===== *)
theory Reconcile
  imports Execution
begin

text \<open>
  What the reconciling calls of \<open>sync_engine.rs\<close> promise over a server that keeps assets: however
  often a mutation is attempted, by an execution and by any number of replays after it, and whatever
  replies are lost, it takes effect at most once.
\<close>

section \<open>A server of assets\<close>

datatype remote_call =
    PatchCall u64 asset_patch_request
  | CheckoutCall u64 checkout_request
  | CheckinCall u64 checkin_request

primrec asset_of :: "remote_call \<Rightarrow> u64" where
  "asset_of (PatchCall i q) = i"
| "asset_of (CheckoutCall i q) = i"
| "asset_of (CheckinCall i q) = i"

primrec call_of :: "mutation \<Rightarrow> remote_call" where
  "call_of (PatchOp i q) = PatchCall i q"
| "call_of (CheckoutOp c) = CheckoutCall (co_source_asset_id c) (co_request c)"
| "call_of (CheckinOp k) = CheckinCall (ci_source_asset_id k) (ci_request k)"

text \<open>What an asset shows once a call has taken effect, stated of Snipe-IT's fields.\<close>

primrec shows_call :: "remote_call \<Rightarrow> asset \<Rightarrow> bool" where
  "shows_call (PatchCall i q) a \<longleftrightarrow>
     (\<forall>v. pr_name q = Some v \<longrightarrow> as_name a = v) \<and> (\<forall>v. pr_serial q = Some v \<longrightarrow> as_serial a = Some v)
     \<and> (\<forall>v. pr_asset_tag q = Some v \<longrightarrow> as_asset_tag a = Some v)
     \<and> (\<forall>v. pr_model_id q = Some v \<longrightarrow> (\<exists>m. as_model a = Some m \<and> am_id m = v))"
| "shows_call (CheckoutCall i q) a \<longleftrightarrow>
     (\<exists>t. as_assigned_to a = Some t \<and> nr_id t = assigned_asset q)
     \<and> (\<exists>s. as_status_label a = Some s \<and> nr_id s = co_status_id q)"
| "shows_call (CheckinCall i q) a \<longleftrightarrow>
     as_assigned_to a = None \<and> (\<exists>s. as_status_label a = Some s \<and> nr_id s = ci_status_id q)"

text \<open>
  The server: \<open>look\<close> is the asset under an ID and \<open>applied\<close> the calls that have taken effect.  A read
  changes nothing and answers the asset, or an error.  A mutation takes effect and the asset shows
  it, or it does not and answers an error; the answer to one that took effect may still be lost.
\<close>

definition call_lands ::
  "('w \<Rightarrow> u64 \<Rightarrow> asset) \<Rightarrow> ('w \<Rightarrow> remote_call list) \<Rightarrow> remote_call \<Rightarrow> bool \<Rightarrow> 'w \<Rightarrow> 'w \<Rightarrow> bool" where
  "call_lands look applied c ok w w' \<longleftrightarrow>
     (\<not> ok \<and> look w' = look w \<and> applied w' = applied w)
     \<or> (shows_call c (look w' (asset_of c)) \<and> applied w' = applied w @ [c])"

definition asset_server ::
  "('w \<Rightarrow> u64 \<Rightarrow> asset) \<Rightarrow> ('w \<Rightarrow> remote_call list) \<Rightarrow> 'w client_api \<Rightarrow> bool" where
  "asset_server look applied api \<longleftrightarrow>
     (\<forall>i w r w'. cl_get_asset api i w = (r, w') \<longrightarrow>
        look w' = look w \<and> applied w' = applied w \<and> (\<forall>a. r = Ok a \<longrightarrow> a = look w i))
     \<and> (\<forall>i q w r w'. cl_patch_asset api i q w = (r, w') \<longrightarrow>
        call_lands look applied (PatchCall i q) (is_ok r) w w' \<and> (\<forall>a. r = Ok a \<longrightarrow> a = look w' i))
     \<and> (\<forall>i q w r w'. cl_checkout_asset api i q w = (r, w') \<longrightarrow>
        call_lands look applied (CheckoutCall i q) (is_ok r) w w')
     \<and> (\<forall>i q w r w'. cl_checkin_asset api i q w = (r, w') \<longrightarrow>
        call_lands look applied (CheckinCall i q) (is_ok r) w w')"

section \<open>Attempts\<close>

text \<open>One attempt of a mutation as the service makes it.\<close>

primrec attempt :: "'w client_api \<Rightarrow> mutation \<Rightarrow> ('w, unit) io" where
  "attempt api (PatchOp i q) = bind_io (reconcile_patch api i q) (\<lambda>_. ret ())"
| "attempt api (CheckoutOp c) = reconcile_checkout api c"
| "attempt api (CheckinOp k) = reconcile_checkin api k"

text \<open>Attempts in a row, each with its answer: the service may have been restarted between them.\<close>

fun attempts :: "'w client_api \<Rightarrow> mutation \<Rightarrow> nat \<Rightarrow> 'w \<Rightarrow> (unit, failure) result list \<times> 'w" where
  "attempts api m 0 w = ([], w)"
| "attempts api m (Suc n) w =
     (case attempt api m w of (r, w1) \<Rightarrow> (case attempts api m n w1 of (rs, w2) \<Rightarrow> (r # rs, w2)))"

lemma applied_iff_shows:
  "patch_is_applied a q \<longleftrightarrow> shows_call (PatchCall i q) a"
  "checkout_is_applied a c \<longleftrightarrow> shows_call (CheckoutCall (co_source_asset_id c) (co_request c)) a"
  "checkin_is_applied a k \<longleftrightarrow> shows_call (CheckinCall (ci_source_asset_id k) (ci_request k)) a"
  by (auto simp: patch_is_applied_def checkout_is_applied_def checkin_is_applied_def status_is_def split: option.splits)

text \<open>
  One attempt: if the asset shows the call already, nothing takes effect; otherwise the call lands or
  nothing happens and the answer is an error; and success means that the asset shows the call.
\<close>

lemma attempt_lands:
  assumes server: "asset_server look applied api" and run: "attempt api m w = (r, w')"
  shows "if shows_call (call_of m) (look w (asset_of (call_of m))) then look w' = look w \<and> applied w' = applied w
    else call_lands look applied (call_of m) (is_ok r) w w'"
proof -
  obtain ra w1 where get: "cl_get_asset api (asset_of (call_of m)) w = (ra, w1)" by (rule prod.exhaust)
  then have read: "look w1 = look w" "applied w1 = applied w" "\<And>a. ra = Ok a \<Longrightarrow> a = look w (asset_of (call_of m))"
    using server by (auto simp: asset_server_def)
  show ?thesis
  proof (cases ra)
    case (Err e)
    with get run have "r = Err e" "w' = w1"
      by (cases m; simp add: reconcile_patch_def reconcile_checkout_def reconcile_checkin_def bind_io_def)+
    with read show ?thesis by (simp add: call_lands_def)
  next
    case (Ok a)
    then have a: "ra = Ok (look w (asset_of (call_of m)))" using read(3) by simp
    show ?thesis
    proof (cases "shows_call (call_of m) (look w (asset_of (call_of m)))")
      case True
      with get a run have "w' = w1"
        by (cases m; simp add: reconcile_patch_def reconcile_checkout_def reconcile_checkin_def bind_io_def
            applied_iff_shows [symmetric] del: shows_call.simps)
      with read True show ?thesis by simp
    next
      case False
      have "call_lands look applied (call_of m) (is_ok r) w1 w'"
      proof (cases m)
        case (PatchOp i q)
        obtain rq w2 where q: "cl_patch_asset api i q w1 = (rq, w2)" by (rule prod.exhaust)
        with PatchOp get a run False have "w' = w2" "is_ok r = is_ok rq"
          by (cases rq; auto simp: reconcile_patch_def bind_io_def applied_iff_shows [symmetric] simp del: shows_call.simps)+
        with PatchOp q server show ?thesis by (auto simp: asset_server_def)
      next
        case (CheckoutOp x)
        with get a run False have "cl_checkout_asset api (co_source_asset_id x) (co_request x) w1 = (r, w')"
          by (simp add: reconcile_checkout_def bind_io_def applied_iff_shows [symmetric] del: shows_call.simps)
        with CheckoutOp server show ?thesis by (auto simp: asset_server_def)
      next
        case (CheckinOp x)
        with get a run False have "cl_checkin_asset api (ci_source_asset_id x) (ci_request x) w1 = (r, w')"
          by (simp add: reconcile_checkin_def bind_io_def applied_iff_shows [symmetric] del: shows_call.simps)
        with CheckinOp server show ?thesis by (auto simp: asset_server_def)
      qed
      with read False show ?thesis by (simp add: call_lands_def)
    qed
  qed
qed

lemma attempts_shown:
  assumes "asset_server look applied api" "attempts api m n w = (rs, w')" "shows_call (call_of m) (look w (asset_of (call_of m)))"
  shows "look w' = look w \<and> applied w' = applied w"
  using assms(2,3)
proof (induction n arbitrary: w rs)
  case (Suc n)
  obtain r w1 where a: "attempt api m w = (r, w1)" by (rule prod.exhaust)
  have "look w1 = look w \<and> applied w1 = applied w" using attempt_lands [OF assms(1) a] Suc.prems(2) by simp
  with Suc.IH [of w1] Suc.prems a show ?case by (auto split: prod.splits)
qed simp

text \<open>
  C6: a mutation takes effect at most once.  However often an asset update, a checkout or a check-in
  is attempted (an execution and its replays all reconcile), whichever answers fail or are lost, the
  server has applied it at most once more than before, and not at all if the asset already showed
  it; and if one of the attempts answered success, the asset shows it at the end: the patched
  fields, the assignee and the status ID of a checkout, no assignee and the status ID of a check-in.
  The hypothesis is how the server applies calls, while nobody else changes the asset.
\<close>

theorem mutations_apply_at_most_once:
  assumes "asset_server look applied api" "attempts api m n w = (rs, w')"
  shows "(applied w' = applied w \<and> look w' = look w
      \<or> applied w' = applied w @ [call_of m] \<and> \<not> shows_call (call_of m) (look w (asset_of (call_of m))) \<and> shows_call (call_of m) (look w' (asset_of (call_of m))))
    \<and> (if \<exists>r\<in>set rs. is_ok r then shows_call (call_of m) (look w' (asset_of (call_of m))) else True)"
  using assms(2)
proof (induction n arbitrary: w rs)
  case (Suc n)
  obtain r w1 where a: "attempt api m w = (r, w1)" by (rule prod.exhaust)
  obtain rs1 w2 where b: "attempts api m n w1 = (rs1, w2)" by (rule prod.exhaust)
  then have s: "rs = r # rs1" "attempts api m n w1 = (rs1, w')" using Suc.prems a by simp_all
  note one = attempt_lands [OF assms(1) a] and rest = attempts_shown [OF assms(1) s(2)]
  consider "shows_call (call_of m) (look w (asset_of (call_of m)))" "look w1 = look w" "applied w1 = applied w"
    | "\<not> shows_call (call_of m) (look w (asset_of (call_of m)))" "\<not> is_ok r" "look w1 = look w" "applied w1 = applied w"
    | "\<not> shows_call (call_of m) (look w (asset_of (call_of m)))" "shows_call (call_of m) (look w1 (asset_of (call_of m)))" "applied w1 = applied w @ [call_of m]"
    using one by (auto simp: call_lands_def split: if_splits)
  then show ?case
  proof cases
    case 1
    then show ?thesis using rest s by simp
  next
    case 2
    then show ?thesis using Suc.IH [OF s(2)] s by simp
  next
    case 3
    then show ?thesis using rest s by simp
  qed
qed simp

section \<open>A concrete server\<close>

text \<open>
  A server of one list of changes: it keeps the assets and the applied calls, and loses the first
  answers to mutations, as many as \<open>sv_lose\<close> says, after applying them.
\<close>

record demo_server =
  sv_assets :: "u64 \<Rightarrow> asset"
  sv_applied :: "remote_call list"
  sv_lose :: nat

definition reference :: "u64 \<Rightarrow> named_reference" where
  "reference i = \<lparr>nr_id = i, nr_name = []\<rparr>"

definition serve :: "remote_call \<Rightarrow> (asset \<Rightarrow> asset) \<Rightarrow> (demo_server, asset) io" where
  "serve c f w =
     (let a = f (sv_assets w (asset_of c));
          w1 = w\<lparr>sv_assets := (sv_assets w)(asset_of c := a), sv_applied := sv_applied w @ [c], sv_lose := sv_lose w - 1\<rparr>
      in if 0 < sv_lose w then (Err (Message ''timed out''), w1) else (Ok a, w1))"

definition patch_fields :: "asset_patch_request \<Rightarrow> asset \<Rightarrow> asset" where
  "patch_fields q a = a
     \<lparr>as_name := (case pr_name q of Some n \<Rightarrow> n | None \<Rightarrow> as_name a),
      as_serial := (case pr_serial q of Some v \<Rightarrow> Some v | None \<Rightarrow> as_serial a),
      as_asset_tag := (case pr_asset_tag q of Some v \<Rightarrow> Some v | None \<Rightarrow> as_asset_tag a),
      as_model := (case pr_model_id q of None \<Rightarrow> as_model a
        | Some i \<Rightarrow> Some \<lparr>am_id = i, am_name = [], am_manufacturer = None, am_category = None\<rparr>)\<rparr>"

definition demo_server_api :: "demo_server client_api" where
  "demo_server_api =
     \<lparr>cl_get_asset = (\<lambda>i w. (Ok (sv_assets w i), w)),
      cl_patch_asset = (\<lambda>i q. serve (PatchCall i q) (patch_fields q)),
      cl_checkout_asset = (\<lambda>i q. bind_io (serve (CheckoutCall i q)
          (\<lambda>a. a\<lparr>as_assigned_to := Some (reference (assigned_asset q)), as_status_label := Some (reference (co_status_id q))\<rparr>))
        (\<lambda>_. ret ())),
      cl_checkin_asset = (\<lambda>i q. bind_io (serve (CheckinCall i q)
          (\<lambda>a. a\<lparr>as_assigned_to := None, as_status_label := Some (reference (ci_status_id q))\<rparr>))
        (\<lambda>_. ret ()))\<rparr>"

lemma demo_server_lands: "asset_server sv_assets sv_applied demo_server_api"
  by (auto simp: asset_server_def demo_server_api_def serve_def call_lands_def Let_def bind_io_def reference_def
      patch_fields_def split: if_splits option.splits)

definition demo_monitor :: asset where
  "demo_monitor = \<lparr>as_id = 5, as_name = ''Display'', as_serial = Some ''MON'', as_asset_tag = None,
     as_status_label = None, as_assigned_to = None, as_model = None\<rparr>"

definition demo_monitor_checkout :: monitor_checkout where
  "demo_monitor_checkout = \<lparr>co_operation_id = ''checkout:5:10:7'', co_source_asset_id = 5,
     co_request = \<lparr>checkout_to_type = ''asset'', assigned_asset = 10, co_status_id = 7\<rparr>\<rparr>"

text \<open>The answer to the first checkout is lost after it was applied; two replays follow.\<close>

lemma demo_attempts:
  "case attempts demo_server_api (CheckoutOp demo_monitor_checkout) 3
       \<lparr>sv_assets = (\<lambda>_. demo_monitor), sv_applied = [], sv_lose = 1\<rparr> of
     (rs, w') \<Rightarrow> rs = [Err (Message ''timed out''), Ok (), Ok ()] \<and> length (sv_applied w') = 1"
  by (simp add: numeral_3_eq_3 reconcile_checkout_def demo_server_api_def serve_def bind_io_def Let_def
      checkout_is_applied_def status_is_def demo_monitor_def demo_monitor_checkout_def reference_def)

theorem mutations_apply_at_most_once_witness:
  "case attempts demo_server_api (CheckoutOp demo_monitor_checkout) 3
       \<lparr>sv_assets = (\<lambda>_. demo_monitor), sv_applied = [], sv_lose = 1\<rparr> of
     (rs, w') \<Rightarrow> rs = [Err (Message ''timed out''), Ok (), Ok ()]
       \<and> sv_applied w' = [CheckoutCall 5 \<lparr>checkout_to_type = ''asset'', assigned_asset = 10, co_status_id = 7\<rparr>]
       \<and> map_option nr_id (as_assigned_to (sv_assets w' 5)) = Some 10
       \<and> map_option nr_id (as_status_label (sv_assets w' 5)) = Some 7"
proof -
  let ?w = "\<lparr>sv_assets = (\<lambda>_. demo_monitor), sv_applied = [], sv_lose = 1\<rparr>"
  obtain rs w' where run: "attempts demo_server_api (CheckoutOp demo_monitor_checkout) 3 ?w = (rs, w')"
    by (rule prod.exhaust)
  with demo_attempts have "rs = [Err (Message ''timed out''), Ok (), Ok ()]" "length (sv_applied w') = 1" by simp_all
  with mutations_apply_at_most_once [OF demo_server_lands run] run show ?thesis
    by (auto simp: demo_monitor_checkout_def)
qed

end
