(* ===== verification/Replacement.thy ===== *)
theory Replacement
  imports FileStore JournalStore
begin

text \<open>
  The two models of \<open>atomic_file::write\<close>: \<open>JournalStore.replace_journal\<close>, the replacement as the
  journal sees it, against \<open>AtomicFile.atomic_write\<close>, the file operations of the routine itself; and
  what a journal that a failed replacement lost means for the next start.
\<close>

text \<open>Two writes of given outcomes, told apart by what they leave under the destination's name.\<close>

definition replace_outcome_of :: "(unit, stop) result \<Rightarrow> u8 list \<Rightarrow> u8 list option \<Rightarrow> u8 list option \<Rightarrow> replace_outcome" where
  "replace_outcome_of r bytes old left =
     (if r = Ok () then Replaced else if left = old then NotReplaced
      else if left = Some bytes then ReplacedUnflushed else DestinationLost)"

text \<open>
  Whatever fails inside the write and wherever the process ends in it, the journal's file is left as
  one of the outcomes of \<open>replace_journal\<close> says, and it is lost only on Windows and if it existed.
\<close>

theorem journal_replacement_refines:
  assumes "atomic_write windows pid path bytes d = (r, d')" "content_of path d = jd_active j"
    and "replace_fault io = replace_outcome_of r bytes (jd_active j) (content_of path d')"
  shows "replace_journal io j bytes = (r = Ok (), j\<lparr>jd_active := content_of path d'\<rparr>)
    \<and> (replace_fault io = DestinationLost \<longrightarrow> windows \<and> jd_active j \<noteq> None)"
  using atomic_write_cases [OF assms(1)] assms(2,3)
  by (auto simp: replace_journal_def replace_outcome_of_def content_of_def split: if_splits dest: sym)

end
