(* ===== verification/Spec2Isabelle.thy ===== *)
theory Spec2Isabelle
  imports Ipc Identity ReplayJournal Gather Lifecycle FileStore OwnerProperties Fsm Scheduler Registration ServerIdentity PathPolicy Discovery Logging Platform HardwareService ServiceProcess Build Restart InterruptedWrite OwnerHarness CliProcess EntryPoints ServerQueries ServerLoop Connection FsmHandle Invocation Reconcile Replacement
begin

text \<open>
  SnipeSpotter is a Windows service that reads the hardware of the computer it runs on (the SMBIOS
  tables of the firmware, and the monitors), resolves it against a Snipe-IT inventory over HTTPS and
  keeps that inventory in step, with a command line client that talks to it over a named pipe.  This
  development models its Rust code, crate by crate, and proves what makes it correct.  Paths below
  are under \<open>src/\<close>.
\<close>

section \<open>The program and its model\<close>

text \<open>
  The layers of the model follow those of the program; each theory opens with the file it models.

  \<^item> Shared: \<open>Prelude\<close> (results, words, numbers as text, trimming), \<open>OrdMap\<close> (\<open>BTreeMap\<close>, as a locale
    with its interpretation on sorted association lists), \<open>Json\<close> (\<open>serde_json::Value\<close>), \<open>Effects\<close> (fallible effects
    on an explicit world with the question-mark operator as \<open>bind_io\<close>), \<open>Contracts\<close> (pre- and
    postconditions of effects), \<open>Machines\<close> (a locale for state machines), \<open>Handles\<close> (resources of the operating
    system, in a ledger).
  \<^item> The pure core, \<open>spotter-core/src\<close>: \<open>Config\<close> (\<open>config.rs\<close>), \<open>Monitors\<close> (\<open>monitors.rs\<close>), \<open>State\<close>
    (\<open>state.rs\<close>), \<open>Ipc\<close> (\<open>ipc.rs\<close>), \<open>Identity\<close> (\<open>identity.rs\<close>), \<open>SnipeIt\<close> (\<open>snipeit/mod.rs\<close>), \<open>Smbios\<close>
    (\<open>smbios.rs\<close>), \<open>SyncPlan\<close> (\<open>sync.rs\<close>).
  \<^item> Durable data, \<open>spotter-svc/src\<close>: \<open>Journal\<close>, \<open>Sha256\<close> and \<open>JournalStore\<close> (\<open>operation_journal.rs\<close>: its
    records, its digest, its file), \<open>AtomicFile\<close> (\<open>atomic_file.rs\<close>) and on it \<open>FileStore\<close> (\<open>state_io.rs\<close>, \<open>config_io.rs\<close>);
    \<open>DiskFrame\<close> (what a write under any controller keeps of the disk) and \<open>InterruptedWrite\<close> (the injected faults, the
    barriers and the helper process of \<open>bin/spotter-atomic-helper.rs\<close>); \<open>Replacement\<close> (the outcomes of a replaced
    journal are those of \<open>AtomicFile\<close>).
  \<^item> Synchronization: \<open>Engine\<close> and \<open>Replay\<close> (\<open>sync_engine.rs\<close>: execution and commit, recovery), \<open>Client\<close>
    and \<open>Connection\<close> (\<open>snipeit_client.rs\<close>: calls and responses, construction and requests on the wire), \<open>Gather\<close> (\<open>gather.rs\<close>), \<open>Discovery\<close> (\<open>discovery.rs\<close>); \<open>Execution\<close>, \<open>ExecutionJournal\<close> and
    \<open>ReplayJournal\<close> hold what is proved of the engine over the journal, \<open>Reconcile\<close> what over a server of assets.
  \<^item> The service: \<open>Lifecycle\<close> (\<open>lib.rs\<close>, \<open>status.rs\<close>, \<open>status_publisher.rs\<close>), \<open>Owner\<close> (\<open>service.rs\<close>: the owner of the state,
    one function per command) with \<open>OwnerInvariant\<close> and \<open>OwnerProperties\<close>, \<open>Fsm\<close> and \<open>FsmHandle\<close> (\<open>fsm.rs\<close>: the
    queue, the loop and the claim of a synchronization; the handle with its channels), \<open>Scheduler\<close> (\<open>scheduler.rs\<close>),
    \<open>IpcServer\<close> and \<open>ServerLoop\<close> (\<open>ipc_server.rs\<close>: sessions and the accept loop; the secured pipe and the sequential
    loop), \<open>Logging\<close> (\<open>logging.rs\<close>), \<open>ServiceProcess\<close> (\<open>service.rs\<close>: the run of the process from its arguments to its
    last report), \<open>OwnerHarness\<close> (\<open>lib.rs\<close>, \<open>test_support\<close>: the owner over the ports of a test, with journal faults).
  \<^item> The whole service: \<open>Production\<close> (\<open>owner_ports.rs\<close>: the production ports over one machine with its disk, and what
    they call of the other files) and \<open>Restart\<close> (a start on that machine, and the invariant of what is stored);
    \<open>Invocation\<close> composes the client, the pipe, the command loop and the owner.
  \<^item> The client, \<open>spotter-cli/src\<close>: \<open>Cli\<close> (dispatch and exchange), \<open>CliOutput\<close>
    (\<open>cli_output.rs\<close>), \<open>CommandLine\<close> (\<open>command_line.rs\<close>), \<open>Registration\<close> (installation and removal), \<open>CliProcess\<close>
    (\<open>main.rs\<close> and the transport, in the production and the test-support build).
  \<^item> Windows, \<open>spotter-win32/src\<close>: \<open>ServerIdentity\<close> and \<open>ServerQueries\<close> (\<open>pipe.rs\<close>: the decisions, and the queries with
    what they own), \<open>Platform\<close> (\<open>mutex.rs\<close>, \<open>elevation.rs\<close>,
    \<open>dpapi.rs\<close>, and \<open>windows_acl.rs\<close> of the service).
  \<^item> The hardware service, \<open>spotter-hardware-service/src\<close>: \<open>PathPolicy\<close> (\<open>path_policy.rs\<close>), \<open>PathInspect\<close>
    (\<open>windows_path_policy.rs\<close>), \<open>HardwareService\<close> (\<open>main.rs\<close>); \<open>EntryPoints\<close> (the processes of this service and of
    the main one).
  \<^item> \<open>Build\<close> (\<open>spotter-build/src/lib.rs\<close>): the resources of the executables.

  They interact as follows.  \<open>run_service\<close> of \<open>ServiceProcess\<close> protects and loads the files, admits the
  journal and builds the owner (\<open>start_owner\<close>), which a configured service first lets recover its pending
  operations (\<open>recover_pending\<close>).  Requests of the pipe server and of the scheduler enter
  the command loop of \<open>Fsm\<close>, which lets \<open>handle\<close> of \<open>Owner\<close> run one at a time.  A synchronization recovers, gathers
  (\<open>gather_sync\<close>), plans (\<open>plan_sync\<close>), executes with the journal written ahead
  (\<open>execute_plan_with_candidate\<close>), saves the signed state and commits.  The client checks who serves the
  pipe (\<open>ServerIdentity\<close>), encodes a request and renders the answer.
\<close>

section \<open>How the model reads\<close>

text \<open>
  A struct is a record, an enum a datatype, an integer a word of its width, a string its UTF-8 bytes as
  a list of characters, a \<open>BTreeMap\<close> a sorted association list.  A fallible function answers a \<open>result\<close>;
  a stateful one is an effect on a world, whose ports are the fields of a record.  The owner
  is an explicit record besides the world, a panic of a command is the answer None, and the journal and the
  files are disks whose operations may fail or end the process at any of them.  Tasks are machines over
  their channels and a clock.  Third-party code is a parameter: the derived serde and TOML codecs,
  HMAC-SHA256, the HTTP transport, chrono's formats, the Windows calls, the Service Control
  Manager.  What a proof needs of them is a named hypothesis (such as \<open>serde_round_trips\<close>), and a
  witness shows that it can hold.

  Loops that the code bounds keep its bounds: 16 attempts to allocate a temporary file, 100 pages of a
  list, 16 sessions of the pipe, 64 KiB of a line, a queue of 32 commands.  Loops it does not bound are partial
  functions into option: the waits for a service's state and for its removal, the supervision of the
  collector and the sequential pipe loop are None exactly when they run for ever; that the waits and the
  supervision return is proved from the clock or from the events that arrive (\<open>Registration\<close>, \<open>HardwareService\<close>).  No definition has fuel.
\<close>

section \<open>What is shown\<close>

text \<open>
  \<^item> Write-ahead and recovery: an execution requests preparation, mutation, observation in turn, each only
    after all before it succeeded; the journal scans after any prefix of them and recovery rebuilds the state a
    crash lost (if the journal named none of the plan's operations before); recovery replays what is pending, and a
    mutation that is attempted again and again takes effect at most once; torn appends, blocked journals and
    compaction keep every byte accounted for, but for a replacement that Windows loses, which is stated; the
    index-shifting scan refines one automaton per operation.
  \<^item> Planning: exactly which monitors are checked out and in, and that a plan settles unless an absent monitor
    shares its asset with a connected one; the inventory diff
    and the SMBIOS parser refine direct specifications.
  \<^item> The remote: success exactly on the recognised answers, complete pagination, exact gathering, and the
    token on requests to the configured server only.
  \<^item> The owner: well formed, settled and durable after every command, settings behind every gate, a failed
    recovery stops it; the command loop ends in one state and merges synchronizations exactly; the scheduler
    never sends early.
  \<^item> The process: files are old or new after any crash (or lost by a replacement on Windows), StartPending and Running are
    reported exactly when every call of the start before them succeeded, and the mutex is released last, an unclean journal blocks it, and after any commands and any failures on the machine of the
    production ports the next start finds the key, the state and the settings (below).
  \<^item> The pipe and the client: one bounded command per connection, the exchange equals a direct call, the server is the
    registered one, configurations, statuses and check-ins reach the terminal without control characters (messages
    pass as they are), uninstalling returns, an exit with code 2
    means that nothing was sent, a client talks to the service that it would register, and a whole
    invocation of the client is one step of the owner or none.
  \<^item> The harness of the tests: injected faults stop a write where they say, the marker of a barrier tells the truth, and
    the owner of a test starts as that of the service.
  \<^item> Windows resources: every handle and allocation is released exactly once and never used after it,
    decrypted secrets are overwritten, and no collector starts that the path policy would refuse.

  The proofs rest on a few interfaces stated as locales and interpreted on the model:
  \<open>ordered_map\<close>, \<open>evidence_store\<close> (the journal's scan), \<open>atomic_store\<close> (the file store), \<open>machine\<close> (command loop, scheduler, accept loop),
  \<open>owner_steps\<close> and its extensions (what the owner's commands keep).

  Modelling also showed behaviours the code does not intend; they are theorems where the model can state
  them, such as \<open>shared_asset_oscillates\<close>, \<open>replanned_committed_operation_corrupts\<close>, \<open>replace_without_backup_can_lose\<close>,
  \<open>lost_compaction_reads_clean\<close>, \<open>saves_postpone_the_sync\<close>, \<open>sequential_clients_are_refused\<close>, \<open>write_mask_is_not_write_access\<close> and
  \<open>failure_is_recorded_where_refused\<close>.
\<close>

section \<open>Not modelled\<close>

text \<open>
  The argument parser and the console of the client (clap), the derived codecs, TLS and HTTP (reqwest),
  the subscriber of the tracing packages, the dispatcher of the Service Control Manager and the Windows
  calls themselves: they are code that is not in the repository, and enter the model as ports that may
  answer anything.  Of the repository's own code, the TLS server of the tests (\<open>tls_test_fixture.rs\<close>), the fakes
  inside test modules, the branches for other systems than Windows where they only refuse, and log
  messages other than the milestones of the start are left out.
\<close>

section \<open>The service across a restart\<close>

text \<open>
  C9: a restart resumes.  A service that has started (\<open>boot\<close>: settings, journal, key, state, owner) on the
  machine of the production ports handles any commands, with any failure of any file, network or
  Windows operation and the process ending at any of them.  Then the next start loads the same key, a
  state that authenticates under it, and valid settings if the settings file is there; and they are
  exactly the active state and the active settings, unless a save of that file failed after it had changed
  the file, and none has succeeded since.  The hypothesis on the formats is that TOML reads back what it prints.
\<close>

theorem restart_resumes_service:
  assumes "formats_read_back pd" "length random = 32" "mc_torn m = {}"
    and "boot pd random m = (Ok (key, ow), m1)"
    and "handled (production_ports (keyed pd key)) commands (ow, m1) = (ow2, m2)"
  shows "fst (load_or_create_key True pid ''state-hmac-key.bin'' random2 (quiet_disk m2)) = Ok key
    \<and> is_ok (fst (load_state (pd_state_format pd) ''state.toml'' key (quiet_disk m2)))
    \<and> (''state.toml'' \<in> mc_torn m2
        \<or> fst (load_state (pd_state_format pd) ''state.toml'' key (quiet_disk m2)) = Ok (ow_persisted ow2))
    \<and> (dk_files (mc_disk m2) ''settings.toml'' = None
        \<or> is_ok (fst (load_settings True pid (pd_settings_format pd) ''settings.toml'' (quiet_disk m2))))
    \<and> (''settings.toml'' \<in> mc_torn m2
        \<or> fst (load_settings True pid (pd_settings_format pd) ''settings.toml'' (quiet_disk m2)) = Ok (ow_settings ow2))"
proof -
  have "formats_read_back (keyed pd key)" using assms(1) by (simp add: formats_read_back_def keyed_def)
  from handled_resumes [OF this boot_resumes [OF assms(1-4)], of commands]
  have "resumes (keyed pd key) (ow2, m2)" by (simp add: assms(5))
  then have K: "stored_key (keyed pd key) m2" and S: "\<exists>st. stored_state (keyed pd key) st m2"
    "''state.toml'' \<in> mc_torn m2 \<or> stored_state (keyed pd key) (ow_persisted ow2) m2"
    and C: "dk_files (mc_disk m2) ''settings.toml'' = None \<or> (\<exists>s. stored_settings (keyed pd key) s m2)"
    "''settings.toml'' \<in> mc_torn m2 \<or> stored_settings (keyed pd key) (ow_settings ow2) m2"
    by (simp_all add: resumes_def)
  from load_stored_key [OF K] load_stored_settings [of "keyed pd key" _ m2 pid] S C show ?thesis
    by (auto simp: keyed_def stored_state_def)
qed

theorem restart_resumes_service_witness:
  "\<exists>ow m. boot demo_production demo_key demo_machine = (Ok (demo_key, ow), m)
     \<and> fst (load_or_create_key True 9 ''state-hmac-key.bin'' [] (quiet_disk (snd (handled
           (production_ports (keyed demo_production demo_key)) [SetConfig ''polling.interval_hours'' ''4'', GetStatus] (ow, m)))))
         = Ok demo_key"
proof -
  let ?P = "production_ports (keyed demo_production demo_key)"
    and ?cs = "[SetConfig ''polling.interval_hours'' ''4'', GetStatus]"
  obtain ow m where b: "boot demo_production demo_key demo_machine = (Ok (demo_key, ow), m)"
    using demo_boot by blast
  obtain ow2 m2 where h: "handled ?P ?cs (ow, m) = (ow2, m2)" by (rule prod.exhaust)
  have "length demo_key = 32" "mc_torn demo_machine = {}" by (simp_all add: demo_key_def demo_machine_def)
  from restart_resumes_service [OF demo_formats this b h, of 9 "[]"] b h show ?thesis by auto
qed

end
